(* ===== verification/Prelude.thy ===== *)
theory Prelude
  imports Complex_Main "HOL-Library.AList" "HOL-Library.Char_ord" "HOL-Library.List_Lexorder"
begin

text \<open>
  Shared vocabulary of the development: Python exceptions as values, a small
  state-and-exception combinator library for code that calls Redis and the Proxmox
  API, and the generic list and association-list lemmas that several components use.

  An operation that may raise has type \<open>exn + 'a\<close> (\<open>Inl\<close> the exception). An
  operation that also changes state has type \<open>'s \<Rightarrow> (exn + 'a) \<times> 's\<close>: the state
  changes made before an exception is raised persist, as they do in the program.
\<close>

subsection \<open>Named collections\<close>

named_theorems act_simps \<open>evaluation rules of the state-and-exception combinators\<close>
named_theorems frame_simps \<open>what an operation leaves unchanged\<close>
named_theorems lookup_simps \<open>lookups after updates of a store\<close>

subsection \<open>Exceptions\<close>

text \<open>
  The exception classes the code raises or distinguishes, each with the text of
  \<open>str(exc)\<close>. \<open>ApiError\<close> stands for every exception raised by a library call that the
  code only ever catches as \<open>Exception\<close>. \<open>OutOfFuel\<close> is no Python exception: it is
  the outcome of a polling loop of the model that used up the number of iterations it was
  given, so no handler catches it; the components prove how much fuel is enough.
\<close>

datatype exn =
    RuntimeError string
  | ValueError string
  | KeyError string
  | TypeError string
  | TimeoutError string
  | TaskCancelled string
  | GuestOwnershipError string
  | HTTPException int string
  | AttributeError string
  | ApiError string
  | OutOfFuel

primrec exn_str :: "exn \<Rightarrow> string" where
  "exn_str (RuntimeError m) = m"
| "exn_str (ValueError m) = m"
| "exn_str (KeyError m) = CHR 0x27 # m @ [CHR 0x27]"
| "exn_str (TypeError m) = m"
| "exn_str (TimeoutError m) = m"
| "exn_str (TaskCancelled m) = m"
| "exn_str (GuestOwnershipError m) = m"
| "exn_str (HTTPException c m) = m"
| "exn_str (AttributeError m) = m"
| "exn_str (ApiError m) = m"
| "exn_str OutOfFuel = []"

text \<open>\<open>TaskCancelled\<close> and \<open>GuestOwnershipError\<close> are subclasses of \<open>RuntimeError\<close>.\<close>

fun is_runtime_error :: "exn \<Rightarrow> bool" where
  "is_runtime_error (RuntimeError m) = True"
| "is_runtime_error (TaskCancelled m) = True"
| "is_runtime_error (GuestOwnershipError m) = True"
| "is_runtime_error e = False"

subsection \<open>Results and actions\<close>

definition res_bind :: "exn + 'a \<Rightarrow> ('a \<Rightarrow> exn + 'b) \<Rightarrow> exn + 'b" where
  "res_bind r f = (case r of Inl e \<Rightarrow> Inl e | Inr x \<Rightarrow> f x)"

lemma res_bind_simps [simp, act_simps]:
  "res_bind (Inl e) f = Inl e"
  "res_bind (Inr x) f = f x"
  by (simp_all add: res_bind_def)

lemma res_bind_eq_Inr [simp]:
  "res_bind r f = Inr y \<longleftrightarrow> (\<exists>x. r = Inr x \<and> f x = Inr y)"
  by (cases r) auto

lemma res_bind_eq_Inl:
  "res_bind r f = Inl e \<longleftrightarrow> r = Inl e \<or> (\<exists>x. r = Inr x \<and> f x = Inl e)"
  by (cases r) auto

text \<open>A list comprehension whose body may raise: the first exception wins.\<close>

primrec map_res :: "('a \<Rightarrow> exn + 'b) \<Rightarrow> 'a list \<Rightarrow> exn + 'b list" where
  "map_res f [] = Inr []"
| "map_res f (x # xs) = res_bind (f x) (\<lambda>y. res_bind (map_res f xs) (\<lambda>ys. Inr (y # ys)))"

lemma map_res_Inr_iff:
  "map_res f xs = Inr ys \<longleftrightarrow> list_all2 (\<lambda>x y. f x = Inr y) xs ys"
  by (induction xs arbitrary: ys) (auto simp: list_all2_Cons1)

lemma map_res_length: "map_res f xs = Inr ys \<Longrightarrow> length ys = length xs"
  by (simp add: map_res_Inr_iff list_all2_lengthD)

lemma map_res_mem: "map_res f xs = Inr ys \<Longrightarrow> x \<in> set xs \<Longrightarrow> \<exists>y \<in> set ys. f x = Inr y"
  by (induction xs arbitrary: ys) auto

lemma map_res_range: "map_res f xs = Inr ys \<Longrightarrow> y \<in> set ys \<Longrightarrow> \<exists>x \<in> set xs. f x = Inr y"
  by (induction xs arbitrary: ys) auto

lemma map_res_Inl: "map_res f xs = Inl e \<Longrightarrow> \<exists>x \<in> set xs. f x = Inl e"
  by (induction xs) (auto simp: res_bind_eq_Inl)

type_synonym ('s, 'a) act = "'s \<Rightarrow> (exn + 'a) \<times> 's"

definition ret_act :: "'a \<Rightarrow> ('s, 'a) act" where
  "ret_act x s = (Inr x, s)"

definition raise_act :: "exn \<Rightarrow> ('s, 'a) act" where
  "raise_act e s = (Inl e, s)"

definition res_act :: "exn + 'a \<Rightarrow> ('s, 'a) act" where
  "res_act r s = (r, s)"

definition upd_act :: "('s \<Rightarrow> 's) \<Rightarrow> ('s, unit) act" where
  "upd_act f s = (Inr (), f s)"

definition get_act :: "('s \<Rightarrow> 'a) \<Rightarrow> ('s, 'a) act" where
  "get_act f s = (Inr (f s), s)"

definition bind_act :: "('s, 'a) act \<Rightarrow> ('a \<Rightarrow> ('s, 'b) act) \<Rightarrow> ('s, 'b) act" where
  "bind_act m f s = (case m s of (Inl e, s') \<Rightarrow> (Inl e, s') | (Inr x, s') \<Rightarrow> f x s')"

text \<open>\<open>try: m except Exception as e: h e\<close>\<close>

definition catch_act :: "('s, 'a) act \<Rightarrow> (exn \<Rightarrow> ('s, 'a) act) \<Rightarrow> ('s, 'a) act" where
  "catch_act m h s =
     (case m s of
        (Inl e, s') \<Rightarrow> if e = OutOfFuel then (Inl e, s') else h e s'
      | (Inr x, s') \<Rightarrow> (Inr x, s'))"

definition when_act :: "bool \<Rightarrow> ('s, unit) act \<Rightarrow> ('s, unit) act" where
  "when_act b m = (if b then m else ret_act ())"

primrec each_act :: "('a \<Rightarrow> ('s, unit) act) \<Rightarrow> 'a list \<Rightarrow> ('s, unit) act" where
  "each_act f [] = ret_act ()"
| "each_act f (x # xs) = bind_act (f x) (\<lambda>_. each_act f xs)"

primrec map_act :: "('a \<Rightarrow> ('s, 'b) act) \<Rightarrow> 'a list \<Rightarrow> ('s, 'b list) act" where
  "map_act f [] = ret_act []"
| "map_act f (x # xs) =
     bind_act (f x) (\<lambda>y. bind_act (map_act f xs) (\<lambda>ys. ret_act (y # ys)))"

lemma act_eval [act_simps]:
  "ret_act x s = (Inr x, s)"
  "raise_act e s = (Inl e, s)"
  "res_act r s = (r, s)"
  "upd_act f s = (Inr (), f s)"
  "get_act g s = (Inr (g s), s)"
  "when_act True m = m"
  "when_act False m = ret_act ()"
  by (simp_all add: ret_act_def raise_act_def res_act_def upd_act_def get_act_def when_act_def)

lemma bind_act_eval [act_simps]:
  "m s = (Inl e, s') \<Longrightarrow> bind_act m f s = (Inl e, s')"
  "m s = (Inr x, s') \<Longrightarrow> bind_act m f s = f x s'"
  by (simp_all add: bind_act_def)

lemma catch_act_eval [act_simps]:
  "m s = (Inl e, s') \<Longrightarrow> e \<noteq> OutOfFuel \<Longrightarrow> catch_act m h s = h e s'"
  "m s = (Inr x, s') \<Longrightarrow> catch_act m h s = (Inr x, s')"
  by (simp_all add: catch_act_def)

lemma bind_act_cases:
  assumes "bind_act m f s = (r, t)"
  obtains (exn) e where "m s = (Inl e, t)" "r = Inl e"
  | (val) x s' where "m s = (Inr x, s')" "f x s' = (r, t)"
  using assms by (auto simp: bind_act_def split: prod.splits sum.splits)

lemma bind_act_Inr_iff:
  "bind_act m f s = (Inr y, t) \<longleftrightarrow> (\<exists>x s'. m s = (Inr x, s') \<and> f x s' = (Inr y, t))"
  by (auto simp: bind_act_def split: prod.splits sum.splits)

lemma catch_act_cases:
  assumes "catch_act m h s = (r, t)"
  obtains (ok) x where "m s = (Inr x, t)" "r = Inr x"
  | (caught) e s' where "m s = (Inl e, s')" "e \<noteq> OutOfFuel" "h e s' = (r, t)"
  | (fuel) "m s = (Inl OutOfFuel, t)" "r = Inl OutOfFuel"
  using assms by (auto simp: catch_act_def split: prod.splits sum.splits if_splits)

text \<open>Where an \<open>OutOfFuel\<close> outcome can come from\<close>

lemma bind_act_fuel:
  "fst (bind_act m f s) = Inl OutOfFuel \<longleftrightarrow>
     fst (m s) = Inl OutOfFuel \<or> (\<exists>x s'. m s = (Inr x, s') \<and> fst (f x s') = Inl OutOfFuel)"
  by (auto simp: bind_act_def split: prod.splits sum.splits)

lemma catch_act_fuel:
  "fst (catch_act m h s) = Inl OutOfFuel \<longleftrightarrow>
     fst (m s) = Inl OutOfFuel \<or>
     (\<exists>e s'. m s = (Inl e, s') \<and> e \<noteq> OutOfFuel \<and> fst (h e s') = Inl OutOfFuel)"
  by (auto simp: catch_act_def split: prod.splits sum.splits if_splits)

lemma basic_act_fuel:
  "fst (ret_act x s) \<noteq> Inl OutOfFuel" "fst (raise_act e s) = Inl OutOfFuel \<longleftrightarrow> e = OutOfFuel"
  "fst (res_act r s) = Inl OutOfFuel \<longleftrightarrow> r = Inl OutOfFuel"
  "fst (upd_act g s) \<noteq> Inl OutOfFuel" "fst (get_act g' s) \<noteq> Inl OutOfFuel"
  by (simp_all add: ret_act_def raise_act_def res_act_def upd_act_def get_act_def)

lemmas act_fuel = bind_act_fuel catch_act_fuel basic_act_fuel

subsection \<open>State relations kept by actions\<close>

text \<open>
  \<open>keeps R m\<close>: whatever \<open>m\<close> returns or raises, the state before and the state after
  are related by \<open>R\<close>. With \<open>R\<close> reflexive and transitive the relation composes, which
  is what the frame and trace lemmas of the components use.
\<close>

definition keeps :: "('s \<Rightarrow> 's \<Rightarrow> bool) \<Rightarrow> ('s, 'a) act \<Rightarrow> bool" where
  "keeps R m \<longleftrightarrow> (\<forall>s. R s (snd (m s)))"

lemma keepsI: "(\<And>s r t. m s = (r, t) \<Longrightarrow> R s t) \<Longrightarrow> keeps R m"
  unfolding keeps_def by (metis prod.collapse)

lemma keepsD: "keeps R m \<Longrightarrow> m s = (r, t) \<Longrightarrow> R s t"
  unfolding keeps_def by (metis snd_conv)

locale state_preorder =
  fixes R :: "'s \<Rightarrow> 's \<Rightarrow> bool"
  assumes refl: "R s s"
    and trans: "R s t \<Longrightarrow> R t u \<Longrightarrow> R s u"
begin

lemma keeps_ret [intro, simp]: "keeps R (ret_act x)"
  by (simp add: keeps_def ret_act_def refl)

lemma keeps_raise [intro, simp]: "keeps R (raise_act e)"
  by (simp add: keeps_def raise_act_def refl)

lemma keeps_res [intro, simp]: "keeps R (res_act r)"
  by (simp add: keeps_def res_act_def refl)

lemma keeps_get [intro, simp]: "keeps R (get_act g)"
  by (simp add: keeps_def get_act_def refl)

lemma keeps_upd [intro]: "(\<And>s. R s (f s)) \<Longrightarrow> keeps R (upd_act f)"
  by (simp add: keeps_def upd_act_def)

lemma keeps_bind [intro]: "keeps R m \<Longrightarrow> (\<And>x. keeps R (f x)) \<Longrightarrow> keeps R (bind_act m f)"
  by (rule keepsI) (auto elim!: bind_act_cases dest: keepsD intro: trans)

lemma keeps_catch [intro]: "keeps R m \<Longrightarrow> (\<And>e. keeps R (h e)) \<Longrightarrow> keeps R (catch_act m h)"
  by (rule keepsI) (auto elim!: catch_act_cases dest: keepsD intro: trans)

lemma keeps_when [intro]: "keeps R m \<Longrightarrow> keeps R (when_act b m)"
  by (simp add: when_act_def)

lemma keeps_if [intro]: "(b \<Longrightarrow> keeps R m) \<Longrightarrow> (\<not> b \<Longrightarrow> keeps R n) \<Longrightarrow> keeps R (if b then m else n)"
  by simp

lemma keeps_each [intro]: "(\<And>x. x \<in> set xs \<Longrightarrow> keeps R (f x)) \<Longrightarrow> keeps R (each_act f xs)"
  by (induction xs) auto

lemma keeps_map [intro]: "(\<And>x. x \<in> set xs \<Longrightarrow> keeps R (f x)) \<Longrightarrow> keeps R (map_act f xs)"
  by (induction xs) auto

end

subsection \<open>Association lists\<close>

lemma map_of_update [simp, lookup_simps]:
  "map_of (AList.update k v al) k' = (if k' = k then Some v else map_of al k')"
  by (simp add: AList.update_conv)

lemma map_of_merge [simp, lookup_simps]:
  "map_of (AList.merge al bl) k = (case map_of bl k of None \<Rightarrow> map_of al k | Some v \<Rightarrow> Some v)"
  by (simp add: AList.merge_conv' map_add_def)

lemma map_of_delete_iff [simp, lookup_simps]:
  "map_of (AList.delete k al) k' = (if k' = k then None else map_of al k')"
  by (simp add: AList.delete_conv')

lemma map_of_NoneI: "k \<notin> fst ` set al \<Longrightarrow> map_of al k = None"
  by (simp add: map_of_eq_None_iff)

lemma merge_Nil_iff [simp]: "AList.merge al bl = [] \<longleftrightarrow> al = [] \<and> bl = []"
proof -
  have "fst ` set (AList.merge al bl) = fst ` set al \<union> fst ` set bl"
    by (rule AList.dom_merge)
  then show ?thesis by auto
qed

subsection \<open>Lists\<close>

text \<open>Order-preserving removal of later duplicates, and of the later elements with a seen key.\<close>

fun dedup_by :: "('a \<Rightarrow> 'k) \<Rightarrow> 'k list \<Rightarrow> 'a list \<Rightarrow> 'a list" where
  "dedup_by f seen [] = []"
| "dedup_by f seen (x # xs) =
     (if f x \<in> set seen then dedup_by f seen xs else x # dedup_by f (f x # seen) xs)"

lemma dedup_by_keys:
  "set (map f (dedup_by f seen xs)) = f ` set xs - set seen"
  by (induction f seen xs rule: dedup_by.induct) auto

lemma dedup_by_distinct:
  "distinct (map f (dedup_by f seen xs))"
proof (induction f seen xs rule: dedup_by.induct)
  case (2 f seen x xs)
  then show ?case
    using dedup_by_keys [of f "f x # seen" xs] by auto
qed simp

lemma dedup_by_subset: "set (dedup_by f seen xs) \<subseteq> set xs"
  by (induction f seen xs rule: dedup_by.induct) auto

lemma dedup_by_fixpoint:
  "distinct (map f xs) \<Longrightarrow> set (map f xs) \<inter> set seen = {} \<Longrightarrow> dedup_by f seen xs = xs"
  by (induction f seen xs rule: dedup_by.induct) auto

text \<open>Python's \<open>sorted\<close> on a set of identifiers.\<close>

lemma sorted_list_of_set_set [simp]: "set (sorted_list_of_set (set xs)) = set xs"
  by simp

end
