(* ===== verification/PyStr.thy ===== *)
theory PyStr
  imports Prelude
begin

text \<open>
  The Python string operations the program uses, on \<open>string\<close> (a list of characters).
  Characters are bytes, so the case and whitespace tables are those of ASCII; strings are
  compared code point by code point, as \<open>HOL-Library.List_Lexorder\<close> does.
\<close>

subsection \<open>Whitespace, case, affixes\<close>

definition is_space :: "char \<Rightarrow> bool" where
  "is_space c \<longleftrightarrow> c \<in> {CHR 0x20, CHR 0x09, CHR 0x0A, CHR 0x0B, CHR 0x0C, CHR 0x0D,
                       CHR 0x1C, CHR 0x1D, CHR 0x1E, CHR 0x1F}"

text \<open>The dash that some messages contain, in UTF-8\<close>

definition em_dash :: string where
  "em_dash = [CHR 0xE2, CHR 0x80, CHR 0x94]"

definition lstrip :: "string \<Rightarrow> string" where
  "lstrip s = dropWhile is_space s"

definition rstrip :: "string \<Rightarrow> string" where
  "rstrip s = rev (dropWhile is_space (rev s))"

definition strip :: "string \<Rightarrow> string" where
  "strip s = rstrip (lstrip s)"

definition lstrip_chars :: "char list \<Rightarrow> string \<Rightarrow> string" where
  "lstrip_chars cs s = dropWhile (\<lambda>c. c \<in> set cs) s"

definition rstrip_chars :: "char list \<Rightarrow> string \<Rightarrow> string" where
  "rstrip_chars cs s = rev (dropWhile (\<lambda>c. c \<in> set cs) (rev s))"

definition strip_chars :: "char list \<Rightarrow> string \<Rightarrow> string" where
  "strip_chars cs s = rstrip_chars cs (lstrip_chars cs s)"

definition is_upper :: "char \<Rightarrow> bool" where
  "is_upper c \<longleftrightarrow> CHR ''A'' \<le> c \<and> c \<le> CHR ''Z''"

definition is_lower :: "char \<Rightarrow> bool" where
  "is_lower c \<longleftrightarrow> CHR ''a'' \<le> c \<and> c \<le> CHR ''z''"

definition is_digit :: "char \<Rightarrow> bool" where
  "is_digit c \<longleftrightarrow> CHR ''0'' \<le> c \<and> c \<le> CHR ''9''"

definition lower_char :: "char \<Rightarrow> char" where
  "lower_char c = (if is_upper c then char_of (of_char c + (32::nat)) else c)"

definition lower :: "string \<Rightarrow> string" where
  "lower s = map lower_char s"

definition startswith :: "string \<Rightarrow> string \<Rightarrow> bool" where
  "startswith p s \<longleftrightarrow> take (length p) s = p"

definition endswith :: "string \<Rightarrow> string \<Rightarrow> bool" where
  "endswith p s \<longleftrightarrow> startswith (rev p) (rev s)"

text \<open>\<open>p in s\<close>\<close>

fun contains :: "string \<Rightarrow> string \<Rightarrow> bool" where
  "contains p [] \<longleftrightarrow> p = []"
| "contains p (c # s) \<longleftrightarrow> startswith p (c # s) \<or> contains p s"

lemma startswith_append [simp]: "startswith p (p @ s)"
  by (simp add: startswith_def)

lemma startswith_iff: "startswith p s \<longleftrightarrow> (\<exists>t. s = p @ t)"
  unfolding startswith_def by (metis append_eq_conv_conj)

lemma endswith_iff: "endswith p s \<longleftrightarrow> (\<exists>t. s = t @ p)"
proof
  assume "endswith p s"
  then obtain t where "rev s = rev p @ t"
    by (auto simp: endswith_def startswith_iff)
  then have "rev (rev s) = rev t @ p" by (metis rev_append rev_rev_ident)
  then show "\<exists>t. s = t @ p" by auto
next
  assume "\<exists>t. s = t @ p"
  then show "endswith p s" by (auto simp: endswith_def)
qed

lemma contains_iff: "contains p s \<longleftrightarrow> (\<exists>a b. s = a @ p @ b)"
proof (induction p s rule: contains.induct)
  case (1 p)
  then show ?case by auto
next
  case (2 p c s)
  show ?case (is "?l \<longleftrightarrow> ?r")
  proof
    assume ?l
    then show ?r
    proof (elim contains.simps(2) [THEN iffD1, THEN disjE])
      assume "startswith p (c # s)"
      then obtain t where "c # s = [] @ p @ t" by (auto simp: startswith_iff)
      then show ?r by blast
    next
      assume "contains p s"
      then obtain a b where "s = a @ p @ b" using 2 by blast
      then have "c # s = (c # a) @ p @ b" by simp
      then show ?r by blast
    qed
  next
    assume ?r
    then obtain a b where ab: "c # s = a @ p @ b" by blast
    show ?l
    proof (cases a)
      case Nil
      with ab have "startswith p (c # s)" by (auto simp: startswith_iff)
      then show ?l by simp
    next
      case (Cons d a')
      with ab have "s = a' @ p @ b" by simp
      with 2 have "contains p s" by blast
      then show ?l by simp
    qed
  qed
qed

lemma contains_append_left [simp]: "contains p s \<Longrightarrow> contains p (t @ s)"
  by (metis append.assoc contains_iff)

lemma contains_append_right [simp]: "contains p s \<Longrightarrow> contains p (s @ t)"
  by (metis append.assoc contains_iff)

lemma startswith_before_sep:
  "startswith q (p @ d # r) \<Longrightarrow> d \<notin> set q \<Longrightarrow> startswith q p"
proof (induction q arbitrary: p)
  case (Cons x q)
  then show ?case by (cases p) (auto simp: startswith_def)
qed (simp add: startswith_def)

lemma contains_sep:
  "contains q (p @ d # r) \<Longrightarrow> d \<notin> set q \<Longrightarrow> contains q p \<or> contains q r"
proof (induction p)
  case Nil
  then show ?case using startswith_before_sep [of q "[]" d r] by (auto simp: startswith_def)
next
  case (Cons c p)
  then show ?case using startswith_before_sep [of q "c # p" d r] by auto
qed

lemma contains_self [simp]: "contains p p"
  by (metis append_Nil append_Nil2 contains_iff)

lemma strip_no_leading: "strip s \<noteq> [] \<Longrightarrow> \<not> is_space (hd (strip s))"
proof -
  assume ne: "strip s \<noteq> []"
  have hd_last: "\<not> is_space (hd (dropWhile is_space s))" if "dropWhile is_space s \<noteq> []"
    using that hd_dropWhile by blast
  obtain u where u: "lstrip s = strip s @ u"
    by (metis strip_def rstrip_def rev_append rev_rev_ident takeWhile_dropWhile_id)
  with ne have "hd (strip s) = hd (lstrip s)" "lstrip s \<noteq> []" by auto
  with hd_last show ?thesis by (simp add: lstrip_def)
qed

lemma strip_no_trailing: "strip s \<noteq> [] \<Longrightarrow> \<not> is_space (last (strip s))"
  by (metis hd_dropWhile last_rev rev_is_Nil_conv rstrip_def strip_def)

lemma strip_eq_self:
  assumes "s \<noteq> []" "\<not> is_space (hd s)" "\<not> is_space (last s)"
  shows "strip s = s"
proof -
  from assms have l: "lstrip s = s" by (cases s) (auto simp: lstrip_def)
  obtain r a where "s = r @ [a]" using assms(1) by (cases s rule: rev_cases) auto
  with assms(3) have "rstrip s = s" by (simp add: rstrip_def)
  with l show ?thesis by (simp add: strip_def)
qed

lemma strip_Nil [simp]: "strip [] = []"
  by (simp add: strip_def lstrip_def rstrip_def)

lemma strip_idem [simp]: "strip (strip s) = strip s"
proof (cases "strip s = []")
  case False
  then show ?thesis by (intro strip_eq_self strip_no_leading strip_no_trailing)
qed simp

lemma set_strip: "set (strip s) \<subseteq> set s"
  by (auto simp: strip_def lstrip_def rstrip_def dest!: set_dropWhileD)

subsection \<open>Case conversion\<close>

lemma of_char_char_of_small: "n < 256 \<Longrightarrow> of_char (char_of n) = (n :: nat)"
  by simp

lemma is_upper_of_char: "is_upper c \<longleftrightarrow> 65 \<le> (of_char c :: nat) \<and> (of_char c :: nat) \<le> 90"
  by (simp add: is_upper_def less_eq_char_def)

lemma is_lower_of_char: "is_lower c \<longleftrightarrow> 97 \<le> (of_char c :: nat) \<and> (of_char c :: nat) \<le> 122"
  by (simp add: is_lower_def less_eq_char_def)

lemma lower_char_not_upper: "\<not> is_upper (lower_char c)"
  by (auto simp: lower_char_def is_upper_of_char)

lemma lower_char_idem [simp]: "lower_char (lower_char c) = lower_char c"
  using lower_char_not_upper [of c] by (simp add: lower_char_def [of "lower_char c"])

lemma lower_idem [simp]: "lower (lower s) = lower s"
  by (simp add: lower_def)

lemma lower_append [simp]: "lower (s @ t) = lower s @ lower t"
  by (simp add: lower_def)

lemma lower_Nil_iff [simp]: "lower s = [] \<longleftrightarrow> s = []"
  by (simp add: lower_def)

lemma is_space_of_char: "is_space c \<longleftrightarrow>
    (of_char c :: nat) \<in> {32, 9, 10, 11, 12, 13, 28, 29, 30, 31}"
proof -
  have eq: "c = d \<longleftrightarrow> (of_char c :: nat) = of_char d" for d
    by (metis char_of_char)
  show ?thesis unfolding is_space_def by (simp add: eq)
qed

lemma is_space_lower_char [simp]: "is_space (lower_char c) \<longleftrightarrow> is_space c"
  by (auto simp: lower_char_def is_upper_of_char is_space_of_char)

lemma strip_lower: "strip (lower s) = lower (strip s)"
  by (simp add: strip_def lstrip_def rstrip_def lower_def dropWhile_map comp_def rev_map)

subsection \<open>Split and join\<close>

fun split_on :: "char \<Rightarrow> string \<Rightarrow> string list" where
  "split_on d [] = [[]]"
| "split_on d (c # s) =
     (if c = d then [] # split_on d s
      else (case split_on d s of [] \<Rightarrow> [[c]] | p # ps \<Rightarrow> (c # p) # ps))"

fun join_on :: "string \<Rightarrow> string list \<Rightarrow> string" where
  "join_on sep [] = []"
| "join_on sep [p] = p"
| "join_on sep (p # q # ps) = p @ sep @ join_on sep (q # ps)"

definition replace_char :: "char \<Rightarrow> char \<Rightarrow> string \<Rightarrow> string" where
  "replace_char a b s = map (\<lambda>c. if c = a then b else c) s"

lemma split_on_not_Nil [simp]: "split_on d s \<noteq> []"
  by (induction d s rule: split_on.induct) (auto split: list.splits)

lemma split_on_no_sep: "d \<notin> set s \<Longrightarrow> split_on d s = [s]"
  by (induction d s rule: split_on.induct) auto

lemma split_on_pieces: "p \<in> set (split_on d s) \<Longrightarrow> d \<notin> set p"
proof (induction d s arbitrary: p rule: split_on.induct)
  case (2 d c s)
  then show ?case
    by (cases "split_on d s") (auto split: if_splits)
qed simp

lemma split_on_append_sep:
  "d \<notin> set p \<Longrightarrow> split_on d (p @ d # s) = p # split_on d s"
  by (induction p) auto

lemma split_join:
  "ps \<noteq> [] \<Longrightarrow> \<forall>p \<in> set ps. d \<notin> set p \<Longrightarrow> split_on d (join_on [d] ps) = ps"
proof (induction "[d]" ps rule: join_on.induct)
  case (3 p q ps)
  then show ?case by (simp add: split_on_append_sep)
qed (auto simp: split_on_no_sep)

lemma contains_join:
  "contains q (join_on [d] ps) \<Longrightarrow> d \<notin> set q \<Longrightarrow> ps \<noteq> [] \<Longrightarrow> \<exists>p \<in> set ps. contains q p"
  by (induction "[d]" ps rule: join_on.induct) (auto dest!: contains_sep)

lemma join_split: "join_on [d] (split_on d s) = s"
proof (induction d s rule: split_on.induct)
  case (2 d c s)
  obtain p ps where s: "split_on d s = p # ps"
    by (cases "split_on d s") auto
  with 2 show ?case
    by (cases ps) auto
qed simp

lemma split_on_flat: "set s \<subseteq> insert d (\<Union> (set ` set (split_on d s)))"
proof (induction d s rule: split_on.induct)
  case (2 d c s)
  then show ?case by (cases "split_on d s") (auto split: if_splits)
qed simp

subsection \<open>Decimal integers\<close>

definition digit_char :: "nat \<Rightarrow> char" where
  "digit_char d = ''0123456789'' ! d"

definition digit_val :: "char \<Rightarrow> nat" where
  "digit_val c = of_char c - 48"

fun str_of_nat :: "nat \<Rightarrow> string" where
  "str_of_nat n = (if n < 10 then [digit_char n] else str_of_nat (n div 10) @ [digit_char (n mod 10)])"

declare str_of_nat.simps [simp del]

definition str_of_int :: "int \<Rightarrow> string" where
  "str_of_int i = (if i < 0 then CHR ''-'' # str_of_nat (nat (- i)) else str_of_nat (nat i))"

text \<open>
  Python's \<open>int(text)\<close> on a decimal literal: surrounding whitespace, an optional sign and
  digits, with single underscores allowed between digits. \<open>None\<close> is \<open>ValueError\<close>.
\<close>

fun digits_value :: "nat \<Rightarrow> bool \<Rightarrow> string \<Rightarrow> nat option" where
  "digits_value acc prev [] = (if prev then Some acc else None)"
| "digits_value acc prev (c # s) =
     (if is_digit c then digits_value (10 * acc + digit_val c) True s
      else if c = CHR ''_'' \<and> prev then digits_value acc False s
      else None)"

definition int_of_str :: "string \<Rightarrow> int option" where
  "int_of_str s =
     (case strip s of
        [] \<Rightarrow> None
      | c # ds \<Rightarrow>
          (if c = CHR ''-'' then map_option (\<lambda>n. - int n) (digits_value 0 False ds)
           else if c = CHR ''+'' then map_option int (digits_value 0 False ds)
           else map_option int (digits_value 0 False (c # ds))))"

lemma digit_char_facts:
  assumes "d < 10"
  shows "is_digit (digit_char d)" "digit_val (digit_char d) = d" "\<not> is_space (digit_char d)"
    "digit_char d \<noteq> CHR ''-''" "digit_char d \<noteq> CHR ''+''" "digit_char d \<noteq> CHR ''_''"
proof -
  have "d = 0 \<or> d = 1 \<or> d = 2 \<or> d = 3 \<or> d = 4 \<or> d = 5 \<or> d = 6 \<or> d = 7 \<or> d = 8 \<or> d = 9"
    using assms by arith
  then show "is_digit (digit_char d)" "digit_val (digit_char d) = d" "\<not> is_space (digit_char d)"
    "digit_char d \<noteq> CHR ''-''" "digit_char d \<noteq> CHR ''+''" "digit_char d \<noteq> CHR ''_''"
    by (auto simp: digit_char_def is_digit_def digit_val_def is_space_def less_eq_char_def)
qed

lemma digits_value_append:
  "t \<noteq> [] \<Longrightarrow> (\<And>c. c \<in> set t \<Longrightarrow> is_digit c) \<Longrightarrow>
   digits_value acc p (t @ u) =
     digits_value (foldl (\<lambda>a c. 10 * a + digit_val c) acc t) True u"
proof (induction t arbitrary: acc p)
  case (Cons c t)
  then show ?case by (cases "t = []") simp_all
qed simp

lemma str_of_nat_digits: "c \<in> set (str_of_nat n) \<Longrightarrow> is_digit c \<and> \<not> is_space c
    \<and> c \<noteq> CHR ''-'' \<and> c \<noteq> CHR ''+'' \<and> c \<noteq> CHR ''_''"
proof (induction n rule: str_of_nat.induct)
  case (1 n)
  then show ?case
    using digit_char_facts [of n] digit_char_facts [of "n mod 10"]
    by (subst (asm) (2) str_of_nat.simps) (auto split: if_splits)
qed

lemma str_of_nat_not_Nil [simp]: "str_of_nat n \<noteq> []"
  by (subst str_of_nat.simps) simp

lemma str_of_nat_value: "foldl (\<lambda>a c. 10 * a + digit_val c) 0 (str_of_nat n) = n"
proof (induction n rule: str_of_nat.induct)
  case (1 n)
  then show ?case
    using digit_char_facts(2) [of n] digit_char_facts(2) [of "n mod 10"]
    by (subst str_of_nat.simps) auto
qed

lemma digits_value_str_of_nat: "digits_value 0 False (str_of_nat n) = Some n"
proof -
  have "digits_value 0 False (str_of_nat n @ []) =
      digits_value (foldl (\<lambda>a c. 10 * a + digit_val c) 0 (str_of_nat n)) True []"
    using str_of_nat_digits by (intro digits_value_append) auto
  then show ?thesis by (simp add: str_of_nat_value)
qed

lemma str_of_int_ends:
  "str_of_int i \<noteq> []" "\<not> is_space (hd (str_of_int i))" "\<not> is_space (last (str_of_int i))"
  using str_of_nat_digits [of "hd (str_of_nat (nat i))" "nat i"]
    str_of_nat_digits [of "last (str_of_nat (nat i))" "nat i"]
    str_of_nat_digits [of "last (str_of_nat (nat (- i)))" "nat (- i)"]
  by (auto simp: str_of_int_def is_space_def)

lemma strip_str_of_int [simp]: "strip (str_of_int i) = str_of_int i"
  by (rule strip_eq_self) (rule str_of_int_ends)+

lemma str_of_int_not_Nil [simp]: "str_of_int i \<noteq> []"
  by (rule str_of_int_ends)

theorem int_of_str_of_int [simp]: "int_of_str (str_of_int i) = Some i"
proof (cases "i < 0")
  case True
  then have "strip (str_of_int i) = CHR ''-'' # str_of_nat (nat (- i))"
    by (simp only: strip_str_of_int) (simp add: str_of_int_def)
  with True show ?thesis
    unfolding int_of_str_def by (simp only: list.case) (simp add: digits_value_str_of_nat)
next
  case False
  obtain c ds where cs: "str_of_nat (nat i) = c # ds"
    by (cases "str_of_nat (nat i)") auto
  then have "c \<noteq> CHR ''-''" "c \<noteq> CHR ''+''"
    using str_of_nat_digits [of c "nat i"] by auto
  moreover from False cs have "strip (str_of_int i) = c # ds"
    by (simp only: strip_str_of_int) (simp add: str_of_int_def)
  moreover have "digits_value 0 False (c # ds) = Some (nat i)"
    using digits_value_str_of_nat [of "nat i"] by (simp only: cs)
  ultimately show ?thesis
    using False unfolding int_of_str_def by (simp only: list.case) simp
qed

lemma str_of_int_inj [simp]: "str_of_int i = str_of_int j \<longleftrightarrow> i = j"
  by (metis int_of_str_of_int option.inject)

end
