(* ===== verification/PyVal.thy ===== *)
theory PyVal
  imports PyStr
begin

text \<open>
  Dynamically typed Python values, as they arrive in request payloads, in the YAML
  configuration and in JSON answers of the Proxmox API, with the coercions the code
  applies to them. Floating-point numbers are not among them.
\<close>

datatype pyval =
    PNone
  | PBool bool
  | PInt int
  | PStr string
  | PList "pyval list"
  | PDict "(string \<times> pyval) list"

type_synonym dict = "(string \<times> pyval) list"

text \<open>\<open>bool(v)\<close>, \<open>a or b\<close>\<close>

fun truthy :: "pyval \<Rightarrow> bool" where
  "truthy PNone = False"
| "truthy (PBool b) = b"
| "truthy (PInt i) = (i \<noteq> 0)"
| "truthy (PStr s) = (s \<noteq> [])"
| "truthy (PList xs) = (xs \<noteq> [])"
| "truthy (PDict d) = (d \<noteq> [])"

definition py_or :: "pyval \<Rightarrow> pyval \<Rightarrow> pyval" where
  "py_or a b = (if truthy a then a else b)"

text \<open>\<open>d.get(k, dflt)\<close> and \<open>d.get(k)\<close>\<close>

definition dget_or :: "dict \<Rightarrow> string \<Rightarrow> pyval \<Rightarrow> pyval" where
  "dget_or d k dflt = (case map_of d k of None \<Rightarrow> dflt | Some v \<Rightarrow> v)"

definition dget :: "dict \<Rightarrow> string \<Rightarrow> pyval" where
  "dget d k = dget_or d k PNone"

lemma dget_simps [simp]:
  "map_of d k = Some v \<Longrightarrow> dget d k = v"
  "map_of d k = None \<Longrightarrow> dget d k = PNone"
  by (simp_all add: dget_def dget_or_def)

lemma dget_Nil [simp]: "dget [] k = PNone"
  by (simp add: dget_def dget_or_def)

text \<open>\<open>repr\<close> of a string and of a value, \<open>str\<close> of a value\<close>

definition hex_char :: "nat \<Rightarrow> char" where
  "hex_char d = ''0123456789abcdef'' ! d"

definition escape_char :: "char \<Rightarrow> char \<Rightarrow> string" where
  "escape_char q c =
     (if c = q \<or> c = CHR 0x5C then [CHR 0x5C, c]
      else if c = CHR 0x0A then [CHR 0x5C, CHR ''n'']
      else if c = CHR 0x0D then [CHR 0x5C, CHR ''r'']
      else if c = CHR 0x09 then [CHR 0x5C, CHR ''t'']
      else if (of_char c :: nat) < 32 \<or> (of_char c :: nat) = 127
        then [CHR 0x5C, CHR ''x'', hex_char (of_char c div 16), hex_char (of_char c mod 16)]
      else [c])"

definition repr_str :: "string \<Rightarrow> string" where
  "repr_str s =
     (let q = (if CHR 0x27 \<in> set s \<and> CHR 0x22 \<notin> set s then CHR 0x22 else CHR 0x27)
      in q # concat (map (escape_char q) s) @ [q])"

fun repr_val :: "pyval \<Rightarrow> string" where
  "repr_val PNone = ''None''"
| "repr_val (PBool b) = (if b then ''True'' else ''False'')"
| "repr_val (PInt i) = str_of_int i"
| "repr_val (PStr s) = repr_str s"
| "repr_val (PList xs) = ''['' @ join_on '', '' (map repr_val xs) @ '']''"
| "repr_val (PDict d) =
     CHR 0x7B # join_on '', '' (map (\<lambda>(k, v). repr_str k @ '': '' @ repr_val v) d) @ [CHR 0x7D]"

fun py_str :: "pyval \<Rightarrow> string" where
  "py_str (PStr s) = s"
| "py_str v = repr_val v"

text \<open>\<open>str(v or '')\<close>, the most frequent coercion of the code\<close>

definition str_or_empty :: "pyval \<Rightarrow> string" where
  "str_or_empty v = py_str (py_or v (PStr []))"

lemma str_or_empty_simps [simp]:
  "str_or_empty (PStr s) = s"
  "str_or_empty PNone = []"
  by (simp_all add: str_or_empty_def py_or_def)

text \<open>\<open>int(v)\<close>\<close>

fun py_int :: "pyval \<Rightarrow> exn + int" where
  "py_int (PInt i) = Inr i"
| "py_int (PBool b) = Inr (if b then 1 else 0)"
| "py_int (PStr s) =
     (case int_of_str s of
        Some i \<Rightarrow> Inr i
      | None \<Rightarrow> Inl (ValueError (''invalid literal for int() with base 10: '' @ repr_str s)))"
| "py_int v = Inl (TypeError ''int() argument must be a string or a real number'')"

lemma py_int_str_of_int [simp]: "py_int (PStr (str_of_int i)) = Inr i"
  by simp

text \<open>\<open>try: int(v) except (TypeError, ValueError): dflt\<close>; \<open>int\<close> raises nothing else.\<close>

definition py_int_or :: "pyval \<Rightarrow> int \<Rightarrow> int" where
  "py_int_or v dflt = (case py_int v of Inr i \<Rightarrow> i | Inl e \<Rightarrow> dflt)"

lemma py_int_or_PInt [simp]: "py_int_or (PInt i) d = i"
  by (simp add: py_int_or_def)

text \<open>
  \<open>float(v)\<close> as an exact rational: decimal numerals with an optional point and exponent;
  \<open>inf\<close> and \<open>nan\<close> are not represented. \<open>py_float_or\<close> is the conversion in a
  \<open>try ... except (TypeError, ValueError)\<close>.
\<close>

definition decimal_of_str :: "string \<Rightarrow> rat option" where
  "decimal_of_str s =
     (let (sgn, r) = (case s of [] \<Rightarrow> (1, []) | c # r \<Rightarrow>
            if c = CHR ''-'' then (- 1, r) else if c = CHR ''+'' then (1, r) else (1, s));
          ip = takeWhile is_digit r; r1 = dropWhile is_digit r;
          fp = (if startswith ''.'' r1 then takeWhile is_digit (tl r1) else []);
          r2 = (if startswith ''.'' r1 then dropWhile is_digit (tl r1) else r1);
          scale = (\<lambda>n. sgn * of_nat n / 10 ^ length fp)
      in case digits_value 0 False (ip @ fp) of
           None \<Rightarrow> None
         | Some n \<Rightarrow>
             if r2 = [] then Some (scale n)
             else if lower_char (hd r2) \<noteq> CHR ''e'' then None
             else (case int_of_str (tl r2) of
                     None \<Rightarrow> None
                   | Some e \<Rightarrow> Some (if e < 0 then scale n / 10 ^ nat (- e) else scale n * 10 ^ nat e)))"

fun py_float :: "pyval \<Rightarrow> exn + rat" where
  "py_float (PInt i) = Inr (of_int i)"
| "py_float (PBool b) = Inr (if b then 1 else 0)"
| "py_float (PStr s) =
     (case decimal_of_str (strip s) of
        Some x \<Rightarrow> Inr x
      | None \<Rightarrow> Inl (ValueError (''could not convert string to float: '' @ repr_str s)))"
| "py_float v = Inl (TypeError ''float() argument must be a string or a real number'')"

definition py_float_or :: "pyval \<Rightarrow> rat \<Rightarrow> rat" where
  "py_float_or v dflt = (case py_float v of Inr x \<Rightarrow> x | Inl e \<Rightarrow> dflt)"

text \<open>\<open>v.strip()\<close>: only strings have the method.\<close>

fun py_strip :: "pyval \<Rightarrow> exn + string" where
  "py_strip (PStr s) = Inr (strip s)"
| "py_strip v = Inl (AttributeError ''object has no attribute strip'')"

fun is_dict :: "pyval \<Rightarrow> bool" where
  "is_dict (PDict d) = True"
| "is_dict v = False"

text \<open>\<open>[row for row in rows if isinstance(row, dict)]\<close>\<close>

fun dict_rows :: "pyval list \<Rightarrow> dict list" where
  "dict_rows [] = []"
| "dict_rows (PDict d # vs) = d # dict_rows vs"
| "dict_rows (v # vs) = dict_rows vs"

text \<open>
  The rows of an API answer: a bare list, or a dict whose \<open>data\<close> is a list; \<open>None\<close> for
  any other shape.
\<close>

fun unwrap_rows :: "pyval \<Rightarrow> pyval list option" where
  "unwrap_rows (PList vs) = Some vs"
| "unwrap_rows (PDict d) = (case dget d ''data'' of PList vs \<Rightarrow> Some vs | _ \<Rightarrow> None)"
| "unwrap_rows v = None"

text \<open>\<open>raw["data"] if isinstance(raw.get("data"), dict) else raw\<close> for a dict, else \<open>{}\<close>\<close>

fun unwrap_dict :: "pyval \<Rightarrow> dict" where
  "unwrap_dict (PDict d) = (case dget d ''data'' of PDict d' \<Rightarrow> d' | _ \<Rightarrow> d)"
| "unwrap_dict v = []"

end
