(* ===== verification/States.thy ===== *)
theory States
  imports PyVal
begin

text \<open>
  The four string enumerations of \<open>states.py\<close> with their values, and the lifecycle order
  of restore jobs: \<open>PENDING\<close>, then \<open>RESTORING\<close>, then one of the three terminal states.
\<close>

datatype restore_state = PENDING | RESTORING | COMPLETED | FAILED | CANCELLED

primrec state_value :: "restore_state \<Rightarrow> string" where
  "state_value PENDING = ''PENDING''"
| "state_value RESTORING = ''RESTORING''"
| "state_value COMPLETED = ''COMPLETED''"
| "state_value FAILED = ''FAILED''"
| "state_value CANCELLED = ''CANCELLED''"

datatype plan_verification = NOT_VERIFIED | NEEDS_VERIFIED | VERIFIED

primrec verification_value :: "plan_verification \<Rightarrow> string" where
  "verification_value NOT_VERIFIED = ''NOT_VERIFIED''"
| "verification_value NEEDS_VERIFIED = ''NEEDS_VERIFIED''"
| "verification_value VERIFIED = ''VERIFIED''"

datatype plan_assurance = A_UNKNOWN | A_IN_PROGRESS | A_ASSURED | A_FAILED

primrec assurance_value :: "plan_assurance \<Rightarrow> string" where
  "assurance_value A_UNKNOWN = ''UNKNOWN''"
| "assurance_value A_IN_PROGRESS = ''IN_PROGRESS''"
| "assurance_value A_ASSURED = ''ASSURED''"
| "assurance_value A_FAILED = ''FAILED''"

datatype plan_run_status = R_RUNNING | R_COMPLETED | R_FAILED | R_CANCELLED

primrec run_status_value :: "plan_run_status \<Rightarrow> string" where
  "run_status_value R_RUNNING = ''RUNNING''"
| "run_status_value R_COMPLETED = ''COMPLETED''"
| "run_status_value R_FAILED = ''FAILED''"
| "run_status_value R_CANCELLED = ''CANCELLED''"

text \<open>\<open>TERMINAL\<close> of \<open>job_hygiene.py\<close>, on the values as they are stored in Redis\<close>

definition TERMINAL :: "string list" where
  "TERMINAL = [state_value COMPLETED, state_value FAILED, state_value CANCELLED]"

lemma state_value_inj [simp]: "state_value a = state_value b \<longleftrightarrow> a = b"
  by (cases a; cases b; simp)

lemma verification_value_inj [simp]: "verification_value a = verification_value b \<longleftrightarrow> a = b"
  by (cases a; cases b; simp)

lemma assurance_value_inj [simp]: "assurance_value a = assurance_value b \<longleftrightarrow> a = b"
  by (cases a; cases b; simp)

lemma run_status_value_inj [simp]: "run_status_value a = run_status_value b \<longleftrightarrow> a = b"
  by (cases a; cases b; simp)

lemma TERMINAL_iff [simp]:
  "state_value st \<in> set TERMINAL \<longleftrightarrow> st \<in> {COMPLETED, FAILED, CANCELLED}"
  by (cases st) (simp_all add: TERMINAL_def)

text \<open>The lifecycle order\<close>

primrec life_rank :: "restore_state \<Rightarrow> nat" where
  "life_rank PENDING = 0"
| "life_rank RESTORING = 1"
| "life_rank COMPLETED = 2"
| "life_rank FAILED = 2"
| "life_rank CANCELLED = 2"

instantiation restore_state :: order
begin

definition less_eq_restore_state :: "restore_state \<Rightarrow> restore_state \<Rightarrow> bool" where
  "less_eq_restore_state a b \<longleftrightarrow> a = b \<or> life_rank a < life_rank b"

definition less_restore_state :: "restore_state \<Rightarrow> restore_state \<Rightarrow> bool" where
  "less_restore_state a b \<longleftrightarrow> life_rank a < life_rank b"

instance
  by standard (auto simp: less_eq_restore_state_def less_restore_state_def)

end

lemma terminal_maximal:
  "a \<in> {COMPLETED, FAILED, CANCELLED} \<Longrightarrow> a \<le> b \<longleftrightarrow> b = a"
  by (cases b) (auto simp: less_eq_restore_state_def)

lemma PENDING_least [simp]: "PENDING \<le> a"
  by (cases a) (simp_all add: less_eq_restore_state_def)

end
