(* ===== verification/Store.thy ===== *)
theory Store
  imports PyVal
begin

text \<open>
  The state the program works on: the Redis keyspace (hashes, lists and strings, each an
  association list from full keys; the typed JSON documents are added by the record
  extension of the plan components) and the history of calls made to the Proxmox API,
  the guests and the clock. Redis commands are total and atomic here.

  The outside world is the record \<open>env\<close>: a function that answers each call from the
  history of the calls made before it, a clock and its ISO rendering (\<open>utc_now_iso\<close>) read
  from the same history, and the supply of \<open>uuid4\<close>, of which the state counts how many were
  drawn. \<open>cancel_by\<close> is the other process that writes to a running job: whether the API has
  set the \<open>cancel_requested\<close> flag of a job by now. Nothing is assumed about it unless a lemma names the assumption.
\<close>

subsection \<open>Calls to the outside\<close>

record restore_params =
  rp_vmid :: int
  rp_archive :: string
  rp_storage :: string
  rp_live :: bool
  rp_unique :: bool
  rp_force :: bool
  rp_bwlimit :: "int option"

datatype ext_call =
    ClusterResources
  | ConfigGet string int
  | ConfigPut string int "(string \<times> string) list"
  | StatusStop string int int
  | StatusCurrent string int
  | StatusStart string int
  | QemuDelete string int bool bool
  | RestorePost string restore_params
  | TaskStatus string string
  | TaskLog string string int int
  | TaskDelete string string
  | AgentPing string int bool
  | AgentHostname string int bool
  | NodesGet
  | StorageGet string
  | ExtractConfig string string
  | Connect
  | HttpGet string
  | WireEstimate string
  | SmtpSend string int "string list" string string
  | WebhookPost string dict
  | PbsGet string "(string \<times> string) list" "(string \<times> string) list" "(string \<times> string) list"
  | PbsPost string "(string \<times> string) list"
  | VersionGet
  | Sleep rat

record env =
  api :: "ext_call list \<Rightarrow> ext_call \<Rightarrow> exn + pyval"
  clock :: "ext_call list \<Rightarrow> rat"
  iso :: "ext_call list \<Rightarrow> string"
  uuid :: "nat \<Rightarrow> string"
  cancel_by :: "ext_call list \<Rightarrow> string \<Rightarrow> bool"
  fuel :: nat

subsection \<open>Configuration\<close>

text \<open>
  The keys the code reads without a default (\<open>cfg["redis"]["job_key_prefix"]\<close>) are fields,
  the sections it reads with \<open>get\<close> are dictionaries.
\<close>

record cfg =
  job_key_prefix :: string
  job_log_suffix :: string
  queue_key :: string
  redis_cfg :: dict
  worker_cfg :: dict
  plans_cfg :: dict
  proxmox_cfg :: dict
  notify_cfg :: dict
  pbs_cfg :: dict
  pbs_servers :: pyval

subsection \<open>State\<close>

type_synonym hash = "(string \<times> string) list"

record store =
  hashes :: "(string \<times> hash) list"
  rlists :: "(string \<times> string list) list"
  strs :: "(string \<times> string) list"
  expiry :: "(string \<times> int) list"
  calls :: "ext_call list"
  uuids :: nat

definition empty_store :: store where
  "empty_store = \<lparr>hashes = [], rlists = [], strs = [], expiry = [], calls = [], uuids = 0\<rparr>"

text \<open>Redis commands\<close>

definition hgetall :: "string \<Rightarrow> 'x store_scheme \<Rightarrow> hash" where
  "hgetall key s = (case map_of (hashes s) key of None \<Rightarrow> [] | Some h \<Rightarrow> h)"

definition hset :: "string \<Rightarrow> hash \<Rightarrow> 'x store_scheme \<Rightarrow> 'x store_scheme" where
  "hset key m s = s\<lparr>hashes := AList.update key (AList.merge (hgetall key s) m) (hashes s)\<rparr>"

definition lrange_all :: "string \<Rightarrow> 'x store_scheme \<Rightarrow> string list" where
  "lrange_all key s = (case map_of (rlists s) key of None \<Rightarrow> [] | Some xs \<Rightarrow> xs)"

definition set_list :: "string \<Rightarrow> string list \<Rightarrow> 'x store_scheme \<Rightarrow> 'x store_scheme" where
  "set_list key xs s =
     s\<lparr>rlists := (if xs = [] then AList.delete key (rlists s) else AList.update key xs (rlists s))\<rparr>"

definition rpush :: "string \<Rightarrow> string \<Rightarrow> 'x store_scheme \<Rightarrow> 'x store_scheme" where
  "rpush key x s = set_list key (lrange_all key s @ [x]) s"

definition lrem_all :: "string \<Rightarrow> string \<Rightarrow> 'x store_scheme \<Rightarrow> 'x store_scheme" where
  "lrem_all key x s = set_list key (filter (\<lambda>y. y \<noteq> x) (lrange_all key s)) s"

definition get_str :: "string \<Rightarrow> 'x store_scheme \<Rightarrow> string option" where
  "get_str key s = map_of (strs s) key"

definition set_str :: "string \<Rightarrow> string \<Rightarrow> 'x store_scheme \<Rightarrow> 'x store_scheme" where
  "set_str key v s = s\<lparr>strs := AList.update key v (strs s)\<rparr>"

text \<open>\<open>DEL\<close>: the key of whatever type, and its expiry.\<close>

definition delete_key :: "string \<Rightarrow> 'x store_scheme \<Rightarrow> 'x store_scheme" where
  "delete_key key s =
     s\<lparr>hashes := AList.delete key (hashes s), rlists := AList.delete key (rlists s),
       strs := AList.delete key (strs s), expiry := AList.delete key (expiry s)\<rparr>"

definition key_exists :: "string \<Rightarrow> 'x store_scheme \<Rightarrow> bool" where
  "key_exists key s \<longleftrightarrow>
     map_of (hashes s) key \<noteq> None \<or> map_of (rlists s) key \<noteq> None \<or> map_of (strs s) key \<noteq> None"

text \<open>\<open>EXPIRE\<close> has no effect on a key that does not exist.\<close>

definition expire :: "string \<Rightarrow> int \<Rightarrow> 'x store_scheme \<Rightarrow> 'x store_scheme" where
  "expire key ttl s =
     (if key_exists key s then s\<lparr>expiry := AList.update key ttl (expiry s)\<rparr> else s)"

text \<open>
  \<open>scan_iter(prefix + "*")\<close>: the keys of every type that start with the prefix. The order
  of the model is that of the association lists; no theorem depends on it.
\<close>

definition scan_keys :: "string \<Rightarrow> 'x store_scheme \<Rightarrow> string list" where
  "scan_keys prefix s =
     filter (startswith prefix) (map fst (hashes s) @ map fst (rlists s) @ map fst (strs s))"

text \<open>
  A call to the outside is answered from the history and appended to it. \<open>OutOfFuel\<close>
  is no exception a library can raise, so an answer of that form is read as an API error.
\<close>

definition answer :: "env \<Rightarrow> ext_call list \<Rightarrow> ext_call \<Rightarrow> exn + pyval" where
  "answer E cs c = (if api E cs c = Inl OutOfFuel then Inl (ApiError []) else api E cs c)"

definition call :: "env \<Rightarrow> ext_call \<Rightarrow> ('x store_scheme, pyval) act" where
  "call E c s = (answer E (calls s) c, s\<lparr>calls := calls s @ [c]\<rparr>)"

definition sleep :: "rat \<Rightarrow> ('x store_scheme, unit) act" where
  "sleep d s = (Inr (), s\<lparr>calls := calls s @ [Sleep d]\<rparr>)"

definition utc_now_iso :: "env \<Rightarrow> 'x store_scheme \<Rightarrow> string" where
  "utc_now_iso E s = iso E (calls s)"

definition new_uuid :: "env \<Rightarrow> ('x store_scheme, string) act" where
  "new_uuid E s = (Inr (uuid E (uuids s)), s\<lparr>uuids := Suc (uuids s)\<rparr>)"

definition now :: "env \<Rightarrow> 'x store_scheme \<Rightarrow> rat" where
  "now E s = clock E (calls s)"

text \<open>\<open>int(x)\<close> of a float truncates.\<close>

definition trunc_rat :: "rat \<Rightarrow> int" where
  "trunc_rat x = (if x < 0 then - \<lfloor>- x\<rfloor> else \<lfloor>x\<rfloor>)"

text \<open>
  What the bounded polling loops rely on: time does not run backwards, and a sleep of
  \<open>d\<close> seconds takes at least \<open>d\<close> seconds.
\<close>

definition clock_ok :: "env \<Rightarrow> bool" where
  "clock_ok E \<longleftrightarrow>
     (\<forall>cs c. clock E cs \<le> clock E (cs @ [c])) \<and>
     (\<forall>cs d. clock E cs + d \<le> clock E (cs @ [Sleep d]))"

lemma answer_no_fuel [simp]: "answer E cs c \<noteq> Inl OutOfFuel"
  by (simp add: answer_def)

lemma call_fuel [simp]: "fst (call E c s) \<noteq> Inl OutOfFuel" "fst (sleep d s) \<noteq> Inl OutOfFuel"
  by (simp_all add: call_def sleep_def)

lemma clock_okD:
  assumes "clock_ok E"
  shows "now E s \<le> now E (snd (call E c s))" "now E s + d \<le> now E (snd (sleep d s))"
  using assms by (auto simp: clock_ok_def now_def call_def sleep_def)

subsection \<open>Lookup lemmas\<close>

lemma hgetall_hset [lookup_simps]:
  "hgetall k (hset key m s) = (if k = key then AList.merge (hgetall key s) m else hgetall k s)"
  by (simp add: hgetall_def hset_def)

lemma hget_hset [lookup_simps]:
  "map_of (hgetall k (hset key m s)) f =
     (if k = key then (case map_of m f of None \<Rightarrow> map_of (hgetall key s) f | Some v \<Rightarrow> Some v)
      else map_of (hgetall k s) f)"
  by (simp add: hgetall_hset)

lemma hset_keys:
  "set (map fst (hashes (hset key m s))) = insert key (set (map fst (hashes s)))"
  by (simp add: hset_def AList.dom_update)

lemma hset_distinct:
  "distinct (map fst (hashes s)) \<Longrightarrow> distinct (map fst (hashes (hset key m s)))"
  by (simp add: hset_def AList.distinct_update)

lemma hset_frame [simp, frame_simps]:
  "rlists (hset key m s) = rlists s" "strs (hset key m s) = strs s"
  "expiry (hset key m s) = expiry s" "calls (hset key m s) = calls s"
  "uuids (hset key m s) = uuids s" "store.more (hset key m s) = store.more s"
  by (simp_all add: hset_def)

lemma set_list_frame [simp, frame_simps]:
  "hashes (set_list key xs s) = hashes s" "strs (set_list key xs s) = strs s"
  "expiry (set_list key xs s) = expiry s" "calls (set_list key xs s) = calls s"
  "uuids (set_list key xs s) = uuids s" "store.more (set_list key xs s) = store.more s"
  by (simp_all add: set_list_def)

lemma rpush_frame [simp, frame_simps]:
  "hashes (rpush key x s) = hashes s" "strs (rpush key x s) = strs s"
  "expiry (rpush key x s) = expiry s" "calls (rpush key x s) = calls s"
  "uuids (rpush key x s) = uuids s" "store.more (rpush key x s) = store.more s"
  by (simp_all add: rpush_def)

lemma lrange_set_list [lookup_simps]:
  "lrange_all k (set_list key xs s) = (if k = key then xs else lrange_all k s)"
  by (auto simp: lrange_all_def set_list_def)

lemma lrange_rpush [lookup_simps]:
  "lrange_all k (rpush key x s) = (if k = key then lrange_all key s @ [x] else lrange_all k s)"
  by (simp add: rpush_def lrange_set_list)

lemma lrange_hset [simp, lookup_simps]: "lrange_all k (hset key m s) = lrange_all k s"
  by (simp add: lrange_all_def)

lemma hgetall_set_list [simp, lookup_simps]: "hgetall k (set_list key xs s) = hgetall k s"
  by (simp add: hgetall_def)

lemma hgetall_rpush [simp, lookup_simps]: "hgetall k (rpush key x s) = hgetall k s"
  by (simp add: hgetall_def)

lemma hgetall_set_str [simp, lookup_simps]: "hgetall k (set_str key v s) = hgetall k s"
  by (simp add: hgetall_def set_str_def)

lemma lrange_set_str [simp, lookup_simps]: "lrange_all k (set_str key v s) = lrange_all k s"
  by (simp add: lrange_all_def set_str_def)

lemma get_set_str [lookup_simps]:
  "get_str k (set_str key v s) = (if k = key then Some v else get_str k s)"
  by (simp add: get_str_def set_str_def)

lemma hgetall_expire [simp, lookup_simps]: "hgetall k (expire key ttl s) = hgetall k s"
  by (simp add: hgetall_def expire_def)

lemma lrange_expire [simp, lookup_simps]: "lrange_all k (expire key ttl s) = lrange_all k s"
  by (simp add: lrange_all_def expire_def)

lemma expire_frame [simp, frame_simps]:
  "hashes (expire key ttl s) = hashes s" "rlists (expire key ttl s) = rlists s"
  "strs (expire key ttl s) = strs s" "calls (expire key ttl s) = calls s"
  "uuids (expire key ttl s) = uuids s" "store.more (expire key ttl s) = store.more s"
  by (simp_all add: expire_def)

text \<open>\<open>data.get(f) or ""\<close> on the answer of \<open>HGETALL\<close>\<close>

definition hfield :: "hash \<Rightarrow> string \<Rightarrow> string" where
  "hfield h f = (case map_of h f of None \<Rightarrow> [] | Some v \<Rightarrow> v)"

lemma hfield_hset [lookup_simps]:
  "hfield (hgetall k (hset key m s)) f =
     (if k = key \<and> map_of m f \<noteq> None then hfield m f else hfield (hgetall k s) f)"
  by (auto simp: hfield_def hgetall_hset split: option.splits)

text \<open>
  The keys of the job hashes: \<open>scan_iter(prefix + "*")\<close> without the keys of the job logs.
  A key of another type has no fields here, where the server would answer \<open>WRONGTYPE\<close>.
\<close>

definition job_keys :: "cfg \<Rightarrow> 'x store_scheme \<Rightarrow> string list" where
  "job_keys C s = filter (\<lambda>k. \<not> endswith (job_log_suffix C) k) (scan_keys (job_key_prefix C) s)"

definition job_key :: "cfg \<Rightarrow> string \<Rightarrow> string" where
  "job_key C job_id = job_key_prefix C @ job_id"

lemma job_key_inj [simp]: "job_key C a = job_key C b \<longleftrightarrow> a = b"
  by (simp add: job_key_def)

lemma hgetall_not_Nil_key: "hgetall k s \<noteq> [] \<Longrightarrow> k \<in> fst ` set (hashes s)"
  by (auto simp: hgetall_def map_of_eq_None_iff split: option.splits dest: map_of_SomeD)
     (metis image_eqI fst_conv map_of_SomeD)

lemma scan_keys_complete:
  "k \<in> fst ` set (hashes s) \<Longrightarrow> startswith prefix k \<Longrightarrow> k \<in> set (scan_keys prefix s)"
  by (auto simp: scan_keys_def)

subsection \<open>The history of calls only grows\<close>

definition extends :: "'x store_scheme \<Rightarrow> 'x store_scheme \<Rightarrow> bool" where
  "extends s t \<longleftrightarrow> (\<exists>cs. calls t = calls s @ cs)"

interpretation grows: state_preorder "extends :: 'x store_scheme \<Rightarrow> 'x store_scheme \<Rightarrow> bool"
  by unfold_locales (auto simp: extends_def)

lemma grows_call [intro]: "keeps extends (call E c)"
  by (auto simp: keeps_def call_def extends_def)

lemma grows_sleep [intro]: "keeps extends (sleep d)"
  by (auto simp: keeps_def sleep_def extends_def)

lemma clock_ok_extends:
  assumes "clock_ok E" "extends s t"
  shows "now E s \<le> now E t"
proof -
  have "clock E cs \<le> clock E (cs @ ds)" for cs ds
  proof (induction ds arbitrary: cs)
    case (Cons d ds)
    have "clock E cs \<le> clock E (cs @ [d])" using assms(1) by (simp add: clock_ok_def)
    also have "\<dots> \<le> clock E ((cs @ [d]) @ ds)" by (rule Cons)
    finally show ?case by simp
  qed simp
  then show ?thesis using assms(2) by (auto simp: extends_def now_def)
qed

text \<open>
  \<open>emits S m\<close>: the calls that \<open>m\<close> adds to the history are all in \<open>S\<close>, and the
  Redis part of the state is unchanged. This is the shape of every Proxmox helper.
\<close>

definition emits_rel :: "ext_call set \<Rightarrow> 'x store_scheme \<Rightarrow> 'x store_scheme \<Rightarrow> bool" where
  "emits_rel S s t \<longleftrightarrow> (\<exists>cs. t = s\<lparr>calls := calls s @ cs\<rparr> \<and> set cs \<subseteq> S)"

interpretation emits: state_preorder "emits_rel S :: 'x store_scheme \<Rightarrow> 'x store_scheme \<Rightarrow> bool" for S
proof unfold_locales
  fix s t u :: "'x store_scheme"
  show "emits_rel S s s"
    by (auto simp: emits_rel_def intro!: exI [of _ "[]"])
  assume "emits_rel S s t" "emits_rel S t u"
  then obtain cs ds where "t = s\<lparr>calls := calls s @ cs\<rparr>" "set cs \<subseteq> S"
    and "u = t\<lparr>calls := calls t @ ds\<rparr>" "set ds \<subseteq> S"
    unfolding emits_rel_def by blast
  then have "u = s\<lparr>calls := calls s @ (cs @ ds)\<rparr>" "set (cs @ ds) \<subseteq> S"
    by simp_all
  then show "emits_rel S s u" unfolding emits_rel_def by blast
qed

lemma keeps_call [intro]: "c \<in> S \<Longrightarrow> keeps (emits_rel S) (call E c)"
  by (auto simp: keeps_def call_def emits_rel_def)

lemma keeps_sleep [intro]: "Sleep d \<in> S \<Longrightarrow> keeps (emits_rel S) (sleep d)"
  by (auto simp: keeps_def sleep_def emits_rel_def)

lemma keeps_emits_mono: "keeps (emits_rel S) m \<Longrightarrow> S \<subseteq> T \<Longrightarrow> keeps (emits_rel T) m"
  unfolding keeps_def emits_rel_def by blast

lemma emits_extends: "emits_rel S s t \<Longrightarrow> extends s t"
  by (auto simp: emits_rel_def extends_def)

lemma keeps_emits_grows: "keeps (emits_rel S) m \<Longrightarrow> keeps extends m"
  by (auto simp: keeps_def intro: emits_extends)

lemma emits_relD:
  assumes "emits_rel S s t"
  obtains cs where "calls t = calls s @ cs" "set cs \<subseteq> S" "hashes t = hashes s" "uuids t = uuids s"
    "rlists t = rlists s" "strs t = strs s" "expiry t = expiry s" "store.more t = store.more s"
  using assms by (auto simp: emits_rel_def)

end
