(* ===== verification/PvePlace.thy ===== *)
theory PvePlace
  imports Store "HOL-Library.Product_Lexorder"
begin

text \<open>
  The pure placement helpers of \<open>pve_client.py\<close>: the choice of a target node per job,
  of free guest ids, of the target storage and of the archive name, and the normalised
  node and storage inventories. The set of ids in use is a \<open>set\<close>; the code mutates it,
  so the model returns it.
\<close>

subsection \<open>Least-loaded assignment of nodes\<close>

text \<open>
  \<open>counts\<close> is the dict from candidate to number of active jobs; a repeated candidate has
  one entry, and its \<open>order\<close> is its last position. \<open>min\<close> with a key returns the first
  minimal element, as \<open>arg_min_list\<close> does.
\<close>

definition node_candidates :: "string list \<Rightarrow> string list" where
  "node_candidates candidates = map strip (filter (\<lambda>n. strip n \<noteq> []) candidates)"

definition node_order :: "string list \<Rightarrow> string \<Rightarrow> nat" where
  "node_order nodes n =
     (case map_of (rev (zip nodes [0..<length nodes])) n of None \<Rightarrow> 0 | Some i \<Rightarrow> i)"

definition load_of :: "(string \<times> int) list \<Rightarrow> string \<Rightarrow> int" where
  "load_of counts n = (case map_of counts n of None \<Rightarrow> 0 | Some c \<Rightarrow> c)"

definition pick_node :: "string list \<Rightarrow> (string \<Rightarrow> int) \<Rightarrow> string" where
  "pick_node nodes counts = arg_min_list (\<lambda>n. (counts n, node_order nodes n)) nodes"

primrec assign_loop ::
  "nat \<Rightarrow> string list \<Rightarrow> (string \<Rightarrow> int) \<Rightarrow> string list" where
  "assign_loop 0 nodes counts = []"
| "assign_loop (Suc k) nodes counts =
     (let pick = pick_node nodes counts
      in pick # assign_loop k nodes (counts(pick := counts pick + 1)))"

definition assign_nodes_least_loaded ::
  "string list \<Rightarrow> int \<Rightarrow> (string \<times> int) list \<Rightarrow> exn + string list" where
  "assign_nodes_least_loaded candidates count active_counts =
     (let nodes = node_candidates candidates
      in if nodes = [] then Inl (ValueError ''at least one Proxmox node is required'')
         else if count < 1 then Inr []
         else Inr (assign_loop (nat count) nodes (load_of active_counts)))"

lemma pick_node_in: "nodes \<noteq> [] \<Longrightarrow> pick_node nodes counts \<in> set nodes"
  unfolding pick_node_def by (rule arg_min_list_in)

lemma pick_node_min:
  assumes "m \<in> set nodes"
  shows "counts (pick_node nodes counts) \<le> counts m"
proof -
  let ?f = "\<lambda>n. (counts n, node_order nodes n)"
  from assms have ne: "nodes \<noteq> []" by auto
  have "?f (pick_node nodes counts) = Min (?f ` set nodes)"
    unfolding pick_node_def using ne by (rule f_arg_min_list_f)
  also have "\<dots> \<le> ?f m" using assms by (intro Min_le) auto
  finally show ?thesis by (auto simp: less_eq_prod_def)
qed

lemma assign_loop_length [simp]: "length (assign_loop k nodes counts) = k"
  by (induction k arbitrary: counts) (simp_all add: Let_def)

lemma assign_loop_members:
  "nodes \<noteq> [] \<Longrightarrow> set (assign_loop k nodes counts) \<subseteq> set nodes"
  by (induction k arbitrary: counts) (auto simp: Let_def pick_node_in)

text \<open>
  The greedy invariant: a node that received a job is, after all jobs, at most one above
  every other candidate.
\<close>

lemma assign_loop_balanced:
  assumes "n \<in> set (assign_loop k nodes counts)" "m \<in> set nodes"
  shows "counts n + int (count_list (assign_loop k nodes counts) n)
           \<le> counts m + int (count_list (assign_loop k nodes counts) m) + 1"
  using assms(1)
proof (induction k arbitrary: counts)
  case (Suc k)
  let ?p = "pick_node nodes counts"
  let ?c = "counts(?p := counts ?p + 1)"
  let ?xs = "assign_loop k nodes ?c"
  have step: "counts x + int (count_list (?p # ?xs) x) = ?c x + int (count_list ?xs x)" for x
    by simp
  have unfold: "assign_loop (Suc k) nodes counts = ?p # ?xs" by (simp add: Let_def)
  show ?case
  proof (cases "n \<in> set ?xs")
    case True
    from Suc.IH [OF this] show ?thesis unfolding unfold step .
  next
    case False
    with Suc.prems unfold have n: "n = ?p" by simp
    from False have "count_list ?xs n = 0" by (simp add: count_list_0_iff)
    moreover have "counts ?p \<le> counts m" by (rule pick_node_min [OF assms(2)])
    ultimately show ?thesis unfolding unfold step using n by auto
  qed
qed simp

lemma sum_count_list:
  "finite A \<Longrightarrow> set xs \<subseteq> A \<Longrightarrow> (\<Sum>x \<in> A. int (count_list xs x)) = int (length xs)"
proof (induction xs)
  case (Cons y ys)
  then have "(\<Sum>x \<in> A. int (count_list (y # ys) x))
      = (\<Sum>x \<in> A. int (count_list ys x) + (if x = y then 1 else 0))"
    by (intro sum.cong) auto
  with Cons show ?case by (simp add: sum.distrib)
qed simp

text \<open>A balanced assignment has the least possible maximal load.\<close>

lemma balanced_optimal:
  fixes c :: "'a \<Rightarrow> int"
  assumes fin: "finite A" and n: "n \<in> A" and xs: "set xs \<subseteq> A" and ys: "set ys \<subseteq> A"
    and len: "length ys = length xs"
    and bal: "\<And>m. n \<in> set xs \<Longrightarrow> m \<in> A \<Longrightarrow>
                c n + int (count_list xs n) \<le> c m + int (count_list xs m) + 1"
  shows "\<exists>m \<in> A. c n + int (count_list xs n) \<le> c m + int (count_list ys m)"
proof (rule ccontr)
  let ?L = "c n + int (count_list xs n)"
  assume "\<not> ?thesis"
  then have less: "c m + int (count_list ys m) \<le> ?L - 1" if "m \<in> A" for m
    using that by force
  show False
  proof (cases "n \<in> set xs")
    case False
    then have "count_list xs n = 0" by (simp add: count_list_0_iff)
    with less [OF n] show False by simp
  next
    case True
    have "(\<Sum>m \<in> A. c m) + int (length ys) = (\<Sum>m \<in> A. c m + int (count_list ys m))"
      using sum_count_list [OF fin ys] by (simp add: sum.distrib)
    also have "\<dots> \<le> (\<Sum>m \<in> A. ?L - 1)" by (intro sum_mono less)
    also have "\<dots> < (\<Sum>m \<in> A. c m + int (count_list xs m))"
    proof (rule sum_strict_mono_ex1 [OF fin])
      show "\<forall>m \<in> A. ?L - 1 \<le> c m + int (count_list xs m)" using bal [OF True] by force
      show "\<exists>m \<in> A. ?L - 1 < c m + int (count_list xs m)" using n by force
    qed
    also have "\<dots> = (\<Sum>m \<in> A. c m) + int (length xs)"
      using sum_count_list [OF fin xs] by (simp add: sum.distrib)
    finally show False using len by simp
  qed
qed

lemma assign_nodes_Inr:
  "assign_nodes_least_loaded cands count act = Inr xs \<longleftrightarrow>
     node_candidates cands \<noteq> [] \<and>
     xs = assign_loop (nat count) (node_candidates cands) (load_of act)"
  by (auto simp: assign_nodes_least_loaded_def Let_def)

subsection \<open>Allocation of free guest ids\<close>

function alloc_loop ::
  "int list \<Rightarrow> int set \<Rightarrow> int \<Rightarrow> int \<Rightarrow> int \<Rightarrow> int list \<times> int set" where
  "alloc_loop out in_use v upper count =
     (if int (length out) < count \<and> v \<le> upper
      then if v \<notin> in_use
           then alloc_loop (out @ [v]) (insert v in_use) (v + 1) upper count
           else alloc_loop out in_use (v + 1) upper count
      else (out, in_use))"
  by pat_completeness auto
termination
  by (relation "measure (\<lambda>(out, in_use, v, upper, count). nat (upper - v + 1))") auto

declare alloc_loop.simps [simp del]

definition alloc_upper :: "int \<Rightarrow> int \<Rightarrow> int" where
  "alloc_upper desired_start count = max 100 desired_start + max 5000 (count * 250)"

definition alloc_error :: "int \<Rightarrow> int \<Rightarrow> exn" where
  "alloc_error desired_start count =
     RuntimeError (''could not allocate '' @ str_of_int count @
       '' free guest VMIDs starting near '' @ str_of_int desired_start @
       '' (exhausted scan to '' @ str_of_int (alloc_upper desired_start count) @ '')'')"

definition allocate_sequential_free_vmids ::
  "int set \<Rightarrow> int \<Rightarrow> int \<Rightarrow> exn + int list \<times> int \<times> int set" where
  "allocate_sequential_free_vmids in_use desired_start count =
     (if count < 1 then Inr ([], desired_start, in_use)
      else let (out, in_use') =
             alloc_loop [] in_use (max 100 desired_start) (alloc_upper desired_start count) count
      in if int (length out) < count then Inl (alloc_error desired_start count)
         else Inr (out, last out + 1, in_use'))"

text \<open>The loop returns the first free ids of the scanned interval.\<close>

lemma alloc_loop_eq:
  "alloc_loop out U v upper count =
     (let new = take (nat count - length out) (filter (\<lambda>x. x \<notin> U) [v..upper])
      in (out @ new, U \<union> set new))"
proof (induction out U v upper count rule: alloc_loop.induct)
  case (1 out U v upper count)
  show ?case
  proof (cases "int (length out) < count \<and> v \<le> upper")
    case False
    then show ?thesis
      by (subst alloc_loop.simps) (auto simp: Let_def)
  next
    case True
    then have up: "[v..upper] = v # [v + 1..upper]" by (simp add: upto_rec1)
    have flt: "filter (\<lambda>x. x \<noteq> v \<and> x \<notin> U) [v + 1..upper] = filter (\<lambda>x. x \<notin> U) [v + 1..upper]"
      by (intro filter_cong) auto
    obtain k where k: "nat count - length out = Suc k"
      using True by (cases "nat count - length out") auto
    then have k': "nat count - Suc (length out) = k" by simp
    show ?thesis
      using True "1.IH"
      by (subst alloc_loop.simps) (auto simp: Let_def up flt k k')
  qed
qed

definition free_ids :: "int set \<Rightarrow> int \<Rightarrow> int \<Rightarrow> int list" where
  "free_ids U desired_start count =
     filter (\<lambda>x. x \<notin> U) [max 100 desired_start..alloc_upper desired_start count]"

lemma allocate_Inr:
  assumes "allocate_sequential_free_vmids U d c = Inr (ids, nxt, U')"
  shows "ids = take (nat c) (free_ids U d c)" "length ids = nat c" "U' = U \<union> set ids"
    "distinct ids" "set ids \<inter> U = {}" "\<forall>v \<in> set ids. 100 \<le> v \<and> d \<le> v"
proof -
  let ?free = "free_ids U d c"
  show ids: "ids = take (nat c) ?free" and len: "length ids = nat c" and "U' = U \<union> set ids"
    using assms
    by (auto simp: allocate_sequential_free_vmids_def alloc_loop_eq Let_def free_ids_def
        split: if_splits)
  show "distinct ids" unfolding ids free_ids_def by simp
  show "set ids \<inter> U = {}" unfolding ids free_ids_def by (auto dest!: in_set_takeD)
  show "\<forall>v \<in> set ids. 100 \<le> v \<and> d \<le> v"
    unfolding ids free_ids_def by (auto dest!: in_set_takeD)
qed

subsection \<open>Node and storage inventories\<close>

record node_row =
  node_name :: string
  node_status :: string
  node_online :: bool

text \<open>A row list of an API answer, an empty list for any other shape\<close>

definition rows_or_empty :: "pyval \<Rightarrow> pyval list" where
  "rows_or_empty raw = (case unwrap_rows raw of None \<Rightarrow> [] | Some vs \<Rightarrow> vs)"

definition node_row_of :: "dict \<Rightarrow> node_row option" where
  "node_row_of row =
     (let name = strip (str_or_empty (dget row ''node''));
          status = lower (strip (str_or_empty (dget row ''status'')))
      in if name = [] then None
         else Some \<lparr>node_name = name,
                    node_status = (if status = [] then ''unknown'' else status),
                    node_online = (status \<in> {[], ''online''})\<rparr>)"

definition list_cluster_nodes :: "env \<Rightarrow> ('x store_scheme, node_row list) act" where
  "list_cluster_nodes E =
     bind_act (call E NodesGet) (\<lambda>raw.
       ret_act (sort_key (\<lambda>r. lower (node_name r))
                  (List.map_filter node_row_of (dict_rows (rows_or_empty raw)))))"

record storage_row =
  sr_id :: string
  sr_type :: string
  sr_enabled :: bool
  sr_active :: int
  sr_usable_for_vm_disks :: bool
  sr_supports_disk_import :: bool
  sr_avail_bytes :: int
  sr_total_bytes :: int

definition row_enabled :: "dict \<Rightarrow> bool" where
  "row_enabled row =
     (let v = dget row ''enabled''
      in case py_int (if v \<noteq> PNone then v else PInt 1) of
           Inr i \<Rightarrow> i = 1
         | Inl e \<Rightarrow> truthy (dget_or row ''enabled'' (PBool True)))"

definition row_active :: "dict \<Rightarrow> int" where
  "row_active row =
     (let v = dget row ''active''
      in case py_int (if v \<noteq> PNone then v else PInt 1) of
           Inr i \<Rightarrow> i
         | Inl e \<Rightarrow> (if truthy (dget_or row ''active'' (PBool True)) then 1 else 0))"

definition storage_row_of :: "dict \<Rightarrow> storage_row option" where
  "storage_row_of row =
     (let supports = contains ''images'' (str_or_empty (dget row ''content''));
          sid = strip (str_or_empty (dget row ''storage''))
      in if sid = [] then None
         else Some \<lparr>sr_id = sid,
                    sr_type = str_or_empty (dget row ''type''),
                    sr_enabled = row_enabled row,
                    sr_active = row_active row,
                    sr_usable_for_vm_disks = supports,
                    sr_supports_disk_import = supports,
                    sr_avail_bytes = py_int_or (py_or (dget row ''avail'') (PInt 0)) 0,
                    sr_total_bytes = py_int_or (py_or (dget row ''total'') (PInt 0)) 0\<rparr>)"

definition list_node_storages :: "env \<Rightarrow> string \<Rightarrow> ('x store_scheme, storage_row list) act" where
  "list_node_storages E node =
     bind_act (call E (StorageGet node)) (\<lambda>raw.
       ret_act (sort_key (\<lambda>r. lower (sr_id r))
                  (List.map_filter storage_row_of (dict_rows (rows_or_empty raw)))))"

text \<open>\<open>storage_by_node\<close> is \<open>None\<close> or a dict of strings; an empty dict is the same.\<close>

definition resolve_storage_for_node ::
  "string \<Rightarrow> (string \<times> string) list \<Rightarrow> string \<Rightarrow> exn + string" where
  "resolve_storage_for_node node storage_by_node default_storage =
     (let mapped = (case map_of storage_by_node node of None \<Rightarrow> [] | Some v \<Rightarrow> strip v);
          fallback = strip default_storage
      in if mapped \<noteq> [] then Inr mapped
         else if fallback \<noteq> [] then Inr fallback
         else Inl (RuntimeError (''No target storage selected for node '' @ node)))"

definition archive_path :: "string \<Rightarrow> string \<Rightarrow> exn + string" where
  "archive_path pve_storage voltail =
     (let pve_storage = strip pve_storage; voltail = lstrip_chars ''/'' (strip voltail)
      in if pve_storage = [] then
           Inl (ValueError ''pve_storage is required (PVE storage ID for the PBS datastore)'')
         else if voltail = [] then
           Inl (ValueError ''voltail is required (e.g. vm/100/2026-05-01T01:00:00Z)'')
         else Inr (pve_storage @ '':backup/'' @ voltail))"

lemma resolve_storage_nonempty:
  "resolve_storage_for_node node m d = Inr sid \<Longrightarrow> sid \<noteq> [] \<and> strip sid = sid"
  by (auto simp: resolve_storage_for_node_def Let_def split: if_splits option.splits)

lemma archive_path_Inr:
  assumes "archive_path st tail = Inr a"
  shows "strip st \<noteq> []" "a = strip st @ '':backup/'' @ lstrip_chars ''/'' (strip tail)"
  using assms by (auto simp: archive_path_def Let_def split: if_splits)

lemma keeps_list_cluster_nodes [intro]:
  "keeps (emits_rel {NodesGet}) (list_cluster_nodes E)"
  unfolding list_cluster_nodes_def by (intro emits.keeps_bind keeps_call emits.keeps_ret) simp

lemma keeps_list_node_storages [intro]:
  "keeps (emits_rel {StorageGet node}) (list_node_storages E node)"
  unfolding list_node_storages_def by (intro emits.keeps_bind keeps_call emits.keeps_ret) simp

subsection \<open>Properties\<close>

text \<open>C34: the greedy node assignment is optimal. It yields one candidate per job, and no other
  assignment of the same number of jobs to the candidates has a smaller maximal load
  (active jobs plus assigned jobs).\<close>

theorem assign_nodes_optimal:
  assumes "assign_nodes_least_loaded cands count act = Inr xs"
  shows "length xs = nat count \<and> set xs \<subseteq> set (node_candidates cands) \<and>
    (\<forall>ys. length ys = length xs \<longrightarrow> set ys \<subseteq> set (node_candidates cands) \<longrightarrow>
      (\<forall>n \<in> set (node_candidates cands). \<exists>m \<in> set (node_candidates cands).
         load_of act n + int (count_list xs n) \<le> load_of act m + int (count_list ys m)))"
proof -
  let ?ns = "node_candidates cands"
  from assms have ne: "?ns \<noteq> []" and xs: "xs = assign_loop (nat count) ?ns (load_of act)"
    by (auto simp: assign_nodes_Inr)
  have sub: "set xs \<subseteq> set ?ns" unfolding xs by (rule assign_loop_members [OF ne])
  have "\<exists>m \<in> set ?ns. load_of act n + int (count_list xs n) \<le> load_of act m + int (count_list ys m)"
    if "length ys = length xs" "set ys \<subseteq> set ?ns" "n \<in> set ?ns" for ys n
    using assign_loop_balanced [of n "nat count" ?ns "load_of act"]
    by (intro balanced_optimal) (simp_all add: that sub xs [symmetric])
  then show ?thesis using sub xs by simp
qed

lemma assign_nodes_example:
  "assign_nodes_least_loaded ['' a'', ''b''] 3 [(''a'', 2)] = Inr [''b'', ''b'', ''a'']"
  by code_simp

theorem assign_nodes_optimal_witness:
  "length [''b'', ''b'', ''a''] = nat 3 \<and>
   set [''b'', ''b'', ''a''] \<subseteq> set (node_candidates ['' a'', ''b''])"
  using assign_nodes_optimal [OF assign_nodes_example] by blast

text \<open>C33: allocation of guest ids. The code's scan returns exactly the first \<open>count\<close>
  ids outside the given set in the scanned interval, the position after the last one and the
  set extended by them; it raises exactly when the interval has fewer free ids.\<close>

theorem allocate_sequential_spec:
  "allocate_sequential_free_vmids U d c =
     (if c < 1 then Inr ([], d, U)
      else if int (length (free_ids U d c)) < c then Inl (alloc_error d c)
      else let ids = take (nat c) (free_ids U d c)
           in Inr (ids, last ids + 1, U \<union> set ids))"
  by (auto simp: allocate_sequential_free_vmids_def alloc_loop_eq Let_def free_ids_def)

end
