(* ===== verification/PveGuest.thy ===== *)
theory PveGuest
  imports PvePlace
begin

text \<open>
  The guest side of \<open>pve_client.py\<close>: tags in guest configurations, the ids in use in the
  cluster, the ownership marker that restored guests carry, the destruction of guests that
  carry it, and the isolation of network devices.
\<close>

subsection \<open>Tags\<close>

definition nl :: char where "nl = CHR 0x0A"

text \<open>\<open>replace("\r\n", "\n").replace("\r", "\n")\<close>\<close>

fun normalize_config_newlines :: "string \<Rightarrow> string" where
  "normalize_config_newlines [] = []"
| "normalize_config_newlines (c # s) =
     (if c = CHR 0x0D
      then nl # (case s of [] \<Rightarrow> []
                 | d # s' \<Rightarrow> if d = nl then normalize_config_newlines s'
                            else normalize_config_newlines (d # s'))
      else c # normalize_config_newlines s)"

definition is_alpha :: "char \<Rightarrow> bool" where
  "is_alpha c \<longleftrightarrow> is_upper c \<or> is_lower c"

definition is_hex :: "char \<Rightarrow> bool" where
  "is_hex c \<longleftrightarrow> is_digit c \<or> c \<in> set ''abcdefABCDEF''"

text \<open>\<open>_TAG_LOOKS_LIKE_CONFIG_KEY_RE\<close> and \<open>_TAG_UUID_RE\<close> on a stripped token\<close>

definition looks_like_config_key :: "string \<Rightarrow> bool" where
  "looks_like_config_key tag \<longleftrightarrow>
     (case tag of [] \<Rightarrow> False
      | c # rest \<Rightarrow> is_alpha c \<and> 2 \<le> length rest \<and> last rest = CHR '':'' \<and>
          (\<forall>d \<in> set (butlast rest). is_alpha d \<or> is_digit d \<or> d = CHR ''_''))"

definition looks_like_uuid :: "string \<Rightarrow> bool" where
  "looks_like_uuid tag \<longleftrightarrow>
     map length (split_on CHR ''-'' tag) = [8, 4, 4, 4, 12] \<and>
     (\<forall>p \<in> set (split_on CHR ''-'' tag). \<forall>c \<in> set p. is_hex c)"

definition sanitize_tag_token :: "string \<Rightarrow> string option" where
  "sanitize_tag_token tag =
     (let tag = strip tag
      in if tag = [] then None
         else if looks_like_config_key tag then None
         else if startswith ''vmgenid:'' (lower tag) then None
         else if looks_like_uuid tag then None
         else Some tag)"

text \<open>
  \<open>_TAGS_LINE_RE.search\<close>: the first line that starts with \<open>tags:\<close> in any case. \<open>\s*\<close>
  also skips line ends, so the group is the rest of the line where the next text stands.
\<close>

fun tags_line :: "bool \<Rightarrow> string \<Rightarrow> string option" where
  "tags_line at_start [] = None"
| "tags_line at_start (c # s) =
     (if at_start \<and> startswith ''tags:'' (lower (c # s))
      then Some (takeWhile (\<lambda>x. x \<noteq> nl) (lstrip (drop 5 (c # s))))
      else tags_line (c = nl) s)"

definition bleed_keys :: "string list" where
  "bleed_keys =
    [''vmgenid'', ''uuid'', ''name'', ''cores'', ''memory'', ''ostype'', ''boot'', ''scsihw'', ''meta'',
     ''description'', ''parent'', ''digest'', ''lock'', ''hookscript'', ''agent'', ''balloon'', ''bios'',
     ''bootdisk'', ''cicustom'', ''cipassword'', ''citype'', ''hotplug'', ''hugepages'', ''ivshmem'',
     ''keyboard'', ''kvm'', ''localtime'', ''machine'', ''numa'', ''onboot'', ''protection'', ''reboot'',
     ''searchdomain'', ''serial'', ''shares'', ''smbios'', ''sockets'', ''startdate'', ''startup'',
     ''tablet'', ''tdf'', ''template'', ''vcpus'', ''vga'', ''vmstate'', ''watchdog'', ''cpu'', ''efidisk'',
     ''tpmstate'', ''cloudinit'']"

text \<open>
  \<open>_TAG_BLEED_KEY_RE.search\<close>: the first position that starts a run of white space
  followed by one of the keys, optional white space and a colon.
\<close>

definition bleed_here :: "string \<Rightarrow> bool" where
  "bleed_here s \<longleftrightarrow> s \<noteq> [] \<and> is_space (hd s) \<and>
     (\<exists>k \<in> set bleed_keys. startswith k (lower (lstrip s)) \<and>
        startswith '':'' (lstrip (drop (length k) (lstrip s))))"

fun bleed_start :: "string \<Rightarrow> nat option" where
  "bleed_start [] = None"
| "bleed_start (c # s) = (if bleed_here (c # s) then Some 0 else map_option Suc (bleed_start s))"

definition tags_of_parts :: "string list \<Rightarrow> string list" where
  "tags_of_parts parts = dedup_by lower [] (List.map_filter sanitize_tag_token parts)"

text \<open>\<open>re.split("[;,]+", raw)\<close>: the empty pieces between two separators are dropped later.\<close>

definition parse_tags :: "string \<Rightarrow> string list" where
  "parse_tags config_text =
     (case tags_line True (normalize_config_newlines config_text) of
        None \<Rightarrow> []
      | Some grp \<Rightarrow>
          let raw = strip grp;
              raw = (case bleed_start (CHR '' '' # raw) of
                       None \<Rightarrow> raw | Some i \<Rightarrow> strip (take (i - 1) raw))
          in tags_of_parts (split_on CHR '';'' (replace_char CHR '','' CHR '';'' raw)))"

definition extract_vm_config :: "env \<Rightarrow> string \<Rightarrow> string \<Rightarrow> ('x store_scheme, string) act" where
  "extract_vm_config E node volid =
     bind_act (call E (ExtractConfig node volid)) (\<lambda>result. ret_act
       (case result of
          PStr t \<Rightarrow> t
        | PDict d \<Rightarrow> str_or_empty (dget d ''data'')
        | v \<Rightarrow> str_or_empty v))"

definition qemu_tags_from_config :: "dict \<Rightarrow> string list" where
  "qemu_tags_from_config cfg =
     (case dget cfg ''tags'' of
        PNone \<Rightarrow> []
      | PList ts \<Rightarrow> tags_of_parts (map py_str ts)
      | raw \<Rightarrow> tags_of_parts (split_on CHR '';'' (replace_char CHR '','' CHR '';'' (py_str raw))))"

subsection \<open>Guests of the cluster\<close>

definition cluster_vm_resources :: "env \<Rightarrow> ('x store_scheme, dict list) act" where
  "cluster_vm_resources E =
     catch_act
       (bind_act (call E ClusterResources) (\<lambda>raw. ret_act (dict_rows (rows_or_empty raw))))
       (\<lambda>e. ret_act [])"

definition row_vmid :: "dict \<Rightarrow> int option" where
  "row_vmid row = (case py_int (dget row ''vmid'') of Inr i \<Rightarrow> Some i | Inl e \<Rightarrow> None)"

definition row_type :: "dict \<Rightarrow> string" where
  "row_type row = lower (strip (str_or_empty (dget row ''type'')))"

text \<open>The ids that the rows of the cluster resources occupy\<close>

definition vmids_of_rows :: "dict list \<Rightarrow> int set" where
  "vmids_of_rows rows =
     set (List.map_filter row_vmid (filter (\<lambda>row. row_type row \<in> {[], ''qemu'', ''lxc''}) rows))"

definition qemu_vmids_in_use_cluster :: "env \<Rightarrow> ('x store_scheme, int set) act" where
  "qemu_vmids_in_use_cluster E =
     bind_act (cluster_vm_resources E) (\<lambda>rows. ret_act (vmids_of_rows rows))"

record guest_resource =
  gr_type :: string
  gr_node :: string
  gr_vmid :: int

fun guest_in_rows :: "int \<Rightarrow> dict list \<Rightarrow> guest_resource option" where
  "guest_in_rows want [] = None"
| "guest_in_rows want (row # rows) =
     (if row_vmid row \<noteq> Some want then guest_in_rows want rows
      else Some \<lparr>gr_type = (if row_type row = [] then ''qemu'' else row_type row),
                 gr_node = strip (str_or_empty (dget row ''node'')),
                 gr_vmid = want\<rparr>)"

definition find_guest_resource ::
  "env \<Rightarrow> int \<Rightarrow> ('x store_scheme, guest_resource option) act" where
  "find_guest_resource E vmid =
     bind_act (cluster_vm_resources E) (\<lambda>rows. ret_act (guest_in_rows vmid rows))"

definition find_qemu_node :: "env \<Rightarrow> int \<Rightarrow> ('x store_scheme, string option) act" where
  "find_qemu_node E vmid =
     bind_act (find_guest_resource E vmid) (\<lambda>guest. ret_act
       (case guest of
          None \<Rightarrow> None
        | Some g \<Rightarrow> if gr_type g \<noteq> ''qemu'' \<or> gr_node g = [] then None else Some (gr_node g)))"

definition get_qemu_config :: "env \<Rightarrow> string \<Rightarrow> int \<Rightarrow> ('x store_scheme, dict) act" where
  "get_qemu_config E node vmid =
     bind_act (call E (ConfigGet node vmid)) (\<lambda>raw. ret_act (unwrap_dict raw))"

subsection \<open>Stopping and destroying\<close>

definition poll_status :: "pyval \<Rightarrow> exn + string" where
  "poll_status raw =
     (let st = (case raw of PDict d \<Rightarrow> (case dget d ''data'' of PDict d' \<Rightarrow> PDict d' | _ \<Rightarrow> raw) | _ \<Rightarrow> raw)
      in case py_or st (PDict []) of
           PDict d \<Rightarrow> Inr (lower (str_or_empty (dget d ''status'')))
         | _ \<Rightarrow> Inl (AttributeError ''object has no attribute get''))"

primrec stop_poll ::
  "nat \<Rightarrow> env \<Rightarrow> string \<Rightarrow> int \<Rightarrow> rat \<Rightarrow> ('x store_scheme, unit) act" where
  "stop_poll 0 E node vmid deadline = raise_act OutOfFuel"
| "stop_poll (Suc n) E node vmid deadline =
     (\<lambda>s. if now E s < deadline then
         (case bind_act (call E (StatusCurrent node vmid)) (\<lambda>raw. res_act (poll_status raw)) s of
            (Inl e, s') \<Rightarrow> (Inr (), s')
          | (Inr status, s') \<Rightarrow>
              if status \<in> {''stopped'', ''unknown'', []} then (Inr (), s')
              else bind_act (sleep 1) (\<lambda>_. stop_poll n E node vmid deadline) s')
       else (Inr (), s))"

definition stop_qemu_vm :: "env \<Rightarrow> string \<Rightarrow> int \<Rightarrow> int \<Rightarrow> ('x store_scheme, unit) act" where
  "stop_qemu_vm E node vmid timeout =
     (let node = strip node in
      bind_act
        (catch_act (bind_act (call E (StatusStop node vmid timeout)) (\<lambda>_. ret_act ()))
                   (\<lambda>e. ret_act ()))
        (\<lambda>_ s. stop_poll (fuel E) E node vmid (now E s + of_int (max 5 timeout)) s))"

definition start_qemu_vm :: "env \<Rightarrow> string \<Rightarrow> int \<Rightarrow> ('x store_scheme, string option) act" where
  "start_qemu_vm E node vmid =
     bind_act (call E (StatusStart node vmid)) (\<lambda>result. ret_act
       (case result of
          PStr u \<Rightarrow> if strip u \<noteq> [] then Some (strip u) else None
        | PDict d \<Rightarrow>
            let upid = py_or (dget d ''data'') (dget d ''upid'')
            in if truthy upid then Some (py_str upid) else None
        | _ \<Rightarrow> None))"

fun is_type_error :: "exn \<Rightarrow> bool" where
  "is_type_error (TypeError m) = True"
| "is_type_error e = False"

text \<open>
  The three attempts of \<open>destroy_qemu_vm\<close>: \<open>dud\<close> is whether the parameters still hold
  \<open>destroy-unreferenced-disks\<close>, \<open>lst\<close> the last exception; the attempt number is
  \<open>2 - k\<close> in the second equation.
\<close>

primrec destroy_attempts ::
  "nat \<Rightarrow> env \<Rightarrow> string \<Rightarrow> int \<Rightarrow> bool \<Rightarrow> bool \<Rightarrow> exn option \<Rightarrow> ('x store_scheme, unit) act" where
  "destroy_attempts 0 E node vmid purge dud lst =
     (case lst of None \<Rightarrow> ret_act () | Some e \<Rightarrow> raise_act e)"
| "destroy_attempts (Suc k) E node vmid purge dud lst =
     (\<lambda>s. case call E (QemuDelete node vmid purge dud) s of
        (Inr _, s1) \<Rightarrow> (Inr (), s1)
      | (Inl e, s1) \<Rightarrow>
          if is_type_error e then
            (case call E (QemuDelete node vmid purge False) s1 of
               (Inr _, s2) \<Rightarrow> (Inr (), s2)
             | (Inl e2, s2) \<Rightarrow> destroy_attempts k E node vmid purge False (Some e2) s2)
          else if contains ''running'' (lower (exn_str e)) \<and> 0 < k then
            bind_act (stop_qemu_vm E node vmid 60) (\<lambda>_.
              bind_act (sleep 2) (\<lambda>_. destroy_attempts k E node vmid purge dud (Some e))) s1
          else (Inl e, s1))"

definition destroy_qemu_vm ::
  "env \<Rightarrow> string \<Rightarrow> int \<Rightarrow> bool \<Rightarrow> bool \<Rightarrow> ('x store_scheme, unit) act" where
  "destroy_qemu_vm E node vmid purge dud =
     (let node = strip node in
      if node = [] then raise_act (ValueError ''node is required to destroy a VM'')
      else bind_act (stop_qemu_vm E node vmid 90)
             (\<lambda>_. destroy_attempts 3 E node vmid purge dud None))"

subsection \<open>Ownership\<close>

definition MANAGED_TAG :: string where
  "MANAGED_TAG = ''restore-engine''"

definition MANAGED_DESC_PREFIX :: string where
  "MANAGED_DESC_PREFIX = ''restore-engine:''"

text \<open>The ownership marker in a guest configuration\<close>

definition managed_config :: "dict \<Rightarrow> bool" where
  "managed_config cfg \<longleftrightarrow>
     lower MANAGED_TAG \<in> set (map lower (qemu_tags_from_config cfg)) \<or>
     contains MANAGED_DESC_PREFIX (str_or_empty (dget cfg ''description''))"

definition qemu_is_managed_by_tool :: "env \<Rightarrow> string \<Rightarrow> int \<Rightarrow> ('x store_scheme, bool) act" where
  "qemu_is_managed_by_tool E node vmid =
     catch_act (bind_act (get_qemu_config E node vmid) (\<lambda>cfg. ret_act (managed_config cfg)))
               (\<lambda>e. ret_act False)"

definition owner_marker :: "string \<Rightarrow> string \<Rightarrow> string" where
  "owner_marker job_id plan_run_id =
     MANAGED_DESC_PREFIX @ ''job='' @ (if job_id = [] then ''-'' else job_id) @
     '';run='' @ (if plan_run_id = [] then ''-'' else plan_run_id)"

definition marked_tags :: "dict \<Rightarrow> string list" where
  "marked_tags cfg =
     (let tags = qemu_tags_from_config cfg
      in if MANAGED_TAG \<notin> set tags \<and> lower MANAGED_TAG \<notin> set (map lower tags)
         then tags @ [MANAGED_TAG] else tags)"

definition marked_description :: "string \<Rightarrow> string \<Rightarrow> string" where
  "marked_description marker desc0 =
     (let desc = strip desc0
      in if contains MANAGED_DESC_PREFIX desc
         then strip (join_on [nl] (filter (\<lambda>p. p \<noteq> [])
                (filter (\<lambda>p. \<not> contains MANAGED_DESC_PREFIX p) (split_on nl desc) @ [marker])))
         else if desc \<noteq> [] then strip (desc @ [nl] @ marker) else marker)"

definition mark_qemu_managed_by_tool ::
  "env \<Rightarrow> string \<Rightarrow> int \<Rightarrow> string \<Rightarrow> string \<Rightarrow> ('x store_scheme, unit) act" where
  "mark_qemu_managed_by_tool E node vmid job_id plan_run_id =
     (let node = strip node in
      bind_act (get_qemu_config E node vmid) (\<lambda>cfg.
        bind_act (call E (ConfigPut node vmid
            [(''tags'', join_on '';'' (marked_tags cfg)),
             (''description'', marked_description (owner_marker job_id plan_run_id)
                                (str_or_empty (dget cfg ''description'')))]))
          (\<lambda>_. ret_act ())))"

definition lxc_refusal :: "int \<Rightarrow> string" where
  "lxc_refusal vmid = ''Refusing to destroy VMID '' @ str_of_int vmid @
     '': it is an LXC container (never deleted by restore-engine)''"

definition type_refusal :: "int \<Rightarrow> string \<Rightarrow> string" where
  "type_refusal vmid typ = ''Refusing to destroy VMID '' @ str_of_int vmid @
     '': unsupported guest type '' @ repr_str typ"

definition foreign_refusal :: "string \<Rightarrow> int \<Rightarrow> string" where
  "foreign_refusal node vmid = ''Refusing to destroy VMID '' @ str_of_int vmid @
     '' on '' @ node @ '': not provisioned by restore-engine (missing '' @
     repr_str MANAGED_TAG @ '' marker). Remove foreign guests manually in Proxmox.''"

definition destroy_owned_qemu_vm ::
  "env \<Rightarrow> string \<Rightarrow> int \<Rightarrow> bool \<Rightarrow> bool \<Rightarrow> bool \<Rightarrow> ('x store_scheme, string) act" where
  "destroy_owned_qemu_vm E node vmid allow_run_provenance purge dud =
     bind_act (find_guest_resource E vmid) (\<lambda>guest.
       case guest of
         None \<Rightarrow> ret_act ''absent''
       | Some g \<Rightarrow>
           if gr_type g = ''lxc'' then
             raise_act (GuestOwnershipError (lxc_refusal vmid))
           else if gr_type g \<notin> {[], ''qemu''} then
             raise_act (GuestOwnershipError (type_refusal vmid (gr_type g)))
           else
             let node = strip (if gr_node g \<noteq> [] then gr_node g else strip node) in
             bind_act (catch_act (qemu_is_managed_by_tool E node vmid) (\<lambda>e. ret_act False)) (\<lambda>managed.
               if managed then
                 bind_act (destroy_qemu_vm E node vmid purge dud) (\<lambda>_. ret_act ''managed'')
               else if allow_run_provenance then
                 bind_act (destroy_qemu_vm E node vmid purge dud) (\<lambda>_. ret_act ''run_provenance'')
               else raise_act (GuestOwnershipError (foreign_refusal node vmid))))"

subsection \<open>Network isolation\<close>

definition isolation_mode :: "string \<Rightarrow> string" where
  "isolation_mode mode = lower (strip (if mode = [] then ''none'' else mode))"

definition remap_bridge :: "string \<Rightarrow> string \<Rightarrow> string" where
  "remap_bridge bridge txt =
     join_on '','' (filter (\<lambda>p. p \<noteq> [] \<and> \<not> startswith ''bridge='' p) (split_on CHR '','' txt) @
                    [''bridge='' @ bridge])"

text \<open>The change of one configuration entry, if any\<close>

definition isolate_entry ::
  "string \<Rightarrow> string \<Rightarrow> string \<times> pyval \<Rightarrow> exn + (string \<times> string) option" where
  "isolate_entry mode bridge = (\<lambda>(key, val).
     if \<not> startswith ''net'' key then Inr None
     else let txt = str_or_empty val in
       if mode = ''unlink'' then
         (if contains ''link_down=1'' txt then Inr None
          else Inr (Some (key, txt @ (if txt \<noteq> [] then '',link_down=1'' else ''link_down=1''))))
       else if mode = ''remap'' then
         (if bridge = [] then Inl (ValueError ''lab_bridge is required for network remap'')
          else Inr (Some (key, remap_bridge bridge txt)))
       else Inl (ValueError (''Unknown network isolation mode: '' @ mode)))"

definition isolation_changes :: "string \<Rightarrow> string \<Rightarrow> dict \<Rightarrow> exn + (string \<times> string) list" where
  "isolation_changes mode bridge cfg =
     res_bind (map_res (isolate_entry mode bridge) cfg) (\<lambda>cs. Inr (List.map_filter id cs))"

definition apply_network_isolation ::
  "env \<Rightarrow> string \<Rightarrow> int \<Rightarrow> string \<Rightarrow> string \<Rightarrow> ('x store_scheme, string list) act" where
  "apply_network_isolation E node vmid mode0 lab_bridge =
     (let mode = isolation_mode mode0 in
      if mode \<in> {[], ''none'', ''off''} then ret_act []
      else bind_act (get_qemu_config E node vmid) (\<lambda>cfg.
        bind_act (res_act (isolation_changes mode (strip lab_bridge) cfg)) (\<lambda>changes.
        bind_act (when_act (changes \<noteq> []) (bind_act (call E (ConfigPut node vmid changes)) (\<lambda>_. ret_act ())))
          (\<lambda>_. ret_act (sort (map fst changes))))))"

subsection \<open>The guest agent\<close>

definition qemu_agent_ping :: "env \<Rightarrow> string \<Rightarrow> int \<Rightarrow> ('x store_scheme, bool) act" where
  "qemu_agent_ping E node vmid =
     catch_act (bind_act (call E (AgentPing node vmid False)) (\<lambda>_. ret_act True)) (\<lambda>e.
       catch_act (bind_act (call E (AgentPing node vmid True)) (\<lambda>_. ret_act True)) (\<lambda>e.
         ret_act False))"

lemma size_map_of_pyval:
  assumes "map_of d k = Some v" shows "size v < size (PDict d)"
proof -
  have "(k, v) \<in> set d" using assms by (rule map_of_SomeD)
  then have "size_prod (\<lambda>_. 0) size (k, v) \<le> size_list (size_prod (\<lambda>_. 0) size) d"
    by (rule size_list_estimation') simp
  then show ?thesis by simp
qed

text \<open>\<open>_unwrap_agent_result\<close> descends through \<open>data\<close>; the depth of the value bounds it.\<close>

function unwrap_agent_result :: "pyval \<Rightarrow> pyval" where
  "unwrap_agent_result raw =
     (case raw of
        PDict d \<Rightarrow>
          (case map_of d ''data'' of
             Some v \<Rightarrow> unwrap_agent_result v
           | None \<Rightarrow> (case map_of d ''result'' of Some v \<Rightarrow> v | None \<Rightarrow> raw))
      | v \<Rightarrow> v)"
  by pat_completeness auto

termination
  by (relation "measure size") (auto dest: size_map_of_pyval)

declare unwrap_agent_result.simps [simp del]

definition get_qemu_guest_hostname ::
  "env \<Rightarrow> string \<Rightarrow> int \<Rightarrow> ('x store_scheme, string option) act" where
  "get_qemu_guest_hostname E node vmid =
     bind_act
       (catch_act (bind_act (call E (AgentHostname node vmid False)) (\<lambda>raw. ret_act (Some raw))) (\<lambda>e.
        catch_act (bind_act (call E (AgentHostname node vmid True)) (\<lambda>raw. ret_act (Some raw))) (\<lambda>e.
        ret_act None)))
       (\<lambda>answered. ret_act (case answered of
          None \<Rightarrow> None
        | Some raw \<Rightarrow>
            let txt = strip (case unwrap_agent_result raw of
                PDict d \<Rightarrow> str_or_empty
                  (py_or (py_or (dget d ''host-name'') (dget d ''hostname'')) (dget d ''name''))
              | v \<Rightarrow> str_or_empty v)
            in if txt = [] then None else Some txt))"

definition norm_hostname :: "string \<Rightarrow> string" where
  "norm_hostname h = rstrip_chars ''.'' (lower (strip h))"

definition hostname_matches_pve_name :: "string \<Rightarrow> string \<Rightarrow> bool" where
  "hostname_matches_pve_name guest_hostname pve_name \<longleftrightarrow>
     (let guest = norm_hostname guest_hostname; expect = norm_hostname pve_name
      in guest \<noteq> [] \<and> expect \<noteq> [] \<and>
         (guest = expect \<or> startswith (expect @ ''.'') guest \<or> startswith (guest @ ''.'') expect))"

text \<open>
  The agent poll. \<open>should_cancel\<close> is the callback, which reads the store; \<open>started\<close> and
  \<open>deadline\<close> are clock values.
\<close>

primrec agent_poll ::
  "nat \<Rightarrow> env \<Rightarrow> string \<Rightarrow> int \<Rightarrow> rat \<Rightarrow> rat \<Rightarrow> ('x store_scheme, bool) act \<Rightarrow> rat \<Rightarrow> rat \<Rightarrow>
     ('x store_scheme, rat) act" where
  "agent_poll 0 E node vmid timeout_sec interval should_cancel started deadline = raise_act OutOfFuel"
| "agent_poll (Suc n) E node vmid timeout_sec interval should_cancel started deadline =
     bind_act should_cancel (\<lambda>cancelled.
       if cancelled then
         raise_act (TaskCancelled (''QGA wait cancelled for VMID '' @ str_of_int vmid))
       else bind_act (qemu_agent_ping E node vmid) (\<lambda>up s.
         if up then (Inr (max 0 (now E s - started)), s)
         else if deadline \<le> now E s then
           (Inl (TimeoutError (''QEMU guest agent did not respond within '' @
              str_of_int (trunc_rat timeout_sec) @ ''s (VMID '' @ str_of_int vmid @ '' on '' @ node @ '')'')), s)
         else bind_act (sleep (max (1/2) interval)) (\<lambda>_.
           agent_poll n E node vmid timeout_sec interval should_cancel started deadline) s))"

definition wait_for_qemu_agent ::
  "env \<Rightarrow> string \<Rightarrow> int \<Rightarrow> rat \<Rightarrow> rat \<Rightarrow> ('x store_scheme, bool) act \<Rightarrow> ('x store_scheme, rat) act" where
  "wait_for_qemu_agent E node vmid timeout_sec interval should_cancel = (\<lambda>s.
     agent_poll (fuel E) E node vmid timeout_sec interval should_cancel
       (now E s) (now E s + max 1 timeout_sec) s)"

subsection \<open>Lemmas: tags and the ownership marker\<close>

lemma contains_strip:
  assumes "contains p s" "p \<noteq> []" "\<not> is_space (hd p)" "\<not> is_space (last p)"
  shows "contains p (strip s)"
proof -
  have drop: "\<exists>a'. dropWhile is_space (a @ q @ b) = a' @ q @ b"
    if "q \<noteq> []" "\<not> is_space (hd q)" for a q b
    using that by (induction a) (auto simp: neq_Nil_conv intro: exI [of _ "[]"] exI [of _ "_ # _"])
  obtain a b where "s = a @ p @ b" using assms(1) by (auto simp: contains_iff)
  with drop [OF assms(2,3)] obtain a' where l: "lstrip s = a' @ p @ b"
    unfolding lstrip_def by blast
  have "\<exists>b'. dropWhile is_space (rev b @ rev p @ rev a') = b' @ rev p @ rev a'"
    using assms(2,4) by (intro drop) (simp_all add: hd_rev)
  then obtain b' where "rev (dropWhile is_space (rev (lstrip s))) = rev (b' @ rev p @ rev a')"
    unfolding l by auto
  then have "strip s = a' @ p @ rev b'" by (simp add: strip_def rstrip_def)
  then show ?thesis by (auto simp: contains_iff)
qed

lemma prefix_chars:
  "MANAGED_DESC_PREFIX \<noteq> []" "\<not> is_space (hd MANAGED_DESC_PREFIX)"
  "\<not> is_space (last MANAGED_DESC_PREFIX)" "nl \<notin> set MANAGED_DESC_PREFIX"
  by (simp_all add: MANAGED_DESC_PREFIX_def is_space_def nl_def)

lemma owner_marker_contains [simp]: "contains MANAGED_DESC_PREFIX (owner_marker j r)"
  by (simp add: owner_marker_def)

lemma join_snoc:
  "join_on sep (ps @ [m]) = (if ps = [] then m else join_on sep ps @ sep @ m)"
  by (induction sep ps rule: join_on.induct) auto

lemma marked_description_contains [simp]:
  assumes "contains MANAGED_DESC_PREFIX marker"
  shows "contains MANAGED_DESC_PREFIX (marked_description marker d)"
proof -
  have "marker \<noteq> []" using assms prefix_chars(1) by auto
  then show ?thesis
    using assms prefix_chars(1-3)
    by (auto simp: marked_description_def Let_def join_snoc intro!: contains_strip)
qed

lemma sanitize_Some:
  assumes "sanitize_tag_token t = Some u"
  shows "u = strip t" "sanitize_tag_token u = Some u" "u \<noteq> []"
  using assms by (auto simp: sanitize_tag_token_def Let_def split: if_splits)

lemma tags_of_parts_mem:
  assumes "u \<in> set (tags_of_parts parts)"
  shows "\<exists>t \<in> set parts. sanitize_tag_token t = Some u"
proof -
  have "u \<in> set (List.map_filter sanitize_tag_token parts)"
    using assms dedup_by_subset [of lower "[]" "List.map_filter sanitize_tag_token parts"]
    unfolding tags_of_parts_def by auto
  then show ?thesis by (force simp: List.map_filter_def)
qed

lemma map_filter_self: "(\<And>x. x \<in> set xs \<Longrightarrow> f x = Some x) \<Longrightarrow> List.map_filter f xs = xs"
  by (induction xs) (auto simp: List.map_filter_simps)

text \<open>Writing tags back and reading them again gives the same tags.\<close>

lemma tags_of_parts_fixpoint:
  assumes "distinct (map lower ts)" "\<And>u. u \<in> set ts \<Longrightarrow> sanitize_tag_token u = Some u"
  shows "tags_of_parts ts = ts"
  using assms by (simp add: tags_of_parts_def map_filter_self dedup_by_fixpoint)

lemma tags_of_parts_distinct: "distinct (map lower (tags_of_parts parts))"
  unfolding tags_of_parts_def by (rule dedup_by_distinct)

definition tag_separator :: "char \<Rightarrow> bool" where
  "tag_separator c \<longleftrightarrow> c \<in> set '';,''"

lemma MANAGED_TAG_token:
  "sanitize_tag_token MANAGED_TAG = Some MANAGED_TAG" "lower MANAGED_TAG = MANAGED_TAG"
  "\<not> (\<exists>c \<in> set MANAGED_TAG. tag_separator c)"
  by code_simp+

lemma qemu_tags_read_back:
  assumes "ts \<noteq> []" "distinct (map lower ts)"
    and "\<And>u. u \<in> set ts \<Longrightarrow> sanitize_tag_token u = Some u \<and> \<not> (\<exists>c \<in> set u. tag_separator c)"
  shows "qemu_tags_from_config (AList.merge cfg [(''tags'', PStr (join_on '';'' ts)), (''description'', d)]) = ts"
proof -
  have chars: "CHR '','' \<notin> set (join_on '';'' ts)"
    using assms(3) by (induction "'';''" ts rule: join_on.induct) (auto simp: tag_separator_def)
  have "replace_char CHR '','' CHR '';'' (join_on '';'' ts) = join_on '';'' ts"
    using chars unfolding replace_char_def by (intro map_idI) auto
  moreover have "split_on CHR '';'' (join_on '';'' ts) = ts"
    using assms(1,3) by (intro split_join) (auto simp: tag_separator_def)
  ultimately show ?thesis
    using assms(2,3) by (simp add: qemu_tags_from_config_def dget_def dget_or_def tags_of_parts_fixpoint)
qed

text \<open>The tags of a configuration, when none of its tokens has a separator in it\<close>

lemma marked_tags_facts:
  fixes cfg :: dict
  shows "marked_tags cfg \<noteq> []" "distinct (map lower (marked_tags cfg))"
    "u \<in> set (marked_tags cfg) \<Longrightarrow> sanitize_tag_token u = Some u"
    "lower MANAGED_TAG \<in> set (map lower (marked_tags cfg))"
proof -
  have d: "distinct (map lower (qemu_tags_from_config cfg))"
    by (simp add: qemu_tags_from_config_def tags_of_parts_distinct split: pyval.splits)
  have m: "sanitize_tag_token u = Some u" if "u \<in> set (qemu_tags_from_config cfg)" for u
    using that
    by (auto simp: qemu_tags_from_config_def split: pyval.splits
        dest!: tags_of_parts_mem dest: sanitize_Some)
  show "marked_tags cfg \<noteq> []" by (auto simp: marked_tags_def Let_def)
  show "distinct (map lower (marked_tags cfg))"
    using d by (auto simp: marked_tags_def Let_def)
  show "u \<in> set (marked_tags cfg) \<Longrightarrow> sanitize_tag_token u = Some u"
    using m by (auto simp: marked_tags_def Let_def MANAGED_TAG_token split: if_splits)
  show "lower MANAGED_TAG \<in> set (map lower (marked_tags cfg))"
    by (auto simp: marked_tags_def Let_def MANAGED_TAG_token intro!: image_eqI [where x = MANAGED_TAG])
qed

text \<open>The description after marking has the marker on exactly one line.\<close>

lemma filter_lines_strip:
  assumes "nl \<notin> set marker" "contains MANAGED_DESC_PREFIX marker" "strip marker = marker"
  shows "filter (contains MANAGED_DESC_PREFIX) (split_on nl (marked_description marker d)) = [marker]"
proof -
  have m: "marker \<noteq> []" using assms(2) prefix_chars(1) by auto
  have noline: "filter (contains MANAGED_DESC_PREFIX) (split_on nl x) = []"
    if "\<not> contains MANAGED_DESC_PREFIX x" for x
  proof -
    have "contains q (join_on [nl] ps)" if "p \<in> set ps" "contains q p" for p q ps
      using that by (induction "[nl]" ps rule: join_on.induct) auto
    from this [of _ "split_on nl x"] that show ?thesis
      by (auto simp: filter_empty_conv join_split)
  qed
  have app: "split_on nl (x @ nl # marker) = split_on nl x @ [marker]" for x
  proof -
    have "split_on nl (join_on [nl] (split_on nl x @ [marker])) = split_on nl x @ [marker]"
      using assms(1) by (intro split_join) (auto dest: split_on_pieces)
    then show ?thesis by (simp add: join_snoc join_split)
  qed
  have rs: "rstrip (x @ marker) = x @ marker" for x
  proof -
    have "\<not> is_space (last marker)" using strip_no_trailing [of marker] assms(3) m by simp
    then show ?thesis using m by (cases marker rule: rev_cases) (auto simp: rstrip_def)
  qed
  have ls: "lstrip (x @ nl # marker) = marker \<or> (\<exists>y. lstrip (x @ nl # marker) = y @ nl # marker \<and>
      (\<exists>w. x = w @ y))" for x
  proof (cases "\<forall>c \<in> set x. is_space c")
    case True
    have "\<not> is_space (hd marker)" using strip_no_leading [of marker] assms(3) m by simp
    then have "lstrip marker = marker" using m by (cases marker) (auto simp: lstrip_def)
    moreover have "is_space nl" by (simp add: is_space_def nl_def)
    ultimately show ?thesis using True by (simp add: lstrip_def)
  next
    case False
    then have "lstrip (x @ nl # marker) = dropWhile is_space x @ nl # marker"
      by (auto simp: lstrip_def)
    then show ?thesis by (metis takeWhile_dropWhile_id)
  qed
  have final: "filter (contains MANAGED_DESC_PREFIX) (split_on nl (strip (x @ nl # marker))) = [marker]"
    if "\<not> contains MANAGED_DESC_PREFIX x" for x
  proof (cases "lstrip (x @ nl # marker) = marker")
    case True
    then show ?thesis using rs [of "[]"] assms by (simp add: strip_def split_on_no_sep)
  next
    case False
    then obtain y w where y: "lstrip (x @ nl # marker) = y @ nl # marker" "x = w @ y"
      using ls by blast
    then have "\<not> contains MANAGED_DESC_PREFIX y" using that by auto
    then show ?thesis
      using y(1) rs [of "y @ [nl]"] noline app assms(2) by (simp add: strip_def)
  qed
  let ?ps = "filter (\<lambda>p. p \<noteq> []) (filter (\<lambda>p. \<not> contains MANAGED_DESC_PREFIX p) (split_on nl (strip d)))"
  have "\<not> contains MANAGED_DESC_PREFIX (join_on [nl] ?ps)" if "?ps \<noteq> []"
    using contains_join [of MANAGED_DESC_PREFIX nl ?ps] prefix_chars(4) that by auto
  with final [of "join_on [nl] ?ps"] final [of "strip d"] m assms show ?thesis
    by (auto simp: marked_description_def Let_def join_snoc split_on_no_sep
        simp del: filter_filter)
qed

subsection \<open>Lemmas: isolation\<close>

text \<open>The entry that isolation writes for a key, if any\<close>

definition isolated_value :: "string \<Rightarrow> string \<Rightarrow> string \<Rightarrow> pyval \<Rightarrow> string option" where
  "isolated_value mode bridge key val =
     (case isolate_entry mode bridge (key, val) of Inr (Some (_, txt)) \<Rightarrow> Some txt | _ \<Rightarrow> None)"

lemma isolated_value_non_net: "\<not> startswith ''net'' k \<Longrightarrow> isolated_value m b k v = None"
  by (simp add: isolated_value_def isolate_entry_def)

lemma isolate_entry_key: "isolate_entry m b (k, v) = Inr (Some (k', txt)) \<Longrightarrow> k' = k"
  by (auto simp: isolate_entry_def Let_def split: if_splits)

lemma isolation_changes_Cons:
  "isolation_changes m b ((k, v) # cfg) = Inr cs \<longleftrightarrow>
     (\<exists>c cs'. isolate_entry m b (k, v) = Inr c \<and> isolation_changes m b cfg = Inr cs' \<and>
        cs = (case c of None \<Rightarrow> cs' | Some kv \<Rightarrow> kv # cs'))"
  by (force simp: isolation_changes_def List.map_filter_simps split: option.splits)

lemma isolation_changes_keys:
  "isolation_changes m b cfg = Inr cs \<Longrightarrow> fst ` set cs \<subseteq> fst ` set cfg"
proof (induction cfg arbitrary: cs)
  case (Cons kv cfg)
  obtain k v where kv: "kv = (k, v)" by (cases kv)
  obtain c cs' where c: "isolate_entry m b (k, v) = Inr c" "isolation_changes m b cfg = Inr cs'"
    "cs = (case c of None \<Rightarrow> cs' | Some kv \<Rightarrow> kv # cs')"
    using Cons.prems unfolding kv isolation_changes_Cons by blast
  from Cons.IH [OF c(2)] c(3) isolate_entry_key [of m b k v] c(1) show ?case
    unfolding kv by (cases c) auto
qed (simp add: isolation_changes_def List.map_filter_simps)

lemma map_of_isolation_changes:
  assumes "isolation_changes m b cfg = Inr cs" "distinct (map fst cfg)"
  shows "map_of cs k = (case map_of cfg k of None \<Rightarrow> None | Some v \<Rightarrow> isolated_value m b k v)"
  using assms
proof (induction cfg arbitrary: cs)
  case (Cons kv cfg)
  obtain k' v' where kv: "kv = (k', v')" by (cases kv)
  obtain c cs' where c: "isolate_entry m b (k', v') = Inr c" "isolation_changes m b cfg = Inr cs'"
    "cs = (case c of None \<Rightarrow> cs' | Some kv \<Rightarrow> kv # cs')"
    using Cons.prems(1) unfolding kv isolation_changes_Cons by blast
  from Cons.IH [OF c(2)] Cons.prems(2)
  have IH: "map_of cs' k = (case map_of cfg k of None \<Rightarrow> None | Some v \<Rightarrow> isolated_value m b k v)"
    by simp
  have none: "map_of cs' k' = None"
    using isolation_changes_keys [OF c(2)] Cons.prems(2) kv by (auto simp: map_of_eq_None_iff)
  show ?case
  proof (cases c)
    case None
    then show ?thesis using c IH none kv by (auto simp: isolated_value_def)
  next
    case (Some p)
    obtain k2 w where p: "p = (k2, w)" by (cases p)
    with Some c(1) isolate_entry_key have "k2 = k'" by blast
    then show ?thesis using c IH kv Some p by (auto simp: isolated_value_def)
  qed
qed (simp add: isolation_changes_def List.map_filter_simps)

text \<open>The configuration after the changes were written\<close>

definition config_after :: "dict \<Rightarrow> (string \<times> string) list \<Rightarrow> dict" where
  "config_after cfg changes = AList.merge cfg (map (\<lambda>(k, v). (k, PStr v)) changes)"

lemma map_of_config_after:
  "map_of (config_after cfg cs) k =
     (case map_of cs k of Some txt \<Rightarrow> Some (PStr txt) | None \<Rightarrow> map_of cfg k)"
  by (simp add: config_after_def map_of_map split: option.splits)

text \<open>What a network device looks like once it is isolated\<close>

definition device_isolated :: "string \<Rightarrow> string \<Rightarrow> string \<Rightarrow> bool" where
  "device_isolated mode bridge txt \<longleftrightarrow>
     (if mode = ''unlink'' then contains ''link_down=1'' txt
      else filter (startswith ''bridge='') (split_on CHR '','' txt) = [''bridge='' @ bridge])"

lemma remap_bridge_isolated:
  assumes "CHR '','' \<notin> set bridge"
  shows "filter (startswith ''bridge='') (split_on CHR '','' (remap_bridge bridge txt)) = [''bridge='' @ bridge]"
proof -
  let ?ps = "filter (\<lambda>p. p \<noteq> [] \<and> \<not> startswith ''bridge='' p) (split_on CHR '','' txt)"
  have "split_on CHR '','' (remap_bridge bridge txt) = ?ps @ [''bridge='' @ bridge]"
    unfolding remap_bridge_def using assms by (intro split_join) (auto dest: split_on_pieces)
  then show ?thesis by (simp add: filter_empty_conv startswith_def)
qed

lemma isolated_value_cases:
  assumes "isolate_entry mode bridge (k, v) = Inr c" "startswith ''net'' k"
  shows "mode = ''unlink'' \<or> mode = ''remap'' \<and> bridge \<noteq> []"
    "isolated_value mode bridge k v = Some txt \<Longrightarrow> CHR '','' \<notin> set bridge \<Longrightarrow>
       device_isolated mode bridge txt"
    "isolated_value mode bridge k v = None \<Longrightarrow> device_isolated mode bridge (str_or_empty v)"
  using assms
  by (auto simp: isolate_entry_def isolated_value_def device_isolated_def Let_def remap_bridge_isolated
      split: if_splits)

lemma isolation_changes_entry:
  assumes "isolation_changes m b cfg = Inr cs" "map_of cfg k = Some v"
  shows "\<exists>c. isolate_entry m b (k, v) = Inr c"
proof -
  have "(k, v) \<in> set cfg" using assms(2) by (rule map_of_SomeD)
  moreover obtain xs where "map_res (isolate_entry m b) cfg = Inr xs"
    using assms(1) by (auto simp: isolation_changes_def)
  ultimately show ?thesis using map_res_mem [of "isolate_entry m b" cfg xs "(k, v)"] by auto
qed

lemma str_or_empty_PStr_of: "str_or_empty (PStr t) = t" by simp

subsection \<open>Lemmas: host names\<close>

lemma norm_hostname_idem: "norm_hostname (lower h) = norm_hostname h"
  by (simp add: norm_hostname_def strip_lower)

subsection \<open>Lemmas: traces of stop and destroy\<close>

text \<open>The calls that stopping and destroying one guest may make\<close>

inductive_set destroy_calls :: "string \<Rightarrow> int \<Rightarrow> ext_call set" for node :: string and vmid :: int where
  "StatusStop node vmid tmo \<in> destroy_calls node vmid"
| "StatusCurrent node vmid \<in> destroy_calls node vmid"
| "QemuDelete node vmid purge dud \<in> destroy_calls node vmid"
| "Sleep d \<in> destroy_calls node vmid"

inductive_simps destroy_calls_simps [simp]:
  "StatusStop n v tmo \<in> destroy_calls node vmid"
  "StatusCurrent n v \<in> destroy_calls node vmid"
  "QemuDelete n v purge dud \<in> destroy_calls node vmid"
  "Sleep d \<in> destroy_calls node vmid"
  "ConfigPut n v kv \<in> destroy_calls node vmid"
  "StatusStart n v \<in> destroy_calls node vmid"
  "RestorePost n rp \<in> destroy_calls node vmid"

lemma call_emits: "call E c s = (r, t) \<Longrightarrow> c \<in> S \<Longrightarrow> emits_rel S s t"
  by (metis keepsD keeps_call)

lemma keeps_stop_poll:
  "keeps (emits_rel (destroy_calls node vmid))
     (stop_poll n E node vmid d :: ('x store_scheme, unit) act)"
proof (induction n)
  case (Suc n)
  have read: "keeps (emits_rel (destroy_calls node vmid))
      (bind_act (call E (StatusCurrent node vmid)) (\<lambda>raw. res_act (poll_status raw))
        :: ('x store_scheme, string) act)"
    by (intro emits.keeps_bind keeps_call emits.keeps_res) simp
  have rec: "keeps (emits_rel (destroy_calls node vmid))
      (bind_act (sleep 1) (\<lambda>_. stop_poll n E node vmid d) :: ('x store_scheme, unit) act)"
    by (intro emits.keeps_bind keeps_sleep Suc) simp
  show ?case
    by (rule keepsI)
      (auto split: if_splits prod.splits sum.splits intro: emits.refl emits.trans
        dest!: keepsD [OF read] keepsD [OF rec])
qed simp

lemma keeps_stop_qemu_vm:
  assumes "strip node = node"
  shows "keeps (emits_rel (destroy_calls node vmid)) (stop_qemu_vm E node vmid tmo)"
  unfolding stop_qemu_vm_def Let_def assms
  by (intro emits.keeps_bind emits.keeps_catch keeps_call emits.keeps_ret, simp)
    (rule keepsI, erule keepsD [OF keeps_stop_poll])

lemma keeps_destroy_attempts:
  assumes "strip node = node"
  shows "keeps (emits_rel (destroy_calls node vmid))
    (destroy_attempts n E node vmid purge dud lst :: ('x store_scheme, unit) act)"
proof (induction n arbitrary: dud lst)
  case 0
  then show ?case by (auto split: option.splits)
next
  case (Suc n)
  have retry: "keeps (emits_rel (destroy_calls node vmid))
      (bind_act (stop_qemu_vm E node vmid 60) (\<lambda>_.
        bind_act (sleep 2) (\<lambda>_. destroy_attempts n E node vmid purge dud (Some e)))
        :: ('x store_scheme, unit) act)" for dud e
    by (intro emits.keeps_bind keeps_stop_qemu_vm assms keeps_sleep Suc) simp
  have del: "emits_rel (destroy_calls node vmid) s t"
    if "call E (QemuDelete node vmid purge d) s = (r, t)" for d r and s t :: "'x store_scheme"
    using that by (rule call_emits) simp
  show ?case
    by (rule keepsI)
      (auto split: if_splits prod.splits sum.splits
        dest!: keepsD [OF Suc] keepsD [OF retry] del intro: emits.trans)
qed

lemma keeps_destroy_qemu_vm:
  "keeps (emits_rel (destroy_calls (strip node) vmid)) (destroy_qemu_vm E node vmid purge dud)"
  unfolding destroy_qemu_vm_def Let_def
  by (intro emits.keeps_if emits.keeps_raise emits.keeps_bind keeps_stop_qemu_vm keeps_destroy_attempts)
    simp_all

subsection \<open>Lemmas: enough fuel\<close>

lemma stop_poll_ok:
  assumes "clock_ok E" "k < n" "deadline \<le> now E s + of_nat k"
  shows "fst (stop_poll n E node vmid deadline s) = Inr ()"
  using assms(2,3)
proof (induction n arbitrary: k s)
  case (Suc n)
  show ?case
  proof (cases "now E s < deadline")
    case True
    with Suc.prems obtain j where k: "k = Suc j" "j < n" by (cases k) auto
    let ?m = "bind_act (call E (StatusCurrent node vmid)) (\<lambda>raw. res_act (poll_status raw))"
    obtain r s' where m: "?m s = (r, s')" by (cases "?m s")
    have "s' = snd (call E (StatusCurrent node vmid) s)"
      using m by (auto simp: bind_act_def res_act_def split: prod.splits sum.splits)
    then have "now E s \<le> now E s'" using clock_okD(1) [OF assms(1)] by simp
    moreover have "now E s' + 1 \<le> now E (snd (sleep 1 s'))" by (rule clock_okD(2) [OF assms(1)])
    ultimately have "deadline \<le> now E (snd (sleep 1 s')) + of_nat j"
      using Suc.prems(2) unfolding k(1) of_nat_Suc by linarith
    from Suc.IH [OF k(2) this] m True show ?thesis
      by (auto simp: bind_act_def sleep_def split: sum.splits)
  qed simp
qed simp

lemma stop_qemu_vm_ok:
  assumes "clock_ok E" "max 5 tmo < int (fuel E)"
  shows "fst (stop_qemu_vm E node vmid tmo s) = Inr ()"
proof -
  let ?m = "catch_act (bind_act (call E (StatusStop (strip node) vmid tmo)) (\<lambda>_. ret_act ()))
                   (\<lambda>e. ret_act ()) :: ('a store_scheme, unit) act"
  obtain s' where m: "?m s = (Inr (), s')"
    using answer_no_fuel [of E "calls s" "StatusStop (strip node) vmid tmo"]
    by (cases "answer E (calls s) (StatusStop (strip node) vmid tmo)")
      (auto simp: catch_act_def bind_act_def call_def ret_act_def)
  have "fst (stop_poll (fuel E) E (strip node) vmid (now E s' + of_int (max 5 tmo)) s') = Inr ()"
  proof (rule stop_poll_ok [OF assms(1), where k = "nat (max 5 tmo)"])
    show "nat (max 5 tmo) < fuel E" using assms(2) by linarith
    show "now E s' + of_int (max 5 tmo) \<le> now E s' + of_nat (nat (max 5 tmo))"
      by (simp add: of_nat_nat)
  qed
  then show ?thesis using m by (simp add: stop_qemu_vm_def Let_def bind_act_eval)
qed

lemma destroy_attempts_no_fuel:
  assumes "clock_ok E" "60 < fuel E" "lst \<noteq> Some OutOfFuel"
  shows "fst (destroy_attempts n E node vmid purge dud lst s) \<noteq> Inl OutOfFuel"
  using assms(3)
proof (induction n arbitrary: dud lst s)
  case 0
  then show ?case by (auto simp: ret_act_def raise_act_def split: option.splits)
next
  case (Suc n)
  have stop: "fst (stop_qemu_vm E node vmid 60 s) = Inr ()" for s :: "'a store_scheme"
    by (rule stop_qemu_vm_ok [OF assms(1)]) (use assms(2) in simp)
  have step: "bind_act (stop_qemu_vm E node vmid 60) f s = f () (snd (stop_qemu_vm E node vmid 60 s))"
    for f :: "unit \<Rightarrow> ('a store_scheme, unit) act" and s
    using stop [of s] by (cases "stop_qemu_vm E node vmid 60 s") (auto simp: bind_act_def)
  have ans: "x \<noteq> OutOfFuel" if "call E c s = (Inl x, s')" for c x and s s' :: "'a store_scheme"
    using that by (auto simp: call_def answer_def split: if_splits)
  show ?case
    using Suc.IH
    by (auto simp: step sleep_def bind_act_eval raise_act_def split: prod.splits sum.splits dest!: ans)
qed

lemma destroy_qemu_vm_no_fuel:
  assumes "clock_ok E" "90 < fuel E"
  shows "fst (destroy_qemu_vm E node vmid purge dud s) \<noteq> Inl OutOfFuel"
proof -
  have "fst (stop_qemu_vm E (strip node) vmid 90 s) = Inr ()"
    by (rule stop_qemu_vm_ok [OF assms(1)]) (use assms(2) in simp)
  then obtain s' where "stop_qemu_vm E (strip node) vmid 90 s = (Inr (), s')"
    by (cases "stop_qemu_vm E (strip node) vmid 90 s") auto
  then show ?thesis
    using destroy_attempts_no_fuel [OF assms(1), of None 3 "strip node" vmid purge dud s'] assms(2)
    by (simp add: destroy_qemu_vm_def Let_def raise_act_def bind_act_eval)
qed

text \<open>Destroying returns normally only when the last call was a deletion that was accepted.\<close>

lemma destroy_attempts_deleted:
  assumes "destroy_attempts n E node vmid purge dud lst s = (Inr (), t)" "lst \<noteq> None \<or> 0 < n"
  shows "\<exists>pre d x. calls t = pre @ [QemuDelete node vmid purge d] \<and>
           answer E pre (QemuDelete node vmid purge d) = Inr x"
  using assms
proof (induction n arbitrary: dud lst s)
  case 0
  then show ?case by (auto simp: raise_act_def)
next
  case (Suc n)
  have ok: ?case if "call E (QemuDelete node vmid purge d) s' = (Inr x, t)" for d x s'
    using that by (auto simp: call_def)
  obtain r s1 where c1: "call E (QemuDelete node vmid purge dud) s = (r, s1)"
    by (cases "call E (QemuDelete node vmid purge dud) s")
  show ?case
  proof (cases r)
    case (Inr x)
    then show ?thesis using Suc.prems(1) c1 ok by auto
  next
    case (Inl e)
    obtain r2 s2 where c2: "call E (QemuDelete node vmid purge False) s1 = (r2, s2)"
      by (cases "call E (QemuDelete node vmid purge False) s1")
    show ?thesis
      using Suc.prems(1) c1 c2 Inl Suc.IH ok
      by (cases r2) (auto split: if_splits elim!: bind_act_cases)
  qed
qed

subsection \<open>Lemmas: evidence of ownership\<close>

text \<open>
  What the destruction decides on: the first row of the cluster resources with the id, and
  the configuration it reads next.
\<close>

definition guest_seen :: "env \<Rightarrow> ext_call list \<Rightarrow> int \<Rightarrow> guest_resource option" where
  "guest_seen E cs vmid =
     (case answer E cs ClusterResources of
        Inl e \<Rightarrow> None | Inr raw \<Rightarrow> guest_in_rows vmid (dict_rows (rows_or_empty raw)))"

definition managed_seen :: "env \<Rightarrow> ext_call list \<Rightarrow> string \<Rightarrow> int \<Rightarrow> bool" where
  "managed_seen E cs node vmid =
     (case answer E cs (ConfigGet node vmid) of
        Inl e \<Rightarrow> False | Inr raw \<Rightarrow> managed_config (unwrap_dict raw))"

lemma find_guest_resource_eval:
  "find_guest_resource E vmid s =
     (Inr (guest_seen E (calls s) vmid), s\<lparr>calls := calls s @ [ClusterResources]\<rparr>)"
  using answer_no_fuel [of E "calls s" ClusterResources]
  by (cases "answer E (calls s) ClusterResources")
    (auto simp: find_guest_resource_def cluster_vm_resources_def bind_act_def catch_act_def call_def
      ret_act_def guest_seen_def)

lemma qemu_is_managed_eval:
  "qemu_is_managed_by_tool E node vmid s =
     (Inr (managed_seen E (calls s) node vmid), s\<lparr>calls := calls s @ [ConfigGet node vmid]\<rparr>)"
  using answer_no_fuel [of E "calls s" "ConfigGet node vmid"]
  by (cases "answer E (calls s) (ConfigGet node vmid)")
    (auto simp: qemu_is_managed_by_tool_def get_qemu_config_def bind_act_def catch_act_def call_def
      ret_act_def managed_seen_def)

lemma guest_in_rows_type:
  "guest_in_rows v rows = Some g \<Longrightarrow> gr_type g \<noteq> [] \<and> gr_vmid g = v \<and> strip (gr_node g) = gr_node g"
  by (induction v rows rule: guest_in_rows.induct) (auto split: if_splits)

lemma guest_seen_type:
  "guest_seen E cs v = Some g \<Longrightarrow> gr_type g \<noteq> [] \<and> gr_vmid g = v \<and> strip (gr_node g) = gr_node g"
  by (auto simp: guest_seen_def guest_in_rows_type split: sum.splits)

definition owner_node :: "string \<Rightarrow> guest_resource \<Rightarrow> string" where
  "owner_node node g = (if gr_node g \<noteq> [] then gr_node g else strip node)"

text \<open>The only branch of \<open>destroy_owned_qemu_vm\<close> that reaches the guest\<close>

definition may_destroy :: "env \<Rightarrow> ext_call list \<Rightarrow> string \<Rightarrow> int \<Rightarrow> bool \<Rightarrow> bool" where
  "may_destroy E cs node vmid prov \<longleftrightarrow>
     (\<exists>g. guest_seen E cs vmid = Some g \<and> gr_type g = ''qemu'' \<and>
        (prov \<or> managed_seen E (cs @ [ClusterResources]) (owner_node node g) vmid))"

lemma destroy_owned_cases:
  assumes "destroy_owned_qemu_vm E node vmid prov purge dud s = (r, t)"
  obtains (absent) "guest_seen E (calls s) vmid = None" "r = Inr ''absent''"
      "t = s\<lparr>calls := calls s @ [ClusterResources]\<rparr>"
  | (wrong_type) g m where "guest_seen E (calls s) vmid = Some g" "gr_type g \<noteq> ''qemu''"
      "r = Inl (GuestOwnershipError m)" "t = s\<lparr>calls := calls s @ [ClusterResources]\<rparr>"
  | (foreign) g m where "guest_seen E (calls s) vmid = Some g" "gr_type g = ''qemu''"
      "\<not> may_destroy E (calls s) node vmid prov" "r = Inl (GuestOwnershipError m)"
      "t = s\<lparr>calls := calls s @ [ClusterResources, ConfigGet (owner_node node g) vmid]\<rparr>"
  | (destroy) g word where "guest_seen E (calls s) vmid = Some g"
      "may_destroy E (calls s) node vmid prov"
      "bind_act (destroy_qemu_vm E (owner_node node g) vmid purge dud) (\<lambda>_. ret_act word)
         (s\<lparr>calls := calls s @ [ClusterResources, ConfigGet (owner_node node g) vmid]\<rparr>) = (r, t)"
      "word = (if managed_seen E (calls s @ [ClusterResources]) (owner_node node g) vmid
               then ''managed'' else ''run_provenance'')"
proof (cases "guest_seen E (calls s) vmid")
  case None
  then show ?thesis using assms absent
    by (simp add: destroy_owned_qemu_vm_def bind_act_def find_guest_resource_eval ret_act_def)
next
  case (Some g)
  note g = guest_seen_type [OF this]
  have node: "strip (if gr_node g \<noteq> [] then gr_node g else strip node) = owner_node node g"
    using g by (simp add: owner_node_def)
  show ?thesis
  proof (cases "gr_type g = ''qemu''")
    case False
    then show ?thesis using assms Some g wrong_type
      by (auto simp: destroy_owned_qemu_vm_def bind_act_def find_guest_resource_eval raise_act_def
          split: if_splits)
  next
    case True
    let ?n = "owner_node node g"
    let ?s2 = "s\<lparr>calls := calls s @ [ClusterResources, ConfigGet ?n vmid]\<rparr>"
    let ?man = "managed_seen E (calls s @ [ClusterResources]) ?n vmid"
    have eq: "destroy_owned_qemu_vm E node vmid prov purge dud s =
      (if ?man then bind_act (destroy_qemu_vm E ?n vmid purge dud) (\<lambda>_. ret_act ''managed'') ?s2
       else if prov then bind_act (destroy_qemu_vm E ?n vmid purge dud) (\<lambda>_. ret_act ''run_provenance'') ?s2
       else raise_act (GuestOwnershipError (foreign_refusal ?n vmid)) ?s2)"
      using Some True
      by (simp add: destroy_owned_qemu_vm_def bind_act_eval find_guest_resource_eval node
          qemu_is_managed_eval catch_act_eval Let_def)
    show ?thesis
    proof (cases "?man \<or> prov")
      case True2: True
      then have may: "may_destroy E (calls s) node vmid prov"
        using Some True by (auto simp: may_destroy_def)
      show ?thesis
        by (rule destroy [OF Some may _ HOL.refl]) (use assms eq True2 in \<open>auto split: if_splits\<close>)
    next
      case False
      then have "\<not> may_destroy E (calls s) node vmid prov"
        using Some by (auto simp: may_destroy_def)
      with assms eq False show ?thesis
        by (intro foreign [OF Some True]) (auto simp: raise_act_def)
    qed
  qed
qed

subsection \<open>A concrete cluster\<close>

text \<open>
  Guest 101 is foreign, guest 102 carries the marker, 103 is a container; stopping and
  deleting succeed. It is the environment of the witnesses.
\<close>

definition demo_api :: "ext_call list \<Rightarrow> ext_call \<Rightarrow> exn + pyval" where
  "demo_api cs c =
     (case c of
        ClusterResources \<Rightarrow> Inr (PList
          [PDict [(''vmid'', PInt 101), (''type'', PStr ''qemu''), (''node'', PStr ''n1'')],
           PDict [(''vmid'', PInt 102), (''type'', PStr ''qemu''), (''node'', PStr ''n1'')],
           PDict [(''vmid'', PStr ''103''), (''type'', PStr ''lxc''), (''node'', PStr ''n2'')]])
      | ConfigGet node vmid \<Rightarrow> Inr (PDict
          [(''name'', PStr ''web''), (''net0'', PStr ''virtio=AA,bridge=vmbr0''),
           (''tags'', PStr (if vmid = 102 then ''prod;restore-engine'' else ''prod'')),
           (''description'', PStr ''owner: ops'')])
      | StatusCurrent node vmid \<Rightarrow> Inr (PDict [(''status'', PStr ''stopped'')])
      | RestorePost node rp \<Rightarrow> Inr (PStr ''UPID:n1:1'')
      | TaskStatus node upid \<Rightarrow> Inr (PDict [(''status'', PStr ''stopped''), (''exitstatus'', PStr ''OK'')])
      | _ \<Rightarrow> Inr PNone)"

definition demo_env :: env where
  "demo_env = \<lparr>api = demo_api, clock = (\<lambda>cs. of_nat (length cs)), iso = (\<lambda>cs. ''2026-01-01T00:00:00''),
     uuid = (\<lambda>n. CHR ''j'' # str_of_nat n), cancel_by = (\<lambda>cs j. False), fuel = 10\<rparr>"

subsection \<open>Properties\<close>

lemma destroy_owned_calls:
  assumes "destroy_owned_qemu_vm E node vmid prov purge dud s = (r, t)"
  shows "(\<exists>cs g. t = s\<lparr>calls := calls s @ cs\<rparr> \<and>
      (\<forall>c \<in> set cs. c = ClusterResources \<or> c = ConfigGet (owner_node node g) vmid \<or>
         guest_seen E (calls s) vmid = Some g \<and> may_destroy E (calls s) node vmid prov \<and>
         c \<in> destroy_calls (owner_node node g) vmid)) \<and>
    (\<not> may_destroy E (calls s) node vmid prov \<longrightarrow>
       r = Inr ''absent'' \<or> (\<exists>m. r = Inl (GuestOwnershipError m)))"
  using assms
proof (cases rule: destroy_owned_cases)
  case absent
  then show ?thesis by auto
next
  case (wrong_type g m)
  then show ?thesis by auto
next
  case (foreign g m)
  then show ?thesis
    by (intro conjI exI [of _ "[ClusterResources, ConfigGet (owner_node node g) vmid]"] exI [of _ g])
      auto
next
  case (destroy g word)
  let ?n = "owner_node node g"
  let ?s2 = "s\<lparr>calls := calls s @ [ClusterResources, ConfigGet ?n vmid]\<rparr>"
  have n: "strip ?n = ?n" using guest_seen_type [OF destroy(1)] by (simp add: owner_node_def)
  have "keeps (emits_rel (destroy_calls ?n vmid))
      (bind_act (destroy_qemu_vm E ?n vmid purge dud) (\<lambda>_. ret_act word))"
    using keeps_destroy_qemu_vm [of ?n vmid E purge dud] unfolding n
    by (intro emits.keeps_bind emits.keeps_ret)
  from keepsD [OF this destroy(3)] obtain cs
    where "t = ?s2\<lparr>calls := calls ?s2 @ cs\<rparr>" "set cs \<subseteq> destroy_calls ?n vmid"
    by (auto simp: emits_rel_def)
  then have "t = s\<lparr>calls := calls s @ ([ClusterResources, ConfigGet ?n vmid] @ cs)\<rparr>"
    "\<forall>c \<in> set ([ClusterResources, ConfigGet ?n vmid] @ cs).
       c = ClusterResources \<or> c = ConfigGet ?n vmid \<or> c \<in> destroy_calls ?n vmid" by auto
  then show ?thesis using destroy(1,2) by blast
qed

text \<open>C1: foreign guests are never touched. Apart from reading the cluster resources and the
  guest's configuration, \<open>destroy_owned_qemu_vm\<close> calls nothing unless the id belongs to a
  QEMU guest that carries the marker (or the caller vouches for it), and then it stops and
  deletes that guest only; otherwise it reports \<open>absent\<close> or raises the ownership error.
  The Redis state is not changed.\<close>

theorem destroy_owned_safe:
  assumes "destroy_owned_qemu_vm E node vmid prov purge dud s = (r, t)"
  shows "(\<exists>cs g. t = s\<lparr>calls := calls s @ cs\<rparr> \<and>
      (\<forall>c \<in> set cs. c = ClusterResources \<or> c = ConfigGet (owner_node node g) vmid \<or>
         guest_seen E (calls s) vmid = Some g \<and> may_destroy E (calls s) node vmid prov \<and>
         c \<in> destroy_calls (owner_node node g) vmid)) \<and>
    (\<not> may_destroy E (calls s) node vmid prov \<longrightarrow>
       r = Inr ''absent'' \<or> (\<exists>m. r = Inl (GuestOwnershipError m)))"
  by (rule destroy_owned_calls [OF assms])

lemma demo_foreign:
  "destroy_owned_qemu_vm demo_env ''n1'' 101 False True True empty_store =
     (Inl (GuestOwnershipError (foreign_refusal ''n1'' 101)),
      empty_store\<lparr>calls := [ClusterResources, ConfigGet ''n1'' 101]\<rparr>)"
  by code_simp

theorem destroy_owned_safe_witness:
  "\<not> may_destroy demo_env (calls empty_store) ''n1'' 101 False \<and>
   (\<exists>cs g. empty_store\<lparr>calls := [ClusterResources, ConfigGet ''n1'' 101]\<rparr>
       = empty_store\<lparr>calls := calls empty_store @ cs\<rparr> \<and>
      (\<forall>c \<in> set cs. c = ClusterResources \<or> c = ConfigGet (owner_node ''n1'' g) 101))"
proof -
  have no: "\<not> may_destroy demo_env (calls empty_store) ''n1'' 101 False"
  proof -
    have "guest_seen demo_env [] 101 = Some \<lparr>gr_type = ''qemu'', gr_node = ''n1'', gr_vmid = 101\<rparr>"
      "\<not> managed_seen demo_env [ClusterResources] ''n1'' 101"
      by code_simp+
    then show ?thesis by (simp add: may_destroy_def owner_node_def empty_store_def)
  qed
  with destroy_owned_safe [OF demo_foreign] show ?thesis by blast
qed

text \<open>A destruction that reports success has deleted the guest. When
  \<open>destroy_owned_qemu_vm\<close> returns \<open>managed\<close> or \<open>run_provenance\<close>, the last call it made was a
  deletion of that guest, and Proxmox accepted it.\<close>

lemma destroy_owned_deleted:
  assumes "destroy_owned_qemu_vm E node vmid prov purge dud s = (Inr word, t)" "word \<noteq> ''absent''"
  shows "\<exists>g pre d x. guest_seen E (calls s) vmid = Some g \<and>
    calls t = pre @ [QemuDelete (owner_node node g) vmid purge d] \<and>
    answer E pre (QemuDelete (owner_node node g) vmid purge d) = Inr x"
  using assms(1)
proof (cases rule: destroy_owned_cases)
  case (destroy g w)
  have n: "strip (owner_node node g) = owner_node node g"
    using guest_seen_type [OF destroy(1)] by (simp add: owner_node_def)
  obtain s' where "destroy_attempts 3 E (owner_node node g) vmid purge dud None s' = (Inr (), t)"
    using destroy(3)
    by (auto simp: destroy_qemu_vm_def Let_def n bind_act_Inr_iff raise_act_def ret_act_def
        split: if_splits)
  from destroy_attempts_deleted [OF this] destroy(1) show ?thesis by auto
qed (use assms(2) in auto)

text \<open>C27: the ownership marker round trip. After \<open>mark_qemu_managed_by_tool\<close> has written its
  tags and description, the guest is recognised as managed, its tags are the old ones (plus
  the marker tag when it was missing), and exactly one line of the description carries the
  marker, whatever an earlier job had written.\<close>

theorem mark_managed_round_trip:
  assumes "\<forall>u \<in> set (qemu_tags_from_config cfg). \<not> (\<exists>c \<in> set u. tag_separator c)"
    and "nl \<notin> set (job_id @ run_id)" "strip (owner_marker job_id run_id) = owner_marker job_id run_id"
    and "cfg' = AList.merge cfg
           [(''tags'', PStr (join_on '';'' (marked_tags cfg))),
            (''description'', PStr (marked_description (owner_marker job_id run_id)
                                (str_or_empty (dget cfg ''description''))))]"
  shows "managed_config cfg' \<and> qemu_tags_from_config cfg' = marked_tags cfg \<and>
    set (qemu_tags_from_config cfg) \<subseteq> set (qemu_tags_from_config cfg') \<and>
    filter (contains MANAGED_DESC_PREFIX) (split_on nl (str_or_empty (dget cfg' ''description'')))
      = [owner_marker job_id run_id]"
proof -
  have tags: "qemu_tags_from_config cfg' = marked_tags cfg"
    unfolding assms(4)
  proof (rule qemu_tags_read_back)
    fix u assume u: "u \<in> set (marked_tags cfg)"
    then have "u \<in> set (qemu_tags_from_config cfg) \<or> u = MANAGED_TAG"
      by (auto simp: marked_tags_def Let_def split: if_splits)
    with u assms(1) marked_tags_facts(3) MANAGED_TAG_token(3)
    show "sanitize_tag_token u = Some u \<and> \<not> (\<exists>c \<in> set u. tag_separator c)" by blast
  qed (rule marked_tags_facts)+
  have desc: "str_or_empty (dget cfg' ''description'') =
      marked_description (owner_marker job_id run_id) (str_or_empty (dget cfg ''description''))"
    by (simp add: assms(4) dget_def dget_or_def)
  have "nl \<notin> set (owner_marker job_id run_id)"
    using assms(2) by (auto simp: owner_marker_def MANAGED_DESC_PREFIX_def nl_def)
  from filter_lines_strip [OF this owner_marker_contains assms(3)] tags desc marked_tags_facts(4)
  show ?thesis
    by (auto simp: managed_config_def marked_tags_def Let_def)
qed

theorem mark_managed_round_trip_witness:
  "managed_config (AList.merge [(''tags'', PStr ''prod,web''), (''description'', PStr ''ops'')]
     [(''tags'', PStr ''prod;web;restore-engine''),
      (''description'', PStr (''ops'' @ [nl] @ ''restore-engine:job=j1;run=-''))])"
proof -
  let ?cfg = "[(''tags'', PStr ''prod,web''), (''description'', PStr ''ops'')]"
  have "\<forall>u \<in> set (qemu_tags_from_config ?cfg). \<not> (\<exists>c \<in> set u. tag_separator c)"
    "nl \<notin> set (''j1'' @ [])" "strip (owner_marker ''j1'' []) = owner_marker ''j1'' []"
    "join_on '';'' (marked_tags ?cfg) = ''prod;web;restore-engine''"
    "marked_description (owner_marker ''j1'' []) (str_or_empty (dget ?cfg ''description''))
       = ''ops'' @ [nl] @ ''restore-engine:job=j1;run=-''"
    by code_simp+
  note c = this
  from mark_managed_round_trip [OF c(1-3) HOL.refl]
  show ?thesis unfolding c(4,5) by (rule conjunct1)
qed

text \<open>C26: network isolation. When \<open>apply_network_isolation\<close> computes its changes without an
  error, the configuration it leaves has every \<open>net*\<close> device isolated in the requested mode
  (link down, or attached to the lab bridge and to no other), every other entry as it was and
  no entry added.\<close>

theorem isolation_effect:
  assumes "isolation_changes mode bridge cfg = Inr cs" "distinct (map fst cfg)"
    and "CHR '','' \<notin> set bridge"
  shows "(\<forall>k v. startswith ''net'' k \<longrightarrow> map_of (config_after cfg cs) k = Some v \<longrightarrow>
            device_isolated mode bridge (str_or_empty v)) \<and>
    (\<forall>k. \<not> startswith ''net'' k \<longrightarrow> map_of (config_after cfg cs) k = map_of cfg k) \<and>
    dom (map_of (config_after cfg cs)) = dom (map_of cfg)"
proof (intro conjI allI impI)
  note cs = map_of_isolation_changes [OF assms(1,2)]
  show "device_isolated mode bridge (str_or_empty v)"
    if net: "startswith ''net'' k" and v: "map_of (config_after cfg cs) k = Some v" for k v
  proof -
    from v obtain w where w: "map_of cfg k = Some w"
      by (auto simp: map_of_config_after cs split: option.splits)
    obtain c where c: "isolate_entry mode bridge (k, w) = Inr c"
      using isolation_changes_entry [OF assms(1) w] by blast
    show ?thesis
    proof (cases "isolated_value mode bridge k w")
      case None
      with v w isolated_value_cases(3) [OF c net] show ?thesis by (simp add: map_of_config_after cs)
    next
      case (Some u)
      with v w isolated_value_cases(2) [OF c net] assms(3) show ?thesis
        by (auto simp: map_of_config_after cs)
    qed
  qed
  show "map_of (config_after cfg cs) k = map_of cfg k" if "\<not> startswith ''net'' k" for k
    using that by (simp add: map_of_config_after cs isolated_value_non_net split: option.split)
  show "dom (map_of (config_after cfg cs)) = dom (map_of cfg)"
    unfolding dom_def map_of_config_after cs by (rule Collect_cong) (simp split: option.split)
qed

theorem isolation_effect_witness:
  "device_isolated ''remap'' ''lab'' ''virtio=AA,bridge=lab''"
proof -
  let ?cfg = "[(''net0'', PStr ''virtio=AA,bridge=vmbr0''), (''cores'', PInt 2)]"
  have ch: "isolation_changes ''remap'' ''lab'' ?cfg = Inr [(''net0'', ''virtio=AA,bridge=lab'')]"
    "startswith ''net'' ''net0''"
    "map_of (config_after ?cfg [(''net0'', ''virtio=AA,bridge=lab'')]) ''net0''
       = Some (PStr ''virtio=AA,bridge=lab'')"
    by code_simp+
  from isolation_effect [OF ch(1)] ch(2,3) show ?thesis by force
qed

end
