(* ===== verification/PveTask.thy ===== *)
theory PveTask
  imports PveGuest
begin

text \<open>
  The connection and task side of \<open>pve_client.py\<close>: the choice of credentials, the
  submission of a restore, and the poll of a Proxmox task until it stops, with its log.
\<close>

subsection \<open>Connection\<close>

datatype pve_login =
    TokenLogin (login_host: pyval) (login_user: string) (login_token: string) (login_secret: string)
      (login_port: int) (login_verify: bool) (login_timeout: rat)
  | PasswordLogin (login_host: pyval) (login_user: string) (login_password: string)
      (login_port: int) (login_verify: bool) (login_timeout: rat)

definition strip_field :: "dict \<Rightarrow> string \<Rightarrow> exn + string" where
  "strip_field p k = py_strip (py_or (dget p k) (PStr []))"

definition need_key :: "dict \<Rightarrow> string \<Rightarrow> exn + pyval" where
  "need_key p k = (case map_of p k of None \<Rightarrow> Inl (KeyError k) | Some v \<Rightarrow> Inr v)"

text \<open>\<open>token_id.partition("!")\<close>\<close>

definition partition_at :: "char \<Rightarrow> string \<Rightarrow> string \<times> bool \<times> string" where
  "partition_at c s = (takeWhile (\<lambda>x. x \<noteq> c) s, c \<in> set s, tl (dropWhile (\<lambda>x. x \<noteq> c) s))"

definition proxmox_login :: "dict \<Rightarrow> exn + pve_login" where
  "proxmox_login p =
     (let timeout = max 5 (py_float_or (py_or (dget_or p ''timeout_sec'' (PInt 30)) (PInt 30)) 30)
      in res_bind (strip_field p ''api_token_id'') (\<lambda>token_id.
         res_bind (strip_field p ''api_token_secret'') (\<lambda>token_secret.
         if token_id \<noteq> [] \<and> token_secret \<noteq> [] then
           (let (user, sep, token_name) = partition_at CHR 0x21 token_id;
                user = strip user; token_name = strip token_name
            in if \<not> sep \<or> user = [] \<or> token_name = [] then
                 Inl (ValueError (''proxmox.api_token_id must look like '' @ repr_str ''user@realm!token_name''))
               else res_bind (need_key p ''host'') (\<lambda>host.
                    res_bind (py_int (dget_or p ''port'' (PInt 8006))) (\<lambda>port.
                    Inr (TokenLogin host user token_name token_secret port
                           (truthy (dget_or p ''verify_ssl'' (PBool True))) timeout))))
         else
           res_bind (strip_field p ''user'') (\<lambda>user.
           res_bind (strip_field p ''password'') (\<lambda>password.
           if user = [] \<or> password = [] then
             Inl (ValueError ''proxmox: set api_token_id/api_token_secret or user/password in config.yaml'')
           else res_bind (need_key p ''host'') (\<lambda>host.
                res_bind (py_int (dget_or p ''port'' (PInt 8006))) (\<lambda>port.
                Inr (PasswordLogin host user password port
                       (truthy (dget_or p ''verify_ssl'' (PBool True))) timeout))))))))"

text \<open>Building the client object contacts the server when it logs in with a password.\<close>

definition connect_proxmox :: "env \<Rightarrow> cfg \<Rightarrow> ('x store_scheme, unit) act" where
  "connect_proxmox E C =
     bind_act (res_act (proxmox_login (proxmox_cfg C))) (\<lambda>_.
       bind_act (call E Connect) (\<lambda>_. ret_act ()))"

subsection \<open>Restore\<close>

text \<open>
  \<open>bwlimit\<close> is in KiB/s; absent, \<open>None\<close> or not positive means no limit. The boolean
  parameters are sent as 0 or 1.
\<close>

definition effective_bwlimit :: "int option \<Rightarrow> int option" where
  "effective_bwlimit b = (case b of None \<Rightarrow> None | Some k \<Rightarrow> if 0 < k then Some k else None)"

definition submit_restore ::
  "env \<Rightarrow> string \<Rightarrow> int \<Rightarrow> string \<Rightarrow> string \<Rightarrow> bool \<Rightarrow> int option \<Rightarrow> bool \<Rightarrow> bool \<Rightarrow>
     ('x store_scheme, string) act" where
  "submit_restore E node target_vmid archive target_storage live_restore bwlimit unique force =
     bind_act (call E (RestorePost node
         \<lparr>rp_vmid = target_vmid, rp_archive = archive, rp_storage = target_storage,
          rp_live = live_restore, rp_unique = unique, rp_force = force,
          rp_bwlimit = effective_bwlimit bwlimit\<rparr>)) (\<lambda>result. res_act
       (case result of
          PStr u \<Rightarrow> Inr u
        | PDict d \<Rightarrow>
            let upid = py_or (dget d ''data'') (dget d ''upid'')
            in if truthy upid then Inr (py_str upid)
               else Inl (RuntimeError (''Unexpected restore response: '' @ repr_val result))
        | _ \<Rightarrow> Inl (RuntimeError (''Unexpected restore response: '' @ repr_val result))))"

definition stop_task :: "env \<Rightarrow> string \<Rightarrow> string \<Rightarrow> ('x store_scheme, unit) act" where
  "stop_task E node upid =
     catch_act (bind_act (call E (TaskDelete node upid)) (\<lambda>_. ret_act ())) (\<lambda>e. ret_act ())"

subsection \<open>Task log\<close>

fun log_row :: "pyval \<Rightarrow> string list \<times> int \<Rightarrow> string list \<times> int" where
  "log_row (PDict row) (lines, max_n) =
     (let line = rstrip (str_or_empty (py_or (dget row ''t'') (dget row ''text'')));
          max_n = (case py_int (dget row ''n'') of Inr n \<Rightarrow> max max_n n | Inl e \<Rightarrow> max_n)
      in (if line \<noteq> [] then lines @ [line] else lines, max_n))"
| "log_row (PStr row) (lines, max_n) =
     (if strip row \<noteq> [] then lines @ [strip row] else lines, max_n)"
| "log_row row (lines, max_n) = (lines, max_n)"

definition parse_task_log :: "int \<Rightarrow> pyval \<Rightarrow> string list \<times> int" where
  "parse_task_log start raw =
     (case unwrap_rows raw of
        None \<Rightarrow> ([], start)
      | Some rows \<Rightarrow>
          let (lines, max_n) = fold log_row rows ([], start - 1)
          in (lines, if start \<le> max_n then max_n + 1 else start + int (length lines)))"

definition fetch_task_log ::
  "env \<Rightarrow> string \<Rightarrow> string \<Rightarrow> int \<Rightarrow> int \<Rightarrow> ('x store_scheme, string list \<times> int) act" where
  "fetch_task_log E node upid start limit =
     catch_act (bind_act (call E (TaskLog node upid start limit))
                  (\<lambda>raw. ret_act (parse_task_log start raw)))
               (\<lambda>e. ret_act ([], start))"

subsection \<open>Waiting for a task\<close>

definition explain_pve_task_failure :: "string \<Rightarrow> string" where
  "explain_pve_task_failure exitstatus =
     ''PVE task failed: '' @ exitstatus @
     (if contains ''hostpci'' (lower exitstatus) \<and> contains ''only root'' (lower exitstatus)
      then '' '' @ em_dash @ '' this backup includes PCI passthrough; Proxmox requires root '' @
           ''(or mapped PCI devices) to restore hostpci* config. Use root '' @
           ''credentials, or remove passthrough from the source before backup.''
      else [])"

definition task_state :: "dict \<Rightarrow> string" where
  "task_state status = lower (str_or_empty (dget status ''status''))"

definition task_exit :: "dict \<Rightarrow> string" where
  "task_exit status = str_or_empty (dget status ''exitstatus'')"

definition task_succeeded :: "dict \<Rightarrow> bool" where
  "task_succeeded status \<longleftrightarrow> task_exit status = [] \<or> lower (task_exit status) = ''ok''"

text \<open>\<open>f"{timeout:.0f}"\<close> rounds half to even.\<close>

definition round_half_even :: "rat \<Rightarrow> int" where
  "round_half_even x =
     (let f = \<lfloor>x\<rfloor>; d = x - of_int f
      in if d < 1/2 then f else if d > 1/2 then f + 1 else if even f then f else f + 1)"

text \<open>
  \<open>should_cancel\<close> and \<open>on_tick\<close> are the callbacks; a caller that passes \<open>None\<close> passes the
  actions that return \<open>False\<close> and that do nothing.
\<close>

primrec task_poll ::
  "nat \<Rightarrow> env \<Rightarrow> string \<Rightarrow> string \<Rightarrow> rat \<Rightarrow> rat \<Rightarrow> rat option \<Rightarrow> ('x store_scheme, bool) act \<Rightarrow>
     (dict \<Rightarrow> string list \<Rightarrow> ('x store_scheme, unit) act) \<Rightarrow> int \<Rightarrow> ('x store_scheme, dict) act" where
  "task_poll 0 E node upid interval timeout deadline should_cancel on_tick offset = raise_act OutOfFuel"
| "task_poll (Suc n) E node upid interval timeout deadline should_cancel on_tick offset = (\<lambda>s.
     if (case deadline of None \<Rightarrow> True | Some d \<Rightarrow> now E s < d) then
       bind_act should_cancel (\<lambda>cancelled.
         if cancelled then
           bind_act (stop_task E node upid) (\<lambda>_.
             raise_act (TaskCancelled (''PVE task '' @ upid @ '' cancelled by operator'')))
         else bind_act (call E (TaskStatus node upid)) (\<lambda>answered.
           case answered of
             PDict status \<Rightarrow>
               bind_act (fetch_task_log E node upid offset 80) (\<lambda>(new_lines, offset').
               bind_act (catch_act (on_tick status new_lines) (\<lambda>e. ret_act ())) (\<lambda>_.
                 if task_state status = ''stopped'' then
                   (if task_succeeded status then ret_act status
                    else raise_act (RuntimeError (explain_pve_task_failure (task_exit status))))
                 else bind_act (sleep interval) (\<lambda>_.
                   task_poll n E node upid interval timeout deadline should_cancel on_tick offset')))
           | _ \<Rightarrow> bind_act (sleep interval) (\<lambda>_.
               task_poll n E node upid interval timeout deadline should_cancel on_tick offset))) s
     else (Inl (TimeoutError (''PVE task '' @ upid @ '' did not finish within '' @
             str_of_int (round_half_even timeout) @ ''s'')), s))"

definition wait_for_task ::
  "env \<Rightarrow> string \<Rightarrow> string \<Rightarrow> rat \<Rightarrow> rat \<Rightarrow> ('x store_scheme, bool) act \<Rightarrow>
     (dict \<Rightarrow> string list \<Rightarrow> ('x store_scheme, unit) act) \<Rightarrow> ('x store_scheme, dict) act" where
  "wait_for_task E node upid interval timeout should_cancel on_tick = (\<lambda>s.
     task_poll (fuel E) E node upid interval timeout
       (if timeout \<le> 0 then None else Some (now E s + timeout)) should_cancel on_tick 0 s)"

subsection \<open>Lemmas\<close>

lemma keeps_connect_proxmox: "keeps (emits_rel {Connect}) (connect_proxmox E C)"
  unfolding connect_proxmox_def
  by (intro emits.keeps_bind emits.keeps_res keeps_call emits.keeps_ret) simp

lemma keeps_stop_task: "keeps (emits_rel {TaskDelete node upid}) (stop_task E node upid)"
  unfolding stop_task_def
  by (intro emits.keeps_bind emits.keeps_catch keeps_call emits.keeps_ret) simp

lemma keeps_fetch_task_log:
  "keeps (emits_rel {TaskLog node upid start limit}) (fetch_task_log E node upid start limit)"
  unfolding fetch_task_log_def
  by (intro emits.keeps_bind emits.keeps_catch keeps_call emits.keeps_ret) simp

text \<open>A restore is submitted by exactly one call.\<close>

lemma submit_restore_call:
  assumes "submit_restore E node v a st live bw uniq force s = (r, t)"
  shows "t = s\<lparr>calls := calls s @ [RestorePost node
         \<lparr>rp_vmid = v, rp_archive = a, rp_storage = st, rp_live = live, rp_unique = uniq,
          rp_force = force, rp_bwlimit = effective_bwlimit bw\<rparr>]\<rparr>"
  using assms
  by (auto simp: submit_restore_def call_def res_act_def elim!: bind_act_cases)

text \<open>The callbacks must not rewrite the history; then the loop does not either.\<close>

lemma grows_task_poll:
  assumes "keeps extends should_cancel" "\<And>d ls. keeps extends (on_tick d ls)"
  shows "keeps extends
    (task_poll n E node upid interval timeout dl should_cancel on_tick off :: ('x store_scheme, dict) act)"
proof (induction n arbitrary: off)
  case (Suc n)
  let ?w = "\<lambda>off. bind_act (sleep interval) (\<lambda>_.
               task_poll n E node upid interval timeout dl should_cancel on_tick off)"
  have sleep: "keeps extends (?w off)" for off
    by (intro grows.keeps_bind grows_sleep Suc)
  show ?case
    unfolding task_poll.simps
    by (rule keepsI, split if_split_asm, erule keepsD [rotated],
        intro grows.keeps_bind grows.keeps_if grows.keeps_raise grows.keeps_catch assms
          keeps_emits_grows [OF keeps_stop_task] grows_call)
      (auto split: pyval.splits intro!: sleep grows.keeps_bind grows.keeps_catch assms
        grows.keeps_if keeps_emits_grows [OF keeps_fetch_task_log] intro: grows.refl)
qed simp

text \<open>
  A normal return is the status of a stopped, successful task, as Proxmox answered it
  during this wait.
\<close>

definition task_seen :: "env \<Rightarrow> string \<Rightarrow> string \<Rightarrow> dict \<Rightarrow> 'x store_scheme \<Rightarrow> 'x store_scheme \<Rightarrow> bool" where
  "task_seen E node upid d s t \<longleftrightarrow>
     (\<exists>pre post. calls t = calls s @ pre @ [TaskStatus node upid] @ post \<and>
       answer E (calls s @ pre) (TaskStatus node upid) = Inr (PDict d))"

lemma task_seen_before: "extends s s' \<Longrightarrow> task_seen E node upid d s' t \<Longrightarrow> task_seen E node upid d s t"
  unfolding task_seen_def extends_def by (metis append.assoc)

lemma task_seen_call:
  assumes "extends s s1" "call E (TaskStatus node upid) s1 = (Inr (PDict d), s2)" "extends s2 t"
  shows "task_seen E node upid d s t"
proof -
  obtain cs ds where "calls s1 = calls s @ cs" "calls t = calls s2 @ ds"
    using assms by (auto simp: extends_def)
  with assms(2) show ?thesis
    unfolding task_seen_def call_def by (intro exI [of _ cs] exI [of _ ds]) auto
qed

lemma task_poll_Inr:
  assumes cancel: "keeps extends should_cancel" and tick: "\<And>d ls. keeps extends (on_tick d ls)"
    and "task_poll n E node upid interval timeout dl should_cancel on_tick off s = (Inr d, t)"
  shows "task_state d = ''stopped'' \<and> task_succeeded d \<and> task_seen E node upid d s t"
  using assms(3)
proof (induction n arbitrary: off s)
  case 0
  then show ?case by (simp add: raise_act_def)
next
  case (Suc n)
  let ?go = "\<lambda>off. task_poll n E node upid interval timeout dl should_cancel on_tick off"
  have again: ?case if "extends s s'" "bind_act (sleep interval) (\<lambda>_. ?go off') s' = (Inr d, t)"
    for off' s'
  proof -
    from that(2) have "?go off' (snd (sleep interval s')) = (Inr d, t)"
      by (auto simp: bind_act_def sleep_def)
    moreover have "extends s (snd (sleep interval s'))"
      by (rule grows.trans [OF that(1)]) (simp add: sleep_def extends_def)
    ultimately show ?thesis using Suc.IH task_seen_before by blast
  qed
  from Suc.prems obtain s1 ans s2 where c: "should_cancel s = (Inr False, s1)"
    and a: "call E (TaskStatus node upid) s1 = (Inr ans, s2)"
    and k: "(case ans of
             PDict status \<Rightarrow>
               bind_act (fetch_task_log E node upid off 80) (\<lambda>(new_lines, offset').
               bind_act (catch_act (on_tick status new_lines) (\<lambda>e. ret_act ())) (\<lambda>_.
                 if task_state status = ''stopped'' then
                   (if task_succeeded status then ret_act status
                    else raise_act (RuntimeError (explain_pve_task_failure (task_exit status))))
                 else bind_act (sleep interval) (\<lambda>_. ?go offset')))
           | _ \<Rightarrow> bind_act (sleep interval) (\<lambda>_. ?go off)) s2 = (Inr d, t)"
    by (auto simp: bind_act_Inr_iff raise_act_def split: if_splits)
  have s1: "extends s s1" using keepsD [OF cancel c] .
  have s2: "extends s s2"
    using s1 keepsD [OF grows_call a] grows.trans by blast
  show ?case
  proof (cases "\<exists>status. ans = PDict status")
    case False
    with k have "bind_act (sleep interval) (\<lambda>_. ?go off) s2 = (Inr d, t)" by (cases ans) auto
    with again [OF s2] show ?thesis by blast
  next
    case True
    then obtain status where ans: "ans = PDict status" ..
    from k obtain ls off' s3 s4
      where f: "fetch_task_log E node upid off 80 s2 = (Inr (ls, off'), s3)"
        and h: "catch_act (on_tick status ls) (\<lambda>e. ret_act ()) s3 = (Inr (), s4)"
        and r: "(if task_state status = ''stopped'' then
                   (if task_succeeded status then ret_act status
                    else raise_act (RuntimeError (explain_pve_task_failure (task_exit status))))
                 else bind_act (sleep interval) (\<lambda>_. ?go off')) s4 = (Inr d, t)"
      unfolding ans by (auto simp: bind_act_Inr_iff)
    have "keeps extends (catch_act (on_tick status ls) (\<lambda>e. ret_act ()))"
      by (intro grows.keeps_catch tick grows.keeps_ret)
    then have "extends s3 s4" using h by (rule keepsD)
    with keepsD [OF keeps_emits_grows [OF keeps_fetch_task_log] f] have s4: "extends s2 s4"
      by (rule grows.trans)
    show ?thesis
    proof (cases "task_state status = ''stopped''")
      case True
      with r have "task_succeeded status" "d = status" "t = s4"
        by (auto simp: ret_act_def raise_act_def split: if_splits)
      with True task_seen_call [OF s1 a [unfolded ans] s4] show ?thesis by simp
    next
      case False
      with r have "bind_act (sleep interval) (\<lambda>_. ?go off') s4 = (Inr d, t)" by simp
      with again [OF grows.trans [OF s2 s4]] show ?thesis by blast
    qed
  qed
qed

text \<open>
  With a positive timeout and interval the loop ends: fuel for one iteration per interval
  until the deadline is enough.
\<close>

lemma fetch_task_log_fuel: "fst (fetch_task_log E node upid off k s) \<noteq> Inl OutOfFuel"
  by (auto simp: fetch_task_log_def act_fuel)

lemma stop_task_fuel: "fst (stop_task E node upid s) \<noteq> Inl OutOfFuel"
  by (auto simp: stop_task_def act_fuel)

lemma task_poll_fuel:
  assumes clk: "clock_ok E" and pos: "0 < interval"
    and cancel: "keeps extends should_cancel" and tick: "\<And>d ls. keeps extends (on_tick d ls)"
    and nf: "\<And>s. fst (should_cancel s) \<noteq> Inl OutOfFuel" "\<And>d ls s. fst (on_tick d ls s) \<noteq> Inl OutOfFuel"
  shows "k < n \<Longrightarrow> D \<le> now E s + interval * of_nat k \<Longrightarrow>
    fst (task_poll n E node upid interval timeout (Some D) should_cancel on_tick off s) \<noteq> Inl OutOfFuel"
proof (induction n arbitrary: k off s)
  case (Suc n)
  show ?case
  proof (cases "now E s < D")
    case True
    with Suc.prems obtain j where k: "k = Suc j" "j < n" by (cases k) auto
    have go: "fst (bind_act (sleep interval) (\<lambda>_.
        task_poll n E node upid interval timeout (Some D) should_cancel on_tick off') s') \<noteq> Inl OutOfFuel"
      if "extends s s'" for s' off'
    proof -
      have "now E s' + interval \<le> now E (snd (sleep interval s'))" by (rule clock_okD(2) [OF clk])
      moreover have "now E s \<le> now E s'" by (rule clock_ok_extends [OF clk that])
      ultimately have "D \<le> now E (snd (sleep interval s')) + interval * of_nat j"
        using Suc.prems(2) unfolding k(1) of_nat_Suc by (simp add: distrib_left)
      from Suc.IH [OF k(2) this] show ?thesis by (auto simp: act_fuel sleep_def)
    qed
    show ?thesis
    proof
      assume "fst (task_poll (Suc n) E node upid interval timeout (Some D) should_cancel on_tick off s)
        = Inl OutOfFuel"
      with True nf(1) obtain s1 ans s2 where c: "should_cancel s = (Inr False, s1)"
        and a: "call E (TaskStatus node upid) s1 = (Inr ans, s2)"
        and k: "fst ((case ans of
             PDict status \<Rightarrow>
               bind_act (fetch_task_log E node upid off 80) (\<lambda>(new_lines, offset').
               bind_act (catch_act (on_tick status new_lines) (\<lambda>e. ret_act ())) (\<lambda>_.
                 if task_state status = ''stopped'' then
                   (if task_succeeded status then ret_act status
                    else raise_act (RuntimeError (explain_pve_task_failure (task_exit status))))
                 else bind_act (sleep interval) (\<lambda>_.
                   task_poll n E node upid interval timeout (Some D) should_cancel on_tick offset')))
           | _ \<Rightarrow> bind_act (sleep interval) (\<lambda>_.
                   task_poll n E node upid interval timeout (Some D) should_cancel on_tick off)) s2)
             = Inl OutOfFuel"
        by (auto simp: bind_act_fuel basic_act_fuel stop_task_fuel split: if_splits)
      have s2: "extends s s2"
        using keepsD [OF cancel c] keepsD [OF grows_call a] by (rule grows.trans)
      with k go obtain status where ans: "ans = PDict status" by (cases ans) auto
      with k obtain ls off' s3 where f: "fetch_task_log E node upid off 80 s2 = (Inr (ls, off'), s3)"
        and k3: "fst (bind_act (catch_act (on_tick status ls) (\<lambda>e. ret_act ())) (\<lambda>_.
                 if task_state status = ''stopped'' then
                   (if task_succeeded status then ret_act status
                    else raise_act (RuntimeError (explain_pve_task_failure (task_exit status))))
                 else bind_act (sleep interval) (\<lambda>_.
                   task_poll n E node upid interval timeout (Some D) should_cancel on_tick off')) s3)
             = Inl OutOfFuel"
        using fetch_task_log_fuel [of E node upid off 80 s2]
        by (auto simp: bind_act_fuel [of "fetch_task_log E node upid off 80"])
      from k3 nf(2) obtain s4 where h: "catch_act (on_tick status ls) (\<lambda>e. ret_act ()) s3 = (Inr (), s4)"
        and k4: "fst (bind_act (sleep interval) (\<lambda>_.
             task_poll n E node upid interval timeout (Some D) should_cancel on_tick off') s4) = Inl OutOfFuel"
        by (auto simp: bind_act_fuel [of "catch_act m h" for m h] catch_act_fuel basic_act_fuel
            split: if_splits)
      have "keeps extends (catch_act (on_tick status ls) (\<lambda>e. ret_act ()))"
        by (intro grows.keeps_catch tick grows.keeps_ret)
      then have "extends s3 s4" using h by (rule keepsD)
      with keepsD [OF keeps_emits_grows [OF keeps_fetch_task_log] f] have "extends s2 s4"
        by (rule grows.trans)
      with s2 have "extends s s4" by (rule grows.trans)
      from go [OF this] k4 show False by blast
    qed
  qed simp
qed simp

subsection \<open>Properties\<close>

text \<open>Waiting for a Proxmox task is sound. When \<open>wait_for_task\<close> returns, its result is a
  status that Proxmox answered for this task during the wait, with the task stopped and its
  exit status empty or \<open>OK\<close>; every other end of the wait is an exception. The callbacks are
  only assumed not to rewrite the call history.\<close>

lemma wait_for_task_sound:
  assumes "keeps extends should_cancel" "\<And>d ls. keeps extends (on_tick d ls)"
    and "wait_for_task E node upid interval timeout should_cancel on_tick s = (Inr d, t)"
  shows "task_state d = ''stopped'' \<and> task_succeeded d \<and> task_seen E node upid d s t"
  by (rule task_poll_Inr [OF assms(1) _ assms(3) [unfolded wait_for_task_def]]) (rule assms(2))

text \<open>C35: waiting with a positive timeout ends. With a poll interval of \<open>interval\<close> seconds and
  fuel for more than \<open>timeout / interval\<close> iterations, the loop never runs out of fuel: it
  returns or raises.\<close>

theorem wait_for_task_ends:
  assumes "clock_ok E" "0 < interval" "0 < timeout" "timeout \<le> interval * of_nat k" "k < fuel E"
    and "keeps extends should_cancel" "\<And>d ls. keeps extends (on_tick d ls)"
    and "\<And>s. fst (should_cancel s) \<noteq> Inl OutOfFuel" "\<And>d ls s. fst (on_tick d ls s) \<noteq> Inl OutOfFuel"
  shows "fst (wait_for_task E node upid interval timeout should_cancel on_tick s) \<noteq> Inl OutOfFuel"
proof -
  have "fst (task_poll (fuel E) E node upid interval timeout (Some (now E s + timeout))
      should_cancel on_tick 0 s) \<noteq> Inl OutOfFuel"
    by (rule task_poll_fuel [OF assms(1,2,6) _ _ _ assms(5)]) (use assms in auto)
  with assms(3) show ?thesis by (simp add: wait_for_task_def)
qed

text \<open>An environment whose clock advances with sleeps and calls, and where no task ends\<close>

definition idle_env :: env where
  "idle_env = \<lparr>api = (\<lambda>cs c. Inr PNone),
     clock = (\<lambda>cs. sum_list (map (\<lambda>c. case c of Sleep d \<Rightarrow> \<bar>d\<bar> | _ \<Rightarrow> 1) cs)),
     iso = (\<lambda>cs. []), uuid = str_of_nat, cancel_by = (\<lambda>cs j. False), fuel = 30\<rparr>"

lemma demo_clock_ok:
  "clock_ok idle_env"
  by (auto simp: clock_ok_def idle_env_def split: ext_call.split)

theorem wait_for_task_ends_witness:
  "fst (wait_for_task idle_env
        ''n1'' ''UPID'' 3 60 (ret_act False) (\<lambda>d ls. ret_act ()) empty_store) \<noteq> Inl OutOfFuel"
  by (rule wait_for_task_ends [OF demo_clock_ok, of 3 60 20])
    (simp_all add: basic_act_fuel idle_env_def)

end
