(* ===== verification/Jobs.thy ===== *)
theory Jobs
  imports States PveTask
begin

text \<open>
  \<open>jobs.py\<close>: the allocation of target ids, nodes and storages for a batch of backups and
  the restore jobs written to Redis, one hash per job and one queue entry per job.
\<close>

subsection \<open>Load per node\<close>

definition bump :: "string \<Rightarrow> (string \<times> int) list \<Rightarrow> (string \<times> int) list" where
  "bump n counts = AList.update n (load_of counts n + 1) counts"

definition active_restore_counts_by_node :: "cfg \<Rightarrow> 'x store_scheme \<Rightarrow> (string \<times> int) list" where
  "active_restore_counts_by_node C s =
     fold (\<lambda>key counts.
         let data = hgetall key s; node = strip (hfield data ''proxmox_node'')
         in if hfield data ''state'' \<notin> {state_value PENDING, state_value RESTORING} then counts
            else if node = [] then counts
            else bump node counts)
       (job_keys C s) []"

subsection \<open>Arguments and results\<close>

record enqueue_args =
  ea_node :: string
  ea_nodes :: "string list"
  ea_target_storage :: string
  ea_storage_by_node :: "(string \<times> string) list"
  ea_vmid_start :: int
  ea_live_restore :: bool
  ea_bwlimit :: int
  ea_restore_mode :: string
  ea_plan_run_id :: string
  ea_plan_group_index :: "int option"
  ea_power_on :: bool
  ea_qga_wait_sec :: int
  ea_network_mode :: string
  ea_lab_bridge :: string
  ea_overwrite :: bool
  ea_http_check_url :: string

record enqueue_result =
  er_job_ids :: "string list"
  er_vmids :: "int list"
  er_nodes :: "string list"
  er_storages :: "string list"
  er_candidates :: "string list"
  er_storage_by_node :: "(string \<times> string) list"
  er_restore_mode :: string
  er_power_on :: bool
  er_qga_wait_sec :: int

subsection \<open>The steps before the first job\<close>

definition or_default :: "string \<Rightarrow> string \<Rightarrow> string" where
  "or_default a b = (if a \<noteq> [] then a else b)"

definition enqueue_mode :: "enqueue_args \<Rightarrow> exn + string" where
  "enqueue_mode A =
     (let mode = lower (strip (or_default (ea_restore_mode A) ''normal''))
      in if mode \<in> {''normal'', ''dr''} then Inr mode
         else Inl (RuntimeError (''restore_mode must be '' @ repr_str ''normal'' @ '' or '' @
                repr_str ''dr'' @ '', got '' @ repr_str (ea_restore_mode A))))"

definition enqueue_qga :: "enqueue_args \<Rightarrow> int" where
  "enqueue_qga A = max 0 (ea_qga_wait_sec A)"

definition enqueue_power_on :: "enqueue_args \<Rightarrow> bool" where
  "enqueue_power_on A \<longleftrightarrow> ea_power_on A \<or> ea_live_restore A \<or> 0 < enqueue_qga A"

definition enqueue_candidates :: "enqueue_args \<Rightarrow> exn + string list" where
  "enqueue_candidates A =
     (let candidates = node_candidates (ea_nodes A)
      in if candidates \<noteq> [] then Inr candidates
         else if strip (ea_node A) = [] then Inl (RuntimeError ''proxmox node (or nodes) is required'')
         else Inr [strip (ea_node A)])"

definition enqueue_by_node :: "enqueue_args \<Rightarrow> (string \<times> string) list" where
  "enqueue_by_node A =
     fold (\<lambda>(key, val) m. if strip key \<noteq> [] \<and> strip val \<noteq> []
                          then AList.update (strip key) (strip val) m else m)
       (ea_storage_by_node A) []"

definition storages_for ::
  "(string \<times> string) list \<Rightarrow> string \<Rightarrow> string list \<Rightarrow> exn + string list" where
  "storages_for by_node default_storage =
     map_res (\<lambda>n. resolve_storage_for_node n by_node default_storage)"

text \<open>The ids of a DR batch: the source ids, distinct, and free unless \<open>overwrite\<close>\<close>

definition dr_in_use_error :: "int \<Rightarrow> exn" where
  "dr_in_use_error v = RuntimeError (''DR restore failed: VMID '' @ str_of_int v @
     '' already exists on the Proxmox cluster (QEMU or LXC). Remove that guest manually in '' @
     ''Proxmox, or use Normal restore to assign a new VMID. Overwrite only reclaims guests '' @
     ''previously restored by restore-engine.'')"

definition dr_duplicate_error :: "int \<Rightarrow> exn" where
  "dr_duplicate_error v = RuntimeError (''DR restore batch has duplicate source VMID '' @
     str_of_int v @ ''; select one snapshot per VM'')"

fun dr_ids :: "bool \<Rightarrow> int set \<Rightarrow> int list \<Rightarrow> dict list \<Rightarrow> exn + int list" where
  "dr_ids overwrite in_use seen [] = Inr []"
| "dr_ids overwrite in_use seen (row # rows) =
     (case res_bind (need_key row ''vmid'') py_int of
        Inl e \<Rightarrow> Inl (RuntimeError (''DR restore requires a valid source VMID on each backup: '' @ exn_str e))
      | Inr v \<Rightarrow>
          if v \<in> set seen then Inl (dr_duplicate_error v)
          else if v \<in> in_use \<and> \<not> overwrite then Inl (dr_in_use_error v)
          else res_bind (dr_ids overwrite in_use (v # seen) rows) (\<lambda>vs. Inr (v # vs)))"

definition target_ids ::
  "string \<Rightarrow> enqueue_args \<Rightarrow> int set \<Rightarrow> dict list \<Rightarrow> exn + int list" where
  "target_ids mode A in_use rows =
     (if mode = ''dr'' then dr_ids (ea_overwrite A) in_use [] rows
      else res_bind (allocate_sequential_free_vmids in_use (ea_vmid_start A) (int (length rows)))
             (\<lambda>(ids, nxt, in_use'). Inr ids))"

subsection \<open>DR overwrite: destroy the managed guests at the target ids\<close>

definition overwrite_lxc_error :: "int \<Rightarrow> exn" where
  "overwrite_lxc_error v = RuntimeError (''DR overwrite refused: VMID '' @ str_of_int v @
     '' is an LXC container. restore-engine never deletes LXCs. Move/remove it in Proxmox or '' @
     ''use Normal restore.'')"

definition overwrite_foreign_error :: "int \<Rightarrow> string \<Rightarrow> exn" where
  "overwrite_foreign_error v node = RuntimeError (''DR overwrite refused: VMID '' @ str_of_int v @
     '' on '' @ node @ '' was not provisioned by restore-engine. Foreign VMs are never deleted by '' @
     ''this tool '' @ em_dash @ '' remove it manually in Proxmox (or leave the slot empty), then retry.'')"

definition overwrite_one :: "env \<Rightarrow> string list \<Rightarrow> int \<Rightarrow> ('x store_scheme, unit) act" where
  "overwrite_one E candidates v =
     bind_act (find_guest_resource E v) (\<lambda>guest.
       if guest \<noteq> None \<and> gr_type (the guest) = ''lxc'' then raise_act (overwrite_lxc_error v)
       else bind_act
         (if guest \<noteq> None \<and> gr_node (the guest) \<noteq> [] then ret_act (gr_node (the guest))
          else bind_act (find_qemu_node E v) (\<lambda>found. ret_act
            (case found of
               Some n \<Rightarrow> n
             | None \<Rightarrow> if candidates \<noteq> [] then hd candidates else [])))
         (\<lambda>node.
            if node = [] then
              raise_act (RuntimeError (''Cannot overwrite VMID '' @ str_of_int v @ '': node unknown''))
            else bind_act (qemu_is_managed_by_tool E node v) (\<lambda>managed.
              if \<not> managed then raise_act (overwrite_foreign_error v node)
              else bind_act
                (catch_act (destroy_owned_qemu_vm E node v False True True) (\<lambda>e.
                   raise_act (RuntimeError (''DR overwrite failed destroying managed VMID '' @
                     str_of_int v @ '': '' @ exn_str e))))
                (\<lambda>_. ret_act ()))))"

definition overwrite_targets ::
  "env \<Rightarrow> string list \<Rightarrow> int set \<Rightarrow> int list \<Rightarrow> ('x store_scheme, unit) act" where
  "overwrite_targets E candidates in_use ids =
     each_act (\<lambda>v. if v \<notin> in_use then ret_act () else overwrite_one E candidates v) ids"

subsection \<open>Writing the jobs\<close>

text \<open>The values a Redis field can hold; other types make the client raise.\<close>

fun redis_val :: "pyval \<Rightarrow> exn + string" where
  "redis_val (PStr s) = Inr s"
| "redis_val (PInt i) = Inr (str_of_int i)"
| "redis_val v = Inl (ApiError ''Invalid input of type'')"

definition flag :: "bool \<Rightarrow> string" where
  "flag b = (if b then ''1'' else ''0'')"

definition enqueue_net_mode :: "enqueue_args \<Rightarrow> string" where
  "enqueue_net_mode A =
     (let m = lower (strip (or_default (ea_network_mode A) ''none''))
      in if m \<in> {''none'', ''unlink'', ''remap''} then m else ''none'')"

definition row_archive :: "dict \<Rightarrow> exn + string" where
  "row_archive row =
     res_bind (need_key row ''pve_storage'') (\<lambda>st.
     res_bind (need_key row ''voltail'') (\<lambda>tail.
     res_bind (py_strip (py_or st (PStr []))) (\<lambda>st.
     if st = [] then archive_path [] []
     else res_bind (py_strip (py_or tail (PStr []))) (\<lambda>tail. archive_path st tail))))"

definition row_size :: "dict \<Rightarrow> int" where
  "row_size row = (case py_int (py_or (dget row ''size_bytes'') (PInt 0)) of
                     Inr n \<Rightarrow> max 0 n | Inl e \<Rightarrow> 0)"

text \<open>
  The hash of a new job. The first part is what the run of the job reads to restore, the
  second what it records.
\<close>

definition job_target :: "enqueue_args \<Rightarrow> string \<Rightarrow> int \<Rightarrow> string \<Rightarrow> string \<Rightarrow> hash" where
  "job_target A mode vmid node storage =
    [(''proxmox_vmid'', str_of_int vmid), (''proxmox_node'', node), (''proxmox_storage'', storage),
     (''live_restore'', flag (ea_live_restore A)),
     (''powered_off'', flag (\<not> enqueue_power_on A)), (''power_on'', flag (enqueue_power_on A)),
     (''qga_wait_sec'', str_of_int (enqueue_qga A)), (''qga_ok'', []), (''qga_waited_sec'', []),
     (''network_mode'', enqueue_net_mode A), (''lab_bridge'', strip (ea_lab_bridge A)),
     (''overwrite'', flag (ea_overwrite A)), (''http_check_url'', strip (ea_http_check_url A)),
     (''http_check_ok'', []), (''bwlimit'', str_of_int (ea_bwlimit A)), (''restore_mode'', mode),
     (''unique'', flag (mode \<noteq> ''dr'')), (''force'', flag (mode \<noteq> ''dr'' \<or> ea_overwrite A))]"

definition job_record :: "enqueue_args \<Rightarrow> string \<Rightarrow> int \<Rightarrow> string \<Rightarrow> hash" where
  "job_record A archive nbytes stamp =
    [(''archive'', archive), (''backup_size_bytes'', str_of_int nbytes), (''progress'', ''0''),
     (''error'', []), (''created_at'', stamp), (''updated_at'', stamp),
     (''plan_run_id'', ea_plan_run_id A),
     (''plan_group_index'', (case ea_plan_group_index A of None \<Rightarrow> [] | Some i \<Rightarrow> str_of_int i))]"

definition job_mapping ::
  "enqueue_args \<Rightarrow> string \<Rightarrow> dict \<Rightarrow> int \<Rightarrow> string \<Rightarrow> string \<Rightarrow> string \<Rightarrow> string \<Rightarrow> exn + hash" where
  "job_mapping A mode row vmid node storage job_id stamp =
     res_bind (row_archive row) (\<lambda>archive.
     res_bind (need_key row ''backup_id'') (\<lambda>backup_id.
     res_bind (need_key row ''name'') (\<lambda>name.
     res_bind (need_key row ''vmid'') (\<lambda>src.
     res_bind (redis_val backup_id) (\<lambda>backup_id.
     res_bind (redis_val name) (\<lambda>name.
     res_bind (redis_val (dget_or row ''source_label'' (PStr []))) (\<lambda>label.
     Inr ([(''job_id'', job_id), (''state'', state_value PENDING), (''backup_id'', backup_id),
           (''vm_name'', name), (''source_vmid'', py_str src), (''source_label'', label)]
          @ job_target A mode vmid node storage
          @ job_record A archive (row_size row) stamp))))))))"

text \<open>
  The stamp of a job is the clock when the job is built. The clock of the model moves with the calls to the outside, so the jobs
  of one batch, between which there is none, have equal stamps.
\<close>

definition enqueue_one ::
  "env \<Rightarrow> cfg \<Rightarrow> enqueue_args \<Rightarrow> string \<Rightarrow> dict \<times> int \<times> string \<times> string \<Rightarrow> ('x store_scheme, string) act" where
  "enqueue_one E C A mode = (\<lambda>(row, vmid, node, storage).
     bind_act (new_uuid E) (\<lambda>job_id s.
       case job_mapping A mode row vmid node storage job_id (utc_now_iso E s) of
         Inl e \<Rightarrow> (Inl e, s)
       | Inr m \<Rightarrow> (Inr job_id, rpush (queue_key C) job_id (hset (job_key C job_id) m s))))"

text \<open>
  The lists that \<open>zip(..., strict=True)\<close> joins have the length of the batch (lemma
  \<open>enqueue_prepare_lengths\<close>).
\<close>

record enqueue_prep =
  ep_mode :: string
  ep_candidates :: "string list"
  ep_vmids :: "int list"
  ep_nodes :: "string list"
  ep_storages :: "string list"

definition enqueue_prepare ::
  "env \<Rightarrow> cfg \<Rightarrow> dict list \<Rightarrow> enqueue_args \<Rightarrow> ('x store_scheme, enqueue_prep) act" where
  "enqueue_prepare E C rows A =
     bind_act (res_act (enqueue_mode A)) (\<lambda>mode.
     bind_act (res_act (enqueue_candidates A)) (\<lambda>candidates.
     let by_node = enqueue_by_node A; default_storage = strip (ea_target_storage A) in
     bind_act (res_act (storages_for by_node default_storage candidates)) (\<lambda>_.
     bind_act (connect_proxmox E C) (\<lambda>_.
     bind_act (catch_act (qemu_vmids_in_use_cluster E) (\<lambda>e.
         raise_act (RuntimeError (''Cannot list guest VMIDs in Proxmox cluster: '' @ exn_str e)))) (\<lambda>in_use.
     bind_act (res_act (target_ids mode A in_use rows)) (\<lambda>ids.
     bind_act (get_act (active_restore_counts_by_node C)) (\<lambda>active.
     bind_act (res_act (assign_nodes_least_loaded candidates (int (length rows)) active)) (\<lambda>nodes.
     bind_act (res_act (storages_for by_node default_storage nodes)) (\<lambda>storages.
     bind_act (if mode = ''dr'' \<and> ea_overwrite A then overwrite_targets E candidates in_use ids
               else ret_act ()) (\<lambda>_.
     ret_act \<lparr>ep_mode = mode, ep_candidates = candidates, ep_vmids = ids, ep_nodes = nodes,
              ep_storages = storages\<rparr>))))))))))"

definition prep_rows :: "dict list \<Rightarrow> enqueue_prep \<Rightarrow> (dict \<times> int \<times> string \<times> string) list" where
  "prep_rows rows P = zip rows (zip (ep_vmids P) (zip (ep_nodes P) (ep_storages P)))"

definition enqueue_restores ::
  "env \<Rightarrow> cfg \<Rightarrow> dict list \<Rightarrow> enqueue_args \<Rightarrow> ('x store_scheme, enqueue_result) act" where
  "enqueue_restores E C rows A =
     bind_act (enqueue_prepare E C rows A) (\<lambda>P.
     bind_act (map_act (enqueue_one E C A (ep_mode P)) (prep_rows rows P)) (\<lambda>job_ids.
     ret_act \<lparr>er_job_ids = job_ids, er_vmids = ep_vmids P, er_nodes = ep_nodes P,
              er_storages = ep_storages P, er_candidates = ep_candidates P,
              er_storage_by_node =
                (let by_node = enqueue_by_node A; default_storage = strip (ea_target_storage A)
                 in if by_node \<noteq> [] then by_node
                    else if default_storage = [] then []
                    else map (\<lambda>n. (n, default_storage)) (ep_candidates P)),
              er_restore_mode = ep_mode P, er_power_on = enqueue_power_on A,
              er_qga_wait_sec = enqueue_qga A\<rparr>))"

subsection \<open>Lemmas: preparation\<close>

lemma dr_ids_ConsE:
  assumes "dr_ids ow U seen (row # rows) = Inr ids"
  obtains v vs where "res_bind (need_key row ''vmid'') py_int = Inr v" "v \<notin> set seen"
    "v \<notin> U \<or> ow" "dr_ids ow U (v # seen) rows = Inr vs" "ids = v # vs"
proof (cases "res_bind (need_key row ''vmid'') py_int")
  case (Inr v)
  with assms that [of v] show ?thesis by (auto split: if_splits simp del: res_bind_eq_Inr
        simp: res_bind_eq_Inr [of "dr_ids ow U (v # seen) rows"])
qed (use assms in \<open>simp del: res_bind_eq_Inr\<close>)

lemma dr_ids_Inr:
  assumes "dr_ids ow U seen rows = Inr ids"
  shows "length ids = length rows \<and> distinct ids \<and> set ids \<inter> set seen = {} \<and>
    (\<not> ow \<longrightarrow> set ids \<inter> U = {}) \<and>
    list_all2 (\<lambda>row v. res_bind (need_key row ''vmid'') py_int = Inr v) rows ids"
  using assms
proof (induction rows arbitrary: seen ids)
  case (Cons row rows)
  from Cons.prems obtain v vs where v: "res_bind (need_key row ''vmid'') py_int = Inr v"
    "v \<notin> set seen" "v \<notin> U \<or> ow" "dr_ids ow U (v # seen) rows = Inr vs" "ids = v # vs"
    by (rule dr_ids_ConsE)
  from Cons.IH [OF v(4)] v(1-3) show ?case
    unfolding v(5) by (auto simp del: res_bind_eq_Inr)
qed simp

lemma storages_for_Inr:
  assumes "storages_for m d nodes = Inr ss"
  shows "length ss = length nodes" "\<forall>st \<in> set ss. st \<noteq> []"
proof -
  show "length ss = length nodes" using assms by (simp add: storages_for_def map_res_length)
  have "\<forall>st \<in> set ss. \<exists>n. resolve_storage_for_node n m d = Inr st"
    using assms map_res_range [of "\<lambda>n. resolve_storage_for_node n m d" nodes ss]
    unfolding storages_for_def by blast
  then show "\<forall>st \<in> set ss. st \<noteq> []" using resolve_storage_nonempty by blast
qed

lemma enqueue_candidates_Inr:
  assumes "enqueue_candidates A = Inr cands"
  shows "cands \<noteq> []" "node_candidates cands = cands"
proof -
  have "filter (\<lambda>n. strip n \<noteq> []) (node_candidates xs) = node_candidates xs" for xs
    by (auto simp: node_candidates_def filter_id_conv)
  moreover have "map strip (node_candidates xs) = node_candidates xs" for xs
    by (simp add: node_candidates_def)
  ultimately have "node_candidates (node_candidates xs) = node_candidates xs" for xs
    by (simp add: node_candidates_def [of "node_candidates xs"])
  then show "cands \<noteq> []" "node_candidates cands = cands"
    using assms
    by (auto simp: enqueue_candidates_def Let_def node_candidates_def split: if_splits)
qed

text \<open>The ids that the cluster reports in use when the batch is prepared\<close>

definition in_use_seen :: "env \<Rightarrow> ext_call list \<Rightarrow> int set" where
  "in_use_seen E cs =
     (case answer E cs ClusterResources of
        Inl e \<Rightarrow> {} | Inr raw \<Rightarrow> vmids_of_rows (dict_rows (rows_or_empty raw)))"

lemma qemu_vmids_in_use_eval:
  "qemu_vmids_in_use_cluster E s =
     (Inr (in_use_seen E (calls s)), s\<lparr>calls := calls s @ [ClusterResources]\<rparr>)"
  using answer_no_fuel [of E "calls s" ClusterResources]
  by (cases "answer E (calls s) ClusterResources")
    (auto simp: qemu_vmids_in_use_cluster_def cluster_vm_resources_def bind_act_def catch_act_def
      call_def ret_act_def in_use_seen_def vmids_of_rows_def List.map_filter_simps)

subsection \<open>Lemmas: what preparing a batch may call\<close>

text \<open>Calls on a guest that the overwrite is entitled to: it saw the ownership marker.\<close>

definition overwrite_call :: "env \<Rightarrow> int set \<Rightarrow> ext_call \<Rightarrow> bool" where
  "overwrite_call E vs c \<longleftrightarrow>
     (\<forall>n v. c \<in> destroy_calls n v \<and> c \<notin> range Sleep \<longrightarrow> v \<in> vs \<and> (\<exists>cs. managed_seen E cs n v)) \<and>
     (\<forall>n rp. c \<noteq> RestorePost n rp) \<and> (\<forall>n v kv. c \<noteq> ConfigPut n v kv) \<and> (\<forall>n v. c \<noteq> StatusStart n v)"

lemma overwrite_call_reads [simp]:
  "overwrite_call E vs ClusterResources" "overwrite_call E vs (ConfigGet n v)"
  "overwrite_call E vs Connect" "overwrite_call E vs (Sleep d)"
  by (auto simp: overwrite_call_def elim: destroy_calls.cases)

lemma overwrite_call_mono: "overwrite_call E vs c \<Longrightarrow> vs \<subseteq> ws \<Longrightarrow> overwrite_call E ws c"
  by (auto simp: overwrite_call_def)

lemma overwrite_call_destroy:
  assumes "c \<in> destroy_calls n v" "managed_seen E cs n v" "v \<in> vs"
  shows "overwrite_call E vs c"
  using assms(1)
  by cases (use assms in \<open>auto simp: overwrite_call_def elim: destroy_calls.cases\<close>)

lemma keeps_find_guest: "keeps (emits_rel {ClusterResources}) (find_guest_resource E v)"
  by (rule keepsI) (auto simp: find_guest_resource_eval emits_rel_def)

lemma keeps_find_qemu_node: "keeps (emits_rel {ClusterResources}) (find_qemu_node E v)"
  unfolding find_qemu_node_def by (intro emits.keeps_bind keeps_find_guest emits.keeps_ret)

lemma keeps_is_managed: "keeps (emits_rel {ConfigGet n v}) (qemu_is_managed_by_tool E n v)"
  by (rule keepsI) (auto simp: qemu_is_managed_eval emits_rel_def)

lemma keeps_destroy_owned:
  "keeps (emits_rel {c. overwrite_call E {v} c}) (destroy_owned_qemu_vm E node v False purge dud)"
proof (rule keepsI)
  fix s r and t :: "'x store_scheme"
  assume "destroy_owned_qemu_vm E node v False purge dud s = (r, t)"
  from destroy_owned_calls [OF this] obtain cs g where t: "t = s\<lparr>calls := calls s @ cs\<rparr>"
    and cs: "\<forall>c \<in> set cs. c = ClusterResources \<or> c = ConfigGet (owner_node node g) v \<or>
         guest_seen E (calls s) v = Some g \<and> may_destroy E (calls s) node v False \<and>
         c \<in> destroy_calls (owner_node node g) v" by blast
  have "overwrite_call E {v} c" if "c \<in> set cs" for c
    using cs that overwrite_call_destroy by (fastforce simp: may_destroy_def)
  then have "set cs \<subseteq> {c. overwrite_call E {v} c}" by blast
  with t show "emits_rel {c. overwrite_call E {v} c} s t" by (auto simp: emits_rel_def)
qed

lemma keeps_overwrite_one:
  "keeps (emits_rel {c. overwrite_call E {v} c}) (overwrite_one E cands v)"
proof -
  let ?S = "{c. overwrite_call E {v} c}"
  have g: "keeps (emits_rel ?S) (find_guest_resource E v)"
    and q: "keeps (emits_rel ?S) (find_qemu_node E v)"
    and m: "keeps (emits_rel ?S) (qemu_is_managed_by_tool E n v)" for n
    by (rule keeps_emits_mono [OF keeps_find_guest] keeps_emits_mono [OF keeps_find_qemu_node]
          keeps_emits_mono [OF keeps_is_managed], simp)+
  show ?thesis
    unfolding overwrite_one_def
    by (intro emits.keeps_bind emits.keeps_if emits.keeps_catch emits.keeps_ret emits.keeps_raise
        g q m keeps_destroy_owned)
qed

lemma keeps_overwrite_targets:
  "keeps (emits_rel {c. overwrite_call E (set ids \<inter> U) c}) (overwrite_targets E cands U ids)"
  unfolding overwrite_targets_def
proof (intro emits.keeps_each emits.keeps_if emits.keeps_ret)
  fix v assume "v \<in> set ids" "\<not> v \<notin> U"
  then show "keeps (emits_rel {c. overwrite_call E (set ids \<inter> U) c}) (overwrite_one E cands v)"
    by (intro keeps_emits_mono [OF keeps_overwrite_one]) (auto intro: overwrite_call_mono)
qed

lemma enqueue_prepare_cases:
  assumes "enqueue_prepare E C rows A s = (Inr P, t)"
  obtains U cs where "U = in_use_seen E (calls s @ [Connect])"
    "enqueue_mode A = Inr (ep_mode P)" "enqueue_candidates A = Inr (ep_candidates P)"
    "target_ids (ep_mode P) A U rows = Inr (ep_vmids P)"
    "assign_nodes_least_loaded (ep_candidates P) (int (length rows))
       (active_restore_counts_by_node C s) = Inr (ep_nodes P)"
    "storages_for (enqueue_by_node A) (strip (ea_target_storage A)) (ep_nodes P) = Inr (ep_storages P)"
    "t = s\<lparr>calls := calls s @ [Connect, ClusterResources] @ cs\<rparr>"
    "set cs \<subseteq> {c. overwrite_call E (set (ep_vmids P) \<inter> U) c}"
    "ep_mode P \<noteq> ''dr'' \<or> \<not> ea_overwrite A \<Longrightarrow> cs = []"
proof -
  let ?U = "in_use_seen E (calls s @ [Connect])"
  have con: "s' = s\<lparr>calls := calls s @ [Connect]\<rparr>" if "connect_proxmox E C s = (Inr x, s')" for x s'
    using that by (auto simp: connect_proxmox_def bind_act_Inr_iff res_act_def call_def ret_act_def)
  have act: "active_restore_counts_by_node C (s\<lparr>calls := cs\<rparr>) = active_restore_counts_by_node C s" for cs
    by (simp add: active_restore_counts_by_node_def job_keys_def scan_keys_def hgetall_def)
  have use: "catch_act (qemu_vmids_in_use_cluster E) h (s\<lparr>calls := calls s @ [Connect]\<rparr>)
      = (Inr ?U, s\<lparr>calls := calls s @ [Connect, ClusterResources]\<rparr>)" for h
    by (simp add: catch_act_def qemu_vmids_in_use_eval)
  from assms obtain mode cands ss ids nodes sts where
    p: "enqueue_mode A = Inr mode" "enqueue_candidates A = Inr cands"
      "target_ids mode A ?U rows = Inr ids"
      "assign_nodes_least_loaded cands (int (length rows)) (active_restore_counts_by_node C s) = Inr nodes"
      "storages_for (enqueue_by_node A) (strip (ea_target_storage A)) nodes = Inr sts"
      "P = \<lparr>ep_mode = mode, ep_candidates = cands, ep_vmids = ids, ep_nodes = nodes, ep_storages = sts\<rparr>"
    and ov: "(if mode = ''dr'' \<and> ea_overwrite A then overwrite_targets E cands ?U ids
               else ret_act ()) (s\<lparr>calls := calls s @ [Connect, ClusterResources]\<rparr>) = (Inr (), t)"
    by (auto simp: enqueue_prepare_def Let_def bind_act_Inr_iff res_act_def get_act_def ret_act_def
        use act dest!: con)
  have "\<exists>cs. t = s\<lparr>calls := calls s @ [Connect, ClusterResources] @ cs\<rparr> \<and>
      set cs \<subseteq> {c. overwrite_call E (set ids \<inter> ?U) c} \<and>
      (mode \<noteq> ''dr'' \<or> \<not> ea_overwrite A \<longrightarrow> cs = [])"
  proof (cases "mode = ''dr'' \<and> ea_overwrite A")
    case True
    with ov have "overwrite_targets E cands ?U ids (s\<lparr>calls := calls s @ [Connect, ClusterResources]\<rparr>)
      = (Inr (), t)" by simp
    from keepsD [OF keeps_overwrite_targets this] True show ?thesis
      by (auto simp: emits_rel_def)
  next
    case False
    with ov have "t = s\<lparr>calls := calls s @ [Connect, ClusterResources] @ []\<rparr>"
      by (auto simp: ret_act_def split: if_splits)
    then show ?thesis by (intro exI [of _ "[]"]) auto
  qed
  then obtain cs where "t = s\<lparr>calls := calls s @ [Connect, ClusterResources] @ cs\<rparr>"
    "set cs \<subseteq> {c. overwrite_call E (set ids \<inter> ?U) c}"
    "mode \<noteq> ''dr'' \<or> \<not> ea_overwrite A \<longrightarrow> cs = []" by blast
  with p show ?thesis by (intro that [of ?U cs]) auto
qed

lemma enqueue_prepare_lengths:
  assumes "enqueue_prepare E C rows A s = (Inr P, t)"
  shows "length (ep_vmids P) = length rows" "length (ep_nodes P) = length rows"
    "length (ep_storages P) = length rows" "set (ep_nodes P) \<subseteq> set (ep_candidates P)"
    "\<forall>st \<in> set (ep_storages P). st \<noteq> []" "distinct (ep_vmids P)"
proof -
  from assms obtain U where u: "enqueue_candidates A = Inr (ep_candidates P)"
    "target_ids (ep_mode P) A U rows = Inr (ep_vmids P)"
    "assign_nodes_least_loaded (ep_candidates P) (int (length rows))
       (active_restore_counts_by_node C s) = Inr (ep_nodes P)"
    "storages_for (enqueue_by_node A) (strip (ea_target_storage A)) (ep_nodes P) = Inr (ep_storages P)"
    by (rule enqueue_prepare_cases)
  note c = enqueue_candidates_Inr [OF u(1)]
  have nodes: "ep_nodes P = assign_loop (length rows) (ep_candidates P)
      (load_of (active_restore_counts_by_node C s))"
    using u(3) c by (simp add: assign_nodes_Inr)
  then show n: "length (ep_nodes P) = length rows" by simp
  show "set (ep_nodes P) \<subseteq> set (ep_candidates P)"
    unfolding nodes by (rule assign_loop_members [OF c(1)])
  show "length (ep_storages P) = length rows" "\<forall>st \<in> set (ep_storages P). st \<noteq> []"
    using storages_for_Inr [OF u(4)] n by auto
  show "length (ep_vmids P) = length rows" "distinct (ep_vmids P)"
    using u(2) allocate_Inr(2,4) dr_ids_Inr
    by (auto simp: target_ids_def split: if_splits)
qed

subsection \<open>Lemmas: what the queueing loop writes\<close>

text \<open>Documented behaviour of \<open>uuid4\<close>: its ids are new.\<close>

definition jobs_fresh :: "env \<Rightarrow> cfg \<Rightarrow> 'x store_scheme \<Rightarrow> bool" where
  "jobs_fresh E C s \<longleftrightarrow>
     inj (uuid E) \<and> (\<forall>n \<ge> uuids s. job_key C (uuid E n) \<notin> fst ` set (hashes s))"

text \<open>
  \<open>jobs_added E C A mode rws ids s t\<close>: the jobs \<open>ids\<close> were added for the first rows of
  \<open>rws\<close>, in order, and nothing else in Redis changed.
\<close>

definition jobs_added ::
  "env \<Rightarrow> cfg \<Rightarrow> enqueue_args \<Rightarrow> string \<Rightarrow> (dict \<times> int \<times> string \<times> string) list \<Rightarrow> string list \<Rightarrow>
     'x store_scheme \<Rightarrow> 'x store_scheme \<Rightarrow> bool" where
  "jobs_added E C A mode rws ids s t \<longleftrightarrow>
     ids = map (uuid E) [uuids s..<uuids s + length ids] \<and>
     lrange_all (queue_key C) t = lrange_all (queue_key C) s @ ids \<and>
     list_all2 (\<lambda>(row, v, n, st) id.
         \<exists>m. job_mapping A mode row v n st id (utc_now_iso E s) = Inr m \<and>
             map_of (hgetall (job_key C id) t) = map_of m)
       (take (length ids) rws) ids \<and>
     (\<forall>k. k \<notin> job_key C ` set ids \<longrightarrow> map_of (hashes t) k = map_of (hashes s) k) \<and>
     (\<forall>k. k \<noteq> queue_key C \<longrightarrow> lrange_all k t = lrange_all k s) \<and>
     strs t = strs s \<and> expiry t = expiry s \<and> calls t = calls s \<and> store.more t = store.more s"

lemma enqueue_one_cases:
  assumes "enqueue_one E C A mode (row, v, n, st) s = (r, t)"
  obtains (exn) e where "r = Inl e" "t = s\<lparr>uuids := Suc (uuids s)\<rparr>"
  | (ok) m where "r = Inr (uuid E (uuids s))"
      "job_mapping A mode row v n st (uuid E (uuids s)) (utc_now_iso E s) = Inr m"
      "t = rpush (queue_key C) (uuid E (uuids s))
             (hset (job_key C (uuid E (uuids s))) m (s\<lparr>uuids := Suc (uuids s)\<rparr>))"
  using assms
  by (auto simp: enqueue_one_def bind_act_def new_uuid_def utc_now_iso_def split: sum.splits)

lemma jobs_added_Nil:
  "jobs_added E C A mode rws [] s (s\<lparr>uuids := k\<rparr>)" "jobs_added E C A mode rws [] s s"
  by (simp_all add: jobs_added_def lrange_all_def)

lemma map_of_hashes_hset:
  "map_of (hashes (hset key m s)) k =
     (if k = key then Some (AList.merge (hgetall key s) m) else map_of (hashes s) k)"
  by (simp add: hset_def)

lemma hgetall_map_of: "map_of (hashes t) k = map_of (hashes s) k \<Longrightarrow> hgetall k t = hgetall k s"
  by (simp add: hgetall_def)

lemma jobs_added_Cons:
  assumes fresh: "jobs_fresh E C s"
    and m: "job_mapping A mode row v n st (uuid E (uuids s)) (utc_now_iso E s) = Inr m"
    and s1: "s1 = rpush (queue_key C) (uuid E (uuids s))
             (hset (job_key C (uuid E (uuids s))) m (s\<lparr>uuids := Suc (uuids s)\<rparr>))"
    and rest: "jobs_added E C A mode rws ids s1 t"
  shows "jobs_added E C A mode ((row, v, n, st) # rws) (uuid E (uuids s) # ids) s t"
proof -
  let ?id = "uuid E (uuids s)"
  have u1: "uuids s1 = Suc (uuids s)" unfolding s1 by simp
  have iso1: "utc_now_iso E s1 = utc_now_iso E s" unfolding s1 by (simp add: utc_now_iso_def)
  have ids: "ids = map (uuid E) [Suc (uuids s)..<Suc (uuids s) + length ids]"
    using rest by (simp add: jobs_added_def u1)
  have new: "?id \<notin> set ids"
  proof
    assume "?id \<in> set ids"
    then have "?id \<in> set (map (uuid E) [Suc (uuids s)..<Suc (uuids s) + length ids])"
      using ids by simp
    then obtain i where "uuid E (uuids s) = uuid E i" "Suc (uuids s) \<le> i" by auto
    with fresh show False by (auto simp: jobs_fresh_def dest: injD)
  qed
  have list: "?id # ids = map (uuid E) [uuids s..<uuids s + length (?id # ids)]"
    using ids by (simp add: upt_rec)
  have none: "hgetall (job_key C ?id) s = []"
    using fresh by (auto simp: jobs_fresh_def hgetall_def map_of_eq_None_iff split: option.splits
        dest: map_of_SomeD) (metis image_eqI fst_conv map_of_SomeD order_refl)
  have h1: "hgetall (job_key C ?id) s1 = AList.merge [] m"
    using none unfolding s1 by (simp add: hgetall_def map_of_hashes_hset)
  have "hgetall (job_key C ?id) t = hgetall (job_key C ?id) s1"
  proof (rule hgetall_map_of)
    have "job_key C ?id \<notin> job_key C ` set ids" using new by auto
    with rest show "map_of (hashes t) (job_key C ?id) = map_of (hashes s1) (job_key C ?id)"
      unfolding jobs_added_def by blast
  qed
  then have first: "map_of (hgetall (job_key C ?id) t) = map_of m"
    by (simp add: h1 fun_eq_iff split: option.split)
  have keep: "map_of (hashes t) k = map_of (hashes s) k" if "k \<notin> job_key C ` set (?id # ids)" for k
    using rest that unfolding jobs_added_def s1 by (auto simp: map_of_hashes_hset)
  have queue: "lrange_all k s1 = (if k = queue_key C then lrange_all k s @ [?id] else lrange_all k s)" for k
    unfolding s1 by (simp add: lrange_rpush) (simp add: lrange_all_def)
  have frame: "strs s1 = strs s" "expiry s1 = expiry s" "calls s1 = calls s"
    "store.more s1 = store.more s" unfolding s1 by simp_all
  show ?thesis
    unfolding jobs_added_def
  proof (intro conjI)
    show "list_all2 (\<lambda>(row, v, n, st) id.
         \<exists>m. job_mapping A mode row v n st id (utc_now_iso E s) = Inr m \<and>
             map_of (hgetall (job_key C id) t) = map_of m)
       (take (length (?id # ids)) ((row, v, n, st) # rws)) (?id # ids)"
      using rest m first unfolding jobs_added_def iso1 by simp
    show "\<forall>k. k \<notin> job_key C ` set (?id # ids) \<longrightarrow> map_of (hashes t) k = map_of (hashes s) k"
      using keep by blast
  qed (use rest list queue frame in \<open>simp_all add: jobs_added_def\<close>)
qed

lemma fresh_step:
  assumes "jobs_fresh E C s"
    and "s1 = rpush (queue_key C) (uuid E (uuids s))
             (hset (job_key C (uuid E (uuids s))) m (s\<lparr>uuids := Suc (uuids s)\<rparr>))"
  shows "jobs_fresh E C s1"
proof -
  have keys: "fst ` set (hashes s1) = insert (job_key C (uuid E (uuids s))) (fst ` set (hashes s))"
    using hset_keys [of "job_key C (uuid E (uuids s))" m "s\<lparr>uuids := Suc (uuids s)\<rparr>"]
    unfolding assms(2) by simp
  show ?thesis
    using assms(1) unfolding jobs_fresh_def keys
    by (auto simp: assms(2) dest: injD)
qed

text \<open>The loop: on success a job per row, on an exception jobs for a proper prefix of them.\<close>

lemma enqueue_loop:
  assumes "jobs_fresh E C s" "map_act (enqueue_one E C A mode) rws s = (r, t)"
  shows "case r of
      Inr ids \<Rightarrow> length ids = length rws \<and> jobs_added E C A mode rws ids s t
    | Inl e \<Rightarrow> \<exists>ids. length ids < length rws \<and> jobs_added E C A mode rws ids s t"
  using assms
proof (induction rws arbitrary: s r t)
  case Nil
  then show ?case by (auto simp: ret_act_def jobs_added_Nil)
next
  case (Cons x rws)
  obtain row v n st where x: "x = (row, v, n, st)" by (cases x)
  from Cons.prems(2) obtain r1 s1 where one: "enqueue_one E C A mode (row, v, n, st) s = (r1, s1)"
    and rest: "(case r1 of Inl e \<Rightarrow> (Inl e, s1)
        | Inr y \<Rightarrow> bind_act (map_act (enqueue_one E C A mode) rws) (\<lambda>ys. ret_act (y # ys)) s1) = (r, t)"
    unfolding x by (cases "enqueue_one E C A mode (row, v, n, st) s") (auto simp: bind_act_def)
  from one show ?case
  proof (cases rule: enqueue_one_cases)
    case (exn e)
    then have "r = Inl e" "t = s\<lparr>uuids := Suc (uuids s)\<rparr>" using rest by auto
    then show ?thesis using jobs_added_Nil(1) by (auto intro!: exI [of _ "[]"])
  next
    case (ok m)
    obtain r2 where m2: "map_act (enqueue_one E C A mode) rws s1 = (r2, t)"
      and r: "r = (case r2 of Inl e \<Rightarrow> Inl e | Inr ys \<Rightarrow> Inr (uuid E (uuids s) # ys))"
      using rest ok(1) by (auto simp: bind_act_def ret_act_def split: prod.splits sum.splits)
    note IH = Cons.IH [OF fresh_step [OF Cons.prems(1) ok(3)] m2]
    note step = jobs_added_Cons [OF Cons.prems(1) ok(2,3)]
    show ?thesis
    proof (cases r2)
      case (Inl e)
      with IH obtain ids where "length ids < length rws" "jobs_added E C A mode rws ids s1 t" by auto
      with step r Inl show ?thesis unfolding x
        by (auto intro!: exI [of _ "uuid E (uuids s) # ids"])
    next
      case (Inr ids)
      with IH step r show ?thesis unfolding x by auto
    qed
  qed
qed

text \<open>With rows that have all fields the loop queues them all.\<close>

lemma enqueue_loop_total:
  assumes "\<And>row v n st j i. (row, v, n, st) \<in> set rws \<Longrightarrow> \<exists>m. job_mapping A mode row v n st j i = Inr m"
  shows "\<exists>ids t. map_act (enqueue_one E C A mode) rws s = (Inr ids, t)"
  using assms
proof (induction rws arbitrary: s)
  case (Cons x rws)
  obtain row v n st where x: "x = (row, v, n, st)" by (cases x)
  obtain m where "job_mapping A mode row v n st (uuid E (uuids s)) (utc_now_iso E s) = Inr m"
    using Cons.prems x by fastforce
  then obtain id s1 where one: "enqueue_one E C A mode x s = (Inr id, s1)"
    by (auto simp: x enqueue_one_def bind_act_def new_uuid_def utc_now_iso_def)
  obtain ids t where "map_act (enqueue_one E C A mode) rws s1 = (Inr ids, t)"
    using Cons by fastforce
  with one show ?case by (auto simp: bind_act_eval ret_act_def)
qed (simp add: ret_act_def)

text \<open>Preparing a batch leaves Redis alone, whatever it returns.\<close>

lemma keeps_enqueue_prepare: "keeps (emits_rel UNIV) (enqueue_prepare E C rows A)"
proof -
  have "keeps (emits_rel UNIV) (connect_proxmox E C)"
    "keeps (emits_rel UNIV) (overwrite_targets E cands U ids)" for cands U ids
    by (rule keeps_emits_mono [OF keeps_connect_proxmox] keeps_emits_mono [OF keeps_overwrite_targets],
        simp)+
  moreover have "keeps (emits_rel UNIV) (catch_act (qemu_vmids_in_use_cluster E) h)"
    for h :: "exn \<Rightarrow> ('x store_scheme, int set) act"
    by (rule keepsI) (auto simp: catch_act_def qemu_vmids_in_use_eval emits_rel_def)
  ultimately show ?thesis
    unfolding enqueue_prepare_def Let_def
    by (intro emits.keeps_bind emits.keeps_res emits.keeps_get emits.keeps_ret emits.keeps_if)
qed

lemma fresh_calls [simp]: "jobs_fresh E C (s\<lparr>calls := cs\<rparr>) = jobs_fresh E C s"
  by (simp add: jobs_fresh_def)

subsection \<open>Properties\<close>

lemma enqueue_effect:
  assumes "jobs_fresh E C s" "enqueue_restores E C rows A s = (r, t)"
  shows "\<exists>mode rws ids cs. jobs_added E C A mode rws ids (s\<lparr>calls := calls s @ cs\<rparr>) t \<and>
    map fst rws = take (length rws) rows \<and>
    (case r of
       Inr res \<Rightarrow> ids = er_job_ids res \<and> mode = er_restore_mode res \<and> length ids = length rows \<and>
         rws = zip rows (zip (er_vmids res) (zip (er_nodes res) (er_storages res)))
     | Inl e \<Rightarrow> ids = [] \<or> length ids < length rows)"
proof -
  obtain r1 s1 where prep: "enqueue_prepare E C rows A s = (r1, s1)"
    by (cases "enqueue_prepare E C rows A s")
  from keepsD [OF keeps_enqueue_prepare prep] obtain cs where s1: "s1 = s\<lparr>calls := calls s @ cs\<rparr>"
    by (auto simp: emits_rel_def)
  show ?thesis
  proof (cases r1)
    case (Inl e)
    then have "r = Inl e" "t = s1"
      using assms(2) prep by (auto simp: enqueue_restores_def bind_act_def)
    then show ?thesis using jobs_added_Nil(2) [of E C A _ "[]"] s1 by fastforce
  next
    case (Inr P)
    note len = enqueue_prepare_lengths [OF prep [unfolded Inr]]
    let ?rws = "prep_rows rows P"
    have fst: "map fst ?rws = take (length ?rws) rows" and n: "length ?rws = length rows"
      using len by (simp_all add: prep_rows_def)
    obtain r2 s2 where loop: "map_act (enqueue_one E C A (ep_mode P)) ?rws s1 = (r2, s2)"
      by (cases "map_act (enqueue_one E C A (ep_mode P)) ?rws s1")
    have fresh: "jobs_fresh E C s1" using assms(1) unfolding s1 by simp
    from enqueue_loop [OF fresh loop] show ?thesis
    proof (cases r2)
      case (Inl e)
      then have "r = Inl e" "t = s2"
        using assms(2) prep loop Inr by (auto simp: enqueue_restores_def bind_act_def)
      moreover from enqueue_loop [OF fresh loop] Inl obtain ids where "length ids < length rows"
        "jobs_added E C A (ep_mode P) ?rws ids (s\<lparr>calls := calls s @ cs\<rparr>) s2"
        using n s1 by auto
      ultimately show ?thesis using fst by auto
    next
      case ids: (Inr ids)
      then have "t = s2" using assms(2) prep loop Inr
        by (auto simp: enqueue_restores_def bind_act_def ret_act_def)
      moreover from ids obtain res where "r = Inr res" "er_job_ids res = ids"
        "er_restore_mode res = ep_mode P"
        "zip rows (zip (er_vmids res) (zip (er_nodes res) (er_storages res))) = ?rws"
        using assms(2) prep loop Inr
        by (auto simp: enqueue_restores_def bind_act_def ret_act_def prep_rows_def)
      moreover from enqueue_loop [OF fresh loop] ids
      have "length ids = length rows"
        "jobs_added E C A (ep_mode P) ?rws ids (s\<lparr>calls := calls s @ cs\<rparr>) s2"
        using n s1 by auto
      ultimately show ?thesis using fst by auto
    qed
  qed
qed

text \<open>C12: a batch is queued completely, in order, and touches nothing else. When
  \<open>enqueue_restores\<close> returns, each row has a new job whose hash is the one built from its row,
  id, node and storage (state \<open>PENDING\<close>), the job ids were appended to the queue in row order,
  and no other hash, list or string of Redis changed; when it raises, that holds for the first
  rows of the batch, fewer than all.\<close>

theorem enqueue_outcome:
  assumes "jobs_fresh E C s" "enqueue_restores E C rows A s = (r, t)"
  shows "\<exists>mode rws ids cs. jobs_added E C A mode rws ids (s\<lparr>calls := calls s @ cs\<rparr>) t \<and>
    map fst rws = take (length rws) rows \<and>
    (case r of
       Inr res \<Rightarrow> ids = er_job_ids res \<and> mode = er_restore_mode res \<and> length ids = length rows \<and>
         rws = zip rows (zip (er_vmids res) (zip (er_nodes res) (er_storages res)))
     | Inl e \<Rightarrow> ids = [] \<or> length ids < length rows)"
  using enqueue_effect [OF assms] .

subsection \<open>A concrete batch\<close>

definition demo_cfg :: cfg where
  "demo_cfg = \<lparr>job_key_prefix = ''restore:job:'', job_log_suffix = '':log'', queue_key = ''restore:queue'',
     redis_cfg = [], worker_cfg = [], plans_cfg = [],
     proxmox_cfg = [(''host'', PStr ''pve''), (''user'', PStr ''root@pam''), (''password'', PStr ''x'')],
     notify_cfg = [], pbs_cfg = [], pbs_servers = PNone\<rparr>"

definition demo_row :: "int \<Rightarrow> dict" where
  "demo_row v = [(''backup_id'', PStr ''b1''), (''name'', PStr ''web''), (''vmid'', PInt v),
     (''pve_storage'', PStr ''pbs''), (''voltail'', PStr ''vm/100/2026-05-01T01:00:00Z'')]"

definition demo_args :: "string \<Rightarrow> bool \<Rightarrow> enqueue_args" where
  "demo_args mode ow = \<lparr>ea_node = ''n1'', ea_nodes = [''n1'', ''n2''], ea_target_storage = ''zfs'',
     ea_storage_by_node = [(''n2'', ''zfs2'')], ea_vmid_start = 101, ea_live_restore = False,
     ea_bwlimit = 0, ea_restore_mode = mode, ea_plan_run_id = [], ea_plan_group_index = None,
     ea_power_on = False, ea_qga_wait_sec = 0, ea_network_mode = ''none'', ea_lab_bridge = [],
     ea_overwrite = ow, ea_http_check_url = []\<rparr>"

lemma demo_fresh: "jobs_fresh demo_env C empty_store"
proof -
  have "str_of_nat a = str_of_nat b \<Longrightarrow> a = b" for a b
    by (metis digits_value_str_of_nat option.inject)
  then have "inj (uuid demo_env)" by (intro injI) (simp add: demo_env_def)
  then show ?thesis by (simp add: jobs_fresh_def empty_store_def)
qed

lemma demo_evals:
  "enqueue_mode (demo_args ''normal'' ow) = Inr ''normal''"
  "enqueue_mode (demo_args ''dr'' ow) = Inr ''dr''"
  "enqueue_candidates (demo_args m ow) = Inr [''n1'', ''n2'']"
  "enqueue_by_node (demo_args m ow) = [(''n2'', ''zfs2'')]"
  "strip (ea_target_storage (demo_args m ow)) = ''zfs''"
  "storages_for [(''n2'', ''zfs2'')] ''zfs'' [''n1'', ''n2''] = Inr [''zfs'', ''zfs2'']"
  "active_restore_counts_by_node demo_cfg empty_store = []"
  "assign_nodes_least_loaded [''n1'', ''n2''] 2 [] = Inr [''n1'', ''n2'']"
  "target_ids ''normal'' (demo_args m ow) {101, 102, 103} [demo_row 100, demo_row 100] = Inr [104, 105]"
  "target_ids ''dr'' (demo_args m False) {101, 102, 103} [demo_row 100, demo_row 104] = Inr [100, 104]"
  "ea_overwrite (demo_args m ow) = ow"
  by code_simp+

lemma demo_connect:
  "connect_proxmox demo_env demo_cfg s = (Inr (), s\<lparr>calls := calls s @ [Connect]\<rparr>)"
proof -
  have "\<exists>l. proxmox_login (proxmox_cfg demo_cfg) = Inr l"
    by (simp add: proxmox_login_def demo_cfg_def strip_field_def py_or_def dget_def dget_or_def
        Let_def need_key_def) code_simp
  then show ?thesis
    by (auto simp: connect_proxmox_def act_simps bind_act_def call_def answer_def demo_env_def
        demo_api_def)
qed

lemma demo_in_use: "in_use_seen demo_env cs = {101, 102, 103}"
  by (simp add: in_use_seen_def answer_def demo_env_def demo_api_def) code_simp

lemma demo_counts: "active_restore_counts_by_node demo_cfg (empty_store\<lparr>calls := cs\<rparr>) = []"
  using demo_evals(7)
  by (simp add: active_restore_counts_by_node_def job_keys_def scan_keys_def hgetall_def)

lemma demo_row_ok: "\<exists>m. job_mapping (demo_args a ow) b (demo_row v) tv n st j i = Inr m"
  by (simp add: job_mapping_def row_archive_def need_key_def demo_row_def py_or_def dget_def
      dget_or_def archive_path_def Let_def) code_simp

text \<open>Both demonstration batches are queued.\<close>

lemma demo_prepare:
  assumes "a = ''normal'' \<and> rows = [demo_row 100, demo_row 100] \<and> ids = [104, 105] \<or>
           a = ''dr'' \<and> rows = [demo_row 100, demo_row 104] \<and> ids = [100, 104]"
  shows "enqueue_prepare demo_env demo_cfg rows (demo_args a False) empty_store =
    (Inr \<lparr>ep_mode = a, ep_candidates = [''n1'', ''n2''], ep_vmids = ids, ep_nodes = [''n1'', ''n2''],
          ep_storages = [''zfs'', ''zfs2'']\<rparr>,
     empty_store\<lparr>calls := [Connect, ClusterResources]\<rparr>)"
  using assms
  by (elim disjE conjE)
    (simp_all add: enqueue_prepare_def Let_def demo_evals act_simps bind_act_eval demo_connect
      catch_act_eval [OF _] catch_act_def qemu_vmids_in_use_eval demo_in_use demo_counts,
     simp_all add: empty_store_def)

lemma demo_enqueue:
  assumes "a = ''normal'' \<and> rows = [demo_row 100, demo_row 100] \<and> ids = [104, 105] \<or>
           a = ''dr'' \<and> rows = [demo_row 100, demo_row 104] \<and> ids = [100, 104]"
  shows "\<exists>res t. enqueue_restores demo_env demo_cfg rows (demo_args a False) empty_store = (Inr res, t) \<and>
    er_vmids res = ids \<and> er_restore_mode res = a"
proof -
  let ?P = "\<lparr>ep_mode = a, ep_candidates = [''n1'', ''n2''], ep_vmids = ids, ep_nodes = [''n1'', ''n2''],
          ep_storages = [''zfs'', ''zfs2'']\<rparr>"
  have "\<exists>m. job_mapping (demo_args a False) a row v n st j i = Inr m"
    if "(row, v, n, st) \<in> set (prep_rows rows ?P)" for row v n st j i
  proof -
    from that assms have "row \<in> {demo_row 100, demo_row 104}"
      by (auto simp: prep_rows_def dest!: set_zip_leftD)
    then show ?thesis using demo_row_ok by auto
  qed
  from enqueue_loop_total [OF this] obtain js t
    where "map_act (enqueue_one demo_env demo_cfg (demo_args a False) a) (prep_rows rows ?P)
      (empty_store\<lparr>calls := [Connect, ClusterResources]\<rparr>) = (Inr js, t)" by blast
  with demo_prepare [OF assms] show ?thesis
    by (auto simp: enqueue_restores_def bind_act_eval ret_act_def)
qed

lemma enqueue_restores_Inr:
  assumes "enqueue_restores E C rows A s = (Inr res, t)"
  obtains P s1 js where "enqueue_prepare E C rows A s = (Inr P, s1)"
    "map_act (enqueue_one E C A (ep_mode P)) (prep_rows rows P) s1 = (Inr js, t)"
    "er_job_ids res = js" "er_vmids res = ep_vmids P" "er_nodes res = ep_nodes P"
    "er_storages res = ep_storages P" "er_restore_mode res = ep_mode P"
    "er_candidates res = ep_candidates P"
  using assms by (auto simp: enqueue_restores_def bind_act_Inr_iff ret_act_def)

lemma calls_enqueue_one: "calls (snd (enqueue_one E C A mode x s)) = calls s"
  by (cases x) (auto simp: enqueue_one_def bind_act_def new_uuid_def split: sum.splits)

lemma calls_enqueue_loop: "calls (snd (map_act (enqueue_one E C A mode) rws s)) = calls s"
proof (induction rws arbitrary: s)
  case (Cons x rws)
  show ?case
    using calls_enqueue_one [of E C A mode x s] Cons
    by (auto simp: bind_act_def ret_act_def split: prod.splits sum.splits) (metis snd_conv)+
qed (simp add: ret_act_def)

theorem enqueue_outcome_witness:
  "\<exists>res t mode rws cs. enqueue_restores demo_env demo_cfg [demo_row 100, demo_row 100]
      (demo_args ''normal'' False) empty_store = (Inr res, t) \<and> length (er_job_ids res) = 2 \<and>
    jobs_added demo_env demo_cfg (demo_args ''normal'' False) mode rws (er_job_ids res)
      (empty_store\<lparr>calls := calls empty_store @ cs\<rparr>) t"
proof -
  obtain res t where "enqueue_restores demo_env demo_cfg [demo_row 100, demo_row 100]
      (demo_args ''normal'' False) empty_store = (Inr res, t)"
    using demo_enqueue [of "''normal''" "[demo_row 100, demo_row 100]" "[104, 105]"] by auto
  with enqueue_outcome [OF demo_fresh this] show ?thesis by fastforce
qed

text \<open>C8: a normal restore never targets an id in use. The target ids are the first free ids
  of the cluster from \<open>vmid_start\<close> on, one per row: pairwise distinct, at least 100, and none of
  them among the ids of QEMU guests and containers the cluster reported; the nodes are
  candidates, every job has a storage, and Proxmox is only connected to and read once.\<close>

theorem enqueue_normal_targets:
  assumes "enqueue_restores E C rows A s = (Inr res, t)" "er_restore_mode res \<noteq> ''dr''"
  shows "er_vmids res = take (length rows)
      (free_ids (in_use_seen E (calls s @ [Connect])) (ea_vmid_start A) (int (length rows))) \<and>
    length (er_vmids res) = length rows \<and> distinct (er_vmids res) \<and>
    set (er_vmids res) \<inter> in_use_seen E (calls s @ [Connect]) = {} \<and>
    (\<forall>v \<in> set (er_vmids res). 100 \<le> v) \<and>
    set (er_nodes res) \<subseteq> set (er_candidates res) \<and> (\<forall>st \<in> set (er_storages res). st \<noteq> []) \<and>
    calls t = calls s @ [Connect, ClusterResources]"
proof -
  from assms(1) obtain P s1 js where p: "enqueue_prepare E C rows A s = (Inr P, s1)"
    "map_act (enqueue_one E C A (ep_mode P)) (prep_rows rows P) s1 = (Inr js, t)"
    and r: "er_vmids res = ep_vmids P" "er_nodes res = ep_nodes P"
    "er_storages res = ep_storages P" "er_restore_mode res = ep_mode P"
    "er_candidates res = ep_candidates P"
    by (rule enqueue_restores_Inr)
  let ?U = "in_use_seen E (calls s @ [Connect])"
  have calls: "calls t = calls s1"
    using calls_enqueue_loop [of E C A "ep_mode P" "prep_rows rows P" s1] p(2) by simp
  from p(1) show ?thesis
  proof (cases rule: enqueue_prepare_cases)
    case (1 U cs)
    from 1 assms(2) r obtain nxt U' where a:
      "allocate_sequential_free_vmids ?U (ea_vmid_start A) (int (length rows)) = Inr (ep_vmids P, nxt, U')"
      by (auto simp: target_ids_def)
    show ?thesis
      using allocate_Inr [OF a] enqueue_prepare_lengths [OF p(1)] r 1 calls assms(2) by simp
  qed
qed

theorem enqueue_normal_targets_witness:
  "\<exists>res t. enqueue_restores demo_env demo_cfg [demo_row 100, demo_row 100]
      (demo_args ''normal'' False) empty_store = (Inr res, t) \<and>
    set (er_vmids res) \<inter> in_use_seen demo_env (calls empty_store @ [Connect]) = {} \<and>
    calls t = [Connect, ClusterResources]"
proof -
  obtain res t where r: "enqueue_restores demo_env demo_cfg [demo_row 100, demo_row 100]
      (demo_args ''normal'' False) empty_store = (Inr res, t)" "er_restore_mode res = ''normal''"
    using demo_enqueue [of "''normal''" "[demo_row 100, demo_row 100]" "[104, 105]"] by auto
  then have "er_restore_mode res \<noteq> ''dr''" by simp
  from enqueue_normal_targets [OF r(1) this] r(1) show ?thesis by (auto simp: empty_store_def)
qed

text \<open>C7: a DR restore targets exactly the source ids, and destroys only what the tool owns.
  The target ids are the source ids of the rows, pairwise distinct; without \<open>overwrite\<close> none of
  them is in use and Proxmox is only read; with it, every call that could change a guest is a
  stop or deletion of a guest at a target id in use on which the ownership marker was seen.\<close>

theorem enqueue_dr_targets:
  assumes "enqueue_restores E C rows A s = (Inr res, t)" "er_restore_mode res = ''dr''"
  shows "list_all2 (\<lambda>row v. res_bind (need_key row ''vmid'') py_int = Inr v) rows (er_vmids res) \<and>
    distinct (er_vmids res) \<and>
    (\<exists>cs. calls t = calls s @ [Connect, ClusterResources] @ cs \<and>
       (if ea_overwrite A
        then \<forall>c \<in> set cs. overwrite_call E
               (set (er_vmids res) \<inter> in_use_seen E (calls s @ [Connect])) c
        else cs = [] \<and> set (er_vmids res) \<inter> in_use_seen E (calls s @ [Connect]) = {}))"
proof -
  from assms(1) obtain P s1 js where p: "enqueue_prepare E C rows A s = (Inr P, s1)"
    "map_act (enqueue_one E C A (ep_mode P)) (prep_rows rows P) s1 = (Inr js, t)"
    and r: "er_vmids res = ep_vmids P" "er_restore_mode res = ep_mode P"
    by (rule enqueue_restores_Inr)
  have calls: "calls t = calls s1"
    using calls_enqueue_loop [of E C A "ep_mode P" "prep_rows rows P" s1] p(2) by simp
  from p(1) show ?thesis
  proof (cases rule: enqueue_prepare_cases)
    case (1 U cs)
    from 1 assms(2) r have "dr_ids (ea_overwrite A) U [] rows = Inr (ep_vmids P)"
      by (simp add: target_ids_def)
    note d = dr_ids_Inr [OF this]
    show ?thesis
      using d r calls 1
      by (intro conjI exI [of _ cs]) (auto split: if_splits)
  qed
qed

theorem enqueue_dr_targets_witness:
  "\<exists>res t. enqueue_restores demo_env demo_cfg [demo_row 100, demo_row 104]
      (demo_args ''dr'' False) empty_store = (Inr res, t) \<and> distinct (er_vmids res) \<and>
    calls t = [Connect, ClusterResources]"
proof -
  obtain res t where r: "enqueue_restores demo_env demo_cfg [demo_row 100, demo_row 104]
      (demo_args ''dr'' False) empty_store = (Inr res, t)" "er_restore_mode res = ''dr''"
    using demo_enqueue [of "''dr''" "[demo_row 100, demo_row 104]" "[100, 104]"] by auto
  have "\<not> ea_overwrite (demo_args ''dr'' False)" by (simp add: demo_args_def)
  with enqueue_dr_targets [OF r] r(1) show ?thesis by (auto simp: empty_store_def)
qed

end
