(* ===== verification/PyTime.thy ===== *)
theory PyTime
  imports PyVal
begin

text \<open>
  ISO 8601 timestamps: the proleptic Gregorian calendar of Python's \<open>datetime\<close> (ordinal 1 is
  0001-01-01) and \<open>datetime.fromisoformat(...).timestamp()\<close> on the forms the program writes
  and receives: \<open>YYYY-MM-DD\<close>, a separator, \<open>HH:MM:SS\<close>, an optional fraction and an optional
  UTC offset. Other forms are read as errors. A timestamp without an offset is read as UTC,
  the time zone of the service.
\<close>

definition leap :: "int \<Rightarrow> bool" where
  "leap y \<longleftrightarrow> y mod 4 = 0 \<and> (y mod 100 \<noteq> 0 \<or> y mod 400 = 0)"

definition month_lengths :: "int \<Rightarrow> int list" where
  "month_lengths y = [31, if leap y then 29 else 28, 31, 30, 31, 30, 31, 31, 30, 31, 30, 31]"

definition days_before_year :: "int \<Rightarrow> int" where
  "days_before_year y = (y - 1) * 365 + (y - 1) div 4 - (y - 1) div 100 + (y - 1) div 400"

definition ymd_ordinal :: "int \<Rightarrow> int \<Rightarrow> int \<Rightarrow> int" where
  "ymd_ordinal y m d = days_before_year y + sum_list (take (nat (m - 1)) (month_lengths y)) + d"

definition digits_int :: "string \<Rightarrow> int option" where
  "digits_int s = (if s \<noteq> [] \<and> (\<forall>c \<in> set s. is_digit c)
                   then Some (foldl (\<lambda>a c. 10 * a + int (digit_val c)) 0 s) else None)"

text \<open>\<open>parse_date\<close> on ten characters, \<open>parse_clock\<close> on eight, \<open>parse_offset\<close> on the rest\<close>

definition parse_date :: "string \<Rightarrow> int option" where
  "parse_date s =
     (if length s = 10 \<and> s ! 4 = CHR ''-'' \<and> s ! 7 = CHR ''-'' then
        (case (digits_int (take 4 s), digits_int (take 2 (drop 5 s)), digits_int (drop 8 s)) of
           (Some y, Some m, Some d) \<Rightarrow>
             if 1 \<le> y \<and> 1 \<le> m \<and> m \<le> 12 \<and> 1 \<le> d \<and> d \<le> month_lengths y ! nat (m - 1)
             then Some (ymd_ordinal y m d) else None
         | _ \<Rightarrow> None)
      else None)"

definition parse_clock :: "string \<Rightarrow> int option" where
  "parse_clock s =
     (if length s = 8 \<and> s ! 2 = CHR '':'' \<and> s ! 5 = CHR '':'' then
        (case (digits_int (take 2 s), digits_int (take 2 (drop 3 s)), digits_int (drop 6 s)) of
           (Some h, Some m, Some sec) \<Rightarrow>
             if h < 24 \<and> m < 60 \<and> sec < 60 then Some (h * 3600 + m * 60 + sec) else None
         | _ \<Rightarrow> None)
      else None)"

definition parse_offset :: "string \<Rightarrow> int option" where
  "parse_offset s =
     (if s = [] then Some 0
      else if length s = 6 \<and> hd s \<in> set ''+-'' \<and> s ! 3 = CHR '':'' then
        (case (digits_int (take 2 (drop 1 s)), digits_int (drop 4 s)) of
           (Some h, Some m) \<Rightarrow>
             if h < 24 \<and> m < 60
             then Some ((if hd s = CHR ''-'' then - 1 else 1) * (h * 3600 + m * 60)) else None
         | _ \<Rightarrow> None)
      else None)"

text \<open>The fraction is cut after six digits, as Python does.\<close>

definition parse_fraction :: "string \<Rightarrow> (rat \<times> string) option" where
  "parse_fraction s =
     (if startswith ''.'' s then
        let ds = takeWhile is_digit (tl s) in
        (case digits_int (take 6 ds) of
           None \<Rightarrow> None
         | Some n \<Rightarrow> Some (of_int n / 10 ^ min 6 (length ds), dropWhile is_digit (tl s)))
      else Some (0, s))"

definition iso_timestamp :: "string \<Rightarrow> rat option" where
  "iso_timestamp s =
     (case parse_date (take 10 s) of
        None \<Rightarrow> None
      | Some days \<Rightarrow>
          if length s = 10 then Some (of_int (days - 719163) * 86400)
          else (case parse_clock (take 8 (drop 11 s)) of
            None \<Rightarrow> None
          | Some secs \<Rightarrow>
              (case parse_fraction (drop 19 s) of
                 None \<Rightarrow> None
               | Some (fr, rest) \<Rightarrow>
                   (case parse_offset rest of
                      None \<Rightarrow> None
                    | Some off \<Rightarrow> Some (of_int ((days - 719163) * 86400 + secs - off) + fr)))))"

text \<open>Whether the timestamp has an offset (\<open>tzinfo is not None\<close>)\<close>

definition iso_aware :: "string \<Rightarrow> bool" where
  "iso_aware s \<longleftrightarrow>
     (case parse_fraction (drop 19 s) of None \<Rightarrow> False | Some (fr, rest) \<Rightarrow> rest \<noteq> [])"

lemma iso_timestamp_examples:
  "iso_timestamp ''1970-01-01T00:00:00+00:00'' = Some 0"
  "iso_timestamp ''2026-13-01T01:00:00'' = None"
  by code_simp+

end
