(* ===== verification/QueueCtl.thy ===== *)
theory QueueCtl
  imports Jobs PyTime
begin

text \<open>
  \<open>queue_control.py\<close> and \<open>job_hygiene.py\<close>: pausing the queue, draining pending jobs, the
  aggregate statistics, the expiry and purge of finished jobs, and paginated listings.
\<close>

subsection \<open>Pause flag\<close>

definition queue_paused_key :: "cfg \<Rightarrow> string" where
  "queue_paused_key C =
     (let explicit = strip (str_or_empty (dget (redis_cfg C) ''queue_paused_key''))
      in if explicit \<noteq> [] then explicit else strip (or_default (queue_key C) ''restore:queue'') @ '':paused'')"

definition is_queue_paused :: "cfg \<Rightarrow> 'x store_scheme \<Rightarrow> bool" where
  "is_queue_paused C s \<longleftrightarrow> get_str (queue_paused_key C) s = Some ''1''"

definition set_queue_paused :: "cfg \<Rightarrow> bool \<Rightarrow> 'x store_scheme \<Rightarrow> 'x store_scheme" where
  "set_queue_paused C paused s =
     (if paused then set_str (queue_paused_key C) ''1'' s else delete_key (queue_paused_key C) s)"

subsection \<open>Statistics\<close>

record job_stats =
  js_active :: int
  js_pending :: int
  js_completed :: int
  js_failed :: int
  js_cancelled :: int
  js_queue_length :: int
  js_max_concurrent :: int
  js_paused :: bool
  js_aggregate_speed_bps :: int
  js_worst_eta :: "int option"
  js_median_eta :: "int option"

record stats_acc =
  sa_active :: int
  sa_pending :: int
  sa_completed :: int
  sa_failed :: int
  sa_cancelled :: int
  sa_speed :: rat
  sa_etas :: "int list"

definition field_or_zero :: "hash \<Rightarrow> string \<Rightarrow> pyval" where
  "field_or_zero data f = (if hfield data f = [] then PInt 0 else PStr (hfield data f))"

definition stats_step :: "hash \<Rightarrow> stats_acc \<Rightarrow> stats_acc" where
  "stats_step data a =
     (let st = hfield data ''state'' in
      if st = state_value RESTORING then
        (let eta = py_int_or (field_or_zero data ''eta_sec'') 0
         in a\<lparr>sa_active := sa_active a + 1,
              sa_speed := sa_speed a + py_float_or (field_or_zero data ''speed_bps'') 0,
              sa_etas := (if 0 < eta then sa_etas a @ [eta] else sa_etas a)\<rparr>)
      else if st = state_value PENDING then a\<lparr>sa_pending := sa_pending a + 1\<rparr>
      else if st = state_value COMPLETED then a\<lparr>sa_completed := sa_completed a + 1\<rparr>
      else if st = state_value FAILED then a\<lparr>sa_failed := sa_failed a + 1\<rparr>
      else if st = state_value CANCELLED then a\<lparr>sa_cancelled := sa_cancelled a + 1\<rparr>
      else a)"

definition collect_job_stats :: "cfg \<Rightarrow> int \<Rightarrow> 'x store_scheme \<Rightarrow> job_stats" where
  "collect_job_stats C limit s =
     (let a = fold (\<lambda>key. stats_step (hgetall key s)) (job_keys C s)
                \<lparr>sa_active = 0, sa_pending = 0, sa_completed = 0, sa_failed = 0, sa_cancelled = 0,
                 sa_speed = 0, sa_etas = []\<rparr>;
          etas = sort (sa_etas a)
      in \<lparr>js_active = sa_active a, js_pending = sa_pending a, js_completed = sa_completed a,
          js_failed = sa_failed a, js_cancelled = sa_cancelled a,
          js_queue_length = int (length (lrange_all (queue_key C) s)),
          js_max_concurrent = max 1 limit, js_paused = is_queue_paused C s,
          js_aggregate_speed_bps = (if 0 < sa_speed a then trunc_rat (sa_speed a) else 0),
          js_worst_eta = (if etas \<noteq> [] then Some (last etas) else None),
          js_median_eta = (if etas \<noteq> [] then Some (etas ! (length etas div 2)) else None)\<rparr>)"

subsection \<open>Draining the queue\<close>

definition drain_mapping :: "string \<Rightarrow> hash" where
  "drain_mapping stamp =
    [(''state'', state_value CANCELLED), (''updated_at'', stamp),
     (''error'', ''Cancelled by queue stop (pending drain)''), (''eta_sec'', []), (''speed_bps'', [])]"

definition state_or_pending :: "hash \<Rightarrow> string" where
  "state_or_pending data = or_default (hfield data ''state'') (state_value PENDING)"

text \<open>The pops: an empty entry ends the loop, as the end of the list does.\<close>

fun drain_list ::
  "cfg \<Rightarrow> string \<Rightarrow> string list \<Rightarrow> string list \<Rightarrow> 'x store_scheme \<Rightarrow> string list \<times> 'x store_scheme" where
  "drain_list C stamp [] ids s = (ids, s)"
| "drain_list C stamp (j # js) ids s =
     (let s1 = set_list (queue_key C) js s; job_id = strip j in
      if j = [] then (ids, s1)
      else if job_id = [] then drain_list C stamp js ids s1
      else if state_or_pending (hgetall (job_key C job_id) s1) = state_value PENDING
        then drain_list C stamp js (ids @ [job_id]) (hset (job_key C job_id) (drain_mapping stamp) s1)
      else drain_list C stamp js ids s1)"

fun drain_sweep ::
  "cfg \<Rightarrow> string \<Rightarrow> string list \<Rightarrow> string list \<Rightarrow> 'x store_scheme \<Rightarrow> string list \<times> 'x store_scheme" where
  "drain_sweep C stamp [] ids s = (ids, s)"
| "drain_sweep C stamp (key # ks) ids s =
     (let data = hgetall key s;
          job_id = or_default (hfield data ''job_id'') (drop (length (job_key_prefix C)) key) in
      if hfield data ''state'' \<noteq> state_value PENDING then drain_sweep C stamp ks ids s
      else drain_sweep C stamp ks (if job_id \<notin> set ids then ids @ [job_id] else ids)
             (hset key (drain_mapping stamp) s))"

definition drain_pending_jobs :: "env \<Rightarrow> cfg \<Rightarrow> 'x store_scheme \<Rightarrow> string list \<times> 'x store_scheme" where
  "drain_pending_jobs E C s =
     (let s1 = set_queue_paused C True s; stamp = utc_now_iso E s;
          (ids, s2) = drain_list C stamp (lrange_all (queue_key C) s1) [] s1
      in drain_sweep C stamp (job_keys C s2) ids s2)"

subsection \<open>Expiry and purge of finished jobs\<close>

definition job_ttl_sec :: "cfg \<Rightarrow> int" where
  "job_ttl_sec C =
     (case py_int (py_or (dget_or (worker_cfg C) ''job_ttl_sec'' (PInt (14 * 86400))) (PInt 0)) of
        Inr n \<Rightarrow> max 0 n | Inl e \<Rightarrow> 14 * 86400)"

definition apply_job_ttl :: "cfg \<Rightarrow> string \<Rightarrow> string \<Rightarrow> 'x store_scheme \<Rightarrow> 'x store_scheme" where
  "apply_job_ttl C job_id state s =
     (let ttl = job_ttl_sec C; key = job_key C job_id in
      if ttl \<le> 0 \<or> state \<notin> set TERMINAL then s
      else expire (key @ job_log_suffix C) ttl (expire key ttl s))"

fun replace_Z :: "string \<Rightarrow> string" where
  "replace_Z [] = []"
| "replace_Z (c # s) = (if c = CHR ''Z'' then ''+00:00'' @ replace_Z s else c # replace_Z s)"

definition purge_one :: "cfg \<Rightarrow> rat \<Rightarrow> string \<Rightarrow> int \<times> 'x store_scheme \<Rightarrow> int \<times> 'x store_scheme" where
  "purge_one C cutoff key = (\<lambda>(purged, s).
     let data = hgetall key s;
         updated = or_default (hfield data ''updated_at'') (hfield data ''created_at'');
         job_id = or_default (hfield data ''job_id'') (drop (length (job_key_prefix C)) key) in
     if hfield data ''state'' \<notin> set TERMINAL then (purged, s)
     else (case iso_timestamp (replace_Z updated) of
             None \<Rightarrow> (purged, s)
           | Some ts \<Rightarrow>
               if cutoff < ts then (purged, s)
               else (purged + 1, delete_key (job_key C job_id @ job_log_suffix C) (delete_key key s))))"

definition purge_expired_scan :: "env \<Rightarrow> cfg \<Rightarrow> nat \<Rightarrow> 'x store_scheme \<Rightarrow> int \<times> 'x store_scheme" where
  "purge_expired_scan E C max_scan s =
     (let ttl = job_ttl_sec C in
      if ttl \<le> 0 then (0, s)
      else fold (purge_one C (now E s - of_int ttl)) (take max_scan (job_keys C s)) (0, s))"

subsection \<open>Listings\<close>

text \<open>
  \<open>record_fn\<close> converts a hash or raises; \<open>st\<close> and \<open>created\<close> read the state and the creation
  time of its records.
\<close>

definition collect_jobs ::
  "cfg \<Rightarrow> string option \<Rightarrow> (hash \<Rightarrow> exn + 'r) \<Rightarrow> ('r \<Rightarrow> string) \<Rightarrow> ('r \<Rightarrow> string) \<Rightarrow>
     'x store_scheme \<Rightarrow> exn + 'r list" where
  "collect_jobs C state record_fn st created s =
     res_bind (map_res record_fn (filter (\<lambda>d. d \<noteq> []) (map (\<lambda>key. hgetall key s) (job_keys C s)))) (\<lambda>rs.
       Inr (sort_key created (filter (\<lambda>r. state = None \<or> state = Some (st r)) rs)))"

record 'a page =
  pg_items :: "'a list"
  pg_total :: int
  pg_offset :: int
  pg_limit :: int
  pg_has_more :: bool

definition paginate :: "'a list \<Rightarrow> int \<Rightarrow> int \<Rightarrow> 'a page" where
  "paginate items offset0 limit0 =
     (let offset = max 0 offset0; limit = max 1 (min 500 limit0); total = int (length items)
      in \<lparr>pg_items = take (nat limit) (drop (nat offset) items), pg_total = total,
          pg_offset = offset, pg_limit = limit, pg_has_more = (offset + limit < total)\<rparr>)"

subsection \<open>Lemmas: draining\<close>

definition job_state :: "string \<Rightarrow> 'x store_scheme \<Rightarrow> string" where
  "job_state key s = hfield (hgetall key s) ''state''"

lemma drain_mapping_state [simp]:
  "map_of (drain_mapping stamp) ''state'' = Some (state_value CANCELLED)"
  by (simp add: drain_mapping_def)

lemma hfield_merge [simp]:
  "hfield (AList.merge h m) f = (case map_of m f of Some v \<Rightarrow> v | None \<Rightarrow> hfield h f)"
  by (simp add: hfield_def split: option.splits)

text \<open>Every hash is as before, or was pending (or had no state) and is now cancelled.\<close>

definition drained :: "string \<Rightarrow> 'x store_scheme \<Rightarrow> 'x store_scheme \<Rightarrow> bool" where
  "drained stamp s t \<longleftrightarrow>
     (\<forall>k. hgetall k t = hgetall k s \<or>
        job_state k s \<in> {[], state_value PENDING} \<and>
        hgetall k t = AList.merge (hgetall k s) (drain_mapping stamp)) \<and>
     strs t = strs s \<and> expiry t = expiry s \<and> calls t = calls s"

lemma drained_refl: "drained stamp s s"
  by (simp add: drained_def)

lemma drained_trans:
  assumes "drained stamp s t" "drained stamp t u" shows "drained stamp s u"
proof -
  have "hgetall k u = hgetall k s \<or> job_state k s \<in> {[], state_value PENDING} \<and>
      hgetall k u = AList.merge (hgetall k s) (drain_mapping stamp)" for k
  proof (cases "hgetall k t = hgetall k s")
    case True
    then show ?thesis using assms(2) unfolding drained_def job_state_def by metis
  next
    case False
    then have k: "job_state k s \<in> {[], state_value PENDING}"
      "hgetall k t = AList.merge (hgetall k s) (drain_mapping stamp)"
      using assms(1) unfolding drained_def by blast+
    then have "job_state k t = state_value CANCELLED" by (simp add: job_state_def)
    then have "hgetall k u = hgetall k t" using assms(2) unfolding drained_def by auto
    with k show ?thesis by simp
  qed
  then show ?thesis using assms by (simp add: drained_def)
qed

lemma drained_hset:
  assumes "job_state key s \<in> {[], state_value PENDING}"
  shows "drained stamp s (hset key (drain_mapping stamp) s)"
  using assms by (simp add: drained_def hgetall_hset)

lemma drained_set_list: "drained stamp s (set_list k js s)"
  by (simp add: drained_def)

lemma drain_list_effect:
  assumes "drain_list C stamp js ids s = (ids', t)" "lrange_all (queue_key C) s = js"
  shows "drained stamp s t \<and> ([] \<notin> set js \<longrightarrow> lrange_all (queue_key C) t = [])"
  using assms
proof (induction C stamp js ids s arbitrary: ids' t rule: drain_list.induct)
  case (1 C stamp ids s)
  then show ?case by (simp add: drained_refl)
next
  case (2 C stamp j js ids s)
  let ?s1 = "set_list (queue_key C) js s"
  have l: "lrange_all (queue_key C) ?s1 = js" by (simp add: lrange_set_list)
  let ?k = "job_key C (strip j)"
  let ?s2 = "hset ?k (drain_mapping stamp) ?s1"
  have l2: "lrange_all (queue_key C) ?s2 = js" by (simp add: l)
  note d1 = drained_set_list [of stamp s "queue_key C" js]
  consider (stop) "j = []" | (skip) "j \<noteq> []" "strip j = []"
    | (cancel) "j \<noteq> []" "strip j \<noteq> []" "state_or_pending (hgetall ?k ?s1) = state_value PENDING"
    | (keep) "j \<noteq> []" "strip j \<noteq> []" "state_or_pending (hgetall ?k ?s1) \<noteq> state_value PENDING"
    by blast
  then show ?case
  proof cases
    case stop
    with 2(4) d1 show ?thesis by (simp add: Let_def)
  next
    case skip
    with 2(1) [of ?s1 "[]" ids' t] 2(4) l drained_trans [OF d1] show ?thesis by (simp add: Let_def)
  next
    case cancel
    then have "job_state ?k ?s1 \<in> {[], state_value PENDING}"
      by (auto simp: state_or_pending_def or_default_def job_state_def split: if_splits)
    from drained_trans [OF d1 drained_hset [OF this]] cancel 2(2) [of ?s1 "strip j" ids' t] 2(4) l2
      drained_trans
    show ?thesis by (simp add: Let_def) blast
  next
    case keep
    with 2(3) [of ?s1 "strip j" ids' t] 2(4) l drained_trans [OF d1] show ?thesis
      by (simp add: Let_def)
  qed
qed

lemma drain_sweep_effect:
  assumes "drain_sweep C stamp ks ids s = (ids', t)"
  shows "drained stamp s t \<and> rlists t = rlists s \<and>
    (\<forall>k. job_state k t = state_value PENDING \<longrightarrow> job_state k s = state_value PENDING \<and> k \<notin> set ks)"
  using assms
proof (induction C stamp ks ids s arbitrary: ids' t rule: drain_sweep.induct)
  case (1 C stamp ids s)
  then show ?case by (simp add: drained_refl)
next
  case (2 C stamp key ks ids s)
  let ?s1 = "hset key (drain_mapping stamp) s"
  show ?case
  proof (cases "job_state key s = state_value PENDING")
    case False
    then have rec: "drain_sweep C stamp ks ids s = (ids', t)"
      using "2.prems" by (simp add: job_state_def)
    from 2(1) [OF refl refl _ rec] False show ?thesis
      by (fastforce simp: job_state_def)
  next
    case True
    define job_id where "job_id = or_default (hfield (hgetall key s) ''job_id'') (drop (length (job_key_prefix C)) key)"
    have rec: "drain_sweep C stamp ks (if job_id \<notin> set ids then ids @ [job_id] else ids) ?s1 = (ids', t)"
      using "2.prems" True by (simp add: job_state_def Let_def job_id_def split del: if_split cong: if_cong)
    have st: "job_state k ?s1 = (if k = key then state_value CANCELLED else job_state k s)" for k
      by (simp add: job_state_def hgetall_hset)
    from 2(2) [OF refl job_id_def _ rec] True
    have IH: "drained stamp ?s1 t" "rlists t = rlists ?s1"
      "\<forall>k. job_state k t = state_value PENDING \<longrightarrow> job_state k ?s1 = state_value PENDING \<and> k \<notin> set ks"
      by (simp_all add: job_state_def)
    have "drained stamp s ?s1" using True by (intro drained_hset) simp
    with IH(1) have "drained stamp s t" by (rule drained_trans [rotated])
    with IH(2,3) show ?thesis by (auto simp: st split: if_splits)
  qed
qed

subsection \<open>Lemmas: purge\<close>

lemma hgetall_delete_key: "hgetall k (delete_key key s) = (if k = key then [] else hgetall k s)"
  by (simp add: hgetall_def delete_key_def)

definition purgeable :: "rat \<Rightarrow> hash \<Rightarrow> bool" where
  "purgeable cutoff data \<longleftrightarrow> hfield data ''state'' \<in> set TERMINAL \<and>
     (\<exists>ts. iso_timestamp (replace_Z (or_default (hfield data ''updated_at'') (hfield data ''created_at''))) = Some ts
        \<and> ts \<le> cutoff)"

lemma purge_one_hash:
  assumes "purge_one C cutoff key (n, s) = (n', t)" "\<not> endswith (job_log_suffix C) k"
  shows "hgetall k t = hgetall k s \<or> purgeable cutoff (hgetall k s) \<and> hgetall k t = []"
  using assms endswith_iff [of "job_log_suffix C"]
  by (auto simp: purge_one_def Let_def purgeable_def hgetall_delete_key
      split: if_splits option.splits)

lemma purge_fold_hash:
  assumes "fold (purge_one C cutoff) ks (n, s) = (n', t)" "\<not> endswith (job_log_suffix C) k"
  shows "hgetall k t = hgetall k s \<or> purgeable cutoff (hgetall k s) \<and> hgetall k t = []"
  using assms(1)
proof (induction ks arbitrary: n s)
  case (Cons key ks)
  obtain n1 s1 where one: "purge_one C cutoff key (n, s) = (n1, s1)"
    by (cases "purge_one C cutoff key (n, s)")
  with Cons.prems have "fold (purge_one C cutoff) ks (n1, s1) = (n', t)" by simp
  from Cons.IH [OF this] purge_one_hash [OF one assms(2)] show ?case
    by (auto simp: purgeable_def hfield_def TERMINAL_def)
qed simp

subsection \<open>Lemmas: pages\<close>

lemma pages_join:
  "0 < l \<Longrightarrow> concat (map (\<lambda>i. take l (drop (i * l) xs)) [0..<k]) = take (k * l) xs"
proof (induction k)
  case (Suc k)
  then show ?case by (simp add: take_add [symmetric] add.commute)
qed simp

subsection \<open>Properties\<close>

text \<open>C24: stopping the queue leaves nothing pending. After \<open>drain_pending_jobs\<close> the queue is
  paused and (unless it held an empty entry) empty, no job hash is in state \<open>PENDING\<close>, every
  hash that changed was pending or had no state and is now cancelled with the drain message,
  and nothing was sent to Proxmox.\<close>

theorem drain_leaves_nothing_pending:
  assumes "drain_pending_jobs E C s = (ids, t)"
  shows "is_queue_paused C t \<and>
    ([] \<notin> set (lrange_all (queue_key C) s) \<longrightarrow> lrange_all (queue_key C) t = []) \<and>
    (\<forall>k \<in> set (job_keys C t). job_state k t \<noteq> state_value PENDING) \<and>
    (\<forall>k. hgetall k t = hgetall k s \<or> job_state k s \<in> {[], state_value PENDING} \<and>
        hgetall k t = AList.merge (hgetall k s) (drain_mapping (utc_now_iso E s))) \<and>
    calls t = calls s"
proof -
  let ?s1 = "set_queue_paused C True s" and ?st = "utc_now_iso E s"
  have q1: "lrange_all (queue_key C) ?s1 = lrange_all (queue_key C) s" "hgetall k ?s1 = hgetall k s" for k
    by (simp_all add: set_queue_paused_def)
  have p1: "is_queue_paused C ?s1" by (simp add: is_queue_paused_def set_queue_paused_def get_set_str)
  have c1: "calls ?s1 = calls s" by (simp add: set_queue_paused_def set_str_def)
  obtain js s2 where l: "drain_list C ?st (lrange_all (queue_key C) ?s1) [] ?s1 = (js, s2)"
    by (cases "drain_list C ?st (lrange_all (queue_key C) ?s1) [] ?s1")
  with assms have sw: "drain_sweep C ?st (job_keys C s2) js s2 = (ids, t)"
    by (simp add: drain_pending_jobs_def Let_def)
  note L = drain_list_effect [OF l refl] and S = drain_sweep_effect [OF sw]
  have d: "drained ?st ?s1 t" using L S drained_trans by blast
  then have "strs t = strs ?s1" "calls t = calls s" using c1 by (simp_all add: drained_def)
  then have paused: "is_queue_paused C t" using p1 by (simp add: is_queue_paused_def get_str_def)
  have queue: "lrange_all (queue_key C) t = lrange_all (queue_key C) s2"
    using S by (simp add: lrange_all_def)
  have "job_state k t \<noteq> state_value PENDING" if "k \<in> set (job_keys C t)" for k
  proof
    assume "job_state k t = state_value PENDING"
    then have pend: "job_state k s2 = state_value PENDING" and k: "k \<notin> set (job_keys C s2)"
      using S by blast+
    have "hgetall k s2 \<noteq> []" using pend by (auto simp: job_state_def hfield_def)
    then have "k \<in> fst ` set (hashes s2)" by (rule hgetall_not_Nil_key)
    with k that show False
      using scan_keys_complete by (auto simp: job_keys_def scan_keys_def)
  qed
  then show ?thesis
    using paused queue L q1 d \<open>calls t = calls s\<close> by (auto simp: drained_def job_state_def)
qed

definition demo_queue :: store where
  "demo_queue = empty_store
     \<lparr>hashes := [(''restore:job:a'', [(''job_id'', ''a''), (''state'', ''PENDING'')]),
                 (''restore:job:b'', [(''job_id'', ''b''), (''state'', ''RESTORING'')])],
      rlists := [(''restore:queue'', [''a''])]\<rparr>"

theorem drain_witness:
  "lrange_all ''restore:queue'' (snd (drain_pending_jobs demo_env demo_cfg demo_queue)) = [] \<and>
   job_state ''restore:job:b'' (snd (drain_pending_jobs demo_env demo_cfg demo_queue)) = ''RESTORING''"
proof -
  obtain ids t where d: "drain_pending_jobs demo_env demo_cfg demo_queue = (ids, t)"
    by (cases "drain_pending_jobs demo_env demo_cfg demo_queue")
  have q: "lrange_all (queue_key demo_cfg) demo_queue = [''a'']" "queue_key demo_cfg = ''restore:queue''"
    "job_state ''restore:job:b'' demo_queue = ''RESTORING''"
    by (simp_all add: demo_queue_def demo_cfg_def lrange_all_def job_state_def hgetall_def hfield_def)
  note eff = drain_leaves_nothing_pending [OF d]
  from eff have "hgetall ''restore:job:b'' t = hgetall ''restore:job:b'' demo_queue \<or>
      job_state ''restore:job:b'' demo_queue \<in> {[], state_value PENDING}" by blast
  then have "hgetall ''restore:job:b'' t = hgetall ''restore:job:b'' demo_queue"
    unfolding q(3) by simp
  with eff q d show ?thesis by (simp add: job_state_def)
qed

text \<open>The purge deletes finished, expired jobs only. A hash that \<open>purge_expired_scan\<close> changed
  was in a terminal state with a last update at least the configured time ago, and it is gone;
  with expiry switched off nothing changes. (Log keys are not hashes of jobs.)\<close>

lemma purge_only_expired:
  assumes "purge_expired_scan E C n s = (purged, t)" "\<not> endswith (job_log_suffix C) k"
  shows "hgetall k t = hgetall k s \<or>
    0 < job_ttl_sec C \<and> purgeable (now E s - of_int (job_ttl_sec C)) (hgetall k s) \<and> hgetall k t = []"
  using assms purge_fold_hash
  by (force simp: purge_expired_scan_def Let_def split: if_splits)

text \<open>
  Pages cover a listing: with a page size the endpoint accepts, the pages in order concatenate to the
  whole listing, and a page says that there are more exactly when the next page is not empty.
\<close>

lemma pages_cover:
  assumes "1 \<le> limit" "limit \<le> 500" "int (length items) \<le> int k * limit"
  shows "concat (map (\<lambda>i. pg_items (paginate items (int i * limit) limit)) [0..<k]) = items \<and>
    (\<forall>i. pg_has_more (paginate items (int i * limit) limit) \<longleftrightarrow>
       pg_items (paginate items (int (Suc i) * limit) limit) \<noteq> [])"
proof (intro conjI allI)
  let ?l = "nat limit"
  have l: "limit = int ?l" "0 < ?l" using assms(1) by simp_all
  have items: "pg_items (paginate items (int i * limit) limit) = take ?l (drop (i * ?l) items)" for i
    using assms(1,2) by (simp add: paginate_def Let_def nat_mult_distrib)
  have "concat (map (\<lambda>i. take ?l (drop (i * ?l) items)) [0..<k]) = take (k * ?l) items"
    by (rule pages_join [OF l(2)])
  moreover have "length items \<le> k * ?l" using assms(3) l by (metis of_nat_le_iff of_nat_mult)
  ultimately show "concat (map (\<lambda>i. pg_items (paginate items (int i * limit) limit)) [0..<k]) = items"
    by (simp add: items)
  show "pg_has_more (paginate items (int i * limit) limit) \<longleftrightarrow>
       pg_items (paginate items (int (Suc i) * limit) limit) \<noteq> []" for i
  proof -
    have "int i * limit + limit = int (Suc i * ?l)" using l(1) by (metis of_nat_Suc of_nat_mult
          distrib_right mult_1 add.commute)
    moreover have "max 0 (int i * limit) = int i * limit" "max 1 (min 500 limit) = limit"
      using assms(1,2) by simp_all
    ultimately have "pg_has_more (paginate items (int i * limit) limit) \<longleftrightarrow> Suc i * ?l < length items"
      by (simp only: paginate_def Let_def page.select_convs of_nat_less_iff)
    then show ?thesis unfolding items using l(2) by auto
  qed
qed

end
