(* ===== verification/Concurrency.thy ===== *)
theory Concurrency
  imports Jobs
begin

text \<open>
  \<open>concurrency.py\<close>: the counter of restore slots that several worker processes share, first
  as functions on the store, then as a state machine in which the Redis commands of the
  workers interleave.
\<close>

subsection \<open>Slots on the store\<close>

definition slots_key :: "cfg \<Rightarrow> string" where
  "slots_key C = py_str (py_or (dget (redis_cfg C) ''concurrency_slots_key'') (PStr ''restore:concurrency:slots''))"

definition heartbeat_key :: "cfg \<Rightarrow> string" where
  "heartbeat_key C = py_str (py_or (dget (redis_cfg C) ''worker_heartbeat_key'') (PStr ''restore:worker:heartbeat''))"

definition max_concurrent :: "cfg \<Rightarrow> exn + int" where
  "max_concurrent C =
     res_bind (py_int (py_or (dget_or (worker_cfg C) ''max_concurrent_restores'' (PInt 2)) (PInt 2)))
       (\<lambda>n. Inr (max 1 n))"

text \<open>\<open>INCRBY\<close>: an absent key counts as 0, a value that is no integer is an error (\<open>None\<close>).\<close>

definition counter_value :: "string \<Rightarrow> 'x store_scheme \<Rightarrow> int option" where
  "counter_value key s = (case get_str key s of None \<Rightarrow> Some 0 | Some v \<Rightarrow> int_of_str v)"

definition incr_by :: "int \<Rightarrow> string \<Rightarrow> 'x store_scheme \<Rightarrow> int option \<times> 'x store_scheme" where
  "incr_by d key s =
     (case counter_value key s of
        None \<Rightarrow> (None, s)
      | Some n \<Rightarrow> (Some (n + d), set_str key (str_of_int (n + d)) s))"

definition active_slots :: "cfg \<Rightarrow> 'x store_scheme \<Rightarrow> int" where
  "active_slots C s =
     (case get_str (slots_key C) s of
        None \<Rightarrow> 0
      | Some v \<Rightarrow> if v = [] then 0 else (case int_of_str v of None \<Rightarrow> 0 | Some n \<Rightarrow> max 0 n))"

definition count_restoring_jobs :: "cfg \<Rightarrow> 'x store_scheme \<Rightarrow> int" where
  "count_restoring_jobs C s =
     int (length (filter (\<lambda>key. hfield (hgetall key s) ''state'' = ''RESTORING'') (job_keys C s)))"

definition reconcile_slots :: "cfg \<Rightarrow> 'x store_scheme \<Rightarrow> int \<times> 'x store_scheme" where
  "reconcile_slots C s =
     (let restoring = count_restoring_jobs C s
      in (restoring, set_str (slots_key C) (str_of_int restoring) s))"

definition slot_cap :: "cfg \<Rightarrow> int option \<Rightarrow> exn + int" where
  "slot_cap C limit = (case limit of None \<Rightarrow> max_concurrent C | Some l \<Rightarrow> Inr (max 1 l))"

definition try_acquire_slot :: "cfg \<Rightarrow> int option \<Rightarrow> ('x store_scheme, bool) act" where
  "try_acquire_slot C limit =
     bind_act (res_act (slot_cap C limit)) (\<lambda>cap s.
       case incr_by 1 (slots_key C) s of
         (None, s1) \<Rightarrow> (Inr False, s1)
       | (Some n, s1) \<Rightarrow>
           if cap < n then (Inr False, snd (incr_by (- 1) (slots_key C) s1)) else (Inr True, s1))"

definition release_slot :: "cfg \<Rightarrow> 'x store_scheme \<Rightarrow> 'x store_scheme" where
  "release_slot C s =
     (case incr_by (- 1) (slots_key C) s of
        (None, s1) \<Rightarrow> s1
      | (Some n, s1) \<Rightarrow> if n < 0 then set_str (slots_key C) (str_of_int 0) s1 else s1)"

definition touch_worker_heartbeat ::
  "cfg \<Rightarrow> string \<Rightarrow> int \<Rightarrow> 'x store_scheme \<Rightarrow> string \<times> 'x store_scheme" where
  "touch_worker_heartbeat C token ttl_sec s =
     (token, expire (heartbeat_key C) (max 15 ttl_sec) (set_str (heartbeat_key C) token s))"

definition worker_heartbeat_ok :: "cfg \<Rightarrow> 'x store_scheme \<Rightarrow> bool" where
  "worker_heartbeat_ok C s \<longleftrightarrow> (case get_str (heartbeat_key C) s of None \<Rightarrow> False | Some v \<Rightarrow> v \<noteq> [])"

subsection \<open>Interleaved workers\<close>

text \<open>
  Where a worker stands: not holding a slot; between the \<open>INCR\<close> that went over the cap and
  the \<open>DECR\<close> that takes it back; holding a slot; between the \<open>DECR\<close> of a release that went
  below zero and the \<open>SET\<close> that repairs it. Every Redis command is one step.
\<close>

datatype worker_pc = Idle | Over | Holding | Below

type_synonym slots = "int \<times> (nat \<Rightarrow> worker_pc)"

inductive slot_step :: "int \<Rightarrow> slots \<Rightarrow> slots \<Rightarrow> bool" for cap :: int where
  acquire: "ws w = Idle \<Longrightarrow> n + 1 \<le> cap \<Longrightarrow> slot_step cap (n, ws) (n + 1, ws(w := Holding))"
| go_over: "ws w = Idle \<Longrightarrow> cap < n + 1 \<Longrightarrow> slot_step cap (n, ws) (n + 1, ws(w := Over))"
| back_off: "ws w = Over \<Longrightarrow> slot_step cap (n, ws) (n - 1, ws(w := Idle))"
| release: "ws w = Holding \<Longrightarrow> 0 \<le> n - 1 \<Longrightarrow> slot_step cap (n, ws) (n - 1, ws(w := Idle))"
| go_below: "ws w = Holding \<Longrightarrow> n - 1 < 0 \<Longrightarrow> slot_step cap (n, ws) (n - 1, ws(w := Below))"
| repair: "ws w = Below \<Longrightarrow> slot_step cap (n, ws) (0, ws(w := Idle))"

inductive_cases slot_stepE: "slot_step cap \<sigma> \<sigma>'"

inductive slots_reachable :: "int \<Rightarrow> slots \<Rightarrow> bool" for cap :: int where
  start: "slots_reachable cap (0, \<lambda>w. Idle)"
| step: "slots_reachable cap \<sigma> \<Longrightarrow> slot_step cap \<sigma> \<sigma>' \<Longrightarrow> slots_reachable cap \<sigma>'"

definition workers_at :: "worker_pc \<Rightarrow> (nat \<Rightarrow> worker_pc) \<Rightarrow> nat set" where
  "workers_at pc ws = {w. ws w = pc}"

text \<open>
  The invariant: the counter is exactly the workers holding a slot plus those about to back
  off, no worker ever sees a negative counter, and the holders respect the cap.
\<close>

definition slots_inv :: "int \<Rightarrow> slots \<Rightarrow> bool" where
  "slots_inv cap \<sigma> \<longleftrightarrow>
     (let (n, ws) = \<sigma> in
      finite (workers_at Holding ws) \<and> finite (workers_at Over ws) \<and> workers_at Below ws = {} \<and>
      n = int (card (workers_at Holding ws)) + int (card (workers_at Over ws)) \<and>
      int (card (workers_at Holding ws)) \<le> cap)"

lemma workers_at_upd:
  "workers_at pc (ws(w := pc')) = (if pc = pc' then insert w (workers_at pc ws) else workers_at pc ws - {w})"
  by (auto simp: workers_at_def)

lemma slots_inv_step:
  assumes "slots_inv cap \<sigma>" "slot_step cap \<sigma> \<sigma>'"
  shows "slots_inv cap \<sigma>'"
proof -
  have card_pos: "0 < card (workers_at pc ws)" if "finite (workers_at pc ws)" "ws w = pc" for pc ws and w :: nat
    using that by (auto simp: card_gt_0_iff workers_at_def)
  have not: "w \<notin> workers_at pc ws" if "ws w \<noteq> pc" for pc ws and w :: nat
    using that by (simp add: workers_at_def)
  have in': "w \<in> workers_at pc ws" if "ws w = pc" for pc ws and w :: nat
    using that by (simp add: workers_at_def)
  from assms(2,1) show ?thesis
  proof cases
    case (acquire ws w n)
    with assms(1) not [of ws w Holding] not [of ws w Over] show ?thesis
      by (simp add: slots_inv_def workers_at_upd)
  next
    case (go_over ws w n)
    with assms(1) not [of ws w Holding] not [of ws w Over] show ?thesis
      by (simp add: slots_inv_def workers_at_upd)
  next
    case (back_off ws w n)
    with assms(1) not [of ws w Holding] in' [of ws w Over] card_pos [of Over ws w] show ?thesis
      by (simp add: slots_inv_def workers_at_upd card_Diff_singleton of_nat_diff)
  next
    case (release ws w n)
    with assms(1) not [of ws w Over] in' [of ws w Holding] card_pos [of Holding ws w] show ?thesis
      by (simp add: slots_inv_def workers_at_upd card_Diff_singleton of_nat_diff)
  next
    case (go_below ws w n)
    with assms(1) card_pos [of Holding ws w] show ?thesis by (simp add: slots_inv_def)
  next
    case (repair ws w n)
    with assms(1) in' [of ws w Below] show ?thesis by (simp add: slots_inv_def)
  qed
qed

lemma slots_reachable_inv: "slots_reachable cap \<sigma> \<Longrightarrow> 0 \<le> cap \<Longrightarrow> slots_inv cap \<sigma>"
proof (induction rule: slots_reachable.induct)
  case start
  then show ?case by (simp add: slots_inv_def workers_at_def)
next
  case (step \<sigma> \<sigma>')
  then show ?case by (blast intro: slots_inv_step)
qed

subsection \<open>The functions are runs of the machine\<close>

lemma counter_value_set [simp]:
  "counter_value key (set_str key (str_of_int n) s) = Some n"
  by (simp add: counter_value_def get_set_str)

lemma incr_by_Some:
  "counter_value key s = Some n \<Longrightarrow> incr_by d key s = (Some (n + d), set_str key (str_of_int (n + d)) s)"
  by (simp add: incr_by_def)

lemma slot_cap_limit: "slot_cap C (Some l) = Inr (max 1 l)"
  by (simp add: slot_cap_def)

lemma max_concurrent_pos: "max_concurrent C = Inr n \<Longrightarrow> 1 \<le> n"
  by (auto simp: max_concurrent_def)

subsection \<open>Properties\<close>

text \<open>C13: the concurrency cap holds under every interleaving. However the workers' Redis
  commands interleave, from a counter of 0 with no slot held, the number of workers that hold
  a slot never exceeds the cap, the counter is the number of holders plus the workers that are
  about to take back an increment, and the repair of a negative counter is never needed.\<close>

theorem slots_never_exceed_cap:
  assumes "slots_reachable cap (n, ws)" "1 \<le> cap"
  shows "int (card (workers_at Holding ws)) \<le> cap \<and>
    n = int (card (workers_at Holding ws)) + int (card (workers_at Over ws)) \<and>
    workers_at Below ws = {}"
  using slots_reachable_inv [OF assms(1)] assms(2) by (simp add: slots_inv_def)

theorem slots_never_exceed_cap_witness:
  "slots_reachable 1 (2, (\<lambda>w. Idle)(7 := Holding, 8 := Over)) \<and>
   int (card (workers_at Holding ((\<lambda>w. Idle)(7 := Holding, 8 := Over)))) \<le> 1"
proof -
  have a: "slots_reachable 1 (1, (\<lambda>w. Idle)(7 := Holding))"
    using slots_reachable.step [OF slots_reachable.start slot_step.acquire [of "\<lambda>w. Idle" 7 0 1]] by simp
  have "slots_reachable 1 (2, (\<lambda>w. Idle)(7 := Holding, 8 := Over))"
    using slots_reachable.step [OF a slot_step.go_over [of "(\<lambda>w. Idle)(7 := Holding)" 8 1 1]] by simp
  with slots_never_exceed_cap [OF this] show ?thesis by simp
qed

text \<open>C14: the slot functions refine the machine. On a store whose counter reads \<open>n\<close>,
  \<open>try_acquire_slot\<close> performs the steps of an idle worker (one when there is room, the
  increment and its rollback when there is not) and reports \<open>True\<close> exactly when the worker
  then holds a slot; \<open>release_slot\<close> performs those of a holder and leaves it idle. Other keys
  are untouched.\<close>

theorem slot_functions_refine:
  assumes "slot_cap C limit = Inr cap" "counter_value (slots_key C) s = Some n"
  shows "(ws w = Idle \<longrightarrow> (\<exists>got t m. try_acquire_slot C limit s = (Inr got, t) \<and>
        counter_value (slots_key C) t = Some m \<and> (got \<longleftrightarrow> n < cap) \<and>
        (slot_step cap)\<^sup>*\<^sup>* (n, ws) (m, ws(w := if got then Holding else Idle)))) \<and>
    (ws w = Holding \<longrightarrow> (\<exists>m. counter_value (slots_key C) (release_slot C s) = Some m \<and>
        (slot_step cap)\<^sup>*\<^sup>* (n, ws) (m, ws(w := Idle)))) \<and>
    (\<forall>k. k \<noteq> slots_key C \<longrightarrow> get_str k (snd (try_acquire_slot C limit s)) = get_str k s \<and>
        get_str k (release_slot C s) = get_str k s)"
proof (intro conjI impI)
  let ?k = "slots_key C"
  note inc = incr_by_Some [OF assms(2)]
  have idle: "ws(w := Idle) = ws" if "ws w = Idle" using that by (rule fun_upd_idem)
  have acq: "try_acquire_slot C limit s =
      (if cap < n + 1 then (Inr False, snd (incr_by (- 1) ?k (set_str ?k (str_of_int (n + 1)) s)))
       else (Inr True, set_str ?k (str_of_int (n + 1)) s))"
    using assms(1) inc by (simp add: try_acquire_slot_def bind_act_def res_act_def)
  have undo: "snd (incr_by (- 1) ?k (set_str ?k (str_of_int (n + 1)) s)) =
      set_str ?k (str_of_int n) (set_str ?k (str_of_int (n + 1)) s)"
    by (simp add: incr_by_def)
  show "\<exists>got t m. try_acquire_slot C limit s = (Inr got, t) \<and>
        counter_value ?k t = Some m \<and> (got \<longleftrightarrow> n < cap) \<and>
        (slot_step cap)\<^sup>*\<^sup>* (n, ws) (m, ws(w := if got then Holding else Idle))"
    if w: "ws w = Idle"
  proof (cases "cap < n + 1")
    case True
    have "slot_step cap (n, ws) (n + 1, ws(w := Over))" using w True by (rule slot_step.go_over)
    moreover have "slot_step cap (n + 1, ws(w := Over)) (n, ws(w := Idle))"
      using slot_step.back_off [of "ws(w := Over)" w cap "n + 1"] by simp
    ultimately have "(slot_step cap)\<^sup>*\<^sup>* (n, ws) (n, ws(w := Idle))" by auto
    with True acq undo show ?thesis by auto
  next
    case False
    then have "slot_step cap (n, ws) (n + 1, ws(w := Holding))" using w by (intro slot_step.acquire) auto
    with False acq show ?thesis by auto
  qed
  show "\<exists>m. counter_value ?k (release_slot C s) = Some m \<and>
        (slot_step cap)\<^sup>*\<^sup>* (n, ws) (m, ws(w := Idle))" if w: "ws w = Holding"
  proof (cases "n - 1 < 0")
    case True
    have "slot_step cap (n, ws) (n - 1, ws(w := Below))" using w True by (rule slot_step.go_below)
    moreover have "slot_step cap (n - 1, ws(w := Below)) (0, ws(w := Idle))"
      using slot_step.repair [of "ws(w := Below)" w cap "n - 1"] by simp
    ultimately have "(slot_step cap)\<^sup>*\<^sup>* (n, ws) (0, ws(w := Idle))" by auto
    then show ?thesis using True inc by (auto simp: release_slot_def)
  next
    case False
    then have "slot_step cap (n, ws) (n - 1, ws(w := Idle))" using w by (intro slot_step.release) auto
    then show ?thesis using False inc by (auto simp: release_slot_def)
  qed
  show "\<forall>k. k \<noteq> ?k \<longrightarrow> get_str k (snd (try_acquire_slot C limit s)) = get_str k s \<and>
        get_str k (release_slot C s) = get_str k s"
    using inc undo by (auto simp: acq release_slot_def get_set_str)
qed

theorem slot_functions_refine_witness:
  "\<exists>t. try_acquire_slot demo_cfg (Some 1) empty_store = (Inr True, t)"
proof -
  have "slot_cap demo_cfg (Some 1) = Inr 1" "counter_value (slots_key demo_cfg) empty_store = Some 0"
    by (simp_all add: slot_cap_def counter_value_def get_str_def empty_store_def)
  from slot_functions_refine [OF this, of "\<lambda>w. Idle" 0] show ?thesis by auto
qed

end
