(* ===== verification/Worker.thy ===== *)
theory Worker
  imports QueueCtl Concurrency
begin

text \<open>
  \<open>worker.py\<close>: one restore job from the queue to a terminal state. The job is modelled as the
  phases of \<open>process_job\<close> in order: restore, ownership stamp, network isolation, power-on and
  checks (or the powered-off policy), completion. \<open>run_job\<close> adds the failure handling and the
  release of the concurrency slot.

  The progress metrics that the task poll writes are the argument \<open>metrics\<close>, a function of the
  call history (which determines the poll's local state) and of the new log lines. The wire
  compression estimate is an outside call whose answer carries its numbers formatted. The
  notification of a failed job has no effect on the state and is left out.
\<close>

subsection \<open>Job log and state\<close>

text \<open>A JSON string in ASCII\<close>

definition json_char :: "char \<Rightarrow> string" where
  "json_char c =
     (if c = CHR 0x22 \<or> c = CHR 0x5C then [CHR 0x5C, c]
      else if c = CHR 0x0A then [CHR 0x5C, CHR ''n'']
      else if c = CHR 0x0D then [CHR 0x5C, CHR ''r'']
      else if c = CHR 0x09 then [CHR 0x5C, CHR ''t'']
      else if c = CHR 0x08 then [CHR 0x5C, CHR ''b'']
      else if c = CHR 0x0C then [CHR 0x5C, CHR ''f'']
      else if (of_char c :: nat) < 32
        then [CHR 0x5C, CHR ''u'', CHR ''0'', CHR ''0'', hex_char (of_char c div 16), hex_char (of_char c mod 16)]
      else [c])"

definition json_str :: "string \<Rightarrow> string" where
  "json_str s = CHR 0x22 # concat (map json_char s) @ [CHR 0x22]"

definition json_object :: "(string \<times> string) list \<Rightarrow> string" where
  "json_object kvs =
     CHR 0x7B # join_on '', '' (map (\<lambda>(k, v). json_str k @ '': '' @ json_str v) kvs) @ [CHR 0x7D]"

definition job_log_key :: "cfg \<Rightarrow> string \<Rightarrow> string" where
  "job_log_key C job_id = job_key C job_id @ job_log_suffix C"

definition append_log ::
  "env \<Rightarrow> cfg \<Rightarrow> string \<Rightarrow> string \<Rightarrow> string \<Rightarrow> string \<Rightarrow> ('x store_scheme, unit) act" where
  "append_log E C job_id level stage message =
     upd_act (\<lambda>s. rpush (job_log_key C job_id)
       (json_object [(''ts'', utc_now_iso E s), (''level'', level), (''stage'', stage), (''message'', message)]) s)"

definition set_state ::
  "env \<Rightarrow> cfg \<Rightarrow> string \<Rightarrow> restore_state \<Rightarrow> hash \<Rightarrow> ('x store_scheme, unit) act" where
  "set_state E C job_id state extra =
     upd_act (\<lambda>s. apply_job_ttl C job_id (state_value state)
       (hset (job_key C job_id)
          ([(''state'', state_value state), (''updated_at'', utc_now_iso E s)] @ extra) s))"

text \<open>The flag is the one in the hash, or set meanwhile by the API process.\<close>

definition cancel_requested :: "env \<Rightarrow> cfg \<Rightarrow> string \<Rightarrow> 'x store_scheme \<Rightarrow> bool" where
  "cancel_requested E C job_id s \<longleftrightarrow>
     map_of (hgetall (job_key C job_id) s) ''cancel_requested'' = Some ''1'' \<or> cancel_by E (calls s) job_id"

definition mark_cancelled :: "env \<Rightarrow> cfg \<Rightarrow> string \<Rightarrow> ('x store_scheme, unit) act" where
  "mark_cancelled E C job_id =
     bind_act (set_state E C job_id CANCELLED []) (\<lambda>_.
       append_log E C job_id ''INFO'' ''CANCELLED'' ''Job cancelled by operator'')"

text \<open>\<open>r.hset(key, mapping={..., "updated_at": utc_now_iso()})\<close>\<close>

definition note_fields :: "env \<Rightarrow> cfg \<Rightarrow> string \<Rightarrow> hash \<Rightarrow> ('x store_scheme, unit) act" where
  "note_fields E C job_id m =
     upd_act (\<lambda>s. hset (job_key C job_id) (m @ [(''updated_at'', utc_now_iso E s)]) s)"

definition task_timeout_sec :: "cfg \<Rightarrow> rat" where
  "task_timeout_sec C = py_float_or (py_or (dget_or (worker_cfg C) ''task_timeout_sec'' (PInt 0)) (PInt 0)) 0"

definition task_poll_sec :: "cfg \<Rightarrow> exn + rat" where
  "task_poll_sec C = py_float (dget_or (worker_cfg C) ''task_poll_interval_sec'' (PInt 3))"

subsection \<open>The fields a job is run from\<close>

record job_fields =
  jf_node :: string
  jf_vmid :: int
  jf_backup_id :: string
  jf_storage :: string
  jf_live :: bool
  jf_bwlimit :: int
  jf_unique :: bool
  jf_force :: bool
  jf_mode :: string
  jf_archive :: string

definition hneed :: "hash \<Rightarrow> string \<Rightarrow> exn + string" where
  "hneed h k = (case map_of h k of None \<Rightarrow> Inl (KeyError k) | Some v \<Rightarrow> Inr v)"

definition hget_or :: "hash \<Rightarrow> string \<Rightarrow> string \<Rightarrow> string" where
  "hget_or h k d = (case map_of h k of None \<Rightarrow> d | Some v \<Rightarrow> v)"

definition hint_or_zero :: "hash \<Rightarrow> string \<Rightarrow> int" where
  "hint_or_zero h k = py_int_or (field_or_zero h k) 0"

definition parse_job :: "string \<Rightarrow> hash \<Rightarrow> exn + job_fields" where
  "parse_job job_id data =
     res_bind (hneed data ''proxmox_node'') (\<lambda>node.
     res_bind (res_bind (hneed data ''proxmox_vmid'') (\<lambda>v. py_int (PStr v))) (\<lambda>vmid.
     res_bind (hneed data ''backup_id'') (\<lambda>backup_id.
     res_bind (hneed data ''proxmox_storage'') (\<lambda>storage.
     if hfield data ''archive'' = [] then
       Inl (RuntimeError (''Job '' @ job_id @ '' has no archive volid stored''))
     else Inr \<lparr>jf_node = node, jf_vmid = vmid, jf_backup_id = backup_id, jf_storage = storage,
               jf_live = (hget_or data ''live_restore'' ''0'' = ''1''),
               jf_bwlimit = hint_or_zero data ''bwlimit'',
               jf_unique = (hget_or data ''unique'' ''1'' \<noteq> ''0''),
               jf_force = (hget_or data ''force'' ''1'' \<noteq> ''0''),
               jf_mode = lower (strip (or_default (hfield data ''restore_mode'') ''normal'')),
               jf_archive = hfield data ''archive''\<rparr>))))"

definition job_qga_wait :: "hash \<Rightarrow> int" where
  "job_qga_wait data = max 0 (hint_or_zero data ''qga_wait_sec'')"

definition job_power_on :: "job_fields \<Rightarrow> hash \<Rightarrow> bool" where
  "job_power_on J data \<longleftrightarrow>
     hget_or data ''power_on'' ''0'' = ''1'' \<or> jf_live J \<or> 0 < job_qga_wait data"

definition job_net_mode :: "hash \<Rightarrow> string" where
  "job_net_mode data = lower (strip (or_default (hfield data ''network_mode'') ''none''))"

definition job_lab_bridge :: "hash \<Rightarrow> string" where
  "job_lab_bridge data = strip (hfield data ''lab_bridge'')"

subsection \<open>Restore\<close>

definition wire_field :: "pyval \<Rightarrow> string \<Rightarrow> string" where
  "wire_field est f = (case est of PDict d \<Rightarrow> str_or_empty (dget d f) | _ \<Rightarrow> [])"

definition wire_phase :: "env \<Rightarrow> cfg \<Rightarrow> string \<Rightarrow> string \<Rightarrow> ('x store_scheme, unit) act" where
  "wire_phase E C job_id backup_id =
     bind_act (call E (WireEstimate backup_id)) (\<lambda>est.
       if est \<noteq> PNone then
         bind_act (note_fields E C job_id
             [(''wire_compression_ratio'', wire_field est ''ratio_6f''),
              (''wire_sample_chunks'', wire_field est ''samples''),
              (''disk_sparsity_ratio'', wire_field est ''sparsity_6f''),
              (''disk_nonzero_chunks'', wire_field est ''nonzero''),
              (''disk_total_chunks'', wire_field est ''total'')]) (\<lambda>_.
           append_log E C job_id ''INFO'' ''RESTORING''
             (''Wire sample '' @ [CHR 0xE2, CHR 0x89, CHR 0x88] @ '' compression '' @
              wire_field est ''ratio_2f'' @ '', sparsity '' @ wire_field est ''sparsity_2f'' @ '' ('' @
              wire_field est ''nonzero'' @ ''/'' @ wire_field est ''total'' @ '' non-zero chunks, '' @
              wire_field est ''samples'' @ '' sampled)''))
       else append_log E C job_id ''WARN'' ''RESTORING''
              ''Wire compression sample unavailable; showing logical non-zero rates'')"

text \<open>What \<open>on_tick\<close> writes on each poll with new log lines\<close>

definition on_tick ::
  "env \<Rightarrow> cfg \<Rightarrow> (ext_call list \<Rightarrow> string list \<Rightarrow> hash) \<Rightarrow> string \<Rightarrow> dict \<Rightarrow> string list \<Rightarrow>
     ('x store_scheme, unit) act" where
  "on_tick E C metrics job_id status new_lines =
     (if new_lines = [] then ret_act ()
      else (\<lambda>s. note_fields E C job_id (metrics (calls s) new_lines) s))"

definition cancel_flag :: "env \<Rightarrow> cfg \<Rightarrow> string \<Rightarrow> ('x store_scheme, bool) act" where
  "cancel_flag E C job_id = get_act (cancel_requested E C job_id)"

text \<open>
  A wait in a job: cancelled is \<open>False\<close> after the log entry that the caller makes, a timeout
  becomes a \<open>RuntimeError\<close>.
\<close>

definition guarded_wait ::
  "env \<Rightarrow> cfg \<Rightarrow> string \<Rightarrow> string \<Rightarrow> (string \<Rightarrow> ('x store_scheme, unit) act) \<Rightarrow>
     ('x store_scheme, 'a) act \<Rightarrow> ('x store_scheme, 'a option) act" where
  "guarded_wait E C job_id cancelled_msg on_timeout m = (\<lambda>s.
     case m s of
       (Inr x, s1) \<Rightarrow> (Inr (Some x), s1)
     | (Inl e, s1) \<Rightarrow>
         (case e of
            TaskCancelled msg \<Rightarrow>
              bind_act (mark_cancelled E C job_id) (\<lambda>_.
              bind_act (append_log E C job_id ''INFO'' ''CANCELLED'' cancelled_msg) (\<lambda>_.
              ret_act None)) s1
          | TimeoutError msg \<Rightarrow>
              bind_act (on_timeout msg) (\<lambda>_. raise_act (RuntimeError msg)) s1
          | _ \<Rightarrow> (Inl e, s1)))"

definition restore_phase ::
  "env \<Rightarrow> cfg \<Rightarrow> (ext_call list \<Rightarrow> string list \<Rightarrow> hash) \<Rightarrow> string \<Rightarrow> job_fields \<Rightarrow>
     ('x store_scheme, rat option) act" where
  "restore_phase E C metrics job_id J =
     bind_act (set_state E C job_id RESTORING [(''progress'', ''5'')]) (\<lambda>_.
     bind_act (append_log E C job_id ''INFO'' ''RESTORING''
        (''Submitting '' @ jf_mode J @ '' restore for '' @ jf_backup_id J @ '' -> VMID '' @
         str_of_int (jf_vmid J) @ '' (unique='' @ flag (jf_unique J) @ '', force='' @
         flag (jf_force J) @ '', live='' @ flag (jf_live J) @ '')'')) (\<lambda>_.
     bind_act (wire_phase E C job_id (jf_backup_id J)) (\<lambda>_.
     bind_act (connect_proxmox E C) (\<lambda>_.
     bind_act (submit_restore E (jf_node J) (jf_vmid J) (jf_archive J) (jf_storage J) (jf_live J)
                 (Some (jf_bwlimit J)) (jf_unique J) (jf_force J)) (\<lambda>upid.
     bind_act (get_act (utc_now_iso E)) (\<lambda>started.
     bind_act (upd_act (hset (job_key C job_id)
        [(''pve_upid'', upid), (''progress'', ''15''), (''restore_started_at'', started),
         (''updated_at'', started), (''progress_samples'', ''0'')])) (\<lambda>_.
     bind_act (append_log E C job_id ''INFO'' ''RESTORING'' (''PVE task started: '' @ upid)) (\<lambda>_.
     bind_act (res_act (task_poll_sec C)) (\<lambda>poll.
     bind_act (guarded_wait E C job_id (''PVE restore task '' @ upid @ '' stopped'') (\<lambda>_. ret_act ())
         (wait_for_task E (jf_node J) upid poll (task_timeout_sec C) (cancel_flag E C job_id)
            (on_tick E C metrics job_id))) (\<lambda>done.
     ret_act (map_option (\<lambda>_. poll) done)))))))))))"

subsection \<open>Ownership stamp\<close>

text \<open>Attempts 1 to 3; the result is the last error, if all failed.\<close>

fun stamp_attempts ::
  "env \<Rightarrow> cfg \<Rightarrow> string \<Rightarrow> job_fields \<Rightarrow> string \<Rightarrow> int list \<Rightarrow> exn option \<Rightarrow>
     ('x store_scheme, exn option) act" where
  "stamp_attempts E C job_id J plan_run_id [] err = ret_act err"
| "stamp_attempts E C job_id J plan_run_id (attempt # attempts) err = (\<lambda>s.
     case mark_qemu_managed_by_tool E (jf_node J) (jf_vmid J) job_id plan_run_id s of
       (Inr _, s1) \<Rightarrow>
         bind_act (note_fields E C job_id [(''managed_marked'', ''1'')]) (\<lambda>_.
         bind_act (append_log E C job_id ''INFO'' ''RESTORING''
            (''Marked VMID '' @ str_of_int (jf_vmid J) @ '' as restore-engine managed'')) (\<lambda>_.
         ret_act None)) s1
     | (Inl e, s1) \<Rightarrow>
         bind_act (append_log E C job_id ''WARN'' ''RESTORING''
            (''Ownership stamp attempt '' @ str_of_int attempt @ ''/3 failed for VMID '' @
             str_of_int (jf_vmid J) @ '': '' @ exn_str e)) (\<lambda>_.
         bind_act (sleep (min (2 * of_int attempt) 5)) (\<lambda>_.
         stamp_attempts E C job_id J plan_run_id attempts (Some e))) s1)"

definition stamp_phase ::
  "env \<Rightarrow> cfg \<Rightarrow> string \<Rightarrow> job_fields \<Rightarrow> string \<Rightarrow> ('x store_scheme, unit) act" where
  "stamp_phase E C job_id J plan_run_id =
     bind_act (stamp_attempts E C job_id J plan_run_id [1, 2, 3] None) (\<lambda>err.
       case err of
         None \<Rightarrow> ret_act ()
       | Some e \<Rightarrow>
           bind_act (note_fields E C job_id [(''managed_marked'', ''0'')]) (\<lambda>_.
           raise_act (RuntimeError (''Failed to stamp ownership marker on VMID '' @
             str_of_int (jf_vmid J) @ '' after retries: '' @ exn_str e @
             ''. Guest was restored but is unmarked '' @ em_dash @
             '' reclaim/teardown will refuse it until tagged '' @ repr_str MANAGED_TAG @
             '' manually or the guest is removed in Proxmox.''))))"

subsection \<open>Network isolation\<close>

definition isolate_phase ::
  "env \<Rightarrow> cfg \<Rightarrow> string \<Rightarrow> job_fields \<Rightarrow> hash \<Rightarrow> ('x store_scheme, unit) act" where
  "isolate_phase E C job_id J data =
     (let net_mode = job_net_mode data; lab_bridge = job_lab_bridge data in
      if net_mode \<notin> {''unlink'', ''remap''} then ret_act ()
      else bind_act (append_log E C job_id ''INFO'' ''RESTORING''
             (''Applying network isolation mode='' @ net_mode @
              (if lab_bridge \<noteq> [] then '' bridge='' @ lab_bridge else []))) (\<lambda>_.
           catch_act
             (bind_act (apply_network_isolation E (jf_node J) (jf_vmid J) net_mode lab_bridge) (\<lambda>changed.
                append_log E C job_id ''INFO'' ''RESTORING''
                  (''Network isolation updated: '' @
                   or_default (join_on '', '' changed) ''no net devices'')))
             (\<lambda>e. raise_act (RuntimeError (''Network isolation failed for VMID '' @
                str_of_int (jf_vmid J) @ '': '' @ exn_str e)))))"

subsection \<open>Power-on, guest checks\<close>

definition or_dash :: "string \<Rightarrow> string" where
  "or_dash s = or_default s em_dash"

definition quoted :: "string \<Rightarrow> string" where
  "quoted s = CHR 0x27 # s @ [CHR 0x27]"

definition hostname_fields :: "string \<Rightarrow> string option \<Rightarrow> hash" where
  "hostname_fields pve_name guest_host =
     [(''pve_name'', pve_name),
      (''guest_hostname'', (case guest_host of None \<Rightarrow> [] | Some h \<Rightarrow> h)),
      (''hostname_match'', (case guest_host of
           None \<Rightarrow> []
         | Some h \<Rightarrow> flag (pve_name \<noteq> [] \<and> hostname_matches_pve_name h pve_name))),
      (''hostname_warning'', (case guest_host of
           None \<Rightarrow> []
         | Some h \<Rightarrow> if pve_name \<noteq> [] \<and> hostname_matches_pve_name h pve_name then []
                    else ''Guest hostname '' @ quoted h @ '' does not match PVE name '' @
                         quoted (or_dash pve_name)))]"

definition hostname_log :: "string \<Rightarrow> string option \<Rightarrow> string \<times> string" where
  "hostname_log pve_name guest_host =
     (case guest_host of
        None \<Rightarrow> (''INFO'', ''Guest hostname unavailable via QGA (PVE name='' @ or_dash pve_name @ '')'')
      | Some h \<Rightarrow>
          if pve_name \<noteq> [] \<and> hostname_matches_pve_name h pve_name
          then (''INFO'', ''Guest hostname '' @ quoted h @ '' matches PVE name '' @ quoted pve_name)
          else (''WARN'', ''Guest hostname '' @ quoted h @ '' does not match PVE name '' @
                  quoted (or_dash pve_name)))"

definition check_guest_hostname ::
  "env \<Rightarrow> cfg \<Rightarrow> string \<Rightarrow> string \<Rightarrow> int \<Rightarrow> ('x store_scheme, unit) act" where
  "check_guest_hostname E C job_id node vmid =
     bind_act
       (catch_act
          (bind_act (get_qemu_config E node vmid) (\<lambda>cfg. ret_act (strip (str_or_empty (dget cfg ''name'')))))
          (\<lambda>e. bind_act (append_log E C job_id ''WARN'' ''RESTORING''
                  (''Could not read PVE name for VMID '' @ str_of_int vmid @ '': '' @ exn_str e))
                 (\<lambda>_. ret_act [])))
       (\<lambda>pve_name.
     bind_act (get_qemu_guest_hostname E node vmid) (\<lambda>guest_host.
     bind_act (note_fields E C job_id (hostname_fields pve_name guest_host)) (\<lambda>_.
     append_log E C job_id (fst (hostname_log pve_name guest_host)) ''RESTORING''
       (snd (hostname_log pve_name guest_host)))))"

text \<open>\<open>f"{waited:.1f}"\<close> of a duration\<close>

definition fixed1 :: "rat \<Rightarrow> string" where
  "fixed1 x = (let n = round_half_even (10 * x)
               in str_of_int (n div 10) @ ''.'' @ str_of_int (n mod 10))"

definition start_phase ::
  "env \<Rightarrow> cfg \<Rightarrow> string \<Rightarrow> job_fields \<Rightarrow> rat \<Rightarrow> ('x store_scheme, bool) act" where
  "start_phase E C job_id J poll =
     bind_act (append_log E C job_id ''INFO'' ''RESTORING''
        (''Starting VMID '' @ str_of_int (jf_vmid J) @ '' after restore'')) (\<lambda>_.
     bind_act (catch_act (start_qemu_vm E (jf_node J) (jf_vmid J)) (\<lambda>e.
        raise_act (RuntimeError (''Failed to start VMID '' @ str_of_int (jf_vmid J) @ '': '' @ exn_str e))))
       (\<lambda>start_upid.
     bind_act
       (case start_upid of
          None \<Rightarrow> ret_act True
        | Some u \<Rightarrow>
            bind_act (guarded_wait E C job_id ''VM start cancelled'' (\<lambda>_. ret_act ())
                (wait_for_task E (jf_node J) u poll (task_timeout_sec C) (cancel_flag E C job_id)
                   (\<lambda>d ls. ret_act ())))
              (\<lambda>done. ret_act (done \<noteq> None)))
       (\<lambda>go_on.
     if \<not> go_on then ret_act False
     else bind_act (note_fields E C job_id [(''powered_off'', ''0'')]) (\<lambda>_. ret_act True))))"

definition agent_phase ::
  "env \<Rightarrow> cfg \<Rightarrow> string \<Rightarrow> job_fields \<Rightarrow> int \<Rightarrow> rat \<Rightarrow> ('x store_scheme, bool) act" where
  "agent_phase E C job_id J qga poll =
     (if 0 < qga then
        bind_act (append_log E C job_id ''INFO'' ''RESTORING''
           (''Waiting up to '' @ str_of_int qga @ ''s for QEMU guest agent on VMID '' @
            str_of_int (jf_vmid J))) (\<lambda>_.
        bind_act (guarded_wait E C job_id ''QGA wait cancelled''
             (\<lambda>_. note_fields E C job_id [(''qga_ok'', ''0''), (''qga_waited_sec'', str_of_int qga)])
             (wait_for_qemu_agent E (jf_node J) (jf_vmid J) (of_int qga) (min 5 (max 1 poll))
                (cancel_flag E C job_id))) (\<lambda>waited.
        case waited of
          None \<Rightarrow> ret_act False
        | Some w \<Rightarrow>
            bind_act (note_fields E C job_id [(''qga_ok'', ''1''), (''qga_waited_sec'', fixed1 w)]) (\<lambda>_.
            bind_act (append_log E C job_id ''INFO'' ''RESTORING''
               (''QEMU guest agent OK after '' @ fixed1 w @ ''s'')) (\<lambda>_.
            bind_act (check_guest_hostname E C job_id (jf_node J) (jf_vmid J)) (\<lambda>_. ret_act True)))))
      else bind_act (check_guest_hostname E C job_id (jf_node J) (jf_vmid J)) (\<lambda>_. ret_act True))"

definition http_phase :: "env \<Rightarrow> cfg \<Rightarrow> string \<Rightarrow> string \<Rightarrow> ('x store_scheme, unit) act" where
  "http_phase E C job_id http_url =
     (if http_url = [] then ret_act ()
      else bind_act (append_log E C job_id ''INFO'' ''RESTORING'' (''HTTP check '' @ http_url)) (\<lambda>_.
        catch_act
          (bind_act (call E (HttpGet http_url)) (\<lambda>resp.
           bind_act (res_act (py_int resp)) (\<lambda>code.
           bind_act (when_act (400 \<le> code)
              (raise_act (RuntimeError (''HTTP check returned '' @ str_of_int code)))) (\<lambda>_.
           bind_act (note_fields E C job_id [(''http_check_ok'', ''1'')]) (\<lambda>_.
           append_log E C job_id ''INFO'' ''RESTORING'' (''HTTP check OK ('' @ str_of_int code @ '')''))))))
          (\<lambda>e. bind_act (note_fields E C job_id [(''http_check_ok'', ''0'')]) (\<lambda>_.
             raise_act (RuntimeError (''HTTP check failed: '' @ exn_str e))))))"

definition power_phase ::
  "env \<Rightarrow> cfg \<Rightarrow> string \<Rightarrow> job_fields \<Rightarrow> hash \<Rightarrow> rat \<Rightarrow> ('x store_scheme, bool) act" where
  "power_phase E C job_id J data poll =
     (if job_power_on J data then
        bind_act (if \<not> jf_live J then start_phase E C job_id J poll else ret_act True) (\<lambda>go_on.
        if \<not> go_on then ret_act False
        else bind_act (agent_phase E C job_id J (job_qga_wait data) poll) (\<lambda>go_on.
          if \<not> go_on then ret_act False
          else bind_act (http_phase E C job_id (strip (hfield data ''http_check_url''))) (\<lambda>_.
            ret_act True)))
      else
        bind_act (stop_qemu_vm E (jf_node J) (jf_vmid J) 60) (\<lambda>_.
        bind_act (append_log E C job_id ''INFO'' ''RESTORING''
           (''Ensured VMID '' @ str_of_int (jf_vmid J) @ '' is powered off'')) (\<lambda>_.
        ret_act True)))"

subsection \<open>The job\<close>

definition run_phases ::
  "env \<Rightarrow> cfg \<Rightarrow> (ext_call list \<Rightarrow> string list \<Rightarrow> hash) \<Rightarrow> string \<Rightarrow> job_fields \<Rightarrow> hash \<Rightarrow>
     ('x store_scheme, unit) act" where
  "run_phases E C metrics job_id J data =
     bind_act (restore_phase E C metrics job_id J) (\<lambda>restored.
     case restored of
       None \<Rightarrow> ret_act ()
     | Some poll \<Rightarrow>
         bind_act (stamp_phase E C job_id J (hfield data ''plan_run_id'')) (\<lambda>_.
         bind_act (isolate_phase E C job_id J data) (\<lambda>_.
         bind_act (power_phase E C job_id J data poll) (\<lambda>go_on.
         if \<not> go_on then ret_act ()
         else bind_act (set_state E C job_id COMPLETED
                 [(''progress'', ''100''), (''eta_sec'', ''0''), (''speed_bps'', [])]) (\<lambda>_.
              append_log E C job_id ''INFO'' ''COMPLETED''
                (''Restore completed for VMID '' @ str_of_int (jf_vmid J)))))))"

definition process_job ::
  "env \<Rightarrow> cfg \<Rightarrow> (ext_call list \<Rightarrow> string list \<Rightarrow> hash) \<Rightarrow> string \<Rightarrow> ('x store_scheme, unit) act" where
  "process_job E C metrics job_id = (\<lambda>s.
     let data = hgetall (job_key C job_id) s in
     if data = [] then (Inr (), s)
     else if cancel_requested E C job_id s then mark_cancelled E C job_id s
     else bind_act (res_act (parse_job job_id data))
            (\<lambda>J. run_phases E C metrics job_id J data) s)"

text \<open>\<open>run_job\<close>: the slot is released in the \<open>finally\<close> block, whatever happened.\<close>

definition run_job ::
  "env \<Rightarrow> cfg \<Rightarrow> (ext_call list \<Rightarrow> string list \<Rightarrow> hash) \<Rightarrow> string \<Rightarrow> ('x store_scheme, unit) act" where
  "run_job E C metrics job_id =
     bind_act
       (catch_act (process_job E C metrics job_id) (\<lambda>e.
          bind_act (set_state E C job_id FAILED [(''error'', exn_str e), (''progress'', ''0'')]) (\<lambda>_.
          append_log E C job_id ''ERROR'' ''FAILED'' (exn_str e))))
       (\<lambda>_. upd_act (release_slot C))"

subsection \<open>What a job may change\<close>

text \<open>
  \<open>job_rel C j F S s t\<close>: of Redis only the fields \<open>F\<close> of the hash of job \<open>j\<close>, its log and
  expiry times changed; the calls made are all in \<open>S\<close>.
\<close>

definition job_rel ::
  "cfg \<Rightarrow> string \<Rightarrow> string set \<Rightarrow> ext_call set \<Rightarrow> 'x store_scheme \<Rightarrow> 'x store_scheme \<Rightarrow> bool" where
  "job_rel C j F S s t \<longleftrightarrow>
     (\<forall>k. k \<noteq> job_key C j \<longrightarrow> map_of (hashes t) k = map_of (hashes s) k) \<and>
     (\<forall>f. f \<notin> F \<longrightarrow> map_of (hgetall (job_key C j) t) f = map_of (hgetall (job_key C j) s) f) \<and>
     (\<forall>k. k \<noteq> job_log_key C j \<longrightarrow> lrange_all k t = lrange_all k s) \<and>
     strs t = strs s \<and> uuids t = uuids s \<and> store.more t = store.more s \<and>
     (\<exists>cs. calls t = calls s @ cs \<and> set cs \<subseteq> S)"

interpretation job: state_preorder "job_rel C j F S :: 'x store_scheme \<Rightarrow> 'x store_scheme \<Rightarrow> bool"
  for C j F S
proof unfold_locales
  fix s t u :: "'x store_scheme"
  show "job_rel C j F S s s" by (auto simp: job_rel_def intro!: exI [of _ "[]"])
  assume st: "job_rel C j F S s t" and tu: "job_rel C j F S t u"
  from st obtain cs where cs: "calls t = calls s @ cs" "set cs \<subseteq> S" by (auto simp: job_rel_def)
  from tu obtain ds where ds: "calls u = calls t @ ds" "set ds \<subseteq> S" by (auto simp: job_rel_def)
  have "calls u = calls s @ (cs @ ds) \<and> set (cs @ ds) \<subseteq> S" using cs ds by simp
  then have "\<exists>cs. calls u = calls s @ cs \<and> set cs \<subseteq> S" by blast
  with st tu show "job_rel C j F S s u" by (simp add: job_rel_def)
qed

lemma job_rel_mono: "job_rel C j F S s t \<Longrightarrow> F \<subseteq> F' \<Longrightarrow> S \<subseteq> S' \<Longrightarrow> job_rel C j F' S' s t"
  unfolding job_rel_def by blast

lemma keeps_job_mono: "keeps (job_rel C j F S) m \<Longrightarrow> F \<subseteq> F' \<Longrightarrow> S \<subseteq> S' \<Longrightarrow> keeps (job_rel C j F' S') m"
  unfolding keeps_def by (blast intro: job_rel_mono)

lemma emits_job_rel: "emits_rel S s t \<Longrightarrow> job_rel C j F S s t"
  by (auto simp: emits_rel_def job_rel_def lrange_all_def hgetall_def)

lemma keeps_job_emits: "keeps (emits_rel S) m \<Longrightarrow> S \<subseteq> S' \<Longrightarrow> keeps (job_rel C j F S') m"
  unfolding keeps_def by (blast intro: job_rel_mono [OF emits_job_rel])

lemma keeps_job_extends: "keeps (job_rel C j F S) m \<Longrightarrow> keeps extends m"
  by (auto simp: keeps_def job_rel_def extends_def)

lemma keeps_job_call: "c \<in> S \<Longrightarrow> keeps (job_rel C j F S) (call E c)"
  by (intro keeps_job_emits [OF keeps_call]) auto

lemma keeps_job_sleep: "Sleep d \<in> S \<Longrightarrow> keeps (job_rel C j F S) (sleep d)"
  by (intro keeps_job_emits [OF keeps_sleep]) auto

lemma job_rel_hset: "fst ` set m \<subseteq> F \<Longrightarrow> job_rel C j F S s (hset (job_key C j) m s)"
proof -
  assume F: "fst ` set m \<subseteq> F"
  then have "map_of m f = None" if "f \<notin> F" for f
    using that by (auto simp: map_of_eq_None_iff)
  then show ?thesis by (auto simp: job_rel_def map_of_hashes_hset hgetall_hset intro!: exI [of _ "[]"])
qed

lemma keeps_append_log: "keeps (job_rel C j F S) (append_log E C j level stage msg)"
  unfolding append_log_def
  by (rule job.keeps_upd) (auto simp: job_rel_def lrange_rpush intro!: exI [of _ "[]"])

lemma keeps_note_fields:
  "fst ` set m \<subseteq> F \<Longrightarrow> ''updated_at'' \<in> F \<Longrightarrow> keeps (job_rel C j F S) (note_fields E C j m)"
  unfolding note_fields_def by (intro job.keeps_upd job_rel_hset) simp

lemma apply_job_ttl_frame [simp]:
  "hashes (apply_job_ttl C j st s) = hashes s" "rlists (apply_job_ttl C j st s) = rlists s"
  "strs (apply_job_ttl C j st s) = strs s" "uuids (apply_job_ttl C j st s) = uuids s" "calls (apply_job_ttl C j st s) = calls s"
  "store.more (apply_job_ttl C j st s) = store.more s"
  by (simp_all add: apply_job_ttl_def Let_def)

lemma keeps_set_state:
  assumes "{''state'', ''updated_at''} \<union> fst ` set extra \<subseteq> F"
  shows "keeps (job_rel C j F S) (set_state E C j st extra)"
  unfolding set_state_def
proof (rule job.keeps_upd)
  fix s :: "'x store_scheme"
  let ?s1 = "hset (job_key C j) ([(''state'', state_value st), (''updated_at'', utc_now_iso E s)] @ extra) s"
  have "job_rel C j F S s ?s1" using assms by (intro job_rel_hset) auto
  then show "job_rel C j F S s (apply_job_ttl C j (state_value st) ?s1)"
    by (simp add: job_rel_def lrange_all_def hgetall_def)
qed

lemma keeps_mark_cancelled:
  "{''state'', ''updated_at''} \<subseteq> F \<Longrightarrow> keeps (job_rel C j F S) (mark_cancelled E C j)"
  unfolding mark_cancelled_def by (intro job.keeps_bind keeps_set_state keeps_append_log) simp

lemma keeps_guarded_wait:
  assumes "keeps (job_rel C j F S) (m :: ('x store_scheme, 'a) act)" "\<And>msg. keeps (job_rel C j F S) (h msg)" "{''state'', ''updated_at''} \<subseteq> F"
  shows "keeps (job_rel C j F S) (guarded_wait E C j msg h m)"
proof (rule keepsI)
  fix s r and t :: "'x store_scheme"
  assume g: "guarded_wait E C j msg h m s = (r, t)"
  obtain r1 s1 where m: "m s = (r1, s1)" by (cases "m s")
  have s1: "job_rel C j F S s s1" by (rule keepsD [OF assms(1) m])
  have c: "keeps (job_rel C j F S) (bind_act (mark_cancelled E C j) (\<lambda>_.
              bind_act (append_log E C j ''INFO'' ''CANCELLED'' msg) (\<lambda>_. ret_act None)))"
    by (intro job.keeps_bind keeps_mark_cancelled keeps_append_log job.keeps_ret assms(3))
  have o: "keeps (job_rel C j F S) (bind_act (h msg') (\<lambda>_. raise_act (RuntimeError msg')))" for msg'
    by (intro job.keeps_bind assms(2) job.keeps_raise)
  have "job_rel C j F S s1 t"
    using g m keepsD [OF c] keepsD [OF o]
    by (auto simp: guarded_wait_def job.refl split: sum.splits exn.splits)
  with s1 show "job_rel C j F S s t" by (rule job.trans)
qed

lemma keeps_wait_for_task:
  assumes "keeps (job_rel C j F S) should_cancel" "\<And>d ls. keeps (job_rel C j F S) (tick d ls)"
    and "\<And>n l. TaskLog node upid n l \<in> S" "TaskStatus node upid \<in> S" "TaskDelete node upid \<in> S" "\<And>d. Sleep d \<in> S"
  shows "keeps (job_rel C j F S) (wait_for_task E node upid interval timeout should_cancel tick :: ('x store_scheme, dict) act)"
proof -
  have poll: "keeps (job_rel C j F S) (task_poll n E node upid interval timeout dl should_cancel tick off
      :: ('x store_scheme, dict) act)" for n dl off
  proof (induction n arbitrary: off)
    case (Suc n)
    have sleep: "keeps (job_rel C j F S) (bind_act (sleep interval) (\<lambda>_.
               task_poll n E node upid interval timeout dl should_cancel tick off) :: ('x store_scheme, dict) act)" for off
      by (intro job.keeps_bind keeps_job_sleep Suc assms)
    have stop: "keeps (job_rel C j F S) (stop_task E node upid)"
      by (rule keeps_job_emits [OF keeps_stop_task]) (simp add: assms)
    have log: "keeps (job_rel C j F S) (fetch_task_log E node upid off 80)" for off
      by (rule keeps_job_emits [OF keeps_fetch_task_log]) (simp add: assms)
    show ?case
      unfolding task_poll.simps
      by (rule keepsI, split if_split_asm, erule keepsD [rotated],
          intro job.keeps_bind job.keeps_if job.keeps_raise assms stop keeps_job_call)
        (auto split: pyval.splits intro!: sleep log job.keeps_bind job.keeps_catch assms job.keeps_if
          intro: job.refl)
  qed simp
  show ?thesis unfolding wait_for_task_def
    by (rule keepsI, erule keepsD [OF poll])
qed

subsection \<open>The calls of each phase\<close>

definition task_calls :: "string \<Rightarrow> ext_call set" where
  "task_calls node = range (TaskStatus node) \<union> {TaskLog node u n l |u n l. True} \<union>
     range (TaskDelete node) \<union> range Sleep"

definition restore_calls :: "string \<Rightarrow> ext_call set" where
  "restore_calls node = {Connect} \<union> range WireEstimate \<union> range (RestorePost node) \<union> task_calls node"

definition stamp_calls :: "string \<Rightarrow> int \<Rightarrow> ext_call set" where
  "stamp_calls node v = {ConfigGet node v} \<union> range (ConfigPut node v) \<union> range Sleep"

definition check_calls :: "string \<Rightarrow> int \<Rightarrow> ext_call set" where
  "check_calls node v = {ConfigGet node v} \<union> range (AgentPing node v) \<union> range (AgentHostname node v) \<union>
     range HttpGet \<union> range Sleep"

definition power_on_calls :: "string \<Rightarrow> int \<Rightarrow> ext_call set" where
  "power_on_calls node v = {StatusStart node v} \<union> task_calls node \<union> check_calls node v"

lemmas call_sets = task_calls_def restore_calls_def stamp_calls_def check_calls_def
  power_on_calls_def

lemma keeps_cancel_flag: "keeps (job_rel C j F S) (cancel_flag E C j)"
  unfolding cancel_flag_def by (rule job.keeps_get)

lemma keeps_on_tick: "keeps (job_rel C j UNIV S) (on_tick E C metrics j d ls)"
  unfolding on_tick_def
  by (intro job.keeps_if job.keeps_ret)
    (rule keepsI, erule keepsD [OF keeps_note_fields, rotated 2], simp_all)

lemma keeps_submit_restore: "keeps (emits_rel (range (RestorePost node)))
    (submit_restore E node v a st live bw uniq force)"
  unfolding submit_restore_def by (intro emits.keeps_bind keeps_call emits.keeps_res) simp

lemma keeps_restore_phase:
  "keeps (job_rel C j UNIV (restore_calls (jf_node J)))
     (restore_phase E C metrics j J :: ('x store_scheme, rat option) act)"
proof -
  let ?S = "restore_calls (jf_node J)"
  have wire: "keeps (job_rel C j UNIV ?S) (wire_phase E C j b :: ('x store_scheme, unit) act)" for b
    unfolding wire_phase_def
    by (intro job.keeps_bind keeps_job_call job.keeps_if keeps_note_fields keeps_append_log)
      (auto simp: call_sets)
  have con: "keeps (job_rel C j UNIV ?S) (connect_proxmox E C :: ('x store_scheme, unit) act)"
    by (rule keeps_job_emits [OF keeps_connect_proxmox]) (simp add: call_sets)
  have sub: "keeps (job_rel C j UNIV ?S) (submit_restore E (jf_node J) v a st live bw u f
      :: ('x store_scheme, string) act)" for v a st live bw u f
    by (rule keeps_job_emits [OF keeps_submit_restore]) (auto simp: call_sets)
  have wait: "keeps (job_rel C j UNIV ?S) (wait_for_task E (jf_node J) upid poll tmo
      (cancel_flag E C j) (on_tick E C metrics j) :: ('x store_scheme, dict) act)" for upid poll tmo
    by (intro keeps_wait_for_task keeps_cancel_flag keeps_on_tick) (auto simp: call_sets)
  show ?thesis
    unfolding restore_phase_def
    by (intro job.keeps_bind keeps_set_state keeps_append_log wire con sub job.keeps_get
        job.keeps_upd job_rel_hset job.keeps_res keeps_guarded_wait wait job.keeps_ret) simp_all
qed

lemma keeps_mark_qemu:
  "keeps (emits_rel (stamp_calls (strip node) v)) (mark_qemu_managed_by_tool E node v job run)"
  unfolding mark_qemu_managed_by_tool_def get_qemu_config_def Let_def
  by (intro emits.keeps_bind keeps_call emits.keeps_ret) (auto simp: stamp_calls_def)

lemma keeps_stamp_phase:
  "keeps (job_rel C j UNIV (stamp_calls (strip (jf_node J)) (jf_vmid J)))
     (stamp_phase E C j J run :: ('x store_scheme, unit) act)"
proof -
  let ?S = "stamp_calls (strip (jf_node J)) (jf_vmid J)"
  have att: "keeps (job_rel C j UNIV ?S) (stamp_attempts E C j J run ns err :: ('x store_scheme, exn option) act)"
    for ns err
  proof (induction ns arbitrary: err)
    case (Cons n ns)
    have mark: "keeps (job_rel C j UNIV ?S)
        (mark_qemu_managed_by_tool E (jf_node J) (jf_vmid J) j run :: ('x store_scheme, unit) act)"
      by (rule keeps_job_emits [OF keeps_mark_qemu]) simp
    have ok: "keeps (job_rel C j UNIV ?S)
        (bind_act (note_fields E C j [(''managed_marked'', ''1'')]) (\<lambda>_.
         bind_act (append_log E C j ''INFO'' ''RESTORING'' msg) (\<lambda>_. ret_act (None :: exn option)))
         :: ('x store_scheme, exn option) act)" for msg
      by (intro job.keeps_bind keeps_note_fields keeps_append_log job.keeps_ret) simp_all
    have again: "keeps (job_rel C j UNIV ?S)
        (bind_act (append_log E C j ''WARN'' ''RESTORING'' msg) (\<lambda>_.
         bind_act (sleep d) (\<lambda>_. stamp_attempts E C j J run ns (Some e)))
         :: ('x store_scheme, exn option) act)" for msg d e
      by (intro job.keeps_bind keeps_append_log keeps_job_sleep Cons) (simp add: call_sets)
    show ?case
      by (rule keepsI)
        (auto split: prod.splits sum.splits dest!: keepsD [OF mark] keepsD [OF ok] keepsD [OF again]
          intro: job.trans)
  qed simp
  show ?thesis
    unfolding stamp_phase_def
    by (intro job.keeps_bind att)
      (auto split: option.splits intro!: job.keeps_bind keeps_note_fields)
qed

text \<open>After the stamp no phase writes \<open>managed_marked\<close>.\<close>

abbreviation later_fields :: "string set" where
  "later_fields \<equiv> - {''managed_marked''}"

lemma keeps_apply_isolation:
  "keeps (emits_rel (stamp_calls node v)) (apply_network_isolation E node v mode bridge)"
  unfolding apply_network_isolation_def get_qemu_config_def Let_def
  by (intro emits.keeps_if emits.keeps_bind keeps_call emits.keeps_ret emits.keeps_res emits.keeps_when)
    (auto simp: stamp_calls_def)

lemma keeps_isolate_phase:
  "keeps (job_rel C j later_fields (stamp_calls (jf_node J) (jf_vmid J)))
     (isolate_phase E C j J data :: ('x store_scheme, unit) act)"
proof -
  have "keeps (job_rel C j later_fields (stamp_calls (jf_node J) (jf_vmid J)))
      (apply_network_isolation E (jf_node J) (jf_vmid J) mode br :: ('x store_scheme, string list) act)" for mode br
    by (rule keeps_job_emits [OF keeps_apply_isolation]) simp
  then show ?thesis
    unfolding isolate_phase_def Let_def
    by (intro job.keeps_if job.keeps_ret job.keeps_bind keeps_append_log job.keeps_catch job.keeps_raise)
qed

lemma keeps_agent_ping: "keeps (emits_rel (check_calls node v)) (qemu_agent_ping E node v)"
  unfolding qemu_agent_ping_def
  by (intro emits.keeps_catch emits.keeps_bind keeps_call emits.keeps_ret) (auto simp: check_calls_def)

lemma keeps_guest_hostname: "keeps (emits_rel (check_calls node v)) (get_qemu_guest_hostname E node v)"
  unfolding get_qemu_guest_hostname_def
  by (intro emits.keeps_catch emits.keeps_bind keeps_call emits.keeps_ret) (auto simp: check_calls_def)

lemma keeps_check_hostname:
  "keeps (job_rel C j later_fields (check_calls node v)) (check_guest_hostname E C j node v)"
proof -
  have host: "keeps (job_rel C j later_fields (check_calls node v)) (get_qemu_guest_hostname E node v)"
    by (rule keeps_job_emits [OF keeps_guest_hostname]) simp
  have get: "keeps (job_rel C j later_fields (check_calls node v)) (get_qemu_config E node v)"
    unfolding get_qemu_config_def
    by (intro job.keeps_bind keeps_job_call job.keeps_ret) (simp add: check_calls_def)
  show ?thesis
    unfolding check_guest_hostname_def
    by (intro job.keeps_bind job.keeps_catch get host job.keeps_ret keeps_append_log keeps_note_fields)
      (auto simp: hostname_fields_def)
qed

lemma keeps_agent_wait:
  assumes cancel: "keeps (job_rel C j F S) (sc :: ('x store_scheme, bool) act)"
    and S: "check_calls node v \<subseteq> S"
  shows "keeps (job_rel C j F S) (wait_for_qemu_agent E node v tmo i sc)"
proof -
  have ping: "keeps (job_rel C j F S) (qemu_agent_ping E node v :: ('x store_scheme, bool) act)"
    by (rule keeps_job_emits [OF keeps_agent_ping S])
  have poll: "keeps (job_rel C j F S) (agent_poll n E node v tmo i sc st dl)" for n st dl
  proof (induction n)
    case (Suc n)
    have again: "keeps (job_rel C j F S) (bind_act (sleep d) (\<lambda>_. agent_poll n E node v tmo i sc st dl))" for d
      by (intro job.keeps_bind keeps_job_sleep Suc) (use S in \<open>auto simp: check_calls_def\<close>)
    have step: "keeps (job_rel C j F S) (\<lambda>s. if up then (Inr (max 0 (now E s - st)), s)
         else if dl \<le> now E s then (Inl e, s)
         else bind_act (sleep d) (\<lambda>_. agent_poll n E node v tmo i sc st dl) s)" for up e d
      by (rule keepsI) (auto split: if_splits intro: job.refl dest: keepsD [OF again])
    show ?case
      unfolding agent_poll.simps
      by (intro job.keeps_bind cancel job.keeps_if job.keeps_raise ping step)
  qed simp
  show ?thesis unfolding wait_for_qemu_agent_def by (rule keepsI, erule keepsD [OF poll])
qed

lemma keeps_power_on:
  "keeps (job_rel C j later_fields (power_on_calls (jf_node J) (jf_vmid J)))
     (start_phase E C j J poll :: ('x store_scheme, bool) act)"
  "keeps (job_rel C j later_fields (power_on_calls (jf_node J) (jf_vmid J)))
     (agent_phase E C j J qga poll :: ('x store_scheme, bool) act)"
  "keeps (job_rel C j later_fields (power_on_calls (jf_node J) (jf_vmid J)))
     (http_phase E C j url :: ('x store_scheme, unit) act)"
proof -
  let ?S = "power_on_calls (jf_node J) (jf_vmid J)"
  have host: "keeps (job_rel C j later_fields ?S) (check_guest_hostname E C j (jf_node J) (jf_vmid J)
      :: ('x store_scheme, unit) act)"
    by (rule keeps_job_mono [OF keeps_check_hostname]) (auto simp: call_sets)
  have wait: "keeps (job_rel C j later_fields ?S) (wait_for_task E (jf_node J) u p tm (cancel_flag E C j)
      (\<lambda>d ls. ret_act ()) :: ('x store_scheme, dict) act)" for u p tm
    by (intro keeps_wait_for_task keeps_cancel_flag job.keeps_ret) (auto simp: call_sets)
  have agent: "keeps (job_rel C j later_fields ?S) (wait_for_qemu_agent E (jf_node J) (jf_vmid J) tm i
      (cancel_flag E C j) :: ('x store_scheme, rat) act)" for tm i
    by (intro keeps_agent_wait keeps_cancel_flag) (auto simp: call_sets)
  have start: "keeps (job_rel C j later_fields ?S) (start_qemu_vm E (jf_node J) (jf_vmid J)
      :: ('x store_scheme, string option) act)"
    unfolding start_qemu_vm_def
    by (intro job.keeps_bind keeps_job_call job.keeps_ret) (simp add: call_sets)
  show "keeps (job_rel C j later_fields ?S) (start_phase E C j J poll :: ('x store_scheme, bool) act)"
    unfolding start_phase_def
    by (intro job.keeps_bind keeps_append_log job.keeps_catch start job.keeps_raise job.keeps_if
        job.keeps_ret keeps_note_fields)
      (auto split: option.splits intro!: job.keeps_bind keeps_guarded_wait wait job.keeps_ret)
  show "keeps (job_rel C j later_fields ?S) (agent_phase E C j J qga poll :: ('x store_scheme, bool) act)"
    unfolding agent_phase_def
    by (intro job.keeps_bind keeps_append_log job.keeps_if host job.keeps_ret keeps_guarded_wait agent
        keeps_note_fields)
      (auto split: option.splits intro!: job.keeps_bind keeps_note_fields keeps_append_log host)
  show "keeps (job_rel C j later_fields ?S) (http_phase E C j url :: ('x store_scheme, unit) act)"
    unfolding http_phase_def
    by (intro job.keeps_if job.keeps_ret job.keeps_bind keeps_append_log job.keeps_catch
        keeps_job_call job.keeps_res job.keeps_when job.keeps_raise keeps_note_fields)
      (auto simp: call_sets)
qed

lemma stop_poll_no_delete:
  "keeps (emits_rel {StatusCurrent node v, Sleep 1}) (stop_poll n E node v d :: ('x store_scheme, unit) act)"
proof (induction n)
  case (Suc n)
  let ?S = "{StatusCurrent node v, Sleep 1}"
  have read: "keeps (emits_rel ?S)
      (bind_act (call E (StatusCurrent node v)) (\<lambda>raw. res_act (poll_status raw)) :: ('x store_scheme, string) act)"
    by (intro emits.keeps_bind keeps_call emits.keeps_res) simp
  have rec: "keeps (emits_rel ?S) (bind_act (sleep 1) (\<lambda>_. stop_poll n E node v d) :: ('x store_scheme, unit) act)"
    by (intro emits.keeps_bind keeps_sleep Suc) simp
  show ?case
    by (rule keepsI)
      (auto split: if_splits prod.splits sum.splits intro: emits.refl emits.trans
        dest!: keepsD [OF read] keepsD [OF rec])
qed simp

definition stop_calls :: "string \<Rightarrow> int \<Rightarrow> ext_call set" where
  "stop_calls node v = range (StatusStop node v) \<union> {StatusCurrent node v} \<union> range Sleep"

lemma keeps_stop_vm: "keeps (emits_rel (stop_calls (strip node) v)) (stop_qemu_vm E node v tmo)"
  unfolding stop_qemu_vm_def Let_def
  by (intro emits.keeps_bind emits.keeps_catch keeps_call emits.keeps_ret)
    (simp add: stop_calls_def,
     rule keepsI, erule keepsD [OF keeps_emits_mono [OF stop_poll_no_delete], rotated], auto simp: stop_calls_def)

lemma keeps_power_phase:
  "job_power_on J data \<Longrightarrow> keeps (job_rel C j later_fields (power_on_calls (jf_node J) (jf_vmid J)))
     (power_phase E C j J data poll :: ('x store_scheme, bool) act)"
  "\<not> job_power_on J data \<Longrightarrow> keeps (job_rel C j later_fields (stop_calls (strip (jf_node J)) (jf_vmid J)))
     (power_phase E C j J data poll :: ('x store_scheme, bool) act)"
proof -
  assume "job_power_on J data"
  then show "keeps (job_rel C j later_fields (power_on_calls (jf_node J) (jf_vmid J)))
     (power_phase E C j J data poll :: ('x store_scheme, bool) act)"
    unfolding power_phase_def
    by (intro job.keeps_if job.keeps_bind keeps_power_on job.keeps_ret) simp_all
next
  assume off: "\<not> job_power_on J data"
  have "keeps (job_rel C j later_fields (stop_calls (strip (jf_node J)) (jf_vmid J)))
      (stop_qemu_vm E (jf_node J) (jf_vmid J) 60 :: ('x store_scheme, unit) act)"
    by (rule keeps_job_emits [OF keeps_stop_vm]) simp
  with off show "keeps (job_rel C j later_fields (stop_calls (strip (jf_node J)) (jf_vmid J)))
     (power_phase E C j J data poll :: ('x store_scheme, bool) act)"
    unfolding power_phase_def
    by (intro job.keeps_if job.keeps_bind job.keeps_ret keeps_append_log) simp_all
qed

subsection \<open>How the phases end\<close>

lemma set_state_eval:
  "set_state E C j st extra s = (Inr (), t) \<Longrightarrow>
     map_of extra ''state'' = None \<Longrightarrow> job_state (job_key C j) t = state_value st"
  by (auto simp: set_state_def upd_act_def job_state_def hgetall_hset hgetall_def hset_def
      hfield_def)

lemma append_log_hash: "append_log E C j lv sg m s = (r, t) \<Longrightarrow> hashes t = hashes s \<and> r = Inr ()"
  by (auto simp: append_log_def upd_act_def)

lemma append_log_calls: "append_log E C j lv sg m s = (r, t) \<Longrightarrow> calls t = calls s"
  by (auto simp: append_log_def upd_act_def)

lemma job_state_hashes: "hashes t = hashes s \<Longrightarrow> job_state k t = job_state k s"
  by (simp add: job_state_def hgetall_def)

lemma set_state_ok: "\<exists>t. set_state E C j st extra s = (Inr (), t)"
  by (simp add: set_state_def upd_act_def)

lemma mark_cancelled_state:
  "mark_cancelled E C j s = (r, t) \<Longrightarrow> r = Inr () \<and> job_state (job_key C j) t = state_value CANCELLED"
proof -
  assume m: "mark_cancelled E C j s = (r, t)"
  obtain s1 where s1: "set_state E C j CANCELLED [] s = (Inr (), s1)" using set_state_ok by blast
  with m have "append_log E C j ''INFO'' ''CANCELLED'' ''Job cancelled by operator'' s1 = (r, t)"
    by (simp add: mark_cancelled_def bind_act_eval)
  from append_log_hash [OF this] set_state_eval [OF s1] show ?thesis
    using job_state_hashes by fastforce
qed

lemma guarded_wait_None:
  assumes "guarded_wait E C j msg h m s = (Inr None, t)"
  shows "job_state (job_key C j) t = state_value CANCELLED"
proof -
  obtain r1 s1 where m: "m s = (r1, s1)" by (cases "m s")
  from assms m have "\<exists>s2. mark_cancelled E C j s1 = (Inr (), s2) \<and>
      append_log E C j ''INFO'' ''CANCELLED'' msg s2 = (Inr (), t)"
    by (auto simp: guarded_wait_def bind_act_Inr_iff raise_act_def ret_act_def
        split: sum.splits exn.splits)
  then obtain s2 where c: "mark_cancelled E C j s1 = (Inr (), s2)"
    and l: "append_log E C j ''INFO'' ''CANCELLED'' msg s2 = (Inr (), t)" by blast
  from append_log_hash [OF l] have "job_state (job_key C j) t = job_state (job_key C j) s2"
    by (intro job_state_hashes) simp
  with mark_cancelled_state [OF c] show ?thesis by simp
qed

lemma restore_phase_None:
  assumes "restore_phase E C metrics j J s = (Inr None, t)"
  shows "job_state (job_key C j) t = state_value CANCELLED"
  using assms guarded_wait_None by (auto simp: restore_phase_def bind_act_Inr_iff ret_act_def)

lemma start_phase_False:
  assumes "start_phase E C j J poll s = (Inr False, t)"
  shows "job_state (job_key C j) t = state_value CANCELLED"
proof -
  from assms obtain u s1 where
    "(case u of
          None \<Rightarrow> ret_act True
        | Some u \<Rightarrow>
            bind_act (guarded_wait E C j ''VM start cancelled'' (\<lambda>_. ret_act ())
                (wait_for_task E (jf_node J) u poll (task_timeout_sec C) (cancel_flag E C j)
                   (\<lambda>d ls. ret_act ())))
              (\<lambda>done. ret_act (done \<noteq> None))) s1 = (Inr False, t)"
    by (auto simp: start_phase_def bind_act_Inr_iff [of _ _ _ "False"] ret_act_def
        simp: bind_act_Inr_iff [of "append_log E C j l g m" for l g m]
        bind_act_Inr_iff [of "catch_act m h" for m h]
        bind_act_Inr_iff [of "note_fields E C j m" for m] split: if_splits)
  then show ?thesis
    by (cases u) (auto simp: bind_act_Inr_iff ret_act_def dest: guarded_wait_None)
qed

lemma agent_phase_False:
  assumes "agent_phase E C j J qga poll s = (Inr False, t)"
  shows "job_state (job_key C j) t = state_value CANCELLED"
proof (cases "0 < qga")
  case True
  with assms obtain w s1 s2 where w: "guarded_wait E C j ''QGA wait cancelled''
       (\<lambda>_. note_fields E C j [(''qga_ok'', ''0''), (''qga_waited_sec'', str_of_int qga)])
       (wait_for_qemu_agent E (jf_node J) (jf_vmid J) (of_int qga) (min 5 (max 1 poll))
          (cancel_flag E C j)) s1 = (Inr w, s2)"
    and k: "w = None \<Longrightarrow> s2 = t" "w \<noteq> None \<Longrightarrow> False"
    by (auto simp: agent_phase_def bind_act_Inr_iff ret_act_def split: option.splits)
  then show ?thesis using guarded_wait_None by (cases w) auto
next
  case False
  with assms show ?thesis by (auto simp: agent_phase_def bind_act_Inr_iff ret_act_def)
qed

lemma power_phase_False:
  assumes "power_phase E C j J data poll s = (Inr False, t)"
  shows "job_state (job_key C j) t = state_value CANCELLED"
proof (cases "job_power_on J data")
  case True
  with assms obtain go s1 where g: "(if \<not> jf_live J then start_phase E C j J poll else ret_act True) s = (Inr go, s1)"
    and k: "(if \<not> go then ret_act False
        else bind_act (agent_phase E C j J (job_qga_wait data) poll) (\<lambda>go_on.
          if \<not> go_on then ret_act False
          else bind_act (http_phase E C j (strip (hfield data ''http_check_url''))) (\<lambda>_.
            ret_act True))) s1 = (Inr False, t)"
    by (auto simp: power_phase_def bind_act_Inr_iff [of "if b then m else n" for b m n])
  show ?thesis
  proof (cases go)
    case False
    with g k start_phase_False show ?thesis by (auto simp: ret_act_def split: if_splits)
  next
    case True
    with k agent_phase_False show ?thesis
      by (auto simp: bind_act_Inr_iff ret_act_def split: if_splits)
  qed
qed (use assms in \<open>auto simp: power_phase_def bind_act_Inr_iff ret_act_def\<close>)

text \<open>The run of the phases, one state after each\<close>

lemma run_phases_Inr:
  assumes "run_phases E C metrics j J data s = (Inr (), t)"
  obtains (cancelled) "job_state (job_key C j) t = state_value CANCELLED"
  | (completed) poll s1 s2 s3 s4 where "restore_phase E C metrics j J s = (Inr (Some poll), s1)"
      "stamp_phase E C j J (hfield data ''plan_run_id'') s1 = (Inr (), s2)"
      "isolate_phase E C j J data s2 = (Inr (), s3)"
      "power_phase E C j J data poll s3 = (Inr True, s4)"
      "job_rel C j later_fields {} s4 t" "job_state (job_key C j) t = state_value COMPLETED"
proof -
  from assms obtain restored s1 where r: "restore_phase E C metrics j J s = (Inr restored, s1)"
    and k: "(case restored of None \<Rightarrow> ret_act ()
     | Some poll \<Rightarrow>
         bind_act (stamp_phase E C j J (hfield data ''plan_run_id'')) (\<lambda>_.
         bind_act (isolate_phase E C j J data) (\<lambda>_.
         bind_act (power_phase E C j J data poll) (\<lambda>go_on.
         if \<not> go_on then ret_act ()
         else bind_act (set_state E C j COMPLETED
                 [(''progress'', ''100''), (''eta_sec'', ''0''), (''speed_bps'', [])]) (\<lambda>_.
              append_log E C j ''INFO'' ''COMPLETED''
                (''Restore completed for VMID '' @ str_of_int (jf_vmid J))))))) s1 = (Inr (), t)"
    by (auto simp: run_phases_def bind_act_Inr_iff)
  show thesis
  proof (cases restored)
    case None
    with k have "s1 = t" by (simp add: ret_act_def)
    with r None show ?thesis by (intro cancelled restore_phase_None) simp
  next
    case (Some poll)
    with k obtain s2 s3 go_on s4 where p: "stamp_phase E C j J (hfield data ''plan_run_id'') s1 = (Inr (), s2)"
      "isolate_phase E C j J data s2 = (Inr (), s3)"
      "power_phase E C j J data poll s3 = (Inr go_on, s4)"
      and f: "(if \<not> go_on then ret_act ()
         else bind_act (set_state E C j COMPLETED
                 [(''progress'', ''100''), (''eta_sec'', ''0''), (''speed_bps'', [])]) (\<lambda>_.
              append_log E C j ''INFO'' ''COMPLETED''
                (''Restore completed for VMID '' @ str_of_int (jf_vmid J)))) s4 = (Inr (), t)"
      by (auto simp: bind_act_Inr_iff)
    show ?thesis
    proof (cases go_on)
      case False
      with f have "s4 = t" by (simp add: ret_act_def)
      with p(3) False show ?thesis by (intro cancelled power_phase_False) simp
    next
      case True
      let ?m = "bind_act (set_state E C j COMPLETED
                 [(''progress'', ''100''), (''eta_sec'', ''0''), (''speed_bps'', [])]) (\<lambda>_.
              append_log E C j ''INFO'' ''COMPLETED''
                (''Restore completed for VMID '' @ str_of_int (jf_vmid J)))"
      from f True have f: "?m s4 = (Inr (), t)" by simp
      have "keeps (job_rel C j later_fields {}) ?m"
        by (intro job.keeps_bind keeps_set_state keeps_append_log) auto
      then have rel: "job_rel C j later_fields {} s4 t" using f by (rule keepsD)
      from f obtain s5 where c: "set_state E C j COMPLETED
                 [(''progress'', ''100''), (''eta_sec'', ''0''), (''speed_bps'', [])] s4 = (Inr (), s5)"
        and l: "append_log E C j ''INFO'' ''COMPLETED''
                (''Restore completed for VMID '' @ str_of_int (jf_vmid J)) s5 = (Inr (), t)"
        by (auto simp: bind_act_Inr_iff)
      from append_log_hash [OF l] have "job_state (job_key C j) t = job_state (job_key C j) s5"
        by (intro job_state_hashes) simp
      with set_state_eval [OF c] have fin: "job_state (job_key C j) t = state_value COMPLETED" by simp
      from r Some p(3) True have "restore_phase E C metrics j J s = (Inr (Some poll), s1)"
        "power_phase E C j J data poll s3 = (Inr True, s4)" by simp_all
      from completed [OF this(1) p(1,2) this(2) rel fin] show ?thesis .
    qed
  qed
qed

subsection \<open>Evidence in the trace\<close>

text \<open>
  \<open>stamped_in E n v cs ds\<close>: the calls \<open>ds\<close>, made after \<open>cs\<close>, contain a read of the guest's
  configuration and right after it the write of the marked tags and description, accepted.
\<close>

definition stamped_in ::
  "env \<Rightarrow> string \<Rightarrow> int \<Rightarrow> string \<Rightarrow> string \<Rightarrow> ext_call list \<Rightarrow> ext_call list \<Rightarrow> bool" where
  "stamped_in E node v job run cs ds \<longleftrightarrow>
     (\<exists>pre raw x post.
        let kv = [(''tags'', join_on '';'' (marked_tags (unwrap_dict raw))),
                  (''description'', marked_description (owner_marker job run)
                     (str_or_empty (dget (unwrap_dict raw) ''description'')))]
        in ds = pre @ [ConfigGet node v, ConfigPut node v kv] @ post \<and>
           answer E (cs @ pre) (ConfigGet node v) = Inr raw \<and>
           answer E (cs @ pre @ [ConfigGet node v]) (ConfigPut node v kv) = Inr x)"

text \<open>The same for the isolation changes, which may be none\<close>

definition isolated_in ::
  "env \<Rightarrow> string \<Rightarrow> int \<Rightarrow> string \<Rightarrow> string \<Rightarrow> ext_call list \<Rightarrow> ext_call list \<Rightarrow> bool" where
  "isolated_in E node v mode bridge cs ds \<longleftrightarrow>
     (\<exists>raw changes x. answer E cs (ConfigGet node v) = Inr raw \<and>
        isolation_changes mode bridge (unwrap_dict raw) = Inr changes \<and>
        ds = ConfigGet node v # (if changes = [] then [] else [ConfigPut node v changes]) \<and>
        (changes \<noteq> [] \<longrightarrow> answer E (cs @ [ConfigGet node v]) (ConfigPut node v changes) = Inr x))"

lemma stamped_in_before: "stamped_in E n v j r (cs @ ds) es \<Longrightarrow> stamped_in E n v j r cs (ds @ es)"
  unfolding stamped_in_def Let_def by (metis append.assoc)

lemma stamped_in_after: "stamped_in E n v j r cs ds \<Longrightarrow> stamped_in E n v j r cs (ds @ es)"
  unfolding stamped_in_def Let_def by (metis append.assoc)

lemma mark_qemu_Inr:
  assumes "mark_qemu_managed_by_tool E node v job run s = (Inr (), t)"
  shows "\<exists>ds. calls t = calls s @ ds \<and> stamped_in E (strip node) v job run (calls s) ds"
proof -
  let ?n = "strip node"
  from assms obtain raw x where a: "answer E (calls s) (ConfigGet ?n v) = Inr raw"
    and kv: "let kv = [(''tags'', join_on '';'' (marked_tags (unwrap_dict raw))),
                  (''description'', marked_description (owner_marker job run)
                     (str_or_empty (dget (unwrap_dict raw) ''description'')))]
        in answer E (calls s @ [ConfigGet ?n v]) (ConfigPut ?n v kv) = Inr x \<and>
           calls t = calls s @ [ConfigGet ?n v, ConfigPut ?n v kv]"
    by (auto simp: mark_qemu_managed_by_tool_def get_qemu_config_def bind_act_Inr_iff call_def
        ret_act_def Let_def)
  then show ?thesis
    unfolding stamped_in_def Let_def
    by (intro exI [of _ "[ConfigGet ?n v, ConfigPut ?n v _]"] conjI exI [of _ "[]"] exI [of _ raw] exI [of _ x])
      auto
qed

lemma note_fields_field:
  assumes "note_fields E C j m s = (r, t)" "map_of m f = Some v"
  shows "map_of (hgetall (job_key C j) t) f = Some v \<and> calls t = calls s"
  using assms by (auto simp: note_fields_def upd_act_def hget_hset map_add_Some_iff map_add_def)

lemma stamp_attempts_None:
  assumes "stamp_attempts E C j J run ns err s = (Inr None, t)" "err = None \<longrightarrow> ns \<noteq> []"
  shows "map_of (hgetall (job_key C j) t) ''managed_marked'' = Some ''1'' \<and>
    (\<exists>ds. calls t = calls s @ ds \<and> stamped_in E (strip (jf_node J)) (jf_vmid J) j run (calls s) ds)"
  using assms
proof (induction ns arbitrary: err s)
  case Nil
  then show ?case by (simp add: ret_act_def)
next
  case (Cons n ns)
  obtain r1 s1 where m: "mark_qemu_managed_by_tool E (jf_node J) (jf_vmid J) j run s = (r1, s1)"
    by (cases "mark_qemu_managed_by_tool E (jf_node J) (jf_vmid J) j run s")
  show ?case
  proof (cases r1)
    case (Inr u)
    with m Cons.prems(1) obtain s2 where f: "note_fields E C j [(''managed_marked'', ''1'')] s1 = (Inr (), s2)"
      and l: "append_log E C j ''INFO'' ''RESTORING''
            (''Marked VMID '' @ str_of_int (jf_vmid J) @ '' as restore-engine managed'') s2 = (Inr (), t)"
      by (auto simp: bind_act_Inr_iff ret_act_def)
    have "calls t = calls s2" using l by (auto simp: append_log_def upd_act_def)
    moreover have "hgetall (job_key C j) t = hgetall (job_key C j) s2"
      using append_log_hash [OF l] by (simp add: hgetall_def)
    moreover note note_fields_field [OF f, of "''managed_marked''" "''1''"]
    moreover obtain ds where "calls s1 = calls s @ ds"
      "stamped_in E (strip (jf_node J)) (jf_vmid J) j run (calls s) ds"
      using mark_qemu_Inr [of E "jf_node J" "jf_vmid J" j run s s1] m Inr by auto
    ultimately show ?thesis by auto
  next
    case (Inl e)
    with m Cons.prems(1) obtain s2 s3 where
      l: "append_log E C j ''WARN'' ''RESTORING''
            (''Ownership stamp attempt '' @ str_of_int n @ ''/3 failed for VMID '' @
             str_of_int (jf_vmid J) @ '': '' @ exn_str e) s1 = (Inr (), s2)"
      and z: "sleep (min (2 * of_int n) 5) s2 = (Inr (), s3)"
      and rec: "stamp_attempts E C j J run ns (Some e) s3 = (Inr None, t)"
      by (auto simp: bind_act_Inr_iff)
    have "extends s s1" using keepsD [OF keeps_emits_grows [OF keeps_mark_qemu] m] .
    moreover have "extends s1 s2" "extends s2 s3"
      using l z by (auto simp: append_log_def upd_act_def sleep_def extends_def)
    ultimately have "extends s s3" using grows.trans by blast
    then obtain cs where cs: "calls s3 = calls s @ cs" by (auto simp: extends_def)
    from Cons.IH [OF rec] obtain ds where "calls t = calls s3 @ ds"
      "stamped_in E (strip (jf_node J)) (jf_vmid J) j run (calls s3) ds"
      "map_of (hgetall (job_key C j) t) ''managed_marked'' = Some ''1''" by auto
    with cs stamped_in_before show ?thesis by auto
  qed
qed

lemma stamp_phase_Inr:
  assumes "stamp_phase E C j J run s = (Inr (), t)"
  shows "map_of (hgetall (job_key C j) t) ''managed_marked'' = Some ''1'' \<and>
    (\<exists>ds. calls t = calls s @ ds \<and> stamped_in E (strip (jf_node J)) (jf_vmid J) j run (calls s) ds)"
proof -
  from assms have "stamp_attempts E C j J run [1, 2, 3] None s = (Inr None, t)"
    by (auto simp: stamp_phase_def bind_act_Inr_iff ret_act_def raise_act_def
        simp del: stamp_attempts.simps split: option.splits)
  from stamp_attempts_None [OF this] show ?thesis by simp
qed

lemma apply_isolation_Inr:
  assumes "apply_network_isolation E n v m b s = (Inr ch, t)" "isolation_mode m \<notin> {[], ''none'', ''off''}"
  shows "\<exists>ds. calls t = calls s @ ds \<and> (\<exists>raw changes x. answer E (calls s) (ConfigGet n v) = Inr raw \<and>
     isolation_changes (isolation_mode m) (strip b) (unwrap_dict raw) = Inr changes \<and>
     ds = ConfigGet n v # (if changes = [] then [] else [ConfigPut n v changes]) \<and>
     (changes \<noteq> [] \<longrightarrow> answer E (calls s @ [ConfigGet n v]) (ConfigPut n v changes) = Inr x))"
proof -
  from assms obtain cfg s1 changes s2 u s3 where g: "get_qemu_config E n v s = (Inr cfg, s1)"
    and i: "res_act (isolation_changes (isolation_mode m) (strip b) cfg) s1 = (Inr changes, s2)"
    and w: "when_act (changes \<noteq> []) (bind_act (call E (ConfigPut n v changes)) (\<lambda>_. ret_act ())) s2 = (Inr u, s3)"
    and r: "t = s3"
    unfolding apply_network_isolation_def Let_def
    by (simp only: if_False bind_act_Inr_iff ret_act_def prod.inject) blast
  from g obtain raw where raw: "answer E (calls s) (ConfigGet n v) = Inr raw" "cfg = unwrap_dict raw"
    "calls s1 = calls s @ [ConfigGet n v]"
    by (auto simp: get_qemu_config_def bind_act_Inr_iff call_def ret_act_def)
  from i have ch: "isolation_changes (isolation_mode m) (strip b) cfg = Inr changes" "s2 = s1"
    by (simp_all add: res_act_def)
  show ?thesis
  proof (cases "changes = []")
    case True
    with w r ch have "t = s1" by (simp add: when_act_def ret_act_def)
    with True raw ch show ?thesis by auto
  next
    case False
    with w r ch obtain x where "answer E (calls s1) (ConfigPut n v changes) = Inr x"
      "calls t = calls s1 @ [ConfigPut n v changes]"
      by (auto simp: when_act_def bind_act_Inr_iff call_def ret_act_def)
    with False raw ch show ?thesis by auto
  qed
qed

lemma isolate_phase_Inr:
  assumes "isolate_phase E C j J data s = (Inr (), t)" "job_net_mode data \<in> {''unlink'', ''remap''}"
  shows "\<exists>ds. calls t = calls s @ ds \<and> isolated_in E (jf_node J) (jf_vmid J) (job_net_mode data)
    (job_lab_bridge data) (calls s) ds"
proof -
  have "isolation_mode ''unlink'' = ''unlink''" "isolation_mode ''remap'' = ''remap''"
    by code_simp+
  then have mode: "isolation_mode (job_net_mode data) = job_net_mode data"
    "strip (job_lab_bridge data) = job_lab_bridge data"
    using assms(2) by (auto simp: job_lab_bridge_def)
  let ?iso = "apply_network_isolation E (jf_node J) (jf_vmid J) (job_net_mode data) (job_lab_bridge data)"
  let ?h = "\<lambda>e. raise_act (RuntimeError (''Network isolation failed for VMID '' @
                str_of_int (jf_vmid J) @ '': '' @ exn_str e))"
  let ?log = "\<lambda>changed. append_log E C j ''INFO'' ''RESTORING''
                  (''Network isolation updated: '' @ or_default (join_on '', '' changed) ''no net devices'')"
  from assms obtain m u s1 where a: "append_log E C j ''INFO'' ''RESTORING'' m s = (Inr u, s1)"
    and c: "catch_act (bind_act ?iso ?log) ?h s1 = (Inr (), t)"
    unfolding isolate_phase_def Let_def by (simp only: if_not_P not_not bind_act_Inr_iff) (elim exE conjE, rule that)
  from c have "bind_act ?iso ?log s1 = (Inr (), t)"
    by (rule catch_act_cases) (simp_all only: raise_act_def prod.inject sum.distinct simp_thms)
  then obtain ch s2 where iso: "?iso s1 = (Inr ch, s2)" and "?log ch s2 = (Inr (), t)"
    by (simp only: bind_act_Inr_iff) (elim exE conjE, rule that)
  then have l: "calls s1 = calls s" and t: "calls t = calls s2"
    using append_log_calls [OF a] append_log_calls by simp_all
  have "isolation_mode (job_net_mode data) \<notin> {[], ''none'', ''off''}"
    using assms(2) unfolding mode by auto
  from apply_isolation_Inr [OF iso this] show ?thesis
    unfolding mode isolated_in_def l t by blast
qed

text \<open>The whole of \<open>process_job\<close> and of \<open>run_job\<close>\<close>

lemma keeps_run_phases:
  "keeps (job_rel C j UNIV UNIV) (run_phases E C metrics j J data :: ('x store_scheme, unit) act)"
proof -
  have r: "keeps (job_rel C j UNIV UNIV) (restore_phase E C metrics j J :: ('x store_scheme, rat option) act)"
    and st: "keeps (job_rel C j UNIV UNIV) (stamp_phase E C j J run :: ('x store_scheme, unit) act)"
    and i: "keeps (job_rel C j UNIV UNIV) (isolate_phase E C j J data :: ('x store_scheme, unit) act)"
    and p: "keeps (job_rel C j UNIV UNIV) (power_phase E C j J data poll :: ('x store_scheme, bool) act)"
    for run poll
    by (rule keeps_job_mono [OF keeps_restore_phase] keeps_job_mono [OF keeps_stamp_phase]
        keeps_job_mono [OF keeps_isolate_phase]; simp)+
      (cases "job_power_on J data"; blast intro: keeps_job_mono [OF keeps_power_phase(1)]
        keeps_job_mono [OF keeps_power_phase(2)])
  show ?thesis
    unfolding run_phases_def
    by (intro job.keeps_bind r)
      (auto split: option.splits intro!: job.keeps_bind st i p job.keeps_if job.keeps_ret
        keeps_set_state keeps_append_log)
qed

lemma keeps_process_job:
  "keeps (job_rel C j UNIV UNIV) (process_job E C metrics j :: ('x store_scheme, unit) act)"
proof (rule keepsI)
  fix s r and t :: "'x store_scheme"
  assume p: "process_job E C metrics j s = (r, t)"
  have b: "keeps (job_rel C j UNIV UNIV) (bind_act (res_act x)
      (\<lambda>J. run_phases E C metrics j J d) :: ('x store_scheme, unit) act)" for x d
    by (intro job.keeps_bind job.keeps_res keeps_run_phases)
  from p show "job_rel C j UNIV UNIV s t"
    using keepsD [OF keeps_mark_cancelled [of UNIV C j UNIV E]] keepsD [OF b]
    by (auto simp: process_job_def Let_def job.refl split: if_splits)
qed

lemma run_job_cases:
  assumes "run_job E C metrics j s = (r, t)" "r \<noteq> Inl OutOfFuel"
  obtains (returned) s1 where "process_job E C metrics j s = (Inr (), s1)" "r = Inr ()" "t = release_slot C s1"
  | (failed) e s1 s2 where "process_job E C metrics j s = (Inl e, s1)" "e \<noteq> OutOfFuel" "r = Inr ()"
      "t = release_slot C s2" "job_rel C j UNIV {} s1 s2" "job_state (job_key C j) s2 = state_value FAILED"
proof -
  let ?h = "\<lambda>e. bind_act (set_state E C j FAILED [(''error'', exn_str e), (''progress'', ''0'')]) (\<lambda>_.
          append_log E C j ''ERROR'' ''FAILED'' (exn_str e))"
  obtain r1 s1 where p: "process_job E C metrics j s = (r1, s1)" by (cases "process_job E C metrics j s")
  show thesis
  proof (cases r1)
    case (Inr u)
    with p assms(1) show ?thesis by (intro returned) (auto simp: run_job_def bind_act_def catch_act_def upd_act_def)
  next
    case (Inl e)
    show ?thesis
    proof (cases "e = OutOfFuel")
      case True
      with p Inl assms show ?thesis by (auto simp: run_job_def bind_act_def catch_act_def)
    next
      case False
      obtain s3 where c: "set_state E C j FAILED [(''error'', exn_str e), (''progress'', ''0'')] s1 = (Inr (), s3)"
        using set_state_ok by blast
      obtain s2 where l: "append_log E C j ''ERROR'' ''FAILED'' (exn_str e) s3 = (Inr (), s2)"
        by (simp add: append_log_def upd_act_def)
      have h: "?h e s1 = (Inr (), s2)" using c l by (simp add: bind_act_eval)
      have "keeps (job_rel C j UNIV {}) (?h e)"
        by (intro job.keeps_bind keeps_set_state keeps_append_log) simp
      then have rel: "job_rel C j UNIV {} s1 s2" using h by (rule keepsD)
      have st: "job_state (job_key C j) s2 = state_value FAILED"
        using set_state_eval [OF c] job_state_hashes append_log_hash [OF l] by fastforce
      have "r = Inr ()" "t = release_slot C s2"
        using assms(1) p Inl False h by (auto simp: run_job_def bind_act_def catch_act_def upd_act_def)
      with failed p Inl False rel st show ?thesis by blast
    qed
  qed
qed

lemma release_slot_frame [simp]:
  "hgetall k (release_slot C s) = hgetall k s" "calls (release_slot C s) = calls s"
  "hashes (release_slot C s) = hashes s" "lrange_all k (release_slot C s) = lrange_all k s"
  "job_state k (release_slot C s) = job_state k s"
  by (auto simp: release_slot_def incr_by_def set_str_def hgetall_def lrange_all_def job_state_def
      split: option.splits)

subsection \<open>Enough fuel for a job\<close>

lemma res_bind_fuel:
  "res_bind r f = Inl OutOfFuel \<longleftrightarrow> r = Inl OutOfFuel \<or> (\<exists>x. r = Inr x \<and> f x = Inl OutOfFuel)"
  by (cases r) auto

lemma py_conversions_fuel [simp]:
  "py_int v \<noteq> Inl OutOfFuel" "py_float v \<noteq> Inl OutOfFuel" "py_strip v \<noteq> Inl OutOfFuel"
  "need_key d k \<noteq> Inl OutOfFuel" "hneed h k \<noteq> Inl OutOfFuel" "strip_field d k \<noteq> Inl OutOfFuel"
proof -
  show i: "py_int v \<noteq> Inl OutOfFuel" "py_float v \<noteq> Inl OutOfFuel" and s: "py_strip v \<noteq> Inl OutOfFuel" for v
    by (cases v; simp split: option.splits)+
  show "need_key d k \<noteq> Inl OutOfFuel" "hneed h k \<noteq> Inl OutOfFuel"
    by (simp_all add: need_key_def hneed_def split: option.splits)
  show "strip_field d k \<noteq> Inl OutOfFuel" using s by (simp add: strip_field_def)
qed

lemma proxmox_login_fuel: "proxmox_login p \<noteq> Inl OutOfFuel"
  by (simp add: proxmox_login_def Let_def res_bind_fuel split: prod.splits)

lemma connect_fuel [simp]: "fst (connect_proxmox E C s) \<noteq> Inl OutOfFuel"
  by (simp add: connect_proxmox_def act_fuel proxmox_login_fuel)

lemma submit_fuel [simp]: "fst (submit_restore E n v a st l b u f s) \<noteq> Inl OutOfFuel"
  by (auto simp: submit_restore_def act_fuel Let_def split: pyval.splits if_splits)

lemma store_acts_fuel [simp]:
  "fst (append_log E C j l g m s) \<noteq> Inl OutOfFuel" "fst (set_state E C j st x s) \<noteq> Inl OutOfFuel"
  "fst (note_fields E C j h s) \<noteq> Inl OutOfFuel" "fst (cancel_flag E C j s) \<noteq> Inl OutOfFuel"
  "fst (mark_cancelled E C j s) \<noteq> Inl OutOfFuel"
  by (simp_all add: append_log_def set_state_def note_fields_def cancel_flag_def mark_cancelled_def
      act_fuel upd_act_def)

lemma get_config_fuel [simp]: "fst (get_qemu_config E n v s) \<noteq> Inl OutOfFuel"
  by (simp add: get_qemu_config_def act_fuel)

lemma mark_qemu_fuel [simp]: "fst (mark_qemu_managed_by_tool E n v j r s) \<noteq> Inl OutOfFuel"
  by (simp add: mark_qemu_managed_by_tool_def Let_def act_fuel)

lemma agent_fuel [simp]:
  "fst (qemu_agent_ping E n v s) \<noteq> Inl OutOfFuel" "fst (get_qemu_guest_hostname E n v s) \<noteq> Inl OutOfFuel"
  "fst (start_qemu_vm E n v s) \<noteq> Inl OutOfFuel"
  by (simp_all add: qemu_agent_ping_def get_qemu_guest_hostname_def start_qemu_vm_def act_fuel)

lemma isolation_fuel [simp]: "fst (apply_network_isolation E n v m b s) \<noteq> Inl OutOfFuel"
proof -
  have "map_res (isolate_entry mode br) cfg \<noteq> Inl OutOfFuel" for mode br cfg
    by (auto simp: isolate_entry_def Let_def dest!: map_res_Inl split: if_splits)
  then have "isolation_changes mode br cfg \<noteq> Inl OutOfFuel" for mode br cfg
    by (simp add: isolation_changes_def res_bind_fuel)
  then show ?thesis
    by (simp add: apply_network_isolation_def Let_def act_fuel when_act_def)
qed

lemma guarded_wait_fuel:
  "(\<And>msg s. fst (h msg s) \<noteq> Inl OutOfFuel) \<Longrightarrow>
   fst (guarded_wait E C j msg h m s) = Inl OutOfFuel \<longleftrightarrow> fst (m s) = Inl OutOfFuel"
  by (cases "m s") (auto simp: guarded_wait_def act_fuel split: sum.splits exn.splits)

lemma on_tick_fuel [simp]: "fst (on_tick E C metrics j d ls s) \<noteq> Inl OutOfFuel"
  by (simp add: on_tick_def act_fuel)

lemma check_hostname_fuel [simp]: "fst (check_guest_hostname E C j n v s) \<noteq> Inl OutOfFuel"
  by (simp add: check_guest_hostname_def act_fuel)

lemma http_fuel [simp]: "fst (http_phase E C j url s) \<noteq> Inl OutOfFuel"
  by (auto simp: http_phase_def act_fuel when_act_def)

lemma agent_poll_fuel:
  assumes clk: "clock_ok E" and cancel: "keeps extends sc" and nf: "\<And>s. fst (sc s) \<noteq> Inl OutOfFuel"
  shows "k < n \<Longrightarrow> D \<le> now E s + max (1/2) interval * of_nat k \<Longrightarrow>
    fst (agent_poll n E node v tmo interval sc st D s) \<noteq> Inl OutOfFuel"
proof (induction n arbitrary: k s)
  case (Suc n)
  let ?i = "max (1/2) interval"
  show ?case
  proof
    assume "fst (agent_poll (Suc n) E node v tmo interval sc st D s) = Inl OutOfFuel"
    with nf obtain s1 up s2 where c: "sc s = (Inr False, s1)" and p: "qemu_agent_ping E node v s1 = (Inr up, s2)"
      and late: "\<not> D \<le> now E s2"
      and again: "fst (agent_poll n E node v tmo interval sc st D (snd (sleep ?i s2))) = Inl OutOfFuel"
      by (auto simp: act_fuel sleep_def split: if_splits)
    have "extends s s2"
      using keepsD [OF cancel c] keepsD [OF keeps_emits_grows [OF keeps_agent_ping] p] by (rule grows.trans)
    then have s2: "now E s \<le> now E s2" by (rule clock_ok_extends [OF clk])
    from late s2 Suc.prems obtain m where k: "k = Suc m" "m < n" by (cases k) auto
    have "now E s2 + ?i \<le> now E (snd (sleep ?i s2))" by (rule clock_okD(2) [OF clk])
    with s2 Suc.prems(2) have "D \<le> now E (snd (sleep ?i s2)) + ?i * of_nat m"
      unfolding k(1) of_nat_Suc by (simp add: distrib_left)
    from Suc.IH [OF k(2) this] again show False by blast
  qed
qed simp

lemma grows_cancel_flag: "keeps extends (cancel_flag E C j)"
  by (rule keeps_job_extends [OF keeps_cancel_flag])

lemma grows_on_tick: "keeps extends (on_tick E C metrics j d ls)"
  by (rule keeps_job_extends [OF keeps_on_tick])

lemma stamp_attempts_fuel: "fst (stamp_attempts E C j J run ns err s) \<noteq> Inl OutOfFuel"
proof (induction ns arbitrary: err s)
  case (Cons n ns)
  then show ?case by (auto simp: act_fuel split: prod.splits sum.splits)
qed (simp add: act_fuel)

end
