(* ===== verification/JobFuel.thy ===== *)
theory JobFuel imports Worker
begin

text \<open>
  When a run of \<open>run_job\<close> ends: the waits for Proxmox tasks end because a positive timeout passes
  or, without a timeout, because each task is reported as stopped after some status requests; the
  agent wait and the stop have their own bounds.
\<close>

subsection \<open>Waits without a timeout\<close>

text \<open>\<open>polls cs node u\<close>: how often the status of the task was requested in the history \<open>cs\<close>\<close>

definition polls :: "ext_call list \<Rightarrow> string \<Rightarrow> string \<Rightarrow> nat" where
  "polls cs node u = length (filter (\<lambda>c. c = TaskStatus node u) cs)"

text \<open>
  Tasks end: from the \<open>n\<close>-th request on, the status of a task is \<open>stopped\<close> (with any exit status), or
  the request fails. Before, it may be running.
\<close>

definition tasks_end :: "env \<Rightarrow> nat \<Rightarrow> bool" where
  "tasks_end E n \<longleftrightarrow> (\<forall>cs node u. n \<le> polls cs node u \<longrightarrow>
     (case answer E cs (TaskStatus node u) of
        Inl e \<Rightarrow> True | Inr raw \<Rightarrow> \<exists>d. raw = PDict d \<and> task_state d = ''stopped''))"

lemma polls_append [simp]: "polls (cs @ ds) node u = polls cs node u + polls ds node u"
  by (simp add: polls_def)

lemma polls_simps [simp]:
  "polls [] node u = 0" "polls (TaskStatus node u # cs) node u = Suc (polls cs node u)"
  "c \<noteq> TaskStatus node u \<Longrightarrow> polls (c # cs) node u = polls cs node u"
  by (simp_all add: polls_def)

lemma polls_extends: "extends s t \<Longrightarrow> polls (calls s) node u \<le> polls (calls t) node u"
  by (auto simp: extends_def)

text \<open>One round of the loop either ends it or asks for the status and goes on with a sleep.\<close>

lemma task_poll_round:
  assumes cancel: "keeps extends should_cancel" and grows_tick: "\<And>d ls. keeps extends (tick d ls)"
    and nf: "\<And>s. fst (should_cancel s) \<noteq> Inl OutOfFuel" "\<And>d ls s. fst (tick d ls s) \<noteq> Inl OutOfFuel"
    and out: "fst (task_poll (Suc n) E node upid interval timeout dl should_cancel tick off s) = Inl OutOfFuel"
  obtains s1 raw s2 s3 s4 off' where "extends s s1" "call E (TaskStatus node upid) s1 = (Inr raw, s2)"
    "\<nexists>d. raw = PDict d \<and> task_state d = ''stopped''" "extends s2 s3" "sleep interval s3 = (Inr (), s4)"
    "fst (task_poll n E node upid interval timeout dl should_cancel tick off' s4) = Inl OutOfFuel"
proof -
  let ?go = "\<lambda>off. bind_act (sleep interval) (\<lambda>_.
      task_poll n E node upid interval timeout dl should_cancel tick off)"
  from out nf(1) obtain s1 raw s2 where c: "should_cancel s = (Inr False, s1)"
    and a: "call E (TaskStatus node upid) s1 = (Inr raw, s2)"
    and k: "fst ((case raw of
         PDict status \<Rightarrow>
           bind_act (fetch_task_log E node upid off 80) (\<lambda>(new_lines, offset').
           bind_act (catch_act (tick status new_lines) (\<lambda>e. ret_act ())) (\<lambda>_.
             if task_state status = ''stopped'' then
               (if task_succeeded status then ret_act status
                else raise_act (RuntimeError (explain_pve_task_failure (task_exit status))))
             else ?go offset'))
       | _ \<Rightarrow> ?go off) s2) = Inl OutOfFuel"
    by (auto simp: bind_act_fuel basic_act_fuel stop_task_fuel split: if_splits)
  have s1: "extends s s1" by (rule keepsD [OF cancel c])
  have sl: "sleep interval s' = (Inr (), snd (sleep interval s'))" for s' :: "'a store_scheme"
    by (simp add: sleep_def)
  have go: "fst (?go off' s') = Inl OutOfFuel \<Longrightarrow>
      fst (task_poll n E node upid interval timeout dl should_cancel tick off' (snd (sleep interval s'))) = Inl OutOfFuel"
    for off' s' by (simp add: bind_act_eval(2) [OF sl])
  show thesis
  proof (cases "\<exists>d. raw = PDict d")
    case False
    with k have "fst (?go off s2) = Inl OutOfFuel" by (cases raw) auto
    with False show thesis by (intro that [OF s1 a _ grows.refl sl go]) auto
  next
    case True
    then obtain status where raw: "raw = PDict status" by blast
    with k obtain ls off' s3 where f: "fetch_task_log E node upid off 80 s2 = (Inr (ls, off'), s3)"
      and k3: "fst (bind_act (catch_act (tick status ls) (\<lambda>e. ret_act ())) (\<lambda>_.
               if task_state status = ''stopped'' then
                 (if task_succeeded status then ret_act status
                  else raise_act (RuntimeError (explain_pve_task_failure (task_exit status))))
               else ?go off') s3) = Inl OutOfFuel"
      using fetch_task_log_fuel [of E node upid off 80 s2]
      by (auto simp: bind_act_fuel [of "fetch_task_log E node upid off 80"])
    from k3 nf(2) obtain s4 where h: "catch_act (tick status ls) (\<lambda>e. ret_act ()) s3 = (Inr (), s4)"
      and n: "task_state status \<noteq> ''stopped''" and k4: "fst (?go off' s4) = Inl OutOfFuel"
      by (auto simp: bind_act_fuel [of "catch_act m h" for m h] catch_act_fuel basic_act_fuel split: if_splits)
    have "keeps extends (catch_act (tick status ls) (\<lambda>e. ret_act ()))"
      by (intro grows.keeps_catch grows_tick grows.keeps_ret)
    then have "extends s3 s4" using h by (rule keepsD)
    with keepsD [OF keeps_emits_grows [OF keeps_fetch_task_log] f] have "extends s2 s4"
      by (rule grows.trans)
    moreover have "\<nexists>d. raw = PDict d \<and> task_state d = ''stopped''" using raw n by simp
    ultimately show thesis by (intro that [OF s1 a _ _ sl go [OF k4]])
  qed
qed

lemma task_poll_ends:
  assumes "tasks_end E n" "keeps extends should_cancel" "\<And>d ls. keeps extends (tick d ls)"
    and "\<And>s. fst (should_cancel s) \<noteq> Inl OutOfFuel" "\<And>d ls s. fst (tick d ls s) \<noteq> Inl OutOfFuel"
  shows "0 < m \<Longrightarrow> n < polls (calls s) node upid + m \<Longrightarrow>
    fst (task_poll m E node upid interval timeout dl should_cancel tick off s) \<noteq> Inl OutOfFuel"
proof (induction m arbitrary: off s)
  case (Suc m)
  show ?case
  proof
    assume "fst (task_poll (Suc m) E node upid interval timeout dl should_cancel tick off s) = Inl OutOfFuel"
    then obtain s1 raw s2 s3 s4 off' where s1: "extends s s1" and c: "call E (TaskStatus node upid) s1 = (Inr raw, s2)"
      and n: "\<nexists>d. raw = PDict d \<and> task_state d = ''stopped''" and s3: "extends s2 s3"
      and sl: "sleep interval s3 = (Inr (), s4)"
      and o: "fst (task_poll m E node upid interval timeout dl should_cancel tick off' s4) = Inl OutOfFuel"
      by (rule task_poll_round [OF assms(2,3,4,5), rotated 2]) auto
    have "polls (calls s1) node upid < n"
      using assms(1) c n by (fastforce simp: tasks_end_def call_def not_less [symmetric])
    moreover have "polls (calls s2) node upid = Suc (polls (calls s1) node upid)" using c by (auto simp: call_def)
    moreover have "polls (calls s4) node upid = polls (calls s3) node upid" using sl by (auto simp: sleep_def)
    ultimately have "polls (calls s) node upid < n" "Suc (polls (calls s) node upid) \<le> polls (calls s4) node upid"
      using polls_extends [OF s1, of node upid] polls_extends [OF s3, of node upid] by simp_all
    with Suc.prems have "0 < m" "n < polls (calls s4) node upid + m" by simp_all
    from Suc.IH [OF this] o show False by blast
  qed
qed simp

subsection \<open>Runs of a job\<close>

text \<open>
  The fuel that suffices: more iterations than the seconds of the agent wait and than the 60 seconds
  of the stop, and for the task waits either more than \<open>timeout / interval\<close>, when a timeout is
  configured, or more than the status requests after which each task has ended. The default of
  \<open>task_timeout_sec\<close> is 0, which is no timeout: then only the second case applies, and a task that
  never ends keeps the worker waiting for ever.
\<close>

definition job_fuel_ok :: "env \<Rightarrow> cfg \<Rightarrow> hash \<Rightarrow> bool" where
  "job_fuel_ok E C data \<longleftrightarrow> clock_ok E \<and> 60 < fuel E \<and>
     max 1 (job_qga_wait data) < int (fuel E) \<and>
     (0 < task_timeout_sec C \<and>
        (\<forall>poll. task_poll_sec C = Inr poll \<longrightarrow>
           0 < poll \<and> (\<exists>k < fuel E. task_timeout_sec C \<le> poll * of_nat k)) \<or>
      (\<exists>n < fuel E. tasks_end E n))"

lemma job_wait_fuel:
  assumes "job_fuel_ok E C data" "task_poll_sec C = Inr poll"
    and "keeps extends sc" "\<And>d ls. keeps extends (tick d ls)"
    and "\<And>s. fst (sc s) \<noteq> Inl OutOfFuel" "\<And>d ls s. fst (tick d ls s) \<noteq> Inl OutOfFuel"
  shows "fst (wait_for_task E node upid poll (task_timeout_sec C) sc tick s) \<noteq> Inl OutOfFuel"
proof (cases "\<exists>n < fuel E. tasks_end E n")
  case True
  then obtain n where "tasks_end E n" "n < fuel E" by blast
  with task_poll_ends [OF this(1) assms(3-6), of "fuel E" s] show ?thesis
    by (simp add: wait_for_task_def)
next
  case False
  with assms(1,2) obtain k where k: "clock_ok E" "0 < poll" "0 < task_timeout_sec C"
    "task_timeout_sec C \<le> poll * of_nat k" "k < fuel E" by (auto simp: job_fuel_ok_def)
  have "fst (task_poll (fuel E) E node upid poll (task_timeout_sec C)
      (Some (now E s + task_timeout_sec C)) sc tick 0 s) \<noteq> Inl OutOfFuel"
    by (rule task_poll_fuel [OF k(1,2) assms(3) _ _ _ k(5)]) (use assms k in auto)
  with k(3) show ?thesis by (simp add: wait_for_task_def)
qed

lemma guarded_wait_no_fuel:
  "(\<And>msg s. fst (h msg s) \<noteq> Inl OutOfFuel) \<Longrightarrow> fst (m s) \<noteq> Inl OutOfFuel \<Longrightarrow>
   fst (guarded_wait E C j msg h m s) \<noteq> Inl OutOfFuel"
  by (simp add: guarded_wait_fuel)

text \<open>Composing commands that do not run out of fuel\<close>

lemma bind_no_fuel:
  "fst (m s) \<noteq> Inl OutOfFuel \<Longrightarrow> (\<And>x t. fst (f x t) \<noteq> Inl OutOfFuel) \<Longrightarrow>
   fst (bind_act m f s) \<noteq> Inl OutOfFuel"
  by (auto simp: bind_act_fuel)

lemma restore_phase_fuel:
  assumes "job_fuel_ok E C data"
  shows "fst (restore_phase E C metrics j J s) \<noteq> Inl OutOfFuel"
proof -
  have wire: "fst (wire_phase E C j b s) \<noteq> Inl OutOfFuel" for b and s :: "'a store_scheme"
    by (auto simp: wire_phase_def act_fuel)
  have poll: "task_poll_sec C \<noteq> Inl OutOfFuel" by (simp add: task_poll_sec_def)
  have wait: "fst (guarded_wait E C j msg (\<lambda>_. ret_act ())
      (wait_for_task E (jf_node J) u p (task_timeout_sec C) (cancel_flag E C j)
         (on_tick E C metrics j)) s) \<noteq> Inl OutOfFuel"
    if "task_poll_sec C = Inr p" for msg u p and s :: "'a store_scheme"
    using job_wait_fuel [OF assms that grows_cancel_flag [of E C j] grows_on_tick [of E C metrics j],
        where node = "jf_node J" and upid = u and s = s]
    by (intro guarded_wait_no_fuel) (simp_all add: act_fuel)
  have tail: "fst (bind_act (res_act (task_poll_sec C)) (\<lambda>p. bind_act (guarded_wait E C j msg (\<lambda>_. ret_act ())
      (wait_for_task E (jf_node J) u p (task_timeout_sec C) (cancel_flag E C j)
         (on_tick E C metrics j))) (\<lambda>done. ret_act (map_option (\<lambda>_. p) done))) s) \<noteq> Inl OutOfFuel"
    for msg u and s :: "'a store_scheme"
    using poll by (cases "task_poll_sec C") (simp_all add: bind_act_fuel res_act_def bind_act_eval
        basic_act_fuel wait)
  show ?thesis
    unfolding restore_phase_def
    by (intro bind_no_fuel wire connect_fuel submit_fuel store_acts_fuel tail)
      (simp_all add: basic_act_fuel)
qed

lemma start_phase_fuel:
  assumes "job_fuel_ok E C data" "task_poll_sec C = Inr poll"
  shows "fst (start_phase E C j J poll s) \<noteq> Inl OutOfFuel"
proof -
  have wait: "fst (guarded_wait E C j msg (\<lambda>_. ret_act ())
      (wait_for_task E (jf_node J) u poll (task_timeout_sec C) (cancel_flag E C j)
         (\<lambda>d ls. ret_act ())) s) \<noteq> Inl OutOfFuel" for msg u and s :: "'a store_scheme"
    using job_wait_fuel [OF assms grows_cancel_flag [of E C j] grows.keeps_ret [of "()"],
        where node = "jf_node J" and upid = u and s = s]
    by (intro guarded_wait_no_fuel) (simp_all add: act_fuel)
  show ?thesis
    unfolding start_phase_def
    by (intro bind_no_fuel store_acts_fuel)
      (auto simp: act_fuel wait split: option.splits)
qed

lemma agent_phase_fuel:
  assumes "job_fuel_ok E C data" "qga = job_qga_wait data"
  shows "fst (agent_phase E C j J qga poll s) \<noteq> Inl OutOfFuel"
proof -
  have fuel: "clock_ok E" "max 1 qga < int (fuel E)" "0 \<le> qga"
    using assms by (simp_all add: job_fuel_ok_def job_qga_wait_def)
  let ?i = "min 5 (max 1 poll)"
  let ?k = "nat (max 1 qga)"
  have "max 1 (of_int qga :: rat) = of_nat ?k"
    by (simp add: max_def)
  moreover have "(of_nat ?k :: rat) \<le> max (1/2) ?i * of_nat ?k"
    using mult_right_mono [of 1 "max (1/2) ?i" "rat_of_nat ?k"] by simp
  ultimately have "now E s + max 1 (of_int qga) \<le> now E s + max (1/2) ?i * of_nat ?k"
    for s :: "'a store_scheme" by linarith
  then have "fst (wait_for_qemu_agent E (jf_node J) (jf_vmid J) (of_int qga) ?i (cancel_flag E C j) s)
      \<noteq> Inl OutOfFuel" for s :: "'a store_scheme"
    unfolding wait_for_qemu_agent_def
    by (intro agent_poll_fuel [OF fuel(1) grows_cancel_flag [of E C j], where k = ?k])
      (use fuel(2) in \<open>auto\<close>)
  then have "fst (guarded_wait E C j msg (\<lambda>_. note_fields E C j m)
      (wait_for_qemu_agent E (jf_node J) (jf_vmid J) (of_int qga) ?i (cancel_flag E C j)) s)
      \<noteq> Inl OutOfFuel" for msg m and s :: "'a store_scheme"
    by (intro guarded_wait_no_fuel) simp_all
  then show ?thesis
    by (auto simp: agent_phase_def act_fuel split: option.splits)
qed

lemma run_phases_fuel:
  assumes "job_fuel_ok E C data"
  shows "fst (run_phases E C metrics j J data s) \<noteq> Inl OutOfFuel"
proof -
  have stamp: "fst (stamp_phase E C j J run s) \<noteq> Inl OutOfFuel" for run and s :: "'a store_scheme"
    by (auto simp: stamp_phase_def bind_act_fuel basic_act_fuel stamp_attempts_fuel
        simp del: stamp_attempts.simps split: option.splits)
  have iso: "fst (isolate_phase E C j J data s) \<noteq> Inl OutOfFuel" for s :: "'a store_scheme"
    by (auto simp: isolate_phase_def Let_def act_fuel)
  have stop: "fst (stop_qemu_vm E n v 60 s) \<noteq> Inl OutOfFuel" for n v and s :: "'a store_scheme"
    using assms by (subst stop_qemu_vm_ok) (auto simp: job_fuel_ok_def)
  have power: "fst (power_phase E C j J data poll s) \<noteq> Inl OutOfFuel"
    if "task_poll_sec C = Inr poll" for poll and s :: "'a store_scheme"
  proof -
    have boot: "fst ((if \<not> jf_live J then start_phase E C j J poll else ret_act True) s) \<noteq> Inl OutOfFuel"
      for s :: "'a store_scheme"
      by (simp add: basic_act_fuel start_phase_fuel [OF assms that])
    have rest: "fst ((if \<not> b then ret_act False else f) s) \<noteq> Inl OutOfFuel"
      if "\<And>s. fst (f s) \<noteq> Inl OutOfFuel" for b and f :: "('a store_scheme, bool) act" and s
      using that by (simp add: basic_act_fuel)
    have http: "fst (bind_act (http_phase E C j url) (\<lambda>_. ret_act True) s) \<noteq> Inl OutOfFuel"
      for url and s :: "'a store_scheme"
      by (intro bind_no_fuel http_fuel) (simp add: basic_act_fuel)
    have on: "fst (bind_act (if \<not> jf_live J then start_phase E C j J poll else ret_act True) (\<lambda>go_on.
        if \<not> go_on then ret_act False
        else bind_act (agent_phase E C j J (job_qga_wait data) poll) (\<lambda>go_on.
          if \<not> go_on then ret_act False
          else bind_act (http_phase E C j url) (\<lambda>_. ret_act True))) s) \<noteq> Inl OutOfFuel" for url
      by (intro bind_no_fuel boot rest agent_phase_fuel [OF assms refl] http)
    have off: "fst (bind_act (stop_qemu_vm E n v 60) (\<lambda>_.
        bind_act (append_log E C j l g x) (\<lambda>_. ret_act True)) s) \<noteq> Inl OutOfFuel" for n v l g x
      by (intro bind_no_fuel stop store_acts_fuel) (simp add: basic_act_fuel)
    show ?thesis
      unfolding power_phase_def using on off by (cases "job_power_on J data") simp_all
  qed
  have poll: "task_poll_sec C = Inr p" if "restore_phase E C metrics j J s = (Inr (Some p), t)"
    for p and s t :: "'a store_scheme"
    using that by (auto simp: restore_phase_def bind_act_Inr_iff ret_act_def res_act_def)
  have after: "fst (bind_act (stamp_phase E C j J run) (\<lambda>_.
         bind_act (isolate_phase E C j J data) (\<lambda>_.
         bind_act (power_phase E C j J data p) (\<lambda>go_on.
         if \<not> go_on then ret_act ()
         else bind_act (set_state E C j COMPLETED m) (\<lambda>_. append_log E C j l g x)))) s)
      \<noteq> Inl OutOfFuel" if "task_poll_sec C = Inr p" for run p m l g x and s :: "'a store_scheme"
    by (intro bind_no_fuel stamp iso power [OF that]) (auto simp: act_fuel)
  show ?thesis
    using restore_phase_fuel [OF assms] poll after
    by (fastforce simp: run_phases_def bind_act_fuel basic_act_fuel split: option.splits)
qed

lemma process_job_no_fuel:
  assumes "job_fuel_ok E C (hgetall (job_key C j) s)"
  shows "fst (process_job E C metrics j s) \<noteq> Inl OutOfFuel"
proof -
  have "parse_job j d \<noteq> Inl OutOfFuel" for d
    by (auto simp: parse_job_def res_bind_fuel simp del: py_int.simps)
  then show ?thesis
    by (simp add: process_job_def Let_def act_fuel run_phases_fuel [OF assms])
qed

end
