(* ===== verification/JobEvidence.thy ===== *)
theory JobEvidence imports JobFuel
begin

text \<open>
  The evidence behind a completed job: what the calls of the phases of \<open>run_job\<close> and the answers to
  them were, in the order they were made.
\<close>

subsection \<open>The restore request and its task\<close>

definition restore_request :: "job_fields \<Rightarrow> restore_params" where
  "restore_request J = \<lparr>rp_vmid = jf_vmid J, rp_archive = jf_archive J, rp_storage = jf_storage J,
     rp_live = jf_live J, rp_unique = jf_unique J, rp_force = jf_force J,
     rp_bwlimit = effective_bwlimit (Some (jf_bwlimit J))\<rparr>"

text \<open>
  \<open>restored_in E J cs ds\<close>: the calls \<open>ds\<close>, made after \<open>cs\<close>, contain the restore request of the
  job, accepted, and later a status of a task of the job's node that is stopped and successful.
\<close>

definition restored_in :: "env \<Rightarrow> job_fields \<Rightarrow> ext_call list \<Rightarrow> ext_call list \<Rightarrow> bool" where
  "restored_in E J cs ds \<longleftrightarrow>
     (\<exists>pre raw mid upid d post.
        ds = pre @ [RestorePost (jf_node J) (restore_request J)] @ mid @ [TaskStatus (jf_node J) upid] @ post \<and>
        answer E (cs @ pre) (RestorePost (jf_node J) (restore_request J)) = Inr raw \<and>
        (raw = PStr upid \<or> (\<exists>m. raw = PDict m \<and> upid = py_str (py_or (dget m ''data'') (dget m ''upid'')))) \<and>
        answer E (cs @ pre @ [RestorePost (jf_node J) (restore_request J)] @ mid)
          (TaskStatus (jf_node J) upid) = Inr (PDict d) \<and>
        task_state d = ''stopped'' \<and> task_succeeded d)"

lemma guarded_wait_Some:
  "guarded_wait E C j msg h m s = (Inr (Some x), t) \<Longrightarrow> m s = (Inr x, t)"
  by (auto simp: guarded_wait_def bind_act_Inr_iff raise_act_def ret_act_def
      split: prod.splits sum.splits exn.splits)

lemma submit_restore_Inr:
  assumes "submit_restore E n v a st live bw u f s = (Inr upid, t)"
  shows "\<exists>raw. let c = RestorePost n \<lparr>rp_vmid = v, rp_archive = a, rp_storage = st, rp_live = live,
       rp_unique = u, rp_force = f, rp_bwlimit = effective_bwlimit bw\<rparr>
     in calls t = calls s @ [c] \<and> answer E (calls s) c = Inr raw \<and>
        (raw = PStr upid \<or> (\<exists>m. raw = PDict m \<and> upid = py_str (py_or (dget m ''data'') (dget m ''upid''))))"
proof -
  let ?c = "RestorePost n \<lparr>rp_vmid = v, rp_archive = a, rp_storage = st, rp_live = live,
       rp_unique = u, rp_force = f, rp_bwlimit = effective_bwlimit bw\<rparr>"
  from assms obtain raw s1 where "call E ?c s = (Inr raw, s1)" and
    "res_act (case raw of
          PStr u \<Rightarrow> Inr u
        | PDict d \<Rightarrow>
            let upid = py_or (dget d ''data'') (dget d ''upid'')
            in if truthy upid then Inr (py_str upid)
               else Inl (RuntimeError (''Unexpected restore response: '' @ repr_val raw))
        | _ \<Rightarrow> Inl (RuntimeError (''Unexpected restore response: '' @ repr_val raw))) s1 = (Inr upid, t)"
    by (simp only: submit_restore_def bind_act_Inr_iff) blast
  then show ?thesis
    by (cases raw) (auto simp: call_def res_act_def Let_def split: if_splits)
qed

lemma wait_Inr:
  assumes "keeps extends sc" "\<And>d ls. keeps extends (tick d ls)"
    and "wait_for_task E node upid interval timeout sc tick s = (Inr d, t)"
  shows "task_state d = ''stopped'' \<and> task_succeeded d \<and> task_seen E node upid d s t"
  by (rule task_poll_Inr [OF assms(1) _ assms(3) [unfolded wait_for_task_def]]) (rule assms(2))

lemma restore_phase_Some:
  assumes "restore_phase E C metrics j J s = (Inr (Some p), t)"
  shows "\<exists>ds. calls t = calls s @ ds \<and> restored_in E J (calls s) ds"
proof -
  define wait :: "string \<Rightarrow> rat \<Rightarrow> ('a store_scheme, dict) act"
    where "wait u poll = wait_for_task E (jf_node J) u poll (task_timeout_sec C) (cancel_flag E C j)
            (on_tick E C metrics j)" for u poll
  from assms obtain s0 s1 s2 s3 s4 s5 s6 s7 upid started poll d where
    a: "set_state E C j RESTORING [(''progress'', ''5'')] s = (Inr (), s0)"
    and b: "append_log E C j ''INFO'' ''RESTORING''
        (''Submitting '' @ jf_mode J @ '' restore for '' @ jf_backup_id J @ '' -> VMID '' @
         str_of_int (jf_vmid J) @ '' (unique='' @ flag (jf_unique J) @ '', force='' @
         flag (jf_force J) @ '', live='' @ flag (jf_live J) @ '')'') s0 = (Inr (), s1)"
    and c: "wire_phase E C j (jf_backup_id J) s1 = (Inr (), s2)"
    and e: "connect_proxmox E C s2 = (Inr (), s3)"
    and sub: "submit_restore E (jf_node J) (jf_vmid J) (jf_archive J) (jf_storage J) (jf_live J)
                 (Some (jf_bwlimit J)) (jf_unique J) (jf_force J) s3 = (Inr upid, s4)"
    and g: "upd_act (hset (job_key C j)
        [(''pve_upid'', upid), (''progress'', ''15''), (''restore_started_at'', started),
         (''updated_at'', started), (''progress_samples'', ''0'')]) s4 = (Inr (), s5)"
    and l: "append_log E C j ''INFO'' ''RESTORING'' (''PVE task started: '' @ upid) s5 = (Inr (), s6)"
    and w: "guarded_wait E C j (''PVE restore task '' @ upid @ '' stopped'') (\<lambda>_. ret_act ())
        (wait upid poll) s6 = (Inr (Some d), s7)" and t: "t = s7"
    by (auto simp: restore_phase_def bind_act_Inr_iff ret_act_def get_act_def res_act_def wait_def)
  have pre: "keeps extends (append_log E C j lv sg m)" "keeps extends (set_state E C j RESTORING x)"
    "keeps extends (connect_proxmox E C)" for lv sg m x
    by (rule keeps_job_extends [OF keeps_append_log],
        rule keeps_job_extends [OF keeps_set_state [OF subset_UNIV]],
        rule keeps_job_extends [OF keeps_job_emits [OF keeps_connect_proxmox subset_UNIV]])
  have wire: "keeps extends (wire_phase E C j x)" for x
    unfolding wire_phase_def
    by (rule keeps_job_extends [where C = C and j = j and F = UNIV and S = UNIV])
      (intro job.keeps_bind keeps_job_call job.keeps_if keeps_note_fields keeps_append_log; simp)
  have "extends s s3"
    using keepsD [OF pre(2) a] keepsD [OF pre(1) b] keepsD [OF wire c] keepsD [OF pre(3) e]
    by (blast intro: grows.trans)
  then obtain cs where s3: "calls s3 = calls s @ cs" by (auto simp: extends_def)
  let ?c = "RestorePost (jf_node J) (restore_request J)"
  from submit_restore_Inr [OF sub] obtain raw where s4: "calls s4 = calls s3 @ [?c]"
    "answer E (calls s3) ?c = Inr raw"
    "raw = PStr upid \<or> (\<exists>m. raw = PDict m \<and> upid = py_str (py_or (dget m ''data'') (dget m ''upid'')))"
    by (auto simp: restore_request_def Let_def)
  have s6: "calls s6 = calls s4"
    using g append_log_calls [OF l] by (auto simp: upd_act_def hset_def)
  from guarded_wait_Some [OF w] have "wait upid poll s6 = (Inr d, s7)" .
  from wait_Inr [OF grows_cancel_flag grows_on_tick this [unfolded wait_def]]
  obtain mid post where "task_state d = ''stopped''" "task_succeeded d"
    "calls s7 = calls s6 @ mid @ [TaskStatus (jf_node J) upid] @ post"
    "answer E (calls s6 @ mid) (TaskStatus (jf_node J) upid) = Inr (PDict d)"
    by (auto simp: task_seen_def)
  with s3 s4 s6 t show ?thesis
    unfolding restored_in_def
    by (intro exI [of _ "cs @ [?c] @ mid @ [TaskStatus (jf_node J) upid] @ post"] conjI
        exI [of _ cs] exI [of _ raw] exI [of _ mid] exI [of _ upid] exI [of _ d] exI [of _ post])
      simp_all
qed

subsection \<open>Power evidence\<close>

text \<open>
  \<open>answered E cs ds c Q\<close>: among the calls \<open>ds\<close>, made after \<open>cs\<close>, is the call \<open>c\<close>, and its answer
  had \<open>Q\<close>.
\<close>

definition answered :: "env \<Rightarrow> ext_call list \<Rightarrow> ext_call list \<Rightarrow> ext_call \<Rightarrow> (pyval \<Rightarrow> bool) \<Rightarrow> bool" where
  "answered E cs ds c Q \<longleftrightarrow>
     (\<exists>pre raw post. ds = pre @ c # post \<and> answer E (cs @ pre) c = Inr raw \<and> Q raw)"

text \<open>The task id in the answer of a start, if there is one\<close>

definition start_task :: "pyval \<Rightarrow> string option" where
  "start_task result =
     (case result of
        PStr u \<Rightarrow> if strip u \<noteq> [] then Some (strip u) else None
      | PDict d \<Rightarrow>
          let upid = py_or (dget d ''data'') (dget d ''upid'')
          in if truthy upid then Some (py_str upid) else None
      | _ \<Rightarrow> None)"

text \<open>The start of the guest was accepted, and its task, if it has one, seen stopped and successful.\<close>

definition started_in :: "env \<Rightarrow> string \<Rightarrow> int \<Rightarrow> ext_call list \<Rightarrow> ext_call list \<Rightarrow> bool" where
  "started_in E node v cs ds \<longleftrightarrow>
     (\<exists>pre raw post. ds = pre @ StatusStart node v # post \<and> answer E (cs @ pre) (StatusStart node v) = Inr raw \<and>
        (\<forall>u. start_task raw = Some u \<longrightarrow>
           (\<exists>d. task_state d = ''stopped'' \<and> task_succeeded d \<and>
                answered E (cs @ pre @ [StatusStart node v]) post (TaskStatus node u) (\<lambda>r. r = PDict d))))"

text \<open>
  The power evidence of a job. Powered on: started (unless the live restore did it), then the agent
  answered a ping (if the job waits for it), then the URL (if it has one) answered below 400. Kept
  off: the stop was requested first of all; the code ignores a refused stop.
\<close>

definition power_evidence :: "env \<Rightarrow> job_fields \<Rightarrow> hash \<Rightarrow> ext_call list \<Rightarrow> ext_call list \<Rightarrow> bool" where
  "power_evidence E J data cs ds \<longleftrightarrow>
     (if job_power_on J data then
        set ds \<subseteq> power_on_calls (jf_node J) (jf_vmid J) \<and>
        (\<exists>boot agent http. ds = boot @ agent @ http \<and>
           (if jf_live J then boot = [] else started_in E (jf_node J) (jf_vmid J) cs boot) \<and>
           (0 < job_qga_wait data \<longrightarrow>
              (\<exists>b. answered E (cs @ boot) agent (AgentPing (jf_node J) (jf_vmid J) b) (\<lambda>_. True))) \<and>
           (if strip (hfield data ''http_check_url'') = [] then http = []
            else answered E (cs @ boot @ agent) http (HttpGet (strip (hfield data ''http_check_url'')))
                   (\<lambda>r. \<exists>code. py_int r = Inr code \<and> code < 400)))
      else
        set ds \<subseteq> stop_calls (strip (jf_node J)) (jf_vmid J) \<and>
        (\<exists>more. ds = StatusStop (strip (jf_node J)) (jf_vmid J) 60 # more))"

lemma answered_before: "answered E (cs @ xs) ds c Q \<Longrightarrow> answered E cs (xs @ ds) c Q"
  unfolding answered_def by (metis append_assoc)

lemma answered_after: "answered E cs ds c Q \<Longrightarrow> answered E cs (ds @ xs) c Q"
  unfolding answered_def by fastforce

lemma answered_call: "call E c s = (Inr x, t) \<Longrightarrow> Q x \<Longrightarrow> answered E (calls s) [c] c Q \<and> calls t = calls s @ [c]"
  by (auto simp: call_def answered_def intro!: exI [of _ "[]"])

text \<open>\<open>answered_run E s t c Q\<close>: the same between two states.\<close>

definition answered_run ::
  "env \<Rightarrow> 'x store_scheme \<Rightarrow> 'x store_scheme \<Rightarrow> ext_call \<Rightarrow> (pyval \<Rightarrow> bool) \<Rightarrow> bool" where
  "answered_run E s t c Q \<longleftrightarrow> (\<exists>ds. calls t = calls s @ ds \<and> answered E (calls s) ds c Q)"

lemma answered_run_in:
  assumes "extends s s1" "call E c s1 = (Inr x, s2)" "Q x" "extends s2 t"
  shows "answered_run E s t c Q"
proof -
  obtain xs ys where "calls s1 = calls s @ xs" "calls t = calls s2 @ ys"
    using assms(1,4) by (auto simp: extends_def)
  moreover from answered_call [of E c s1 x s2 Q, OF assms(2,3)]
  have "answered E (calls s1) [c] c Q" "calls s2 = calls s1 @ [c]" by blast+
  ultimately have "calls t = calls s @ (xs @ [c] @ ys)" "answered E (calls s) (xs @ [c] @ ys) c Q"
    using answered_before [OF answered_after, of E "calls s" xs "[c]" c Q ys] by simp_all
  then show ?thesis unfolding answered_run_def by blast
qed

lemma answered_run_after: "answered_run E s s1 c Q \<Longrightarrow> extends s1 t \<Longrightarrow> answered_run E s t c Q"
  unfolding answered_run_def extends_def using answered_after by (metis append_assoc)

lemma answered_run_before: "extends s s1 \<Longrightarrow> answered_run E s1 t c Q \<Longrightarrow> answered_run E s t c Q"
  unfolding answered_run_def extends_def using answered_before by (metis append_assoc)

lemma ping_answered:
  assumes "qemu_agent_ping E node v s = (Inr True, t)"
  shows "\<exists>b. answered_run E s t (AgentPing node v b) (\<lambda>_. True)"
proof (cases "answer E (calls s) (AgentPing node v False)")
  case (Inr x)
  with assms have "call E (AgentPing node v False) s = (Inr x, t)"
    by (auto simp: qemu_agent_ping_def bind_act_def catch_act_def call_def ret_act_def)
  from answered_run_in [OF grows.refl this TrueI grows.refl] show ?thesis by blast
next
  case (Inl e)
  let ?s1 = "s\<lparr>calls := calls s @ [AgentPing node v False]\<rparr>"
  from Inl assms obtain x where "call E (AgentPing node v True) ?s1 = (Inr x, t)"
    by (auto simp: qemu_agent_ping_def bind_act_def catch_act_def call_def ret_act_def
        split: sum.splits if_splits)
  moreover have "extends s ?s1" by (simp add: extends_def)
  ultimately have "answered_run E s t (AgentPing node v True) (\<lambda>_. True)"
    by (intro answered_run_in [OF _ _ TrueI grows.refl])
  then show ?thesis by blast
qed

lemma agent_poll_answered:
  assumes "agent_poll n E node v tmo i sc st dl s = (Inr w, t)" "keeps extends sc"
  shows "\<exists>b. answered_run E s t (AgentPing node v b) (\<lambda>_. True)"
  using assms(1)
proof (induction n arbitrary: s)
  case 0
  then show ?case by (simp add: raise_act_def)
next
  case (Suc n)
  then obtain s1 up s2 where c: "sc s = (Inr False, s1)"
    and p: "qemu_agent_ping E node v s1 = (Inr up, s2)"
    and k: "(if up then (Inr (max 0 (now E s2 - st)), s2)
         else if dl \<le> now E s2 then
           (Inl (TimeoutError (''QEMU guest agent did not respond within '' @
              str_of_int (trunc_rat tmo) @ ''s (VMID '' @ str_of_int v @ '' on '' @ node @ '')'')), s2)
         else bind_act (sleep (max (1/2) i)) (\<lambda>_. agent_poll n E node v tmo i sc st dl) s2) = (Inr w, t)"
    by (auto simp: bind_act_Inr_iff raise_act_def split: if_splits)
  from keepsD [OF assms(2) c] have s1: "extends s s1" .
  show ?case
  proof (cases up)
    case True
    with k p have "qemu_agent_ping E node v s1 = (Inr True, t)" by simp
    from ping_answered [OF this] s1 answered_run_before show ?thesis by blast
  next
    case False
    with k have "bind_act (sleep (max (1/2) i)) (\<lambda>_. agent_poll n E node v tmo i sc st dl) s2 = (Inr w, t)"
      by (auto split: if_splits)
    then obtain s3 where z: "sleep (max (1/2) i) s2 = (Inr (), s3)" "agent_poll n E node v tmo i sc st dl s3 = (Inr w, t)"
      by (auto simp: bind_act_Inr_iff)
    have "extends s1 s2"
      using keepsD [OF keeps_job_extends [OF keeps_job_emits [OF keeps_agent_ping subset_UNIV]] p] .
    moreover have "extends s2 s3" using z(1) by (auto simp: sleep_def extends_def)
    ultimately have "extends s s3" using s1 by (blast intro: grows.trans)
    with Suc.IH [OF z(2)] answered_run_before show ?thesis by blast
  qed
qed

lemma catch_act_Inr_iff:
  "catch_act m h s = (Inr y, t) \<longleftrightarrow> m s = (Inr y, t) \<or>
     (\<exists>e s'. m s = (Inl e, s') \<and> e \<noteq> OutOfFuel \<and> h e s' = (Inr y, t))"
  by (auto simp: catch_act_def split: prod.splits sum.splits if_splits)

lemma grows_notes:
  "keeps extends (append_log E C j lv sg m)" "keeps extends (note_fields E C j fs)"
  "keeps extends (cancel_flag E C j)" "keeps extends (check_guest_hostname E C j node v)"
  using keeps_job_extends [OF keeps_append_log] keeps_job_extends [OF keeps_note_fields [OF subset_UNIV]]
    grows_cancel_flag keeps_job_extends [OF keeps_check_hostname] by blast+

lemma task_seen_answered:
  "task_seen E node u d s t \<Longrightarrow> answered_run E s t (TaskStatus node u) (\<lambda>r. r = PDict d)"
  by (fastforce simp: task_seen_def answered_run_def answered_def)

lemma start_qemu_Inr:
  assumes "start_qemu_vm E node v s = (Inr u, t)"
  shows "\<exists>raw. answer E (calls s) (StatusStart node v) = Inr raw \<and> u = start_task raw \<and>
    calls t = calls s @ [StatusStart node v]"
  using assms
  by (auto simp: start_qemu_vm_def bind_act_Inr_iff call_def ret_act_def start_task_def Let_def)

lemma start_phase_True:
  assumes "start_phase E C j J poll s = (Inr True, t)"
  shows "\<exists>ds. calls t = calls s @ ds \<and> started_in E (jf_node J) (jf_vmid J) (calls s) ds"
proof -
  let ?c = "StatusStart (jf_node J) (jf_vmid J)"
  from assms obtain u s1 s2 s3 where
    l: "append_log E C j ''INFO'' ''RESTORING''
        (''Starting VMID '' @ str_of_int (jf_vmid J) @ '' after restore'') s = (Inr (), s1)"
    and st: "start_qemu_vm E (jf_node J) (jf_vmid J) s1 = (Inr u, s2)"
    and w: "(case u of
          None \<Rightarrow> ret_act True
        | Some u \<Rightarrow>
            bind_act (guarded_wait E C j ''VM start cancelled'' (\<lambda>_. ret_act ())
                (wait_for_task E (jf_node J) u poll (task_timeout_sec C) (cancel_flag E C j)
                   (\<lambda>d ls. ret_act ())))
              (\<lambda>done. ret_act (done \<noteq> None))) s2 = (Inr True, s3)"
    and n: "note_fields E C j [(''powered_off'', ''0'')] s3 = (Inr (), t)"
    by (auto simp: start_phase_def bind_act_Inr_iff catch_act_Inr_iff raise_act_def ret_act_def split: if_splits)
  from start_qemu_Inr [OF st] obtain raw where raw: "answer E (calls s1) ?c = Inr raw" "u = start_task raw"
    "calls s2 = calls s1 @ [?c]" by blast
  have s1: "calls s1 = calls s" using append_log_calls [OF l] .
  have t: "extends s3 t" by (rule keepsD [OF grows_notes(2) n])
  have "\<exists>post. calls t = calls s2 @ post \<and> (\<forall>u'. u = Some u' \<longrightarrow>
      (\<exists>d. task_state d = ''stopped'' \<and> task_succeeded d \<and>
         answered E (calls s2) post (TaskStatus (jf_node J) u') (\<lambda>r. r = PDict d)))"
  proof (cases u)
    case None
    with w t show ?thesis by (auto simp: ret_act_def extends_def)
  next
    case (Some u')
    with w obtain d where "guarded_wait E C j ''VM start cancelled'' (\<lambda>_. ret_act ())
        (wait_for_task E (jf_node J) u' poll (task_timeout_sec C) (cancel_flag E C j) (\<lambda>d ls. ret_act ())) s2
        = (Inr (Some d), s3)" by (auto simp: bind_act_Inr_iff ret_act_def)
    from wait_Inr [OF grows_cancel_flag grows.keeps_ret guarded_wait_Some [OF this]]
    have d: "task_state d = ''stopped''" "task_succeeded d" "task_seen E (jf_node J) u' d s2 s3" by simp_all
    from answered_run_after [OF task_seen_answered [OF d(3)] t] d(1,2) Some show ?thesis
      unfolding answered_run_def by blast
  qed
  then obtain post where post: "calls t = calls s2 @ post" "\<forall>u'. u = Some u' \<longrightarrow>
      (\<exists>d. task_state d = ''stopped'' \<and> task_succeeded d \<and>
         answered E (calls s2) post (TaskStatus (jf_node J) u') (\<lambda>r. r = PDict d))" by blast
  then have "started_in E (jf_node J) (jf_vmid J) (calls s) (?c # post)"
    unfolding started_in_def using raw s1 by (intro exI [of _ "[]"]) auto
  moreover have "calls t = calls s @ ?c # post" using post(1) raw(3) s1 by simp
  ultimately show ?thesis by blast
qed

lemma agent_phase_True:
  assumes "agent_phase E C j J qga poll s = (Inr True, t)"
  shows "\<exists>ds. calls t = calls s @ ds \<and>
    (0 < qga \<longrightarrow> (\<exists>b. answered E (calls s) ds (AgentPing (jf_node J) (jf_vmid J) b) (\<lambda>_. True)))"
proof (cases "0 < qga")
  case False
  have "extends s t"
    using keepsD [OF keeps_job_extends [OF keeps_power_on(2)] assms] .
  with False show ?thesis by (auto simp: extends_def)
next
  case True
  with assms obtain w s1 s2 where l: "append_log E C j ''INFO'' ''RESTORING''
        (''Waiting up to '' @ str_of_int qga @ ''s for QEMU guest agent on VMID '' @ str_of_int (jf_vmid J)) s = (Inr (), s1)"
    and g: "guarded_wait E C j ''QGA wait cancelled''
        (\<lambda>_. note_fields E C j [(''qga_ok'', ''0''), (''qga_waited_sec'', str_of_int qga)])
        (wait_for_qemu_agent E (jf_node J) (jf_vmid J) (of_int qga) (min 5 (max 1 poll)) (cancel_flag E C j)) s1
        = (Inr (Some w), s2)"
    and k: "bind_act (note_fields E C j [(''qga_ok'', ''1''), (''qga_waited_sec'', fixed1 w)]) (\<lambda>_.
            bind_act (append_log E C j ''INFO'' ''RESTORING'' (''QEMU guest agent OK after '' @ fixed1 w @ ''s'')) (\<lambda>_.
            bind_act (check_guest_hostname E C j (jf_node J) (jf_vmid J)) (\<lambda>_. ret_act True))) s2 = (Inr True, t)"
    by (auto simp: agent_phase_def bind_act_Inr_iff [of "append_log E C j a b c" for a b c]
        bind_act_Inr_iff [of "guarded_wait E C j a b c" for a b c] ret_act_def split: option.splits)
  let ?k = "bind_act (note_fields E C j [(''qga_ok'', ''1''), (''qga_waited_sec'', fixed1 w)]) (\<lambda>_.
            bind_act (append_log E C j ''INFO'' ''RESTORING'' (''QEMU guest agent OK after '' @ fixed1 w @ ''s'')) (\<lambda>_.
            bind_act (check_guest_hostname E C j (jf_node J) (jf_vmid J)) (\<lambda>_. ret_act True)))"
  have "keeps extends ?k" by (intro grows.keeps_bind grows.keeps_ret grows_notes)
  then have "extends s2 t" using k by (rule keepsD)
  from agent_poll_answered [OF guarded_wait_Some [OF g, unfolded wait_for_qemu_agent_def] grows_notes(3)]
    answered_run_after [OF _ this] answered_run_before [OF keepsD [OF grows_notes(1) l]]
  show ?thesis unfolding answered_run_def by blast
qed

lemma http_phase_Inr:
  assumes "http_phase E C j url s = (Inr (), t)"
  shows "\<exists>ds. calls t = calls s @ ds \<and>
    (if url = [] then ds = [] else answered E (calls s) ds (HttpGet url) (\<lambda>r. \<exists>code. py_int r = Inr code \<and> code < 400))"
proof (cases "url = []")
  case True
  with assms show ?thesis by (simp add: http_phase_def ret_act_def)
next
  case False
  with assms obtain s1 resp s2 code where l: "append_log E C j ''INFO'' ''RESTORING'' (''HTTP check '' @ url) s = (Inr (), s1)"
    and c: "call E (HttpGet url) s1 = (Inr resp, s2)" and code: "py_int resp = Inr code" "code < 400"
    and k: "bind_act (note_fields E C j [(''http_check_ok'', ''1'')]) (\<lambda>_.
           append_log E C j ''INFO'' ''RESTORING'' (''HTTP check OK ('' @ str_of_int code @ '')'')) s2 = (Inr (), t)"
    by (auto simp: http_phase_def bind_act_Inr_iff catch_act_Inr_iff raise_act_def ret_act_def res_act_def
        when_act_def split: if_splits)
  let ?k = "bind_act (note_fields E C j [(''http_check_ok'', ''1'')]) (\<lambda>_.
           append_log E C j ''INFO'' ''RESTORING'' (''HTTP check OK ('' @ str_of_int code @ '')''))"
  have "keeps extends ?k" by (intro grows.keeps_bind grows_notes)
  then have "extends s2 t" using k by (rule keepsD)
  with answered_run_in [OF keepsD [OF grows_notes(1) l] c] code False show ?thesis
    unfolding answered_run_def by auto
qed

lemma stop_qemu_calls:
  assumes "stop_qemu_vm E node v tmo s = (r, t)"
  shows "\<exists>more. calls t = calls s @ StatusStop (strip node) v tmo # more"
proof -
  let ?s1 = "s\<lparr>calls := calls s @ [StatusStop (strip node) v tmo]\<rparr>"
  have "stop_poll (fuel E) E (strip node) v (now E ?s1 + of_int (max 5 tmo)) ?s1 = (r, t)"
    using assms answer_no_fuel [of E "calls s" "StatusStop (strip node) v tmo"]
    by (cases "answer E (calls s) (StatusStop (strip node) v tmo)")
      (auto simp: stop_qemu_vm_def Let_def bind_act_def catch_act_def call_def ret_act_def)
  from keepsD [OF stop_poll_no_delete this] show ?thesis by (auto simp: emits_rel_def)
qed

subsection \<open>Completed runs\<close>

lemma isolate_phase_off:
  "job_net_mode data \<notin> {''unlink'', ''remap''} \<Longrightarrow> isolate_phase E C j J data = ret_act ()"
  by (simp add: isolate_phase_def Let_def)

lemma job_rel_calls: "job_rel C j F S s t \<Longrightarrow> \<exists>cs. calls t = calls s @ cs \<and> set cs \<subseteq> S"
  by (simp add: job_rel_def)

text \<open>The last phases do not touch the ownership mark in the job's hash.\<close>

lemma later_marked:
  "job_rel C j later_fields S s t \<Longrightarrow>
   map_of (hgetall (job_key C j) t) ''managed_marked'' = map_of (hgetall (job_key C j) s) ''managed_marked''"
  by (simp add: job_rel_def)

definition run_evidence :: "env \<Rightarrow> string \<Rightarrow> job_fields \<Rightarrow> hash \<Rightarrow> ext_call list \<Rightarrow> ext_call list \<Rightarrow> bool" where
  "run_evidence E j J data cs ds \<longleftrightarrow>
     (\<exists>restore stamp isolate power. ds = restore @ stamp @ isolate @ power \<and>
        restored_in E J cs restore \<and> set restore \<subseteq> restore_calls (jf_node J) \<and>
        stamped_in E (strip (jf_node J)) (jf_vmid J) j (hfield data ''plan_run_id'') (cs @ restore) stamp \<and>
        set stamp \<subseteq> stamp_calls (strip (jf_node J)) (jf_vmid J) \<and>
        (if job_net_mode data \<in> {''unlink'', ''remap''}
         then isolated_in E (jf_node J) (jf_vmid J) (job_net_mode data) (job_lab_bridge data)
                (cs @ restore @ stamp) isolate
         else isolate = []) \<and>
        power_evidence E J data (cs @ restore @ stamp @ isolate) power)"

lemma isolate_phase_calls:
  assumes "isolate_phase E C j J data s = (Inr (), t)"
  shows "\<exists>ds. calls t = calls s @ ds \<and>
    (if job_net_mode data \<in> {''unlink'', ''remap''}
     then isolated_in E (jf_node J) (jf_vmid J) (job_net_mode data) (job_lab_bridge data) (calls s) ds
     else ds = [])"
proof (cases "job_net_mode data \<in> {''unlink'', ''remap''}")
  case True
  with isolate_phase_Inr [OF assms] show ?thesis by simp
next
  case False
  with assms have "t = s" by (simp add: isolate_phase_off ret_act_def)
  with False show ?thesis by simp
qed

lemma power_phase_True:
  assumes "power_phase E C j J data poll s = (Inr True, t)"
  shows "\<exists>ds. calls t = calls s @ ds \<and> power_evidence E J data (calls s) ds"
proof (cases "job_power_on J data")
  case True
  let ?url = "strip (hfield data ''http_check_url'')"
  from assms True obtain s1 s2 where
    b: "(if \<not> jf_live J then start_phase E C j J poll else ret_act True) s = (Inr True, s1)"
    and a: "agent_phase E C j J (job_qga_wait data) poll s1 = (Inr True, s2)"
    and h: "http_phase E C j ?url s2 = (Inr (), t)"
    by (auto simp: power_phase_def bind_act_Inr_iff [of "if c then m else n" for c m n]
        bind_act_Inr_iff [of "agent_phase E C j J q p" for q p] bind_act_Inr_iff [of "http_phase E C j u" for u]
        ret_act_def split: if_splits)
  obtain boot where boot: "calls s1 = calls s @ boot"
    "if jf_live J then boot = [] else started_in E (jf_node J) (jf_vmid J) (calls s) boot"
  proof (cases "jf_live J")
    case True
    with b show ?thesis by (intro that [of "[]"]) (auto simp: ret_act_def)
  next
    case False
    with b have "start_phase E C j J poll s = (Inr True, s1)" by simp
    from start_phase_True [OF this] False show ?thesis using that by auto
  qed
  from agent_phase_True [OF a] obtain agent where agent: "calls s2 = calls s1 @ agent"
    "0 < job_qga_wait data \<longrightarrow> (\<exists>b. answered E (calls s1) agent (AgentPing (jf_node J) (jf_vmid J) b) (\<lambda>_. True))"
    by blast
  from http_phase_Inr [OF h] obtain http where http: "calls t = calls s2 @ http"
    "if ?url = [] then http = [] else answered E (calls s2) http (HttpGet ?url) (\<lambda>r. \<exists>code. py_int r = Inr code \<and> code < 400)"
    by blast
  have t: "calls t = calls s @ (boot @ agent @ http)" using boot(1) agent(1) http(1) by simp
  moreover have "set (boot @ agent @ http) \<subseteq> power_on_calls (jf_node J) (jf_vmid J)"
    using job_rel_calls [OF keepsD [OF keeps_power_phase(1) [OF True] assms]] t by auto
  moreover have "0 < job_qga_wait data \<longrightarrow>
      (\<exists>b. answered E (calls s @ boot) agent (AgentPing (jf_node J) (jf_vmid J) b) (\<lambda>_. True))"
    using agent(2) by (simp only: boot(1))
  moreover have "if ?url = [] then http = []
      else answered E (calls s @ boot @ agent) http (HttpGet ?url) (\<lambda>r. \<exists>code. py_int r = Inr code \<and> code < 400)"
    using http(2) by (simp only: agent(1) boot(1) append_assoc)
  ultimately show ?thesis
    unfolding power_evidence_def if_P [OF True]
    by (intro exI conjI) (assumption | rule refl boot(2))+
next
  case False
  with assms obtain s1 where s1: "stop_qemu_vm E (jf_node J) (jf_vmid J) 60 s = (Inr (), s1)" "calls t = calls s1"
    by (auto simp: power_phase_def bind_act_Inr_iff ret_act_def dest: append_log_calls)
  from stop_qemu_calls [OF s1(1)] s1(2) False job_rel_calls [OF keepsD [OF keeps_power_phase(2) [OF False] assms]]
  show ?thesis by (auto simp: power_evidence_def)
qed

lemma run_phases_evidence:
  assumes "run_phases E C metrics j J data s = (Inr (), t)"
    and "job_state (job_key C j) t = state_value COMPLETED"
  shows "\<exists>ds. calls t = calls s @ ds \<and> run_evidence E j J data (calls s) ds \<and>
    map_of (hgetall (job_key C j) t) ''managed_marked'' = Some ''1''"
  using assms(1)
proof (cases rule: run_phases_Inr)
  case cancelled
  with assms(2) show ?thesis by simp
next
  case (completed poll s1 s2 s3 s4)
  from restore_phase_Some [OF completed(1)] keepsD [OF keeps_restore_phase completed(1)]
  obtain c1 where c1: "calls s1 = calls s @ c1" "restored_in E J (calls s) c1"
    "set c1 \<subseteq> restore_calls (jf_node J)" by (auto dest!: job_rel_calls)
  from stamp_phase_Inr [OF completed(2)] keepsD [OF keeps_stamp_phase completed(2)]
  obtain c2 where c2: "calls s2 = calls s1 @ c2" "set c2 \<subseteq> stamp_calls (strip (jf_node J)) (jf_vmid J)"
    "stamped_in E (strip (jf_node J)) (jf_vmid J) j (hfield data ''plan_run_id'') (calls s1) c2"
    and mark: "map_of (hgetall (job_key C j) s2) ''managed_marked'' = Some ''1''"
    by (auto dest!: job_rel_calls)
  from isolate_phase_calls [OF completed(3)] obtain c3 where c3: "calls s3 = calls s2 @ c3"
    "if job_net_mode data \<in> {''unlink'', ''remap''}
     then isolated_in E (jf_node J) (jf_vmid J) (job_net_mode data) (job_lab_bridge data) (calls s2) c3
     else c3 = []" by blast
  let ?P = "if job_power_on J data then power_on_calls (jf_node J) (jf_vmid J)
                      else stop_calls (strip (jf_node J)) (jf_vmid J)"
  have power: "job_rel C j later_fields ?P s3 s4"
    using completed(4) keepsD [OF keeps_power_phase(1)] keepsD [OF keeps_power_phase(2)]
    by (cases "job_power_on J data") simp_all
  from power_phase_True [OF completed(4)] obtain c4 where
    c4: "calls s4 = calls s3 @ c4" "power_evidence E J data (calls s3) c4" by blast
  have t: "calls t = calls s4" using job_rel_calls [OF completed(5)] by simp
  have "map_of (hgetall (job_key C j) t) ''managed_marked'' = Some ''1''"
    using mark later_marked [OF keepsD [OF keeps_isolate_phase completed(3)]]
      later_marked [OF power] later_marked [OF completed(5)] by simp
  moreover have "run_evidence E j J data (calls s) (c1 @ c2 @ c3 @ c4)"
    unfolding run_evidence_def
    by (intro exI conjI, rule refl)
      (rule c1(2) c1(3) c2(2) c4(2) [unfolded c3(1) c2(1) c1(1) append_assoc] c2(3) [unfolded c1(1)]
        c3(2) [unfolded c2(1) c1(1) append_assoc])+
  moreover have "calls t = calls s @ c1 @ c2 @ c3 @ c4"
    by (simp only: t c4(1) c3(1) c2(1) c1(1) append_assoc)
  ultimately show ?thesis by blast
qed

text \<open>What \<open>process_job\<close> does with a job that exists and is not cancelled\<close>

lemma process_job_start:
  "hgetall (job_key C j) s = [] \<Longrightarrow> process_job E C metrics j s = (Inr (), s)"
  "hgetall (job_key C j) s \<noteq> [] \<Longrightarrow> cancel_requested E C j s \<Longrightarrow>
     process_job E C metrics j s = mark_cancelled E C j s"
  "hgetall (job_key C j) s \<noteq> [] \<Longrightarrow> \<not> cancel_requested E C j s \<Longrightarrow>
     process_job E C metrics j s =
       bind_act (res_act (parse_job j (hgetall (job_key C j) s)))
         (\<lambda>J. run_phases E C metrics j J (hgetall (job_key C j) s)) s"
  by (simp_all add: process_job_def Let_def)

lemma process_job_completed:
  assumes "process_job E C metrics j s = (Inr (), t)" "job_state (job_key C j) t = state_value COMPLETED"
  shows "\<exists>J ds. parse_job j (hgetall (job_key C j) s) = Inr J \<and> calls t = calls s @ ds \<and>
     run_evidence E j J (hgetall (job_key C j) s) (calls s) ds \<and>
     map_of (hgetall (job_key C j) t) ''managed_marked'' = Some ''1''"
proof (cases "hgetall (job_key C j) s = []")
  case True
  with assms show ?thesis by (simp add: process_job_start job_state_def hfield_def)
next
  case data: False
  show ?thesis
  proof (cases "cancel_requested E C j s")
    case True
    with assms data have "mark_cancelled E C j s = (Inr (), t)" by (simp add: process_job_start)
    with assms(2) show ?thesis by (auto dest!: mark_cancelled_state)
  next
    case False
    with assms(1) data obtain J where "parse_job j (hgetall (job_key C j) s) = Inr J"
      "run_phases E C metrics j J (hgetall (job_key C j) s) s = (Inr (), t)"
      by (auto simp: process_job_start bind_act_Inr_iff res_act_def)
    with run_phases_evidence [OF this(2) assms(2)] show ?thesis by blast
  qed
qed

end
