(* ===== verification/JobRun.thy ===== *)
theory JobRun imports JobEvidence
begin

text \<open>
  What a run of \<open>run_job\<close> guarantees: the evidence behind a completed job, completion in a healthy
  environment, the slot that is given back, cancellation before the start, and what other jobs see of it.
\<close>

subsection \<open>Runs that succeed\<close>

text \<open>\<open>runs P m Q\<close>: from a state with \<open>P\<close> the command returns, keeps \<open>P\<close>, and its result has \<open>Q\<close>.\<close>

definition runs :: "('s \<Rightarrow> bool) \<Rightarrow> ('s, 'a) act \<Rightarrow> ('a \<Rightarrow> bool) \<Rightarrow> bool" where
  "runs P m Q \<longleftrightarrow> (\<forall>s. P s \<longrightarrow> (\<exists>x t. m s = (Inr x, t) \<and> P t \<and> Q x))"

lemma runsI: "(\<And>s. P s \<Longrightarrow> \<exists>x t. m s = (Inr x, t) \<and> P t \<and> Q x) \<Longrightarrow> runs P m Q"
  by (simp add: runs_def)

lemma runsD: "runs P m Q \<Longrightarrow> P s \<Longrightarrow> \<exists>x t. m s = (Inr x, t) \<and> P t \<and> Q x"
  by (simp add: runs_def)

lemma runs_bind: "runs P m Q' \<Longrightarrow> (\<And>x. Q' x \<Longrightarrow> runs P (f x) Q) \<Longrightarrow> runs P (bind_act m f) Q"
  by (fastforce simp: runs_def bind_act_def)

lemma runs_any: "runs P m (\<lambda>x. True) \<Longrightarrow> (\<And>x. runs P (f x) Q) \<Longrightarrow> runs P (bind_act m f) Q"
  by (rule runs_bind)

lemma runs_ret: "Q x \<Longrightarrow> runs P (ret_act x) Q"
  by (simp add: runs_def ret_act_def)

lemma runs_res: "r = Inr x \<Longrightarrow> Q x \<Longrightarrow> runs P (res_act r) Q"
  by (simp add: runs_def res_act_def)

lemma runs_upd: "(\<And>s. P s \<Longrightarrow> P (g s)) \<Longrightarrow> runs P (upd_act g) (\<lambda>_. True)"
  by (simp add: runs_def upd_act_def)

lemma runs_get: "(\<And>s. P s \<Longrightarrow> Q (h s)) \<Longrightarrow> runs P (get_act h) Q"
  by (simp add: runs_def get_act_def)

lemmas runs_basic = runs_ret runs_upd runs_get

lemma runs_catch: "runs P m Q \<Longrightarrow> runs P (catch_act m h) Q"
  by (fastforce simp: runs_def catch_act_def)

lemma runs_if: "(b \<Longrightarrow> runs P m Q) \<Longrightarrow> (\<not> b \<Longrightarrow> runs P n Q) \<Longrightarrow> runs P (if b then m else n) Q"
  by simp

lemma runs_when: "(b \<Longrightarrow> runs P m (\<lambda>_. True)) \<Longrightarrow> runs P (when_act b m) (\<lambda>_. True)"
  by (simp add: when_act_def runs_ret)

lemma runs_post: "runs P m Q' \<Longrightarrow> (\<And>x. Q' x \<Longrightarrow> Q x) \<Longrightarrow> runs P m Q"
  by (fastforce simp: runs_def)

text \<open>
  An environment in which nothing goes wrong: the clock runs, nobody cancels, every call is answered,
  a restore is accepted with its task id, a task may be running for the first \<open>n\<close> status requests
  and is then stopped, always successfully, the guest agent may miss the first \<open>n\<close> pings, and the
  HTTP check answers with a code below 400.
\<close>

definition pings :: "ext_call list \<Rightarrow> string \<Rightarrow> int \<Rightarrow> nat" where
  "pings cs node v = length (filter (\<lambda>c. c = AgentPing node v False) cs)"

fun is_ping :: "ext_call \<Rightarrow> bool" where
  "is_ping (AgentPing node v b) = True"
| "is_ping c = False"

definition healthy :: "env \<Rightarrow> nat \<Rightarrow> bool" where
  "healthy E n \<longleftrightarrow> clock_ok E \<and> 60 < fuel E \<and> n < fuel E \<and> (\<forall>cs j. \<not> cancel_by E cs j) \<and>
     (\<forall>cs c. \<not> is_ping c \<longrightarrow> (\<exists>x. answer E cs c = Inr x)) \<and>
     (\<forall>cs node rp. \<exists>u. answer E cs (RestorePost node rp) = Inr (PStr u)) \<and>
     (\<forall>cs node u. \<exists>d. answer E cs (TaskStatus node u) = Inr (PDict d) \<and>
        (task_state d = ''stopped'' \<longrightarrow> task_succeeded d) \<and>
        (n \<le> polls cs node u \<longrightarrow> task_state d = ''stopped'')) \<and>
     (\<forall>cs node v. n \<le> pings cs node v \<longrightarrow> (\<exists>x. answer E cs (AgentPing node v False) = Inr x)) \<and>
     (\<forall>cs url. \<exists>code. answer E cs (HttpGet url) = Inr (PInt code) \<and> code < 400)"

text \<open>
  \<open>brisk E \<delta>\<close>: a call takes at most \<open>\<delta>\<close> seconds, a sleep at most \<open>\<delta>\<close> more than it asks for.
  Then \<open>n\<close> rounds of at most three calls, one of them a sleep of \<open>step\<close> seconds, take less than
  \<open>limit\<close> seconds if \<open>in_time\<close> holds.
\<close>

definition brisk :: "env \<Rightarrow> rat \<Rightarrow> bool" where
  "brisk E \<delta> \<longleftrightarrow> 0 \<le> \<delta> \<and>
     (\<forall>cs c. clock E (cs @ [c]) \<le> clock E cs + \<delta> + (case c of Sleep d \<Rightarrow> max 0 d | _ \<Rightarrow> 0))"

definition in_time :: "env \<Rightarrow> nat \<Rightarrow> rat \<Rightarrow> rat \<Rightarrow> bool" where
  "in_time E n step limit \<longleftrightarrow> 0 < limit \<and>
     (n = 0 \<or> (\<exists>\<delta>. brisk E \<delta> \<and> of_nat n * (max 0 step + 3 * \<delta>) < limit))"

text \<open>The limits of a job: no task timeout (the default), or one that is met, and an agent wait that is met\<close>

definition limits_met :: "env \<Rightarrow> cfg \<Rightarrow> nat \<Rightarrow> rat \<Rightarrow> hash \<Rightarrow> bool" where
  "limits_met E C n poll data \<longleftrightarrow>
     (task_timeout_sec C \<le> 0 \<or> in_time E n poll (task_timeout_sec C)) \<and>
     (0 < job_qga_wait data \<longrightarrow> in_time E n 5 (of_int (job_qga_wait data)))"

definition unflagged :: "cfg \<Rightarrow> string \<Rightarrow> 'x store_scheme \<Rightarrow> bool" where
  "unflagged C j s \<longleftrightarrow> map_of (hgetall (job_key C j) s) ''cancel_requested'' \<noteq> Some ''1''"

lemma runs_call:
  "healthy E n \<Longrightarrow> \<not> is_ping c \<Longrightarrow> runs (unflagged C j) (call E c) (\<lambda>_. True)"
  "healthy E n \<Longrightarrow> runs (unflagged C j) (call E (RestorePost node rp)) (\<lambda>x. \<exists>u. x = PStr u)"
  "healthy E n \<Longrightarrow> runs (unflagged C j) (call E (HttpGet url)) (\<lambda>x. \<exists>code. x = PInt code \<and> code < 400)"
  by (fastforce simp: healthy_def runs_def call_def unflagged_def hgetall_def)+

lemma runs_keeps:
  assumes "keeps (job_rel C j F S) m" "''cancel_requested'' \<notin> F"
    and "\<And>s. unflagged C j s \<Longrightarrow> \<exists>x. fst (m s) = Inr x \<and> Q x"
  shows "runs (unflagged C j) m Q"
proof (rule runsI)
  fix s :: "'a store_scheme" assume u: "unflagged C j s"
  obtain r t where m: "m s = (r, t)" by (cases "m s")
  from keepsD [OF assms(1) m] assms(2) u have "unflagged C j t" by (simp add: job_rel_def unflagged_def)
  with assms(3) [OF u] m show "\<exists>x t. m s = (Inr x, t) \<and> unflagged C j t \<and> Q x" by auto
qed

text \<open>The job's own bookkeeping always succeeds and does not raise the flag.\<close>

abbreviation plain_fields :: "string set" where
  "plain_fields \<equiv> - {''cancel_requested''}"

lemma runs_notes:
  "runs (unflagged C j) (append_log E C j lv sg msg) (\<lambda>_. True)"
  "''cancel_requested'' \<notin> fst ` set m \<Longrightarrow> runs (unflagged C j) (note_fields E C j m) (\<lambda>_. True)"
  "''cancel_requested'' \<notin> fst ` set m \<Longrightarrow> runs (unflagged C j) (set_state E C j st m) (\<lambda>_. True)"
proof -
  show "runs (unflagged C j) (append_log E C j lv sg msg) (\<lambda>_. True)"
    by (rule runs_keeps [OF keeps_append_log [of C j plain_fields UNIV]]) (auto simp: append_log_def upd_act_def)
  assume m: "''cancel_requested'' \<notin> fst ` set m"
  show "runs (unflagged C j) (note_fields E C j m) (\<lambda>_. True)"
    by (rule runs_keeps [OF keeps_note_fields [of m plain_fields C j UNIV]])
      (use m in \<open>auto simp: note_fields_def upd_act_def\<close>)
  show "runs (unflagged C j) (set_state E C j st m) (\<lambda>_. True)"
    by (rule runs_keeps [OF keeps_set_state [of m plain_fields C j UNIV]])
      (use m in \<open>auto simp: set_state_def upd_act_def\<close>)
qed

lemma runs_sleep: "runs (unflagged C j) (sleep d) (\<lambda>_. True)"
  by (simp add: runs_def sleep_def unflagged_def hgetall_def)

lemma healthy_cancel_flag: "healthy E n \<Longrightarrow> unflagged C j s \<Longrightarrow> cancel_flag E C j s = (Inr False, s)"
  by (simp add: cancel_flag_def get_act_def cancel_requested_def unflagged_def healthy_def)

lemma brisk_step:
  assumes "brisk E \<delta>"
  shows "clock E (cs @ [c]) \<le> clock E cs + \<delta> + (case c of Sleep d \<Rightarrow> max 0 d | _ \<Rightarrow> 0)"
  using assms by (simp add: brisk_def)

text \<open>A round uses up one of the remaining rounds and its share of the time.\<close>

lemma round_time:
  fixes x y D c :: rat
  assumes "x + of_nat (n - k) * c < D" "k < n" "y \<le> x + c" "Suc k \<le> k'" "0 \<le> c"
  shows "y + of_nat (n - k') * c < D"
proof -
  have "of_nat (n - k') * c \<le> of_nat (n - Suc k) * c"
    using assms(4,5) by (intro mult_right_mono) simp_all
  moreover obtain r where "n - k = Suc r" "n - Suc k = r" using assms(2) by (metis Suc_diff_Suc)
  then have "of_nat (n - k) * c = c + of_nat (n - Suc k) * c" by (simp add: distrib_right)
  ultimately show ?thesis using assms(1,3) by linarith
qed

text \<open>Callbacks of a wait: they return, make no call and leave the flag alone.\<close>

definition quiet :: "cfg \<Rightarrow> string \<Rightarrow> ('x store_scheme, unit) act \<Rightarrow> bool" where
  "quiet C j m \<longleftrightarrow> (\<forall>s. unflagged C j s \<longrightarrow> (\<exists>t. m s = (Inr (), t) \<and> unflagged C j t \<and> calls t = calls s))"

lemma fetch_task_log_eval:
  "healthy E n \<Longrightarrow> \<exists>ls off'. fetch_task_log E node u off k s = (Inr (ls, off'), s\<lparr>calls := calls s @ [TaskLog node u off k]\<rparr>)"
proof -
  assume "healthy E n"
  then obtain x where "answer E (calls s) (TaskLog node u off k) = Inr x" by (fastforce simp: healthy_def)
  then show ?thesis
    by (cases "parse_task_log off x") (simp add: fetch_task_log_def catch_act_def bind_act_def call_def ret_act_def)
qed

lemma healthy_task_poll:
  assumes h: "healthy E n" and b: "n = 0 \<or> dl = None \<or> brisk E \<delta>" "0 \<le> \<delta>" and tick: "\<And>d ls. quiet C j (tick d ls)"
  shows "unflagged C j s \<Longrightarrow> 0 < m \<Longrightarrow> n < polls (calls s) node u + m \<Longrightarrow>
    (\<And>D. dl = Some D \<Longrightarrow> now E s + of_nat (n - polls (calls s) node u) * (max 0 poll + 3 * \<delta>) < D) \<Longrightarrow>
    \<exists>x t. task_poll m E node u poll tmo dl (cancel_flag E C j) tick off s = (Inr x, t) \<and> unflagged C j t"
proof (induction m arbitrary: s off)
  case (Suc m)
  let ?c = "max 0 poll + 3 * \<delta>"
  have c: "0 \<le> ?c" using b(2) by simp
  have go: "case dl of None \<Rightarrow> True | Some d \<Rightarrow> now E s < d"
  proof (cases dl)
    case (Some D)
    have "0 \<le> of_nat (n - polls (calls s) node u) * ?c" using c by simp
    with Suc.prems(4) [OF Some] Some show ?thesis by auto
  qed simp
  from h obtain d where d: "answer E (calls s) (TaskStatus node u) = Inr (PDict d)"
    "task_state d = ''stopped'' \<Longrightarrow> task_succeeded d" "n \<le> polls (calls s) node u \<Longrightarrow> task_state d = ''stopped''"
    unfolding healthy_def by blast
  let ?s1 = "s\<lparr>calls := calls s @ [TaskStatus node u]\<rparr>"
  obtain ls off' where log: "fetch_task_log E node u off 80 ?s1 =
      (Inr (ls, off'), ?s1\<lparr>calls := calls ?s1 @ [TaskLog node u off 80]\<rparr>)"
    using fetch_task_log_eval [OF h] by blast
  let ?s2 = "?s1\<lparr>calls := calls ?s1 @ [TaskLog node u off 80]\<rparr>"
  have "unflagged C j ?s2" using Suc.prems(1) by (simp add: unflagged_def hgetall_def)
  with tick [of d ls] obtain s3 where s3: "tick d ls ?s2 = (Inr (), s3)" "unflagged C j s3"
    "calls s3 = calls ?s2" unfolding quiet_def by blast
  let ?s4 = "s3\<lparr>calls := calls s3 @ [Sleep poll]\<rparr>"
  have eval: "task_poll (Suc m) E node u poll tmo dl (cancel_flag E C j) tick off s =
      (if task_state d = ''stopped'' then
         (if task_succeeded d then ret_act d
          else raise_act (RuntimeError (explain_pve_task_failure (task_exit d)))) s3
       else task_poll m E node u poll tmo dl (cancel_flag E C j) tick off' ?s4)"
    using go d(1) log s3(1)
    by (simp add: bind_act_def [of "cancel_flag E C j"] healthy_cancel_flag [OF h Suc.prems(1)]
        bind_act_def call_def catch_act_def sleep_def)
  show ?case
  proof (cases "task_state d = ''stopped''")
    case True
    with d(2) eval s3(2) show ?thesis by (simp add: ret_act_def)
  next
    case False
    with d(3) have k: "polls (calls s) node u < n" by force
    have cs: "calls ?s4 = ((calls s @ [TaskStatus node u]) @ [TaskLog node u off 80]) @ [Sleep poll]"
      using s3(3) by simp
    have p: "polls (calls ?s4) node u = Suc (polls (calls s) node u)" unfolding cs by simp
    have "\<exists>x t. task_poll m E node u poll tmo dl (cancel_flag E C j) tick off' ?s4 = (Inr x, t) \<and> unflagged C j t"
    proof (rule Suc.IH)
      show "unflagged C j ?s4" using s3(2) by (simp add: unflagged_def hgetall_def)
      show "0 < m" "n < polls (calls ?s4) node u + m" using Suc.prems(3) k unfolding p by simp_all
      fix D assume D: "dl = Some D"
      with b(1) k have br: "brisk E \<delta>" by simp
      have "now E ?s4 \<le> now E s + ?c"
        using brisk_step [OF br, of "calls s" "TaskStatus node u"]
          brisk_step [OF br, of "calls s @ [TaskStatus node u]" "TaskLog node u off 80"]
          brisk_step [OF br, of "(calls s @ [TaskStatus node u]) @ [TaskLog node u off 80]" "Sleep poll"]
        unfolding now_def cs by simp
      from round_time [OF Suc.prems(4) [OF D] k this _ c] p
      show "now E ?s4 + of_nat (n - polls (calls ?s4) node u) * ?c < D" by simp
    qed
    with False eval show ?thesis by simp
  qed
qed simp

lemma in_time_round:
  assumes "in_time E n step limit"
  obtains \<delta> where "n = 0 \<or> brisk E \<delta>" "0 \<le> \<delta>" "of_nat n * (max 0 step + 3 * \<delta>) < limit"
proof (cases "n = 0")
  case True
  with assms show ?thesis by (intro that [of 0]) (simp_all add: in_time_def)
next
  case False
  with assms obtain \<delta> where "brisk E \<delta>" "of_nat n * (max 0 step + 3 * \<delta>) < limit" by (auto simp: in_time_def)
  then show ?thesis by (intro that [of \<delta>]) (simp_all add: brisk_def)
qed

lemma fewer_rounds:
  fixes c :: rat shows "0 \<le> c \<Longrightarrow> of_nat n * c < limit \<Longrightarrow> x + of_nat (n - k) * c < x + limit"
  using mult_right_mono [of "of_nat (n - k)" "of_nat n" c] by (simp add: less_le_trans le_less_trans)

lemma runs_wait_for_task:
  assumes "healthy E n" "tmo \<le> 0 \<or> in_time E n poll tmo" "\<And>d ls. quiet C j (tick d ls)"
  shows "runs (unflagged C j) (wait_for_task E node u poll tmo (cancel_flag E C j) tick) (\<lambda>_. True)"
proof (rule runsI)
  fix s :: "'a store_scheme" assume s: "unflagged C j s"
  have f: "0 < fuel E" "n < polls (calls s) node u + fuel E" using assms(1) by (auto simp: healthy_def)
  show "\<exists>x t. wait_for_task E node u poll tmo (cancel_flag E C j) tick s = (Inr x, t) \<and> unflagged C j t \<and> True"
  proof (cases "tmo \<le> 0")
    case True
    have "\<exists>x t. task_poll (fuel E) E node u poll tmo None (cancel_flag E C j) tick 0 s = (Inr x, t) \<and> unflagged C j t"
      by (rule healthy_task_poll [where \<delta> = 0, OF assms(1) _ _ assms(3) s f]) simp_all
    with True show ?thesis by (simp add: wait_for_task_def)
  next
    case False
    with assms(2) have "in_time E n poll tmo" by simp
    then obtain \<delta> where \<delta>: "n = 0 \<or> brisk E \<delta>" "0 \<le> \<delta>" "of_nat n * (max 0 poll + 3 * \<delta>) < tmo"
      by (rule in_time_round)
    have "\<exists>x t. task_poll (fuel E) E node u poll tmo (Some (now E s + tmo)) (cancel_flag E C j) tick 0 s = (Inr x, t)
        \<and> unflagged C j t"
      by (rule healthy_task_poll [where \<delta> = \<delta>, OF assms(1) _ \<delta>(2) assms(3) s f])
        (use \<delta> fewer_rounds [OF _ \<delta>(3)] in simp_all)
    with False show ?thesis by (simp add: wait_for_task_def)
  qed
qed

lemma runs_guarded: "runs P m Q \<Longrightarrow> runs P (guarded_wait E C j msg h m) (\<lambda>w. \<exists>x. w = Some x \<and> Q x)"
  by (fastforce simp: runs_def guarded_wait_def)

lemma runs_submit: "healthy E n \<Longrightarrow> runs (unflagged C j) (submit_restore E node v a st l b u f) (\<lambda>_. True)"
  unfolding submit_restore_def
  by (rule runs_bind [OF runs_call(2)]) (auto intro: runs_res)

lemma runs_connect:
  "healthy E n \<Longrightarrow> proxmox_login (proxmox_cfg C) = Inr l \<Longrightarrow> runs (unflagged C j) (connect_proxmox E C) (\<lambda>_. True)"
  unfolding connect_proxmox_def
  by (intro runs_any [OF runs_res] runs_any [OF runs_call(1) [where n = n]] runs_ret) simp_all

lemma runs_wire:
  assumes "healthy E n" shows "runs (unflagged C j) (wire_phase E C j b) (\<lambda>_. True)"
  unfolding wire_phase_def
  by (intro runs_any [OF runs_call(1) [OF assms]] runs_if runs_any [OF runs_notes(2)] runs_notes) simp_all

lemma quiet_ret: "quiet C j (ret_act ())"
  by (simp add: quiet_def ret_act_def)

lemma quiet_tick:
  assumes "\<And>cs ls. ''cancel_requested'' \<notin> fst ` set (metrics cs ls)"
  shows "quiet C j (on_tick E C metrics j d ls)"
  unfolding quiet_def
proof (intro allI impI)
  fix s :: "'a store_scheme" assume u: "unflagged C j s"
  show "\<exists>t. on_tick E C metrics j d ls s = (Inr (), t) \<and> unflagged C j t \<and> calls t = calls s"
  proof (cases "ls = []")
    case False
    let ?n = "note_fields E C j (metrics (calls s) ls)"
    obtain t where t: "?n s = (Inr (), t)" by (simp add: note_fields_def upd_act_def)
    have "keeps (job_rel C j plain_fields {}) ?n" by (rule keeps_note_fields) (use assms in auto)
    from keepsD [OF this t] have "job_rel C j plain_fields {} s t" .
    then have "calls t = calls s" "unflagged C j t" using u by (auto simp: job_rel_def unflagged_def)
    with t False show ?thesis by (simp add: on_tick_def)
  qed (simp add: on_tick_def ret_act_def u)
qed

lemma runs_restore_phase:
  assumes "healthy E n" "proxmox_login (proxmox_cfg C) = Inr l" "task_poll_sec C = Inr poll"
    and "task_timeout_sec C \<le> 0 \<or> in_time E n poll (task_timeout_sec C)"
    and "\<And>cs ls. ''cancel_requested'' \<notin> fst ` set (metrics cs ls)"
  shows "runs (unflagged C j) (restore_phase E C metrics j J) (\<lambda>r. r = Some poll)"
proof -
  have upd: "runs (unflagged C j) (upd_act (hset (job_key C j)
        [(''pve_upid'', u), (''progress'', ''15''), (''restore_started_at'', st),
         (''updated_at'', st), (''progress_samples'', ''0'')])) (\<lambda>_. True)" for u st
    by (rule runs_upd) (simp add: unflagged_def hgetall_hset)
  have wait: "runs (unflagged C j) (guarded_wait E C j msg (\<lambda>_. ret_act ())
      (wait_for_task E (jf_node J) u poll (task_timeout_sec C) (cancel_flag E C j) (on_tick E C metrics j)))
      (\<lambda>w. \<exists>x. w = Some x \<and> True)" for msg u
    by (intro runs_guarded runs_wait_for_task [OF assms(1,4)] quiet_tick assms)
  show ?thesis
    unfolding restore_phase_def
    by (intro runs_any [OF runs_notes(3)] runs_any [OF runs_notes(1)] runs_any [OF runs_wire [OF assms(1)]]
        runs_any [OF runs_connect [OF assms(1,2)]] runs_any [OF runs_submit [OF assms(1)]] runs_any [OF runs_get] runs_any [OF upd]
        runs_bind [OF runs_res [OF assms(3), of "\<lambda>p. p = poll"]] assms)
      (auto intro!: runs_bind [OF wait] runs_ret)
qed

lemma runs_stamp_phase:
  assumes "healthy E n" shows "runs (unflagged C j) (stamp_phase E C j J run) (\<lambda>_. True)"
proof -
  have mark: "runs (unflagged C j) (mark_qemu_managed_by_tool E node v j run) (\<lambda>_. True)" for node v
    unfolding mark_qemu_managed_by_tool_def get_qemu_config_def Let_def
    by (intro runs_any runs_call(1) [OF assms(1)] runs_ret assms) simp_all
  have ok: "runs (unflagged C j) (bind_act (note_fields E C j [(''managed_marked'', ''1'')]) (\<lambda>_.
         bind_act (append_log E C j ''INFO'' ''RESTORING'' msg) (\<lambda>_. ret_act (None :: exn option))))
      (\<lambda>e. e = None)" for msg
    by (intro runs_any [OF runs_notes(2)] runs_any [OF runs_notes(1)] runs_ret) simp_all
  have "runs (unflagged C j) (stamp_attempts E C j J run [1, 2, 3] None :: ('a store_scheme, exn option) act)
      (\<lambda>e. e = None)"
  proof (rule runsI)
    fix s :: "'a store_scheme" assume "unflagged C j s"
    from runsD [OF mark this] obtain s1 where *: "mark_qemu_managed_by_tool E (jf_node J) (jf_vmid J) j run s = (Inr (), s1)"
      and u: "unflagged C j s1" by auto
    have "\<exists>t. bind_act (note_fields E C j [(''managed_marked'', ''1'')]) (\<lambda>_.
         bind_act (append_log E C j ''INFO'' ''RESTORING'' msg) (\<lambda>_. ret_act (None :: exn option))) s1
         = (Inr None, t) \<and> unflagged C j t" for msg
      using runsD [OF ok u, of msg] by simp
    with * show "\<exists>x t. stamp_attempts E C j J run [1, 2, 3] None s = (Inr x, t) \<and> unflagged C j t \<and> x = None"
      by simp
  qed
  then show ?thesis
    unfolding stamp_phase_def by (rule runs_bind) (simp add: runs_ret)
qed

lemma isolation_changes_ok:
  "mode = ''unlink'' \<or> mode = ''remap'' \<and> bridge \<noteq> [] \<Longrightarrow> \<exists>ch. isolation_changes mode bridge cfg = Inr ch"
proof -
  assume mode: "mode = ''unlink'' \<or> mode = ''remap'' \<and> bridge \<noteq> []"
  then have "\<exists>y. isolate_entry mode bridge e = Inr y" for e
    by (auto simp: isolate_entry_def Let_def split: prod.split)
  then have "\<exists>ys. map_res (isolate_entry mode bridge) cfg = Inr ys"
    by (cases "map_res (isolate_entry mode bridge) cfg") (auto dest!: map_res_Inl, metis sum.distinct(1))
  then show ?thesis by (auto simp: isolation_changes_def)
qed

lemma runs_isolate_phase:
  assumes "healthy E n" "job_net_mode data = ''remap'' \<longrightarrow> job_lab_bridge data \<noteq> []"
  shows "runs (unflagged C j) (isolate_phase E C j J data) (\<lambda>_. True)"
proof (cases "job_net_mode data \<in> {''unlink'', ''remap''}")
  case False
  then show ?thesis by (simp add: isolate_phase_off runs_ret)
next
  case True
  have "isolation_mode ''unlink'' = ''unlink''" "isolation_mode ''remap'' = ''remap''"
    by code_simp+
  with True have mode: "isolation_mode (job_net_mode data) = job_net_mode data"
    "strip (job_lab_bridge data) = job_lab_bridge data" by (auto simp: job_lab_bridge_def)
  have ch: "\<exists>ch. isolation_changes (job_net_mode data) (job_lab_bridge data) cfg = Inr ch" for cfg
    by (rule isolation_changes_ok) (use True assms(2) in auto)
  have res: "runs (unflagged C j) (res_act (isolation_changes (job_net_mode data) (job_lab_bridge data) cfg)) (\<lambda>_. True)"
    for cfg using ch [of cfg] by (auto intro: runs_res)
  have "runs (unflagged C j) (apply_network_isolation E node v (job_net_mode data) (job_lab_bridge data)) (\<lambda>_. True)"
    for node v
    unfolding apply_network_isolation_def Let_def get_qemu_config_def mode
    by (intro runs_if runs_ret runs_any res runs_when runs_call(1) [OF assms(1)] assms) simp_all
  then show ?thesis
    unfolding isolate_phase_def Let_def
    by (intro runs_if runs_ret runs_any [OF runs_notes(1)] runs_catch) (auto intro: runs_any runs_notes)
qed

lemma runs_check_hostname:
  assumes "healthy E n" shows "runs (unflagged C j) (check_guest_hostname E C j node v) (\<lambda>_. True)"
proof -
  have host: "runs (unflagged C j) (get_qemu_guest_hostname E node v) (\<lambda>_. True)"
    unfolding get_qemu_guest_hostname_def
    by (intro runs_any runs_catch runs_call(1) [OF assms(1)] runs_ret assms) simp_all
  have get: "runs (unflagged C j) (catch_act (bind_act (get_qemu_config E node v) f) h) (\<lambda>_. True)"
    if "\<And>x. runs (unflagged C j) (f x) (\<lambda>_. True)" for f h
    unfolding get_qemu_config_def
    by (intro runs_any runs_catch runs_call(1) [OF assms(1)] runs_ret assms that) simp_all
  show ?thesis
    unfolding check_guest_hostname_def
    by (intro runs_any [OF get] runs_any [OF host] runs_any [OF runs_notes(2)] runs_notes(1) runs_ret)
      (auto simp: hostname_fields_def split: option.splits)
qed

lemma runs_start_phase:
  assumes "healthy E n" "task_timeout_sec C \<le> 0 \<or> in_time E n poll (task_timeout_sec C)"
  shows "runs (unflagged C j) (start_phase E C j J poll) (\<lambda>b. b = True)"
proof -
  have start: "runs (unflagged C j) (start_qemu_vm E node v) (\<lambda>_. True)" for node v
    unfolding start_qemu_vm_def by (intro runs_any runs_call(1) [OF assms(1)] runs_ret assms) simp_all
  have wait: "runs (unflagged C j)
      (case u of
          None \<Rightarrow> ret_act True
        | Some u \<Rightarrow>
            bind_act (guarded_wait E C j msg (\<lambda>_. ret_act ())
                (wait_for_task E (jf_node J) u poll (task_timeout_sec C) (cancel_flag E C j) (\<lambda>d ls. ret_act ())))
              (\<lambda>done. ret_act (done \<noteq> None))) (\<lambda>b. b = True)" for u msg
  proof (cases u)
    case (Some up)
    have "runs (unflagged C j) (bind_act (guarded_wait E C j msg (\<lambda>_. ret_act ())
                (wait_for_task E (jf_node J) up poll (task_timeout_sec C) (cancel_flag E C j) (\<lambda>d ls. ret_act ())))
              (\<lambda>done. ret_act (done \<noteq> None))) (\<lambda>b. b = True)"
      by (rule runs_bind [OF runs_guarded [OF runs_wait_for_task [OF assms quiet_ret]]]) (auto intro: runs_ret)
    with Some show ?thesis by simp
  qed (simp add: runs_ret)
  show ?thesis
    unfolding start_phase_def
    by (intro runs_any [OF runs_notes(1)] runs_any [OF runs_catch [OF start]] runs_bind [OF wait] runs_if
        runs_any [OF runs_notes(2)] runs_ret) simp_all
qed

lemma ping_eval:
  obtains (up) "qemu_agent_ping E node v s = (Inr True, s\<lparr>calls := calls s @ [AgentPing node v False]\<rparr>)"
      "\<exists>x. answer E (calls s) (AgentPing node v False) = Inr x"
  | (second) b where "qemu_agent_ping E node v s =
      (Inr b, s\<lparr>calls := (calls s @ [AgentPing node v False]) @ [AgentPing node v True]\<rparr>)"
      "\<exists>e. answer E (calls s) (AgentPing node v False) = Inl e"
proof (cases "answer E (calls s) (AgentPing node v False)")
  case (Inr x)
  then show ?thesis
    by (intro up) (simp_all add: qemu_agent_ping_def bind_act_def catch_act_def call_def ret_act_def)
next
  case (Inl e)
  let ?s1 = "s\<lparr>calls := calls s @ [AgentPing node v False]\<rparr>"
  have "e \<noteq> OutOfFuel" using answer_no_fuel Inl by metis
  moreover have "answer E (calls ?s1) (AgentPing node v True) \<noteq> Inl OutOfFuel" by simp
  ultimately have "\<exists>b. qemu_agent_ping E node v s = (Inr b, ?s1\<lparr>calls := calls ?s1 @ [AgentPing node v True]\<rparr>)"
    using Inl
    by (cases "answer E (calls ?s1) (AgentPing node v True)")
      (auto simp: qemu_agent_ping_def bind_act_def catch_act_def call_def ret_act_def)
  with Inl show ?thesis using second by auto
qed

lemma healthy_agent_poll:
  assumes h: "healthy E n" and b: "n = 0 \<or> brisk E \<delta>" "0 \<le> \<delta>" and i: "i \<le> 5"
  shows "unflagged C j s \<Longrightarrow> 0 < m \<Longrightarrow> n < pings (calls s) node v + m \<Longrightarrow>
    now E s + of_nat (n - pings (calls s) node v) * (5 + 3 * \<delta>) < D \<Longrightarrow>
    \<exists>x t. agent_poll m E node v tmo i (cancel_flag E C j) st D s = (Inr x, t) \<and> unflagged C j t"
proof (induction m arbitrary: s)
  case (Suc m)
  let ?c = "5 + 3 * \<delta>" and ?z = "max (1/2) i"
  let ?up = "\<lambda>b s2. if b then (Inr (max 0 (now E s2 - st)), s2)
      else if D \<le> now E s2 then (Inl (TimeoutError (''QEMU guest agent did not respond within '' @
              str_of_int (trunc_rat tmo) @ ''s (VMID '' @ str_of_int v @ '' on '' @ node @ '')'')), s2)
      else agent_poll m E node v tmo i (cancel_flag E C j) st D (s2\<lparr>calls := calls s2 @ [Sleep ?z]\<rparr>)"
  have eval: "agent_poll (Suc m) E node v tmo i (cancel_flag E C j) st D s = ?up b s2"
    if "qemu_agent_ping E node v s = (Inr b, s2)" for b s2
    using that by (simp add: bind_act_def healthy_cancel_flag [OF h Suc.prems(1)] sleep_def)
  show ?case
  proof (cases rule: ping_eval [of E node v s])
    case up
    with eval [OF up(1)] Suc.prems(1) show ?thesis by (simp add: unflagged_def hgetall_def)
  next
    case (second ok)
    let ?s2 = "s\<lparr>calls := (calls s @ [AgentPing node v False]) @ [AgentPing node v True]\<rparr>"
    let ?s3 = "?s2\<lparr>calls := calls ?s2 @ [Sleep ?z]\<rparr>"
    have u: "unflagged C j ?s2" "unflagged C j ?s3" using Suc.prems(1) by (simp_all add: unflagged_def hgetall_def)
    have "\<exists>x. answer E (calls s) (AgentPing node v False) = Inr x" if "n \<le> pings (calls s) node v"
      using h that by (simp add: healthy_def)
    with second(2) have k: "pings (calls s) node v < n" by force
    with b(1) have br: "brisk E \<delta>" by simp
    have p: "pings (calls ?s3) node v = Suc (pings (calls s) node v)" by (simp add: pings_def)
    have s2: "now E ?s2 \<le> now E s + 2 * \<delta>"
      using brisk_step [OF br, of "calls s" "AgentPing node v False"]
        brisk_step [OF br, of "calls s @ [AgentPing node v False]" "AgentPing node v True"]
      by (simp add: now_def)
    moreover have "now E ?s3 \<le> now E ?s2 + \<delta> + max 0 ?z"
      using brisk_step [OF br, of "calls ?s2" "Sleep ?z"] by (simp add: now_def)
    moreover have "max 0 ?z \<le> 5" using i by simp
    ultimately have s3: "now E ?s3 \<le> now E s + ?c" by linarith
    have t3: "now E ?s3 + of_nat (n - pings (calls ?s3) node v) * ?c < D"
      using b(2) p by (intro round_time [OF Suc.prems(4) k s3]) simp_all
    have "0 < m" "n < pings (calls ?s3) node v + m" using Suc.prems(3) k unfolding p by simp_all
    from Suc.IH [OF u(2) this t3] obtain x t where
      rec: "agent_poll m E node v tmo i (cancel_flag E C j) st D ?s3 = (Inr x, t)" "unflagged C j t" by blast
    have "now E ?s2 \<le> now E ?s3"
      using h by (simp add: healthy_def clock_ok_def now_def del: append_assoc)
    moreover have "0 \<le> of_nat (n - pings (calls ?s3) node v) * ?c" using b(2) by simp
    ultimately have "\<not> D \<le> now E ?s2" using t3 by linarith
    then have "?up ok ?s2 = (if ok then (Inr (max 0 (now E ?s2 - st)), ?s2) else (Inr x, t))"
      using rec(1) by simp
    with eval [OF second(1)] u(1) rec(2) show ?thesis by simp
  qed
qed simp

lemma runs_agent_wait:
  assumes "healthy E n" "in_time E n 5 tmo" "i \<le> 5"
  shows "runs (unflagged C j) (wait_for_qemu_agent E node v tmo i (cancel_flag E C j)) (\<lambda>_. True)"
proof (rule runsI)
  fix s :: "'a store_scheme" assume u: "unflagged C j s"
  from assms(2) obtain \<delta> where \<delta>: "n = 0 \<or> brisk E \<delta>" "0 \<le> \<delta>" "of_nat n * (5 + 3 * \<delta>) < tmo"
    by (rule in_time_round) simp
  have f: "0 < fuel E" "n < pings (calls s) node v + fuel E" using assms(1) by (auto simp: healthy_def)
  have "now E s + of_nat (n - pings (calls s) node v) * (5 + 3 * \<delta>) < now E s + max 1 tmo"
    using fewer_rounds [OF _ \<delta>(3), of "now E s"] \<delta>(2) by (simp add: less_max_iff_disj)
  from healthy_agent_poll [OF assms(1) \<delta>(1,2) assms(3) u f this]
  show "\<exists>x t. wait_for_qemu_agent E node v tmo i (cancel_flag E C j) s = (Inr x, t) \<and> unflagged C j t \<and> True"
    by (simp add: wait_for_qemu_agent_def)
qed

lemma runs_agent_phase:
  assumes "healthy E n" "0 < qga \<longrightarrow> in_time E n 5 (of_int qga)"
  shows "runs (unflagged C j) (agent_phase E C j J qga poll) (\<lambda>b. b = True)"
proof -
  have some: "runs (unflagged C j)
      (case w of
          None \<Rightarrow> ret_act False
        | Some w \<Rightarrow>
            bind_act (note_fields E C j [(''qga_ok'', ''1''), (''qga_waited_sec'', fixed1 w)]) (\<lambda>_.
            bind_act (append_log E C j ''INFO'' ''RESTORING''
               (''QEMU guest agent OK after '' @ fixed1 w @ ''s'')) (\<lambda>_.
            bind_act (check_guest_hostname E C j (jf_node J) (jf_vmid J)) (\<lambda>_. ret_act True)))) (\<lambda>b. b = True)"
    if "\<exists>x. w = Some x \<and> True" for w
    using that
    by (auto intro!: runs_any [OF runs_notes(2)] runs_any [OF runs_notes(1)]
        runs_any [OF runs_check_hostname [OF assms(1)]] runs_ret assms)
  show ?thesis
    unfolding agent_phase_def
    by (intro runs_if runs_any [OF runs_notes(1)] runs_any [OF runs_check_hostname [OF assms(1)]] runs_ret
        runs_bind [OF runs_guarded [OF runs_agent_wait [OF assms(1)]]] some) (use assms(2) in simp_all)
qed

lemma runs_http_phase:
  assumes "healthy E n" shows "runs (unflagged C j) (http_phase E C j url) (\<lambda>_. True)"
proof -
  have "runs (unflagged C j) (bind_act (call E (HttpGet url)) (\<lambda>resp.
           bind_act (res_act (py_int resp)) (\<lambda>code.
           bind_act (when_act (400 \<le> code)
              (raise_act (RuntimeError (''HTTP check returned '' @ str_of_int code)))) (\<lambda>_.
           bind_act (note_fields E C j [(''http_check_ok'', ''1'')]) (\<lambda>_.
           append_log E C j ''INFO'' ''RESTORING'' (''HTTP check OK ('' @ str_of_int code @ '')''))))))
      (\<lambda>_. True)"
  proof (rule runs_bind [OF runs_call(3) [OF assms]], elim exE conjE)
    fix x code assume x: "x = PInt code" "code < (400 :: int)"
    show "runs (unflagged C j) (bind_act (res_act (py_int x)) (\<lambda>code.
           bind_act (when_act (400 \<le> code)
              (raise_act (RuntimeError (''HTTP check returned '' @ str_of_int code)))) (\<lambda>_.
           bind_act (note_fields E C j [(''http_check_ok'', ''1'')]) (\<lambda>_.
           append_log E C j ''INFO'' ''RESTORING'' (''HTTP check OK ('' @ str_of_int code @ '')'')))))
      (\<lambda>_. True)"
      by (rule runs_bind [OF runs_res [of _ code "\<lambda>y. y = code"]])
        (use x in \<open>auto simp: when_act_def intro!: runs_any [OF runs_ret] runs_any [OF runs_notes(2)] runs_notes\<close>)
  qed
  then show ?thesis
    unfolding http_phase_def by (intro runs_if runs_ret runs_any [OF runs_notes(1)] runs_catch) simp_all
qed

lemma runs_power_phase:
  assumes "healthy E n" "limits_met E C n poll data"
  shows "runs (unflagged C j) (power_phase E C j J data poll) (\<lambda>b. b = True)"
proof -
  have boot: "runs (unflagged C j) (if \<not> jf_live J then start_phase E C j J poll else ret_act True) (\<lambda>b. b = True)"
    by (intro runs_if runs_start_phase [OF assms(1)] runs_ret) (use assms(2) in \<open>simp_all add: limits_met_def\<close>)
  have on: "runs (unflagged C j) (bind_act (if \<not> jf_live J then start_phase E C j J poll else ret_act True) (\<lambda>go_on.
        if \<not> go_on then ret_act False
        else bind_act (agent_phase E C j J (job_qga_wait data) poll) (\<lambda>go_on.
          if \<not> go_on then ret_act False
          else bind_act (http_phase E C j url) (\<lambda>_. ret_act True)))) (\<lambda>b. b = True)" for url
    by (rule runs_bind [OF boot], simp, rule runs_bind [OF runs_agent_phase [OF assms(1)]])
      (use assms(2) in \<open>auto simp: limits_met_def intro!: runs_any [OF runs_http_phase [OF assms(1)]] runs_ret\<close>)
  have stop: "runs (unflagged C j) (stop_qemu_vm E node v 60) (\<lambda>_. True)" for node v
  proof (rule runs_keeps [OF keeps_job_emits [OF keeps_stop_vm subset_UNIV], of "{}"])
    show "\<exists>x. fst (stop_qemu_vm E node v 60 s) = Inr x \<and> True" for s :: "'x store_scheme"
      by (subst stop_qemu_vm_ok) (use assms(1) in \<open>simp_all add: healthy_def\<close>)
  qed simp
  have off: "runs (unflagged C j) (bind_act (stop_qemu_vm E node v 60) (\<lambda>_.
        bind_act (append_log E C j lv sg msg) (\<lambda>_. ret_act True))) (\<lambda>b. b = True)" for node v lv sg msg
    by (intro runs_any [OF stop] runs_any [OF runs_notes(1)] runs_ret) simp
  show ?thesis
    unfolding power_phase_def by (rule runs_if [OF on off])
qed

lemma run_phases_completes:
  assumes "healthy E n" "proxmox_login (proxmox_cfg C) = Inr l" "task_poll_sec C = Inr poll"
    and "limits_met E C n poll data"
    and "\<And>cs ls. ''cancel_requested'' \<notin> fst ` set (metrics cs ls)"
    and "job_net_mode data = ''remap'' \<longrightarrow> job_lab_bridge data \<noteq> []"
    and "unflagged C j s"
  shows "\<exists>t. run_phases E C metrics j J data s = (Inr (), t) \<and> job_state (job_key C j) t = state_value COMPLETED"
proof -
  have "task_timeout_sec C \<le> 0 \<or> in_time E n poll (task_timeout_sec C)" using assms(4) by (simp add: limits_met_def)
  from runsD [OF runs_restore_phase [where metrics = metrics and J = J, OF assms(1-3) this assms(5)] assms(7)] obtain s1 where
    1: "restore_phase E C metrics j J s = (Inr (Some poll), s1)" "unflagged C j s1" by auto
  from runsD [OF runs_stamp_phase [OF assms(1)] 1(2)] obtain s2 where
    2: "stamp_phase E C j J (hfield data ''plan_run_id'') s1 = (Inr (), s2)" "unflagged C j s2" by auto
  from runsD [OF runs_isolate_phase [OF assms(1,6)] 2(2)] obtain s3 where
    3: "isolate_phase E C j J data s2 = (Inr (), s3)" "unflagged C j s3" by auto
  from runsD [OF runs_power_phase [OF assms(1,4), where J = J] 3(2)] obtain s4 where
    4: "power_phase E C j J data poll s3 = (Inr True, s4)" by auto
  let ?x = "[(''progress'', ''100''), (''eta_sec'', ''0''), (''speed_bps'', [])]"
  obtain s5 where 5: "set_state E C j COMPLETED ?x s4 = (Inr (), s5)" using set_state_ok by blast
  let ?msg = "''Restore completed for VMID '' @ str_of_int (jf_vmid J)"
  obtain s6 where 6: "append_log E C j ''INFO'' ''COMPLETED'' ?msg s5 = (Inr (), s6)"
    by (simp add: append_log_def upd_act_def)
  have "job_state (job_key C j) s6 = state_value COMPLETED"
    using set_state_eval [OF 5] job_state_hashes append_log_hash [OF 6] by fastforce
  moreover have "run_phases E C metrics j J data s = (Inr (), s6)"
    by (simp only: run_phases_def bind_act_eval(2) [where m = "restore_phase E C metrics j J", OF 1(1)]
        option.case bind_act_eval(2) [where m = "stamp_phase E C j J r" for r, OF 2(1)]
        bind_act_eval(2) [where m = "isolate_phase E C j J data", OF 3(1)]
        bind_act_eval(2) [where m = "power_phase E C j J data poll", OF 4] not_True_eq_False if_False
        bind_act_eval(2) [where m = "set_state E C j COMPLETED ?x", OF 5] 6)
  ultimately show ?thesis by blast
qed

lemma process_job_terminal:
  assumes "process_job E C metrics j s = (Inr (), t)" "hgetall (job_key C j) s \<noteq> []"
  shows "job_state (job_key C j) t \<in> set TERMINAL"
proof (cases "cancel_requested E C j s")
  case True
  with assms have "mark_cancelled E C j s = (Inr (), t)" by (simp add: process_job_start)
  from mark_cancelled_state [OF this] show ?thesis by (simp add: TERMINAL_def)
next
  case False
  with assms obtain J where "run_phases E C metrics j J (hgetall (job_key C j) s) s = (Inr (), t)"
    by (auto simp: process_job_start bind_act_Inr_iff res_act_def)
  then show ?thesis by (cases rule: run_phases_Inr) (simp_all add: TERMINAL_def)
qed

subsection \<open>Properties\<close>

text \<open>
  A job for the sample environment, which waits for the guest agent and checks a URL, and an
  environment in which every call is answered well: a task runs at the first two status requests,
  and the agent misses the first two pings.
\<close>

definition demo_job :: hash where
  "demo_job = [(''job_id'', ''a''), (''state'', ''PENDING''), (''proxmox_node'', ''n1''),
     (''proxmox_vmid'', ''102''), (''backup_id'', ''b1''), (''proxmox_storage'', ''zfs''),
     (''archive'', ''pbs:backup/vm/100''), (''network_mode'', ''unlink''), (''qga_wait_sec'', ''30''),
     (''http_check_url'', ''http://web/'')]"

definition demo_run_store :: store where
  "demo_run_store = empty_store\<lparr>hashes := [(''restore:job:a'', demo_job)]\<rparr>"

definition well_env :: env where
  "well_env = \<lparr>api = (\<lambda>cs c. case c of
       RestorePost n rp \<Rightarrow> Inr (PStr ''UPID:n1:1'')
     | TaskStatus n u \<Rightarrow> Inr (PDict (if polls cs n u < 2 then [(''status'', PStr ''running'')]
                                  else [(''status'', PStr ''stopped''), (''exitstatus'', PStr ''OK'')]))
     | AgentPing n v b \<Rightarrow> if b \<or> pings cs n v < 2 then Inl (ApiError []) else Inr PNone
     | HttpGet url \<Rightarrow> Inr (PInt 200)
     | _ \<Rightarrow> Inr PNone),
     clock = (\<lambda>cs. sum_list (map (\<lambda>c. case c of Sleep d \<Rightarrow> max 0 d | _ \<Rightarrow> 1) cs)),
     iso = (\<lambda>cs. []), uuid = str_of_nat, cancel_by = (\<lambda>cs j. False), fuel = 61\<rparr>"

lemma demo_task_ok:
  "task_state [(''status'', PStr ''stopped''), (''exitstatus'', PStr ''OK'')] = ''stopped''"
  "task_succeeded [(''status'', PStr ''stopped''), (''exitstatus'', PStr ''OK'')]"
  "task_state [(''status'', PStr ''running'')] \<noteq> ''stopped''"
  by code_simp+

lemma well_env_clock: "clock_ok well_env" "brisk well_env 1"
  by (auto simp: clock_ok_def brisk_def well_env_def split: ext_call.split)

lemma well_env_healthy: "healthy well_env 2"
proof -
  have "\<exists>x. answer well_env cs c = Inr x" if "\<not> is_ping c" for cs c
    using that by (cases c) (auto simp: answer_def well_env_def)
  then show ?thesis
    using demo_task_ok well_env_clock(1) by (auto simp: healthy_def answer_def well_env_def)
qed

lemma well_env_in_time: "2 * (max 0 step + 3) < limit \<Longrightarrow> in_time well_env 2 step limit"
proof -
  assume a: "2 * (max 0 step + 3) < limit"
  have "(0 :: rat) < 2 * (max 0 step + 3)" by (simp add: add_nonneg_pos)
  with a have "0 < limit" by simp
  with a well_env_clock(2) show ?thesis by (auto simp: in_time_def intro!: exI [of _ 1])
qed

lemma demo_job_key: "hgetall (job_key demo_cfg ''a'') demo_run_store = demo_job"
  by (simp add: demo_run_store_def job_key_def demo_cfg_def hgetall_def)

lemma demo_login: "\<exists>l. proxmox_login (proxmox_cfg demo_cfg) = Inr l"
  by (simp add: proxmox_login_def demo_cfg_def strip_field_def py_or_def dget_def dget_or_def
      Let_def need_key_def) code_simp

lemma demo_parse: "\<exists>J. parse_job ''a'' demo_job = Inr J"
proof -
  have "int_of_str ''102'' = Some 102" by code_simp
  then show ?thesis by (simp add: parse_job_def hneed_def demo_job_def hfield_def)
qed

lemma demo_net: "job_net_mode demo_job = ''unlink''" "job_power_on J demo_job"
  "job_qga_wait demo_job = 30"
proof -
  have q: "job_qga_wait demo_job = 30"
    by (simp add: job_qga_wait_def hint_or_zero_def field_or_zero_def demo_job_def hfield_def) code_simp
  then show "job_qga_wait demo_job = 30" "job_power_on J demo_job" by (simp_all add: job_power_on_def)
  show "job_net_mode demo_job = ''unlink''"
    by (simp add: job_net_mode_def demo_job_def hfield_def) code_simp
qed

lemma demo_poll: "\<exists>p > 0. task_poll_sec demo_cfg = Inr p"
  by (simp add: task_poll_sec_def demo_cfg_def dget_or_def)

lemma run_job_completes:
  assumes "healthy E n" "proxmox_login (proxmox_cfg C) = Inr l" "task_poll_sec C = Inr poll"
    and "limits_met E C n poll (hgetall (job_key C j) s)"
    and "\<And>cs ls. ''cancel_requested'' \<notin> fst ` set (metrics cs ls)"
    and "parse_job j (hgetall (job_key C j) s) = Inr J"
    and "job_net_mode (hgetall (job_key C j) s) = ''remap'' \<longrightarrow> job_lab_bridge (hgetall (job_key C j) s) \<noteq> []"
    and "\<not> cancel_requested E C j s"
  shows "\<exists>t. run_job E C metrics j s = (Inr (), t) \<and> job_state (job_key C j) t = state_value COMPLETED"
proof -
  let ?d = "hgetall (job_key C j) s"
  have d: "?d \<noteq> []" using assms(6) by (auto simp: parse_job_def hneed_def)
  have u: "unflagged C j s" using assms(8) by (simp add: unflagged_def cancel_requested_def)
  from run_phases_completes [where metrics = metrics and J = J, OF assms(1-5,7) u] obtain t where
    t: "run_phases E C metrics j J ?d s = (Inr (), t)" "job_state (job_key C j) t = state_value COMPLETED" by blast
  have "process_job E C metrics j s = (Inr (), t)"
    using t(1) d assms(6,8) by (simp add: process_job_start bind_act_eval act_eval)
  then have "run_job E C metrics j s = (Inr (), release_slot C t)"
    by (simp add: run_job_def bind_act_def catch_act_def upd_act_def)
  with t(2) show ?thesis by simp
qed

lemma demo_uncancelled: "\<not> cancel_requested well_env demo_cfg ''a'' demo_run_store"
  by (simp add: cancel_requested_def demo_job_key demo_job_def well_env_def)

lemma demo_limits: "limits_met well_env demo_cfg 2 poll demo_job"
  by (simp add: limits_met_def task_timeout_sec_def demo_cfg_def dget_or_def py_or_def py_float_or_def
      demo_net well_env_in_time)

lemma demo_completed:
  "\<exists>t. run_job well_env demo_cfg (\<lambda>cs ls. []) ''a'' demo_run_store = (Inr (), t) \<and>
     job_state (job_key demo_cfg ''a'') t = state_value COMPLETED"
proof -
  obtain l p J where "proxmox_login (proxmox_cfg demo_cfg) = Inr l" "task_poll_sec demo_cfg = Inr p"
    "parse_job ''a'' demo_job = Inr J"
    using demo_login demo_poll demo_parse by blast
  then show ?thesis
    by (intro run_job_completes [OF well_env_healthy]) (simp_all add: demo_job_key demo_net demo_uncancelled demo_limits)
qed

text \<open>C2: a job reported as completed has its evidence in the call history. If a run of a job
  returns and the job is \<open>COMPLETED\<close>, then Proxmox accepted the restore request built from the
  job's hash, later answered that its task was stopped and successful, then accepted the
  ownership marker, then (when the job asks for it) the isolated network devices. After that,
  for a job that is to be powered on: unless the live restore had done it, Proxmox accepted the start
  of the guest and reported the task of the start, if there is one, as stopped and successful; then
  the guest agent answered a ping, if the job waits for it; then the URL, if the job has one, answered
  with a code below 400; a stop was not called. For a job that is to stay off the first of these calls
  is the request to stop the guest, whose failure the code ignores, and no start was called. The hash
  records the mark.\<close>

theorem completed_job_evidence:
  assumes "run_job E C metrics j s = (Inr (), t)" "job_state (job_key C j) t = state_value COMPLETED"
  shows "\<exists>J ds. parse_job j (hgetall (job_key C j) s) = Inr J \<and> calls t = calls s @ ds \<and>
     run_evidence E j J (hgetall (job_key C j) s) (calls s) ds \<and>
     map_of (hgetall (job_key C j) t) ''managed_marked'' = Some ''1''"
proof -
  have ok: "(Inr () :: exn + unit) \<noteq> Inl OutOfFuel" by simp
  from assms(1) ok show ?thesis
  proof (rule run_job_cases)
    fix s1 :: "'a store_scheme"
    assume "process_job E C metrics j s = (Inr (), s1)" "t = release_slot C s1"
    with assms(2) process_job_completed [OF this(1)] show ?thesis by simp
  next
    fix e and s1 s2 :: "'a store_scheme"
    assume "t = release_slot C s2" "job_state (job_key C j) s2 = state_value FAILED"
    with assms(2) show ?thesis by simp
  qed
qed

theorem completed_job_evidence_witness:
  "\<exists>t J. run_job well_env demo_cfg (\<lambda>cs ls. []) ''a'' demo_run_store = (Inr (), t) \<and>
     parse_job ''a'' demo_job = Inr J \<and> run_evidence well_env ''a'' J demo_job [] (calls t)"
proof -
  obtain t where t: "run_job well_env demo_cfg (\<lambda>cs ls. []) ''a'' demo_run_store = (Inr (), t)"
    "job_state (job_key demo_cfg ''a'') t = state_value COMPLETED" using demo_completed by blast
  have "calls demo_run_store = []" by (simp add: demo_run_store_def empty_store_def)
  with completed_job_evidence [OF t] t(1) show ?thesis by (auto simp: demo_job_key)
qed

text \<open>C11: a healthy run completes. If every call but the ping is answered, tasks may run for the
  first \<open>n\<close> status requests and then stop successfully, the agent may miss the first \<open>n\<close> pings, nobody
  cancels, no task timeout is configured (the default) or the \<open>n\<close> rounds fit into it, they fit
  into the agent wait, and the job's hash can be parsed (with the bridge that a remap needs), then
  \<open>run_job\<close> returns and the job is \<open>COMPLETED\<close>, whatever its power, agent, HTTP and isolation options
  are. The hypotheses on the configuration are those under which the code can log in and reads its
  poll interval.\<close>

theorem healthy_job_completes:
  assumes "healthy E n" "proxmox_login (proxmox_cfg C) = Inr l" "task_poll_sec C = Inr poll"
    and "limits_met E C n poll (hgetall (job_key C j) s)"
    and "\<And>cs ls. ''cancel_requested'' \<notin> fst ` set (metrics cs ls)"
    and "parse_job j (hgetall (job_key C j) s) = Inr J"
    and "job_net_mode (hgetall (job_key C j) s) = ''remap'' \<longrightarrow> job_lab_bridge (hgetall (job_key C j) s) \<noteq> []"
    and "\<not> cancel_requested E C j s"
  shows "\<exists>t. run_job E C metrics j s = (Inr (), t) \<and> job_state (job_key C j) t = state_value COMPLETED"
  by (rule run_job_completes [where metrics = metrics, OF assms])

theorem healthy_job_completes_witness:
  "\<exists>t. run_job well_env demo_cfg (\<lambda>cs ls. []) ''a'' demo_run_store = (Inr (), t) \<and>
     job_state ''restore:job:a'' t = ''COMPLETED''"
proof -
  obtain l p J where "proxmox_login (proxmox_cfg demo_cfg) = Inr l" "task_poll_sec demo_cfg = Inr p"
    "parse_job ''a'' demo_job = Inr J"
    using demo_login demo_poll demo_parse by blast
  then have "\<exists>t. run_job well_env demo_cfg (\<lambda>cs ls. []) ''a'' demo_run_store = (Inr (), t) \<and>
      job_state (job_key demo_cfg ''a'') t = state_value COMPLETED"
    by (intro healthy_job_completes [OF well_env_healthy]) (simp_all add: demo_job_key demo_net demo_uncancelled demo_limits)
  then show ?thesis by (simp add: demo_cfg_def job_key_def)
qed

text \<open>C10: every job ends, and its slot is given back, if its waits are bounded: either a positive
  \<open>task_timeout_sec\<close> is configured, or each Proxmox task is reported as stopped, with whatever exit
  status, after some number of status requests (the default timeout is 0, which the code takes for no
  timeout, and then a task that runs for ever is waited for for ever). With the fuel of \<open>job_fuel_ok\<close>
  a run returns normally; a job that exists is then \<open>COMPLETED\<close>, \<open>FAILED\<close> or \<open>CANCELLED\<close>, and the slot
  counter is that of one release.\<close>

theorem run_job_ends:
  assumes "job_fuel_ok E C (hgetall (job_key C j) s)"
  shows "\<exists>t. run_job E C metrics j s = (Inr (), t) \<and>
    (hgetall (job_key C j) s \<noteq> [] \<longrightarrow> job_state (job_key C j) t \<in> set TERMINAL) \<and>
    strs t = strs (release_slot C s)"
proof -
  obtain r t where run: "run_job E C metrics j s = (r, t)" by (cases "run_job E C metrics j s")
  have slot: "strs (release_slot C s1) = strs (release_slot C s)" if "strs s1 = strs s"
    for s s1 :: "'a store_scheme"
    using that
    by (simp add: release_slot_def incr_by_def counter_value_def get_str_def set_str_def split: option.splits)
  have pst: "strs s1 = strs s" if "process_job E C metrics j s = (q, s1)" for q s1
    using keepsD [OF keeps_process_job that] by (simp add: job_rel_def)
  have nf: "r \<noteq> Inl OutOfFuel"
  proof
    assume "r = Inl OutOfFuel"
    with run have "fst (run_job E C metrics j s) = Inl OutOfFuel" by simp
    then have "fst (process_job E C metrics j s) = Inl OutOfFuel"
      unfolding run_job_def by (simp only: bind_act_fuel catch_act_fuel basic_act_fuel store_acts_fuel simp_thms)
    with process_job_no_fuel [OF assms] show False by blast
  qed
  from run nf show ?thesis
  proof (rule run_job_cases)
    fix s1 :: "'a store_scheme"
    assume p: "process_job E C metrics j s = (Inr (), s1)" and "r = Inr ()" "t = release_slot C s1"
    moreover have "hgetall (job_key C j) s \<noteq> [] \<Longrightarrow> job_state (job_key C j) s1 \<in> set TERMINAL"
      using process_job_terminal [OF p] .
    ultimately show ?thesis using run slot [OF pst [OF p]] by simp
  next
    fix e and s1 s2 :: "'a store_scheme"
    assume p: "process_job E C metrics j s = (Inl e, s1)" and "r = Inr ()" and t: "t = release_slot C s2"
      and j: "job_rel C j UNIV {} s1 s2" "job_state (job_key C j) s2 = state_value FAILED"
    moreover have "strs (release_slot C s2) = strs (release_slot C s)"
      by (rule slot) (use pst [OF p] j(1) in \<open>simp add: job_rel_def\<close>)
    moreover have "job_state (job_key C j) t \<in> set TERMINAL" using j(2) t by (simp add: TERMINAL_def)
    ultimately show ?thesis using run by blast
  qed
qed

definition timed_cfg :: cfg where
  "timed_cfg = demo_cfg\<lparr>worker_cfg := [(''task_timeout_sec'', PInt 60)]\<rparr>"

lemma well_env_fuel_ok: "job_fuel_ok well_env demo_cfg demo_job"
proof -
  have "tasks_end well_env 2"
    using demo_task_ok(1) by (auto simp: tasks_end_def answer_def well_env_def)
  moreover have "fuel well_env = 61" by (simp add: well_env_def)
  ultimately show ?thesis
    using well_env_clock(1) by (auto simp: job_fuel_ok_def demo_net intro!: exI [of _ 2])
qed

lemma timed_fuel_ok: "job_fuel_ok (idle_env\<lparr>fuel := 61\<rparr>) timed_cfg demo_job"
proof -
  have c: "clock_ok (idle_env\<lparr>fuel := 61\<rparr>)" using demo_clock_ok by (simp add: clock_ok_def)
  have t: "task_timeout_sec timed_cfg = 60"
    by (simp add: task_timeout_sec_def timed_cfg_def dget_or_def py_or_def py_float_or_def)
  have p: "task_poll_sec timed_cfg = Inr 3"
    by (simp add: task_poll_sec_def timed_cfg_def demo_cfg_def dget_or_def)
  have "\<exists>k<61. (60 :: rat) \<le> 3 * of_nat k" by (intro exI [of _ 20]) simp
  then show ?thesis by (simp add: job_fuel_ok_def c t p demo_net)
qed

theorem run_job_ends_witness:
  "(\<exists>t. run_job (idle_env\<lparr>fuel := 61\<rparr>) timed_cfg (\<lambda>cs ls. []) ''a'' demo_run_store = (Inr (), t) \<and>
     job_state ''restore:job:a'' t \<in> set TERMINAL) \<and>
   (\<exists>t. run_job well_env demo_cfg (\<lambda>cs ls. []) ''a'' demo_run_store = (Inr (), t) \<and>
     job_state ''restore:job:a'' t \<in> set TERMINAL)"
proof -
  have k: "job_key timed_cfg ''a'' = ''restore:job:a''" "job_key demo_cfg ''a'' = ''restore:job:a''"
    "hgetall ''restore:job:a'' demo_run_store = demo_job"
    using demo_job_key by (simp_all add: timed_cfg_def job_key_def demo_cfg_def)
  have d: "demo_job \<noteq> []" by (simp add: demo_job_def)
  from run_job_ends [of "idle_env\<lparr>fuel := 61\<rparr>" timed_cfg "''a''" demo_run_store "\<lambda>cs ls. []"] timed_fuel_ok d
  have 1: "\<exists>t. run_job (idle_env\<lparr>fuel := 61\<rparr>) timed_cfg (\<lambda>cs ls. []) ''a'' demo_run_store = (Inr (), t) \<and>
     job_state ''restore:job:a'' t \<in> set TERMINAL" unfolding k by blast
  from run_job_ends [of well_env demo_cfg "''a''" demo_run_store "\<lambda>cs ls. []"] well_env_fuel_ok d
  have 2: "\<exists>t. run_job well_env demo_cfg (\<lambda>cs ls. []) ''a'' demo_run_store = (Inr (), t) \<and>
     job_state ''restore:job:a'' t \<in> set TERMINAL" unfolding k by blast
  from 1 2 show ?thesis ..
qed

text \<open>A job whose flag is set when the worker takes it makes no call and becomes \<open>CANCELLED\<close>.\<close>

lemma cancelled_before_start:
  assumes "hgetall (job_key C j) s \<noteq> []" "cancel_requested E C j s"
  shows "\<exists>t. run_job E C metrics j s = (Inr (), t) \<and> calls t = calls s \<and>
    job_state (job_key C j) t = state_value CANCELLED"
proof -
  obtain r t where m: "mark_cancelled E C j s = (r, t)" by (cases "mark_cancelled E C j s")
  from mark_cancelled_state [OF m] have r: "r = Inr ()" "job_state (job_key C j) t = state_value CANCELLED"
    by simp_all
  have "keeps (job_rel C j UNIV {}) (mark_cancelled E C j)" by (rule keeps_mark_cancelled) simp
  from keepsD [OF this m] have "calls t = calls s" by (auto dest: job_rel_calls)
  moreover have "run_job E C metrics j s = (Inr (), release_slot C t)"
    using m r assms by (simp add: run_job_def process_job_start bind_act_def catch_act_def upd_act_def)
  ultimately show ?thesis using r(2) by simp
qed

text \<open>C25: a run of a job touches nothing else. Whatever happens in it, every other hash keeps
  its fields, no list but the job's own log changes (so the queue is as it was), and of the
  plain keys at most the slot counter differs.\<close>

theorem run_job_frame:
  assumes "run_job E C metrics j s = (r, t)"
  shows "(\<forall>k. k \<noteq> job_key C j \<longrightarrow> hgetall k t = hgetall k s) \<and>
    (\<forall>k. k \<noteq> job_log_key C j \<longrightarrow> lrange_all k t = lrange_all k s) \<and>
    (\<forall>k. k \<noteq> slots_key C \<longrightarrow> get_str k t = get_str k s)"
proof -
  have frame: "(\<forall>k. k \<noteq> job_key C j \<longrightarrow> hgetall k u = hgetall k s) \<and>
    (\<forall>k. k \<noteq> job_log_key C j \<longrightarrow> lrange_all k u = lrange_all k s) \<and>
    (\<forall>k. k \<noteq> slots_key C \<longrightarrow> get_str k u = get_str k s)"
    if "job_rel C j UNIV UNIV s u" for u
    using that by (simp add: job_rel_def hgetall_def get_str_def)
  have slots: "get_str k (release_slot C u) = get_str k u" if "k \<noteq> slots_key C" for k and u :: "'a store_scheme"
    using that by (auto simp: release_slot_def incr_by_def get_str_def set_str_def split: option.splits)
  let ?h = "\<lambda>e. bind_act (set_state E C j FAILED [(''error'', exn_str e), (''progress'', ''0'')]) (\<lambda>_.
          append_log E C j ''ERROR'' ''FAILED'' (exn_str e))"
  have k: "keeps (job_rel C j UNIV UNIV) (catch_act (process_job E C metrics j) ?h)"
    by (intro job.keeps_catch keeps_process_job job.keeps_bind keeps_set_state keeps_append_log) simp
  obtain r1 u where c: "catch_act (process_job E C metrics j) ?h s = (r1, u)"
    by (cases "catch_act (process_job E C metrics j) ?h s")
  from keepsD [OF k c] have "job_rel C j UNIV UNIV s u" .
  moreover have "t = u \<or> t = release_slot C u"
    using assms c by (cases r1) (auto simp: run_job_def bind_act_def upd_act_def)
  ultimately show ?thesis using frame slots by auto
qed

theorem run_job_frame_witness:
  "\<exists>t. run_job well_env demo_cfg (\<lambda>cs ls. []) ''a'' demo_run_store = (Inr (), t) \<and>
     lrange_all ''restore:queue'' t = lrange_all ''restore:queue'' demo_run_store"
proof -
  obtain t where t: "run_job well_env demo_cfg (\<lambda>cs ls. []) ''a'' demo_run_store = (Inr (), t)"
    using demo_completed by blast
  have "''restore:queue'' \<noteq> job_log_key demo_cfg ''a''" by (simp add: demo_cfg_def job_log_key_def job_key_def)
  with run_job_frame [OF t] t show ?thesis by blast
qed

end
