(* ===== verification/PyDict.thy ===== *)
theory PyDict
  imports PyVal
begin

text \<open>
  Operations on Python dictionaries and iterables that the plan module uses: \<open>{**a, **b}\<close>,
  assignment to a key, iteration over a value, and the list comprehensions that clean a list
  of strings.
\<close>

definition dput :: "dict \<Rightarrow> string \<Rightarrow> pyval \<Rightarrow> dict" where
  "dput d k v = AList.update k v d"

definition dmerge :: "dict \<Rightarrow> dict \<Rightarrow> dict" where
  "dmerge a b = AList.merge a b"

definition has_key :: "dict \<Rightarrow> string \<Rightarrow> bool" where
  "has_key d k \<longleftrightarrow> map_of d k \<noteq> None"

lemma dget_dput [simp]: "dget (dput d k v) k' = (if k' = k then v else dget d k')"
  by (simp add: dget_def dget_or_def dput_def update_conv')

lemma dget_or_dput [simp]: "dget_or (dput d k v) k' x = (if k' = k then v else dget_or d k' x)"
  by (simp add: dget_or_def dput_def update_conv')

lemma dget_dmerge: "dget (dmerge a b) k = (if has_key b k then dget b k else dget a k)"
  by (simp add: dget_def dget_or_def dmerge_def has_key_def map_add_def split: option.splits)

lemma has_key_dput [simp]: "has_key (dput d k v) k' \<longleftrightarrow> k' = k \<or> has_key d k'"
  by (simp add: has_key_def dput_def update_conv')

lemma dput_not_Nil [simp]: "dput d k v \<noteq> []"
  by (cases d) (simp_all add: dput_def split: prod.split)

lemma has_key_Nil [simp]: "\<not> has_key [] k"
  by (simp add: has_key_def)

lemma dget_no_key: "\<not> has_key d k \<Longrightarrow> dget d k = PNone"
  by (simp add: has_key_def)

text \<open>\<open>for x in v\<close>: lists, the characters of a string, the keys of a dict\<close>

fun py_iter :: "pyval \<Rightarrow> exn + pyval list" where
  "py_iter (PList xs) = Inr xs"
| "py_iter (PStr s) = Inr (map (\<lambda>c. PStr [c]) s)"
| "py_iter (PDict d) = Inr (map (\<lambda>(k, v). PStr k) d)"
| "py_iter v = Inl (TypeError ''object is not iterable'')"

text \<open>\<open>for x in v or []\<close>\<close>

definition iter_or_empty :: "pyval \<Rightarrow> exn + pyval list" where
  "iter_or_empty v = py_iter (py_or v (PList []))"

lemma iter_or_empty_simps [simp]:
  "iter_or_empty (PList xs) = Inr xs" "iter_or_empty PNone = Inr []"
  by (auto simp: iter_or_empty_def py_or_def)

text \<open>\<open>[str(t).strip() for t in xs if str(t).strip()]\<close>\<close>

definition clean_strs :: "pyval list \<Rightarrow> string list" where
  "clean_strs xs = filter (\<lambda>t. t \<noteq> []) (map (\<lambda>x. strip (py_str x)) xs)"

lemma clean_strs_mem: "t \<in> set (clean_strs xs) \<Longrightarrow> t \<noteq> [] \<and> strip t = t"
  by (auto simp: clean_strs_def)

lemma clean_strs_fixed:
  "\<forall>t \<in> set ts. t \<noteq> [] \<and> strip t = t \<Longrightarrow> clean_strs (map PStr ts) = ts"
  by (induction ts) (simp_all add: clean_strs_def)

lemma clean_strs_idem [simp]: "clean_strs (map PStr (clean_strs xs)) = clean_strs xs"
  by (rule clean_strs_fixed) (use clean_strs_mem in blast)

definition str_vals :: "string list \<Rightarrow> pyval" where
  "str_vals ts = PList (map PStr ts)"

definition int_vals :: "int list \<Rightarrow> pyval" where
  "int_vals ns = PList (map PInt ns)"

text \<open>The strings of a stored list\<close>

definition strs_of :: "pyval \<Rightarrow> string list" where
  "strs_of v = (case v of PList xs \<Rightarrow> map py_str xs | _ \<Rightarrow> [])"

lemma strs_of_vals [simp]: "strs_of (str_vals ts) = ts"
  by (simp add: strs_of_def str_vals_def map_idI)

text \<open>\<open>v in (None, "")\<close>\<close>

definition none_or_empty :: "pyval \<Rightarrow> bool" where
  "none_or_empty v \<longleftrightarrow> v = PNone \<or> v = PStr []"

text \<open>\<open>sorted(set(ns))\<close>\<close>

definition sorted_set :: "int list \<Rightarrow> int list" where
  "sorted_set ns = sort (remdups ns)"

lemma sorted_set_facts [simp]:
  "set (sorted_set ns) = set ns" "sorted (sorted_set ns)" "distinct (sorted_set ns)"
  by (simp_all add: sorted_set_def)

lemma sorted_set_idem [simp]: "sorted_set (sorted_set ns) = sorted_set ns"
  by (simp add: sorted_set_def sorted_sort_id distinct_remdups_id)

end
