(* ===== verification/World.thy ===== *)
theory World
  imports Jobs PyDict
begin

text \<open>
  The part of the Redis keyspace that the plan module owns, as an extension of the job store:
  JSON documents (groups, locations, plans: Python dictionaries), the index sets, and the
  documents of the plan runs, whose fields the code fixes in \<open>start_plan_run\<close> and which are
  a record here. Serialisation with \<open>json.dumps\<close> and \<open>json.loads\<close> returns the same value. Then the
  entity functions of \<open>plans.py\<close> (\<open>_save_entity\<close>, \<open>_delete_entity\<close>, \<open>_list_entities\<close>) and the
  interface they offer to the groups, the locations and the plans.
\<close>

subsection \<open>Plan runs\<close>

text \<open>What a run takes from its plan and location when it starts, and never changes\<close>

record run_params =
  rn_plan_id :: string
  rn_plan_name :: string
  rn_cutoff :: string
  rn_location_id :: string
  rn_location_name :: string
  rn_node :: string
  rn_nodes :: "string list"
  rn_storage :: string
  rn_storage_by_node :: "(string \<times> string) list"
  rn_vmid_start :: int
  rn_bwlimit :: int
  rn_live_restore :: bool
  rn_powered_off :: bool
  rn_power_on :: bool
  rn_qga_wait_sec :: int
  rn_network_mode :: string
  rn_lab_bridge :: string
  rn_http_check_url :: string
  rn_overwrite :: bool
  rn_drill :: bool
  rn_auto_teardown :: bool
  rn_restore_mode :: string
  rn_halt_on_error :: bool
  rn_group_ids :: "string list"
  rn_started_at :: string
  rn_created_at :: string

record teardown_entry =
  te_vmid :: int
  te_node :: string
  te_ok :: bool
  te_error :: string

text \<open>
  The rest of the run. A key the code has not set yet has the value that its \<open>get\<close> with a
  default returns: empty strings and lists, \<open>None\<close>, \<open>False\<close>.
\<close>

record plan_run =
  pr_id :: string
  pr_params :: run_params
  pr_status :: plan_run_status
  pr_index :: nat
  pr_jobs :: "string list list"
  pr_pending :: "dict list list"
  pr_targets :: "(int \<times> string) list"
  pr_next_vmid :: "int option"
  pr_finished_at :: string
  pr_error :: string
  pr_updated_at :: string
  pr_report_id :: string
  pr_rto_sec :: "int option"
  pr_teardown_status :: string
  pr_teardown_results :: "teardown_entry list"
  pr_teardown_at :: string
  pr_assurance_evaluated :: bool
  pr_assurance_status :: string
  pr_assurance_detail :: string
  pr_notification_sent :: bool
  pr_cancel_stats :: "(int \<times> int) option"

subsection \<open>The state\<close>

record world = store +
  docs :: "(string \<times> dict) list"
  sets :: "(string \<times> string list) list"
  run_docs :: "(string \<times> plan_run) list"
  audits :: "(string \<times> dict list) list"
  zsets :: "(string \<times> (string \<times> rat) list) list"

definition empty_world :: world where
  "empty_world = store.extend empty_store \<lparr>docs = [], sets = [], run_docs = [], audits = [], zsets = []\<rparr>"

definition smembers :: "string \<Rightarrow> world \<Rightarrow> string list" where
  "smembers key w = (case map_of (sets w) key of None \<Rightarrow> [] | Some xs \<Rightarrow> xs)"

definition sadd :: "string \<Rightarrow> string \<Rightarrow> world \<Rightarrow> world" where
  "sadd key x w = w\<lparr>sets := AList.update key (List.insert x (smembers key w)) (sets w)\<rparr>"

definition srem :: "string \<Rightarrow> string \<Rightarrow> world \<Rightarrow> world" where
  "srem key x w = w\<lparr>sets := AList.update key (filter (\<lambda>y. y \<noteq> x) (smembers key w)) (sets w)\<rparr>"

definition get_doc :: "string \<Rightarrow> world \<Rightarrow> dict option" where
  "get_doc key w = map_of (docs w) key"

definition set_doc :: "string \<Rightarrow> dict \<Rightarrow> world \<Rightarrow> world" where
  "set_doc key d w = w\<lparr>docs := AList.update key d (docs w)\<rparr>"

definition del_doc :: "string \<Rightarrow> world \<Rightarrow> world" where
  "del_doc key w = w\<lparr>docs := AList.delete key (docs w)\<rparr>"

lemma smembers_sadd [simp]:
  "smembers k (sadd key x w) = (if k = key then List.insert x (smembers key w) else smembers k w)"
  by (simp add: smembers_def sadd_def update_conv')

lemma smembers_srem [simp]:
  "smembers k (srem key x w) = (if k = key then filter (\<lambda>y. y \<noteq> x) (smembers key w) else smembers k w)"
  by (simp add: smembers_def srem_def update_conv')

lemma get_set_doc [simp]: "get_doc k (set_doc key d w) = (if k = key then Some d else get_doc k w)"
  by (simp add: get_doc_def set_doc_def update_conv')

lemma get_del_doc [simp]: "get_doc k (del_doc key w) = (if k = key then None else get_doc k w)"
  by (simp add: get_doc_def del_doc_def delete_conv')

lemma doc_frame [simp]:
  "get_doc k (sadd key x w) = get_doc k w" "get_doc k (srem key x w) = get_doc k w"
  "smembers k (set_doc key d w) = smembers k w" "smembers k (del_doc key w) = smembers k w"
  "run_docs (sadd key x w) = run_docs w" "run_docs (srem key x w) = run_docs w"
  "run_docs (set_doc key d w) = run_docs w" "run_docs (del_doc key w) = run_docs w"
  "calls (sadd key x w) = calls w" "calls (srem key x w) = calls w"
  "calls (set_doc key d w) = calls w" "calls (del_doc key w) = calls w"
  "hashes (sadd key x w) = hashes w" "hashes (srem key x w) = hashes w"
  "hashes (set_doc key d w) = hashes w" "hashes (del_doc key w) = hashes w"
  "rlists (sadd key x w) = rlists w" "rlists (srem key x w) = rlists w"
  "rlists (set_doc key d w) = rlists w" "rlists (del_doc key w) = rlists w"
  "uuids (sadd key x w) = uuids w" "uuids (srem key x w) = uuids w"
  "uuids (set_doc key d w) = uuids w" "uuids (del_doc key w) = uuids w"
  by (simp_all add: get_doc_def smembers_def sadd_def srem_def set_doc_def del_doc_def)

subsection \<open>Keys\<close>

definition redis_name :: "cfg \<Rightarrow> string \<Rightarrow> string \<Rightarrow> string" where
  "redis_name C k dflt = py_str (dget_or (redis_cfg C) k (PStr dflt))"

definition group_key :: "cfg \<Rightarrow> string \<Rightarrow> string" where
  "group_key C i = redis_name C ''group_key_prefix'' ''restore:group:'' @ i"

definition location_key :: "cfg \<Rightarrow> string \<Rightarrow> string" where
  "location_key C i = redis_name C ''location_key_prefix'' ''restore:location:'' @ i"

definition plan_key :: "cfg \<Rightarrow> string \<Rightarrow> string" where
  "plan_key C i = redis_name C ''plan_key_prefix'' ''restore:plan:'' @ i"

definition plan_run_key :: "cfg \<Rightarrow> string \<Rightarrow> string" where
  "plan_run_key C i = redis_name C ''plan_run_key_prefix'' ''restore:planrun:'' @ i"

definition groups_index :: "cfg \<Rightarrow> string" where
  "groups_index C = redis_name C ''groups_index'' ''restore:groups''"

definition locations_index :: "cfg \<Rightarrow> string" where
  "locations_index C = redis_name C ''locations_index'' ''restore:locations''"

definition plans_index :: "cfg \<Rightarrow> string" where
  "plans_index C = redis_name C ''plans_index'' ''restore:plans''"

definition plan_runs_index :: "cfg \<Rightarrow> string" where
  "plan_runs_index C = redis_name C ''plan_runs_index'' ''restore:planruns''"

definition active_plan_runs_key :: "cfg \<Rightarrow> string" where
  "active_plan_runs_key C = redis_name C ''active_plan_runs_key'' ''restore:planruns:active''"

lemma entity_key_inj [simp]:
  "group_key C a = group_key C b \<longleftrightarrow> a = b" "location_key C a = location_key C b \<longleftrightarrow> a = b"
  "plan_key C a = plan_key C b \<longleftrightarrow> a = b" "plan_run_key C a = plan_run_key C b \<longleftrightarrow> a = b"
  by (simp_all add: group_key_def location_key_def plan_key_def plan_run_key_def)

subsection \<open>Saving, deleting and listing documents\<close>

text \<open>\<open>{**data, "id": entity_id, "updated_at": now}\<close>, with \<open>created_at\<close> when it is missing\<close>

definition stamp_entity :: "string \<Rightarrow> string \<Rightarrow> dict \<Rightarrow> dict" where
  "stamp_entity entity_id stamp data =
     (let d = dput (dput data ''id'' (PStr entity_id)) ''updated_at'' (PStr stamp)
      in if \<not> has_key d ''created_at'' \<or> \<not> truthy (dget d ''created_at'')
         then dput d ''created_at'' (PStr stamp) else d)"

definition save_entity :: "env \<Rightarrow> string \<Rightarrow> string \<Rightarrow> string \<Rightarrow> dict \<Rightarrow> world \<Rightarrow> dict \<times> world" where
  "save_entity E key index entity_id data w =
     (let d = stamp_entity entity_id (utc_now_iso E w) data
      in (d, sadd index entity_id (set_doc key d w)))"

definition delete_entity :: "string \<Rightarrow> string \<Rightarrow> string \<Rightarrow> world \<Rightarrow> bool \<times> world" where
  "delete_entity key index entity_id w =
     (get_doc key w \<noteq> None, srem index entity_id (del_doc key w))"

text \<open>\<open>if data\<close> drops the ids without a document, and an empty document.\<close>

definition list_entities :: "string \<Rightarrow> (string \<Rightarrow> string) \<Rightarrow> world \<Rightarrow> dict list" where
  "list_entities index key_fn w =
     List.map_filter (\<lambda>i. case get_doc (key_fn i) w of
        None \<Rightarrow> None | Some d \<Rightarrow> if d = [] then None else Some d) (sort (smembers index w))"

lemma stamp_entity_fields [simp]:
  "dget (stamp_entity i st d) ''id'' = PStr i" "dget (stamp_entity i st d) ''updated_at'' = PStr st"
  "k \<notin> {''id'', ''updated_at'', ''created_at''} \<Longrightarrow> dget (stamp_entity i st d) k = dget d k"
  "k \<notin> {''id'', ''updated_at'', ''created_at''} \<Longrightarrow> dget_or (stamp_entity i st d) k x = dget_or d k x"
  by (simp_all add: stamp_entity_def Let_def)

lemma stamp_entity_created:
  "truthy (dget d ''created_at'') \<Longrightarrow> dget (stamp_entity i st d) ''created_at'' = dget d ''created_at''"
  "\<not> truthy (dget d ''created_at'') \<Longrightarrow> dget (stamp_entity i st d) ''created_at'' = PStr st"
  by (cases "has_key d ''created_at''"; simp add: stamp_entity_def Let_def dget_no_key)+

lemma stamp_entity_not_Nil [simp]: "stamp_entity i st d \<noteq> []"
  by (simp add: stamp_entity_def Let_def)

subsection \<open>The interface of a kind of document\<close>

text \<open>
  What the functions for one kind of document promise: a saved document is found under its id,
  a deleted one is not, no other id is touched, and the index holds the ids.
\<close>

locale entity_store =
  fixes get :: "string \<Rightarrow> 'w \<Rightarrow> 'e option"
    and save :: "string \<Rightarrow> 'e \<Rightarrow> 'w \<Rightarrow> 'e \<times> 'w"
    and del :: "string \<Rightarrow> 'w \<Rightarrow> bool \<times> 'w"
    and ids :: "'w \<Rightarrow> string list"
  assumes get_save: "save i e w = (e', w') \<Longrightarrow> get j w' = (if j = i then Some e' else get j w)"
    and get_del: "del i w = (b, w') \<Longrightarrow> get j w' = (if j = i then None else get j w)"
    and del_found: "del i w = (b, w') \<Longrightarrow> b \<longleftrightarrow> get i w \<noteq> None"
    and ids_save: "save i e w = (e', w') \<Longrightarrow> set (ids w') = insert i (set (ids w))"
    and ids_del: "del i w = (b, w') \<Longrightarrow> set (ids w') = set (ids w) - {i}"
begin

definition indexed :: "'w \<Rightarrow> bool" where
  "indexed w \<longleftrightarrow> (\<forall>i. get i w \<noteq> None \<longleftrightarrow> i \<in> set (ids w))"

definition listed :: "'w \<Rightarrow> 'e list" where
  "listed w = List.map_filter (\<lambda>i. get i w) (sort (ids w))"

lemma set_listed: "set (listed w) = {e. \<exists>i \<in> set (ids w). get i w = Some e}"
  by (auto simp: listed_def List.map_filter_def) force

lemma indexed_save: "save i e w = (e', w') \<Longrightarrow> indexed w \<Longrightarrow> indexed w'"
  by (simp add: indexed_def get_save ids_save)

lemma indexed_del: "del i w = (b, w') \<Longrightarrow> indexed w \<Longrightarrow> indexed w'"
  by (simp add: indexed_def get_del ids_del)

lemma listed_save: "save i e w = (e', w') \<Longrightarrow> e' \<in> set (listed w')"
  by (auto simp: set_listed get_save ids_save)

lemma listed_save_other:
  "save i e w = (e', w') \<Longrightarrow> x \<in> set (listed w) \<Longrightarrow> x \<in> set (listed w') \<or> get i w = Some x"
  by (auto simp: set_listed get_save ids_save)

lemma listed_del:
  "del i w = (b, w') \<Longrightarrow> set (listed w') = {e. \<exists>j \<in> set (ids w) - {i}. get j w = Some e}"
  by (auto simp: set_listed get_del ids_del)

lemma save_del:
  "save i e w = (e', w1) \<Longrightarrow> del i w1 = (b, w2) \<Longrightarrow>
     b \<and> get i w2 = None \<and> (\<forall>j. j \<noteq> i \<longrightarrow> get j w2 = get j w)"
  using get_save [of i e w e' w1] get_del [of i w1 b w2] del_found [of i w1 b w2] by auto

end

lemma entity_store_docs:
  assumes "\<And>a b. key a = key b \<longleftrightarrow> a = b"
  shows "entity_store (\<lambda>i. get_doc (key i)) (\<lambda>i. save_entity E (key i) index i)
    (\<lambda>i. delete_entity (key i) index i) (smembers index)"
  by unfold_locales (auto simp: save_entity_def delete_entity_def Let_def assms)

interpretation group_store: entity_store "\<lambda>i. get_doc (group_key C i)"
  "\<lambda>i. save_entity E (group_key C i) (groups_index C) i"
  "\<lambda>i. delete_entity (group_key C i) (groups_index C) i" "smembers (groups_index C)" for C E
  by (rule entity_store_docs) simp

interpretation location_store: entity_store "\<lambda>i. get_doc (location_key C i)"
  "\<lambda>i. save_entity E (location_key C i) (locations_index C) i"
  "\<lambda>i. delete_entity (location_key C i) (locations_index C) i" "smembers (locations_index C)" for C E
  by (rule entity_store_docs) simp

interpretation plan_store: entity_store "\<lambda>i. get_doc (plan_key C i)"
  "\<lambda>i. save_entity E (plan_key C i) (plans_index C) i"
  "\<lambda>i. delete_entity (plan_key C i) (plans_index C) i" "smembers (plans_index C)" for C E
  by (rule entity_store_docs) simp

end
