(* ===== verification/Entities.thy ===== *)
theory Entities
  imports World
begin

text \<open>
  Inventory groups, recovery locations and recovery plans (\<open>plans.py\<close>): the normalisation of a
  payload to the stored document and the create, update, get, list and delete functions.
  The regular expression engine is a parameter \<open>rx_error\<close>: the error text of \<open>re.compile\<close> on a
  pattern, or \<open>None\<close> when it compiles.
\<close>

subsection \<open>Fields\<close>

definition safe_qga_sec :: "pyval \<Rightarrow> int" where
  "safe_qga_sec raw =
     (case py_int (py_or raw (PInt 0)) of Inr n \<Rightarrow> max 0 (min 3600 n) | Inl e \<Rightarrow> 0)"

definition normalize_network_mode :: "pyval \<Rightarrow> string" where
  "normalize_network_mode raw =
     (let mode = lower (strip (py_str (py_or raw (PStr ''none''))))
      in if mode \<notin> {''none'', ''unlink'', ''remap''} then ''none'' else mode)"

text \<open>\<open>payload.get(k) or ""\<close> kept as it is\<close>

definition or_empty :: "dict \<Rightarrow> string \<Rightarrow> pyval" where
  "or_empty d k = py_or (dget d k) (PStr [])"

subsection \<open>Inventory groups\<close>

definition parse_int_list :: "pyval \<Rightarrow> string \<Rightarrow> exn + int list" where
  "parse_int_list raw label =
     res_bind (iter_or_empty raw) (map_res (\<lambda>v.
       case py_int v of
         Inr n \<Rightarrow> Inr n
       | Inl e \<Rightarrow> Inl (ValueError (''invalid '' @ label @ '': '' @ repr_val v))))"

definition bad_range :: "pyval \<Rightarrow> exn" where
  "bad_range item = ValueError (''invalid vmid range: '' @ repr_val item)"

text \<open>The two ends of an entry, as they are written\<close>

definition range_ends :: "pyval \<Rightarrow> exn + (int \<times> int) option" where
  "range_ends item =
     (let two = (\<lambda>a b. case (py_int a, py_int b) of
                   (Inr x, Inr y) \<Rightarrow> Inr (Some (x, y)) | _ \<Rightarrow> Inl (bad_range item))
      in case item of
           PStr s \<Rightarrow>
             let t = strip s in
             if t = [] then Inr None
             else if CHR ''-'' \<notin> set t then
               Inl (ValueError (''invalid vmid range (expected start-end): '' @ repr_val item))
             else two (PStr (strip (takeWhile (\<lambda>c. c \<noteq> CHR ''-'') t)))
                      (PStr (strip (tl (dropWhile (\<lambda>c. c \<noteq> CHR ''-'') t))))
         | PList [a, b] \<Rightarrow> two a b
         | PDict d \<Rightarrow> two (dget d ''start'') (dget d ''end'')
         | _ \<Rightarrow> Inl (bad_range item))"

definition range_of_item :: "pyval \<Rightarrow> exn + (int \<times> int) option" where
  "range_of_item item =
     res_bind (range_ends item) (\<lambda>ends.
       case ends of
         None \<Rightarrow> Inr None
       | Some (a, b) \<Rightarrow>
           let lo = min a b; hi = max a b in
           if lo < 0 \<or> hi < 0 then
             Inl (ValueError (''vmid range must be non-negative: '' @ str_of_int lo @ ''-'' @ str_of_int hi))
           else Inr (Some (lo, hi)))"

definition normalize_vmid_ranges :: "pyval \<Rightarrow> exn + (int \<times> int) list" where
  "normalize_vmid_ranges raw =
     res_bind (iter_or_empty raw) (\<lambda>items.
     res_bind (map_res range_of_item items) (\<lambda>rs. Inr (List.map_filter id rs)))"

definition range_val :: "int \<times> int \<Rightarrow> pyval" where
  "range_val r = PDict [(''start'', PInt (fst r)), (''end'', PInt (snd r))]"

definition is_regex :: "string \<Rightarrow> bool" where
  "is_regex p \<longleftrightarrow> startswith ''re:'' (lower p)"

definition normalize_name_patterns :: "(string \<Rightarrow> string option) \<Rightarrow> pyval \<Rightarrow> exn + string list" where
  "normalize_name_patterns rx_error raw =
     res_bind (iter_or_empty raw) (\<lambda>items.
       map_res (\<lambda>p. if is_regex p then
                      (case rx_error (drop 3 p) of
                         None \<Rightarrow> Inr p
                       | Some m \<Rightarrow> Inl (ValueError (''invalid name pattern regex: '' @ repr_str p @
                                     '' ('' @ m @ '')'')))
                    else Inr p)
         (clean_strs items))"

definition normalize_group :: "(string \<Rightarrow> string option) \<Rightarrow> dict \<Rightarrow> string \<Rightarrow> exn + dict" where
  "normalize_group rx_error payload group_id =
     res_bind (strip_field payload ''name'') (\<lambda>name.
     if name = [] then Inl (ValueError ''name is required'') else
     res_bind (iter_or_empty (dget payload ''tags'')) (\<lambda>tags.
     res_bind (iter_or_empty (dget payload ''source_ids'')) (\<lambda>source_ids.
     res_bind (parse_int_list (dget payload ''vmids'') ''vmid'') (\<lambda>vmids.
     res_bind (normalize_name_patterns rx_error (dget payload ''name_patterns'')) (\<lambda>name_patterns.
     res_bind (normalize_vmid_ranges (dget payload ''vmid_ranges'')) (\<lambda>vmid_ranges.
     res_bind (parse_int_list (dget payload ''exclude_vmids'') ''exclude_vmid'') (\<lambda>exclude_vmids.
     res_bind (normalize_name_patterns rx_error (dget payload ''exclude_name_patterns'')) (\<lambda>exclude_patterns.
     if clean_strs tags = [] \<and> vmids = [] \<and> name_patterns = [] \<and> vmid_ranges = [] then
       Inl (ValueError ''group needs at least one of: tags, vmids, name_patterns, or vmid_ranges'')
     else Inr
       [(''id'', PStr group_id), (''name'', PStr name), (''tags'', str_vals (clean_strs tags)),
        (''source_ids'', str_vals (clean_strs source_ids)), (''vmids'', int_vals (sorted_set vmids)),
        (''name_patterns'', str_vals name_patterns), (''vmid_ranges'', PList (map range_val vmid_ranges)),
        (''exclude_vmids'', int_vals (sorted_set exclude_vmids)),
        (''exclude_name_patterns'', str_vals exclude_patterns), (''mode'', PStr ''latest_per_vmid''),
        (''created_at'', or_empty payload ''created_at''), (''updated_at'', or_empty payload ''updated_at'')]))))))))"

text \<open>
  \<open>group_id or str(uuid.uuid4())\<close> is evaluated after the checks, so a payload that is refused
  draws no id.
\<close>

definition create_entity ::
  "env \<Rightarrow> (string \<Rightarrow> exn + dict) \<Rightarrow> (string \<Rightarrow> string) \<Rightarrow> string \<Rightarrow> (world, dict) act" where
  "create_entity E norm_fn key_fn index = (\<lambda>w.
     case norm_fn (uuid E (uuids w)) of
       Inl e \<Rightarrow> (Inl e, w)
     | Inr data \<Rightarrow>
         bind_act (new_uuid E) (\<lambda>i w1.
           case save_entity E (key_fn i) index i data w1 of (d, w2) \<Rightarrow> (Inr d, w2)) w)"

definition save_act ::
  "env \<Rightarrow> string \<Rightarrow> string \<Rightarrow> string \<Rightarrow> dict \<Rightarrow> (world, dict) act" where
  "save_act E key index i data w = (case save_entity E key index i data w of (d, w1) \<Rightarrow> (Inr d, w1))"

definition get_group :: "cfg \<Rightarrow> string \<Rightarrow> world \<Rightarrow> dict option" where
  "get_group C i = get_doc (group_key C i)"

definition list_groups :: "cfg \<Rightarrow> world \<Rightarrow> dict list" where
  "list_groups C = list_entities (groups_index C) (group_key C)"

definition delete_group :: "cfg \<Rightarrow> string \<Rightarrow> world \<Rightarrow> bool \<times> world" where
  "delete_group C i = delete_entity (group_key C i) (groups_index C) i"

definition create_group ::
  "env \<Rightarrow> cfg \<Rightarrow> (string \<Rightarrow> string option) \<Rightarrow> dict \<Rightarrow> (world, dict) act" where
  "create_group E C rx_error payload =
     create_entity E (normalize_group rx_error payload) (group_key C) (groups_index C)"

text \<open>\<open>if not existing\<close>: also an empty document counts as missing.\<close>

definition existing_doc :: "string \<Rightarrow> string \<Rightarrow> world \<Rightarrow> exn + dict" where
  "existing_doc key i w =
     (case get_doc key w of
        None \<Rightarrow> Inl (KeyError i) | Some d \<Rightarrow> if d = [] then Inl (KeyError i) else Inr d)"

definition update_group ::
  "env \<Rightarrow> cfg \<Rightarrow> (string \<Rightarrow> string option) \<Rightarrow> string \<Rightarrow> dict \<Rightarrow> (world, dict) act" where
  "update_group E C rx_error group_id payload =
     bind_act (\<lambda>w. (existing_doc (group_key C group_id) group_id w, w)) (\<lambda>existing.
     bind_act (res_act (normalize_group rx_error
        (dput (dmerge existing payload) ''id'' (PStr group_id)) group_id)) (\<lambda>data.
     save_act E (group_key C group_id) (groups_index C) group_id
       (dput data ''created_at'' (or_empty existing ''created_at''))))"

subsection \<open>Recovery locations\<close>

definition add_new :: "string \<Rightarrow> string list \<Rightarrow> string list" where
  "add_new n ns = (if n \<in> set ns then ns else ns @ [n])"

text \<open>The node and the nodes of a location: \<open>node\<close> first, without duplicates\<close>

definition location_nodes :: "string \<Rightarrow> pyval \<Rightarrow> exn + string \<times> string list" where
  "location_nodes node raw_nodes =
     (let ns = (case raw_nodes of PList xs \<Rightarrow> fold add_new (clean_strs xs) [] | _ \<Rightarrow> [])
      in if ns \<noteq> [] then
           (if node \<noteq> [] then Inr (node, node # filter (\<lambda>n. n \<noteq> node) ns) else Inr (hd ns, ns))
         else if node \<noteq> [] then Inr (node, [node])
         else Inl (ValueError ''node (or nodes) is required''))"

definition int_field :: "pyval \<Rightarrow> int \<Rightarrow> string \<Rightarrow> string \<Rightarrow> exn + int" where
  "int_field v least not_int too_small =
     (case py_int v of
        Inl e \<Rightarrow> Inl (ValueError not_int)
      | Inr n \<Rightarrow> if n < least then Inl (ValueError too_small) else Inr n)"

definition given_storages :: "pyval \<Rightarrow> (string \<times> string) list" where
  "given_storages raw =
     (case raw of
        PDict d \<Rightarrow> fold (\<lambda>(k, v) m. if strip k \<noteq> [] \<and> strip (py_str v) \<noteq> []
                                    then AList.update (strip k) (strip (py_str v)) m else m) d []
      | _ \<Rightarrow> [])"

definition default_storages :: "string \<Rightarrow> string list \<Rightarrow> (string \<times> string) list \<Rightarrow> (string \<times> string) list" where
  "default_storages storage ns sbn =
     fold (\<lambda>n m. if map_of m n = None \<and> storage \<noteq> [] then AList.update n storage m else m) ns sbn"

definition str_dict :: "(string \<times> string) list \<Rightarrow> pyval" where
  "str_dict m = PDict (map (\<lambda>(k, v). (k, PStr v)) m)"

definition bool_field :: "dict \<Rightarrow> string \<Rightarrow> bool \<Rightarrow> pyval" where
  "bool_field d k dflt = PBool (truthy (dget_or d k (PBool dflt)))"

definition str_field :: "dict \<Rightarrow> string \<Rightarrow> string" where
  "str_field d k = strip (py_str (or_empty d k))"

text \<open>The storage of each node, with the errors for a node that has none\<close>

definition location_storages ::
  "dict \<Rightarrow> string \<Rightarrow> string \<Rightarrow> string list \<Rightarrow> exn + string \<times> (string \<times> string) list" where
  "location_storages payload storage0 node nodes =
     (let sbn = default_storages storage0 nodes (given_storages (dget payload ''storage_by_node''));
          missing = filter (\<lambda>n. map_of sbn n = None) nodes;
          storage = or_default (case map_of sbn node of None \<Rightarrow> [] | Some st \<Rightarrow> st) storage0
      in if missing \<noteq> [] then
           Inl (ValueError (''storage required for node(s): '' @ join_on '', '' missing))
         else if storage = [] then Inl (ValueError ''storage is required'')
         else Inr (storage, sbn))"

definition location_network :: "dict \<Rightarrow> exn + string \<times> string" where
  "location_network payload =
     (let net = normalize_network_mode (dget payload ''network_mode'');
          bridge = str_field payload ''lab_bridge''
      in if net = ''remap'' \<and> bridge = [] then
           Inl (ValueError ''lab_bridge is required when network_mode=remap'')
         else Inr (net, bridge))"

definition location_mode :: "dict \<Rightarrow> exn + string" where
  "location_mode payload =
     (let mode = lower (strip (py_str (py_or (dget payload ''restore_mode'') (PStr ''normal''))))
      in if mode \<in> {''normal'', ''dr''} then Inr mode
         else Inl (ValueError (''restore_mode must be '' @ repr_str ''normal'' @ '' or '' @ repr_str ''dr'')))"

definition normalize_location :: "dict \<Rightarrow> string \<Rightarrow> exn + dict" where
  "normalize_location payload location_id =
     res_bind (strip_field payload ''name'') (\<lambda>name.
     res_bind (strip_field payload ''node'') (\<lambda>node0.
     res_bind (strip_field payload ''storage'') (\<lambda>storage0.
     if name = [] then Inl (ValueError ''name is required'') else
     res_bind (location_nodes node0 (dget payload ''nodes'')) (\<lambda>(node, nodes).
     res_bind (int_field (dget_or payload ''vmid_start'' (PInt 100)) 100
        ''vmid_start must be an integer >= 100'' ''vmid_start must be >= 100'') (\<lambda>vmid_start.
     res_bind (int_field (py_or (dget_or payload ''bwlimit'' (PInt 0)) (PInt 0)) 0
        ''bwlimit must be an integer >= 0'' ''bwlimit must be >= 0'') (\<lambda>bwlimit.
     res_bind (location_mode payload) (\<lambda>mode.
     res_bind (location_storages payload storage0 node nodes) (\<lambda>(storage, sbn).
     res_bind (location_network payload) (\<lambda>(net, bridge).
     Inr
       [(''id'', PStr location_id), (''name'', PStr name), (''node'', PStr node),
        (''nodes'', str_vals nodes), (''storage'', PStr storage), (''storage_by_node'', str_dict sbn),
        (''vmid_start'', PInt vmid_start), (''bwlimit'', PInt bwlimit),
        (''live_restore'', bool_field payload ''live_restore'' False), (''restore_mode'', PStr mode),
        (''power_on'', bool_field payload ''power_on'' False),
        (''qga_wait_sec'', PInt (safe_qga_sec (dget payload ''qga_wait_sec''))),
        (''network_mode'', PStr net), (''lab_bridge'', PStr bridge),
        (''isolated'', PBool (truthy (dget payload ''isolated'') \<or> net \<in> {''unlink'', ''remap''})),
        (''http_check_url'', PStr (str_field payload ''http_check_url'')),
        (''created_at'', or_empty payload ''created_at''),
        (''updated_at'', or_empty payload ''updated_at'')])))))))))"

definition get_location :: "cfg \<Rightarrow> string \<Rightarrow> world \<Rightarrow> dict option" where
  "get_location C i = get_doc (location_key C i)"

definition list_locations :: "cfg \<Rightarrow> world \<Rightarrow> dict list" where
  "list_locations C = list_entities (locations_index C) (location_key C)"

definition delete_location :: "cfg \<Rightarrow> string \<Rightarrow> world \<Rightarrow> bool \<times> world" where
  "delete_location C i = delete_entity (location_key C i) (locations_index C) i"

definition create_location :: "env \<Rightarrow> cfg \<Rightarrow> dict \<Rightarrow> (world, dict) act" where
  "create_location E C payload =
     create_entity E (normalize_location payload) (location_key C) (locations_index C)"

definition update_location :: "env \<Rightarrow> cfg \<Rightarrow> string \<Rightarrow> dict \<Rightarrow> (world, dict) act" where
  "update_location E C location_id payload =
     bind_act (\<lambda>w. (existing_doc (location_key C location_id) location_id w, w)) (\<lambda>existing.
     bind_act (res_act (normalize_location
        (dput (dmerge existing payload) ''id'' (PStr location_id)) location_id)) (\<lambda>data.
     save_act E (location_key C location_id) (locations_index C) location_id
       (dput data ''created_at'' (or_empty existing ''created_at''))))"

subsection \<open>Recovery plans\<close>

definition last_rto_field :: "pyval \<Rightarrow> pyval" where
  "last_rto_field v =
     (if none_or_empty v then PNone else (case py_int v of Inr n \<Rightarrow> PInt n | Inl e \<Rightarrow> PNone))"

definition plan_check_field :: "dict \<Rightarrow> pyval" where
  "plan_check_field d = (case dget d ''last_check'' of PDict c \<Rightarrow> PDict c | _ \<Rightarrow> PDict [])"

definition plan_verifications :: "string list" where
  "plan_verifications = map verification_value [NOT_VERIFIED, NEEDS_VERIFIED, VERIFIED]"

definition plan_assurances :: "string list" where
  "plan_assurances = map assurance_value [A_UNKNOWN, A_IN_PROGRESS, A_ASSURED, A_FAILED]"

definition normalize_plan :: "dict \<Rightarrow> string \<Rightarrow> exn + dict" where
  "normalize_plan payload plan_id =
     res_bind (strip_field payload ''name'') (\<lambda>name.
     if name = [] then Inl (ValueError ''name is required'') else
     res_bind (iter_or_empty (dget payload ''group_ids'')) (\<lambda>gids.
     if clean_strs gids = [] then Inl (ValueError ''plan needs at least one group_id'') else
     res_bind (strip_field payload ''location_id'') (\<lambda>location_id.
     if location_id = [] then Inl (ValueError ''location_id is required'') else
     res_bind (py_strip (py_or (dget payload ''verification'') (PStr (verification_value NOT_VERIFIED)))) (\<lambda>verification.
     if verification \<notin> set plan_verifications then
       Inl (ValueError (''invalid verification: '' @ verification)) else
     res_bind (py_strip (py_or (dget payload ''assurance_status'') (PStr (assurance_value A_UNKNOWN)))) (\<lambda>assurance.
     res_bind (py_int (py_or (dget payload ''schedule_interval_hours'') (PInt 0))) (\<lambda>hours.
     Inr
       [(''id'', PStr plan_id), (''name'', PStr name), (''group_ids'', str_vals (clean_strs gids)),
        (''location_id'', PStr location_id), (''halt_on_error'', bool_field payload ''halt_on_error'' True),
        (''enabled'', bool_field payload ''enabled'' True), (''verification'', PStr verification),
        (''schedule_enabled'', bool_field payload ''schedule_enabled'' False),
        (''schedule_interval_hours'', PInt (max 0 hours)),
        (''schedule_drill'', bool_field payload ''schedule_drill'' True),
        (''last_scheduled_run_at'', or_empty payload ''last_scheduled_run_at''),
        (''assurance_enabled'', bool_field payload ''assurance_enabled'' False),
        (''assurance_require_qga'', bool_field payload ''assurance_require_qga'' False),
        (''assurance_require_http'', bool_field payload ''assurance_require_http'' False),
        (''assurance_max_rto_sec'', PInt (max 0 (py_int_or (py_or (dget payload ''assurance_max_rto_sec'') (PInt 0)) 0))),
        (''assurance_status'', PStr (if assurance \<in> set plan_assurances then assurance
                                    else assurance_value A_UNKNOWN)),
        (''assurance_updated_at'', or_empty payload ''assurance_updated_at''),
        (''assurance_last_run_id'', or_empty payload ''assurance_last_run_id''),
        (''assurance_last_rto_sec'', last_rto_field (dget payload ''assurance_last_rto_sec'')),
        (''assurance_detail'', PStr (py_str (or_empty payload ''assurance_detail''))),
        (''last_check_at'', or_empty payload ''last_check_at''),
        (''last_run_at'', or_empty payload ''last_run_at''), (''last_check'', plan_check_field payload),
        (''last_run_report_id'', or_empty payload ''last_run_report_id''),
        (''last_check_report_id'', or_empty payload ''last_check_report_id''),
        (''created_at'', or_empty payload ''created_at''), (''updated_at'', or_empty payload ''updated_at'')]))))))"

definition get_plan :: "cfg \<Rightarrow> string \<Rightarrow> world \<Rightarrow> dict option" where
  "get_plan C i = get_doc (plan_key C i)"

definition list_plans :: "cfg \<Rightarrow> world \<Rightarrow> dict list" where
  "list_plans C = list_entities (plans_index C) (plan_key C)"

definition delete_plan :: "cfg \<Rightarrow> string \<Rightarrow> world \<Rightarrow> bool \<times> world" where
  "delete_plan C i = delete_entity (plan_key C i) (plans_index C) i"

definition create_plan :: "env \<Rightarrow> cfg \<Rightarrow> dict \<Rightarrow> (world, dict) act" where
  "create_plan E C payload = create_entity E (normalize_plan payload) (plan_key C) (plans_index C)"

text \<open>Changing the membership of a plan invalidates its verification.\<close>

definition membership_changed :: "dict \<Rightarrow> dict \<Rightarrow> exn + bool" where
  "membership_changed existing payload =
     res_bind (if has_key payload ''group_ids'' \<and> dget payload ''group_ids'' \<noteq> PNone then
                 res_bind (py_iter (dget payload ''group_ids'')) (\<lambda>ids.
                   Inr (str_vals (clean_strs ids) \<noteq> dget existing ''group_ids''))
               else Inr False) (\<lambda>groups.
     res_bind (if has_key payload ''location_id'' then
                 res_bind (strip_field payload ''location_id'') (\<lambda>l. Inr (PStr l \<noteq> dget existing ''location_id''))
               else Inr False) (\<lambda>location.
     Inr (groups \<or> location)))"

definition kept_run_fields :: "string list" where
  "kept_run_fields = [''last_check_at'', ''last_run_at'', ''last_scheduled_run_at'',
     ''last_run_report_id'', ''last_check_report_id'']"

definition kept_assurance_fields :: "string list" where
  "kept_assurance_fields = [''assurance_status'', ''assurance_updated_at'', ''assurance_last_run_id'',
     ''assurance_last_rto_sec'', ''assurance_detail'']"

text \<open>The fields that an update puts back after the normalisation\<close>

definition preserve_plan_fields :: "dict \<Rightarrow> dict \<Rightarrow> dict \<Rightarrow> dict \<Rightarrow> dict" where
  "preserve_plan_fields existing payload merged data =
     (let d0 = dput data ''created_at'' (or_empty existing ''created_at'');
          d1 = fold (\<lambda>k d. dput d k (py_or (py_or (dget merged k) (dget existing k)) (PStr []))) kept_run_fields d0;
          d2 = fold (\<lambda>k d. if \<not> has_key payload k \<and> \<not> none_or_empty (dget existing k)
                           then dput d k (dget existing k) else d) kept_assurance_fields d1
      in if is_dict (dget merged ''last_check'') then dput d2 ''last_check'' (dget merged ''last_check'')
         else if is_dict (dget existing ''last_check'') then dput d2 ''last_check'' (dget existing ''last_check'')
         else d2)"

definition update_plan :: "env \<Rightarrow> cfg \<Rightarrow> string \<Rightarrow> dict \<Rightarrow> (world, dict) act" where
  "update_plan E C plan_id payload =
     bind_act (\<lambda>w. (existing_doc (plan_key C plan_id) plan_id w, w)) (\<lambda>existing.
     bind_act (res_act (membership_changed existing payload)) (\<lambda>changed.
     let m0 = dput (dmerge existing payload) ''id'' (PStr plan_id);
         merged = (if changed \<and> \<not> has_key payload ''verification''
                   then dput m0 ''verification'' (PStr (verification_value NEEDS_VERIFIED)) else m0)
     in bind_act (res_act (normalize_plan merged plan_id)) (\<lambda>data.
        save_act E (plan_key C plan_id) (plans_index C) plan_id
          (preserve_plan_fields existing payload merged data))))"

subsection \<open>Lemmas: normal forms\<close>

lemma dget_Cons [simp]: "dget ((k, v) # d) k' = (if k' = k then v else dget d k')"
  by (simp add: dget_def dget_or_def)

lemma dget_or_Cons [simp]: "dget_or ((k, v) # d) k' x = (if k' = k then v else dget_or d k' x)"
  by (simp add: dget_or_def)

lemma or_empty_idem [simp]: "py_or (or_empty d k) (PStr []) = or_empty d k"
  by (simp add: or_empty_def py_or_def)

lemma iter_str_vals [simp]: "iter_or_empty (str_vals ts) = Inr (map PStr ts)"
  by (simp add: str_vals_def)

lemma map_res_const: "\<forall>x \<in> set xs. f x = Inr (g x) \<Longrightarrow> map_res f xs = Inr (map g xs)"
  by (induction xs) simp_all

lemma parse_int_list_vals [simp]: "parse_int_list (int_vals ns) l = Inr ns"
proof -
  have "map_res (\<lambda>v. case py_int v of Inr n \<Rightarrow> Inr n
          | Inl e \<Rightarrow> Inl (ValueError (''invalid '' @ l @ '': '' @ repr_val v))) (map PInt ns) = Inr ns"
    by (induction ns) simp_all
  then show ?thesis by (simp add: parse_int_list_def int_vals_def)
qed

lemma range_of_item_val:
  "range_of_item item = Inr (Some r) \<Longrightarrow> range_of_item (range_val r) = Inr (Some r)"
proof -
  assume "range_of_item item = Inr (Some r)"
  then obtain ends where "(case ends of None \<Rightarrow> Inr None | Some (a, b) \<Rightarrow>
           let lo = min a b; hi = max a b in
           if lo < 0 \<or> hi < 0 then
             Inl (ValueError (''vmid range must be non-negative: '' @ str_of_int lo @ ''-'' @ str_of_int hi))
           else Inr (Some (lo, hi))) = Inr (Some r)"
    by (auto simp: range_of_item_def)
  then obtain a b where "r = (min a b, max a b)" "0 \<le> min a b"
    by (cases ends) (auto simp: Let_def split: if_split_asm)
  moreover from this have "0 \<le> a" "0 \<le> b" by simp_all
  ultimately show ?thesis by (simp add: range_of_item_def range_ends_def range_val_def Let_def min_def max_def)
qed

lemma normalize_ranges_vals:
  assumes "normalize_vmid_ranges raw = Inr rs"
  shows "normalize_vmid_ranges (PList (map range_val rs)) = Inr rs"
proof -
  from assms obtain items opts where m: "map_res range_of_item items = Inr opts" "rs = List.map_filter id opts"
    by (auto simp: normalize_vmid_ranges_def)
  have "\<forall>r \<in> set rs. range_of_item (range_val r) = Inr (Some r)"
  proof
    fix r assume "r \<in> set rs"
    then have "Some r \<in> set opts" by (auto simp: m(2) List.map_filter_def)
    then obtain item where "range_of_item item = Inr (Some r)" using map_res_range [OF m(1)] by blast
    then show "range_of_item (range_val r) = Inr (Some r)" by (rule range_of_item_val)
  qed
  then have "map_res range_of_item (map range_val rs) = Inr (map Some rs)"
    by (induction rs) simp_all
  moreover have "List.map_filter id (map Some rs) = rs" by (induction rs) (simp_all add: List.map_filter_def)
  ultimately show ?thesis by (simp add: normalize_vmid_ranges_def)
qed

lemma normalize_patterns_vals:
  assumes "normalize_name_patterns rx raw = Inr ps"
  shows "normalize_name_patterns rx (str_vals ps) = Inr ps"
proof -
  let ?f = "\<lambda>p. if is_regex p then
                      (case rx (drop 3 p) of
                         None \<Rightarrow> Inr p
                       | Some m \<Rightarrow> Inl (ValueError (''invalid name pattern regex: '' @ repr_str p @
                                     '' ('' @ m @ '')'')))
                    else Inr p"
  from assms obtain items where m: "map_res ?f (clean_strs items) = Inr ps"
    by (auto simp: normalize_name_patterns_def)
  have keep: "y = x" if "?f x = Inr y" for x y using that by (auto split: if_splits option.splits)
  have "ps = clean_strs items"
    using m keep unfolding map_res_Inr_iff list_all2_conv_all_nth by (auto intro: nth_equalityI)
  with m show ?thesis by (simp add: normalize_name_patterns_def)
qed

lemma clean_strs_PStr_self [simp]: "clean_strs (map PStr ts) = [] \<longleftrightarrow> (\<forall>t \<in> set ts. strip t = [])"
  by (auto simp: clean_strs_def filter_empty_conv)

lemma sorted_set_Nil [simp]: "sorted_set ns = [] \<longleftrightarrow> ns = []"
proof -
  have "sorted_set ns = [] \<longleftrightarrow> set (sorted_set ns) = {}" by (simp only: set_empty)
  then show ?thesis by simp
qed

lemma strip_field_PStr: "dget d k = PStr s \<Longrightarrow> s \<noteq> [] \<Longrightarrow> strip_field d k = Inr (strip s)"
  by (simp add: strip_field_def py_or_def)

lemma strip_field_strip: "strip_field d k = Inr s \<Longrightarrow> strip s = s"
  by (auto simp: strip_field_def elim!: py_strip.elims)

subsection \<open>Lemmas: locations\<close>

lemma add_new_distinct: "distinct ns \<Longrightarrow> distinct (fold add_new xs ns)"
  by (induction xs arbitrary: ns) (auto simp: add_new_def)

lemma add_new_set: "set (fold add_new xs ns) = set xs \<union> set ns"
  by (induction xs arbitrary: ns) (auto simp: add_new_def)

lemma location_nodes_ok:
  assumes "location_nodes node0 raw = Inr (node, ns)" "strip node0 = node0"
  shows "ns \<noteq> [] \<and> node = hd ns \<and> distinct ns \<and> (\<forall>n \<in> set ns. n \<noteq> [] \<and> strip n = n)"
proof -
  define ms where "ms = (case raw of PList xs \<Rightarrow> fold add_new (clean_strs xs) [] | _ \<Rightarrow> [])"
  have loc: "location_nodes node0 raw = (if ms \<noteq> [] then
      (if node0 \<noteq> [] then Inr (node0, node0 # filter (\<lambda>n. n \<noteq> node0) ms) else Inr (hd ms, ms))
      else if node0 \<noteq> [] then Inr (node0, [node0]) else Inl (ValueError ''node (or nodes) is required''))"
    by (simp add: location_nodes_def ms_def Let_def)
  have ns: "distinct ms" "\<forall>n \<in> set ms. n \<noteq> [] \<and> strip n = n"
    using clean_strs_mem by (auto split: pyval.splits simp: ms_def add_new_distinct add_new_set)
  consider "ms \<noteq> []" "node0 \<noteq> []" | "ms \<noteq> []" "node0 = []" | "ms = []" by blast
  then show ?thesis
  proof cases
    case 1
    with assms(1) have "node = node0" "ns = node0 # filter (\<lambda>n. n \<noteq> node0) ms"
      unfolding loc by auto
    with ns 1 assms(2) show ?thesis by auto
  next
    case 2
    with assms(1) have "node = hd ms" "ns = ms" unfolding loc by auto
    with ns 2 show ?thesis by simp
  next
    case 3
    with assms(1) have "node = node0" "ns = [node0]" "node0 \<noteq> []"
      unfolding loc by (auto split: if_splits)
    with assms(2) show ?thesis by simp
  qed
qed

definition no_empty_vals :: "(string \<times> string) list \<Rightarrow> bool" where
  "no_empty_vals m \<longleftrightarrow> (\<forall>n st. map_of m n = Some st \<longrightarrow> st \<noteq> [])"

lemma no_empty_update: "no_empty_vals m \<Longrightarrow> v \<noteq> [] \<Longrightarrow> no_empty_vals (AList.update k v m)"
  by (simp add: no_empty_vals_def update_conv')

lemma no_empty_Nil: "no_empty_vals []"
  by (simp add: no_empty_vals_def)

lemma given_storages_ok: "no_empty_vals (given_storages raw)"
proof -
  have "no_empty_vals (fold (\<lambda>(k, v) m. if strip k \<noteq> [] \<and> strip (py_str v) \<noteq> []
            then AList.update (strip k) (strip (py_str v)) m else m) d [])" for d :: dict
    by (rule fold_invariant [where Q = "\<lambda>_. True" and P = no_empty_vals])
      (simp_all add: no_empty_update no_empty_Nil split: prod.split)
  then show ?thesis by (simp add: given_storages_def no_empty_Nil split: pyval.split)
qed

lemma default_storages_ok: "no_empty_vals m \<Longrightarrow> no_empty_vals (default_storages storage ns m)"
  unfolding default_storages_def
  by (rule fold_invariant [where Q = "\<lambda>_. True" and P = no_empty_vals]) (simp_all add: no_empty_update)

text \<open>A stored location: what the run of a plan relies on\<close>

definition location_wf :: "dict \<Rightarrow> bool" where
  "location_wf d \<longleftrightarrow>
     (\<exists>nodes sbn storage start bw net bridge.
        dget d ''nodes'' = str_vals nodes \<and> nodes \<noteq> [] \<and> distinct nodes \<and>
        dget d ''node'' = PStr (hd nodes) \<and>
        dget d ''storage_by_node'' = str_dict sbn \<and>
        (\<forall>n \<in> set nodes. n \<noteq> [] \<and> (\<exists>st. map_of sbn n = Some st \<and> st \<noteq> [])) \<and>
        dget d ''storage'' = PStr storage \<and> map_of sbn (hd nodes) = Some storage \<and>
        dget d ''vmid_start'' = PInt start \<and> 100 \<le> start \<and> dget d ''bwlimit'' = PInt bw \<and> 0 \<le> bw \<and>
        dget d ''restore_mode'' \<in> {PStr ''normal'', PStr ''dr''} \<and>
        dget d ''network_mode'' = PStr net \<and> net \<in> {''none'', ''unlink'', ''remap''} \<and>
        dget d ''lab_bridge'' = PStr bridge \<and> (net = ''remap'' \<longrightarrow> bridge \<noteq> []) \<and>
        (net \<noteq> ''none'' \<longrightarrow> dget d ''isolated'' = PBool True))"

lemma int_field_ok: "int_field v l a b = Inr n \<Longrightarrow> l \<le> n"
  by (auto simp: int_field_def split: sum.splits if_splits)

lemma network_mode_ok: "normalize_network_mode v \<in> {''none'', ''unlink'', ''remap''}"
  by (simp add: normalize_network_mode_def Let_def)

lemma location_storages_ok:
  assumes "location_storages payload storage0 (hd nodes) nodes = Inr (storage, sbn)" "nodes \<noteq> []"
  shows "(\<forall>n \<in> set nodes. \<exists>st. map_of sbn n = Some st \<and> st \<noteq> []) \<and> map_of sbn (hd nodes) = Some storage"
proof -
  have sbn: "sbn = default_storages storage0 nodes (given_storages (dget payload ''storage_by_node''))"
    and miss: "filter (\<lambda>n. map_of sbn n = None) nodes = []"
    and st: "storage = or_default (case map_of sbn (hd nodes) of None \<Rightarrow> [] | Some st \<Rightarrow> st) storage0"
    using assms(1) by (auto simp: location_storages_def Let_def split: if_split_asm)
  have ne: "no_empty_vals sbn" unfolding sbn by (intro default_storages_ok given_storages_ok)
  have all: "\<forall>n \<in> set nodes. \<exists>st. map_of sbn n = Some st \<and> st \<noteq> []"
    using miss ne by (auto simp: filter_empty_conv no_empty_vals_def)
  moreover have "hd nodes \<in> set nodes" using assms(2) by simp
  ultimately show ?thesis using st by (auto simp: or_default_def)
qed

lemma location_network_ok:
  "location_network payload = Inr (net, bridge) \<Longrightarrow>
     net \<in> {''none'', ''unlink'', ''remap''} \<and> (net = ''remap'' \<longrightarrow> bridge \<noteq> [])"
  using network_mode_ok [of "dget payload ''network_mode''"]
  by (auto simp: location_network_def Let_def split: if_split_asm)

lemma location_mode_ok: "location_mode payload = Inr m \<Longrightarrow> m \<in> {''normal'', ''dr''}"
  by (auto simp: location_mode_def Let_def split: if_split_asm)

lemma normalize_location_wf:
  assumes "normalize_location payload i = Inr d" shows "location_wf d"
proof -
  from assms obtain name node0 storage0 node nodes start bw mode storage sbn net bridge where
    n0: "strip_field payload ''node'' = Inr node0"
    and ns: "location_nodes node0 (dget payload ''nodes'') = Inr (node, nodes)"
    and start: "int_field (dget_or payload ''vmid_start'' (PInt 100)) 100
        ''vmid_start must be an integer >= 100'' ''vmid_start must be >= 100'' = Inr start"
    and bw: "int_field (py_or (dget_or payload ''bwlimit'' (PInt 0)) (PInt 0)) 0
        ''bwlimit must be an integer >= 0'' ''bwlimit must be >= 0'' = Inr bw"
    and mode: "location_mode payload = Inr mode"
    and st: "location_storages payload storage0 node nodes = Inr (storage, sbn)"
    and net: "location_network payload = Inr (net, bridge)"
    and d: "d = [(''id'', PStr i), (''name'', PStr name), (''node'', PStr node),
        (''nodes'', str_vals nodes), (''storage'', PStr storage), (''storage_by_node'', str_dict sbn),
        (''vmid_start'', PInt start), (''bwlimit'', PInt bw),
        (''live_restore'', bool_field payload ''live_restore'' False), (''restore_mode'', PStr mode),
        (''power_on'', bool_field payload ''power_on'' False),
        (''qga_wait_sec'', PInt (safe_qga_sec (dget payload ''qga_wait_sec''))),
        (''network_mode'', PStr net), (''lab_bridge'', PStr bridge),
        (''isolated'', PBool (truthy (dget payload ''isolated'') \<or> net \<in> {''unlink'', ''remap''})),
        (''http_check_url'', PStr (str_field payload ''http_check_url'')),
        (''created_at'', or_empty payload ''created_at''),
        (''updated_at'', or_empty payload ''updated_at'')]"
    by (auto simp: normalize_location_def split: if_split_asm)
  have nodes: "nodes \<noteq> []" "node = hd nodes" "distinct nodes" "\<forall>n \<in> set nodes. n \<noteq> [] \<and> strip n = n"
    using location_nodes_ok [OF ns strip_field_strip [OF n0]] by auto
  note S = location_storages_ok [OF st [unfolded nodes(2)] nodes(1)]
  have F: "dget d ''nodes'' = str_vals nodes" "dget d ''node'' = PStr (hd nodes)"
    "dget d ''storage_by_node'' = str_dict sbn" "dget d ''storage'' = PStr storage"
    "dget d ''vmid_start'' = PInt start" "dget d ''bwlimit'' = PInt bw"
    "dget d ''restore_mode'' = PStr mode" "dget d ''network_mode'' = PStr net"
    "dget d ''lab_bridge'' = PStr bridge"
    "dget d ''isolated'' = PBool (truthy (dget payload ''isolated'') \<or> net \<in> {''unlink'', ''remap''})"
    unfolding d nodes(2) by simp_all
  show ?thesis
    unfolding location_wf_def F
    using nodes S int_field_ok [OF start] int_field_ok [OF bw] location_network_ok [OF net]
      location_mode_ok [OF mode] by blast
qed

subsection \<open>Lemmas: creating and updating\<close>

lemma set_list_entities:
  "set (list_entities index key_fn w) =
     {d. d \<noteq> [] \<and> (\<exists>i \<in> set (smembers index w). get_doc (key_fn i) w = Some d)}"
proof -
  have mf: "set (List.map_filter f xs) = {b. \<exists>x \<in> set xs. f x = Some b}" for f :: "string \<Rightarrow> dict option" and xs
    by (induction xs) (auto simp: List.map_filter_def)
  have "(case v of None \<Rightarrow> None | Some d \<Rightarrow> if d = [] then None else Some d) = Some b \<longleftrightarrow> v = Some b \<and> b \<noteq> []"
    for v :: "dict option" and b by (cases v) auto
  then show ?thesis by (auto simp: list_entities_def mf)
qed

lemma create_entity_cases:
  assumes "create_entity E norm_fn key_fn index w = (r, w1)"
  obtains (refused) e where "norm_fn (uuid E (uuids w)) = Inl e" "r = Inl e" "w1 = w"
  | (created) data d where "norm_fn (uuid E (uuids w)) = Inr data" "r = Inr d"
      "save_entity E (key_fn (uuid E (uuids w))) index (uuid E (uuids w)) data (w\<lparr>uuids := Suc (uuids w)\<rparr>) = (d, w1)"
  using assms by (auto simp: create_entity_def bind_act_def new_uuid_def split: sum.splits prod.splits)

lemma save_act_Inr:
  "save_act E key index i data w = (r, w1) \<longleftrightarrow> (\<exists>d. r = Inr d \<and> save_entity E key index i data w = (d, w1))"
  by (auto simp: save_act_def split: prod.splits)

lemma get_doc_uuids [simp]: "get_doc k (w\<lparr>uuids := n\<rparr>) = get_doc k w"
  by (simp add: get_doc_def)

lemma save_entity_not_Nil: "save_entity E key index i data w = (d, w1) \<Longrightarrow> d \<noteq> []"
  by (auto simp: save_entity_def Let_def)

lemma dget_fold_dput:
  "dget (fold (\<lambda>k d. if P k then dput d k (f k) else d) ks d) k' = (if k' \<in> set ks \<and> P k' then f k' else dget d k')"
  by (induction ks arbitrary: d) auto

lemmas dget_fold_dput_all = dget_fold_dput [of "\<lambda>k. True", simplified]

lemma dget_preserve:
  "k \<noteq> ''last_check'' \<Longrightarrow> dget (preserve_plan_fields existing payload merged data) k =
     (if k \<in> set kept_assurance_fields \<and> \<not> has_key payload k \<and> \<not> none_or_empty (dget existing k)
      then dget existing k
      else if k \<in> set kept_run_fields then py_or (py_or (dget merged k) (dget existing k)) (PStr [])
      else if k = ''created_at'' then or_empty existing ''created_at'' else dget data k)"
  unfolding preserve_plan_fields_def Let_def
  by (simp only: if_distrib [where f = "\<lambda>d. dget d k"] dget_dput dget_fold_dput dget_fold_dput_all
      if_False if_cancel simp_thms split: if_split)

lemma plan_verification_values: "v \<in> set plan_verifications \<Longrightarrow> v \<noteq> [] \<and> strip v = v"
proof -
  assume "v \<in> set plan_verifications"
  moreover have "strip ''NOT_VERIFIED'' = ''NOT_VERIFIED''" "strip ''NEEDS_VERIFIED'' = ''NEEDS_VERIFIED''"
    "strip ''VERIFIED'' = ''VERIFIED''" by code_simp+
  ultimately show ?thesis by (auto simp: plan_verifications_def)
qed

lemma if_Inl_eq_Inr: "(if b then Inl e else r) = Inr x \<longleftrightarrow> \<not> b \<and> r = Inr x"
  by simp

lemma normalize_plan_verification:
  assumes "normalize_plan m i = Inr d" "dget m ''verification'' = PStr v" "v \<in> set plan_verifications"
  shows "dget d ''verification'' = PStr v"
proof -
  have v: "py_strip (py_or (PStr v) (PStr (verification_value NOT_VERIFIED))) = Inr v"
    using plan_verification_values [OF assms(3)] by (simp add: py_or_def)
  obtain a b where "dget d ''verification'' = PStr a" "py_strip (py_or (PStr v) (PStr (verification_value NOT_VERIFIED))) = Inr a"
    using assms(1)
    unfolding normalize_plan_def assms(2) res_bind_eq_Inr if_Inl_eq_Inr
    by (elim exE conjE) (drule Inr_inject, drule sym [of _ d], simp only: dget_Cons, simp)
  with v show ?thesis by simp
qed

subsection \<open>Properties\<close>

text \<open>Stored groups are in normal form: normalising a group document that the normalisation
  produced returns it unchanged: an update that changes nothing keeps every field.\<close>

lemma group_normal_form:
  assumes "normalize_group rx_error payload i = Inr g"
  shows "normalize_group rx_error g i = Inr g"
proof -
  from assms obtain name tags sids vmids pats rngs exs expats where
    name: "strip_field payload ''name'' = Inr name" "name \<noteq> []"
    and it: "iter_or_empty (dget payload ''tags'') = Inr tags" "iter_or_empty (dget payload ''source_ids'') = Inr sids"
      "parse_int_list (dget payload ''vmids'') ''vmid'' = Inr vmids"
      "parse_int_list (dget payload ''exclude_vmids'') ''exclude_vmid'' = Inr exs"
    and p: "normalize_name_patterns rx_error (dget payload ''name_patterns'') = Inr pats"
      "normalize_vmid_ranges (dget payload ''vmid_ranges'') = Inr rngs"
      "normalize_name_patterns rx_error (dget payload ''exclude_name_patterns'') = Inr expats"
    and ne: "\<not> (clean_strs tags = [] \<and> vmids = [] \<and> pats = [] \<and> rngs = [])"
    and g: "g = [(''id'', PStr i), (''name'', PStr name), (''tags'', str_vals (clean_strs tags)),
        (''source_ids'', str_vals (clean_strs sids)), (''vmids'', int_vals (sorted_set vmids)),
        (''name_patterns'', str_vals pats), (''vmid_ranges'', PList (map range_val rngs)),
        (''exclude_vmids'', int_vals (sorted_set exs)),
        (''exclude_name_patterns'', str_vals expats), (''mode'', PStr ''latest_per_vmid''),
        (''created_at'', or_empty payload ''created_at''), (''updated_at'', or_empty payload ''updated_at'')]"
    unfolding normalize_group_def by (auto split: if_split_asm)
  have n: "strip_field g ''name'' = Inr name"
    using strip_field_PStr [of g "''name''" name] strip_field_strip [OF name(1)] name(2) by (simp add: g)
  have f: "dget g ''tags'' = str_vals (clean_strs tags)" "dget g ''source_ids'' = str_vals (clean_strs sids)"
    "dget g ''vmids'' = int_vals (sorted_set vmids)" "dget g ''name_patterns'' = str_vals pats"
    "dget g ''vmid_ranges'' = PList (map range_val rngs)" "dget g ''exclude_vmids'' = int_vals (sorted_set exs)"
    "dget g ''exclude_name_patterns'' = str_vals expats"
    "or_empty g ''created_at'' = or_empty payload ''created_at''"
    "or_empty g ''updated_at'' = or_empty payload ''updated_at''"
    by (simp_all add: g) (simp_all add: or_empty_def py_or_def)
  have "normalize_group rx_error g i = Inr
      [(''id'', PStr i), (''name'', PStr name), (''tags'', str_vals (clean_strs tags)),
        (''source_ids'', str_vals (clean_strs sids)), (''vmids'', int_vals (sorted_set vmids)),
        (''name_patterns'', str_vals pats), (''vmid_ranges'', PList (map range_val rngs)),
        (''exclude_vmids'', int_vals (sorted_set exs)),
        (''exclude_name_patterns'', str_vals expats), (''mode'', PStr ''latest_per_vmid''),
        (''created_at'', or_empty payload ''created_at''), (''updated_at'', or_empty payload ''updated_at'')]"
    unfolding normalize_group_def n f normalize_patterns_vals [OF p(1)] normalize_ranges_vals [OF p(2)]
      normalize_patterns_vals [OF p(3)] parse_int_list_vals iter_str_vals res_bind_simps clean_strs_idem
      sorted_set_idem sorted_set_Nil
    using name(2) ne by simp
  then show ?thesis by (simp only: g)
qed

text \<open>C39: a stored location can be restored to. A document that \<open>normalize_location\<close> returns has at
  least one node, no node twice, \<open>node\<close> first, a storage for every node, a legal id range,
  bandwidth and mode, and an isolated network mode has what it needs and marks the location
  as isolated.\<close>

theorem location_well_formed:
  assumes "normalize_location payload i = Inr d"
  shows "location_wf d"
  by (rule normalize_location_wf [OF assms])

definition demo_location_payload :: dict where
  "demo_location_payload = [(''name'', PStr ''lab''), (''nodes'', PList [PStr ''n1'', PStr ''n2'', PStr ''n1'']),
     (''storage'', PStr ''zfs''), (''vmid_start'', PInt 500), (''network_mode'', PStr ''remap''),
     (''lab_bridge'', PStr ''vmbr9'')]"

lemma demo_location: "\<exists>d. normalize_location demo_location_payload ''l'' = Inr d"
proof -
  have "(case normalize_location demo_location_payload ''l'' of Inl e \<Rightarrow> False | Inr d \<Rightarrow> True)"
    by code_simp
  then show ?thesis by (simp split: sum.splits)
qed

theorem location_well_formed_witness:
  "\<exists>d. normalize_location demo_location_payload ''l'' = Inr d \<and> location_wf d"
  using demo_location location_well_formed by blast

text \<open>The life of a group: a payload that is refused changes nothing and draws no id. A group
  that is created is found under its id and in the list; deleting it then reports success,
  removes it, and leaves every other group as it was.\<close>

lemma group_lifecycle:
  "case create_group E C rx_error payload w of
     (Inl e, w1) \<Rightarrow> w1 = w
   | (Inr g, w1) \<Rightarrow>
       (let i = uuid E (uuids w); (b, w2) = delete_group C i w1
        in get_group C i w1 = Some g \<and> g \<in> set (list_groups C w1) \<and> b \<and>
           (\<forall>j. get_group C j w2 = (if j = i then None else get_group C j w)))"
proof -
  obtain r w1 where c: "create_group E C rx_error payload w = (r, w1)" by (cases "create_group E C rx_error payload w")
  let ?i = "uuid E (uuids w)"
  from c [unfolded create_group_def] show ?thesis
  proof (cases rule: create_entity_cases)
    case (refused e)
    with c show ?thesis by simp
  next
    case (created data g)
    obtain b w2 where d: "delete_entity (group_key C ?i) (groups_index C) ?i w1 = (b, w2)"
      by (cases "delete_entity (group_key C ?i) (groups_index C) ?i w1")
    have "get_doc (group_key C j) w1 = (if j = ?i then Some g else get_doc (group_key C j) w)" for j
      using group_store.get_save [OF created(3)] by simp
    moreover have "g \<in> set (list_groups C w1)"
      using group_store.get_save [OF created(3), of ?i] group_store.ids_save [OF created(3)]
        save_entity_not_Nil [OF created(3)]
      by (auto simp: list_groups_def set_list_entities)
    ultimately show ?thesis
      using c created(2) d group_store.get_del [OF d] group_store.del_found [OF d]
      by (simp add: get_group_def delete_group_def)
  qed
qed

text \<open>The new groups or the new location of a plan, as an update names them, differ from the stored ones\<close>

definition groups_differ :: "dict \<Rightarrow> dict \<Rightarrow> bool" where
  "groups_differ old payload \<longleftrightarrow> has_key payload ''group_ids'' \<and> dget payload ''group_ids'' \<noteq> PNone \<and>
     (case py_iter (dget payload ''group_ids'') of
        Inl e \<Rightarrow> False | Inr ids \<Rightarrow> dget old ''group_ids'' \<noteq> str_vals (clean_strs ids))"

definition location_differs :: "dict \<Rightarrow> dict \<Rightarrow> bool" where
  "location_differs old payload \<longleftrightarrow> has_key payload ''location_id'' \<and>
     (case strip_field payload ''location_id'' of Inl e \<Rightarrow> False | Inr l \<Rightarrow> dget old ''location_id'' \<noteq> PStr l)"

lemma membership_changed_iff:
  assumes "membership_changed old payload = Inr changed"
  shows "changed \<longleftrightarrow> groups_differ old payload \<or> location_differs old payload"
  using assms
  by (auto simp: membership_changed_def groups_differ_def location_differs_def split: if_splits sum.splits)

text \<open>C36: changing what a plan restores invalidates its verification, and nothing else does. An
  update that does not set the verification itself makes it \<open>NEEDS_VERIFIED\<close> when it names
  groups that, stripped and without blanks, are not the stored list, or a location that, stripped, is not the stored one; otherwise it
  keeps the verification. It keeps the assurance outcomes it does not set, and the plan that it
  answers is the one that is stored.\<close>

theorem update_plan_verification:
  assumes "update_plan E C i payload w = (Inr p, w1)"
    and "existing_doc (plan_key C i) i w = Inr old"
    and "\<not> has_key payload ''verification''" "dget old ''verification'' = PStr v" "v \<in> set plan_verifications"
  shows "dget p ''verification'' =
      PStr (if groups_differ old payload \<or> location_differs old payload
            then verification_value NEEDS_VERIFIED else v) \<and>
    (\<forall>k \<in> set kept_assurance_fields. \<not> has_key payload k \<and> \<not> none_or_empty (dget old k) \<longrightarrow>
       dget p k = dget old k) \<and>
    get_plan C i w1 = Some p"
proof -
  obtain changed where ch: "membership_changed old payload = Inr changed"
    using assms(1,2) by (auto simp: update_plan_def bind_act_Inr_iff res_act_def)
  note [simp] = membership_changed_iff [OF ch, symmetric]
  let ?m0 = "dput (dmerge old payload) ''id'' (PStr i)"
  let ?merged = "if changed \<and> \<not> has_key payload ''verification''
                   then dput ?m0 ''verification'' (PStr (verification_value NEEDS_VERIFIED)) else ?m0"
  from assms(1,2) ch obtain data where n: "normalize_plan ?merged i = Inr data"
    and sv: "save_entity E (plan_key C i) (plans_index C) i (preserve_plan_fields old payload ?merged data) w = (p, w1)"
    by (auto simp: update_plan_def bind_act_Inr_iff res_act_def save_act_Inr Let_def)
  let ?v = "if changed then verification_value NEEDS_VERIFIED else v"
  have "dget ?merged ''verification'' = PStr ?v"
    using assms(3,4) by (simp add: dget_dmerge)
  moreover have "?v \<in> set plan_verifications" using assms(5) by (simp add: plan_verifications_def)
  ultimately have "dget data ''verification'' = PStr ?v" by (rule normalize_plan_verification [OF n])
  moreover have "p = stamp_entity i (utc_now_iso E w) (preserve_plan_fields old payload ?merged data)"
    using sv by (simp add: save_entity_def Let_def)
  moreover have "get_plan C i w1 = Some p"
    using plan_store.get_save [OF sv, of i] by (simp add: get_plan_def)
  ultimately show ?thesis
    by (auto simp: dget_preserve kept_run_fields_def kept_assurance_fields_def)
qed

definition demo_plan :: dict where
  "demo_plan = [(''id'', PStr ''p''), (''name'', PStr ''dr''), (''group_ids'', PList [PStr ''g'']),
     (''location_id'', PStr ''l''), (''verification'', PStr ''VERIFIED''),
     (''assurance_status'', PStr ''ASSURED'')]"

definition demo_plan_world :: world where
  "demo_plan_world = set_doc ''restore:plan:p'' demo_plan empty_world"

lemma demo_plan_facts:
  "existing_doc (plan_key demo_cfg ''p'') ''p'' demo_plan_world = Inr demo_plan"
  "membership_changed demo_plan [(''group_ids'', PList [PStr ''g'', PStr ''h''])] = Inr True"
  by code_simp+

lemma demo_plan_update:
  "\<exists>p w1. update_plan demo_env demo_cfg ''p'' [(''group_ids'', PList [PStr ''g'', PStr ''h''])] demo_plan_world = (Inr p, w1)"
proof -
  have "(case normalize_plan (dput (dput (dmerge demo_plan [(''group_ids'', PList [PStr ''g'', PStr ''h''])]) ''id'' (PStr ''p''))
      ''verification'' (PStr (verification_value NEEDS_VERIFIED))) ''p'' of Inl e \<Rightarrow> False | Inr d \<Rightarrow> True)"
    by code_simp
  then obtain d where "normalize_plan (dput (dput (dmerge demo_plan [(''group_ids'', PList [PStr ''g'', PStr ''h''])]) ''id'' (PStr ''p''))
      ''verification'' (PStr (verification_value NEEDS_VERIFIED))) ''p'' = Inr d" by (auto split: sum.splits)
  then show ?thesis
    by (simp add: update_plan_def bind_act_def demo_plan_facts res_act_def save_act_def has_key_def
        split: prod.split)
qed

theorem update_plan_verification_witness:
  "\<exists>p w1. update_plan demo_env demo_cfg ''p'' [(''group_ids'', PList [PStr ''g'', PStr ''h''])] demo_plan_world = (Inr p, w1) \<and>
     dget p ''verification'' = PStr ''NEEDS_VERIFIED'' \<and> dget p ''assurance_status'' = PStr ''ASSURED''"
proof -
  obtain p w1 where u: "update_plan demo_env demo_cfg ''p'' [(''group_ids'', PList [PStr ''g'', PStr ''h''])] demo_plan_world = (Inr p, w1)"
    using demo_plan_update by blast
  have "dget demo_plan ''verification'' = PStr ''VERIFIED''" "dget demo_plan ''assurance_status'' = PStr ''ASSURED''"
    by (simp_all add: demo_plan_def)
  moreover have "groups_differ demo_plan [(''group_ids'', PList [PStr ''g'', PStr ''h''])]" by code_simp
  ultimately show ?thesis
    using update_plan_verification [OF u demo_plan_facts(1), of "''VERIFIED''"] u
    by (auto simp: has_key_def plan_verifications_def kept_assurance_fields_def none_or_empty_def)
qed

end
