(* ===== verification/Members.thy ===== *)
theory Members
  imports Entities PyTime
begin

text \<open>
  Which backups a group restores: shell patterns on guest names, ranges and tags, the latest
  backup per guest up to a cutoff (\<open>resolve_group_rows\<close>), the cache of guest tags, and the
  grouping of the inventory by guest (\<open>backup_inventory.py\<close>). The search of a user's regular
  expression is a parameter \<open>rx_search\<close> that takes the pattern and the text and is \<open>None\<close> where \<open>re\<close> raises
  an error. \<open>casefold\<close> is \<open>lower\<close> on ASCII.
\<close>

subsection \<open>Shell patterns\<close>

text \<open>
  \<open>fnmatch.fnmatchcase\<close>: \<open>*\<close>, \<open>?\<close>, \<open>[...]\<close> and \<open>[!...]\<close>; a bracket that is not closed is a
  literal one. A class is a list of ranges, a single character being a range of its own.
\<close>

datatype gtok = GStar | GAny | GLit char | GClass bool "(char \<times> char) list"

fun class_ranges :: "string \<Rightarrow> (char \<times> char) list" where
  "class_ranges [] = []"
| "class_ranges (a # CHR ''-'' # b # r) = (a, b) # class_ranges r"
| "class_ranges (a # r) = (a, a) # class_ranges r"

definition class_token :: "string \<Rightarrow> gtok" where
  "class_token body =
     (case body of
        c # r \<Rightarrow> if c = CHR ''!'' then GClass True (class_ranges r) else GClass False (class_ranges body)
      | [] \<Rightarrow> GClass False [])"

text \<open>
  The end of a class that opens before \<open>s\<close>: a \<open>!\<close> and then a \<open>]\<close> at the start belong to the
  class. The result is the body and what follows the closing bracket.
\<close>

definition class_split :: "string \<Rightarrow> (string \<times> string) option" where
  "class_split s =
     (let p1 = (if startswith ''!'' s then 1 else 0);
          p2 = (if startswith '']'' (drop p1 s) then p1 + 1 else p1);
          body = takeWhile (\<lambda>c. c \<noteq> CHR '']'') (drop p2 s);
          rest = dropWhile (\<lambda>c. c \<noteq> CHR '']'') (drop p2 s)
      in if rest = [] then None else Some (take p2 s @ body, tl rest))"

lemma class_split_shorter: "class_split s = Some (b, r) \<Longrightarrow> length r < length s"
proof -
  assume a: "class_split s = Some (b, r)"
  obtain p where "dropWhile (\<lambda>c. c \<noteq> CHR '']'') (drop p s) \<noteq> []"
    "r = tl (dropWhile (\<lambda>c. c \<noteq> CHR '']'') (drop p s))"
    using a unfolding class_split_def Let_def by (metis option.distinct(1) option.inject prod.inject)
  moreover have "length (dropWhile (\<lambda>c. c \<noteq> CHR '']'') (drop p s)) \<le> length s"
    by (metis diff_le_self dual_order.trans length_dropWhile_le length_drop)
  ultimately show ?thesis by (cases "dropWhile (\<lambda>c. c \<noteq> CHR '']'') (drop p s)") auto
qed

function glob_tokens :: "string \<Rightarrow> gtok list" where
  "glob_tokens [] = []"
| "glob_tokens (c # s) =
     (if c = CHR ''*'' then GStar # glob_tokens s
      else if c = CHR ''?'' then GAny # glob_tokens s
      else if c = CHR ''['' then
        (case class_split s of
           None \<Rightarrow> GLit c # glob_tokens s
         | Some (body, r) \<Rightarrow> class_token body # glob_tokens r)
      else GLit c # glob_tokens s)"
  by pat_completeness auto

termination
  by (relation "measure length") (auto dest: class_split_shorter)

definition in_class :: "bool \<Rightarrow> (char \<times> char) list \<Rightarrow> char \<Rightarrow> bool" where
  "in_class neg rs c \<longleftrightarrow> (if neg then \<not> (\<exists>(a, b) \<in> set rs. a \<le> c \<and> c \<le> b)
                        else (\<exists>(a, b) \<in> set rs. a \<le> c \<and> c \<le> b))"

fun glob_match :: "gtok list \<Rightarrow> string \<Rightarrow> bool" where
  "glob_match [] s \<longleftrightarrow> s = []"
| "glob_match (GStar # ts) s \<longleftrightarrow> glob_match ts s \<or> (case s of [] \<Rightarrow> False | c # r \<Rightarrow> glob_match (GStar # ts) r)"
| "glob_match (GAny # ts) s \<longleftrightarrow> (case s of [] \<Rightarrow> False | c # r \<Rightarrow> glob_match ts r)"
| "glob_match (GLit a # ts) s \<longleftrightarrow> (case s of [] \<Rightarrow> False | c # r \<Rightarrow> c = a \<and> glob_match ts r)"
| "glob_match (GClass neg rs # ts) s \<longleftrightarrow> (case s of [] \<Rightarrow> False | c # r \<Rightarrow> in_class neg rs c \<and> glob_match ts r)"

definition fnmatchcase :: "string \<Rightarrow> string \<Rightarrow> bool" where
  "fnmatchcase name pat \<longleftrightarrow> glob_match (glob_tokens pat) name"

definition guest_name_matches :: "(string \<Rightarrow> string \<Rightarrow> bool option) \<Rightarrow> string \<Rightarrow> string list \<Rightarrow> bool" where
  "guest_name_matches rx_search name patterns \<longleftrightarrow>
     (\<exists>p0 \<in> set patterns. let p = strip p0 in p \<noteq> [] \<and>
        (if is_regex p then rx_search (drop 3 p) name = Some True
         else fnmatchcase (lower name) (lower p)))"

definition vmid_in_ranges :: "int \<Rightarrow> (int \<times> int) list \<Rightarrow> bool" where
  "vmid_in_ranges vmid ranges \<longleftrightarrow> (\<exists>(a, b) \<in> set ranges. a \<le> vmid \<and> vmid \<le> b)"

subsection \<open>The latest backup per guest\<close>

text \<open>Comparing time stamps; only strings are compared.\<close>

fun str_le :: "pyval \<Rightarrow> string \<Rightarrow> exn + bool" where
  "str_le (PStr a) b = Inr (a \<le> b)"
| "str_le v b = Inl (TypeError ''<= not supported between these operands'')"

fun str_gt :: "pyval \<Rightarrow> pyval \<Rightarrow> exn + bool" where
  "str_gt (PStr a) (PStr b) = Inr (b < a)"
| "str_gt v u = Inl (TypeError ''> not supported between these operands'')"

definition before_cutoff :: "string \<Rightarrow> dict list \<Rightarrow> exn + dict list" where
  "before_cutoff cutoff rows =
     res_bind (map_res (\<lambda>row. res_bind (str_le (dget_or row ''timestamp'' (PStr [])) cutoff) (\<lambda>b. Inr (b, row))) rows)
       (\<lambda>brs. Inr (map snd (filter fst brs)))"

definition row_newer :: "dict \<Rightarrow> dict \<Rightarrow> exn + bool" where
  "row_newer row current =
     res_bind (need_key row ''timestamp'') (\<lambda>a.
     res_bind (need_key current ''timestamp'') (\<lambda>b. str_gt a b))"

definition row_vmid_of :: "dict \<Rightarrow> exn + int" where
  "row_vmid_of row = res_bind (need_key row ''vmid'') py_int"

fun latest_rows :: "(int \<times> dict) list \<Rightarrow> dict list \<Rightarrow> exn + (int \<times> dict) list" where
  "latest_rows best [] = Inr best"
| "latest_rows best (row # rows) =
     res_bind (row_vmid_of row) (\<lambda>v.
     res_bind (case map_of best v of None \<Rightarrow> Inr True | Some current \<Rightarrow> row_newer row current) (\<lambda>newer.
     latest_rows (if newer then AList.update v row best else best) rows))"

subsection \<open>The members of a group\<close>

text \<open>\<open>(row.get("source_id") or row.get("server_id") or "").lower()\<close>; only strings have \<open>lower\<close>.\<close>

fun py_lower :: "pyval \<Rightarrow> exn + string" where
  "py_lower (PStr s) = Inr (lower s)"
| "py_lower v = Inl (AttributeError ''object has no attribute lower'')"

definition from_sources :: "string set \<Rightarrow> dict list \<Rightarrow> exn + dict list" where
  "from_sources wanted rows =
     res_bind (map_res (\<lambda>row.
        res_bind (py_lower (py_or (py_or (dget row ''source_id'') (dget row ''server_id'')) (PStr []))) (\<lambda>a.
          if a \<in> wanted then Inr (True, row)
          else res_bind (py_lower (py_or (dget row ''source_label'') (PStr []))) (\<lambda>b. Inr (b \<in> wanted, row)))) rows)
       (\<lambda>brs. Inr (map snd (filter fst brs)))"

type_synonym tag_map = "(string \<times> string list) list"

definition tags_of_row :: "tag_map \<Rightarrow> dict \<Rightarrow> exn + string list" where
  "tags_of_row tags row =
     res_bind (need_key row ''backup_id'') (\<lambda>b.
       Inr (case b of PStr s \<Rightarrow> (case map_of tags s of None \<Rightarrow> [] | Some ts \<Rightarrow> ts) | _ \<Rightarrow> []))"

definition tagged_vmids :: "tag_map \<Rightarrow> string set \<Rightarrow> (int \<times> dict) list \<Rightarrow> exn + int set" where
  "tagged_vmids tags wanted best =
     (if wanted = {} then Inr {}
      else res_bind (map_res (\<lambda>(v, row). res_bind (tags_of_row tags row) (\<lambda>ts.
             Inr (wanted \<subseteq> lower ` set ts, v))) best)
           (\<lambda>brs. Inr (snd ` set (filter fst brs))))"

definition row_name :: "dict \<Rightarrow> string" where
  "row_name row = py_str (or_empty row ''name'')"

definition group_ints :: "dict \<Rightarrow> string \<Rightarrow> exn + int set" where
  "group_ints g k = res_bind (iter_or_empty (dget g k)) (\<lambda>xs. res_bind (map_res py_int xs) (\<lambda>ns. Inr (set ns)))"

definition group_patterns :: "dict \<Rightarrow> string \<Rightarrow> exn + string list" where
  "group_patterns g k = res_bind (iter_or_empty (dget g k)) (\<lambda>xs. Inr (clean_strs xs))"

text \<open>The lower-cased strings of a stored list: \<open>{t.lower() for t in group.get(k) or []}\<close>\<close>

definition group_lowers :: "dict \<Rightarrow> string \<Rightarrow> exn + string list" where
  "group_lowers g k = res_bind (iter_or_empty (dget g k)) (map_res py_lower)"

definition resolve_group_rows ::
  "(string \<Rightarrow> string \<Rightarrow> bool option) \<Rightarrow> dict \<Rightarrow> dict list \<Rightarrow> string \<Rightarrow> tag_map \<Rightarrow> exn + dict list" where
  "resolve_group_rows rx_search g backups cutoff tags =
     res_bind (group_lowers g ''source_ids'') (\<lambda>sources.
     res_bind (before_cutoff cutoff backups) (\<lambda>candidates0.
     res_bind (if sources = [] then Inr candidates0 else from_sources (set sources) candidates0) (\<lambda>candidates.
     res_bind (latest_rows [] candidates) (\<lambda>best.
     res_bind (group_ints g ''vmids'') (\<lambda>explicit.
     res_bind (group_lowers g ''tags'') (\<lambda>wanted.
     res_bind (group_patterns g ''name_patterns'') (\<lambda>patterns.
     let ranges = (case normalize_vmid_ranges (dget g ''vmid_ranges'') of Inr rs \<Rightarrow> rs | Inl e \<Rightarrow> []);
         by_id = explicit \<inter> fst ` set best;
         by_range = fst ` set (filter (\<lambda>(v, row). vmid_in_ranges v ranges) best);
         by_name = fst ` set (filter (\<lambda>(v, row). guest_name_matches rx_search (row_name row) patterns) best)
     in
     res_bind (tagged_vmids tags {t \<in> set wanted. strip t \<noteq> []} best) (\<lambda>by_tag.
     res_bind (group_ints g ''exclude_vmids'') (\<lambda>excluded.
     res_bind (group_patterns g ''exclude_name_patterns'') (\<lambda>ex_patterns.
     let selected = by_id \<union> by_range \<union> by_name \<union> by_tag;
         kept = fst ` set (filter (\<lambda>(v, row). v \<in> selected \<and> v \<notin> excluded \<and>
                    \<not> guest_name_matches rx_search (row_name row) ex_patterns) best)
     in Inr (map (\<lambda>v. the (map_of best v)) (sorted_list_of_set kept))))))))))))"

end
