(* ===== verification/Aggregate.thy ===== *)
theory Aggregate
  imports Members
begin

text \<open>
  The summary of a plan run with its jobs (\<open>aggregate_plan_run\<close>), the recovery time of a run
  (\<open>wall_clock_rto_sec\<close>) and its rendering (\<open>format_duration\<close>).
\<close>

subsection \<open>Recovery time\<close>

definition parse_iso :: "string \<Rightarrow> (bool \<times> rat) option" where
  "parse_iso ts =
     (let raw = strip ts; s = (if endswith ''Z'' raw then butlast raw @ ''+00:00'' else raw)
      in if raw = [] then None
         else (case iso_timestamp s of None \<Rightarrow> None | Some t \<Rightarrow> Some (iso_aware s, t)))"

text \<open>The difference of a time stamp with an offset and one without raises.\<close>

definition wall_clock_rto_sec :: "string \<Rightarrow> string \<Rightarrow> exn + int option" where
  "wall_clock_rto_sec started finished =
     (case (parse_iso started, parse_iso finished) of
        (Some (a, t0), Some (b, t1)) \<Rightarrow>
          if a \<noteq> b then Inl (TypeError (''can'' @ [CHR 0x27] @ ''t subtract offset-naive and offset-aware datetimes''))
          else Inr (Some (max 0 (trunc_rat (t1 - t0))))
      | _ \<Rightarrow> Inr None)"

definition format_duration :: "int option \<Rightarrow> string" where
  "format_duration sec =
     (case sec of
        None \<Rightarrow> em_dash
      | Some n \<Rightarrow>
          if n < 60 then str_of_int n @ ''s''
          else if n div 60 < 60 then str_of_int (n div 60) @ ''m '' @ str_of_int (n mod 60) @ ''s''
          else str_of_int (n div 60 div 60) @ ''h '' @ str_of_int (n div 60 mod 60) @ ''m '' @
               str_of_int (n mod 60) @ ''s'')"

subsection \<open>Runs with their jobs\<close>

definition hash_int :: "hash \<Rightarrow> string \<Rightarrow> exn + int" where
  "hash_int h f = (if hfield h f = [] then Inr 0 else py_int (PStr (hfield h f)))"

definition job_view :: "cfg \<Rightarrow> world \<Rightarrow> nat \<Rightarrow> string \<Rightarrow> exn + dict" where
  "job_view C w group_index job_id =
     (let data = hgetall (job_key C job_id) w in
      res_bind (hash_int data ''source_vmid'') (\<lambda>src.
      res_bind (hash_int data ''proxmox_vmid'') (\<lambda>tgt.
      res_bind (hash_int data ''progress'') (\<lambda>progress.
      Inr
        [(''job_id'', PStr job_id), (''group_index'', PInt (int group_index)),
         (''state'', PStr (hfield data ''state'')), (''vm_name'', PStr (hfield data ''vm_name'')),
         (''source_vmid'', PInt src), (''proxmox_vmid'', PInt tgt), (''progress'', PInt progress),
         (''error'', PStr (hfield data ''error'')), (''archive'', PStr (hfield data ''archive'')),
         (''backup_id'', PStr (hfield data ''backup_id'')),
         (''power_on'', PBool (hfield data ''power_on'' = ''1'')),
         (''qga_ok'', PStr (hfield data ''qga_ok'')),
         (''qga_waited_sec'', PStr (hfield data ''qga_waited_sec'')),
         (''restore_started_at'', PStr (hfield data ''restore_started_at'')),
         (''updated_at'', PStr (hfield data ''updated_at''))]))))"

definition run_job_ids :: "plan_run \<Rightarrow> (nat \<times> string) list" where
  "run_job_ids run = concat (map (\<lambda>(g, ids). map (Pair g) ids) (List.enumerate 0 (pr_jobs run)))"

record run_view =
  rv_run :: plan_run
  rv_jobs :: "dict list"
  rv_job_count :: int
  rv_completed :: int
  rv_failed :: int
  rv_rto :: "int option"
  rv_rto_text :: string

definition count_state :: "restore_state \<Rightarrow> dict list \<Rightarrow> int" where
  "count_state st jobs = int (length (filter (\<lambda>j. dget j ''state'' = PStr (state_value st)) jobs))"

text \<open>
  The view drops \<open>pending_group_rows\<close>; no reader of the view looks at the field, so the run is
  kept whole here.
\<close>

definition aggregate_plan_run :: "cfg \<Rightarrow> plan_run \<Rightarrow> world \<Rightarrow> exn + run_view" where
  "aggregate_plan_run C run w =
     res_bind (map_res (\<lambda>(g, j). job_view C w g j) (run_job_ids run)) (\<lambda>jobs.
     let rto = wall_clock_rto_sec (rn_started_at (pr_params run)) (pr_finished_at run) in
     Inr \<lparr>rv_run = run, rv_jobs = jobs, rv_job_count = int (length jobs),
          rv_completed = count_state COMPLETED jobs, rv_failed = count_state FAILED jobs,
          rv_rto = (case rto of Inr n \<Rightarrow> n | Inl e \<Rightarrow> None),
          rv_rto_text = (case rto of Inr n \<Rightarrow> format_duration n | Inl e \<Rightarrow> em_dash)\<rparr>)"

subsection \<open>Lemmas\<close>

lemma wall_clock_nonneg: "wall_clock_rto_sec a b = Inr (Some n) \<Longrightarrow> 0 \<le> n"
  by (auto simp: wall_clock_rto_sec_def split: option.splits prod.splits if_splits)

lemma set_run_job_ids:
  "set (run_job_ids run) = {(g, j). g < length (pr_jobs run) \<and> j \<in> set (pr_jobs run ! g)}"
  by (force simp: run_job_ids_def in_set_enumerate_eq image_iff)

lemma job_view_fields:
  assumes "job_view C w g j = Inr d"
  shows "dget d ''job_id'' = PStr j" "dget d ''group_index'' = PInt (int g)"
    "dget d ''state'' = PStr (hfield (hgetall (job_key C j) w) ''state'')"
    "dget d ''qga_ok'' = PStr (hfield (hgetall (job_key C j) w) ''qga_ok'')"
    "dget d ''http_check_url'' = PNone" "dget d ''hostname_warning'' = PNone"
    "dget d ''hostname_match'' = PNone"
  using assms by (auto simp: job_view_def Let_def)

lemma aggregate_fields:
  assumes "aggregate_plan_run C run w = Inr v"
  shows "rv_run v = run"
    "list_all2 (\<lambda>(g, j) d. job_view C w g j = Inr d) (run_job_ids run) (rv_jobs v)"
    "rv_job_count v = int (length (rv_jobs v))"
  using assms by (auto simp: aggregate_plan_run_def Let_def map_res_Inr_iff case_prod_unfold)

text \<open>The jobs of a view are the jobs of the run, in the order of the groups.\<close>

lemma aggregate_jobs:
  "aggregate_plan_run C run w = Inr v \<Longrightarrow>
     map_res (\<lambda>(g, j). job_view C w g j) (run_job_ids run) = Inr (rv_jobs v)"
  by (auto simp: aggregate_plan_run_def Let_def)

lemma aggregate_job:
  assumes "aggregate_plan_run C run w = Inr v" "d \<in> set (rv_jobs v)"
  obtains g j where "(g, j) \<in> set (run_job_ids run)" "job_view C w g j = Inr d"
  using map_res_range [OF aggregate_jobs [OF assms(1)] assms(2)] by fastforce

lemma aggregate_job_of:
  assumes "aggregate_plan_run C run w = Inr v" "(g, j) \<in> set (run_job_ids run)"
  obtains d where "d \<in> set (rv_jobs v)" "job_view C w g j = Inr d"
  using map_res_mem [OF aggregate_jobs [OF assms(1)] assms(2)] by fastforce

subsection \<open>A concrete run\<close>

definition demo_params :: run_params where
  "demo_params = \<lparr>rn_plan_id = ''p1'', rn_plan_name = ''web'', rn_cutoff = ''2026-05-02T00:00:00Z'',
     rn_location_id = ''l1'', rn_location_name = ''lab'', rn_node = ''n1'', rn_nodes = [''n1''],
     rn_storage = ''zfs'', rn_storage_by_node = [(''n1'', ''zfs'')], rn_vmid_start = 100, rn_bwlimit = 0,
     rn_live_restore = False, rn_powered_off = True, rn_power_on = False, rn_qga_wait_sec = 0,
     rn_network_mode = ''none'', rn_lab_bridge = [], rn_http_check_url = [], rn_overwrite = False,
     rn_drill = True, rn_auto_teardown = False, rn_restore_mode = ''normal'', rn_halt_on_error = True,
     rn_group_ids = [''g1'', ''g2''], rn_started_at = ''2026-05-02T00:00:00Z'',
     rn_created_at = ''2026-05-02T00:00:00Z''\<rparr>"

definition demo_run :: "plan_run_status \<Rightarrow> string list list \<Rightarrow> plan_run" where
  "demo_run st jobs = \<lparr>pr_id = ''r1'', pr_params = demo_params, pr_status = st, pr_index = 0,
     pr_jobs = jobs, pr_pending = [], pr_targets = [], pr_next_vmid = None, pr_finished_at = [],
     pr_error = [], pr_updated_at = [], pr_report_id = [], pr_rto_sec = None, pr_teardown_status = [],
     pr_teardown_results = [], pr_teardown_at = [], pr_assurance_evaluated = False,
     pr_assurance_status = [], pr_assurance_detail = [], pr_notification_sent = False,
     pr_cancel_stats = None\<rparr>"

end
