(* ===== verification/Notify.thy ===== *)
theory Notify
  imports Aggregate
begin

text \<open>
  Outbound notifications (\<open>notifications.py\<close>) and the error text shown to clients
  (\<open>client_errors.py\<close>). The SMTP session and the web hook are one call to the outside each,
  with host, port, recipients, subject and body, and the JSON payload; the credentials, the
  sender and the TLS context of the session are not represented. A web hook is
  answered by its status code; \<open>HTTPException\<close> stands for the \<open>HTTPError\<close> of \<open>urllib\<close>.
\<close>

subsection \<open>Error text\<close>

text \<open>The class name; \<open>ApiError\<close> stands for the classes of the libraries.\<close>

fun exn_class :: "exn \<Rightarrow> string" where
  "exn_class (RuntimeError m) = ''RuntimeError''"
| "exn_class (ValueError m) = ''ValueError''"
| "exn_class (KeyError m) = ''KeyError''"
| "exn_class (TypeError m) = ''TypeError''"
| "exn_class (TimeoutError m) = ''TimeoutError''"
| "exn_class (TaskCancelled m) = ''TaskCancelled''"
| "exn_class (GuestOwnershipError m) = ''GuestOwnershipError''"
| "exn_class (HTTPException c m) = ''HTTPException''"
| "exn_class (AttributeError m) = ''AttributeError''"
| "exn_class (ApiError m) = ''Exception''"
| "exn_class OutOfFuel = []"

definition public_error_message :: "exn \<Rightarrow> string \<Rightarrow> string" where
  "public_error_message e prefix =
     (if prefix \<noteq> [] then prefix @ '': '' @ exn_class e else exn_class e)"

subsection \<open>Configuration\<close>

definition sub_dict :: "dict \<Rightarrow> string \<Rightarrow> dict" where
  "sub_dict d k = (case dget d k of PDict x \<Rightarrow> x | _ \<Rightarrow> [])"

definition email_cfg :: "cfg \<Rightarrow> dict" where
  "email_cfg C = sub_dict (notify_cfg C) ''email''"

definition webhook_cfg :: "cfg \<Rightarrow> dict" where
  "webhook_cfg C = sub_dict (notify_cfg C) ''webhook''"

definition event_enabled :: "cfg \<Rightarrow> string \<Rightarrow> bool" where
  "event_enabled C ev =
     (let evs = sub_dict (notify_cfg C) ''events''
      in if ev = ''check_failed'' then truthy (dget_or evs ''check_failed'' (PBool True))
         else if ev = ''plan_run_terminal'' then truthy (dget_or evs ''plan_run_terminal'' (PBool True))
         else if ev = ''job_failed'' then truthy (dget_or evs ''job_failed'' (PBool False))
         else False)"

definition email_enabled :: "cfg \<Rightarrow> exn + bool" where
  "email_enabled C =
     (let e = email_cfg C in
      if \<not> truthy (dget e ''enabled'') then Inr False
      else res_bind (strip_field e ''host'') (\<lambda>host. Inr (host \<noteq> [] \<and> truthy (dget e ''to''))))"

definition webhook_enabled :: "cfg \<Rightarrow> exn + bool" where
  "webhook_enabled C =
     (let w = webhook_cfg C in
      if \<not> truthy (dget w ''enabled'') then Inr False
      else res_bind (strip_field w ''url'') (\<lambda>url. Inr (url \<noteq> [])))"

definition parse_recipients :: "pyval \<Rightarrow> string list" where
  "parse_recipients raw =
     (case raw of
        PList xs \<Rightarrow> clean_strs xs
      | _ \<Rightarrow> let t = strip (str_or_empty raw)
             in if t = [] then []
                else filter (\<lambda>a. a \<noteq> []) (map strip (split_on CHR '','' (replace_char CHR '';'' CHR '','' t))))"

subsection \<open>Sending\<close>

text \<open>A pair of success and detail\<close>

definition send_email :: "env \<Rightarrow> cfg \<Rightarrow> string \<Rightarrow> string \<Rightarrow> string list option \<Rightarrow> ('x store_scheme, bool \<times> string) act" where
  "send_email E C subject body to =
     (let e = email_cfg C; host = strip (str_or_empty (dget e ''host''));
          recipients = (case to of Some ts \<Rightarrow> ts | None \<Rightarrow> parse_recipients (dget e ''to''));
          port = py_int_or (py_or (dget e ''port'') (PInt 587)) 587
      in if host = [] then ret_act (False, ''SMTP host is not configured'')
         else if recipients = [] then ret_act (False, ''No email recipients configured'')
         else catch_act
           (bind_act (call E (SmtpSend host port recipients subject body))
              (\<lambda>_. ret_act (True, ''Sent to '' @ join_on '', '' recipients)))
           (\<lambda>exc. ret_act (False, public_error_message exc ''SMTP send failed'')))"

definition post_webhook :: "env \<Rightarrow> cfg \<Rightarrow> dict \<Rightarrow> ('x store_scheme, bool \<times> string) act" where
  "post_webhook E C payload =
     (let url = strip (str_or_empty (dget (webhook_cfg C) ''url''))
      in if url = [] then ret_act (False, ''Webhook URL is not configured'')
         else catch_act
           (bind_act (call E (WebhookPost url payload)) (\<lambda>ans.
              bind_act (res_act (py_int ans)) (\<lambda>code.
              ret_act (code < 400, ''HTTP '' @ str_of_int code))))
           (\<lambda>exc. ret_act (False, case exc of
                     HTTPException c m \<Rightarrow> ''HTTP '' @ str_of_int c @ '': '' @ m | _ \<Rightarrow> exn_str exc)))"

record notify_result =
  nr_event :: string
  nr_email :: "(bool \<times> string) option"
  nr_webhook :: "(bool \<times> string) option"
  nr_error :: "string option"

text \<open>The two halves of the fan-out: the mail, then the web hook\<close>

definition notify_mail ::
  "env \<Rightarrow> cfg \<Rightarrow> bool \<Rightarrow> string \<Rightarrow> string \<Rightarrow> notify_result \<Rightarrow> ('x store_scheme, notify_result) act" where
  "notify_mail E C mail subject body res =
     (if mail then bind_act (send_email E C subject body None) (\<lambda>r. ret_act (res\<lparr>nr_email := Some r\<rparr>))
      else ret_act res)"

definition notify_hook ::
  "env \<Rightarrow> cfg \<Rightarrow> dict \<Rightarrow> notify_result \<Rightarrow> ('x store_scheme, notify_result) act" where
  "notify_hook E C payload res =
     (case webhook_enabled C of
        Inl e \<Rightarrow> ret_act (res\<lparr>nr_error := Some (exn_str e)\<rparr>)
      | Inr hook \<Rightarrow>
          if hook then bind_act (post_webhook E C payload) (\<lambda>r. ret_act (res\<lparr>nr_webhook := Some r\<rparr>))
          else ret_act res)"

definition notify_event ::
  "env \<Rightarrow> cfg \<Rightarrow> string \<Rightarrow> string \<Rightarrow> string \<Rightarrow> dict \<Rightarrow> ('x store_scheme, notify_result) act" where
  "notify_event E C event subject body extra =
     (let none = \<lparr>nr_event = event, nr_email = None, nr_webhook = None, nr_error = None\<rparr> in
      case email_enabled C of
        Inl e \<Rightarrow> ret_act (none\<lparr>nr_error := Some (exn_str e)\<rparr>)
      | Inr mail \<Rightarrow>
          bind_act (notify_mail E C mail subject body none)
            (notify_hook E C (dmerge [(''event'', PStr event), (''subject'', PStr subject),
                    (''body'', PStr body)] extra)))"

text \<open>\<open>"\n".join(lines) + "\n"\<close>\<close>

definition text_lines :: "string list \<Rightarrow> string" where
  "text_lines ls = join_on [CHR 0x0A] ls @ [CHR 0x0A]"

text \<open>\<open>d.get(a) or d.get(b) or dflt\<close>\<close>

definition first_of :: "dict \<Rightarrow> string list \<Rightarrow> string \<Rightarrow> pyval" where
  "first_of d ks dflt = foldr (\<lambda>k v. py_or (dget d k) v) ks (PStr dflt)"

definition get_text :: "dict \<Rightarrow> string \<Rightarrow> string" where
  "get_text d k = py_str (dget_or d k (PStr []))"

definition notify_item_line :: "dict \<Rightarrow> string" where
  "notify_item_line item = rstrip (''- ['' @ py_str (dget item ''level'') @ ''] '' @ py_str (dget item ''code'') @
     '': '' @ py_str (dget item ''message'') @ '' '' @ str_or_empty (dget item ''detail''))"

definition notify_check_result ::
  "env \<Rightarrow> cfg \<Rightarrow> dict \<Rightarrow> dict \<Rightarrow> ('x store_scheme, unit) act" where
  "notify_check_result E C plan check =
     (if \<not> event_enabled C ''check_failed'' \<or> truthy (dget check ''ok'') then ret_act ()
      else
        let name = py_str (first_of plan [''name'', ''id''] ''plan'');
            summary = py_str (first_of check [''summary''] ''Readiness check failed'');
            items = (case dget check ''items'' of PList xs \<Rightarrow> dict_rows xs | _ \<Rightarrow> []);
            report_id = or_empty plan ''last_check_report_id'';
            ls = [''Plan: '' @ name, ''Plan ID: '' @ get_text plan ''id'',
                  ''Verification: '' @ get_text plan ''verification'',
                  ''Checked at: '' @ get_text check ''checked_at'', ''Summary: '' @ summary, [], ''Items:'']
                 @ map notify_item_line (filter (\<lambda>i. str_or_empty (dget i ''level'') \<in>
                       {''error'', ''warn'', ''warning''}) items)
                 @ (if truthy report_id then [[], ''Report ID: '' @ py_str report_id] else [])
        in bind_act (notify_event E C ''check_failed''
             (''[restore-engine] Readiness FAILED '' @ em_dash @ '' '' @ name) (text_lines ls)
             [(''plan_id'', dget plan ''id''), (''report_id'', report_id), (''ok'', PBool False)])
           (\<lambda>_. ret_act ()))"

definition or_dash_str :: "string \<Rightarrow> string" where
  "or_dash_str s = or_default s em_dash"

definition run_name :: "run_params \<Rightarrow> string" where
  "run_name p = or_default (rn_plan_name p) (or_default (rn_plan_id p) ''plan'')"

definition run_lines :: "run_view \<Rightarrow> string list" where
  "run_lines v =
     (let run = rv_run v; p = pr_params run in
      [''Kind: '' @ (if rn_drill p then ''drill'' else ''plan run''),
       ''Status: '' @ run_status_value (pr_status run), ''Plan: '' @ run_name p,
       ''Run ID: '' @ pr_id run, ''Location: '' @ or_default (rn_location_name p) (rn_location_id p),
       ''Jobs: '' @ str_of_int (rv_completed v) @ ''/'' @ str_of_int (rv_job_count v) @
         '' completed ('' @ str_of_int (rv_failed v) @ '' failed)'',
       ''RTO: '' @ rv_rto_text v, ''Teardown: '' @ or_dash_str (pr_teardown_status run),
       ''Started: '' @ or_dash_str (rn_started_at p), ''Finished: '' @ or_dash_str (pr_finished_at run)]
      @ (if pr_error run \<noteq> [] then [''Error: '' @ pr_error run] else [])
      @ (if pr_report_id run \<noteq> [] then [''Report ID: '' @ pr_report_id run] else []))"

definition notify_plan_run_terminal :: "env \<Rightarrow> cfg \<Rightarrow> run_view \<Rightarrow> ('x store_scheme, unit) act" where
  "notify_plan_run_terminal E C v =
     (let run = rv_run v; p = pr_params run in
      if \<not> event_enabled C ''plan_run_terminal'' then ret_act ()
      else bind_act (notify_event E C ''plan_run_terminal''
             (''[restore-engine] '' @ (if rn_drill p then ''drill'' else ''plan run'') @ '' '' @
                run_status_value (pr_status run) @ '' '' @ em_dash @ '' '' @ run_name p)
             (text_lines (run_lines v))
             [(''plan_id'', PStr (rn_plan_id p)), (''run_id'', PStr (pr_id run)),
              (''status'', PStr (run_status_value (pr_status run))), (''drill'', PBool (rn_drill p)),
              (''report_id'', if pr_report_id run = [] then PNone else PStr (pr_report_id run))])
           (\<lambda>_. ret_act ()))"

definition notify_job_failed :: "env \<Rightarrow> cfg \<Rightarrow> hash \<Rightarrow> ('x store_scheme, unit) act" where
  "notify_job_failed E C job =
     (if \<not> event_enabled C ''job_failed'' then ret_act ()
      else
        let name = or_default (hfield job ''vm_name'') (or_default (hfield job ''backup_id'')
              (or_default (hfield job ''job_id'') ''job''));
            ls = map (\<lambda>(label, f). label @ '': '' @ hfield job f)
                   [(''Job ID'', ''job_id''), (''VM'', ''vm_name''), (''Source VMID'', ''source_vmid''),
                    (''Target VMID'', ''proxmox_vmid''), (''Node'', ''proxmox_node''),
                    (''Mode'', ''restore_mode''), (''Error'', ''error'')]
                 @ (if hfield job ''plan_run_id'' \<noteq> [] then [''Plan run: '' @ hfield job ''plan_run_id''] else []);
            opt = (\<lambda>f. case map_of job f of None \<Rightarrow> PNone | Some x \<Rightarrow> PStr x)
        in bind_act (notify_event E C ''job_failed''
             (''[restore-engine] Restore FAILED '' @ em_dash @ '' '' @ name) (text_lines ls)
             [(''job_id'', opt ''job_id''), (''plan_run_id'', opt ''plan_run_id'')])
           (\<lambda>_. ret_act ()))"

subsection \<open>Lemmas\<close>

definition notify_calls :: "ext_call set" where
  "notify_calls = {c. (\<exists>h p t s b. c = SmtpSend h p t s b) \<or> (\<exists>u d. c = WebhookPost u d)}"

lemma notify_calls_mem [simp]: "SmtpSend h p t s b \<in> notify_calls" "WebhookPost u d \<in> notify_calls"
  by (auto simp: notify_calls_def)

lemma keeps_send_email: "keeps (emits_rel notify_calls) (send_email E C subject body to)"
  unfolding send_email_def Let_def
  by (intro emits.keeps_if emits.keeps_ret emits.keeps_catch emits.keeps_bind keeps_call) simp_all

lemma keeps_post_webhook: "keeps (emits_rel notify_calls) (post_webhook E C payload)"
  unfolding post_webhook_def Let_def
  by (intro emits.keeps_if emits.keeps_ret emits.keeps_catch emits.keeps_bind emits.keeps_res keeps_call)
     simp_all

text \<open>\<open>send_email\<close> and \<open>post_webhook\<close> report a failure as a value.\<close>

lemma send_email_total: "\<exists>r t. send_email E C subject body to s = (Inr r, t)"
  by (auto simp: send_email_def Let_def ret_act_def catch_act_def bind_act_def call_def
      split: sum.splits prod.splits)

lemma post_webhook_total: "\<exists>r t. post_webhook E C payload s = (Inr r, t)"
proof -
  have "py_int v \<noteq> Inl OutOfFuel" for v
    by (cases v) (auto split: option.splits)
  then show ?thesis
    by (auto simp: post_webhook_def Let_def ret_act_def catch_act_def bind_act_def call_def res_act_def
        split: sum.splits prod.splits)
qed

lemma notify_mail_total: "\<exists>r t. notify_mail E C b subject body x s = (Inr r, t)"
proof -
  obtain r t where "send_email E C subject body None s = (Inr r, t)" using send_email_total by blast
  then show ?thesis by (simp add: notify_mail_def bind_act_def ret_act_def)
qed

lemma notify_hook_total: "\<exists>r t. notify_hook E C p x s = (Inr r, t)"
proof -
  obtain r t where "post_webhook E C p s = (Inr r, t)" using post_webhook_total by blast
  then show ?thesis by (simp add: notify_hook_def bind_act_def ret_act_def split: sum.split)
qed

lemma notify_event_total: "\<exists>r t. notify_event E C ev subject body extra s = (Inr r, t)"
proof (cases "email_enabled C")
  case (Inr b)
  let ?x = "\<lparr>nr_event = ev, nr_email = None, nr_webhook = None, nr_error = None\<rparr>"
  obtain r t where "notify_mail E C b subject body ?x s = (Inr r, t)" using notify_mail_total by blast
  with notify_hook_total [of E C _ r t] Inr show ?thesis
    by (simp add: notify_event_def bind_act_def)
qed (simp add: notify_event_def ret_act_def)

lemma keeps_notify_mail: "keeps (emits_rel notify_calls) (notify_mail E C b subject body x)"
  by (simp add: notify_mail_def emits.keeps_bind keeps_send_email)

lemma keeps_notify_hook: "keeps (emits_rel notify_calls) (notify_hook E C p x)"
  by (simp add: notify_hook_def emits.keeps_bind keeps_post_webhook split: sum.split)

lemma keeps_notify_event: "keeps (emits_rel notify_calls) (notify_event E C ev subject body extra)"
  unfolding notify_event_def Let_def
  by (cases "email_enabled C") (simp_all add: emits.keeps_bind keeps_notify_mail keeps_notify_hook)

lemma keeps_notify_run: "keeps (emits_rel notify_calls) (notify_plan_run_terminal E C v)"
  unfolding notify_plan_run_terminal_def Let_def
  by (intro emits.keeps_if emits.keeps_ret emits.keeps_bind keeps_notify_event)

lemma notify_run_total: "\<exists>t. notify_plan_run_terminal E C v s = (Inr (), t)"
proof (cases "event_enabled C ''plan_run_terminal''")
  case True
  let ?subj = "''[restore-engine] '' @ (if rn_drill (pr_params (rv_run v)) then ''drill'' else ''plan run'') @ '' '' @
     run_status_value (pr_status (rv_run v)) @ '' '' @ em_dash @ '' '' @ run_name (pr_params (rv_run v))"
  let ?extra = "[(''plan_id'', PStr (rn_plan_id (pr_params (rv_run v)))), (''run_id'', PStr (pr_id (rv_run v))),
     (''status'', PStr (run_status_value (pr_status (rv_run v)))), (''drill'', PBool (rn_drill (pr_params (rv_run v)))),
     (''report_id'', if pr_report_id (rv_run v) = [] then PNone else PStr (pr_report_id (rv_run v)))]"
  obtain r t where "notify_event E C ''plan_run_terminal'' ?subj (text_lines (run_lines v)) ?extra s = (Inr r, t)"
    using notify_event_total by blast
  then show ?thesis using True
    unfolding notify_plan_run_terminal_def Let_def by (simp add: bind_act_eval ret_act_def)
qed (simp add: notify_plan_run_terminal_def ret_act_def)

end
