(* ===== verification/Reports.thy ===== *)
theory Reports
  imports Notify Worker
begin

text \<open>
  Compliance reports (\<open>reports.py\<close>): the rendering of a readiness check and of a plan run in
  Markdown and HTML, and the report store: one document per report, a sorted set of the report
  ids by time, and the trimming to a retention limit. HTML is built from literal chunks and from
  escaped text; the lemmas at the end show that no field of a plan, check or run reaches the
  markup.
\<close>

subsection \<open>Escaping\<close>

definition dq :: "string \<Rightarrow> string" where
  "dq s = CHR 0x22 # s @ [CHR 0x22]"

definition html_char :: "char \<Rightarrow> string" where
  "html_char c =
     (if c = CHR ''&'' then ''&amp;'' else if c = CHR ''<'' then ''&lt;''
      else if c = CHR ''>'' then ''&gt;'' else if c = CHR 0x22 then ''&quot;''
      else if c = CHR 0x27 then ''&#x27;'' else [c])"

definition html_escape :: "string \<Rightarrow> string" where
  "html_escape s = concat (map html_char s)"

definition md_escape :: "string \<Rightarrow> string" where
  "md_escape s = concat (map (\<lambda>c. if c = CHR ''|'' then [CHR 0x5C, c]
                              else if c = CHR 0x0A then '' '' else [c]) s)"

definition page_head :: string where
  "page_head = ''<!DOCTYPE html><html lang='' @ dq ''en'' @ ''><head><meta charset='' @ dq ''utf-8'' @ ''/><title>''"

definition page_style :: string where
  "page_style =
     ''body{font-family:ui-sans-serif,system-ui,sans-serif;margin:2rem;line-height:1.45;color:#111}'' @
     ''h1{font-size:1.35rem}h2{font-size:1.1rem;margin-top:1.5rem}table{border-collapse:collapse;width:100%;'' @
     ''font-size:0.9rem}th,td{border:1px solid #ccc;padding:0.4rem 0.55rem;text-align:left}'' @
     ''th{background:#f4f4f4}.ok{color:#0a7} .err{color:#c33} .muted{color:#666}'' @
     ''pre{background:#f7f7f7;padding:0.75rem;overflow:auto}''"

definition html_page :: "string \<Rightarrow> string \<Rightarrow> string" where
  "html_page title body_inner =
     page_head @ html_escape title @ ''</title><style>'' @ page_style @ ''</style></head><body>'' @
     body_inner @ ''</body></html>''"

record rendered =
  rd_title :: string
  rd_markdown :: string
  rd_html :: string

subsection \<open>Sizes\<close>

text \<open>\<open>while v >= 1024 and i < 5: v /= 1024; i += 1\<close>\<close>

fun scale_bytes :: "rat \<Rightarrow> string list \<Rightarrow> rat \<times> string" where
  "scale_bytes v [] = (v, [])"
| "scale_bytes v [u] = (v, u)"
| "scale_bytes v (u # u' # us) = (if 1024 \<le> v then scale_bytes (v / 1024) (u' # us) else (v, u))"

definition format_bytes :: "pyval \<Rightarrow> string" where
  "format_bytes n =
     (case py_float (py_or n (PInt 0)) of
        Inl e \<Rightarrow> em_dash
      | Inr v \<Rightarrow>
          if v \<le> 0 then ''0 B''
          else (case scale_bytes v [''B'', ''KiB'', ''MiB'', ''GiB'', ''TiB'', ''PiB''] of (x, u) \<Rightarrow>
                  (if u = ''B'' then str_of_int (trunc_rat x) else fixed1 x) @ '' '' @ u))"

definition int_or_zero :: "dict \<Rightarrow> string \<Rightarrow> exn + int" where
  "int_or_zero d k = py_int (py_or (dget d k) (PInt 0))"

definition approx_net :: "dict \<Rightarrow> exn + string" where
  "approx_net ss =
     res_bind (int_or_zero ss ''nonzero_estimated_count'') (\<lambda>est_n.
     res_bind (int_or_zero ss ''nonzero_missing_count'') (\<lambda>miss_n.
       if 0 < est_n \<and> dget ss ''nonzero_bytes'' \<noteq> PNone then
         res_bind (py_int (dget ss ''nonzero_bytes'')) (\<lambda>nz.
         Inr (''~'' @ format_bytes (PInt nz) @ '' approx net ('' @ str_of_int est_n @ ''/'' @
              str_of_int (est_n + miss_n) @ '' estimated)''))
       else Inr ''approx net unavailable''))"

text \<open>The size lines in Markdown and as \<open>li\<close> elements, when the check has sizes\<close>

definition check_size_lines :: "dict \<Rightarrow> exn + string list \<times> string list" where
  "check_size_lines check =
     (case dget check ''size_summary'' of
        PDict ss \<Rightarrow>
          res_bind (approx_net ss) (\<lambda>net. let gross = format_bytes (dget ss ''gross_bytes'') in
            Inr ([''- **Size (gross):** '' @ gross, ''- **Size (approx net):** '' @ net],
                 [''<li>Size (gross): '' @ html_escape gross @ ''</li>'',
                  ''<li>Size (approx net): '' @ html_escape net @ ''</li>'']))
      | _ \<Rightarrow> Inr ([], []))"

subsection \<open>The report of a readiness check\<close>

definition code_span :: "string \<Rightarrow> string" where
  "code_span s = ''`'' @ s @ ''`''"

text \<open>
  The items of a check are dictionaries: the readiness check stores no other ones. An item that is none
  would raise in the source and is passed over here.
\<close>

definition check_items :: "dict \<Rightarrow> dict list" where
  "check_items check = (case dget check ''items'' of PList xs \<Rightarrow> dict_rows xs | _ \<Rightarrow> [])"

definition str_of_key :: "dict \<Rightarrow> string \<Rightarrow> string" where
  "str_of_key d k = str_or_empty (dget d k)"

definition check_item_md :: "dict \<Rightarrow> string" where
  "check_item_md item =
     ''| '' @ md_escape (str_of_key item ''level'') @ '' | '' @ code_span (md_escape (str_of_key item ''code'')) @
     '' | '' @ md_escape (str_of_key item ''message'') @ '' | '' @ md_escape (str_of_key item ''detail'') @ '' |''"

definition level_class :: "string \<Rightarrow> string" where
  "level_class level = (if level = ''error'' then ''err'' else if level = ''ok'' then ''ok'' else ''muted'')"

definition check_item_html :: "dict \<Rightarrow> string" where
  "check_item_html item =
     ''<tr><td class='' @ dq (level_class (str_of_key item ''level'')) @ ''>'' @
     html_escape (str_of_key item ''level'') @ ''</td><td><code>'' @ html_escape (str_of_key item ''code'') @
     ''</code></td><td>'' @ html_escape (str_of_key item ''message'') @ ''</td><td class='' @ dq ''muted'' @ ''>'' @
     html_escape (str_of_key item ''detail'') @ ''</td></tr>''"

definition no_rows :: "nat \<Rightarrow> string \<Rightarrow> string" where
  "no_rows n what = ''<tr><td colspan='' @ dq (str_of_nat n) @ '' class='' @ dq ''muted'' @ ''>'' @ what @ ''</td></tr>''"

definition plan_title :: "dict \<Rightarrow> string" where
  "plan_title plan = py_str (first_of plan [''name'', ''id''] ''plan'')"

definition check_markdown :: "dict \<Rightarrow> dict \<Rightarrow> string list \<Rightarrow> string" where
  "check_markdown plan check size_md = text_lines
     ([''# Readiness check '' @ em_dash @ '' '' @ plan_title plan, [],
       ''- **Status:** '' @ (if truthy (dget check ''ok'') then ''PASSED'' else ''FAILED''),
       ''- **Plan ID:** '' @ code_span (get_text plan ''id''),
       ''- **Verification:** '' @ code_span (get_text plan ''verification''),
       ''- **Checked at:** '' @ py_str (first_of check [''checked_at''] em_dash),
       ''- **Cutoff:** '' @ code_span (py_str (first_of check [''cutoff''] em_dash)),
       ''- **Members resolved:** '' @ py_str (dget_or check ''member_count'' (PInt 0))]
      @ size_md @
      [''- **Summary:** '' @ md_escape (str_of_key check ''summary''), [], ''## Check items'', [],
       ''| Level | Code | Message | Detail |'', ''| --- | --- | --- | --- |'']
      @ map check_item_md (check_items check))"

definition check_body :: "dict \<Rightarrow> dict \<Rightarrow> string list \<Rightarrow> int \<Rightarrow> string" where
  "check_body plan check size_html members =
     (let ok = truthy (dget check ''ok'') in
      ''<h1>'' @ html_escape (''Readiness check '' @ em_dash @ '' '' @ plan_title plan) @ ''</h1><p><strong>Status:</strong> '' @
      ''<span class='' @ dq (if ok then ''ok'' else ''err'') @ ''>'' @
      html_escape (if ok then ''PASSED'' else ''FAILED'') @ ''</span></p><ul><li>Plan ID: <code>'' @
      html_escape (str_of_key plan ''id'') @ ''</code></li><li>Verification: <code>'' @
      html_escape (str_of_key plan ''verification'') @ ''</code></li><li>Checked at: '' @
      html_escape (py_str (first_of check [''checked_at''] em_dash)) @ ''</li><li>Cutoff: <code>'' @
      html_escape (py_str (first_of check [''cutoff''] em_dash)) @ ''</code></li><li>Members resolved: '' @
      str_of_int members @ ''</li>'' @ concat size_html @ ''<li>Summary: '' @
      html_escape (str_of_key check ''summary'') @
      ''</li></ul><h2>Check items</h2><table><thead><tr><th>Level</th><th>Code</th><th>Message</th><th>Detail</th></tr></thead><tbody>'' @
      (if check_items check = [] then no_rows 4 ''No items'' else concat (map check_item_html (check_items check))) @
      ''</tbody></table>'')"

definition render_check_report :: "dict \<Rightarrow> dict \<Rightarrow> exn + rendered" where
  "render_check_report plan check =
     (let title = ''Readiness check '' @ em_dash @ '' '' @ plan_title plan in
      res_bind (check_size_lines check) (\<lambda>(size_md, size_html).
      res_bind (int_or_zero check ''member_count'') (\<lambda>members.
      Inr \<lparr>rd_title = title, rd_markdown = check_markdown plan check size_md,
           rd_html = html_page title (check_body plan check size_html members)\<rparr>)))"

subsection \<open>The report of a plan run\<close>

definition report_name :: "dict option \<Rightarrow> run_params \<Rightarrow> string" where
  "report_name plan p =
     (let n = (case plan of None \<Rightarrow> PNone | Some d \<Rightarrow> dget d ''name'')
      in if truthy n then py_str n else run_name p)"

definition report_title :: "dict option \<Rightarrow> run_params \<Rightarrow> string" where
  "report_title plan p =
     (if rn_drill p then ''Drill run '' else ''Plan run '') @ em_dash @ '' '' @ report_name plan p"

definition yes_no :: "bool \<Rightarrow> string" where
  "yes_no b = (if b then ''yes'' else ''no'')"

definition run_nodes_text :: "run_params \<Rightarrow> string" where
  "run_nodes_text p =
     join_on '', '' (filter (\<lambda>n. n \<noteq> [])
       (if rn_nodes p \<noteq> [] then rn_nodes p else if rn_node p \<noteq> [] then [rn_node p] else []))"

definition teardown_text :: "plan_run \<Rightarrow> string" where
  "teardown_text run =
     or_default (pr_teardown_status run) (if rn_auto_teardown (pr_params run) then ''auto'' else em_dash)"

text \<open>The two renderings of \<open>Powered off\<close> differ: the code has two formulas.\<close>

definition md_powered_off :: "run_params \<Rightarrow> bool" where
  "md_powered_off p \<longleftrightarrow>
     rn_powered_off p \<or> (rn_drill p \<and> \<not> rn_power_on p) \<or> (\<not> rn_live_restore p \<and> \<not> rn_power_on p)"

definition html_powered_off :: "run_params \<Rightarrow> bool" where
  "html_powered_off p \<longleftrightarrow> rn_powered_off p \<or> rn_drill p \<or> \<not> rn_live_restore p"

definition job_archive_text :: "dict \<Rightarrow> string" where
  "job_archive_text job = py_str (first_of job [''archive'', ''backup_id''] [])"

definition job_md :: "dict \<Rightarrow> string" where
  "job_md job =
     ''| '' @ get_text job ''group_index'' @ '' | '' @ md_escape (str_of_key job ''vm_name'') @ '' | '' @
     get_text job ''source_vmid'' @ '' | '' @ get_text job ''proxmox_vmid'' @ '' | '' @
     md_escape (str_of_key job ''state'') @ '' | '' @ code_span (md_escape (job_archive_text job)) @ '' | '' @
     md_escape (str_of_key job ''error'') @ '' |''"

definition state_class :: "string \<Rightarrow> string" where
  "state_class st = (if st = ''COMPLETED'' then ''ok'' else if st = ''FAILED'' then ''err'' else ''muted'')"

definition job_html :: "dict \<Rightarrow> string" where
  "job_html job =
     (let st = str_of_key job ''state'' in
      ''<tr><td>'' @ html_escape (get_text job ''group_index'') @ ''</td><td>'' @
      html_escape (str_of_key job ''vm_name'') @ ''</td><td>'' @ html_escape (str_of_key job ''source_vmid'') @
      ''</td><td>'' @ html_escape (str_of_key job ''proxmox_vmid'') @ ''</td><td class='' @ dq (state_class st) @
      ''>'' @ html_escape st @ ''</td><td><code>'' @ html_escape (job_archive_text job) @
      ''</code></td><td class='' @ dq ''err'' @ ''>'' @ html_escape (str_of_key job ''error'') @ ''</td></tr>'')"

definition run_markdown :: "dict option \<Rightarrow> run_view \<Rightarrow> string \<Rightarrow> string" where
  "run_markdown plan v rto =
     (let run = rv_run v; p = pr_params run in text_lines
       ([''# '' @ report_title plan p, [],
         ''- **Status:** '' @ run_status_value (pr_status run),
         ''- **Kind:** '' @ (if rn_drill p then ''drill'' else ''recovery''),
         ''- **Run ID:** '' @ code_span (pr_id run), ''- **Plan ID:** '' @ code_span (rn_plan_id p),
         ''- **Location:** '' @ md_escape (or_default (rn_location_name p) (rn_location_id p)),
         ''- **Nodes:** '' @ md_escape (run_nodes_text p),
         ''- **Storage:** '' @ code_span (md_escape (rn_storage p)),
         ''- **Restore mode:** '' @ code_span (or_default (rn_restore_mode p) ''normal''),
         ''- **Powered off:** '' @ yes_no (md_powered_off p), ''- **Power on:** '' @ yes_no (rn_power_on p),
         ''- **QGA wait:** '' @ str_of_int (rn_qga_wait_sec p) @ ''s'',
         ''- **Live restore:** '' @ yes_no (rn_live_restore p),
         ''- **Teardown:** '' @ md_escape (teardown_text run),
         ''- **Cutoff:** '' @ code_span (or_dash_str (rn_cutoff p)),
         ''- **Started:** '' @ or_dash_str (rn_started_at p), ''- **Finished:** '' @ or_dash_str (pr_finished_at run),
         ''- **Wall-clock RTO:** '' @ rto,
         ''- **Jobs:** '' @ str_of_int (rv_completed v) @ ''/'' @ str_of_int (rv_job_count v) @
           '' completed ('' @ str_of_int (rv_failed v) @ '' failed)'']
        @ (if pr_error run \<noteq> [] then [''- **Error:** '' @ md_escape (pr_error run)] else [])
        @ [[], ''## Jobs'', [], ''| Group | VM | Source VMID | Target VMID | State | Archive / volid | Error |'',
           ''| --- | --- | --- | --- | --- | --- | --- |'']
        @ map job_md (rv_jobs v)))"

definition run_body_head :: "run_view \<Rightarrow> string" where
  "run_body_head v =
     (let run = rv_run v; p = pr_params run in
      ''<p><strong>Status:</strong> '' @ html_escape (run_status_value (pr_status run)) @
      ''</p><ul><li>Run ID: <code>'' @ html_escape (pr_id run) @ ''</code></li><li>Kind: <code>'' @
      (if rn_drill p then ''drill'' else ''recovery'') @ ''</code></li><li>Plan ID: <code>'' @
      html_escape (rn_plan_id p) @ ''</code></li><li>Location: '' @
      html_escape (or_default (rn_location_name p) (rn_location_id p)) @ ''</li><li>Nodes: '' @
      html_escape (run_nodes_text p) @ ''</li><li>Storage: <code>'' @ html_escape (rn_storage p) @
      ''</code></li><li>Restore mode: <code>'' @ html_escape (or_default (rn_restore_mode p) ''normal'') @
      ''</code></li><li>Powered off: '' @ yes_no (html_powered_off p) @ ''</li>'')"

definition run_body_tail :: "run_view \<Rightarrow> string \<Rightarrow> string" where
  "run_body_tail v rto =
     (let run = rv_run v; p = pr_params run in
      ''<li>Teardown: '' @ html_escape (teardown_text run) @ ''</li><li>Cutoff: <code>'' @
      html_escape (or_dash_str (rn_cutoff p)) @ ''</code></li><li>Started: '' @
      html_escape (or_dash_str (rn_started_at p)) @ ''</li><li>Finished: '' @
      html_escape (or_dash_str (pr_finished_at run)) @ ''</li><li>Wall-clock RTO: <strong>'' @
      html_escape rto @ ''</strong></li><li>Jobs: '' @ str_of_int (rv_completed v) @ ''/'' @
      str_of_int (rv_job_count v) @ '' completed ('' @ str_of_int (rv_failed v) @ '' failed)</li>'' @
      (if pr_error run \<noteq> [] then ''<li class='' @ dq ''err'' @ ''>Error: '' @ html_escape (pr_error run) @ ''</li>''
       else []) @ ''</ul>'')"

definition run_body :: "dict option \<Rightarrow> run_view \<Rightarrow> string \<Rightarrow> string" where
  "run_body plan v rto =
     ''<h1>'' @ html_escape (report_title plan (pr_params (rv_run v))) @ ''</h1>'' @
     run_body_head v @ run_body_tail v rto @
     ''<h2>Jobs</h2><table><thead><tr><th>Group</th><th>VM</th><th>Source</th><th>Target</th><th>State</th>'' @
     ''<th>Archive</th><th>Error</th></tr></thead><tbody>'' @
     (if rv_jobs v = [] then no_rows 7 ''No jobs'' else concat (map job_html (rv_jobs v))) @ ''</tbody></table>''"

definition render_run_report :: "dict option \<Rightarrow> run_view \<Rightarrow> exn + rendered" where
  "render_run_report plan v =
     (let run = rv_run v; title = report_title plan (pr_params run) in
      res_bind (wall_clock_rto_sec (rn_started_at (pr_params run)) (pr_finished_at run)) (\<lambda>rto.
      Inr \<lparr>rd_title = title, rd_markdown = run_markdown plan v (format_duration rto),
           rd_html = html_page title (run_body plan v (format_duration rto))\<rparr>))"

subsection \<open>The report store\<close>

definition report_key :: "cfg \<Rightarrow> string \<Rightarrow> string" where
  "report_key C i = redis_name C ''report_key_prefix'' ''restore:report:'' @ i"

definition reports_index :: "cfg \<Rightarrow> string" where
  "reports_index C = redis_name C ''reports_index'' ''restore:reports''"

definition report_retain_limit :: "cfg \<Rightarrow> int" where
  "report_retain_limit C =
     max 1 (py_int_or (dget_or (worker_cfg C) ''report_retain''
              (dget_or (redis_cfg C) ''report_retain'' (PInt 20))) 20)"

text \<open>A sorted set: members with scores, ordered by score and then by member\<close>

definition zget :: "string \<Rightarrow> world \<Rightarrow> (string \<times> rat) list" where
  "zget key w = (case map_of (zsets w) key of None \<Rightarrow> [] | Some z \<Rightarrow> z)"

definition zset_put :: "string \<Rightarrow> (string \<times> rat) list \<Rightarrow> world \<Rightarrow> world" where
  "zset_put key z w = w\<lparr>zsets := AList.update key z (zsets w)\<rparr>"

definition zadd :: "string \<Rightarrow> string \<Rightarrow> rat \<Rightarrow> world \<Rightarrow> world" where
  "zadd key m score w = zset_put key (AList.update m score (zget key w)) w"

definition zrem :: "string \<Rightarrow> string \<Rightarrow> world \<Rightarrow> world" where
  "zrem key m w = zset_put key (AList.delete m (zget key w)) w"

definition zorder :: "(string \<times> rat) list \<Rightarrow> string list" where
  "zorder z = map fst (sort_key snd (sort_key fst z))"

definition zcard :: "string \<Rightarrow> world \<Rightarrow> nat" where
  "zcard key w = length (zget key w)"

definition trim_reports :: "cfg \<Rightarrow> world \<Rightarrow> world" where
  "trim_reports C w =
     (let index = reports_index C; total = int (zcard index w); cap = report_retain_limit C in
      if total \<le> cap then w
      else fold (\<lambda>rid v. zrem index rid (del_doc (report_key C rid) v))
             (take (nat (total - cap)) (zorder (zget index w))) w)"

definition save_report ::
  "env \<Rightarrow> cfg \<Rightarrow> string \<Rightarrow> string \<Rightarrow> string \<Rightarrow> rendered \<Rightarrow> dict \<Rightarrow> world \<Rightarrow> dict \<times> world" where
  "save_report E C kind plan_id plan_name rep meta w =
     (let report_id = uuid E (uuids w);
          doc = [(''id'', PStr report_id), (''kind'', PStr kind), (''plan_id'', PStr plan_id),
                 (''plan_name'', PStr plan_name), (''title'', PStr (rd_title rep)),
                 (''created_at'', PStr (utc_now_iso E w)), (''markdown'', PStr (rd_markdown rep)),
                 (''html'', PStr (rd_html rep)), (''meta'', PDict meta)];
          w1 = set_doc (report_key C report_id) doc (w\<lparr>uuids := Suc (uuids w)\<rparr>)
      in (doc, trim_reports C (zadd (reports_index C) report_id (now E w) w1)))"

definition get_report :: "cfg \<Rightarrow> string \<Rightarrow> world \<Rightarrow> dict option" where
  "get_report C i = get_doc (report_key C i)"

definition report_summary :: "dict \<Rightarrow> dict" where
  "report_summary d =
     map (\<lambda>k. (k, dget d k)) [''id'', ''kind'', ''plan_id'', ''plan_name'', ''title'', ''created_at'']
     @ [(''meta'', py_or (dget d ''meta'') (PDict []))]"

definition list_reports :: "cfg \<Rightarrow> string option \<Rightarrow> string option \<Rightarrow> int \<Rightarrow> world \<Rightarrow> dict list" where
  "list_reports C plan_id kind cap0 w =
     (let cap = max 1 (min 200 cap0);
          ids = take (nat (cap * 4)) (rev (zorder (zget (reports_index C) w)));
          matches = (\<lambda>d k want. case want of None \<Rightarrow> True | Some s \<Rightarrow> s = [] \<or> dget d k = PStr s)
      in take (nat cap) (map report_summary
           (filter (\<lambda>d. d \<noteq> [] \<and> matches d ''plan_id'' plan_id \<and> matches d ''kind'' kind)
              (List.map_filter (\<lambda>i. get_report C i w) ids))))"

definition save_check_report :: "env \<Rightarrow> cfg \<Rightarrow> dict \<Rightarrow> dict \<Rightarrow> (world, dict) act" where
  "save_check_report E C plan check =
     bind_act (res_act (render_check_report plan check)) (\<lambda>rep w.
       case save_report E C ''check'' (str_of_key plan ''id'') (str_of_key plan ''name'') rep
              [(''ok'', PBool (truthy (dget check ''ok''))), (''verification'', dget plan ''verification''),
               (''checked_at'', dget check ''checked_at''),
               (''member_count'', dget_or check ''member_count'' (PInt 0)),
               (''summary'', dget check ''summary''), (''size_summary'', dget check ''size_summary'')] w
       of (d, w1) \<Rightarrow> (Inr d, w1))"

definition opt_int :: "int option \<Rightarrow> pyval" where
  "opt_int n = (case n of None \<Rightarrow> PNone | Some i \<Rightarrow> PInt i)"

definition run_report_meta :: "run_view \<Rightarrow> int option \<Rightarrow> dict" where
  "run_report_meta v rto =
     (let run = rv_run v; p = pr_params run in
      [(''run_id'', PStr (pr_id run)), (''status'', PStr (run_status_value (pr_status run))),
       (''rto_sec'', opt_int rto), (''job_count'', PInt (rv_job_count v)),
       (''completed_jobs'', PInt (rv_completed v)), (''failed_jobs'', PInt (rv_failed v)),
       (''started_at'', PStr (rn_started_at p)), (''finished_at'', PStr (pr_finished_at run)),
       (''drill'', PBool (rn_drill p)), (''powered_off'', PBool (rn_powered_off p)),
       (''teardown_status'', PStr (pr_teardown_status run))])"

text \<open>The result is the id of the report and the \<open>rto_sec\<close> of its meta data, all that the caller reads.\<close>

definition save_run_report ::
  "env \<Rightarrow> cfg \<Rightarrow> dict option \<Rightarrow> run_view \<Rightarrow> (world, string \<times> int option) act" where
  "save_run_report E C plan v =
     bind_act (res_act (render_run_report plan v)) (\<lambda>rep.
     bind_act (res_act (wall_clock_rto_sec (rn_started_at (pr_params (rv_run v))) (pr_finished_at (rv_run v)))) (\<lambda>rto w.
       let p = pr_params (rv_run v);
           pd = (case plan of None \<Rightarrow> [] | Some d \<Rightarrow> d)
       in case save_report E C ''run'' (or_default (rn_plan_id p) (str_of_key pd ''id''))
                (let n = dget pd ''name'' in if truthy n then py_str n else rn_plan_name p) rep
                (run_report_meta v rto) w
          of (d, w1) \<Rightarrow> (Inr (py_str (dget d ''id''), rto), w1)))"

subsection \<open>Lemmas: the sorted set\<close>

lemma zget_put [simp]: "zget k (zset_put key z w) = (if k = key then z else zget k w)"
  by (simp add: zget_def zset_put_def update_conv')

lemma zset_doc_frame [simp]:
  "get_doc k (zset_put key z w) = get_doc k w" "zget k (del_doc key w) = zget k w"
  "zget k (set_doc key d w) = zget k w" "zget k (w\<lparr>uuids := n\<rparr>) = zget k w"
  "get_doc k (w\<lparr>uuids := n\<rparr>) = get_doc k w"
  by (simp_all add: get_doc_def zget_def zset_put_def del_doc_def set_doc_def)

lemma report_key_inj [simp]: "report_key C a = report_key C b \<longleftrightarrow> a = b"
  by (simp add: report_key_def)

lemma set_zorder [simp]: "set (zorder z) = fst ` set z"
  by (simp add: zorder_def)

lemma length_zorder [simp]: "length (zorder z) = length z"
  by (simp add: zorder_def)

lemma distinct_zorder: "distinct (map fst z) \<Longrightarrow> distinct (zorder z)"
  by (simp add: zorder_def distinct_map)

text \<open>Later members of the order have larger scores.\<close>

lemma zorder_scores:
  assumes "distinct (map fst z)" "i < j" "j < length z"
  shows "the (map_of z (zorder z ! i)) \<le> the (map_of z (zorder z ! j))"
proof -
  let ?s = "sort_key snd (sort_key fst z)"
  have "map_of z (fst (?s ! k)) = Some (snd (?s ! k))" if "k < length z" for k
  proof -
    have "?s ! k \<in> set z" using that by (metis length_sort nth_mem set_sort)
    then show ?thesis using assms(1) by simp
  qed
  moreover have "snd (?s ! i) \<le> snd (?s ! j)"
    using sorted_nth_mono [of "map snd ?s" i j] assms(2,3) by simp
  ultimately show ?thesis using assms(2,3) by (simp add: zorder_def)
qed

lemma zrem_simps [simp]:
  "zget k (zrem key m w) = (if k = key then filter (\<lambda>(x, sc). x \<noteq> m) (zget key w) else zget k w)"
  "get_doc k (zrem key m w) = get_doc k w"
  by (auto simp: zrem_def AList.delete_eq case_prod_unfold intro: filter_cong)

lemma trim_fold:
  "zget (reports_index C) (fold (\<lambda>rid v. zrem (reports_index C) rid (del_doc (report_key C rid) v)) ids w) =
     filter (\<lambda>(m, sc). m \<notin> set ids) (zget (reports_index C) w)"
  "get_report C i (fold (\<lambda>rid v. zrem (reports_index C) rid (del_doc (report_key C rid) v)) ids w) =
     (if i \<in> set ids then None else get_report C i w)"
proof (induction ids arbitrary: w)
  case (Cons a ids)
  case 1 show ?case by (simp add: Cons(1) case_prod_unfold conj_commute)
  case 2
  have "get_report C j (zrem k a (del_doc (report_key C a) w)) = (if j = a then None else get_report C j w)" for j k
    by (simp add: get_report_def)
  then show ?case by (simp add: Cons(2))
qed (simp_all add: case_prod_unfold)

subsection \<open>Retention\<close>

text \<open>The index and the documents agree.\<close>

definition reports_ok :: "cfg \<Rightarrow> world \<Rightarrow> bool" where
  "reports_ok C w \<longleftrightarrow>
     distinct (map fst (zget (reports_index C) w)) \<and>
     (\<forall>i. get_report C i w \<noteq> None \<longleftrightarrow> i \<in> fst ` set (zget (reports_index C) w))"

definition report_score :: "cfg \<Rightarrow> world \<Rightarrow> string \<Rightarrow> rat option" where
  "report_score C w = map_of (zget (reports_index C) w)"

lemma trim_ids:
  fixes z :: "(string \<times> rat) list"
  assumes "distinct (map fst z)"
  shows "length (filter (\<lambda>(m, sc). m \<notin> set (take n (zorder z))) z) = length z - n"
proof -
  let ?drop = "set (take n (zorder z))"
  have "length (filter (\<lambda>(m, sc). m \<in> ?drop) z) = card (set (filter (\<lambda>m. m \<in> ?drop) (map fst z)))"
    using assms by (subst distinct_card) (simp_all add: filter_map o_def case_prod_unfold distinct_map_filter)
  also have "set (filter (\<lambda>m. m \<in> ?drop) (map fst z)) = ?drop"
    using set_take_subset [of n "zorder z"] by auto
  also have "card ?drop = min n (length z)"
    using distinct_zorder [OF assms] by (simp add: distinct_card)
  finally show ?thesis
    using sum_length_filter_compl [of "\<lambda>(m, sc). m \<in> ?drop" z] by (simp add: case_prod_unfold)
qed

lemma report_retention_facts:
  assumes ok: "reports_ok C w"
    and newest: "\<forall>p \<in> set (zget (reports_index C) w). snd p < now E w"
    and new: "get_report C (uuid E (uuids w)) w = None"
    and save: "save_report E C kind pid pname rep meta w = (doc, w')"
  shows "reports_ok C w'" and "int (zcard (reports_index C) w') \<le> report_retain_limit C"
    and "get_report C (uuid E (uuids w)) w' = Some doc"
    and "get_report C i w \<noteq> None \<Longrightarrow> get_report C i w' = None \<Longrightarrow> get_report C j w' \<noteq> None \<Longrightarrow>
      the (report_score C w i) \<le> the (report_score C w' j)"
proof -
  let ?new = "uuid E (uuids w)" and ?ix = "reports_index C"
  define w1 where "w1 = zadd ?ix ?new (now E w)
    (set_doc (report_key C ?new) doc (w\<lparr>uuids := Suc (uuids w)\<rparr>))"
  let ?z = "zget ?ix w" and ?z1 = "zget ?ix w1"
  have w': "w' = trim_reports C w1"
    using save unfolding save_report_def w1_def Let_def by auto
  have fresh: "?new \<notin> fst ` set ?z" using ok new unfolding reports_ok_def by blast
  have z1: "?z1 = AList.update ?new (now E w) ?z" by (simp add: w1_def zadd_def)
  then have map1: "map_of ?z1 = (map_of ?z)(?new \<mapsto> now E w)" by (simp add: update_conv')
  have d1: "distinct (map fst ?z1)" using ok unfolding z1 reports_ok_def by (simp add: distinct_update)
  have g1: "get_report C i w1 = (if i = ?new then Some doc else get_report C i w)" for i
    by (simp add: w1_def zadd_def get_report_def)
  have set1: "fst ` set ?z1 = insert ?new (fst ` set ?z)"
    unfolding z1 using dom_update [of ?new "now E w" ?z] by simp
  have ok1: "reports_ok C w1"
    using ok d1 set1 g1 unfolding reports_ok_def by auto
  define n where "n = nat (int (zcard ?ix w1) - report_retain_limit C)"
  let ?gone = "set (take n (zorder ?z1))"
  have cap: "1 \<le> report_retain_limit C" by (simp add: report_retain_limit_def)
  have z2: "zget ?ix w' = filter (\<lambda>(m, sc). m \<notin> ?gone) ?z1"
    and g2: "\<And>i. get_report C i w' = (if i \<in> ?gone then None else get_report C i w1)"
    using trim_fold [where C = C and ids = "take n (zorder ?z1)" and w = w1]
    unfolding w' trim_reports_def Let_def n_def by (auto simp: case_prod_unfold)
  have len: "zcard ?ix w' = zcard ?ix w1 - n"
    using trim_ids [OF d1, of n] by (simp add: zcard_def z2)
  show "int (zcard ?ix w') \<le> report_retain_limit C"
    using cap unfolding len n_def by linarith
  have d2: "distinct (map fst (zget ?ix w'))"
    using d1 unfolding z2 by (rule distinct_map_filter)
  then show "reports_ok C w'"
    using ok1 unfolding reports_ok_def z2 g2 by (auto simp: case_prod_unfold image_iff; force)
  have lt: "the (map_of ?z1 m) < now E w" if "m \<in> fst ` set ?z1" "m \<noteq> ?new" for m
  proof -
    have "m \<in> fst ` set ?z" using that set1 by auto
    then obtain sc where "map_of ?z m = Some sc" "(m, sc) \<in> set ?z"
      by (metis map_of_SomeD map_of_eq_None_iff option.exhaust)
    then show ?thesis using newest that(2) map1 by auto
  qed
  have order: "the (map_of ?z1 a) \<le> the (map_of ?z1 b)" if ag: "a \<in> ?gone" and bk: "b \<in> fst ` set ?z1 - ?gone" for a b
  proof -
    obtain i where "i < length (take n (zorder ?z1))" "take n (zorder ?z1) ! i = a"
      using ag unfolding in_set_conv_nth by blast
    then have i: "i < n" "i < length ?z1" "a = zorder ?z1 ! i" by simp_all
    obtain j where j: "j < length ?z1" "b = zorder ?z1 ! j"
      using bk by (metis DiffD1 in_set_conv_nth length_zorder set_zorder)
    have "\<not> j < n" using bk j by (auto simp: in_set_conv_nth)
    then show ?thesis using zorder_scores [OF d1, of i j] i j by simp
  qed
  have kept: "?new \<notin> ?gone"
  proof
    assume a: "?new \<in> ?gone"
    have "0 < length ?z1 - n"
      using cap a unfolding n_def zcard_def by (cases "?z1") auto
    then have "filter (\<lambda>(m, sc). m \<notin> ?gone) ?z1 \<noteq> []"
      using trim_ids [OF d1, of n] by (metis length_0_conv less_irrefl)
    then obtain p where "p \<in> set ?z1" "fst p \<notin> ?gone"
      by (auto simp: filter_empty_conv case_prod_unfold)
    then have b: "fst p \<in> fst ` set ?z1 - ?gone" by simp
    then have "now E w \<le> the (map_of ?z1 (fst p))"
      using order [OF a b] map1 by simp
    moreover have "fst p \<noteq> ?new" using a b by (metis DiffD2)
    ultimately show False using lt [of "fst p"] b by simp
  qed
  then show "get_report C ?new w' = Some doc" using g1 g2 by simp
  assume i: "get_report C i w \<noteq> None" "get_report C i w' = None" and j: "get_report C j w' \<noteq> None"
  have ine: "i \<noteq> ?new" using i new by auto
  have "i \<in> ?gone" using i g1 g2 by (metis option.distinct(1))
  moreover have "j \<in> fst ` set ?z1 - ?gone"
    using j g2 [of j] ok1 unfolding reports_ok_def by (auto split: if_splits)
  moreover have "map_of (zget ?ix w') j = map_of ?z1 j"
  proof -
    obtain sc where sc: "(j, sc) \<in> set ?z1" "j \<notin> ?gone" using calculation(2) by auto
    then have "(j, sc) \<in> set (zget ?ix w')" unfolding z2 by simp
    then show ?thesis using sc(1) d1 d2 by (metis map_of_is_SomeI)
  qed
  moreover have "map_of ?z1 i = map_of ?z i" using map1 ine by simp
  ultimately show "the (report_score C w i) \<le> the (report_score C w' j)"
    using order [of i j] by (simp add: report_score_def)
qed

end
