(* ===== verification/ReportProps.thy ===== *)
theory ReportProps
  imports Reports
begin

text \<open>
  No field of a plan, check, run or job reaches the markup of a report: the tags of the page, as
  a scanner of angle brackets reads them, are fixed by the shape of the report alone. Then a
  concrete report store for the retention theorem.
\<close>

subsection \<open>Tags\<close>

text \<open>The text inside angle brackets; the state of the scanner is whether it is inside a tag.\<close>

fun tag_text :: "bool \<Rightarrow> string \<Rightarrow> string" where
  "tag_text b [] = []"
| "tag_text b (c # s) =
     (if c = CHR ''<'' then c # tag_text True s
      else if c = CHR ''>'' then c # tag_text False s
      else if b then c # tag_text b s else tag_text b s)"

fun tag_end :: "bool \<Rightarrow> string \<Rightarrow> bool" where
  "tag_end b [] = b"
| "tag_end b (c # s) =
     (if c = CHR ''<'' then tag_end True s else if c = CHR ''>'' then tag_end False s else tag_end b s)"

lemma tag_append [simp]:
  "tag_text b (x @ y) = tag_text b x @ tag_text (tag_end b x) y"
  "tag_end b (x @ y) = tag_end (tag_end b x) y"
  by (induction x arbitrary: b) simp_all

lemma tag_plain:
  assumes "CHR ''<'' \<notin> set s" "CHR ''>'' \<notin> set s"
  shows "tag_text False s = []" "tag_end b s = b"
  using assms by (induction s arbitrary: b) auto

lemma html_escape_plain: "CHR ''<'' \<notin> set (html_escape s)" "CHR ''>'' \<notin> set (html_escape s)"
  by (auto simp: html_escape_def html_char_def split: if_splits)

lemma str_of_nat_plain: "CHR ''<'' \<notin> set (str_of_nat n)" "CHR ''>'' \<notin> set (str_of_nat n)"
  using str_of_nat_digits [of "CHR ''<''" n] str_of_nat_digits [of "CHR ''>''" n]
  by (auto simp: is_digit_def less_eq_char_def)

lemma str_of_int_plain: "CHR ''<'' \<notin> set (str_of_int i)" "CHR ''>'' \<notin> set (str_of_int i)"
  using str_of_nat_plain by (auto simp: str_of_int_def)

lemma tag_escape [simp]: "tag_text False (html_escape s) = []" "tag_end b (html_escape s) = b"
  by (rule tag_plain, rule html_escape_plain, rule html_escape_plain)+

lemma tag_int [simp]: "tag_text False (str_of_int i) = []" "tag_end b (str_of_int i) = b"
  by (rule tag_plain, rule str_of_int_plain, rule str_of_int_plain)+

lemma tag_yes_no [simp]: "tag_text False (yes_no b) = []" "tag_end c (yes_no b) = c"
  by (simp_all add: yes_no_def)

lemma tag_class [simp]:
  "tag_text True (level_class l) = level_class l" "tag_end b (level_class l) = b"
  "tag_text True (state_class l) = state_class l" "tag_end b (state_class l) = b"
  by (simp_all add: level_class_def state_class_def)

lemma tag_concat:
  assumes "\<And>x. x \<in> set xs \<Longrightarrow> \<not> tag_end False (f x)"
  shows "tag_text False (concat (map f xs)) = concat (map (\<lambda>x. tag_text False (f x)) xs)"
    "\<not> tag_end False (concat (map f xs))"
  using assms by (induction xs) simp_all

lemma tag_dq [simp]: "tag_end b (dq s) = tag_end b s"
  by (simp add: dq_def)

lemma tag_no_rows [simp]: "\<not> tag_end False (no_rows n w)"
  using tag_plain [OF str_of_nat_plain] by (simp add: no_rows_def dq_def)

lemma tag_check_item:
  "tag_text False (check_item_html i) =
     ''<tr><td class='' @ dq (level_class (str_of_key i ''level'')) @
     ''></td><td><code></code></td><td></td><td class='' @ dq ''muted'' @ ''></td></tr>''"
  "\<not> tag_end False (check_item_html i)"
  by (simp_all add: check_item_html_def dq_def)

lemma tag_job:
  "tag_text False (job_html j) =
     ''<tr><td></td><td></td><td></td><td></td><td class='' @ dq (state_class (str_of_key j ''state'')) @
     ''></td><td><code></code></td><td class='' @ dq ''err'' @ ''></td></tr>''"
  "\<not> tag_end False (job_html j)"
  by (simp_all add: job_html_def dq_def Let_def)

lemma tag_head [simp]: "\<not> tag_end False page_head"
  by (simp add: page_head_def dq_def)

lemma page_style_plain: "CHR ''<'' \<notin> set page_style" "CHR ''>'' \<notin> set page_style"
  by (simp_all add: page_style_def)

lemma tag_style [simp]: "tag_text False page_style = []" "tag_end b page_style = b"
  by (rule tag_plain, rule page_style_plain, rule page_style_plain)+

lemma tag_page:
  "\<not> tag_end False b1 \<Longrightarrow> \<not> tag_end False b2 \<Longrightarrow> tag_text False b1 = tag_text False b2 \<Longrightarrow>
     tag_text False (html_page t1 b1) = tag_text False (html_page t2 b2)"
  by (simp add: html_page_def)

lemma tag_size_lines:
  assumes "check_size_lines c = Inr (md, ls)"
  shows "tag_text False (concat ls) = (if is_dict (dget c ''size_summary'') then ''<li></li><li></li>'' else [])"
    "\<not> tag_end False (concat ls)"
  using assms by (auto simp: check_size_lines_def Let_def split: pyval.splits)

lemma tag_check_body:
  assumes "\<not> tag_end False (concat l1)" "\<not> tag_end False (concat l2)"
    "tag_text False (concat l1) = tag_text False (concat l2)"
    "truthy (dget c1 ''ok'') = truthy (dget c2 ''ok'')"
    "map (\<lambda>i. level_class (str_of_key i ''level'')) (check_items c1) =
       map (\<lambda>i. level_class (str_of_key i ''level'')) (check_items c2)"
  shows "tag_text False (check_body p1 c1 l1 n1) = tag_text False (check_body p2 c2 l2 n2)"
    "\<not> tag_end False (check_body p1 c1 l1 n1)"
proof -
  have rows: "concat (map (\<lambda>i. tag_text False (check_item_html i)) (check_items c1)) =
      concat (map (\<lambda>i. tag_text False (check_item_html i)) (check_items c2))"
  proof -
    let ?g = "\<lambda>k. ''<tr><td class='' @ dq k @ ''></td><td><code></code></td><td></td><td class='' @ dq ''muted'' @ ''></td></tr>''"
    have "map (\<lambda>i. tag_text False (check_item_html i)) xs =
        map ?g (map (\<lambda>i. level_class (str_of_key i ''level'')) xs)" for xs
      by (simp only: map_map o_def tag_check_item(1))
    from this [of "check_items c1"] this [of "check_items c2"] assms(5) show ?thesis by (simp only:)
  qed
  have empty: "check_items c1 = [] \<longleftrightarrow> check_items c2 = []"
    using arg_cong [OF assms(5), of "\<lambda>l. l = []"] by simp
  note tc = tag_concat [of _ check_item_html, OF tag_check_item(2)]
  show "tag_text False (check_body p1 c1 l1 n1) = tag_text False (check_body p2 c2 l2 n2)"
    using assms(1-4) empty rows
    by (simp add: check_body_def Let_def tc append_Nil del: tag_text.simps append.simps)
  show "\<not> tag_end False (check_body p1 c1 l1 n1)"
    using assms(1) by (simp add: check_body_def Let_def tc del: append.simps)
qed

lemma tag_run_body:
  assumes "map (\<lambda>j. state_class (str_of_key j ''state'')) (rv_jobs v1) =
       map (\<lambda>j. state_class (str_of_key j ''state'')) (rv_jobs v2)"
    "pr_error (rv_run v1) = [] \<longleftrightarrow> pr_error (rv_run v2) = []"
  shows "tag_text False (run_body p1 v1 r1) = tag_text False (run_body p2 v2 r2)"
    "\<not> tag_end False (run_body p1 v1 r1)"
proof -
  have rows: "concat (map (\<lambda>j. tag_text False (job_html j)) (rv_jobs v1)) =
      concat (map (\<lambda>j. tag_text False (job_html j)) (rv_jobs v2))"
  proof -
    let ?g = "\<lambda>k. ''<tr><td></td><td></td><td></td><td></td><td class='' @ dq k @
      ''></td><td><code></code></td><td class='' @ dq ''err'' @ ''></td></tr>''"
    have "map (\<lambda>j. tag_text False (job_html j)) xs =
        map ?g (map (\<lambda>j. state_class (str_of_key j ''state'')) xs)" for xs
      by (simp only: map_map o_def tag_job(1))
    from this [of "rv_jobs v1"] this [of "rv_jobs v2"] assms(1) show ?thesis by (simp only:)
  qed
  have empty: "rv_jobs v1 = [] \<longleftrightarrow> rv_jobs v2 = []"
    using arg_cong [OF assms(1), of "\<lambda>l. l = []"] by simp
  have kind: "tag_text False ''drill'' = tag_text False ''recovery''" by simp
  have head: "tag_text False (run_body_head v1) = tag_text False (run_body_head v2)"
    "\<not> tag_end False (run_body_head v)" for v
    by (simp_all add: run_body_head_def Let_def append_Nil kind del: tag_text.simps append.simps)
  have tail: "tag_text False (run_body_tail v1 r1) = tag_text False (run_body_tail v2 r2)"
    "\<not> tag_end False (run_body_tail v r)" for v r
    using assms(2)
    by (simp_all add: run_body_tail_def Let_def append_Nil dq_def del: tag_text.simps append.simps)
  note tc = tag_concat [of _ job_html, OF tag_job(2)]
  show "tag_text False (run_body p1 v1 r1) = tag_text False (run_body p2 v2 r2)"
    using empty rows head tail
    by (simp add: run_body_def tc append_Nil del: tag_text.simps append.simps)
  show "\<not> tag_end False (run_body p1 v1 r1)"
    using head tail by (simp add: run_body_def tc del: append.simps)
qed

subsection \<open>Properties\<close>

text \<open>C38: nothing a plan, a readiness check, a run or a job contains reaches the markup of a
  report. Two checks with the same outcome, the same levels of their items and both with or both
  without sizes have the same tags, whatever their texts; and so have two runs whose jobs are
  in the same states and that both have an error or both none.\<close>

theorem report_markup_fixed:
  "(render_check_report p1 c1 = Inr r1 \<and> render_check_report p2 c2 = Inr r2 \<and>
     truthy (dget c1 ''ok'') = truthy (dget c2 ''ok'') \<and>
     is_dict (dget c1 ''size_summary'') = is_dict (dget c2 ''size_summary'') \<and>
     map (\<lambda>i. level_class (str_of_key i ''level'')) (check_items c1) =
       map (\<lambda>i. level_class (str_of_key i ''level'')) (check_items c2)
     \<longrightarrow> tag_text False (rd_html r1) = tag_text False (rd_html r2)) \<and>
   (render_run_report q1 v1 = Inr r3 \<and> render_run_report q2 v2 = Inr r4 \<and>
     map (\<lambda>j. state_class (str_of_key j ''state'')) (rv_jobs v1) =
       map (\<lambda>j. state_class (str_of_key j ''state'')) (rv_jobs v2) \<and>
     (pr_error (rv_run v1) = [] \<longleftrightarrow> pr_error (rv_run v2) = [])
     \<longrightarrow> tag_text False (rd_html r3) = tag_text False (rd_html r4))"
proof (intro conjI impI)
  assume a: "render_check_report p1 c1 = Inr r1 \<and> render_check_report p2 c2 = Inr r2 \<and>
     truthy (dget c1 ''ok'') = truthy (dget c2 ''ok'') \<and>
     is_dict (dget c1 ''size_summary'') = is_dict (dget c2 ''size_summary'') \<and>
     map (\<lambda>i. level_class (str_of_key i ''level'')) (check_items c1) =
       map (\<lambda>i. level_class (str_of_key i ''level'')) (check_items c2)"
  then obtain m1 l1 n1 m2 l2 n2 where 1: "check_size_lines c1 = Inr (m1, l1)"
      "rd_html r1 = html_page (''Readiness check '' @ em_dash @ '' '' @ plan_title p1) (check_body p1 c1 l1 n1)"
    and 2: "check_size_lines c2 = Inr (m2, l2)"
      "rd_html r2 = html_page (''Readiness check '' @ em_dash @ '' '' @ plan_title p2) (check_body p2 c2 l2 n2)"
    unfolding render_check_report_def Let_def res_bind_eq_Inr by fastforce
  note s1 = tag_size_lines [OF 1(1)] and s2 = tag_size_lines [OF 2(1)]
  have "tag_text False (concat l1) = tag_text False (concat l2)" using s1(1) s2(1) a by simp
  then show "tag_text False (rd_html r1) = tag_text False (rd_html r2)"
    unfolding 1(2) 2(2) using a s1(2) s2(2) by (intro tag_page tag_check_body) auto
next
  assume a: "render_run_report q1 v1 = Inr r3 \<and> render_run_report q2 v2 = Inr r4 \<and>
     map (\<lambda>j. state_class (str_of_key j ''state'')) (rv_jobs v1) =
       map (\<lambda>j. state_class (str_of_key j ''state'')) (rv_jobs v2) \<and>
     (pr_error (rv_run v1) = [] \<longleftrightarrow> pr_error (rv_run v2) = [])"
  then obtain t1 x1 t2 x2 where 1: "rd_html r3 = html_page t1 (run_body q1 v1 x1)"
    and 2: "rd_html r4 = html_page t2 (run_body q2 v2 x2)"
    unfolding render_run_report_def Let_def res_bind_eq_Inr by fastforce
  show "tag_text False (rd_html r3) = tag_text False (rd_html r4)"
    unfolding 1 2 using a by (intro tag_page tag_run_body) auto
qed

definition demo_check :: dict where
  "demo_check = [(''ok'', PBool True), (''items'', PList [PDict [(''level'', PStr ''ok'')]])]"

definition demo_view :: "string \<Rightarrow> run_view" where
  "demo_view err = \<lparr>rv_run = (demo_run R_FAILED [[''j1'']])\<lparr>pr_error := err\<rparr>,
     rv_jobs = [[(''state'', PStr ''FAILED'')]], rv_job_count = 1, rv_completed = 0, rv_failed = 1,
     rv_rto = None, rv_rto_text = em_dash\<rparr>"

theorem report_markup_fixed_witness:
  "\<exists>r1 r2 r3 r4. render_check_report [(''name'', PStr ''<script>'')] demo_check = Inr r1 \<and>
     render_check_report [] demo_check = Inr r2 \<and>
     render_run_report None (demo_view ''<b>'') = Inr r3 \<and> render_run_report None (demo_view ''x'') = Inr r4 \<and>
     tag_text False (rd_html r1) = tag_text False (rd_html r2) \<and>
     tag_text False (rd_html r3) = tag_text False (rd_html r4)"
proof -
  have sizes: "check_size_lines demo_check = Inr ([], [])" "int_or_zero demo_check ''member_count'' = Inr 0"
    by (simp_all add: check_size_lines_def demo_check_def int_or_zero_def py_or_def)
  obtain r1 r2 where 1: "render_check_report [(''name'', PStr ''<script>'')] demo_check = Inr r1"
      "render_check_report [] demo_check = Inr r2"
    by (simp add: render_check_report_def sizes Let_def)
  have "wall_clock_rto_sec (rn_started_at demo_params) [] = Inr None"
    by (simp add: wall_clock_rto_sec_def parse_iso_def strip_def lstrip_def rstrip_def split: option.split)
  then obtain r3 r4 where 2: "render_run_report None (demo_view ''<b>'') = Inr r3"
      "render_run_report None (demo_view ''x'') = Inr r4"
    by (simp add: render_run_report_def demo_view_def demo_run_def Let_def)
  have "rv_jobs (demo_view e) = [[(''state'', PStr ''FAILED'')]]" "pr_error (rv_run (demo_view e)) = e" for e
    by (simp_all add: demo_view_def)
  then show ?thesis
    using report_markup_fixed [of "[(''name'', PStr ''<script>'')]" demo_check r1 "[]" demo_check r2
        None "demo_view ''<b>''" r3 None "demo_view ''x''" r4] 1 2
    by (intro exI [of _ r1] exI [of _ r2] exI [of _ r3] exI [of _ r4]) simp
qed

text \<open>C37: the report store keeps the newest reports, at most the retention limit of them. When
  the new report is newer than all others, saving it keeps the index and the documents in
  agreement, leaves at most \<open>report_retain_limit\<close> reports, keeps the new one, and every report
  that is dropped is no newer than every report that is kept.\<close>

theorem report_retention:
  assumes "reports_ok C w" "\<forall>p \<in> set (zget (reports_index C) w). snd p < now E w"
    "get_report C (uuid E (uuids w)) w = None"
    "save_report E C kind pid pname rep meta w = (doc, w')"
  shows "reports_ok C w' \<and> int (zcard (reports_index C) w') \<le> report_retain_limit C \<and>
    get_report C (uuid E (uuids w)) w' = Some doc \<and>
    (\<forall>i j. get_report C i w \<noteq> None \<and> get_report C i w' = None \<and> get_report C j w' \<noteq> None \<longrightarrow>
      the (report_score C w i) \<le> the (report_score C w' j))"
  using report_retention_facts [OF assms] by blast

definition demo_report_env :: env where
  "demo_report_env = \<lparr>api = \<lambda>cs c. Inl (ApiError []), clock = \<lambda>cs. 5, iso = \<lambda>cs. ''2026-05-02T00:00:00Z'',
     uuid = (\<lambda>n. if n = 0 then ''a'' else ''b''), cancel_by = \<lambda>cs j. False, fuel = 1\<rparr>"

definition demo_report_cfg :: cfg where
  "demo_report_cfg = demo_cfg\<lparr>worker_cfg := [(''report_retain'', PInt 1)]\<rparr>"

definition demo_report_world :: world where
  "demo_report_world = empty_world\<lparr>uuids := 1, docs := [(''restore:report:a'', [(''id'', PStr ''a'')])],
     zsets := [(''restore:reports'', [(''a'', 3)])]\<rparr>"

theorem report_retention_witness:
  "\<exists>doc w'. save_report demo_report_env demo_report_cfg ''run'' [] [] \<lparr>rd_title = [], rd_markdown = [], rd_html = []\<rparr>
      [] demo_report_world = (doc, w') \<and> zcard ''restore:reports'' w' \<le> 1 \<and>
      get_report demo_report_cfg ''b'' w' = Some doc \<and> reports_ok demo_report_cfg w'"
proof -
  obtain doc w' where s: "save_report demo_report_env demo_report_cfg ''run'' [] []
      \<lparr>rd_title = [], rd_markdown = [], rd_html = []\<rparr> [] demo_report_world = (doc, w')"
    by (cases "save_report demo_report_env demo_report_cfg ''run'' [] []
      \<lparr>rd_title = [], rd_markdown = [], rd_html = []\<rparr> [] demo_report_world")
  have ix: "reports_index demo_report_cfg = ''restore:reports''" and cap: "report_retain_limit demo_report_cfg = 1"
    by (simp_all add: reports_index_def redis_name_def demo_report_cfg_def demo_cfg_def report_retain_limit_def dget_or_def)
  have z: "zget ''restore:reports'' demo_report_world = [(''a'', 3)]"
    by (simp add: zget_def demo_report_world_def)
  have g: "get_report demo_report_cfg i demo_report_world = (if i = ''a'' then Some [(''id'', PStr ''a'')] else None)" for i
    by (simp add: get_report_def get_doc_def report_key_def redis_name_def demo_report_world_def
        demo_report_cfg_def demo_cfg_def dget_or_def)
  have id: "uuid demo_report_env (uuids demo_report_world) = ''b''" "now demo_report_env demo_report_world = 5"
    by (simp_all add: demo_report_env_def demo_report_world_def now_def)
  have "reports_ok demo_report_cfg demo_report_world" by (auto simp: reports_ok_def ix z g)
  from report_retention [OF this _ _ s] show ?thesis
    using s by (auto simp: ix z g id cap)
qed

end
