(* ===== verification/Teardown.thy ===== *)
theory Teardown
  imports Reports
begin

text \<open>
  Plan runs as documents (\<open>save_plan_run\<close>, \<open>get_plan_run\<close>, \<open>list_plan_runs\<close>) and their
  teardown: the targets a run restored (\<open>collect_plan_run_targets\<close>), the ids it has provenance
  for, and the destruction of the guests (\<open>teardown_plan_run\<close>) with the functions the program
  calls by default, \<open>find_qemu_node\<close> and \<open>destroy_owned_qemu_vm\<close>.
\<close>

subsection \<open>Saving and listing runs\<close>

definition get_plan_run :: "cfg \<Rightarrow> string \<Rightarrow> world \<Rightarrow> plan_run option" where
  "get_plan_run C i w = map_of (run_docs w) (plan_run_key C i)"

definition put_run :: "string \<Rightarrow> plan_run \<Rightarrow> world \<Rightarrow> world" where
  "put_run key run w = w\<lparr>run_docs := AList.update key run (run_docs w)\<rparr>"

definition store_run :: "env \<Rightarrow> cfg \<Rightarrow> plan_run \<Rightarrow> world \<Rightarrow> world" where
  "store_run E C run w =
     (let run' = run\<lparr>pr_updated_at := utc_now_iso E w\<rparr>;
          w1 = sadd (plan_runs_index C) (pr_id run) (put_run (plan_run_key C (pr_id run)) run' w)
      in if pr_status run = R_RUNNING then sadd (active_plan_runs_key C) (pr_id run) w1
         else srem (active_plan_runs_key C) (pr_id run) w1)"

definition save_run :: "env \<Rightarrow> cfg \<Rightarrow> plan_run \<Rightarrow> (world, unit) act" where
  "save_run E C run w = (Inr (), store_run E C run w)"

definition list_plan_runs :: "cfg \<Rightarrow> string \<Rightarrow> int \<Rightarrow> world \<Rightarrow> plan_run list" where
  "list_plan_runs C plan_id cap w =
     (let runs = List.map_filter (\<lambda>i. get_plan_run C i w) (sort (smembers (plan_runs_index C) w));
          mine = (if plan_id = [] then runs else filter (\<lambda>r. rn_plan_id (pr_params r) = plan_id) runs)
      in take (nat (max 1 cap)) (rev (sort_key (\<lambda>r. rn_started_at (pr_params r)) (rev mine))))"

text \<open>The version in the store if there is one: \<open>get_plan_run(...) or run\<close>\<close>

definition reload :: "cfg \<Rightarrow> plan_run \<Rightarrow> world \<Rightarrow> plan_run" where
  "reload C run w = (case get_plan_run C (pr_id run) w of None \<Rightarrow> run | Some r \<Rightarrow> r)"

subsection \<open>Targets\<close>

definition note_target :: "int \<times> string \<Rightarrow> (int \<times> string) list \<Rightarrow> (int \<times> string) list" where
  "note_target = (\<lambda>(v, node) m.
     if v \<le> 0 then m
     else (case map_of m v of
             None \<Rightarrow> AList.update v node m
           | Some n \<Rightarrow> if node \<noteq> [] \<and> n = [] then AList.update v node m else m))"

definition job_target_of :: "cfg \<Rightarrow> world \<Rightarrow> string \<Rightarrow> (int \<times> string) option" where
  "job_target_of C w job_id =
     (let data = hgetall (job_key C job_id) w in
      case hash_int data ''proxmox_vmid'' of
        Inl e \<Rightarrow> None | Inr v \<Rightarrow> Some (v, strip (hfield data ''proxmox_node'')))"

definition all_job_ids :: "plan_run \<Rightarrow> string list" where
  "all_job_ids run = concat (pr_jobs run)"

definition collect_plan_run_targets :: "cfg \<Rightarrow> plan_run \<Rightarrow> world \<Rightarrow> (int \<times> string) list" where
  "collect_plan_run_targets C run w =
     (let m1 = fold (\<lambda>(v, n). note_target (v, strip n)) (pr_targets run) [];
          m = fold note_target (List.map_filter (job_target_of C w) (all_job_ids run)) m1
      in map (\<lambda>v. (v, the (map_of m v))) (sort (map fst m)))"

text \<open>The ids of the jobs that started a restore\<close>

definition provenance_of :: "cfg \<Rightarrow> world \<Rightarrow> string \<Rightarrow> int option" where
  "provenance_of C w job_id =
     (let data = hgetall (job_key C job_id) w in
      if hfield data ''pve_upid'' \<noteq> [] \<or> hfield data ''restore_started_at'' \<noteq> [] \<or>
         hfield data ''managed_marked'' = ''1''
      then (case map_of data ''proxmox_vmid'' of
              None \<Rightarrow> None
            | Some s \<Rightarrow> (case py_int (PStr s) of Inl e \<Rightarrow> None | Inr v \<Rightarrow> Some v))
      else None)"

definition provenance_vmids :: "cfg \<Rightarrow> plan_run \<Rightarrow> world \<Rightarrow> int list" where
  "provenance_vmids C run w = List.map_filter (provenance_of C w) (all_job_ids run)"

subsection \<open>Teardown\<close>

text \<open>A guest that is missing already is a success.\<close>

definition already_gone :: "string \<Rightarrow> bool" where
  "already_gone msg \<longleftrightarrow>
     (let m = lower msg in contains ''does not exist'' m \<or> contains ''no such'' m \<or>
        contains ''not found'' m \<or> contains ''absent'' m)"

definition teardown_failure :: "int \<Rightarrow> string \<Rightarrow> exn \<Rightarrow> teardown_entry" where
  "teardown_failure v node e =
     (case e of
        GuestOwnershipError m \<Rightarrow> \<lparr>te_vmid = v, te_node = node, te_ok = False, te_error = m\<rparr>
      | _ \<Rightarrow> if already_gone (exn_str e)
             then \<lparr>te_vmid = v, te_node = node, te_ok = True, te_error = ''already gone''\<rparr>
             else \<lparr>te_vmid = v, te_node = node, te_ok = False, te_error = exn_str e\<rparr>)"

definition target_node :: "env \<Rightarrow> int \<Rightarrow> string \<Rightarrow> (world, string) act" where
  "target_node E v node =
     (if node \<noteq> [] then ret_act node
      else bind_act (find_qemu_node E v) (\<lambda>found. ret_act (case found of None \<Rightarrow> [] | Some n \<Rightarrow> n)))"

text \<open>The entry of an exception in the search for the node has the node as it was, empty.\<close>

definition teardown_one :: "env \<Rightarrow> int list \<Rightarrow> int \<times> string \<Rightarrow> (world, teardown_entry) act" where
  "teardown_one E provenance = (\<lambda>(v, node0).
     let node = strip node0 in
     catch_act
       (bind_act (target_node E v node) (\<lambda>n.
          if n = [] then ret_act \<lparr>te_vmid = v, te_node = [], te_ok = False, te_error = ''node unknown''\<rparr>
          else catch_act
            (bind_act (destroy_owned_qemu_vm E n v (v \<in> set provenance) True True)
               (\<lambda>_. ret_act \<lparr>te_vmid = v, te_node = n, te_ok = True, te_error = []\<rparr>))
            (\<lambda>e. ret_act (teardown_failure v n e))))
       (\<lambda>e. ret_act (teardown_failure v node e)))"

definition teardown_outcome :: "teardown_entry list \<Rightarrow> string" where
  "teardown_outcome results =
     (let ok_count = length (filter te_ok results) in
      if results = [] then ''completed''
      else if ok_count = length results then ''completed''
      else if ok_count = 0 then ''failed'' else ''partial'')"

definition teardown_running_error :: exn where
  "teardown_running_error = ValueError ''Cannot teardown a RUNNING plan run; cancel or wait for it to finish''"

definition teardown_plan_run :: "env \<Rightarrow> cfg \<Rightarrow> plan_run \<Rightarrow> (world, plan_run) act" where
  "teardown_plan_run E C run = (\<lambda>w.
     if pr_teardown_status run = ''completed'' then (Inr run, w)
     else if pr_status run = R_RUNNING then (Inl teardown_running_error, w)
     else
       let targets = collect_plan_run_targets C run w; provenance = provenance_vmids C run w in
       bind_act (if targets = [] then ret_act () else bind_act (connect_proxmox E C) (\<lambda>_. ret_act ())) (\<lambda>_.
       bind_act (map_act (teardown_one E provenance) targets) (\<lambda>results.
       bind_act (get_act (utc_now_iso E)) (\<lambda>stamp.
       let run' = run\<lparr>pr_teardown_status := teardown_outcome results, pr_teardown_results := results,
                      pr_teardown_at := stamp\<rparr>
       in bind_act (save_run E C run') (\<lambda>_. ret_act run')))) w)"

text \<open>The form with a run id\<close>

definition not_found_error :: "string \<Rightarrow> exn" where
  "not_found_error i = ValueError (''Plan run not found: '' @ i)"

definition teardown_plan_run_id :: "env \<Rightarrow> cfg \<Rightarrow> string \<Rightarrow> (world, plan_run) act" where
  "teardown_plan_run_id E C i = (\<lambda>w.
     case get_plan_run C i w of
       None \<Rightarrow> (Inl (not_found_error i), w) | Some run \<Rightarrow> teardown_plan_run E C run w)"

subsection \<open>Lemmas: saving\<close>

lemma run_docs_put [simp]: "run_docs (put_run key run w) = AList.update key run (run_docs w)"
  by (simp add: put_run_def)

lemma put_run_frame [simp]:
  "get_doc k (put_run key run w) = get_doc k w" "smembers k (put_run key run w) = smembers k w"
  "hashes (put_run key run w) = hashes w" "rlists (put_run key run w) = rlists w"
  "calls (put_run key run w) = calls w" "uuids (put_run key run w) = uuids w"
  "strs (put_run key run w) = strs w" "zsets (put_run key run w) = zsets w"
  by (simp_all add: put_run_def get_doc_def smembers_def)

lemma set_frame_more [simp]:
  "strs (sadd k x w) = strs w" "strs (srem k x w) = strs w"
  "zsets (sadd k x w) = zsets w" "zsets (srem k x w) = zsets w"
  by (simp_all add: sadd_def srem_def)

lemma store_run_frame [simp]:
  "get_doc k (store_run E C run w) = get_doc k w"
  "hashes (store_run E C run w) = hashes w" "rlists (store_run E C run w) = rlists w"
  "calls (store_run E C run w) = calls w" "uuids (store_run E C run w) = uuids w"
  "strs (store_run E C run w) = strs w" "zsets (store_run E C run w) = zsets w"
  by (simp_all add: store_run_def Let_def)

lemma get_store_run [simp]:
  "get_plan_run C i (store_run E C run w) =
     (if i = pr_id run then Some (run\<lparr>pr_updated_at := utc_now_iso E w\<rparr>) else get_plan_run C i w)"
  by (simp add: get_plan_run_def store_run_def Let_def update_conv')

lemma hgetall_hashes: "hashes v = hashes w \<Longrightarrow> hgetall k v = hgetall k w"
  by (simp add: hgetall_def)

end
