(* ===== verification/PlanRuns.thy ===== *)
theory PlanRuns
  imports Teardown QueueCtl
begin

text \<open>
  The life of a plan run (\<open>plans.py\<close>): its start, the assurance policy of drills, what happens
  when it becomes terminal (report, teardown, assurance, notification), the advance from group to
  group by the worker, and the cancellation. The enqueue function is an argument of
  \<open>start_plan_run\<close> and \<open>advance_plan_runs\<close>, as it is in the code. Plans and locations are read in the form in
  which \<open>Entities\<close> stores them.
\<close>

type_synonym enqueue_fn = "dict list \<Rightarrow> enqueue_args \<Rightarrow> (world, enqueue_result) act"

subsection \<open>Assurance\<close>

definition is_one :: "pyval \<Rightarrow> bool" where
  "is_one v \<longleftrightarrow> v \<in> {PStr ''1'', PBool True, PInt 1}"

text \<open>What the policy says of the jobs: \<open>None\<close> when they pass\<close>

definition qga_problem :: "dict list \<Rightarrow> string option" where
  "qga_problem jobs =
     (if jobs = [] then Some ''no jobs to verify QGA''
      else if \<exists>j \<in> set jobs. \<not> is_one (dget j ''qga_ok'')
      then Some ''QGA check failed or missing on one or more jobs'' else None)"

fun http_job_problem :: "dict list \<Rightarrow> string option" where
  "http_job_problem [] = None"
| "http_job_problem (j # js) =
     (if strip (str_or_empty (dget j ''http_check_url'')) = []
      then Some ''HTTP check required but no http_check_url on jobs''
      else if \<not> is_one (dget j ''http_check_ok'')
      then Some ''HTTP check failed or missing on one or more jobs'' else http_job_problem js)"

definition http_problem :: "dict list \<Rightarrow> string option" where
  "http_problem jobs = (if jobs = [] then Some ''no jobs to verify HTTP'' else http_job_problem jobs)"

definition max_rto_of :: "dict \<Rightarrow> int" where
  "max_rto_of plan = max 0 (py_int_or (py_or (dget plan ''assurance_max_rto_sec'') (PInt 0)) 0)"

definition rto_exceeds :: "int option \<Rightarrow> int \<Rightarrow> bool" where
  "rto_exceeds rto m \<longleftrightarrow> 0 < m \<and> (case rto of None \<Rightarrow> True | Some n \<Rightarrow> m < n)"

definition job_warning :: "dict \<Rightarrow> string option" where
  "job_warning j =
     (let warn = strip (str_or_empty (dget j ''hostname_warning'')) in
      if warn \<noteq> [] then Some warn
      else if dget j ''hostname_match'' = PStr ''0''
      then Some (''hostname mismatch on VMID '' @ py_str (py_or (dget j ''proxmox_vmid'') (dget j ''job_id'')))
      else None)"

definition assured_detail :: "dict list \<Rightarrow> string" where
  "assured_detail jobs =
     (let warnings = List.map_filter job_warning jobs in
      ''drill completed within policy'' @
      (if warnings \<noteq> [] then ''; warnings: '' @ join_on ''; '' warnings else []))"

text \<open>The verdict on a run of an assured plan, \<open>Inl\<close> the detail of a failure\<close>

definition policy_verdict :: "dict \<Rightarrow> plan_run \<Rightarrow> dict list \<Rightarrow> int option \<Rightarrow> string + string" where
  "policy_verdict plan run jobs rto =
     (let tear = pr_teardown_status run in
      if pr_status run \<noteq> R_COMPLETED then Inl (''run status '' @ run_status_value (pr_status run))
      else if rn_auto_teardown (pr_params run) \<and> tear \<noteq> [] \<and> tear \<noteq> ''completed'' then Inl (''teardown '' @ tear)
      else case (if truthy (dget plan ''assurance_require_qga'') then qga_problem jobs else None) of
        Some m \<Rightarrow> Inl m
      | None \<Rightarrow>
          (case (if truthy (dget plan ''assurance_require_http'') then http_problem jobs else None) of
             Some m \<Rightarrow> Inl m
           | None \<Rightarrow>
               if rto_exceeds rto (max_rto_of plan) then
                 Inl (''RTO '' @ (case rto of None \<Rightarrow> ''unknown'' | Some n \<Rightarrow> str_of_int n) @ ''s exceeds max '' @
                   str_of_int (max_rto_of plan) @ ''s'')
               else Inr (assured_detail jobs)))"

definition evaluate_assurance_policy ::
  "dict \<Rightarrow> plan_run \<Rightarrow> dict list \<Rightarrow> exn + plan_assurance \<times> string \<times> int option" where
  "evaluate_assurance_policy plan run jobs =
     res_bind (wall_clock_rto_sec (rn_started_at (pr_params run)) (pr_finished_at run)) (\<lambda>rto.
       if \<not> truthy (dget plan ''assurance_enabled'') then Inr (A_UNKNOWN, ''assurance disabled'', rto)
       else if \<not> rn_drill (pr_params run) then Inr (A_UNKNOWN, ''not a drill run'', rto)
       else case policy_verdict plan run jobs rto of
              Inl detail \<Rightarrow> Inr (A_FAILED, detail, rto)
            | Inr detail \<Rightarrow> Inr (A_ASSURED, detail, rto))"

definition plan_doc_id :: "dict \<Rightarrow> string" where
  "plan_doc_id plan = py_str (dget plan ''id'')"

definition save_plan_doc :: "env \<Rightarrow> cfg \<Rightarrow> dict \<Rightarrow> world \<Rightarrow> world" where
  "save_plan_doc E C d w = snd (save_entity E (plan_key C (plan_doc_id d)) (plans_index C) (plan_doc_id d) d w)"

text \<open>\<open>{**plan, "assurance_status": ..., ...}\<close>\<close>

definition assured_plan ::
  "dict \<Rightarrow> plan_run \<Rightarrow> string \<Rightarrow> plan_assurance \<Rightarrow> string \<Rightarrow> int option \<Rightarrow> dict" where
  "assured_plan plan run stamp status detail rto =
     dput (dput (dput (dput (dput (dput plan
       ''assurance_status'' (PStr (assurance_value status)))
       ''assurance_updated_at'' (PStr stamp))
       ''assurance_last_run_id'' (PStr (pr_id run)))
       ''assurance_last_rto_sec'' (opt_int rto))
       ''assurance_detail'' (PStr detail))
       ''last_run_at'' (py_or (dget plan ''last_run_at'') (PStr (or_default (pr_finished_at run) stamp)))"

definition apply_assurance_from_run :: "env \<Rightarrow> cfg \<Rightarrow> plan_run \<Rightarrow> (world, unit) act" where
  "apply_assurance_from_run E C run = (\<lambda>w.
     if pr_assurance_evaluated run then (Inr (), w)
     else
       let plan = (case get_plan C (rn_plan_id (pr_params run)) w of None \<Rightarrow> [] | Some d \<Rightarrow> d) in
       if plan = [] \<or> \<not> truthy (dget plan ''assurance_enabled'') \<or> \<not> rn_drill (pr_params run)
       then save_run E C (run\<lparr>pr_assurance_evaluated := True\<rparr>) w
       else case aggregate_plan_run C run w of
         Inl e \<Rightarrow> (Inl e, w)
       | Inr v \<Rightarrow>
           (case evaluate_assurance_policy plan run (rv_jobs v) of
              Inl e \<Rightarrow> (Inl e, w)
            | Inr (status, detail, rto) \<Rightarrow>
                save_run E C (run\<lparr>pr_assurance_evaluated := True,
                    pr_assurance_status := assurance_value status, pr_assurance_detail := detail\<rparr>)
                  (save_plan_doc E C (assured_plan plan run (utc_now_iso E w) status detail rto) w)))"

subsection \<open>What happens at the end of a run\<close>

text \<open>The report, in a \<open>try\<close> whose handler passes; the result is the run with its report id.\<close>

definition report_phase :: "env \<Rightarrow> cfg \<Rightarrow> plan_run \<Rightarrow> (world, plan_run) act" where
  "report_phase E C run = (\<lambda>w.
     case aggregate_plan_run C run w of
       Inl e \<Rightarrow> (Inr run, w)
     | Inr v \<Rightarrow>
         let plan = get_plan C (rn_plan_id (pr_params run)) w in
         (case save_run_report E C plan v w of
            (Inl e, w1) \<Rightarrow> (Inr run, w1)
          | (Inr (rid, rto), w1) \<Rightarrow>
              let run' = run\<lparr>pr_report_id := rid, pr_rto_sec := rto\<rparr>; w2 = store_run E C run' w1
              in (Inr run', case plan of
                    None \<Rightarrow> w2
                  | Some d \<Rightarrow> if d = [] \<or> \<not> has_key d ''id'' then w2
                              else save_plan_doc E C (dput d ''last_run_report_id'' (PStr rid)) w2)))"

definition auto_teardown_phase :: "env \<Rightarrow> cfg \<Rightarrow> plan_run \<Rightarrow> (world, unit) act" where
  "auto_teardown_phase E C run =
     (if rn_auto_teardown (pr_params run) \<and> pr_teardown_status run = [] then
        catch_act (bind_act (teardown_plan_run E C run) (\<lambda>_. ret_act ())) (\<lambda>e. ret_act ())
      else ret_act ())"

definition send_plan_run_notification :: "env \<Rightarrow> cfg \<Rightarrow> plan_run \<Rightarrow> (world, unit) act" where
  "send_plan_run_notification E C run =
     bind_act (\<lambda>w. case aggregate_plan_run C run w of
                      Inl e \<Rightarrow> (Inr (), w) | Inr v \<Rightarrow> notify_plan_run_terminal E C v w) (\<lambda>_.
     save_run E C (run\<lparr>pr_notification_sent := True\<rparr>))"

definition close_run :: "env \<Rightarrow> cfg \<Rightarrow> plan_run \<Rightarrow> (world, plan_run) act" where
  "close_run E C run =
     bind_act (auto_teardown_phase E C run) (\<lambda>_.
     bind_act (get_act (reload C run)) (\<lambda>run1.
     bind_act (catch_act (apply_assurance_from_run E C run1) (\<lambda>e. ret_act ())) (\<lambda>_.
     bind_act (get_act (reload C run1)) (\<lambda>run2.
     bind_act (if pr_notification_sent run2 then ret_act () else send_plan_run_notification E C run2) (\<lambda>_.
     get_act (reload C run2))))))"

definition finalize_plan_run_report :: "env \<Rightarrow> cfg \<Rightarrow> plan_run \<Rightarrow> (world, plan_run) act" where
  "finalize_plan_run_report E C run =
     (if pr_report_id run \<noteq> [] then close_run E C run
      else bind_act (report_phase E C run) (close_run E C))"

subsection \<open>Starting a run\<close>

record start_args =
  sa_drill :: bool
  sa_auto_teardown :: bool
  sa_powered_off :: "bool option"
  sa_power_on :: bool
  sa_qga_wait_sec :: int
  sa_overwrite :: bool

text \<open>Whether the guests are powered on, and how long to wait for the guest agent\<close>

definition start_power :: "dict \<Rightarrow> start_args \<Rightarrow> bool \<times> int" where
  "start_power location A =
     (let qga = max 0 (sa_qga_wait_sec A) in
      if sa_drill A then (sa_power_on A \<or> 0 < qga, qga)
      else
        let on = sa_power_on A \<or> truthy (dget location ''power_on'');
            qga' = (if qga \<le> 0 \<and> on
                    then max 0 (py_int_or (py_or (dget location ''qga_wait_sec'') (PInt 0)) 0) else qga)
        in (on \<or> 0 < qga', qga'))"

definition start_powered_off :: "dict \<Rightarrow> start_args \<Rightarrow> bool" where
  "start_powered_off location A =
     (let on = fst (start_power location A) in
      \<not> on \<and> (case sa_powered_off A of None \<Rightarrow> sa_drill A | Some b \<Rightarrow> b))"

definition start_live :: "dict \<Rightarrow> start_args \<Rightarrow> bool" where
  "start_live location A \<longleftrightarrow> truthy (dget location ''live_restore'') \<and> \<not> start_powered_off location A"

definition or_list :: "dict \<Rightarrow> string \<Rightarrow> string list" where
  "or_list d k = strs_of (dget d k)"

definition str_pairs :: "pyval \<Rightarrow> (string \<times> string) list" where
  "str_pairs v = (case v of PDict d \<Rightarrow> map (\<lambda>(k, x). (k, py_str x)) d | _ \<Rightarrow> [])"

definition need_str :: "dict \<Rightarrow> string \<Rightarrow> exn + string" where
  "need_str d k = res_bind (need_key d k) (\<lambda>v. Inr (py_str v))"

definition run_params_of ::
  "dict \<Rightarrow> dict \<Rightarrow> string \<Rightarrow> string \<Rightarrow> start_args \<Rightarrow> exn + run_params" where
  "run_params_of plan location cutoff stamp A =
     res_bind (need_str plan ''id'') (\<lambda>plan_id.
     res_bind (need_str location ''id'') (\<lambda>location_id.
     res_bind (need_str location ''node'') (\<lambda>node.
     res_bind (need_str location ''storage'') (\<lambda>storage.
     res_bind (res_bind (need_key location ''vmid_start'') py_int) (\<lambda>vmid_start.
     res_bind (int_or_zero location ''bwlimit'') (\<lambda>bwlimit.
     Inr \<lparr>rn_plan_id = plan_id, rn_plan_name = get_text plan ''name'', rn_cutoff = cutoff,
          rn_location_id = location_id, rn_location_name = get_text location ''name'', rn_node = node,
          rn_nodes = (if or_list location ''nodes'' \<noteq> [] then or_list location ''nodes'' else [node]),
          rn_storage = storage, rn_storage_by_node = str_pairs (dget location ''storage_by_node''),
          rn_vmid_start = vmid_start, rn_bwlimit = bwlimit, rn_live_restore = start_live location A,
          rn_powered_off = start_powered_off location A, rn_power_on = fst (start_power location A),
          rn_qga_wait_sec = snd (start_power location A),
          rn_network_mode = normalize_network_mode (dget location ''network_mode''),
          rn_lab_bridge = str_field location ''lab_bridge'',
          rn_http_check_url = str_field location ''http_check_url'', rn_overwrite = sa_overwrite A,
          rn_drill = sa_drill A, rn_auto_teardown = sa_auto_teardown A \<and> sa_drill A,
          rn_restore_mode = or_default (lower (strip (py_str (py_or (dget location ''restore_mode'') (PStr ''normal'')))))
            ''normal'',
          rn_halt_on_error = truthy (dget_or plan ''halt_on_error'' (PBool True)),
          rn_group_ids = or_list plan ''group_ids'', rn_started_at = stamp, rn_created_at = stamp\<rparr>))))))"

definition new_run :: "string \<Rightarrow> run_params \<Rightarrow> nat \<Rightarrow> plan_run" where
  "new_run run_id p start =
     \<lparr>pr_id = run_id, pr_params = p, pr_status = R_RUNNING, pr_index = start,
      pr_jobs = map (\<lambda>_. []) (rn_group_ids p), pr_pending = [], pr_targets = [], pr_next_vmid = None,
      pr_finished_at = [], pr_error = [], pr_updated_at = rn_started_at p, pr_report_id = [],
      pr_rto_sec = None, pr_teardown_status = [], pr_teardown_results = [], pr_teardown_at = [],
      pr_assurance_evaluated = False, pr_assurance_status = [], pr_assurance_detail = [],
      pr_notification_sent = False, pr_cancel_stats = None\<rparr>"

definition run_enqueue_args :: "plan_run \<Rightarrow> nat \<Rightarrow> int \<Rightarrow> string \<Rightarrow> enqueue_args" where
  "run_enqueue_args run idx vmid_start mode =
     (let p = pr_params run in
      \<lparr>ea_node = or_default (rn_node p) (case rn_nodes p of [] \<Rightarrow> [] | n # ns \<Rightarrow> n),
       ea_nodes = (if rn_nodes p = [] \<and> rn_node p \<noteq> [] then [rn_node p] else rn_nodes p),
       ea_target_storage = rn_storage p, ea_storage_by_node = rn_storage_by_node p,
       ea_vmid_start = vmid_start, ea_live_restore = rn_live_restore p, ea_bwlimit = rn_bwlimit p,
       ea_restore_mode = mode, ea_plan_run_id = pr_id run, ea_plan_group_index = Some (int idx),
       ea_power_on = rn_power_on p, ea_qga_wait_sec = rn_qga_wait_sec p,
       ea_network_mode = or_default (rn_network_mode p) ''none'', ea_lab_bridge = rn_lab_bridge p,
       ea_overwrite = rn_overwrite p, ea_http_check_url = rn_http_check_url p\<rparr>)"

definition record_assigned_targets :: "enqueue_result \<Rightarrow> plan_run \<Rightarrow> plan_run" where
  "record_assigned_targets res run =
     (let nodes = er_nodes res;
          targets = pr_targets run @
            map (\<lambda>(i, v). (v, if i < length nodes then strip (nodes ! i) else []))
                (List.enumerate 0 (er_vmids res));
          ids = filter (\<lambda>v. v \<noteq> 0) (map fst targets)
      in run\<lparr>pr_targets := targets,
             pr_next_vmid := (if ids \<noteq> [] then Some (Max (set ids) + 1) else pr_next_vmid run)\<rparr>)"

definition with_group_jobs :: "nat \<Rightarrow> enqueue_result \<Rightarrow> plan_run \<Rightarrow> plan_run" where
  "with_group_jobs idx res run =
     record_assigned_targets res (run\<lparr>pr_jobs := (pr_jobs run)[idx := er_job_ids res]\<rparr>)"

definition pending_row :: "dict \<Rightarrow> exn + dict" where
  "pending_row row =
     res_bind (map_res (\<lambda>k. res_bind (need_key row k) (\<lambda>v. Inr (k, v)))
        [''backup_id'', ''vmid'', ''name'', ''timestamp'', ''pve_storage'', ''voltail'']) (\<lambda>fs.
     res_bind (int_or_zero row ''size_bytes'') (\<lambda>n.
     Inr (fs @ [(''source_label'', dget_or row ''source_label'' (PStr [])), (''size_bytes'', PInt n)])))"

definition first_group :: "dict list list \<Rightarrow> nat" where
  "first_group group_rows = length (takeWhile (\<lambda>rows. rows = []) group_rows)"

definition started_plan :: "dict \<Rightarrow> string \<Rightarrow> dict" where
  "started_plan plan stamp =
     dput (dput plan ''last_run_at'' (PStr stamp)) ''verification''
       (if dget plan ''verification'' = PStr (verification_value VERIFIED)
        then PStr (verification_value NEEDS_VERIFIED)
        else dget_or plan ''verification'' (PStr (verification_value NOT_VERIFIED)))"

definition zero_backups_error :: exn where
  "zero_backups_error = ValueError ''plan resolved to zero backups''"

definition location_mode_raw :: "dict \<Rightarrow> string" where
  "location_mode_raw location = py_str (py_or (dget location ''restore_mode'') (PStr ''normal''))"

definition start_plan_run ::
  "env \<Rightarrow> cfg \<Rightarrow> enqueue_fn \<Rightarrow> dict \<Rightarrow> dict \<Rightarrow> string \<Rightarrow> dict list list \<Rightarrow> start_args \<Rightarrow> (world, plan_run) act" where
  "start_plan_run E C enqueue plan location cutoff group_rows A =
     bind_act (res_act (need_key plan ''group_ids'')) (\<lambda>gids.
     if length group_rows \<noteq> length (strs_of gids) then
       raise_act (ValueError ''group_rows length must match plan.group_ids'')
     else if \<forall>rows \<in> set group_rows. rows = [] then raise_act zero_backups_error
     else
     bind_act (new_uuid E) (\<lambda>run_id.
     bind_act (get_act (utc_now_iso E)) (\<lambda>stamp.
     bind_act (res_act (run_params_of plan location cutoff stamp A)) (\<lambda>p.
     let start = first_group group_rows; shell = new_run run_id p start in
     bind_act (save_run E C shell) (\<lambda>_.
     bind_act (enqueue (group_rows ! start)
                 (run_enqueue_args shell start (rn_vmid_start p) (location_mode_raw location))) (\<lambda>res.
     let run1 = with_group_jobs start res shell;
         run2 = (if pr_next_vmid run1 \<in> {None, Some 0}
                 then run1\<lparr>pr_next_vmid := Some (rn_vmid_start p)\<rparr> else run1) in
     bind_act (save_run E C run2) (\<lambda>_.
     bind_act (res_act (map_res (map_res pending_row) group_rows)) (\<lambda>pending.
     let run3 = run2\<lparr>pr_pending := pending\<rparr> in
     bind_act (save_run E C run3) (\<lambda>_.
     bind_act (upd_act (save_plan_doc E C (started_plan plan stamp))) (\<lambda>_.
     ret_act run3))))))))))"

subsection \<open>Advancing the active runs\<close>

text \<open>
  Both \<open>while\<close> loops of \<open>advance_plan_runs\<close>: the next group from \<open>i\<close> on that has jobs or
  waiting rows.
\<close>

function next_work :: "string list list \<Rightarrow> dict list list \<Rightarrow> nat \<Rightarrow> nat" where
  "next_work jobs pending i =
     (if i < length jobs \<and> jobs ! i = [] \<and> \<not> (i < length pending \<and> pending ! i \<noteq> [])
      then next_work jobs pending (Suc i) else i)"
  by pat_completeness auto

termination
  by (relation "measure (\<lambda>(jobs, pending, i). length jobs - i)") auto

declare next_work.simps [simp del]

definition job_states :: "cfg \<Rightarrow> world \<Rightarrow> string list \<Rightarrow> string list" where
  "job_states C w ids = map (\<lambda>j. state_or_pending (hgetall (job_key C j) w)) ids"

definition finish_run :: "env \<Rightarrow> cfg \<Rightarrow> plan_run \<Rightarrow> (world, bool) act" where
  "finish_run E C run =
     bind_act (get_act (\<lambda>w. run\<lparr>pr_finished_at := utc_now_iso E w\<rparr>)) (\<lambda>run'.
     bind_act (save_run E C run') (\<lambda>_.
     bind_act (finalize_plan_run_report E C run') (\<lambda>_. ret_act True)))"

definition group_failed_text :: "nat \<Rightarrow> nat \<Rightarrow> string" where
  "group_failed_text n idx =
     str_of_nat n @ '' job(s) failed in group index '' @ str_of_nat idx"

text \<open>The step when all jobs of the group are terminal\<close>

definition group_done :: "env \<Rightarrow> cfg \<Rightarrow> plan_run \<Rightarrow> nat \<Rightarrow> string list \<Rightarrow> (world, bool) act" where
  "group_done E C run idx states =
     (let failed = filter (\<lambda>s. s = state_value FAILED) states;
          cancelled = filter (\<lambda>s. s = state_value CANCELLED) states;
          nx = next_work (pr_jobs run) (pr_pending run) (Suc idx)
      in if failed \<noteq> [] \<and> rn_halt_on_error (pr_params run) then
           finish_run E C (run\<lparr>pr_status := R_FAILED, pr_error := group_failed_text (length failed) idx\<rparr>)
         else if cancelled \<noteq> [] \<and> state_value COMPLETED \<notin> set states \<and>
             set states \<subseteq> {state_value CANCELLED, state_value FAILED} then
           finish_run E C (run\<lparr>pr_status := R_CANCELLED\<rparr>)
         else if length (pr_jobs run) \<le> nx then
           finish_run E C (run\<lparr>pr_status := R_COMPLETED, pr_index := nx\<rparr>)
         else bind_act (save_run E C (run\<lparr>pr_index := nx\<rparr>)) (\<lambda>_. ret_act True))"

definition next_vmid_of :: "plan_run \<Rightarrow> int" where
  "next_vmid_of run =
     (case pr_next_vmid run of
        Some v \<Rightarrow> if v \<noteq> 0 then v else if rn_vmid_start (pr_params run) \<noteq> 0 then rn_vmid_start (pr_params run) else 100
      | None \<Rightarrow> if rn_vmid_start (pr_params run) \<noteq> 0 then rn_vmid_start (pr_params run) else 100)"

definition enqueue_group :: "env \<Rightarrow> cfg \<Rightarrow> enqueue_fn \<Rightarrow> plan_run \<Rightarrow> nat \<Rightarrow> (world, bool) act" where
  "enqueue_group E C enqueue run idx =
     (let rows = (if idx < length (pr_pending run) then pr_pending run ! idx else []) in
      if rows = [] then bind_act (save_run E C (run\<lparr>pr_index := Suc idx\<rparr>)) (\<lambda>_. ret_act True)
      else bind_act (enqueue rows (run_enqueue_args run idx (next_vmid_of run)
                        (or_default (rn_restore_mode (pr_params run)) ''normal''))) (\<lambda>res.
           bind_act (save_run E C ((with_group_jobs idx res run)\<lparr>pr_index := idx\<rparr>)) (\<lambda>_. ret_act True)))"

definition advance_run :: "env \<Rightarrow> cfg \<Rightarrow> enqueue_fn \<Rightarrow> plan_run \<Rightarrow> (world, bool) act" where
  "advance_run E C enqueue run =
     (let idx = next_work (pr_jobs run) (pr_pending run) (pr_index run) in
      if length (pr_jobs run) \<le> idx then
        finish_run E C (run\<lparr>pr_status := R_COMPLETED, pr_index := idx\<rparr>)
      else if pr_jobs run ! idx = [] then enqueue_group E C enqueue run idx
      else bind_act (get_act (\<lambda>w. job_states C w (pr_jobs run ! idx))) (\<lambda>states.
        if \<not> set states \<subseteq> set TERMINAL then ret_act False else group_done E C run idx states))"

definition advance_one :: "env \<Rightarrow> cfg \<Rightarrow> enqueue_fn \<Rightarrow> string \<Rightarrow> (world, bool) act" where
  "advance_one E C enqueue run_id = (\<lambda>w.
     case get_plan_run C run_id w of
       None \<Rightarrow> (Inr False, srem (active_plan_runs_key C) run_id w)
     | Some run \<Rightarrow>
         if pr_status run \<noteq> R_RUNNING then (Inr False, srem (active_plan_runs_key C) run_id w)
         else advance_run E C enqueue run w)"

fun advance_all :: "env \<Rightarrow> cfg \<Rightarrow> enqueue_fn \<Rightarrow> string list \<Rightarrow> (world, int) act" where
  "advance_all E C enqueue [] = ret_act 0"
| "advance_all E C enqueue (i # ids) =
     bind_act (advance_one E C enqueue i) (\<lambda>touched.
     bind_act (advance_all E C enqueue ids) (\<lambda>n. ret_act (if touched then n + 1 else n)))"

definition advance_plan_runs :: "env \<Rightarrow> cfg \<Rightarrow> enqueue_fn \<Rightarrow> (world, int) act" where
  "advance_plan_runs E C enqueue =
     bind_act (get_act (smembers (active_plan_runs_key C))) (advance_all E C enqueue)"

subsection \<open>Cancelling a run\<close>

definition cancelled_with_run :: "string \<Rightarrow> hash" where
  "cancelled_with_run stamp =
     [(''state'', state_value CANCELLED), (''updated_at'', stamp), (''error'', ''Cancelled with plan run''),
      (''cancel_requested'', ''1''), (''eta_sec'', []), (''speed_bps'', [])]"

definition cancel_job :: "env \<Rightarrow> cfg \<Rightarrow> string \<Rightarrow> (int \<times> int) \<times> world \<Rightarrow> (int \<times> int) \<times> world" where
  "cancel_job E C job_id = (\<lambda>((pend, req), w).
     let data = hgetall (job_key C job_id) w in
     if data = [] then ((pend, req), w)
     else if state_or_pending data = state_value PENDING then
       ((pend + 1, req), lrem_all (queue_key C) job_id
          (hset (job_key C job_id) (cancelled_with_run (utc_now_iso E w)) w))
     else if state_or_pending data = state_value RESTORING then
       ((pend, req + 1), hset (job_key C job_id)
          [(''cancel_requested'', ''1''), (''updated_at'', utc_now_iso E w)] w)
     else ((pend, req), w))"

definition cancel_plan_run :: "env \<Rightarrow> cfg \<Rightarrow> string \<Rightarrow> (world, run_view) act" where
  "cancel_plan_run E C run_id = (\<lambda>w.
     case get_plan_run C run_id w of
       None \<Rightarrow> (Inl (not_found_error run_id), w)
     | Some run \<Rightarrow>
         if pr_status run \<noteq> R_RUNNING then (aggregate_plan_run C run w, w)
         else
           let (stats, w1) = fold (cancel_job E C) (all_job_ids run) ((0, 0), w);
               run1 = run\<lparr>pr_pending := [], pr_status := R_CANCELLED, pr_finished_at := utc_now_iso E w1,
                          pr_error := or_default (pr_error run) ''Cancelled by operator'',
                          pr_cancel_stats := Some stats\<rparr>
           in bind_act (save_run E C run1) (\<lambda>_.
              bind_act (finalize_plan_run_report E C run1) (\<lambda>_ w2.
              (aggregate_plan_run C (case get_plan_run C run_id w2 of None \<Rightarrow> run1 | Some r \<Rightarrow> r) w2, w2))) w1)"

end
