(* ===== verification/RunInv.thy ===== *)
theory RunInv
  imports PlanRuns
begin

text \<open>
  Lemmas about plan runs: a small logic for commands under a state invariant, what the steps at
  the end of a run leave alone, the contract of the enqueue function as a locale with
  \<open>enqueue_restores\<close> as its instance, for the invariant of all runs under every interleaving
  of starts, advances, cancellations, teardowns and other operations.
\<close>

subsection \<open>Commands under an invariant\<close>

text \<open>\<open>post I m Q\<close>: \<open>m\<close> keeps \<open>I\<close>, however it ends, and a result that it returns has \<open>Q\<close>.\<close>

definition post :: "('s \<Rightarrow> bool) \<Rightarrow> ('s, 'a) act \<Rightarrow> ('a \<Rightarrow> bool) \<Rightarrow> bool" where
  "post I m Q \<longleftrightarrow> (\<forall>s r t. I s \<longrightarrow> m s = (r, t) \<longrightarrow> I t \<and> (\<forall>x. r = Inr x \<longrightarrow> Q x))"

lemma postI: "(\<And>s r t. I s \<Longrightarrow> m s = (r, t) \<Longrightarrow> I t \<and> (\<forall>x. r = Inr x \<longrightarrow> Q x)) \<Longrightarrow> post I m Q"
  by (simp add: post_def)

lemma postD: "post I m Q \<Longrightarrow> I s \<Longrightarrow> m s = (r, t) \<Longrightarrow> I t" "post I m Q \<Longrightarrow> I s \<Longrightarrow> m s = (Inr x, t) \<Longrightarrow> Q x"
  by (simp_all add: post_def)

lemma post_ret: "Q x \<Longrightarrow> post I (ret_act x) Q"
  by (simp add: post_def ret_act_def)

lemma post_get: "(\<And>s. I s \<Longrightarrow> Q (g s)) \<Longrightarrow> post I (get_act g) Q"
  by (simp add: post_def get_act_def)

lemma post_bind: "post I m P \<Longrightarrow> (\<And>x. P x \<Longrightarrow> post I (f x) Q) \<Longrightarrow> post I (bind_act m f) Q"
  by (rule postI) (auto elim!: bind_act_cases dest: postD; blast dest: postD)

lemma post_catch: "post I m Q \<Longrightarrow> (\<And>e. post I (h e) Q) \<Longrightarrow> post I (catch_act m h) Q"
  by (rule postI) (auto elim!: catch_act_cases dest: postD; blast dest: postD)

lemma post_if: "(b \<Longrightarrow> post I m Q) \<Longrightarrow> (\<not> b \<Longrightarrow> post I n Q) \<Longrightarrow> post I (if b then m else n) Q"
  by simp

lemma post_weaken: "post I m P \<Longrightarrow> (\<And>x. P x \<Longrightarrow> Q x) \<Longrightarrow> post I m Q"
  by (simp add: post_def)

lemma post_True: "post I m P \<Longrightarrow> post I m (\<lambda>_. True)"
  by (erule post_weaken) simp

lemma post_emits:
  "keeps (emits_rel S) m \<Longrightarrow> (\<And>s cs. I s \<Longrightarrow> I (s\<lparr>calls := calls s @ cs\<rparr>)) \<Longrightarrow> post I m (\<lambda>_. True)"
  by (rule postI) (auto simp: emits_rel_def dest!: keepsD)

subsection \<open>The part of a run that the end of the run leaves alone\<close>

definition core :: "plan_run \<Rightarrow> plan_run" where
  "core run = run\<lparr>pr_updated_at := [], pr_report_id := [], pr_rto_sec := None, pr_teardown_status := [],
     pr_teardown_results := [], pr_teardown_at := [], pr_assurance_evaluated := False,
     pr_assurance_status := [], pr_assurance_detail := [], pr_notification_sent := False\<rparr>"

lemma core_updates [simp]:
  "core (run\<lparr>pr_updated_at := a\<rparr>) = core run" "core (run\<lparr>pr_report_id := b\<rparr>) = core run"
  "core (run\<lparr>pr_rto_sec := c\<rparr>) = core run" "core (run\<lparr>pr_teardown_status := d\<rparr>) = core run"
  "core (run\<lparr>pr_teardown_results := e\<rparr>) = core run" "core (run\<lparr>pr_teardown_at := f\<rparr>) = core run"
  "core (run\<lparr>pr_assurance_evaluated := g\<rparr>) = core run" "core (run\<lparr>pr_assurance_status := h\<rparr>) = core run"
  "core (run\<lparr>pr_assurance_detail := i\<rparr>) = core run" "core (run\<lparr>pr_notification_sent := j\<rparr>) = core run"
  by (simp_all add: core_def)

lemma core_sel [simp]:
  "pr_id (core a) = pr_id a" "pr_params (core a) = pr_params a" "pr_status (core a) = pr_status a"
  "pr_index (core a) = pr_index a" "pr_jobs (core a) = pr_jobs a" "pr_pending (core a) = pr_pending a"
  "pr_targets (core a) = pr_targets a" "pr_next_vmid (core a) = pr_next_vmid a"
  "pr_finished_at (core a) = pr_finished_at a" "pr_error (core a) = pr_error a"
  "pr_cancel_stats (core a) = pr_cancel_stats a"
  by (simp_all add: core_def)

lemma core_fields:
  assumes "core a = core b"
  shows "pr_id a = pr_id b" "pr_params a = pr_params b" "pr_status a = pr_status b"
    "pr_index a = pr_index b" "pr_jobs a = pr_jobs b" "pr_pending a = pr_pending b"
    "pr_targets a = pr_targets b" "pr_next_vmid a = pr_next_vmid b"
    "pr_finished_at a = pr_finished_at b" "pr_error a = pr_error b" "pr_cancel_stats a = pr_cancel_stats b"
  using assms by (metis core_sel)+

subsection \<open>Frames\<close>

definition active_ids :: "cfg \<Rightarrow> world \<Rightarrow> string set" where
  "active_ids C w = set (smembers (active_plan_runs_key C) w)"

text \<open>The configured key names do not clash.\<close>

definition keys_ok :: "cfg \<Rightarrow> bool" where
  "keys_ok C \<longleftrightarrow> active_plan_runs_key C \<noteq> plan_runs_index C \<and> active_plan_runs_key C \<noteq> plans_index C"

definition same_runs :: "cfg \<Rightarrow> string \<Rightarrow> world \<Rightarrow> world \<Rightarrow> bool" where
  "same_runs C i s t \<longleftrightarrow>
     (\<forall>j. j \<noteq> i \<longrightarrow> get_plan_run C j t = get_plan_run C j s \<and> (j \<in> active_ids C t \<longleftrightarrow> j \<in> active_ids C s)) \<and>
     hashes t = hashes s \<and> rlists t = rlists s \<and> uuids s \<le> uuids t"

definition closing :: "cfg \<Rightarrow> plan_run \<Rightarrow> world \<Rightarrow> world \<Rightarrow> bool" where
  "closing C c w0 w \<longleftrightarrow>
     (\<exists>r. get_plan_run C (pr_id c) w = Some r \<and> core r = core c) \<and>
     (pr_id c \<in> active_ids C w \<longleftrightarrow> pr_status c = R_RUNNING) \<and> same_runs C (pr_id c) w0 w"

lemma same_runs_refl [simp]: "same_runs C i w w"
  by (simp add: same_runs_def)

lemma same_runs_trans: "same_runs C i a b \<Longrightarrow> same_runs C i b c \<Longrightarrow> same_runs C i a c"
  by (simp add: same_runs_def)

lemma active_store_run:
  "keys_ok C \<Longrightarrow> active_ids C (store_run E C run w) =
     (if pr_status run = R_RUNNING then insert (pr_id run) (active_ids C w)
      else active_ids C w - {pr_id run})"
  by (auto simp: active_ids_def keys_ok_def store_run_def Let_def)

lemma closing_start:
  assumes "keys_ok C" "same_runs C (pr_id c) w0 w" "core run = core c"
  shows "closing C c w0 (store_run E C run w)"
  using assms core_fields [OF assms(3)]
  by (auto simp: closing_def same_runs_def active_store_run)

lemma closing_store_run:
  "closing C c w0 w \<Longrightarrow> keys_ok C \<Longrightarrow> core run = core c \<Longrightarrow> closing C c w0 (store_run E C run w)"
  by (rule closing_start) (simp_all add: closing_def)

text \<open>A step that touches neither the runs, nor the sets, nor the jobs\<close>

definition quiet :: "world \<Rightarrow> world \<Rightarrow> bool" where
  "quiet s t \<longleftrightarrow> run_docs t = run_docs s \<and> sets t = sets s \<and> hashes t = hashes s \<and> rlists t = rlists s \<and>
     uuids s \<le> uuids t"

lemma closing_quiet: "closing C c w0 w \<Longrightarrow> quiet w w' \<Longrightarrow> closing C c w0 w'"
  by (simp add: closing_def same_runs_def quiet_def get_plan_run_def active_ids_def smembers_def)

lemma quiet_calls: "quiet w (w\<lparr>calls := cs\<rparr>)"
  by (simp add: quiet_def)

lemma quiet_trans: "quiet a b \<Longrightarrow> quiet b c \<Longrightarrow> quiet a c"
  by (auto simp: quiet_def)

lemma quiet_emits: "keeps (emits_rel S) m \<Longrightarrow> m w = (r, w') \<Longrightarrow> quiet w w'"
  by (auto dest!: keepsD simp: emits_rel_def quiet_def)

lemma closing_emits: "keeps (emits_rel S) m \<Longrightarrow> post (closing C c w0) m (\<lambda>_. True)"
  by (rule post_emits) (auto intro: closing_quiet quiet_calls)

lemma closing_plan_doc:
  assumes "closing C c w0 w" "keys_ok C"
  shows "closing C c w0 (save_plan_doc E C d w)"
  using assms
  by (auto simp: closing_def same_runs_def save_plan_doc_def save_entity_def Let_def active_ids_def
      keys_ok_def get_plan_run_def)

lemma quiet_trim: "quiet w (trim_reports C w)"
proof -
  have "quiet w (fold (\<lambda>rid v. zrem ix rid (del_doc (report_key C rid) v)) ids w)" for ix ids
  proof (induction ids arbitrary: w)
    case (Cons a ids)
    have "quiet w (zrem ix a (del_doc (report_key C a) w))"
      by (simp add: quiet_def zrem_def zset_put_def del_doc_def)
    then show ?case using Cons quiet_trans by fastforce
  qed (simp add: quiet_def)
  then show ?thesis by (simp add: trim_reports_def Let_def quiet_def)
qed

lemma quiet_save_report: "save_report E C kind pid pname rep meta w = (d, w') \<Longrightarrow> quiet w w'"
  using quiet_trim [of "zadd (reports_index C) (uuid E (uuids w)) (now E w)
      (set_doc (report_key C (uuid E (uuids w))) d (w\<lparr>uuids := Suc (uuids w)\<rparr>))" C]
  by (auto simp: save_report_def Let_def quiet_def zadd_def zset_put_def set_doc_def)

lemma quiet_run_report: "save_run_report E C plan v w = (r, w') \<Longrightarrow> quiet w w'"
  by (auto simp: save_run_report_def bind_act_def res_act_def Let_def quiet_def
      split: sum.splits prod.splits if_splits dest!: quiet_save_report)

subsection \<open>The end of a run\<close>

lemma post_save: "keys_ok C \<Longrightarrow> core run = core c \<Longrightarrow> post (closing C c w0) (save_run E C run) (\<lambda>_. True)"
  by (rule postI) (auto simp: save_run_def closing_store_run)

lemma closing_reload: "closing C c w0 w \<Longrightarrow> core run = core c \<Longrightarrow> core (reload C run w) = core c"
  using core_fields(1) [of run c] by (auto simp: closing_def reload_def)

lemma post_reload: "core run = core c \<Longrightarrow> post (closing C c w0) (get_act (reload C run)) (\<lambda>x. core x = core c)"
  by (rule post_get) (rule closing_reload)

lemma keeps_teardown_one: "keeps (emits_rel UNIV) (teardown_one E prov t)"
proof -
  have d: "keeps (emits_rel UNIV) (destroy_owned_qemu_vm E n v p True True)" for n v p
    by (rule keepsI) (use destroy_owned_calls in \<open>fastforce simp: emits_rel_def\<close>)
  have f: "keeps (emits_rel UNIV) (find_qemu_node E v)" for v
    by (rule keeps_emits_mono [OF keeps_find_qemu_node]) simp
  obtain v n where t: "t = (v, n)" by (cases t)
  show ?thesis
    unfolding t teardown_one_def target_node_def Let_def prod.case
    by (intro emits.keeps_catch emits.keeps_bind emits.keeps_if emits.keeps_ret d f)
qed

lemma keeps_map_act: "(\<And>x. keeps (emits_rel S) (f x)) \<Longrightarrow> keeps (emits_rel S) (map_act f xs)"
  by (induction xs) (simp_all add: emits.keeps_bind)

lemma post_teardown:
  assumes "keys_ok C" "core run = core c"
  shows "post (closing C c w0) (teardown_plan_run E C run) (\<lambda>x. core x = core c)"
proof (rule postI)
  fix w r t assume I: "closing C c w0 w" and td: "teardown_plan_run E C run w = (r, t)"
  have conn: "keeps (emits_rel UNIV) (connect_proxmox E C)"
    by (rule keeps_emits_mono [OF keeps_connect_proxmox]) simp
  let ?m = "bind_act (if collect_plan_run_targets C run w = [] then ret_act ()
        else bind_act (connect_proxmox E C) (\<lambda>_. ret_act ())) (\<lambda>_.
     bind_act (map_act (teardown_one E (provenance_vmids C run w)) (collect_plan_run_targets C run w)) (\<lambda>results.
     bind_act (get_act (utc_now_iso E)) (\<lambda>stamp.
     let run' = run\<lparr>pr_teardown_status := teardown_outcome results, pr_teardown_results := results,
                    pr_teardown_at := stamp\<rparr>
     in bind_act (save_run E C run') (\<lambda>_. ret_act run'))))"
  have "post (closing C c w0) ?m (\<lambda>x. core x = core c)"
    unfolding Let_def
    by (intro post_bind [where P = "\<lambda>_. True"] post_if post_ret post_get closing_emits [OF conn] TrueI
        closing_emits [OF keeps_map_act [OF keeps_teardown_one]] post_save assms(1))
       (simp_all add: assms(2))
  with I td assms(2) show "closing C c w0 t \<and> (\<forall>x. r = Inr x \<longrightarrow> core x = core c)"
    by (auto simp: teardown_plan_run_def Let_def post_def split: if_splits)
qed

lemma post_report_phase:
  assumes "keys_ok C" "core run = core c"
  shows "post (closing C c w0) (report_phase E C run) (\<lambda>x. core x = core c)"
proof (rule postI)
  fix w r t assume I: "closing C c w0 w" and rp: "report_phase E C run w = (r, t)"
  show "closing C c w0 t \<and> (\<forall>x. r = Inr x \<longrightarrow> core x = core c)"
  proof (cases "aggregate_plan_run C run w")
    case (Inl e)
    then show ?thesis using I rp assms(2) by (auto simp: report_phase_def)
  next
    case (Inr v)
    let ?plan = "get_plan C (rn_plan_id (pr_params run)) w"
    obtain r1 w1 where sr: "save_run_report E C ?plan v w = (r1, w1)"
      by (cases "save_run_report E C ?plan v w")
    have I1: "closing C c w0 w1" using I quiet_run_report [OF sr] by (rule closing_quiet)
    show ?thesis
    proof (cases r1)
      case (Inl e)
      then show ?thesis using I1 rp sr Inr assms(2) by (auto simp: report_phase_def Let_def)
    next
      case (Inr y)
      obtain rid rto where y: "y = (rid, rto)" by (cases y)
      have I2: "closing C c w0 (store_run E C (run\<lparr>pr_report_id := rid, pr_rto_sec := rto\<rparr>) w1)"
        by (rule closing_store_run [OF I1 assms(1)]) (simp add: assms(2))
      show ?thesis
        using rp sr I2 closing_plan_doc [OF I2 assms(1)] assms(2) Inr \<open>aggregate_plan_run C run w = Inr v\<close>
        by (auto simp: report_phase_def Let_def y split: option.splits if_splits)
    qed
  qed
qed

lemma post_apply_assurance:
  assumes "keys_ok C" "core run = core c"
  shows "post (closing C c w0) (apply_assurance_from_run E C run) (\<lambda>_. True)"
proof (rule postI)
  fix w r t assume I: "closing C c w0 w" and aa: "apply_assurance_from_run E C run w = (r, t)"
  have save: "closing C c w0 (store_run E C run' w')" if "closing C c w0 w'" "core run' = core c" for run' w'
    by (rule closing_store_run [OF that(1) assms(1) that(2)])
  show "closing C c w0 t \<and> (\<forall>x. r = Inr x \<longrightarrow> True)"
    using aa I closing_plan_doc [OF I assms(1)] assms(2)
    by (auto simp: apply_assurance_from_run_def save_run_def Let_def intro!: save
        split: if_splits sum.splits option.splits prod.splits)
qed

lemma post_notification:
  assumes "keys_ok C" "core run = core c"
  shows "post (closing C c w0) (send_plan_run_notification E C run) (\<lambda>_. True)"
  unfolding send_plan_run_notification_def
proof (rule post_bind [where P = "\<lambda>_. True"])
  show "post (closing C c w0) (\<lambda>w. case aggregate_plan_run C run w of
      Inl e \<Rightarrow> (Inr (), w) | Inr v \<Rightarrow> notify_plan_run_terminal E C v w) (\<lambda>_. True)"
  proof (rule postI)
    fix w r t assume "closing C c w0 w" and "(case aggregate_plan_run C run w of
      Inl e \<Rightarrow> (Inr (), w) | Inr v \<Rightarrow> notify_plan_run_terminal E C v w) = (r, t)"
    then show "closing C c w0 t \<and> (\<forall>x. r = Inr x \<longrightarrow> True)"
      using postD(1) [OF closing_emits [OF keeps_notify_run]] by (auto split: sum.splits)
  qed
qed (simp add: post_save assms)

lemma post_close:
  assumes "keys_ok C" "core run = core c"
  shows "post (closing C c w0) (close_run E C run) (\<lambda>x. core x = core c)"
proof -
  have td: "post (closing C c w0) (auto_teardown_phase E C run) (\<lambda>_. True)"
    unfolding auto_teardown_phase_def
    by (intro post_if post_catch post_bind [OF post_teardown [OF assms]] post_ret TrueI)
  have asr: "post (closing C c w0) (catch_act (apply_assurance_from_run E C x) (\<lambda>e. ret_act ())) (\<lambda>_. True)"
    if "core x = core c" for x
    by (intro post_catch post_apply_assurance [OF assms(1) that] post_ret TrueI)
  show ?thesis
    unfolding close_run_def
    by (intro post_bind [OF td] post_bind [OF post_reload [OF assms(2)]] post_bind [OF asr]
        post_bind [OF post_reload] post_bind [where P = "\<lambda>_. True"] post_if post_ret TrueI
        post_notification assms(1) post_reload)
qed

lemma post_finalize:
  assumes "keys_ok C" "core run = core c"
  shows "post (closing C c w0) (finalize_plan_run_report E C run) (\<lambda>x. core x = core c)"
  unfolding finalize_plan_run_report_def
  by (intro post_if post_close assms post_bind [OF post_report_phase [OF assms]])

text \<open>A run that is finished is stored with its status and end time, and off the active set.\<close>

lemma finish_run_closing:
  assumes "keys_ok C" "finish_run E C run w = (r, t)"
  shows "closing C (run\<lparr>pr_finished_at := utc_now_iso E w\<rparr>) w t"
proof -
  let ?c = "run\<lparr>pr_finished_at := utc_now_iso E w\<rparr>"
  have 1: "closing C ?c w (store_run E C ?c w)" by (rule closing_start [OF assms(1)]) simp_all
  have 2: "post (closing C ?c w) (bind_act (finalize_plan_run_report E C ?c) (\<lambda>_. ret_act True)) (\<lambda>_. True)"
    by (intro post_bind [OF post_finalize [OF assms(1) refl]] post_ret TrueI)
  have "bind_act (finalize_plan_run_report E C ?c) (\<lambda>_. ret_act True) (store_run E C ?c w) = (r, t)"
    using assms(2) by (simp add: finish_run_def bind_act_def get_act_def save_run_def)
  then show ?thesis by (rule postD(1) [OF 2 1])
qed

subsection \<open>The contract of the enqueue function\<close>

definition job_done :: "cfg \<Rightarrow> world \<Rightarrow> string \<Rightarrow> bool" where
  "job_done C w j \<longleftrightarrow> state_or_pending (hgetall (job_key C j) w) \<in> set TERMINAL"

lemma job_done_hash: "job_done C w j \<Longrightarrow> hgetall (job_key C j) w \<noteq> []"
  by (auto simp: job_done_def state_or_pending_def hfield_def or_default_def TERMINAL_def)

text \<open>
  What the runs rely on: enqueueing touches no run, no set and no job that exists, draws new ids,
  and on success there is one new job per row.
\<close>

locale enqueue_contract =
  fixes E :: env and C :: cfg and enqueue :: enqueue_fn
  assumes enq_frame: "jobs_fresh E C w \<Longrightarrow> enqueue rows A w = (r, t) \<Longrightarrow>
      run_docs t = run_docs w \<and> sets t = sets w \<and> uuids w \<le> uuids t \<and> jobs_fresh E C t"
    and enq_old: "jobs_fresh E C w \<Longrightarrow> enqueue rows A w = (r, t) \<Longrightarrow> hgetall (job_key C j) w \<noteq> [] \<Longrightarrow>
      hgetall (job_key C j) t = hgetall (job_key C j) w"
    and enq_new: "jobs_fresh E C w \<Longrightarrow> enqueue rows A w = (Inr res, t) \<Longrightarrow>
      length (er_job_ids res) = length rows \<and>
      (\<forall>j \<in> set (er_job_ids res). hgetall (job_key C j) w = [] \<and> hgetall (job_key C j) t \<noteq> [])"
begin

lemma enq_done:
  assumes "jobs_fresh E C w" "enqueue rows A w = (r, t)" "job_done C w j"
  shows "job_done C t j" "state_or_pending (hgetall (job_key C j) t) = state_or_pending (hgetall (job_key C j) w)"
  using assms enq_old [OF assms(1,2) job_done_hash [OF assms(3)]] by (simp_all add: job_done_def)

lemma enq_jobs_new:
  "jobs_fresh E C w \<Longrightarrow> enqueue rows A w = (Inr res, t) \<Longrightarrow> j \<in> set (er_job_ids res) \<Longrightarrow> \<not> job_done C w j"
  using enq_new job_done_hash by blast

end

lemma enqueue_loop_fresh:
  assumes "jobs_fresh E C s" "map_act (enqueue_one E C A mode) rws s = (r, t)"
  shows "jobs_fresh E C t \<and> uuids s \<le> uuids t"
  using assms
proof (induction rws arbitrary: s r)
  case (Cons x rws)
  obtain row v n st where x: "x = (row, v, n, st)" by (cases x)
  obtain r1 s1 where one: "enqueue_one E C A mode (row, v, n, st) s = (r1, s1)"
    by (cases "enqueue_one E C A mode (row, v, n, st) s")
  from one have s1: "jobs_fresh E C s1 \<and> uuids s \<le> uuids s1"
  proof (cases rule: enqueue_one_cases)
    case (exn e)
    then show ?thesis using Cons.prems(1) by (auto simp: jobs_fresh_def)
  next
    case (ok m)
    then show ?thesis using fresh_step [OF Cons.prems(1) ok(3)] by simp
  qed
  have "t = s1 \<or> (\<exists>r2. map_act (enqueue_one E C A mode) rws s1 = (r2, t))"
    using Cons.prems(2) one unfolding x
    by (auto simp: bind_act_def ret_act_def split: sum.splits prod.splits)
  then show ?case using s1 Cons.IH by (metis order_trans)
qed (simp add: ret_act_def)

lemma enqueue_restores_fresh:
  assumes "jobs_fresh E C s" "enqueue_restores E C rows A s = (r, t)"
  shows "jobs_fresh E C t \<and> uuids s \<le> uuids t"
proof -
  obtain r1 s1 where prep: "enqueue_prepare E C rows A s = (r1, s1)"
    by (cases "enqueue_prepare E C rows A s")
  obtain cs where s1: "s1 = s\<lparr>calls := calls s @ cs\<rparr>"
    using keepsD [OF keeps_enqueue_prepare prep] by (auto simp: emits_rel_def)
  have f1: "jobs_fresh E C s1" using assms(1) unfolding s1 by simp
  have "t = s1 \<or> (\<exists>P r2. map_act (enqueue_one E C A (ep_mode P)) (prep_rows rows P) s1 = (r2, t))"
    using assms(2) prep by (auto simp: enqueue_restores_def bind_act_def ret_act_def split: sum.splits prod.splits)
  then show ?thesis using f1 enqueue_loop_fresh [OF f1] s1 by auto
qed

lemma store_more_world:
  fixes s t :: world
  assumes "store.more t = store.more s"
  shows "run_docs t = run_docs s" "sets t = sets s" "docs t = docs s"
  using assms by (cases s; cases t; simp)+

lemma jobs_added_old:
  assumes "jobs_fresh E C s" "jobs_added E C A mode rws ids (s\<lparr>calls := cs\<rparr>) t"
  shows "hgetall (job_key C j) s \<noteq> [] \<Longrightarrow> hgetall (job_key C j) t = hgetall (job_key C j) s"
    and "j \<in> set ids \<Longrightarrow> hgetall (job_key C j) s = []"
proof -
  have eq: "ids = map (uuid E) [uuids s..<uuids s + length ids]"
    using assms(2) by (simp add: jobs_added_def)
  have ids: "\<exists>n \<ge> uuids s. j = uuid E n" if "j \<in> set ids" for j
  proof -
    have "j \<in> set (map (uuid E) [uuids s..<uuids s + length ids])" using that eq by simp
    then show ?thesis by auto
  qed
  show new: "j \<in> set ids \<Longrightarrow> hgetall (job_key C j) s = []" for j
    using ids assms(1) hgetall_not_Nil_key unfolding jobs_fresh_def by blast
  assume "hgetall (job_key C j) s \<noteq> []"
  then have "job_key C j \<notin> job_key C ` set ids" using new by auto
  then have "map_of (hashes t) (job_key C j) = map_of (hashes (s\<lparr>calls := cs\<rparr>)) (job_key C j)"
    using assms(2) unfolding jobs_added_def by blast
  then show "hgetall (job_key C j) t = hgetall (job_key C j) s" by (simp add: hgetall_def)
qed

interpretation enqueue_jobs: enqueue_contract E C "enqueue_restores E C" for E C
proof unfold_locales
  fix w t :: world and rows A r
  assume fr: "jobs_fresh E C w" and e: "enqueue_restores E C rows A w = (r, t)"
  obtain mode rws ids cs where ja: "jobs_added E C A mode rws ids (w\<lparr>calls := calls w @ cs\<rparr>) t"
    using enqueue_effect [OF fr e] by blast
  then have "store.more t = store.more w" unfolding jobs_added_def by simp
  then show "run_docs t = run_docs w \<and> sets t = sets w \<and> uuids w \<le> uuids t \<and> jobs_fresh E C t"
    using store_more_world enqueue_restores_fresh [OF fr e] by blast
  show "hgetall (job_key C j) w \<noteq> [] \<Longrightarrow> hgetall (job_key C j) t = hgetall (job_key C j) w" for j
    by (rule jobs_added_old(1) [OF fr ja])
next
  fix w t :: world and rows A res
  assume fr: "jobs_fresh E C w" and e: "enqueue_restores E C rows A w = (Inr res, t)"
  obtain mode rws cs where ja: "jobs_added E C A mode rws (er_job_ids res) (w\<lparr>calls := calls w @ cs\<rparr>) t"
    and len: "length (er_job_ids res) = length rows"
    using enqueue_effect [OF fr e] by auto
  have "hgetall (job_key C j) t \<noteq> []" if jn: "j \<in> set (er_job_ids res)" for j
  proof -
    have "list_all2 (\<lambda>(row, v, n, st) id. \<exists>m. job_mapping A mode row v n st id (utc_now_iso E (w\<lparr>calls := calls w @ cs\<rparr>)) = Inr m \<and>
             map_of (hgetall (job_key C id) t) = map_of m) (take (length (er_job_ids res)) rws) (er_job_ids res)"
      using ja unfolding jobs_added_def by blast
    moreover obtain i where i: "i < length (er_job_ids res)" "er_job_ids res ! i = j"
      using jn by (auto simp: in_set_conv_nth)
    ultimately have "case take (length (er_job_ids res)) rws ! i of (row, v, n, st) \<Rightarrow>
        \<exists>m. job_mapping A mode row v n st j (utc_now_iso E (w\<lparr>calls := calls w @ cs\<rparr>)) = Inr m \<and>
          map_of (hgetall (job_key C j) t) = map_of m"
      by (auto dest: list_all2_nthD2)
    then obtain row v n st m where
        "job_mapping A mode row v n st j (utc_now_iso E (w\<lparr>calls := calls w @ cs\<rparr>)) = Inr m"
        "map_of (hgetall (job_key C j) t) = map_of m"
      by (auto split: prod.splits)
    then have "map_of (hgetall (job_key C j) t) ''job_id'' \<noteq> None"
      by (auto simp: job_mapping_def)
    then show ?thesis by auto
  qed
  then show "length (er_job_ids res) = length rows \<and>
      (\<forall>j \<in> set (er_job_ids res). hgetall (job_key C j) w = [] \<and> hgetall (job_key C j) t \<noteq> [])"
    using len jobs_added_old(2) [OF fr ja] by blast
qed

end
