(* ===== verification/RunSteps.thy ===== *)
theory RunSteps
  imports RunInv JobRun
begin

text \<open>
  All plan runs under every interleaving: the step relation of starts, advances, cancellations,
  teardowns, enqueues, runs of jobs and all operations that write no run, its invariant, and what
  follows for runs that have ended.
\<close>

subsection \<open>The order of the groups\<close>

text \<open>
  The jobs \<open>js\<close> are over: all are terminal and, when the run halts on errors, none failed.
\<close>

definition jobs_over :: "cfg \<Rightarrow> world \<Rightarrow> bool \<Rightarrow> string list \<Rightarrow> bool" where
  "jobs_over C w halt js \<longleftrightarrow>
     (\<forall>j \<in> set js. job_done C w j \<and> (halt \<longrightarrow> state_or_pending (hgetall (job_key C j) w) \<noteq> state_value FAILED))"

text \<open>
  The hash of a terminal job can disappear (it has a time to live, and there is a purge) and a stale
  write can change it, so what a run has gone past is a fact of the history and not of the present
  state. \<open>H halt js\<close> says that the jobs \<open>js\<close> were over at some time.

  Groups after the current one have no jobs; the jobs of the groups before it were over; a group that
  had waiting rows has one job per row; a completed run is past its last group.
\<close>

type_synonym history = "bool \<Rightarrow> string list \<Rightarrow> bool"

definition halts :: "plan_run \<Rightarrow> bool" where
  "halts run \<longleftrightarrow> rn_halt_on_error (pr_params run) \<and> pr_status run \<in> {R_RUNNING, R_COMPLETED}"

definition group_over :: "history \<Rightarrow> plan_run \<Rightarrow> nat \<Rightarrow> bool" where
  "group_over H run g \<longleftrightarrow>
     pr_jobs run ! g = [] \<or> H True (pr_jobs run ! g) \<or> \<not> halts run \<and> H False (pr_jobs run ! g)"

definition run_ordered :: "history \<Rightarrow> plan_run \<Rightarrow> bool" where
  "run_ordered H run \<longleftrightarrow>
     (\<forall>g. pr_index run < g \<and> g < length (pr_jobs run) \<longrightarrow> pr_jobs run ! g = []) \<and>
     (\<forall>g. g < pr_index run \<and> g < length (pr_jobs run) \<longrightarrow> group_over H run g) \<and>
     (\<forall>g. g < length (pr_jobs run) \<and> g < length (pr_pending run) \<and> pr_pending run ! g \<noteq> [] \<and>
        (g < pr_index run \<or> pr_jobs run ! g \<noteq> []) \<longrightarrow>
        length (pr_jobs run ! g) = length (pr_pending run ! g)) \<and>
     (pr_status run = R_COMPLETED \<longrightarrow> length (pr_jobs run) \<le> pr_index run)"

lemma run_orderedD:
  assumes "run_ordered H run"
  shows "pr_index run < g \<Longrightarrow> g < length (pr_jobs run) \<Longrightarrow> pr_jobs run ! g = []"
    "g < pr_index run \<Longrightarrow> g < length (pr_jobs run) \<Longrightarrow> group_over H run g"
    "g < length (pr_jobs run) \<Longrightarrow> g < length (pr_pending run) \<Longrightarrow> pr_pending run ! g \<noteq> [] \<Longrightarrow>
      g < pr_index run \<or> pr_jobs run ! g \<noteq> [] \<Longrightarrow> length (pr_jobs run ! g) = length (pr_pending run ! g)"
    "pr_status run = R_COMPLETED \<Longrightarrow> length (pr_jobs run) \<le> pr_index run"
  using assms by (simp_all add: run_ordered_def)

lemmas order_defs = run_ordered_def group_over_def halts_def

lemma group_over_Nil: "pr_jobs run ! g = [] \<Longrightarrow> group_over H run g"
  by (simp add: group_over_def)

lemma run_ordered_core: "core a = core b \<Longrightarrow> run_ordered H a = run_ordered H b"
  using core_fields [of a b] by (simp add: order_defs)

lemma run_ordered_mono: "run_ordered H run \<Longrightarrow> (\<And>b js. H b js \<Longrightarrow> H' b js) \<Longrightarrow> run_ordered H' run"
  by (auto simp: run_ordered_def group_over_def)

subsection \<open>The invariant\<close>

definition runs_inv :: "env \<Rightarrow> cfg \<Rightarrow> history \<Rightarrow> world \<Rightarrow> bool" where
  "runs_inv E C H w \<longleftrightarrow>
     (\<forall>i run. get_plan_run C i w = Some run \<longrightarrow>
        pr_id run = i \<and> run_ordered H run \<and> (\<exists>n < uuids w. i = uuid E n)) \<and>
     active_ids C w = {i. \<exists>run. get_plan_run C i w = Some run \<and> pr_status run = R_RUNNING} \<and>
     jobs_fresh E C w"

lemma runs_invD:
  assumes "runs_inv E C H w" "get_plan_run C i w = Some run"
  shows "pr_id run = i" "run_ordered H run" "\<exists>n < uuids w. i = uuid E n"
    "i \<in> active_ids C w \<longleftrightarrow> pr_status run = R_RUNNING"
  using assms by (auto simp: runs_inv_def)

lemma jobs_fresh_frame: "hashes t = hashes s \<Longrightarrow> uuids s \<le> uuids t \<Longrightarrow> jobs_fresh E C s \<Longrightarrow> jobs_fresh E C t"
  by (simp add: jobs_fresh_def)

lemma runs_inv_mono: "runs_inv E C H w \<Longrightarrow> (\<And>b js. H b js \<Longrightarrow> H' b js) \<Longrightarrow> runs_inv E C H' w"
  using run_ordered_mono [of H _ H'] unfolding runs_inv_def by blast

text \<open>A step that leaves the runs and the set of the active ones alone\<close>

lemma runs_inv_frame:
  assumes "runs_inv E C H s" "run_docs t = run_docs s" "active_ids C t = active_ids C s" "uuids s \<le> uuids t"
    "jobs_fresh E C t"
  shows "runs_inv E C H t"
proof -
  have "get_plan_run C i t = get_plan_run C i s" for i
    using assms(2) by (simp add: get_plan_run_def)
  moreover have "pr_id run = i \<and> run_ordered H run \<and> (\<exists>n < uuids t. i = uuid E n)"
    if "get_plan_run C i s = Some run" for i run
    using runs_invD(1-3) [OF assms(1) that] assms(4) less_le_trans by blast
  ultimately show ?thesis using assms(1,3,5) by (simp add: runs_inv_def)
qed

text \<open>A step that leaves all runs but one alone\<close>

lemma runs_inv_closing:
  assumes inv: "runs_inv E C H s" and cl: "closing C c s t" and ord: "run_ordered H c"
    and known: "\<exists>n < uuids t. pr_id c = uuid E n"
  shows "runs_inv E C H t"
proof -
  have same: "same_runs C (pr_id c) s t" and h: "hashes t = hashes s" and u: "uuids s \<le> uuids t"
    using cl by (auto simp: closing_def same_runs_def)
  obtain r where r: "get_plan_run C (pr_id c) t = Some r" "core r = core c"
    using cl by (auto simp: closing_def)
  note rf = core_fields [OF r(2)]
  have one: "pr_id run = i \<and> run_ordered H run \<and> (\<exists>n < uuids t. i = uuid E n)"
    if g: "get_plan_run C i t = Some run" for i run
  proof (cases "i = pr_id c")
    case True
    with g r have "run = r" by simp
    then show ?thesis
      using True rf known ord run_ordered_core [OF r(2)] by simp
  next
    case False
    then have "get_plan_run C i s = Some run" using same g by (simp add: same_runs_def)
    from runs_invD(1-3) [OF inv this] u less_le_trans show ?thesis
      by blast
  qed
  have act: "i \<in> active_ids C t \<longleftrightarrow> (\<exists>run. get_plan_run C i t = Some run \<and> pr_status run = R_RUNNING)" for i
  proof (cases "i = pr_id c")
    case True
    then show ?thesis using cl r rf by (auto simp: closing_def)
  next
    case False
    then have "get_plan_run C i t = get_plan_run C i s" "i \<in> active_ids C t \<longleftrightarrow> i \<in> active_ids C s"
      using same by (simp_all add: same_runs_def)
    then show ?thesis using inv by (simp add: runs_inv_def)
  qed
  show ?thesis
    using one act jobs_fresh_frame [OF h u] inv unfolding runs_inv_def by blast
qed

lemma runs_inv_save:
  assumes "runs_inv E C H w" "keys_ok C" "run_ordered H run" "\<exists>n < uuids w. pr_id run = uuid E n"
  shows "runs_inv E C H (store_run E C run w)"
  by (rule runs_inv_closing [OF assms(1) closing_start [OF assms(2) same_runs_refl refl] assms(3)])
     (simp add: assms(4))

lemma post_runs_save:
  assumes "keys_ok C" "\<And>w. runs_inv E C H w \<and> P w \<Longrightarrow> run_ordered H run \<and> (\<exists>n < uuids w. pr_id run = uuid E n)"
    "\<And>w. P w \<Longrightarrow> P (store_run E C run w)"
  shows "post (\<lambda>w. runs_inv E C H w \<and> P w) (save_run E C run) (\<lambda>_. True)"
  by (rule postI) (use assms runs_inv_save in \<open>auto simp: save_run_def\<close>)

subsection \<open>Advancing keeps the invariant\<close>

lemma next_work_props:
  "i \<le> next_work jobs pending i"
  "g < next_work jobs pending i \<Longrightarrow> i \<le> g \<Longrightarrow> g < length jobs \<and> jobs ! g = [] \<and> (g < length pending \<longrightarrow> pending ! g = [])"
  "next_work jobs pending i < length jobs \<Longrightarrow> jobs ! next_work jobs pending i \<noteq> [] \<or>
     next_work jobs pending i < length pending \<and> pending ! next_work jobs pending i \<noteq> []"
proof (induction jobs pending i rule: next_work.induct)
  case (1 jobs pending i)
  let ?skip = "i < length jobs \<and> jobs ! i = [] \<and> \<not> (i < length pending \<and> pending ! i \<noteq> [])"
  have e: "next_work jobs pending i = (if ?skip then next_work jobs pending (Suc i) else i)"
    by (rule next_work.simps)
  {
    case 1
    show ?case
    proof (cases ?skip)
      case True
      then show ?thesis using "1.IH"(1) [OF True] e by simp
    next
      case False
      then show ?thesis unfolding e by (simp only: if_False order_refl)
    qed
  next
    case 2
    show ?case
    proof (cases ?skip)
      case True
      then show ?thesis using "1.IH"(2) [OF True] 2 e by (cases "g = i") auto
    qed (use 2 e in auto)
  next
    case 3
    show ?case
    proof (cases ?skip)
      case True
      then show ?thesis using "1.IH"(3) [OF True] 3 e by simp
    next
      case False
      then have "next_work jobs pending i = i" unfolding e by (simp only: if_False)
      then show ?thesis using 3 False by simp
    qed
  }
qed

lemma run_ordered_end:
  "run_ordered H run \<Longrightarrow> st \<notin> {R_RUNNING, R_COMPLETED} \<Longrightarrow> run_ordered H (run\<lparr>pr_status := st\<rparr>)"
  by (auto simp: order_defs)

lemma run_ordered_swap:
  "run_ordered H (run\<lparr>pr_status := a, pr_index := n\<rparr>) = run_ordered H (run\<lparr>pr_index := n, pr_status := a\<rparr>)"
  by (simp add: order_defs)

text \<open>Moving on over groups whose jobs are done\<close>

lemma run_ordered_move:
  assumes ord: "run_ordered H run" and r: "pr_status run = R_RUNNING" and le: "pr_index run \<le> nx"
    and over: "\<And>g. pr_index run \<le> g \<Longrightarrow> g < nx \<Longrightarrow> g < length (pr_jobs run) \<Longrightarrow> group_over H run g"
    and full: "\<And>g. pr_index run \<le> g \<Longrightarrow> g < nx \<Longrightarrow> g < length (pr_jobs run) \<Longrightarrow> g < length (pr_pending run) \<Longrightarrow>
      pr_pending run ! g \<noteq> [] \<Longrightarrow> pr_jobs run ! g \<noteq> []"
    and st: "st = R_RUNNING \<or> st = R_COMPLETED \<and> length (pr_jobs run) \<le> nx"
  shows "run_ordered H (run\<lparr>pr_index := nx, pr_status := st\<rparr>)"
proof -
  let ?run = "run\<lparr>pr_index := nx, pr_status := st\<rparr>"
  have st_in: "st = R_RUNNING \<or> st = R_COMPLETED" using st by blast
  have same: "group_over H ?run g = group_over H run g" for g
    using st_in r by (elim disjE) (simp_all add: group_over_def halts_def)
  show ?thesis
    unfolding run_ordered_def same
  proof (intro conjI allI impI)
    fix g assume "g < pr_index ?run \<and> g < length (pr_jobs ?run)"
    then show "group_over H run g"
      using over run_orderedD(2) [OF ord] by (cases "g < pr_index run") simp_all
  next
    fix g assume a: "g < length (pr_jobs ?run) \<and> g < length (pr_pending ?run) \<and> pr_pending ?run ! g \<noteq> [] \<and>
        (g < pr_index ?run \<or> pr_jobs ?run ! g \<noteq> [])"
    then have "g < pr_index run \<or> pr_jobs run ! g \<noteq> []" using full [of g] by (cases "g < pr_index run") auto
    then show "length (pr_jobs ?run ! g) = length (pr_pending ?run ! g)"
      using a run_orderedD(3) [OF ord] by simp
  qed (use le st run_orderedD(1) [OF ord] in auto)
qed

lemma with_group_fields [simp]:
  "pr_jobs (with_group_jobs idx res run) = (pr_jobs run)[idx := er_job_ids res]"
  "pr_index (with_group_jobs idx res run) = pr_index run"
  "pr_pending (with_group_jobs idx res run) = pr_pending run"
  "pr_status (with_group_jobs idx res run) = pr_status run"
  "pr_params (with_group_jobs idx res run) = pr_params run"
  "pr_id (with_group_jobs idx res run) = pr_id run"
  by (simp_all add: with_group_jobs_def record_assigned_targets_def Let_def)

lemma run_ordered_enqueued:
  assumes ord: "run_ordered H run" and r: "pr_status run = R_RUNNING" and le: "pr_index run \<le> idx"
    and lt: "idx < length (pr_jobs run)" "pr_jobs run ! idx = []"
    and skip: "\<And>g. pr_index run \<le> g \<Longrightarrow> g < idx \<Longrightarrow> pr_jobs run ! g = [] \<and>
      (g < length (pr_pending run) \<longrightarrow> pr_pending run ! g = [])"
    and len: "idx < length (pr_pending run) \<Longrightarrow> length (er_job_ids res) = length (pr_pending run ! idx)"
  shows "run_ordered H ((with_group_jobs idx res run)\<lparr>pr_index := idx\<rparr>)"
proof -
  let ?run = "(with_group_jobs idx res run)\<lparr>pr_index := idx\<rparr>"
  have same: "group_over H ?run g = group_over H run g" if "g \<noteq> idx" for g
    using that by (simp add: group_over_def halts_def)
  show ?thesis
    unfolding run_ordered_def
  proof (intro conjI allI impI)
    fix g assume "g < pr_index ?run \<and> g < length (pr_jobs ?run)"
    then have g: "g < idx" "g < length (pr_jobs run)" by simp_all
    then have "group_over H run g"
      using skip [of g] group_over_Nil run_orderedD(2) [OF ord] by (cases "g < pr_index run") simp_all
    then show "group_over H ?run g" using same [of g] g by simp
  next
    fix g assume a: "g < length (pr_jobs ?run) \<and> g < length (pr_pending ?run) \<and> pr_pending ?run ! g \<noteq> [] \<and>
        (g < pr_index ?run \<or> pr_jobs ?run ! g \<noteq> [])"
    show "length (pr_jobs ?run ! g) = length (pr_pending ?run ! g)"
    proof (cases "g = idx")
      case False
      then have "g < pr_index run \<or> pr_jobs run ! g \<noteq> []" using a skip [of g] by (cases "g < pr_index run") auto
      then show ?thesis using a False run_orderedD(3) [OF ord] by simp
    qed (use lt len a in simp)
  next
    fix g assume "pr_index ?run < g \<and> g < length (pr_jobs ?run)"
    then show "pr_jobs ?run ! g = []" using le run_orderedD(1) [OF ord] by simp
  qed (simp add: r)
qed

context enqueue_contract begin

lemma enq_inv:
  assumes "runs_inv E C H w" "enqueue rows A w = (r, t)"
  shows "runs_inv E C H t"
proof -
  have f: "jobs_fresh E C w" using assms(1) by (simp add: runs_inv_def)
  from enq_frame [OF f assms(2)] show ?thesis
    by (intro runs_inv_frame [OF assms(1)]) (simp_all add: active_ids_def smembers_def)
qed

end

subsection \<open>Ending a run keeps the invariant\<close>

lemma finish_inv:
  assumes "runs_inv E C H w" "keys_ok C" "run_ordered H run" "\<exists>n < uuids w. pr_id run = uuid E n"
    "finish_run E C run w = (r, t)"
  shows "runs_inv E C H t"
proof -
  note cl = finish_run_closing [OF assms(2,5)]
  then have "uuids w \<le> uuids t" by (simp add: closing_def same_runs_def)
  then have "\<exists>n < uuids t. pr_id run = uuid E n" using assms(4) less_le_trans by blast
  moreover have "run_ordered H (run\<lparr>pr_finished_at := utc_now_iso E w\<rparr>)"
    using assms(3) by (simp add: order_defs)
  ultimately show ?thesis by (intro runs_inv_closing [OF assms(1) cl]) simp_all
qed

lemma save_touched_inv:
  assumes "runs_inv E C H w" "keys_ok C" "run_ordered H run" "\<exists>n < uuids w. pr_id run = uuid E n"
    "bind_act (save_run E C run) (\<lambda>_. ret_act True) w = (r, t)"
  shows "runs_inv E C H t"
  using runs_inv_save [OF assms(1-4)] assms(5) by (auto simp: bind_act_def save_run_def ret_act_def)

text \<open>\<open>sees C H w\<close>: the history \<open>H\<close> includes what is over in the state \<open>w\<close>.\<close>

definition sees :: "cfg \<Rightarrow> history \<Rightarrow> world \<Rightarrow> bool" where
  "sees C H w \<longleftrightarrow> (\<forall>b js. jobs_over C w b js \<longrightarrow> H b js)"

lemma group_done_inv:
  assumes inv: "runs_inv E C H w" and sees: "sees C H w" and k: "keys_ok C" and g: "get_plan_run C i w = Some run"
    and r: "pr_status run = R_RUNNING" and idx: "idx = pr_index run" "idx < length (pr_jobs run)"
    and st: "states = job_states C w (pr_jobs run ! idx)" "set states \<subseteq> set TERMINAL"
    and ne: "pr_jobs run ! idx \<noteq> []"
    and gd: "group_done E C run idx states w = (rr, t)"
  shows "runs_inv E C H t"
proof -
  note ord = runs_invD(2) [OF inv g]
  have known: "\<exists>n < uuids w. pr_id run = uuid E n" using runs_invD(1,3) [OF inv g] by simp
  let ?nx = "next_work (pr_jobs run) (pr_pending run) (Suc idx)"
  have le: "Suc idx \<le> ?nx" by (rule next_work_props(1))
  have skip: "pr_jobs run ! g' = [] \<and> (g' < length (pr_pending run) \<longrightarrow> pr_pending run ! g' = [])"
    if "Suc idx \<le> g'" "g' < ?nx" for g' using next_work_props(2) [OF that(2,1)] by simp
  have dn: "\<forall>j \<in> set (pr_jobs run ! idx). job_done C w j"
    using st by (auto simp: job_states_def job_done_def)
  have move: "run_ordered H (run\<lparr>pr_index := ?nx, pr_status := s'\<rparr>)"
    if ok: "rn_halt_on_error (pr_params run) \<Longrightarrow> state_value FAILED \<notin> set states"
      and s': "s' = R_RUNNING \<or> s' = R_COMPLETED \<and> length (pr_jobs run) \<le> ?nx" for s'
  proof (rule run_ordered_move [OF ord r _ _ _ s'])
    show "pr_index run \<le> ?nx" using le idx by simp
    fix g' assume a: "pr_index run \<le> g'" "g' < ?nx" "g' < length (pr_jobs run)"
    show "group_over H run g'"
    proof (cases "g' = idx")
      case True
      have "state_or_pending (hgetall (job_key C j) w) \<in> set states" if "j \<in> set (pr_jobs run ! idx)" for j
        using that st(1) by (simp add: job_states_def)
      then have "state_or_pending (hgetall (job_key C j) w) \<noteq> state_value FAILED"
        if "j \<in> set (pr_jobs run ! idx)" "rn_halt_on_error (pr_params run)" for j
        using that ok by metis
      then have "jobs_over C w (rn_halt_on_error (pr_params run)) (pr_jobs run ! idx)"
        using dn by (auto simp: jobs_over_def)
      then have "H (rn_halt_on_error (pr_params run)) (pr_jobs run ! idx)" using sees by (simp add: sees_def)
      then show ?thesis using True
        by (cases "rn_halt_on_error (pr_params run)") (simp_all add: group_over_def halts_def)
    next
      case False
      then show ?thesis using skip [of g'] a idx group_over_Nil by simp
    qed
    show "pr_pending run ! g' \<noteq> [] \<Longrightarrow> g' < length (pr_pending run) \<Longrightarrow> pr_jobs run ! g' \<noteq> []"
      using skip [of g'] a idx ne by (cases "g' = idx") auto
  qed
  let ?failed = "filter (\<lambda>s. s = state_value FAILED) states"
  have nof: "\<not> (?failed \<noteq> [] \<and> rn_halt_on_error (pr_params run)) \<Longrightarrow> rn_halt_on_error (pr_params run) \<Longrightarrow>
      state_value FAILED \<notin> set states" by (auto simp: filter_empty_conv)
  consider (failed) "finish_run E C (run\<lparr>pr_status := R_FAILED, pr_error := group_failed_text (length ?failed) idx\<rparr>) w = (rr, t)"
    | (cancelled) "finish_run E C (run\<lparr>pr_status := R_CANCELLED\<rparr>) w = (rr, t)"
    | (completed) "rn_halt_on_error (pr_params run) \<Longrightarrow> state_value FAILED \<notin> set states"
        "length (pr_jobs run) \<le> ?nx" "finish_run E C (run\<lparr>pr_status := R_COMPLETED, pr_index := ?nx\<rparr>) w = (rr, t)"
    | (move) "rn_halt_on_error (pr_params run) \<Longrightarrow> state_value FAILED \<notin> set states"
        "bind_act (save_run E C (run\<lparr>pr_index := ?nx\<rparr>)) (\<lambda>_. ret_act True) w = (rr, t)"
    using gd nof unfolding group_done_def Let_def by (auto split: if_splits)
  then show ?thesis
  proof cases
    case failed
    have "run_ordered H (run\<lparr>pr_status := R_FAILED, pr_error := group_failed_text (length ?failed) idx\<rparr>)"
      using run_ordered_end [OF ord, of R_FAILED] by (simp add: order_defs)
    from finish_inv [OF inv k this _ failed] known show ?thesis by simp
  next
    case cancelled
    from finish_inv [OF inv k run_ordered_end [OF ord] _ cancelled] known show ?thesis by simp
  next
    case completed
    have "run_ordered H (run\<lparr>pr_status := R_COMPLETED, pr_index := ?nx\<rparr>)"
      using move [of R_COMPLETED] completed(1,2) by (simp add: run_ordered_swap)
    from finish_inv [OF inv k this _ completed(3)] known show ?thesis by simp
  next
    case move': move
    have "run_ordered H (run\<lparr>pr_index := ?nx\<rparr>)"
      using move [of R_RUNNING] move'(1) r by (simp add: order_defs)
    from save_touched_inv [OF inv k this _ move'(2)] known show ?thesis by simp
  qed
qed

context enqueue_contract begin

lemma enqueue_group_inv:
  assumes inv: "runs_inv E C H w" and k: "keys_ok C" and g: "get_plan_run C i w = Some run"
    and r: "pr_status run = R_RUNNING"
    and idx: "idx = next_work (pr_jobs run) (pr_pending run) (pr_index run)" "idx < length (pr_jobs run)"
      "pr_jobs run ! idx = []"
    and eg: "enqueue_group E C enqueue run idx w = (rr, t)"
  shows "runs_inv E C H t"
proof -
  have pend: "idx < length (pr_pending run)" "pr_pending run ! idx \<noteq> []"
    using next_work_props(3) [of "pr_jobs run" "pr_pending run" "pr_index run"] idx by auto
  have le: "pr_index run \<le> idx" unfolding idx(1) by (rule next_work_props(1))
  have skip: "pr_jobs run ! g' = [] \<and> (g' < length (pr_pending run) \<longrightarrow> pr_pending run ! g' = [])"
    if "pr_index run \<le> g'" "g' < idx" for g'
    using next_work_props(2) [OF that(2) [unfolded idx(1)] that(1)] by simp
  have f: "jobs_fresh E C w" using inv by (simp add: runs_inv_def)
  define A where "A = run_enqueue_args run idx (next_vmid_of run) (or_default (rn_restore_mode (pr_params run)) ''normal'')"
  obtain r1 w1 where e: "enqueue (pr_pending run ! idx) A w = (r1, w1)"
    by (cases "enqueue (pr_pending run ! idx) A w")
  have inv1: "runs_inv E C H w1" by (rule enq_inv [OF inv e])
  have g1: "get_plan_run C i w1 = Some run" using enq_frame [OF f e] g by (simp add: get_plan_run_def)
  show ?thesis
  proof (cases r1)
    case (Inl x)
    then have "t = w1" using eg e pend by (auto simp: enqueue_group_def bind_act_def A_def)
    then show ?thesis using inv1 by simp
  next
    case (Inr res)
    have ord: "run_ordered H ((with_group_jobs idx res run)\<lparr>pr_index := idx\<rparr>)"
      using runs_invD(2) [OF inv1 g1] r le idx(2,3) skip
        enq_new [OF f e [unfolded Inr]] by (intro run_ordered_enqueued) auto
    have "bind_act (save_run E C ((with_group_jobs idx res run)\<lparr>pr_index := idx\<rparr>)) (\<lambda>_. ret_act True) w1 = (rr, t)"
      using eg e pend Inr by (auto simp: enqueue_group_def bind_act_def A_def)
    from save_touched_inv [OF inv1 k ord _ this] runs_invD(1,3) [OF inv1 g1] show ?thesis by simp
  qed
qed

lemma advance_run_inv:
  assumes inv: "runs_inv E C H w" and sees: "sees C H w" and k: "keys_ok C" and g: "get_plan_run C i w = Some run"
    and r: "pr_status run = R_RUNNING" and ar: "advance_run E C enqueue run w = (rr, t)"
  shows "runs_inv E C H t"
proof -
  let ?idx = "next_work (pr_jobs run) (pr_pending run) (pr_index run)"
  note ord = runs_invD(2) [OF inv g]
  have known: "\<exists>n < uuids w. pr_id run = uuid E n" using runs_invD(1,3) [OF inv g] by simp
  have le: "pr_index run \<le> ?idx" by (rule next_work_props(1))
  have skip: "pr_jobs run ! g' = [] \<and> (g' < length (pr_pending run) \<longrightarrow> pr_pending run ! g' = [])"
    if "pr_index run \<le> g'" "g' < ?idx" for g'
    using next_work_props(2) [OF that(2,1)] by simp
  consider (over) "length (pr_jobs run) \<le> ?idx"
      "finish_run E C (run\<lparr>pr_status := R_COMPLETED, pr_index := ?idx\<rparr>) w = (rr, t)"
    | (enqueue) "?idx < length (pr_jobs run)" "pr_jobs run ! ?idx = []"
      "enqueue_group E C enqueue run ?idx w = (rr, t)"
    | (wait) "t = w"
    | (finished) "?idx < length (pr_jobs run)" "pr_jobs run ! ?idx \<noteq> []"
      "set (job_states C w (pr_jobs run ! ?idx)) \<subseteq> set TERMINAL"
      "group_done E C run ?idx (job_states C w (pr_jobs run ! ?idx)) w = (rr, t)"
    using ar by (auto simp: advance_run_def Let_def bind_act_def get_act_def ret_act_def not_le split: if_splits)
  then show ?thesis
  proof cases
    case over
    have "run_ordered H (run\<lparr>pr_index := ?idx, pr_status := R_COMPLETED\<rparr>)"
      by (rule run_ordered_move [OF ord r le]) (use skip group_over_Nil over(1) in auto)
    then have "run_ordered H (run\<lparr>pr_status := R_COMPLETED, pr_index := ?idx\<rparr>)"
      by (simp add: run_ordered_swap)
    from finish_inv [OF inv k this _ over(2)] known show ?thesis by simp
  next
    case enqueue
    then show ?thesis using enqueue_group_inv [OF inv k g r refl] by blast
  next
    case wait
    then show ?thesis using inv by simp
  next
    case finished
    have "\<not> pr_index run < ?idx" using run_orderedD(1) [OF ord, of ?idx] finished(1,2) by blast
    then have "?idx = pr_index run" using le by simp
    from group_done_inv [OF inv sees k g r this finished(1) refl finished(3,2,4)] show ?thesis .
  qed
qed

lemma advance_one_inv:
  assumes inv: "runs_inv E C H w" and sees: "sees C H w" and k: "keys_ok C" and ao: "advance_one E C enqueue i w = (rr, t)"
  shows "runs_inv E C H t"
proof (cases "\<exists>run. get_plan_run C i w = Some run \<and> pr_status run = R_RUNNING")
  case True
  then show ?thesis using ao advance_run_inv [OF inv sees k] by (auto simp: advance_one_def)
next
  case False
  then have t: "t = srem (active_plan_runs_key C) i w"
    using ao by (auto simp: advance_one_def split: option.splits if_splits)
  have "i \<notin> active_ids C w" using False inv by (auto simp: runs_inv_def)
  then have "active_ids C t = active_ids C w" unfolding t by (auto simp: active_ids_def)
  moreover have "get_plan_run C j t = get_plan_run C j w" for j unfolding t by (simp add: get_plan_run_def)
  moreover have "jobs_fresh E C t = jobs_fresh E C w" "uuids t = uuids w"
    unfolding t by (simp_all add: jobs_fresh_def)
  ultimately show ?thesis using inv by (simp add: runs_inv_def)
qed

end

subsection \<open>Teardown and cancellation\<close>

lemma closing_stored:
  assumes "runs_inv E C H w" "get_plan_run C i w = Some run"
  shows "closing C run w w"
  using assms runs_invD [OF assms] by (auto simp: closing_def)

lemma teardown_inv:
  assumes inv: "runs_inv E C H w" and k: "keys_ok C" and td: "teardown_plan_run_id E C i w = (r, t)"
  shows "runs_inv E C H t" "get_plan_run C i w = Some run \<Longrightarrow> closing C run w t"
proof -
  show cl: "closing C run w t" if g: "get_plan_run C i w = Some run" for run
    using postD(1) [OF post_teardown [OF k refl] closing_stored [OF inv g]] td g
    by (auto simp: teardown_plan_run_id_def)
  show "runs_inv E C H t"
  proof (cases "get_plan_run C i w")
    case None
    then show ?thesis using td inv by (auto simp: teardown_plan_run_id_def)
  next
    case (Some run)
    note c = cl [OF Some]
    then have "uuids w \<le> uuids t" by (simp add: closing_def same_runs_def)
    then have "\<exists>n < uuids t. pr_id run = uuid E n"
      using runs_invD(1,3) [OF inv Some] less_le_trans by blast
    then show ?thesis by (rule runs_inv_closing [OF inv c runs_invD(2) [OF inv Some]])
  qed
qed

text \<open>Cancelling a job changes the state of a pending job only.\<close>

definition cancels :: "world \<Rightarrow> world \<Rightarrow> bool" where
  "cancels s t \<longleftrightarrow> run_docs t = run_docs s \<and> sets t = sets s \<and> uuids t = uuids s \<and>
     fst ` set (hashes t) = fst ` set (hashes s) \<and> strs t = strs s \<and> calls t = calls s"

lemma cancels_trans: "cancels a b \<Longrightarrow> cancels b c \<Longrightarrow> cancels a c"
  by (auto simp: cancels_def)

lemma cancels_refl: "cancels w w"
  by (simp add: cancels_def)

lemma hset_existing_keys:
  "hgetall key s \<noteq> [] \<Longrightarrow> fst ` set (hashes (hset key m s)) = fst ` set (hashes s)"
  using hset_keys [of key m s] hgetall_not_Nil_key [of key s] by (simp add: insert_absorb)

lemma world_frame [simp]:
  "run_docs (hset k m (w :: world)) = run_docs w" "sets (hset k m (w :: world)) = sets w"
  "run_docs (lrem_all k x (w :: world)) = run_docs w" "sets (lrem_all k x (w :: world)) = sets w"
  by (simp_all add: hset_def lrem_all_def set_list_def)

lemma lrem_frame [simp]:
  "hashes (lrem_all k x s) = hashes s" "strs (lrem_all k x s) = strs s" "calls (lrem_all k x s) = calls s"
  "uuids (lrem_all k x s) = uuids s" "hgetall j (lrem_all k x s) = hgetall j s"
  by (simp_all add: lrem_all_def)

lemma cancel_job_cancels: "cancel_job E C j (n, w) = (n', w') \<Longrightarrow> cancels w w'"
proof -
  assume c: "cancel_job E C j (n, w) = (n', w')"
  let ?d = "hgetall (job_key C j) w"
  have keep: "cancels w (hset (job_key C j) m w)" "cancels w (lrem_all q j (hset (job_key C j) m w))"
    if "?d \<noteq> []" for m q
    using hset_existing_keys [OF that] by (simp_all add: cancels_def)
  show ?thesis
    using c by (cases n) (auto simp: cancel_job_def Let_def cancels_refl split: if_splits intro!: keep)
qed

lemma cancel_fold_cancels: "fold (cancel_job E C) js (n, w) = (n', w') \<Longrightarrow> cancels w w'"
proof (induction js arbitrary: n w)
  case (Cons j js)
  obtain n1 w1 where 1: "cancel_job E C j (n, w) = (n1, w1)" by (cases "cancel_job E C j (n, w)")
  then have "fold (cancel_job E C) js (n1, w1) = (n', w')" using Cons.prems by simp
  then show ?case by (rule cancels_trans [OF cancel_job_cancels [OF 1] Cons.IH])
qed (simp add: cancels_def)

lemma cancels_inv: "runs_inv E C H w \<Longrightarrow> cancels w w' \<Longrightarrow> runs_inv E C H w'"
  by (rule runs_inv_frame) (auto simp: cancels_def jobs_fresh_def runs_inv_def active_ids_def smembers_def)

lemma cancel_closing:
  assumes inv: "runs_inv E C H w" and k: "keys_ok C" and g: "get_plan_run C i w = Some run"
    and r: "pr_status run = R_RUNNING" and ca: "cancel_plan_run E C i w = (rr, t)"
  obtains stats w1 c where "fold (cancel_job E C) (all_job_ids run) ((0, 0), w) = (stats, w1)" "closing C c w1 t"
    "c = run\<lparr>pr_pending := [], pr_status := R_CANCELLED, pr_finished_at := utc_now_iso E w1,
        pr_error := or_default (pr_error run) ''Cancelled by operator'', pr_cancel_stats := Some stats\<rparr>"
proof -
  obtain stats w1 where f: "fold (cancel_job E C) (all_job_ids run) ((0, 0), w) = (stats, w1)"
    by (cases "fold (cancel_job E C) (all_job_ids run) ((0, 0), w)")
  let ?c = "run\<lparr>pr_pending := [], pr_status := R_CANCELLED, pr_finished_at := utc_now_iso E w1,
        pr_error := or_default (pr_error run) ''Cancelled by operator'', pr_cancel_stats := Some stats\<rparr>"
  have 1: "closing C ?c w1 (store_run E C ?c w1)" by (rule closing_start [OF k]) simp_all
  obtain r2 w2 where fin: "finalize_plan_run_report E C ?c (store_run E C ?c w1) = (r2, w2)"
    by (cases "finalize_plan_run_report E C ?c (store_run E C ?c w1)")
  have "closing C ?c w1 w2" by (rule postD(1) [OF post_finalize [OF k refl] 1 fin])
  moreover have "t = w2"
    using ca g r f fin by (auto simp: cancel_plan_run_def bind_act_def save_run_def split: sum.splits)
  ultimately show ?thesis using that f by blast
qed

lemma cancel_inv:
  assumes inv: "runs_inv E C H w" and k: "keys_ok C" and ca: "cancel_plan_run E C i w = (rr, t)"
  shows "runs_inv E C H t"
proof (cases "\<exists>run. get_plan_run C i w = Some run \<and> pr_status run = R_RUNNING")
  case False
  then have "t = w" using ca by (auto simp: cancel_plan_run_def split: option.splits if_splits)
  then show ?thesis using inv by simp
next
  case True
  then obtain run where g: "get_plan_run C i w = Some run" and r: "pr_status run = R_RUNNING" by blast
  obtain stats w1 c where f: "fold (cancel_job E C) (all_job_ids run) ((0, 0), w) = (stats, w1)"
    and cl: "closing C c w1 t"
    and c: "c = run\<lparr>pr_pending := [], pr_status := R_CANCELLED, pr_finished_at := utc_now_iso E w1,
        pr_error := or_default (pr_error run) ''Cancelled by operator'', pr_cancel_stats := Some stats\<rparr>"
    by (rule cancel_closing [OF inv k g r ca])
  have inv1: "runs_inv E C H w1" by (rule cancels_inv [OF inv cancel_fold_cancels [OF f]])
  have u: "uuids w1 = uuids w" using cancel_fold_cancels [OF f] by (simp add: cancels_def)
  have "run_ordered H c"
    using runs_invD(2) [OF inv g] unfolding c by (auto simp: order_defs)
  moreover have "uuids w1 \<le> uuids t" using cl by (simp add: closing_def same_runs_def)
  then have "\<exists>n < uuids t. pr_id c = uuid E n"
    using runs_invD(1,3) [OF inv g] u less_le_trans unfolding c by fastforce
  ultimately show ?thesis by (intro runs_inv_closing [OF inv1 cl])
qed

subsection \<open>Starting a run\<close>

definition starting :: "env \<Rightarrow> cfg \<Rightarrow> history \<Rightarrow> world \<Rightarrow> string \<Rightarrow> world \<Rightarrow> bool" where
  "starting E C H w0 i w \<longleftrightarrow> runs_inv E C H w \<and> (\<exists>n < uuids w. i = uuid E n) \<and>
     (\<forall>k. k \<noteq> i \<longrightarrow> get_plan_run C k w = get_plan_run C k w0)"

lemma post_start_save:
  "keys_ok C \<Longrightarrow> pr_id run = i \<Longrightarrow> run_ordered H run \<Longrightarrow>
     post (starting E C H w0 i) (save_run E C run) (\<lambda>_. True)"
  by (rule postI) (auto simp: starting_def save_run_def intro: runs_inv_save)

lemma post_start_plan:
  "keys_ok C \<Longrightarrow> post (starting E C H w0 i) (upd_act (save_plan_doc E C d)) (\<lambda>_. True)"
proof (rule postI)
  fix w r t assume k: "keys_ok C" and s: "starting E C H w0 i w" and u: "upd_act (save_plan_doc E C d) w = (r, t)"
  have t: "t = save_plan_doc E C d w" using u by (simp add: upd_act_def)
  have "get_plan_run C j t = get_plan_run C j w" "active_ids C t = active_ids C w" "hashes t = hashes w"
    "uuids t = uuids w" for j
    using k unfolding t
    by (simp_all add: save_plan_doc_def save_entity_def Let_def active_ids_def keys_ok_def get_plan_run_def)
  moreover have "jobs_fresh E C t = jobs_fresh E C w" using calculation by (simp add: jobs_fresh_def)
  ultimately show "starting E C H w0 i t \<and> (\<forall>x. r = Inr x \<longrightarrow> True)"
    using s by (simp add: starting_def runs_inv_def)
qed

lemma first_group_props:
  assumes "\<not> (\<forall>rows \<in> set rs. rows = [])"
  shows "first_group rs < length rs" "rs ! first_group rs \<noteq> []" "g < first_group rs \<Longrightarrow> rs ! g = []"
proof -
  let ?P = "\<lambda>rows :: dict list. rows = []"
  have lt: "length (takeWhile ?P rs) < length rs"
  proof (rule ccontr)
    assume "\<not> ?thesis"
    then have "takeWhile ?P rs = rs"
      by (metis length_takeWhile_le not_less order_antisym takeWhile_eq_take take_all)
    then show False using assms set_takeWhileD [of _ ?P rs] by metis
  qed
  show "first_group rs < length rs" "rs ! first_group rs \<noteq> []"
    using lt nth_length_takeWhile [OF lt] by (simp_all add: first_group_def)
  show "g < first_group rs \<Longrightarrow> rs ! g = []"
  proof -
    assume g: "g < first_group rs"
    then have "takeWhile ?P rs ! g \<in> set (takeWhile ?P rs)" by (simp add: first_group_def)
    then show "rs ! g = []"
      using g set_takeWhileD [of _ ?P rs] by (simp add: first_group_def takeWhile_nth)
  qed
qed

lemma map_res_nth:
  "map_res f xs = Inr ys \<Longrightarrow> i < length xs \<Longrightarrow> f (xs ! i) = Inr (ys ! i)"
  by (auto simp: map_res_Inr_iff dest: list_all2_nthD)

lemma pending_lengths:
  assumes "map_res (map_res pending_row) rs = Inr ps"
  shows "length ps = length rs" "g < length rs \<Longrightarrow> length (ps ! g) = length (rs ! g)"
  using map_res_length [OF assms] map_res_length [OF map_res_nth [OF assms]] by simp_all

context enqueue_contract begin

lemma post_start_enqueue:
  "post (starting E C H w0 i) (enqueue rows A) (\<lambda>res. length (er_job_ids res) = length rows)"
proof (rule postI)
  fix w r t assume s: "starting E C H w0 i w" and e: "enqueue rows A w = (r, t)"
  then have f: "jobs_fresh E C w" by (simp add: starting_def runs_inv_def)
  show "starting E C H w0 i t \<and> (\<forall>x. r = Inr x \<longrightarrow> length (er_job_ids x) = length rows)"
    using s e enq_inv enq_frame [OF f e] enq_new [OF f] less_le_trans
    unfolding starting_def get_plan_run_def by fastforce
qed

lemma start_after_shell:
  fixes i :: string and rs :: "dict list list" and p :: run_params
  assumes k: "keys_ok C" and n: "length (rn_group_ids p) = length rs" and ne: "\<not> (\<forall>rows \<in> set rs. rows = [])"
  defines "start \<equiv> first_group rs"
  defines "shell \<equiv> new_run i p start"
  shows "post (starting E C H w0 i)
    (bind_act (save_run E C shell) (\<lambda>_.
     bind_act (enqueue (rs ! start) A) (\<lambda>res.
     let run1 = with_group_jobs start res shell;
         run2 = (if pr_next_vmid run1 \<in> {None, Some 0}
                 then run1\<lparr>pr_next_vmid := Some (rn_vmid_start p)\<rparr> else run1) in
     bind_act (save_run E C run2) (\<lambda>_.
     bind_act (res_act (map_res (map_res pending_row) rs)) (\<lambda>pending.
     let run3 = run2\<lparr>pr_pending := pending\<rparr> in
     bind_act (save_run E C run3) (\<lambda>_.
     bind_act (upd_act (save_plan_doc E C d)) (\<lambda>_. ret_act run3))))))) (\<lambda>_. True)"
proof -
  note fg = first_group_props [OF ne, folded start_def]
  have shell_ord: "run_ordered H shell"
    using n fg(1) by (auto simp: shell_def new_run_def order_defs)
  have r1: "run_ordered H (with_group_jobs start res shell)" for res
    using n fg(1) by (auto simp: shell_def new_run_def order_defs)
  have r3: "run_ordered H ((with_group_jobs start res shell)\<lparr>pr_pending := ps\<rparr>)"
    if "length (er_job_ids res) = length (rs ! start)" "map_res (map_res pending_row) rs = Inr ps" for res ps
    using n fg that pending_lengths [OF that(2)]
    by (auto simp: shell_def new_run_def order_defs nth_list_update split: if_splits)
  have vm: "run_ordered H (run\<lparr>pr_next_vmid := v\<rparr>) = run_ordered H run"
    "run_ordered H (run\<lparr>pr_next_vmid := v, pr_pending := ps\<rparr>) = run_ordered H (run\<lparr>pr_pending := ps\<rparr>)" for run v ps
    by (simp_all add: order_defs)
  have id: "pr_id shell = i" by (simp add: shell_def new_run_def)
  have res: "post (starting E C H w0 i) (res_act (map_res (map_res pending_row) rs))
      (\<lambda>ps. map_res (map_res pending_row) rs = Inr ps)"
    by (simp add: post_def res_act_def)
  show ?thesis
    unfolding Let_def
    by (intro post_bind [OF post_start_save [OF k id shell_ord]] post_bind [OF post_start_enqueue]
        post_bind [OF post_start_save [OF k]] post_bind [OF res] post_bind [OF post_start_plan [OF k]]
        post_ret TrueI) (simp_all add: id vm r1 r3)
qed

lemma start_inv:
  assumes inv: "runs_inv E C H w" and k: "keys_ok C"
    and st: "start_plan_run E C enqueue plan location cutoff rs A w = (r, t)"
  shows "runs_inv E C H t \<and> (\<forall>k. k \<noteq> uuid E (uuids w) \<longrightarrow> get_plan_run C k t = get_plan_run C k w)"
proof -
  let ?w1 = "w\<lparr>uuids := Suc (uuids w)\<rparr>" and ?i = "uuid E (uuids w)"
  have inv1: "starting E C H w ?i ?w1"
  proof -
    have "runs_inv E C H ?w1"
      using inv by (intro runs_inv_frame [OF inv]) (auto simp: runs_inv_def jobs_fresh_def active_ids_def smembers_def)
    then show ?thesis by (auto simp: starting_def get_plan_run_def)
  qed
  show ?thesis
  proof (cases "t = w \<or> t = ?w1")
    case True
    then show ?thesis using inv inv1 by (auto simp: starting_def)
  next
    case False
    obtain gids where g: "need_key plan ''group_ids'' = Inr gids" "length rs = length (strs_of gids)"
        "\<not> (\<forall>rows \<in> set rs. rows = [])"
      using st False by (cases "need_key plan ''group_ids''")
        (auto simp: start_plan_run_def bind_act_def res_act_def raise_act_def split: if_splits)
    obtain p where p: "run_params_of plan location cutoff (utc_now_iso E ?w1) A = Inr p"
      using st False g by (cases "run_params_of plan location cutoff (utc_now_iso E ?w1) A")
        (auto simp: start_plan_run_def bind_act_def res_act_def raise_act_def new_uuid_def get_act_def)
    have "dget plan ''group_ids'' = gids"
      using g(1) by (auto simp: need_key_def dget_def dget_or_def split: option.splits)
    then have n: "length (rn_group_ids p) = length rs"
      using p g(2) by (auto simp: run_params_of_def or_list_def)
    show ?thesis
      using postD(1) [OF start_after_shell [OF k n g(3)] inv1] st g p
      unfolding start_plan_run_def Let_def
      by (auto simp: bind_act_def [of "res_act _"] bind_act_def [of "new_uuid E"] bind_act_def [of "get_act _"]
          res_act_def new_uuid_def get_act_def starting_def)
  qed
qed

end

subsection \<open>The other components\<close>

text \<open>
  What every other operation does to the runs: nothing. It writes no run and leaves the set of the
  active ones as it is; new ids are drawn, not made up. What it does to the jobs is not restricted:
  they may progress, be cancelled, be purged or expire.
\<close>

definition leaves_runs :: "env \<Rightarrow> cfg \<Rightarrow> world \<Rightarrow> world \<Rightarrow> bool" where
  "leaves_runs E C s t \<longleftrightarrow>
     run_docs t = run_docs s \<and> active_ids C t = active_ids C s \<and> uuids s \<le> uuids t \<and>
     (jobs_fresh E C s \<longrightarrow> jobs_fresh E C t)"

lemma leaves_inv: "runs_inv E C H w \<Longrightarrow> leaves_runs E C w t \<Longrightarrow> runs_inv E C H t"
  by (rule runs_inv_frame) (auto simp: leaves_runs_def runs_inv_def)

lemma leaves_refl: "leaves_runs E C s s"
  by (simp add: leaves_runs_def)

lemma leaves_trans: "leaves_runs E C a b \<Longrightarrow> leaves_runs E C b c \<Longrightarrow> leaves_runs E C a c"
  by (auto simp: leaves_runs_def)

text \<open>An operation on the Redis part that adds no hash\<close>

lemma leaves_keys:
  fixes s t :: world
  assumes "store.more t = store.more s" "uuids s \<le> uuids t" "fst ` set (hashes t) \<subseteq> fst ` set (hashes s)"
  shows "leaves_runs E C s t"
proof -
  have "jobs_fresh E C s \<longrightarrow> jobs_fresh E C t"
    using assms(2,3) unfolding jobs_fresh_def by (blast intro: order_trans)
  with store_more_world [OF assms(1)] assms(2) show ?thesis
    by (simp add: leaves_runs_def active_ids_def smembers_def)
qed

lemma job_rel_leaves:
  fixes s t :: world
  assumes "job_rel C j F S s t" "hgetall (job_key C j) s \<noteq> []"
  shows "leaves_runs E C s t"
proof -
  have "k \<in> fst ` set (hashes s)" if kt: "k \<in> fst ` set (hashes t)" for k
  proof (cases "k = job_key C j")
    case True
    then show ?thesis using hgetall_not_Nil_key [OF assms(2)] by simp
  next
    case False
    then have "map_of (hashes t) k = map_of (hashes s) k" using assms(1) by (simp add: job_rel_def)
    then show ?thesis using kt by (metis map_of_eq_None_iff)
  qed
  then show ?thesis using assms(1) by (intro leaves_keys) (auto simp: job_rel_def)
qed

lemma release_slot_leaves: "leaves_runs E C u (release_slot C u)"
  by (rule leaves_keys) (auto simp: release_slot_def incr_by_def set_str_def split: option.splits)

text \<open>A worker that runs a job, whatever its state is\<close>

lemma run_job_leaves:
  assumes "run_job E C metrics j w = (r, t)"
  shows "leaves_runs E C w t"
proof -
  let ?h = "\<lambda>e. bind_act (set_state E C j FAILED [(''error'', exn_str e), (''progress'', ''0'')]) (\<lambda>_.
          append_log E C j ''ERROR'' ''FAILED'' (exn_str e))"
  have k: "keeps (job_rel C j UNIV UNIV) (catch_act (process_job E C metrics j) ?h)"
    by (intro job.keeps_catch keeps_process_job job.keeps_bind keeps_set_state keeps_append_log) simp
  obtain r1 u where c: "catch_act (process_job E C metrics j) ?h w = (r1, u)"
    by (cases "catch_act (process_job E C metrics j) ?h w")
  have p: "leaves_runs E C w u"
  proof (cases "hgetall (job_key C j) w = []")
    case True
    then have "u = w" using c by (simp add: process_job_start(1) catch_act_def)
    then show ?thesis by (simp add: leaves_refl)
  next
    case False
    then show ?thesis by (rule job_rel_leaves [OF keepsD [OF k c]])
  qed
  moreover have "t = u \<or> t = release_slot C u"
    using assms c by (cases r1) (auto simp: run_job_def bind_act_def upd_act_def)
  ultimately show ?thesis using leaves_trans release_slot_leaves by blast
qed

subsection \<open>The steps\<close>

inductive plan_step :: "env \<Rightarrow> cfg \<Rightarrow> enqueue_fn \<Rightarrow> world \<Rightarrow> world \<Rightarrow> bool"
  for E :: env and C :: cfg and enqueue :: enqueue_fn where
  step_start: "start_plan_run E C enqueue plan location cutoff rows A w = (r, w') \<Longrightarrow> plan_step E C enqueue w w'"
| step_advance: "advance_one E C enqueue i w = (r1, w') \<Longrightarrow> plan_step E C enqueue w w'"
| step_cancel: "cancel_plan_run E C i w = (r2, w') \<Longrightarrow> plan_step E C enqueue w w'"
| step_teardown: "teardown_plan_run_id E C i w = (r3, w') \<Longrightarrow> plan_step E C enqueue w w'"
| step_enqueue: "enqueue job_rows args w = (r4, w') \<Longrightarrow> plan_step E C enqueue w w'"
| step_work: "run_job E C metrics j w = (r5, w') \<Longrightarrow> plan_step E C enqueue w w'"
| step_other: "leaves_runs E C w w' \<Longrightarrow> plan_step E C enqueue w w'"

text \<open>The history of a state: what was over in some state on a path to it\<close>

definition been_over :: "env \<Rightarrow> cfg \<Rightarrow> enqueue_fn \<Rightarrow> world \<Rightarrow> world \<Rightarrow> history" where
  "been_over E C enqueue w0 w b js \<longleftrightarrow>
     (\<exists>u. (plan_step E C enqueue)\<^sup>*\<^sup>* w0 u \<and> (plan_step E C enqueue)\<^sup>*\<^sup>* u w \<and> jobs_over C u b js)"

context enqueue_contract begin

lemma step_inv:
  "plan_step E C enqueue w w' \<Longrightarrow> keys_ok C \<Longrightarrow> sees C H w \<Longrightarrow> runs_inv E C H w \<Longrightarrow> runs_inv E C H w'"
proof (induction rule: plan_step.induct)
  case (step_work metrics j w r5 w')
  then show ?case using leaves_inv run_job_leaves by blast
next
  case (step_start plan location cutoff rows A w r w')
  then show ?case using start_inv by blast
qed (auto intro: advance_one_inv cancel_inv teardown_inv(1) enq_inv leaves_inv)

lemma reach_inv:
  assumes "(plan_step E C enqueue)\<^sup>*\<^sup>* w0 w" "keys_ok C" "runs_inv E C (\<lambda>b js. False) w0"
  shows "runs_inv E C (been_over E C enqueue w0 w) w"
  using assms(1)
proof (induction rule: rtranclp_induct)
  case base
  show ?case by (rule runs_inv_mono [OF assms(3)]) simp
next
  case (step y z)
  have "sees C (been_over E C enqueue w0 y) y"
    using step.hyps(1) by (auto simp: sees_def been_over_def)
  from step_inv [OF step.hyps(2) assms(2) this step.IH]
  have "runs_inv E C (been_over E C enqueue w0 y) z" .
  then show ?case
  proof (rule runs_inv_mono)
    fix b js assume "been_over E C enqueue w0 y b js"
    then show "been_over E C enqueue w0 z b js"
      unfolding been_over_def using step.hyps(2) rtranclp.rtrancl_into_rtrancl by metis
  qed
qed

text \<open>A run that has ended is never written again, but for its report, teardown and assurance.\<close>

lemma advance_other:
  assumes k: "keys_ok C" and inv: "runs_inv E C H w" and ao: "advance_one E C enqueue j w = (rr, t)"
  shows "i \<noteq> j \<or> (\<forall>run. get_plan_run C i w = Some run \<longrightarrow> pr_status run \<noteq> R_RUNNING) \<Longrightarrow>
    get_plan_run C i t = get_plan_run C i w"
proof (cases "\<exists>run. get_plan_run C j w = Some run \<and> pr_status run = R_RUNNING")
  case False
  then have "t = srem (active_plan_runs_key C) j w"
    using ao by (auto simp: advance_one_def split: option.splits if_splits)
  then show "get_plan_run C i t = get_plan_run C i w" by (simp add: get_plan_run_def)
next
  case True
  then obtain run where g: "get_plan_run C j w = Some run" and r: "pr_status run = R_RUNNING" by blast
  assume "i \<noteq> j \<or> (\<forall>run. get_plan_run C i w = Some run \<longrightarrow> pr_status run \<noteq> R_RUNNING)"
  then have ij: "i \<noteq> j" using g r by blast
  have id: "pr_id run = j" by (rule runs_invD(1) [OF inv g])
  have f: "jobs_fresh E C w" using inv by (simp add: runs_inv_def)
  have fin: "get_plan_run C i t = get_plan_run C i w" if "finish_run E C run' w = (rr, t)" "pr_id run' = j" for run'
    using finish_run_closing [OF k that(1)] that(2) ij by (simp add: closing_def same_runs_def)
  have sv: "get_plan_run C i t = get_plan_run C i v"
    if "bind_act (save_run E C run') (\<lambda>_. ret_act True) v = (rr, t)" "pr_id run' = j" for run' v
    using that ij by (auto simp: bind_act_def save_run_def ret_act_def)
  let ?idx = "next_work (pr_jobs run) (pr_pending run) (pr_index run)"
  have eg: "get_plan_run C i t = get_plan_run C i w" if "enqueue_group E C enqueue run ?idx w = (rr, t)"
  proof -
    let ?rows = "if ?idx < length (pr_pending run) then pr_pending run ! ?idx else []"
    let ?A = "run_enqueue_args run ?idx (next_vmid_of run) (or_default (rn_restore_mode (pr_params run)) ''normal'')"
    obtain r1 w1 where e: "enqueue ?rows ?A w = (r1, w1)" by (cases "enqueue ?rows ?A w")
    have "get_plan_run C i w1 = get_plan_run C i w" using enq_frame [OF f e] by (simp add: get_plan_run_def)
    then show ?thesis
      using that sv [of "run\<lparr>pr_index := Suc ?idx\<rparr>" w] sv [of _ w1] e id
      by (cases r1) (auto simp: enqueue_group_def Let_def bind_act_eval split: if_splits)
  qed
  have ar: "advance_run E C enqueue run w = (rr, t)" using ao g r by (simp add: advance_one_def)
  then consider (finish) run' where "finish_run E C run' w = (rr, t)" "pr_id run' = j"
    | (save) run' where "bind_act (save_run E C run') (\<lambda>_. ret_act True) w = (rr, t)" "pr_id run' = j"
    | (enqueue) "enqueue_group E C enqueue run ?idx w = (rr, t)" | (wait) "t = w"
    using id by (auto simp: advance_run_def group_done_def Let_def bind_act_def [of "get_act _"] get_act_def
        ret_act_def [of False] split: if_splits)
  then show "get_plan_run C i t = get_plan_run C i w"
    by cases (use fin sv eg in auto)
qed

text \<open>A run that has ended is never written again, but for its report, teardown and assurance.\<close>

lemma ended_final:
  assumes st: "plan_step E C enqueue w w'" and k: "keys_ok C" and inv: "runs_inv E C H w"
    and g: "get_plan_run C i w = Some run" and e: "pr_status run \<noteq> R_RUNNING"
  shows "\<exists>run'. get_plan_run C i w' = Some run' \<and> core run' = core run"
  using st
proof cases
  case (step_start plan location cutoff rows A r)
  obtain n where "n < uuids w" "i = uuid E n" using runs_invD(3) [OF inv g] by blast
  moreover have "inj (uuid E)" using inv by (simp add: runs_inv_def jobs_fresh_def)
  ultimately have "i \<noteq> uuid E (uuids w)" by (metis injD less_irrefl)
  then show ?thesis using start_inv [OF inv k step_start] g by simp
next
  case (step_advance j r1)
  then show ?thesis using advance_other [OF k inv, of j r1 w' i] g e by auto
next
  case (step_cancel j r2)
  show ?thesis
  proof (cases "\<exists>run. get_plan_run C j w = Some run \<and> pr_status run = R_RUNNING")
    case False
    then have "w' = w" using step_cancel by (auto simp: cancel_plan_run_def split: option.splits if_splits)
    then show ?thesis using g by simp
  next
    case True
    then obtain run1 where g1: "get_plan_run C j w = Some run1" and r1: "pr_status run1 = R_RUNNING" by blast
    obtain stats w1 c where f: "fold (cancel_job E C) (all_job_ids run1) ((0, 0), w) = (stats, w1)"
      and cl: "closing C c w1 w'" and c: "c = run1\<lparr>pr_pending := [], pr_status := R_CANCELLED,
        pr_finished_at := utc_now_iso E w1, pr_error := or_default (pr_error run1) ''Cancelled by operator'',
        pr_cancel_stats := Some stats\<rparr>"
      by (rule cancel_closing [OF inv k g1 r1 step_cancel])
    have "i \<noteq> pr_id c" using g g1 e r1 runs_invD(1) [OF inv g1] c by auto
    then have "get_plan_run C i w' = get_plan_run C i w1" using cl by (simp add: closing_def same_runs_def)
    moreover have "get_plan_run C i w1 = get_plan_run C i w"
      using cancel_fold_cancels [OF f] by (simp add: cancels_def get_plan_run_def)
    ultimately show ?thesis using g by simp
  qed
next
  case (step_teardown j r3)
  show ?thesis
  proof (cases "get_plan_run C j w")
    case None
    then have "w' = w" using step_teardown by (simp add: teardown_plan_run_id_def)
    then show ?thesis using g by simp
  next
    case (Some run1)
    note cl = teardown_inv(2) [OF inv k step_teardown Some]
    have id: "pr_id run1 = j" by (rule runs_invD(1) [OF inv Some])
    show ?thesis
    proof (cases "i = j")
      case True
      then show ?thesis using cl g Some id by (auto simp: closing_def)
    next
      case False
      then show ?thesis using cl g id by (auto simp: closing_def same_runs_def)
    qed
  qed
next
  case (step_enqueue rows A r4)
  then show ?thesis using enq_frame [of w rows A r4 w'] inv g by (simp add: get_plan_run_def runs_inv_def)
next
  case (step_work metrics j r5)
  then show ?thesis using run_job_leaves g by (fastforce simp: leaves_runs_def get_plan_run_def)
next
  case step_other
  then show ?thesis using g by (simp add: leaves_runs_def get_plan_run_def)
qed

end

end
