(* ===== verification/RunProps.thy ===== *)
theory RunProps
  imports RunSteps
begin

text \<open>
  Properties of plan runs: the invariant of all reachable states, the finality of runs that have
  ended, and what becomes of a run whose first batch cannot be enqueued.
\<close>

subsection \<open>Runs that were started\<close>

lemma empty_runs_inv: "inj (uuid E) \<Longrightarrow> runs_inv E C H empty_world"
  by (simp add: runs_inv_def get_plan_run_def active_ids_def smembers_def jobs_fresh_def empty_world_def
      empty_store_def store.defs)

definition has_running :: "cfg \<Rightarrow> string \<Rightarrow> world \<Rightarrow> bool" where
  "has_running C i w \<longleftrightarrow> (\<exists>run. get_plan_run C i w = Some run \<and> pr_status run = R_RUNNING)"

lemma has_running_save:
  "pr_status run = R_RUNNING \<Longrightarrow> pr_id run = i \<or> has_running C i w \<Longrightarrow> has_running C i (store_run E C run w)"
  by (auto simp: has_running_def)

lemma has_running_frame: "run_docs t = run_docs s \<Longrightarrow> has_running C i s \<Longrightarrow> has_running C i t"
  by (simp add: has_running_def get_plan_run_def)

lemma run_docs_plan_doc [simp]: "run_docs (save_plan_doc E C d w) = run_docs w"
  by (simp add: save_plan_doc_def save_entity_def Let_def)

lemma bind_steps:
  "bind_act (res_act (Inr x)) f w = f x w" "bind_act (new_uuid E) g w = g (uuid E (uuids w)) (w\<lparr>uuids := Suc (uuids w)\<rparr>)"
  "bind_act (get_act h) f w = f (h w) w" "bind_act (save_run E C run) u v = u () (store_run E C run v)"
  by (simp_all add: bind_act_def res_act_def new_uuid_def get_act_def save_run_def)

text \<open>The shell of a run is stored before its first batch is enqueued.\<close>

definition start_ready ::
  "env \<Rightarrow> dict \<Rightarrow> dict \<Rightarrow> string \<Rightarrow> dict list list \<Rightarrow> start_args \<Rightarrow> world \<Rightarrow> run_params \<Rightarrow> bool" where
  "start_ready E plan location cutoff rs A w p \<longleftrightarrow>
     (\<exists>gids. need_key plan ''group_ids'' = Inr gids \<and> length rs = length (strs_of gids)) \<and>
     (\<exists>rows \<in> set rs. rows \<noteq> []) \<and>
     run_params_of plan location cutoff (utc_now_iso E w) A = Inr p"

lemma start_ready_groups:
  assumes "start_ready E plan location cutoff rs A w p"
  shows "length (rn_group_ids p) = length rs"
proof -
  obtain gids where g: "need_key plan ''group_ids'' = Inr gids" "length rs = length (strs_of gids)"
    using assms by (auto simp: start_ready_def)
  have "dget plan ''group_ids'' = gids"
    using g(1) by (auto simp: need_key_def dget_def dget_or_def split: option.splits)
  then show ?thesis using assms g(2) by (auto simp: start_ready_def run_params_of_def or_list_def)
qed

definition start_shell :: "env \<Rightarrow> run_params \<Rightarrow> dict list list \<Rightarrow> world \<Rightarrow> plan_run" where
  "start_shell E p rs w = new_run (uuid E (uuids w)) p (first_group rs)"

definition shell_world :: "env \<Rightarrow> cfg \<Rightarrow> run_params \<Rightarrow> dict list list \<Rightarrow> world \<Rightarrow> world" where
  "shell_world E C p rs w = store_run E C (start_shell E p rs w) (w\<lparr>uuids := Suc (uuids w)\<rparr>)"

definition first_args :: "env \<Rightarrow> dict \<Rightarrow> run_params \<Rightarrow> dict list list \<Rightarrow> world \<Rightarrow> enqueue_args" where
  "first_args E location p rs w =
     run_enqueue_args (start_shell E p rs w) (first_group rs) (rn_vmid_start p) (location_mode_raw location)"

text \<open>What is left to do once the shell is stored\<close>

definition start_rest ::
  "env \<Rightarrow> cfg \<Rightarrow> enqueue_fn \<Rightarrow> dict \<Rightarrow> dict \<Rightarrow> dict list list \<Rightarrow> world \<Rightarrow> run_params \<Rightarrow> (world, plan_run) act" where
  "start_rest E C enqueue plan location rs w p =
    bind_act (enqueue (rs ! first_group rs) (first_args E location p rs w)) (\<lambda>res.
     let run1 = with_group_jobs (first_group rs) res (start_shell E p rs w);
         run2 = (if pr_next_vmid run1 \<in> {None, Some 0}
                 then run1\<lparr>pr_next_vmid := Some (rn_vmid_start p)\<rparr> else run1) in
     bind_act (save_run E C run2) (\<lambda>_.
     bind_act (res_act (map_res (map_res pending_row) rs)) (\<lambda>pending.
     let run3 = run2\<lparr>pr_pending := pending\<rparr> in
     bind_act (save_run E C run3) (\<lambda>_.
     bind_act (upd_act (save_plan_doc E C (started_plan plan (utc_now_iso E w)))) (\<lambda>_.
     ret_act run3)))))"

lemma start_plan_run_eval:
  assumes "start_ready E plan location cutoff rs A w p"
  shows "start_plan_run E C enqueue plan location cutoff rs A w =
    start_rest E C enqueue plan location rs w p (shell_world E C p rs w)"
proof -
  have iso: "utc_now_iso E (w\<lparr>uuids := Suc (uuids w)\<rparr>) = utc_now_iso E w" by (simp add: utc_now_iso_def)
  obtain gids where g: "need_key plan ''group_ids'' = Inr gids" "length rs = length (strs_of gids)"
    using assms by (auto simp: start_ready_def)
  have ne: "\<not> (\<forall>rows \<in> set rs. rows = [])" using assms by (auto simp: start_ready_def)
  have p: "run_params_of plan location cutoff (utc_now_iso E w) A = Inr p"
    using assms by (simp add: start_ready_def)
  show ?thesis
    unfolding start_plan_run_def start_rest_def
    by (simp add: g ne p iso bind_steps Let_def start_shell_def shell_world_def first_args_def)
qed

lemma shell_stored:
  "get_plan_run C (uuid E (uuids w)) (shell_world E C p rs w) =
     Some ((start_shell E p rs w)\<lparr>pr_updated_at := utc_now_iso E w\<rparr>)"
  by (simp add: shell_world_def start_shell_def new_run_def utc_now_iso_def)

lemma shell_fields [simp]:
  "pr_id (start_shell E p rs w) = uuid E (uuids w)" "pr_status (start_shell E p rs w) = R_RUNNING"
  "pr_jobs (start_shell E p rs w) = map (\<lambda>_. []) (rn_group_ids p)" "pr_pending (start_shell E p rs w) = []"
  "pr_params (start_shell E p rs w) = p" "pr_index (start_shell E p rs w) = first_group rs"
  by (simp_all add: start_shell_def new_run_def)

context enqueue_contract begin

lemma start_running:
  assumes ready: "start_ready E plan location cutoff rs A w p" and fresh: "jobs_fresh E C w"
    and st: "start_plan_run E C enqueue plan location cutoff rs A w = (r, t)"
  shows "has_running C (uuid E (uuids w)) t"
proof -
  let ?i = "uuid E (uuids w)" and ?I = "\<lambda>v. has_running C (uuid E (uuids w)) v \<and> jobs_fresh E C v"
  have save: "post ?I (save_run E C run) (\<lambda>_. True)" if "pr_status run = R_RUNNING" for run
    using that by (intro postI) (auto simp: save_run_def jobs_fresh_def intro!: has_running_save)
  have enq: "post ?I (enqueue rows B) (\<lambda>_. True)" for rows B
    by (rule postI) (use enq_frame in \<open>auto intro: has_running_frame\<close>)
  have plan: "post ?I (upd_act (save_plan_doc E C d)) (\<lambda>_. True)" for d
    by (rule postI) (auto simp: upd_act_def jobs_fresh_def save_plan_doc_def save_entity_def Let_def
        intro: has_running_frame)
  have res: "post ?I (res_act x) (\<lambda>_. True)" for x :: "exn + 'y"
    by (simp add: post_def res_act_def)
  have base: "?I (shell_world E C p rs w)"
    using fresh shell_stored by (auto simp: has_running_def jobs_fresh_def shell_world_def start_shell_def new_run_def)
  have "post ?I (start_rest E C enqueue plan location rs w p) (\<lambda>_. True)"
    unfolding start_rest_def Let_def
    by (auto intro!: post_bind [OF enq] post_bind [OF save] post_bind [OF res] post_bind [OF plan] post_ret)
  from postD(1) [OF this base] st show ?thesis unfolding start_plan_run_eval [OF ready] by blast
qed

end

subsection \<open>A run whose first batch cannot be enqueued\<close>

lemma no_work_left:
  assumes "\<And>g. g < length jobs \<Longrightarrow> jobs ! g = []"
  shows "length jobs \<le> next_work jobs [] i"
  using next_work_props(3) [of jobs "[]" i] assms by force

lemma failed_start_state:
  assumes "start_ready E plan location cutoff rs A w p"
    "enqueue (rs ! first_group rs) (first_args E location p rs w) (shell_world E C p rs w) = (Inl e, t)"
    "run_docs t = run_docs (shell_world E C p rs w)"
  shows "start_plan_run E C enqueue plan location cutoff rs A w = (Inl e, t)"
    "get_plan_run C (uuid E (uuids w)) t = Some ((start_shell E p rs w)\<lparr>pr_updated_at := utc_now_iso E w\<rparr>)"
proof -
  show "start_plan_run E C enqueue plan location cutoff rs A w = (Inl e, t)"
    unfolding start_plan_run_eval [OF assms(1)] start_rest_def by (simp add: bind_act_def assms(2))
  show "get_plan_run C (uuid E (uuids w)) t = Some ((start_shell E p rs w)\<lparr>pr_updated_at := utc_now_iso E w\<rparr>)"
    using shell_stored [of C E w p rs] assms(3) by (simp add: get_plan_run_def)
qed

lemma idle_run_completes:
  assumes k: "keys_ok C" and g: "get_plan_run C i w = Some run" and r: "pr_status run = R_RUNNING"
    and id: "pr_id run = i" and no: "\<And>g. g < length (pr_jobs run) \<Longrightarrow> pr_jobs run ! g = []" "pr_pending run = []"
    and ao: "advance_one E C enqueue i w = (rr, t)"
  shows "\<exists>run'. get_plan_run C i t = Some run' \<and> pr_status run' = R_COMPLETED \<and> pr_jobs run' = pr_jobs run"
proof -
  let ?nx = "next_work (pr_jobs run) (pr_pending run) (pr_index run)"
  have nx: "length (pr_jobs run) \<le> ?nx" using no_work_left [OF no(1)] no(2) by simp
  have fr: "finish_run E C (run\<lparr>pr_status := R_COMPLETED, pr_index := ?nx\<rparr>) w = (rr, t)"
    using ao g r nx by (simp add: advance_one_def advance_run_def Let_def)
  obtain r where "get_plan_run C i t = Some r"
      "core r = core (run\<lparr>pr_status := R_COMPLETED, pr_index := ?nx, pr_finished_at := utc_now_iso E w\<rparr>)"
    using finish_run_closing [OF k fr] id by (auto simp: closing_def)
  then show ?thesis using core_fields(3,5) [of r] by fastforce
qed

subsection \<open>A concrete plan\<close>

definition demo_run_plan :: dict where
  "demo_run_plan = [(''id'', PStr ''p1''), (''name'', PStr ''web''), (''group_ids'', PList [PStr ''g1'']),
     (''halt_on_error'', PBool True), (''verification'', PStr ''VERIFIED'')]"

definition demo_lab :: dict where
  "demo_lab = [(''id'', PStr ''l1''), (''name'', PStr ''lab''), (''node'', PStr ''n1''),
     (''nodes'', PList [PStr ''n1'']), (''storage'', PStr ''zfs''), (''storage_by_node'', PDict []),
     (''vmid_start'', PInt 100), (''bwlimit'', PInt 0)]"

definition demo_start :: "bool \<Rightarrow> start_args" where
  "demo_start drill = \<lparr>sa_drill = drill, sa_auto_teardown = False, sa_powered_off = None, sa_power_on = False,
     sa_qga_wait_sec = 0, sa_overwrite = False\<rparr>"

lemma demo_keys_ok: "keys_ok (demo_cfg\<lparr>proxmox_cfg := d\<rparr>)" "keys_ok demo_cfg"
  by (simp_all add: keys_ok_def active_plan_runs_key_def plan_runs_index_def plans_index_def redis_name_def
      demo_cfg_def dget_or_def)

lemma demo_start_ready: "\<exists>p. start_ready E demo_run_plan demo_lab cutoff [[demo_row 100]] (demo_start b) w p"
  by (simp add: start_ready_def demo_run_plan_def demo_lab_def demo_start_def run_params_of_def need_str_def
      need_key_def int_or_zero_def py_or_def strs_of_def)

lemma demo_inj: "inj (uuid demo_env)"
  using demo_fresh by (simp add: jobs_fresh_def)

lemma demo_world_fresh: "jobs_fresh demo_env C empty_world"
  by (simp add: jobs_fresh_def demo_inj empty_world_def empty_store_def store.defs)

text \<open>Two reachable states: a run that was started, and the same run cancelled\<close>

definition demo_started :: world where
  "demo_started = snd (start_plan_run demo_env demo_cfg (enqueue_restores demo_env demo_cfg) demo_run_plan
     demo_lab ''c'' [[demo_row 100]] (demo_start True) empty_world)"

definition demo_cancelled :: world where
  "demo_cancelled = snd (cancel_plan_run demo_env demo_cfg ''j0'' demo_started)"

lemma demo_id: "uuid demo_env (uuids empty_world) = ''j0''"
  by (simp add: demo_env_def empty_world_def empty_store_def store.defs str_of_nat.simps digit_char_def)

lemma demo_reach:
  "plan_step demo_env demo_cfg (enqueue_restores demo_env demo_cfg) empty_world demo_started"
  "plan_step demo_env demo_cfg (enqueue_restores demo_env demo_cfg) demo_started demo_cancelled"
  unfolding demo_started_def demo_cancelled_def
  by (rule step_start, rule surjective_pairing) (rule step_cancel, rule surjective_pairing)

lemma demo_running: "has_running demo_cfg ''j0'' demo_started"
proof -
  obtain p where "start_ready demo_env demo_run_plan demo_lab ''c'' [[demo_row 100]] (demo_start True) empty_world p"
    using demo_start_ready by blast
  from enqueue_jobs.start_running [OF this demo_world_fresh] show ?thesis
    unfolding demo_started_def demo_id by (metis surjective_pairing)
qed

lemma demo_started_inv: "\<exists>H. runs_inv demo_env demo_cfg H demo_started"
  using enqueue_jobs.reach_inv [OF r_into_rtranclp [of "plan_step demo_env demo_cfg (enqueue_restores demo_env demo_cfg)",
      OF demo_reach(1)] demo_keys_ok(2) empty_runs_inv [OF demo_inj]] by blast

lemma demo_cancelled_run:
  "\<exists>run. get_plan_run demo_cfg ''j0'' demo_cancelled = Some run \<and> pr_status run = R_CANCELLED"
proof -
  obtain run where g: "get_plan_run demo_cfg ''j0'' demo_started = Some run" and r: "pr_status run = R_RUNNING"
    using demo_running by (auto simp: has_running_def)
  obtain rr where "cancel_plan_run demo_env demo_cfg ''j0'' demo_started = (rr, demo_cancelled)"
    unfolding demo_cancelled_def by (metis surjective_pairing)
  from demo_started_inv obtain H where inv: "runs_inv demo_env demo_cfg H demo_started" by blast
  from cancel_closing [OF inv demo_keys_ok(2) g r \<open>cancel_plan_run demo_env demo_cfg ''j0'' demo_started = (rr, demo_cancelled)\<close>] obtain stats w1 c
    where cl: "closing demo_cfg c w1 demo_cancelled"
      and c: "c = run\<lparr>pr_pending := [], pr_status := R_CANCELLED, pr_finished_at := utc_now_iso demo_env w1,
        pr_error := or_default (pr_error run) ''Cancelled by operator'', pr_cancel_stats := Some stats\<rparr>"
    by blast
  obtain r' where "get_plan_run demo_cfg (pr_id c) demo_cancelled = Some r'" "core r' = core c"
    using cl by (auto simp: closing_def)
  moreover have "pr_id c = ''j0''" "pr_status c = R_CANCELLED"
    using runs_invD(1) [OF inv g] by (simp_all add: c)
  ultimately show ?thesis using core_fields(3) [of r' c] by auto
qed

subsection \<open>Properties\<close>


text \<open>C9: A plan run that has ended (COMPLETED, FAILED or CANCELLED) stays ended: whatever starts,
  advances, cancellations, teardowns, enqueues, runs of jobs and other operations follow, its status, its jobs, its
  time of end, its error and its parameters stay as they are, and it does not become active
  again.\<close>

theorem ended_runs_final:
  assumes "inj (uuid E)" "keys_ok C"
    "(plan_step E C (enqueue_restores E C))\<^sup>*\<^sup>* empty_world w"
    "get_plan_run C i w = Some run" "pr_status run \<noteq> R_RUNNING"
    "(plan_step E C (enqueue_restores E C))\<^sup>*\<^sup>* w w'"
  shows "i \<notin> active_ids C w' \<and> (\<exists>run'. get_plan_run C i w' = Some run' \<and>
    pr_status run' = pr_status run \<and> pr_jobs run' = pr_jobs run \<and> pr_finished_at run' = pr_finished_at run \<and>
    pr_error run' = pr_error run \<and> pr_params run' = pr_params run)"
proof -
  let ?S = "plan_step E C (enqueue_restores E C)"
  have inv: "\<exists>H. runs_inv E C H y" if "?S\<^sup>*\<^sup>* w y" for y
    using enqueue_jobs.reach_inv [OF rtranclp_trans [OF assms(3) that] assms(2) empty_runs_inv [OF assms(1)]]
    by blast
  from assms(6) have "\<exists>run'. get_plan_run C i w' = Some run' \<and> core run' = core run"
  proof (induction rule: rtranclp_induct)
    case base
    then show ?case using assms(4) by simp
  next
    case (step y z)
    then obtain r where r: "get_plan_run C i y = Some r" "core r = core run" by blast
    have "pr_status r \<noteq> R_RUNNING" using core_fields(3) [OF r(2)] assms(5) by simp
    moreover obtain H where "runs_inv E C H y" using inv [OF step(1)] by blast
    ultimately show ?case using enqueue_jobs.ended_final [OF step(2) assms(2) _ r(1)] r(2) by auto
  qed
  then obtain run' where r: "get_plan_run C i w' = Some run'" "core run' = core run" by blast
  obtain H where iw: "runs_inv E C H w'" using inv [OF assms(6)] by blast
  show ?thesis using runs_invD(4) [OF iw r(1)] r(1) core_fields [OF r(2)] assms(5) by auto
qed

text \<open>C30: A run that cannot enqueue its first group (a VMID conflict, an unreachable cluster, a missing
  storage) makes \<open>start_plan_run\<close> raise, but its record stays behind as an active RUNNING run, and the
  next advance of the worker reports it COMPLETED, although it never had a job.\<close>

theorem failed_start_completes:
  assumes "keys_ok C" "start_ready E plan location cutoff rs A w p"
    "enqueue_restores E C (rs ! first_group rs) (first_args E location p rs w) (shell_world E C p rs w) = (Inl e, t)"
    "jobs_fresh E C (shell_world E C p rs w)" "i = uuid E (uuids w)"
    "advance_one E C (enqueue_restores E C) i t = (rr, t')"
  shows "start_plan_run E C (enqueue_restores E C) plan location cutoff rs A w = (Inl e, t) \<and>
    i \<in> active_ids C t \<and>
    (\<exists>run. get_plan_run C i t' = Some run \<and> pr_status run = R_COMPLETED \<and> concat (pr_jobs run) = [])"
proof -
  note fr = enqueue_jobs.enq_frame [OF assms(4,3)]
  note fs = failed_start_state [where enqueue = "enqueue_restores E C", OF assms(2,3), folded assms(5)]
  let ?run = "(start_shell E p rs w)\<lparr>pr_updated_at := utc_now_iso E w\<rparr>"
  have g: "get_plan_run C i t = Some ?run" using fs(2) fr by blast
  have act: "i \<in> active_ids C t"
    using fr assms(5) active_store_run [OF assms(1), of E "start_shell E p rs w"]
    by (simp add: active_ids_def smembers_def shell_world_def)
  have "\<exists>run'. get_plan_run C i t' = Some run' \<and> pr_status run' = R_COMPLETED \<and> pr_jobs run' = pr_jobs ?run"
    by (rule idle_run_completes [OF assms(1) g _ _ _ _ assms(6)]) (simp_all add: assms(5))
  then show ?thesis using fs(1) fr act by auto
qed

subsection \<open>Witnesses\<close>

lemma demo_reached:
  "(plan_step demo_env demo_cfg (enqueue_restores demo_env demo_cfg))\<^sup>*\<^sup>* empty_world demo_started"
  "(plan_step demo_env demo_cfg (enqueue_restores demo_env demo_cfg))\<^sup>*\<^sup>* empty_world demo_cancelled"
  using demo_reach by (meson r_into_rtranclp rtranclp.rtrancl_into_rtrancl)+


theorem ended_runs_final_witness:
  "''j0'' \<notin> active_ids demo_cfg (snd (advance_one demo_env demo_cfg (enqueue_restores demo_env demo_cfg) ''j0'' demo_cancelled))"
proof -
  let ?t = "snd (advance_one demo_env demo_cfg (enqueue_restores demo_env demo_cfg) ''j0'' demo_cancelled)"
  obtain run where g: "get_plan_run demo_cfg ''j0'' demo_cancelled = Some run" "pr_status run = R_CANCELLED"
    using demo_cancelled_run by blast
  have "plan_step demo_env demo_cfg (enqueue_restores demo_env demo_cfg) demo_cancelled ?t"
    by (rule step_advance, rule surjective_pairing)
  then have "(plan_step demo_env demo_cfg (enqueue_restores demo_env demo_cfg))\<^sup>*\<^sup>* demo_cancelled ?t" by blast
  from ended_runs_final [OF demo_inj demo_keys_ok(2) demo_reached(2) g(1) _ this] g(2) show ?thesis by simp
qed

definition demo_no_cluster :: cfg where
  "demo_no_cluster = demo_cfg\<lparr>proxmox_cfg := []\<rparr>"

lemma demo_no_cluster_login: "\<exists>e. proxmox_login (proxmox_cfg demo_no_cluster) = Inl e"
proof -
  have "isl (proxmox_login (proxmox_cfg demo_no_cluster))" by code_simp
  then show ?thesis by (auto simp: isl_def)
qed

lemma demo_no_cluster_fails:
  "\<exists>e. enqueue_restores demo_env demo_no_cluster rows B w = (Inl e, w)"
proof -
  obtain e where e: "connect_proxmox demo_env demo_no_cluster w = (Inl e, w)"
    using demo_no_cluster_login by (auto simp: connect_proxmox_def bind_act_def res_act_def)
  have "\<exists>e. enqueue_prepare demo_env demo_no_cluster rows B w = (Inl e, w)"
    using e unfolding enqueue_prepare_def
    by (auto simp: bind_act_def res_act_def Let_def split: sum.splits)
  then show ?thesis by (auto simp: enqueue_restores_def bind_act_def)
qed

theorem failed_start_completes_witness:
  "\<exists>e w run. start_plan_run demo_env demo_no_cluster (enqueue_restores demo_env demo_no_cluster) demo_run_plan
      demo_lab ''c'' [[demo_row 100]] (demo_start True) empty_world = (Inl e, w) \<and>
    get_plan_run demo_no_cluster ''j0''
      (snd (advance_one demo_env demo_no_cluster (enqueue_restores demo_env demo_no_cluster) ''j0'' w)) = Some run \<and>
    pr_status run = R_COMPLETED"
proof -
  obtain p where p: "start_ready demo_env demo_run_plan demo_lab ''c'' [[demo_row 100]] (demo_start True) empty_world p"
    using demo_start_ready by blast
  let ?s = "shell_world demo_env demo_no_cluster p [[demo_row 100]] empty_world"
  obtain e where e: "enqueue_restores demo_env demo_no_cluster ([[demo_row 100]] ! first_group [[demo_row 100]])
      (first_args demo_env demo_lab p [[demo_row 100]] empty_world) ?s = (Inl e, ?s)"
    using demo_no_cluster_fails by blast
  have f: "jobs_fresh demo_env demo_no_cluster ?s"
    using demo_world_fresh [of demo_no_cluster] by (simp add: jobs_fresh_def shell_world_def)
  have k: "keys_ok demo_no_cluster" unfolding demo_no_cluster_def by (rule demo_keys_ok)
  from failed_start_completes [OF k p e f demo_id [symmetric] surjective_pairing] show ?thesis by blast
qed

end
