(* ===== verification/RunEffects.thy ===== *)
theory RunEffects
  imports RunProps
begin

text \<open>
  Effects of the three ways in which a plan run reaches out at its end: the assurance verdict that
  is written to the plan, the cancellation of the jobs, and the teardown of the restored guests.
\<close>

subsection \<open>The assurance verdict\<close>

lemma is_one_str [simp]: "is_one (PStr s) \<longleftrightarrow> s = ''1''"
  by (simp add: is_one_def)

lemma ne_listI: "x \<in> set xs \<Longrightarrow> xs \<noteq> []"
  by auto

lemma qga_problem_None: "qga_problem jobs = None \<longleftrightarrow> jobs \<noteq> [] \<and> (\<forall>j \<in> set jobs. is_one (dget j ''qga_ok''))"
  by (simp add: qga_problem_def)

text \<open>The jobs of an aggregated run carry no address for the HTTP check.\<close>

lemma no_url: "strip (str_or_empty PNone) = []"
  by code_simp

lemma http_problem_aggregated:
  assumes "aggregate_plan_run C run w = Inr v"
  shows "http_problem (rv_jobs v) \<noteq> None"
proof (cases "rv_jobs v")
  case (Cons d ds)
  then have "d \<in> set (rv_jobs v)" by simp
  from aggregate_job [OF assms this] obtain g j where "job_view C w g j = Inr d" by blast
  then show ?thesis using job_view_fields(5) Cons by (simp add: http_problem_def no_url)
qed (simp add: http_problem_def)

lemma qga_aggregated:
  assumes "aggregate_plan_run C run w = Inr v" "qga_problem (rv_jobs v) = None"
  shows "all_job_ids run \<noteq> []" "\<forall>j \<in> set (all_job_ids run). hfield (hgetall (job_key C j) w) ''qga_ok'' = ''1''"
proof -
  note q = assms(2) [unfolded qga_problem_None]
  obtain d where "d \<in> set (rv_jobs v)" using q by (cases "rv_jobs v") auto
  from aggregate_job [OF assms(1) this] obtain g j where "(g, j) \<in> set (run_job_ids run)" by blast
  then have "j \<in> set (pr_jobs run ! g)" "pr_jobs run ! g \<in> set (pr_jobs run)" by (simp_all add: set_run_job_ids)
  then have "j \<in> set (all_job_ids run)" unfolding all_job_ids_def set_concat by (rule UN_I [rotated])
  then show "all_job_ids run \<noteq> []" by (rule ne_listI)
  show "\<forall>j \<in> set (all_job_ids run). hfield (hgetall (job_key C j) w) ''qga_ok'' = ''1''"
  proof
    fix j assume "j \<in> set (all_job_ids run)"
    then obtain js where js: "js \<in> set (pr_jobs run)" "j \<in> set js" by (auto simp: all_job_ids_def)
    obtain g where "g < length (pr_jobs run)" "pr_jobs run ! g = js" using js(1) by (auto simp: in_set_conv_nth)
    with js(2) have "(g, j) \<in> set (run_job_ids run)" by (simp add: set_run_job_ids)
    from aggregate_job_of [OF assms(1) this] obtain d where d: "d \<in> set (rv_jobs v)" "job_view C w g j = Inr d" .
    then have "is_one (dget d ''qga_ok'')" using q by blast
    then show "hfield (hgetall (job_key C j) w) ''qga_ok'' = ''1''" using job_view_fields(4) [OF d(2)] by simp
  qed
qed

definition assured_evidence :: "cfg \<Rightarrow> dict \<Rightarrow> plan_run \<Rightarrow> world \<Rightarrow> bool" where
  "assured_evidence C plan run w \<longleftrightarrow>
     truthy (dget plan ''assurance_enabled'') \<and> rn_drill (pr_params run) \<and> pr_status run = R_COMPLETED \<and>
     (rn_auto_teardown (pr_params run) \<longrightarrow> pr_teardown_status run \<in> {[], ''completed''}) \<and>
     (truthy (dget plan ''assurance_require_qga'') \<longrightarrow> all_job_ids run \<noteq> [] \<and>
        (\<forall>j \<in> set (all_job_ids run). hfield (hgetall (job_key C j) w) ''qga_ok'' = ''1'')) \<and>
     (0 < max_rto_of plan \<longrightarrow> (\<exists>n. n \<le> max_rto_of plan \<and>
        wall_clock_rto_sec (rn_started_at (pr_params run)) (pr_finished_at run) = Inr (Some n)))"

lemma verdict_evidence:
  assumes ag: "aggregate_plan_run C run w = Inr v"
    and ev: "evaluate_assurance_policy plan run (rv_jobs v) = Inr (A_ASSURED, detail, rto)"
  shows "assured_evidence C plan run w" "\<not> truthy (dget plan ''assurance_require_http'')"
proof -
  obtain d where rto: "wall_clock_rto_sec (rn_started_at (pr_params run)) (pr_finished_at run) = Inr rto"
    and base: "truthy (dget plan ''assurance_enabled'')" "rn_drill (pr_params run)"
    and pv: "policy_verdict plan run (rv_jobs v) rto = Inr d"
    using ev by (auto simp: evaluate_assurance_policy_def split: if_splits sum.splits)
  have st: "pr_status run = R_COMPLETED"
    and td: "rn_auto_teardown (pr_params run) \<longrightarrow> pr_teardown_status run \<in> {[], ''completed''}"
    and qga: "truthy (dget plan ''assurance_require_qga'') \<longrightarrow> qga_problem (rv_jobs v) = None"
    and http: "truthy (dget plan ''assurance_require_http'') \<longrightarrow> http_problem (rv_jobs v) = None"
    and mx: "\<not> rto_exceeds rto (max_rto_of plan)"
    using pv by (auto simp: policy_verdict_def Let_def split: if_splits option.splits)
  show "\<not> truthy (dget plan ''assurance_require_http'')" using http http_problem_aggregated [OF ag] by blast
  show "assured_evidence C plan run w"
    unfolding assured_evidence_def
    using base st td rto mx qga qga_aggregated [OF ag]
    by (cases rto) (auto simp: rto_exceeds_def)
qed

text \<open>The document that \<open>apply_assurance_from_run\<close> writes\<close>

lemma get_plan_save_doc:
  "plan_doc_id d = i \<Longrightarrow> get_plan C i (save_plan_doc E C d w) = Some (stamp_entity i (utc_now_iso E w) d)"
  by (simp add: get_plan_def save_plan_doc_def save_entity_def Let_def)

lemma apply_assurance_cases:
  assumes "apply_assurance_from_run E C run w = (Inr (), w')"
  obtains (skip) "get_plan C i w' = get_plan C i w"
  | (verdict) plan v status detail rto where "get_plan C (rn_plan_id (pr_params run)) w = Some plan"
      "aggregate_plan_run C run w = Inr v"
      "evaluate_assurance_policy plan run (rv_jobs v) = Inr (status, detail, rto)"
      "get_plan C i w' = get_plan C i (save_plan_doc E C (assured_plan plan run (utc_now_iso E w) status detail rto) w)"
proof -
  have frame: "get_plan C i (store_run E C r u) = get_plan C i u" for r u
    by (simp add: get_plan_def)
  show ?thesis
    using assms skip verdict frame
    by (auto simp: apply_assurance_from_run_def Let_def save_run_def split: if_splits option.splits sum.splits)
qed

text \<open>C6: \<open>apply_assurance_from_run\<close> marks a plan ASSURED only on evidence: the plan has
  assurance enabled, the run is a drill that COMPLETED, its automatic teardown (if any, and if it has
  reported) succeeded, with \<open>assurance_require_qga\<close> the run has jobs and each of them recorded
  a guest-agent answer, and with a maximal recovery time the measured one exists and is within it. A
  plan with \<open>assurance_require_http\<close> is never marked ASSURED, because the aggregated jobs
  have no HTTP fields.\<close>

theorem assured_needs_evidence:
  assumes "apply_assurance_from_run E C run w = (Inr (), w')"
    and "i = rn_plan_id (pr_params run)" "get_plan C i w = Some plan" "plan_doc_id plan = i"
    and "get_plan C i w' = Some plan'" "plan' \<noteq> plan" "dget plan' ''assurance_status'' = PStr ''ASSURED''"
  shows "assured_evidence C plan run w \<and> \<not> truthy (dget plan ''assurance_require_http'') \<and>
    dget plan' ''assurance_last_run_id'' = PStr (pr_id run)"
  using assms(1)
proof (cases rule: apply_assurance_cases [where i = i])
  case skip
  then show ?thesis using assms(3,5,6) by simp
next
  case (verdict p v status detail rto)
  let ?d = "assured_plan plan run (utc_now_iso E w) status detail rto"
  have p: "p = plan" using verdict(1) assms(2,3) by simp
  have "plan_doc_id ?d = i" using assms(4) by (simp add: plan_doc_id_def assured_plan_def)
  then have plan': "plan' = stamp_entity i (utc_now_iso E w) ?d"
    using verdict(4) assms(5) get_plan_save_doc p by simp
  then have "assurance_value status = assurance_value A_ASSURED"
    using assms(7) by (simp add: assured_plan_def)
  then have "status = A_ASSURED" by (cases status) simp_all
  with verdict_evidence [OF verdict(2), of plan detail rto] verdict(3) p plan' show ?thesis
    by (simp add: assured_plan_def)
qed

definition demo_assured_plan :: dict where
  "demo_assured_plan = [(''id'', PStr ''p1''), (''name'', PStr ''web''), (''assurance_enabled'', PBool True),
     (''assurance_require_qga'', PBool True), (''assurance_max_rto_sec'', PInt 3600)]"

definition demo_drill :: plan_run where
  "demo_drill = (demo_run R_COMPLETED [[''a'']])\<lparr>pr_finished_at := ''2026-05-02T00:10:00Z''\<rparr>"

definition demo_drill_world :: world where
  "demo_drill_world = hset ''restore:job:a'' [(''state'', ''COMPLETED''), (''qga_ok'', ''1'')]
     (set_doc ''restore:plan:p1'' demo_assured_plan empty_world)"

lemma demo_drill_verdict:
  "fst (apply_assurance_from_run demo_env demo_cfg demo_drill demo_drill_world) = Inr ()"
  "get_plan demo_cfg ''p1'' demo_drill_world = Some demo_assured_plan"
  "rn_plan_id (pr_params demo_drill) = ''p1''" "plan_doc_id demo_assured_plan = ''p1''"
  "map_option (\<lambda>d. (d = demo_assured_plan, dget d ''assurance_status''))
     (get_plan demo_cfg ''p1'' (snd (apply_assurance_from_run demo_env demo_cfg demo_drill demo_drill_world)))
   = Some (False, PStr ''ASSURED'')"
  by code_simp+

theorem assured_needs_evidence_witness:
  "assured_evidence demo_cfg demo_assured_plan demo_drill demo_drill_world"
proof -
  note d = demo_drill_verdict
  obtain w' where a: "apply_assurance_from_run demo_env demo_cfg demo_drill demo_drill_world = (Inr (), w')"
    using d(1) by (metis surjective_pairing)
  then obtain p where "get_plan demo_cfg ''p1'' w' = Some p" "p \<noteq> demo_assured_plan"
    "dget p ''assurance_status'' = PStr ''ASSURED''" using d(5) by auto
  from assured_needs_evidence [OF a d(3) [symmetric] d(2,4) this] show ?thesis by (rule conjunct1)
qed

subsection \<open>Cancelling the jobs\<close>

text \<open>What the cancellation makes of a job with the hash \<open>h\<close>\<close>

definition job_settled :: "cfg \<Rightarrow> hash \<Rightarrow> world \<Rightarrow> string \<Rightarrow> bool" where
  "job_settled C h t j \<longleftrightarrow>
     (let h' = hgetall (job_key C j) t in
      if h = [] then h' = []
      else if state_or_pending h = state_value PENDING then
        state_or_pending h' = state_value CANCELLED \<and> hfield h' ''cancel_requested'' = ''1'' \<and>
        j \<notin> set (lrange_all (queue_key C) t)
      else if state_or_pending h = state_value RESTORING then
        state_or_pending h' = state_value RESTORING \<and> hfield h' ''cancel_requested'' = ''1''
      else h' = h)"

lemma lrange_lrem [simp]: "set (lrange_all q (lrem_all q x w)) = set (lrange_all q w) - {x}"
  by (auto simp: lrem_all_def lrange_set_list)

lemma cancelled_with_run_fields [simp]:
  "map_of (cancelled_with_run st) ''state'' = Some (state_value CANCELLED)"
  "hfield (cancelled_with_run st) ''state'' = state_value CANCELLED"
  "map_of (cancelled_with_run st) ''cancel_requested'' = Some ''1''"
  "hfield (cancelled_with_run st) ''cancel_requested'' = ''1''"
  by (simp_all add: cancelled_with_run_def hfield_def)

lemma cancel_job_other:
  assumes "cancel_job E C j' (n, s) = (n', s')" "j \<noteq> j'"
  shows "hgetall (job_key C j) s' = hgetall (job_key C j) s"
  using assms by (cases n) (auto simp: cancel_job_def Let_def hgetall_hset split: if_splits)

lemma cancel_job_queue:
  assumes "cancel_job E C j' (n, s) = (n', s')"
  shows "set (lrange_all (queue_key C) s') \<subseteq> set (lrange_all (queue_key C) s)"
  using assms by (cases n) (auto simp: cancel_job_def Let_def split: if_splits)

lemma cancel_job_self:
  assumes "cancel_job E C j (n, s) = (n', s')"
  shows "job_settled C (hgetall (job_key C j) s) s' j"
  using assms
  by (cases n) (auto simp: cancel_job_def job_settled_def Let_def state_or_pending_def or_default_def
      hgetall_hset hfield_def split: if_splits)

lemma job_settled_again:
  assumes "cancel_job E C j' (n, s) = (n', s')" "job_settled C h s j"
  shows "job_settled C h s' j"
proof (cases "j = j'")
  case False
  with cancel_job_other [OF assms(1)] cancel_job_queue [OF assms(1)] assms(2) show ?thesis
    by (auto simp: job_settled_def Let_def split: if_splits)
next
  case True
  let ?h = "hgetall (job_key C j) s"
  have self: "job_settled C ?h s' j" using cancel_job_self assms(1) True by simp
  show ?thesis using assms(2) self cancel_job_queue [OF assms(1)]
    by (auto simp: job_settled_def Let_def state_or_pending_def hfield_def or_default_def split: if_splits)
qed

lemma cancel_fold_settled:
  "fold (cancel_job E C) js (n, s) = (n', s') \<Longrightarrow> job_settled C h s j \<Longrightarrow> job_settled C h s' j"
proof (induction js arbitrary: n s)
  case (Cons x js)
  obtain n1 s1 where 1: "cancel_job E C x (n, s) = (n1, s1)" by (cases "cancel_job E C x (n, s)")
  show ?case by (rule Cons.IH [of n1 s1]) (use Cons.prems 1 job_settled_again [OF 1] in simp_all)
qed simp

lemma cancel_all_settled:
  "fold (cancel_job E C) js (n, s) = (n', s') \<Longrightarrow> hgetall (job_key C j) s = h \<Longrightarrow> j \<in> set js \<Longrightarrow>
     job_settled C h s' j"
proof (induction js arbitrary: n s)
  case (Cons x js)
  obtain n1 s1 where 1: "cancel_job E C x (n, s) = (n1, s1)" by (cases "cancel_job E C x (n, s)")
  have f: "fold (cancel_job E C) js (n1, s1) = (n', s')" using Cons.prems(1) 1 by simp
  show ?case
  proof (cases "j = x")
    case True
    with cancel_job_self [of E C j n s] 1 Cons.prems(2) have "job_settled C h s1 j" by simp
    then show ?thesis by (rule cancel_fold_settled [OF f])
  next
    case False
    with Cons.prems cancel_job_other [OF 1] show ?thesis by (intro Cons.IH [OF f]) auto
  qed
qed simp

text \<open>C19: Cancelling a RUNNING plan run stops it for good: it is CANCELLED, no longer active and
  has no waiting rows; each of its PENDING jobs is CANCELLED and out of the queue, each RESTORING
  job is asked to cancel and not touched otherwise, and the jobs that had finished stay as they
  were.\<close>

theorem cancel_plan_run_settles:
  assumes "inj (uuid E)" "keys_ok C" "(plan_step E C (enqueue_restores E C))\<^sup>*\<^sup>* empty_world w"
    "get_plan_run C i w = Some run" "pr_status run = R_RUNNING" "cancel_plan_run E C i w = (r, w')"
  shows "i \<notin> active_ids C w' \<and> (\<exists>run'. get_plan_run C i w' = Some run' \<and> pr_status run' = R_CANCELLED \<and>
      pr_pending run' = [] \<and> pr_jobs run' = pr_jobs run) \<and>
    (\<forall>j \<in> set (all_job_ids run). job_settled C (hgetall (job_key C j) w) w' j)"
proof -
  note inv = enqueue_jobs.reach_inv [OF assms(3,2) empty_runs_inv [OF assms(1)]]
  from cancel_closing [OF inv assms(2,4,5,6)] obtain stats w1 c
    where f: "fold (cancel_job E C) (all_job_ids run) ((0, 0), w) = (stats, w1)" and cl: "closing C c w1 w'"
      and c: "c = run\<lparr>pr_pending := [], pr_status := R_CANCELLED, pr_finished_at := utc_now_iso E w1,
        pr_error := or_default (pr_error run) ''Cancelled by operator'', pr_cancel_stats := Some stats\<rparr>"
    by blast
  have id: "pr_id c = i" using runs_invD(1) [OF inv assms(4)] by (simp add: c)
  have "hashes w' = hashes w1" "rlists w' = rlists w1" using cl by (simp_all add: closing_def same_runs_def)
  then have same: "job_settled C h w1 j = job_settled C h w' j" for h j
    by (simp add: job_settled_def hgetall_def lrange_all_def)
  obtain r' where "get_plan_run C i w' = Some r'" "core r' = core c" using cl id by (auto simp: closing_def)
  moreover have "i \<notin> active_ids C w'" using cl id by (simp add: closing_def c)
  ultimately show ?thesis
    using cancel_all_settled [OF f HOL.refl] core_fields(3,5,6) [of r' c] by (simp add: same c)
qed

theorem cancel_plan_run_settles_witness:
  "\<exists>run. get_plan_run demo_cfg ''j0'' demo_cancelled = Some run \<and> pr_status run = R_CANCELLED \<and> pr_pending run = []"
proof -
  obtain run where g: "get_plan_run demo_cfg ''j0'' demo_started = Some run" "pr_status run = R_RUNNING"
    using demo_running by (auto simp: has_running_def)
  obtain r where "cancel_plan_run demo_env demo_cfg ''j0'' demo_started = (r, demo_cancelled)"
    unfolding demo_cancelled_def by (metis surjective_pairing)
  from cancel_plan_run_settles [OF demo_inj demo_keys_ok(2) demo_reached(1) g this] show ?thesis by blast
qed

end
