(* ===== verification/TeardownProps.thy ===== *)
theory TeardownProps
  imports RunEffects
begin

text \<open>
  What a teardown may do to the cluster: a call that stops or deletes a guest is for a target of the
  run, and is preceded by the evidence that lets the engine delete it.
\<close>

subsection \<open>Guarded calls\<close>

definition reading_call :: "ext_call \<Rightarrow> bool" where
  "reading_call c \<longleftrightarrow> c \<in> {Connect, ClusterResources} \<or> (\<exists>node v. c = ConfigGet node v)"

text \<open>
  After the history \<open>cs\<close> the engine has, among the calls \<open>ds\<close>, listed the cluster's guests and found
  \<open>v\<close> as a QEMU guest on \<open>node\<close>, and has then read its configuration and found the ownership marker,
  or \<open>v\<close> is vouched for. Both calls are in \<open>ds\<close>, and the answers are those they had there.
\<close>

definition seen_owned :: "env \<Rightarrow> int set \<Rightarrow> ext_call list \<Rightarrow> ext_call list \<Rightarrow> string \<Rightarrow> int \<Rightarrow> bool" where
  "seen_owned E prov cs ds node v \<longleftrightarrow>
     (\<exists>pre suf g node0. ds = pre @ ClusterResources # suf \<and> guest_seen E (cs @ pre) v = Some g \<and>
        gr_type g = ''qemu'' \<and> node = owner_node node0 g \<and>
        (v \<in> prov \<or> (\<exists>more. suf = ConfigGet node v # more \<and>
                       managed_seen E (cs @ pre @ [ClusterResources]) node v)))"

text \<open>The call \<open>c\<close>, made after the calls \<open>ds\<close> of a teardown that began at \<open>cs\<close>, is allowed.\<close>

definition guarded_call ::
  "env \<Rightarrow> int set \<Rightarrow> int set \<Rightarrow> ext_call list \<Rightarrow> ext_call list \<Rightarrow> ext_call \<Rightarrow> bool" where
  "guarded_call E prov targets cs ds c \<longleftrightarrow> reading_call c \<or>
     (\<exists>node v. v \<in> targets \<and> c \<in> destroy_calls node v \<and> seen_owned E prov cs ds node v)"

text \<open>Each of the calls \<open>ds\<close> made after \<open>cs\<close> is allowed by what was seen before that call.\<close>

definition all_guarded :: "env \<Rightarrow> int set \<Rightarrow> int set \<Rightarrow> ext_call list \<Rightarrow> ext_call list \<Rightarrow> bool" where
  "all_guarded E prov targets cs ds \<longleftrightarrow>
     (\<forall>before c after. ds = before @ c # after \<longrightarrow> guarded_call E prov targets cs before c)"

definition guarded_rel :: "env \<Rightarrow> int set \<Rightarrow> int set \<Rightarrow> world \<Rightarrow> world \<Rightarrow> bool" where
  "guarded_rel E prov targets s t \<longleftrightarrow>
     (\<exists>cs. t = s\<lparr>calls := calls s @ cs\<rparr> \<and> all_guarded E prov targets (calls s) cs)"

lemma seen_owned_more:
  "seen_owned E prov cs ds node v \<Longrightarrow> seen_owned E prov cs (ds @ es) node v"
  unfolding seen_owned_def by fastforce

lemma seen_owned_earlier:
  assumes "seen_owned E prov (cs @ xs) ds node v" shows "seen_owned E prov cs (xs @ ds) node v"
proof -
  from assms obtain pre suf where "ds = pre @ ClusterResources # suf" and
    *: "\<exists>g node0. guest_seen E (cs @ xs @ pre) v = Some g \<and> gr_type g = ''qemu'' \<and> node = owner_node node0 g \<and>
        (v \<in> prov \<or> (\<exists>more. suf = ConfigGet node v # more \<and>
                       managed_seen E (cs @ xs @ pre @ [ClusterResources]) node v))"
    unfolding seen_owned_def append_assoc by blast
  then have "xs @ ds = (xs @ pre) @ ClusterResources # suf" by simp
  with * show ?thesis unfolding seen_owned_def append_assoc by (metis append_assoc)
qed

lemma all_guarded_append:
  assumes "all_guarded E prov T cs xs" "all_guarded E prov T (cs @ xs) ys"
  shows "all_guarded E prov T cs (xs @ ys)"
  unfolding all_guarded_def
proof (intro allI impI)
  fix before c after assume "xs @ ys = before @ c # after"
  then have "(\<exists>zs. xs = before @ c # zs) \<or> (\<exists>zs. before = xs @ zs \<and> ys = zs @ c # after)"
    by (force simp: append_eq_append_conv2 Cons_eq_append_conv append_eq_Cons_conv)
  then consider (left) zs where "xs = before @ c # zs" | (right) zs where "before = xs @ zs" "ys = zs @ c # after"
    by blast
  then show "guarded_call E prov T cs before c"
  proof cases
    case right
    with assms(2) have "guarded_call E prov T (cs @ xs) zs c" by (simp add: all_guarded_def)
    with right(1) show ?thesis by (auto simp: guarded_call_def dest: seen_owned_earlier)
  qed (use assms(1) in \<open>simp add: all_guarded_def\<close>)
qed

lemma all_guarded_reading: "\<forall>c \<in> set ds. reading_call c \<Longrightarrow> all_guarded E prov T cs ds"
  by (auto simp: all_guarded_def guarded_call_def)

interpretation guarded: state_preorder "guarded_rel E prov T" for E prov T
proof unfold_locales
  show "guarded_rel E prov T s s" for s by (auto simp: guarded_rel_def all_guarded_def intro!: exI [of _ "[]"])
  fix s t u assume "guarded_rel E prov T s t" "guarded_rel E prov T t u"
  then obtain cs ds where cs: "t = s\<lparr>calls := calls s @ cs\<rparr>" "all_guarded E prov T (calls s) cs"
    and ds: "u = t\<lparr>calls := calls t @ ds\<rparr>" "all_guarded E prov T (calls t) ds"
    unfolding guarded_rel_def by blast
  have "u = s\<lparr>calls := calls s @ (cs @ ds)\<rparr>" using cs(1) ds(1) by simp
  moreover have "all_guarded E prov T (calls s) (cs @ ds)"
    using cs ds(2) by (intro all_guarded_append) simp_all
  ultimately show "guarded_rel E prov T s u" unfolding guarded_rel_def by blast
qed

lemma guarded_reads:
  assumes "keeps (emits_rel S) m" "\<forall>c \<in> S. reading_call c"
  shows "keeps (guarded_rel E prov T) m"
  using assms unfolding keeps_def emits_rel_def guarded_rel_def by (blast intro: all_guarded_reading)

lemma reads_guarded:
  "t = s\<lparr>calls := calls s @ cs\<rparr> \<Longrightarrow> \<forall>c \<in> set cs. reading_call c \<Longrightarrow> guarded_rel E prov T s t"
  using all_guarded_reading unfolding guarded_rel_def by blast

lemma guarded_destroy:
  assumes "v \<in> T" "p \<longleftrightarrow> v \<in> prov"
  shows "keeps (guarded_rel E prov T) (destroy_owned_qemu_vm E node v p purge dud)"
proof (rule keepsI)
  fix s :: world and r t assume "destroy_owned_qemu_vm E node v p purge dud s = (r, t)"
  then show "guarded_rel E prov T s t"
  proof (cases rule: destroy_owned_cases)
    case (destroy g word)
    let ?n = "owner_node node g" and ?rd = "[ClusterResources, ConfigGet (owner_node node g) v]"
    have "strip ?n = ?n" using guest_seen_type [OF destroy(1)] by (simp add: owner_node_def)
    then have "keeps (emits_rel (destroy_calls ?n v))
        (bind_act (destroy_qemu_vm E ?n v purge dud) (\<lambda>_. ret_act word))"
      using keeps_destroy_qemu_vm [of ?n v E purge dud] by (intro emits.keeps_bind emits.keeps_ret) simp
    from keepsD [OF this destroy(3)] obtain cs where
      t: "t = s\<lparr>calls := calls s @ (?rd @ cs)\<rparr>" and cs: "set cs \<subseteq> destroy_calls ?n v"
      by (auto simp: emits_rel_def)
    have seen: "seen_owned E prov (calls s) ?rd ?n v"
      unfolding seen_owned_def
      by (intro exI [of _ "[]"] exI [of _ "[ConfigGet ?n v]"] exI [of _ g] exI [of _ node])
        (use destroy(1,2) assms(2) in \<open>auto simp: may_destroy_def\<close>)
    have "all_guarded E prov T (calls s) (?rd @ cs)"
      unfolding all_guarded_def
    proof (intro allI impI)
      fix before c after assume split: "?rd @ cs = before @ c # after"
      then consider "c \<in> set ?rd" | ds where "before = ?rd @ ds" "c \<in> set cs"
        by (fastforce simp: Cons_eq_append_conv)
      then show "guarded_call E prov T (calls s) before c"
      proof cases
        case (2 ds)
        with seen_owned_more [OF seen, of ds] cs assms(1) show ?thesis by (auto simp: guarded_call_def)
      qed (auto simp: guarded_call_def reading_call_def)
    qed
    then show ?thesis using t by (auto simp: guarded_rel_def)
  next
    case absent
    show ?thesis by (rule reads_guarded [OF absent(3)]) (simp add: reading_call_def)
  next
    case wrong_type
    show ?thesis by (rule reads_guarded [OF wrong_type(4)]) (simp add: reading_call_def)
  next
    case foreign
    show ?thesis by (rule reads_guarded [OF foreign(5)]) (simp add: reading_call_def)
  qed
qed

lemma guarded_teardown_one:
  assumes "fst t \<in> T" "prov = set provenance"
  shows "keeps (guarded_rel E prov T) (teardown_one E provenance t)"
proof -
  obtain v n where t: "t = (v, n)" by (cases t)
  have f: "keeps (guarded_rel E prov T) (find_qemu_node E v)"
    by (rule guarded_reads [OF keeps_find_qemu_node]) (simp add: reading_call_def)
  show ?thesis
    unfolding t teardown_one_def target_node_def Let_def prod.case
    using assms t
    by (intro guarded.keeps_catch guarded.keeps_bind guarded.keeps_if guarded.keeps_ret f guarded_destroy) simp_all
qed

subsection \<open>Results\<close>

lemma teardown_failure_vmid [simp]: "te_vmid (teardown_failure v n e) = v"
  by (cases e) (simp_all add: teardown_failure_def)

lemma teardown_one_result:
  "teardown_one E prov t w = (Inr x, w') \<Longrightarrow> te_vmid x = fst t"
  by (cases t) (auto simp: teardown_one_def Let_def bind_act_def catch_act_def ret_act_def
      split: sum.splits prod.splits if_splits)

lemma map_act_results:
  assumes "\<And>x w y w'. f x w = (Inr y, w') \<Longrightarrow> P x y"
  shows "map_act f xs w = (Inr ys, w') \<Longrightarrow> list_all2 P xs ys"
  by (induction xs arbitrary: w ys) (auto simp: bind_act_Inr_iff ret_act_def intro: assms)

lemma teardown_outcome_completed: "teardown_outcome es = ''completed'' \<longleftrightarrow> (\<forall>e \<in> set es. te_ok e)"
proof -
  have "length (filter te_ok es) = length es \<longleftrightarrow> (\<forall>e \<in> set es. te_ok e)"
    by (metis filter_id_conv length_filter_less less_irrefl)
  then show ?thesis by (cases es) (simp_all add: teardown_outcome_def Let_def)
qed

lemma teardown_steps:
  assumes "teardown_plan_run E C run w = (r, w')" "pr_teardown_status run \<noteq> ''completed''" "pr_status run \<noteq> R_RUNNING"
  obtains (fails) e where "r = Inl e" "guarded_rel E (set (provenance_vmids C run w))
      (fst ` set (collect_plan_run_targets C run w)) w w'"
  | (saved) es v run' where "r = Inr run'" "guarded_rel E (set (provenance_vmids C run w))
      (fst ` set (collect_plan_run_targets C run w)) w v" "w' = store_run E C run' v"
      "map te_vmid es = map fst (collect_plan_run_targets C run w)"
      "run' = run\<lparr>pr_teardown_status := teardown_outcome es, pr_teardown_results := es,
                  pr_teardown_at := utc_now_iso E v\<rparr>"
proof -
  let ?T = "collect_plan_run_targets C run w" and ?p = "provenance_vmids C run w"
  let ?R = "guarded_rel E (set ?p) (fst ` set ?T)"
  let ?conn = "if ?T = [] then ret_act () else bind_act (connect_proxmox E C) (\<lambda>_. ret_act ())"
  let ?m = "bind_act ?conn (\<lambda>_. map_act (teardown_one E ?p) ?T)"
  obtain q v where m: "?m w = (q, v)" by (cases "?m w")
  have c: "keeps ?R (connect_proxmox E C)"
    by (rule guarded_reads [OF keeps_connect_proxmox]) (simp add: reading_call_def)
  have "keeps ?R ?m"
    by (intro guarded.keeps_bind guarded.keeps_if guarded.keeps_ret guarded.keeps_map c guarded_teardown_one) simp_all
  then have rel: "?R w v" using m by (rule keepsD)
  show ?thesis
  proof (cases q)
    case (Inl e)
    then have "r = Inl e" "w' = v" using assms m
      by (auto simp: teardown_plan_run_def Let_def bind_act_def split: sum.splits prod.splits if_splits)
    then show ?thesis using rel fails by blast
  next
    case (Inr es)
    obtain u where "map_act (teardown_one E ?p) ?T u = (Inr es, v)"
      using m Inr by (auto simp: bind_act_Inr_iff)
    from map_act_results [where P = "\<lambda>t x. te_vmid x = fst t", OF teardown_one_result this] have "map te_vmid es = map fst ?T"
      by (simp add: list_all2_conv_all_nth list_eq_iff_nth_eq)
    moreover have "r = Inr (run\<lparr>pr_teardown_status := teardown_outcome es, pr_teardown_results := es,
                  pr_teardown_at := utc_now_iso E v\<rparr>)"
      "w' = store_run E C (run\<lparr>pr_teardown_status := teardown_outcome es, pr_teardown_results := es,
                  pr_teardown_at := utc_now_iso E v\<rparr>) v"
      using assms m Inr by (auto simp: teardown_plan_run_def Let_def bind_act_def get_act_def save_run_def ret_act_def
          split: sum.splits prod.splits if_splits)
    ultimately show ?thesis using rel saved by blast
  qed
qed

text \<open>C5: A teardown touches its own guests only. Each call it adds to the history either reads, or
  stops or deletes a guest that is a target of the run and that the engine has seen before that call,
  in this teardown, as a QEMU guest with the ownership marker or, without the marker, one that a job
  of this run had started to restore. A RUNNING run is refused and a run that was torn down is left alone; otherwise the run
  records one result per target, and it is \<open>completed\<close> exactly if all of them are.\<close>

theorem teardown_touches_targets:
  assumes "teardown_plan_run E C run w = (r, w')"
  shows "(\<exists>cs. calls w' = calls w @ cs \<and> all_guarded E (set (provenance_vmids C run w))
      (fst ` set (collect_plan_run_targets C run w)) (calls w) cs) \<and>
    (pr_teardown_status run = ''completed'' \<longrightarrow> r = Inr run \<and> w' = w) \<and>
    (pr_teardown_status run \<noteq> ''completed'' \<and> pr_status run = R_RUNNING \<longrightarrow> r = Inl teardown_running_error \<and> w' = w) \<and>
    (\<forall>run'. r = Inr run' \<and> pr_teardown_status run \<noteq> ''completed'' \<longrightarrow>
      map te_vmid (pr_teardown_results run') = map fst (collect_plan_run_targets C run w) \<and>
      (pr_teardown_status run' = ''completed'' \<longleftrightarrow> (\<forall>e \<in> set (pr_teardown_results run'). te_ok e)))"
proof (cases "pr_teardown_status run = ''completed'' \<or> pr_status run = R_RUNNING")
  case True
  then have "w' = w" "r = (if pr_teardown_status run = ''completed'' then Inr run else Inl teardown_running_error)"
    using assms by (auto simp: teardown_plan_run_def split: if_splits)
  then show ?thesis using True by (auto simp: all_guarded_def)
next
  case False
  then have n: "pr_teardown_status run \<noteq> ''completed''" "pr_status run \<noteq> R_RUNNING" by auto
  show ?thesis
  proof (cases rule: teardown_steps [OF assms n])
    case fails: (1 e)
    then show ?thesis using False by (auto simp: guarded_rel_def)
  next
    case saved: (2 es v run')
    have "\<exists>cs. calls w' = calls w @ cs \<and> all_guarded E (set (provenance_vmids C run w))
      (fst ` set (collect_plan_run_targets C run w)) (calls w) cs"
      using saved(2,3) by (auto simp: guarded_rel_def)
    then show ?thesis using saved(1,4,5) False by (simp add: teardown_outcome_completed)
  qed
qed

text \<open>A failed drill whose two targets are torn down: one guest is marked, the other one is foreign.\<close>

definition demo_torn_run :: plan_run where
  "demo_torn_run = (demo_run R_FAILED [])\<lparr>pr_targets := [(101, ''n1''), (102, [])]\<rparr>"

theorem teardown_touches_targets_witness:
  "\<exists>run'. fst (teardown_plan_run demo_env demo_cfg demo_torn_run empty_world) = Inr run' \<and>
    map te_vmid (pr_teardown_results run') = [101, 102] \<and> pr_teardown_status run' = ''partial''"
proof -
  have e: "case fst (teardown_plan_run demo_env demo_cfg demo_torn_run empty_world) of
      Inl e \<Rightarrow> False | Inr x \<Rightarrow> pr_teardown_status x = ''partial''"
    and t: "map fst (collect_plan_run_targets demo_cfg demo_torn_run empty_world) = [101, 102]"
    and st: "pr_teardown_status demo_torn_run \<noteq> ''completed''"
    by code_simp+
  obtain r w' where td: "teardown_plan_run demo_env demo_cfg demo_torn_run empty_world = (r, w')"
    by (cases "teardown_plan_run demo_env demo_cfg demo_torn_run empty_world")
  with e obtain run' where r: "r = Inr run'" "pr_teardown_status run' = ''partial''" by (cases r) auto
  with teardown_touches_targets [OF td] st t show ?thesis using td by simp
qed

end
