(* ===== verification/PyDate.thy ===== *)
theory PyDate
  imports PyTime
begin

text \<open>
  The other direction of \<open>PyTime\<close>: \<open>datetime.fromtimestamp(n, tz=utc)\<close> and its rendering as
  \<open>YYYY-MM-DDTHH:MM:SS\<close>, and the lemma that reading the rendering gives the timestamp back.
\<close>

subsection \<open>From a day to its date\<close>

lemma div_before: "0 < c \<Longrightarrow> (y :: int) div c = (y - 1) div c + (if y mod c = 0 then 1 else 0)"
proof -
  assume c: "0 < c"
  have y: "y = c * (y div c) + y mod c" by simp
  show ?thesis
  proof (cases "y mod c = 0")
    case True
    have "(y - 1) div c = y div c - 1"
      by (rule int_div_pos_eq [where r = "c - 1"]) (use y True c in \<open>simp_all add: algebra_simps\<close>)
    with True show ?thesis by simp
  next
    case False
    have "(y - 1) div c = y div c"
    proof (rule int_div_pos_eq [where r = "y mod c - 1"])
      show "y - 1 = c * (y div c) + (y mod c - 1)" using y by linarith
      have "0 \<le> y mod c" "y mod c < c" using c by simp_all
      with False show "0 \<le> y mod c - 1" "y mod c - 1 < c" by linarith+
    qed
    with False show ?thesis by simp
  qed
qed

lemma days_before_year_mono: "days_before_year y < days_before_year (y + 1)"
proof -
  have "(y - 1) div 4 \<le> y div 4" "(y - 1) div 400 \<le> y div 400" by (simp_all add: zdiv_mono1)
  moreover have "y div 100 \<le> (y - 1) div 100 + 1" using div_before [of 100 y] by simp
  ultimately show ?thesis unfolding days_before_year_def by simp
qed

text \<open>The year of the day \<open>n\<close> (day 0 is 0001-01-01), searched upwards from a year before it\<close>

function year_from :: "int \<Rightarrow> int \<Rightarrow> int" where
  "year_from y n = (if days_before_year (y + 1) \<le> n then year_from (y + 1) n else y)"
  by pat_completeness auto

termination
proof (relation "measure (\<lambda>(y, n). nat (n - days_before_year y))")
  fix y n :: int
  assume "days_before_year (y + 1) \<le> n"
  then show "((y + 1, n), (y, n)) \<in> measure (\<lambda>(y, n). nat (n - days_before_year y))"
    using days_before_year_mono [of y] by simp
qed simp

declare year_from.simps [simp del]

definition year_of :: "int \<Rightarrow> int" where
  "year_of n = year_from (n div 366 + 1) n"

fun month_day :: "int list \<Rightarrow> int \<Rightarrow> int \<Rightarrow> int \<times> int" where
  "month_day [] m d = (m, d + 1)"
| "month_day (l # ls) m d = (if d < l then (m, d + 1) else month_day ls (m + 1) (d - l))"

definition date_of :: "int \<Rightarrow> int \<times> int \<times> int" where
  "date_of n = (let y = year_of n; (m, d) = month_day (month_lengths y) 1 (n - days_before_year y)
                in (y, m, d))"

lemma year_from_bounds:
  "days_before_year y \<le> n \<Longrightarrow>
     days_before_year (year_from y n) \<le> n \<and> n < days_before_year (year_from y n + 1) \<and> y \<le> year_from y n"
proof (induction y n rule: year_from.induct)
  case (1 y n)
  then show ?case by (subst (1 2 3) year_from.simps) (use days_before_year_mono [of y] in fastforce)
qed

lemma days_before_le: "0 \<le> n \<Longrightarrow> days_before_year (n div 366 + 1) \<le> n"
proof -
  assume "0 \<le> n"
  let ?k = "n div 366"
  have "0 \<le> ?k" using \<open>0 \<le> n\<close> by (simp add: pos_imp_zdiv_nonneg_iff)
  have "days_before_year (?k + 1) = ?k * 365 + ?k div 4 - ?k div 100 + ?k div 400"
    by (simp add: days_before_year_def)
  also have "\<dots> \<le> ?k * 366"
    using zdiv_mono2 [OF \<open>0 \<le> ?k\<close>, of 1 4] zdiv_mono2 [OF \<open>0 \<le> ?k\<close>, of 100 400] by simp
  also have "\<dots> \<le> n" using mult_div_mod_eq [of 366 n] pos_mod_sign [of 366 n] by linarith
  finally show ?thesis .
qed

lemma year_of_bounds:
  assumes "0 \<le> n"
  shows "days_before_year (year_of n) \<le> n" "n < days_before_year (year_of n + 1)" "1 \<le> year_of n"
proof -
  have "0 \<le> n div 366" using assms by (simp add: pos_imp_zdiv_nonneg_iff)
  then show "days_before_year (year_of n) \<le> n" "n < days_before_year (year_of n + 1)" "1 \<le> year_of n"
    using year_from_bounds [OF days_before_le [OF assms]] by (auto simp: year_of_def)
qed

lemma days_before_year_le: "a \<le> b \<Longrightarrow> days_before_year a \<le> days_before_year b"
proof (induction b rule: int_ge_induct)
  case (step b)
  then show ?case using days_before_year_mono [of b] by simp
qed simp

lemma year_of_before: "0 \<le> n \<Longrightarrow> n < days_before_year (y + 1) \<Longrightarrow> year_of n \<le> y"
  using year_of_bounds(1) [of n] days_before_year_le [of "y + 1" "year_of n"] by fastforce

lemma year_length: "days_before_year (y + 1) = days_before_year y + sum_list (month_lengths y)"
proof -
  define a b c where "a \<longleftrightarrow> y mod 4 = 0" and "b \<longleftrightarrow> y mod 100 = 0" and "c \<longleftrightarrow> y mod 400 = 0"
  have "c \<longrightarrow> b" "b \<longrightarrow> a"
    unfolding a_def b_def c_def
    using mod_mod_cancel [of 100 400 y] mod_mod_cancel [of 4 100 y] by auto
  moreover have "y div 4 = (y - 1) div 4 + (if a then 1 else 0)"
    "y div 100 = (y - 1) div 100 + (if b then 1 else 0)"
    "y div 400 = (y - 1) div 400 + (if c then 1 else 0)"
    unfolding a_def b_def c_def by (rule div_before, simp)+
  moreover have "leap y \<longleftrightarrow> a \<and> (\<not> b \<or> c)" by (simp add: leap_def a_def b_def c_def)
  moreover have "sum_list (month_lengths y) = 365 + (if leap y then 1 else 0)"
    by (simp add: month_lengths_def)
  moreover have "days_before_year (y + 1) = y * 365 + y div 4 - y div 100 + y div 400"
    "days_before_year y = y * 365 - 365 + (y - 1) div 4 - (y - 1) div 100 + (y - 1) div 400"
    by (simp_all add: days_before_year_def algebra_simps)
  moreover have "c \<longrightarrow> b \<Longrightarrow> b \<longrightarrow> a \<Longrightarrow> q4 = p4 + (if a then 1 else 0) \<Longrightarrow>
    q100 = p100 + (if b then 1 else 0) \<Longrightarrow> q400 = p400 + (if c then 1 else 0) \<Longrightarrow> l = (a \<and> (\<not> b \<or> c)) \<Longrightarrow>
    s = 365 + (if l then 1 else 0) \<Longrightarrow> n = y * 365 + q4 - q100 + q400 \<Longrightarrow>
    m = y * 365 - 365 + p4 - p100 + p400 \<Longrightarrow> n = m + s" for q4 q100 q400 p4 p100 p400 l s n m
    by (cases a; cases b; cases c) simp_all
  ultimately show ?thesis by blast
qed

lemma month_day_spec:
  assumes "0 \<le> d" "d < sum_list ls" "\<forall>l \<in> set ls. 0 \<le> l" "month_day ls m0 d = (m, k)"
  shows "m0 \<le> m \<and> m < m0 + int (length ls) \<and> 1 \<le> k \<and> k \<le> ls ! nat (m - m0) \<and>
    sum_list (take (nat (m - m0)) ls) + k = d + 1"
  using assms
proof (induction ls m0 d rule: month_day.induct)
  case (2 l ls m0 d)
  show ?case
  proof (cases "d < l")
    case False
    then have *: "m0 + 1 \<le> m \<and> m < m0 + 1 + int (length ls) \<and> 1 \<le> k \<and> k \<le> ls ! nat (m - (m0 + 1)) \<and>
      sum_list (take (nat (m - (m0 + 1))) ls) + k = (d - l) + 1"
      using 2 by simp
    then have "m - m0 = 1 + (m - (m0 + 1))" "0 \<le> m - (m0 + 1)" by linarith+
    then have "nat (m - m0) = Suc (nat (m - (m0 + 1)))" by linarith
    with * show ?thesis by simp
  qed (use 2 in auto)
qed simp

lemma date_of_spec:
  assumes "0 \<le> n" "date_of n = (y, m, d)"
  shows "1 \<le> y" "1 \<le> m" "m \<le> 12" "1 \<le> d" "d \<le> month_lengths y ! nat (m - 1)" "ymd_ordinal y m d = n + 1"
proof -
  let ?k = "n - days_before_year y"
  have y: "y = year_of n" and md: "month_day (month_lengths y) 1 ?k = (m, d)"
    using assms(2) by (auto simp: date_of_def Let_def split: prod.splits)
  have "1 \<le> m \<and> m < 1 + int (length (month_lengths y)) \<and> 1 \<le> d \<and> d \<le> month_lengths y ! nat (m - 1) \<and>
    sum_list (take (nat (m - 1)) (month_lengths y)) + d = ?k + 1"
    using month_day_spec [OF _ _ _ md] year_of_bounds [OF assms(1)] year_length [of y]
    by (simp add: y) (simp add: month_lengths_def)
  then show "1 \<le> y" "1 \<le> m" "m \<le> 12" "1 \<le> d" "d \<le> month_lengths y ! nat (m - 1)" "ymd_ordinal y m d = n + 1"
    using year_of_bounds(3) [OF assms(1)] y by (auto simp: ymd_ordinal_def month_lengths_def)
qed

subsection \<open>Rendering\<close>

definition pad2 :: "int \<Rightarrow> string" where
  "pad2 n = (if n < 10 then ''0'' else []) @ str_of_int n"

text \<open>
  \<open>strftime("%Y-%m-%dT%H:%M:%S")\<close>; the C library does not pad the year. Timestamps outside the
  years 1 to 9999 are an error (a \<open>ValueError\<close> or an \<open>OverflowError\<close>, as the size of the number
  has it; the code catches both as \<open>Exception\<close>, and the text of the error is not represented).
\<close>

definition first_epoch :: int where "first_epoch = - 62135596800"

definition last_epoch :: int where "last_epoch = 253402300799"

definition datetime_text :: "int \<Rightarrow> string" where
  "datetime_text e =
     (let (y, m, d) = date_of (e div 86400 + 719162); s = e mod 86400
      in str_of_int y @ ''-'' @ pad2 m @ ''-'' @ pad2 d @ ''T'' @
         pad2 (s div 3600) @ '':'' @ pad2 (s div 60 mod 60) @ '':'' @ pad2 (s mod 60))"

definition utc_datetime :: "int \<Rightarrow> exn + string" where
  "utc_datetime e =
     (if first_epoch \<le> e \<and> e \<le> last_epoch then Inr (datetime_text e)
      else Inl (ApiError ''year is out of range''))"

subsection \<open>Reading the rendering\<close>

lemma foldl_digits_int:
  "foldl (\<lambda>a c. 10 * a + int (digit_val c)) (int n) s = int (foldl (\<lambda>a c. 10 * a + digit_val c) n s)"
proof (induction s arbitrary: n)
  case (Cons c s)
  show ?case using Cons [of "10 * n + digit_val c"] by simp
qed simp

lemma digits_int_str_of_int: "0 \<le> n \<Longrightarrow> digits_int (str_of_int n) = Some n"
  using foldl_digits_int [of 0] str_of_nat_digits [of _ "nat n"]
  by (auto simp: digits_int_def str_of_int_def str_of_nat_value)

lemma length_str_of_nat: "10 ^ k \<le> n \<Longrightarrow> n < 10 ^ Suc k \<Longrightarrow> length (str_of_nat n) = Suc k"
proof (induction k arbitrary: n)
  case (Suc k)
  then have "10 ^ k \<le> n div 10" "n div 10 < 10 ^ Suc k" by auto
  moreover have "\<not> n < 10"
    using Suc.prems(1) one_le_power [of "10 :: nat" k] unfolding power_Suc by linarith
  ultimately show ?case using Suc.IH [of "n div 10"] by (subst str_of_nat.simps) simp
qed (subst str_of_nat.simps, simp)

lemma pad2_facts:
  assumes "0 \<le> n" "n < 100"
  shows "length (pad2 n) = 2" "digits_int (pad2 n) = Some n"
proof -
  show "length (pad2 n) = 2"
    using assms length_str_of_nat [of 0 "nat n"] length_str_of_nat [of 1 "nat n"]
    by (cases "n = 0") (auto simp: pad2_def str_of_int_def str_of_nat.simps)
  have "digits_int (''0'' @ t) = digits_int t" if "t \<noteq> []" for t
    using that by (simp add: digits_int_def is_digit_def digit_val_def)
  then show "digits_int (pad2 n) = Some n"
    using digits_int_str_of_int [OF assms(1)] by (simp add: pad2_def)
qed

lemma take_prefix: "length A = n \<Longrightarrow> take n (A @ r) = A"
  and drop_prefix: "length A = n \<Longrightarrow> drop n (A @ r) = r"
  by simp_all

lemma date_length:
  "length Y = 4 \<Longrightarrow> length M = 2 \<Longrightarrow> length D = 2 \<Longrightarrow> length (Y @ ''-'' @ M @ ''-'' @ D) = 10"
  and clock_length:
  "length H = 2 \<Longrightarrow> length M = 2 \<Longrightarrow> length S = 2 \<Longrightarrow> length (H @ '':'' @ M @ '':'' @ S) = 8"
  by simp_all

lemma two_chars: "length s = 2 \<Longrightarrow> \<exists>a b. s = [a, b]"
  by (cases s; cases "tl s") auto

lemma four_chars: "length s = 4 \<Longrightarrow> \<exists>a b c d. s = [a, b, c, d]"
  by (cases s; cases "tl s"; cases "tl (tl s)"; cases "tl (tl (tl s))") auto

lemma parse_date_text:
  assumes "length Y = 4" "length M = 2" "length D = 2" "digits_int Y = Some y" "digits_int M = Some m"
    "digits_int D = Some d" "1 \<le> y" "1 \<le> m" "m \<le> 12" "1 \<le> d" "d \<le> month_lengths y ! nat (m - 1)"
  shows "parse_date (Y @ ''-'' @ M @ ''-'' @ D) = Some (ymd_ordinal y m d)"
  using four_chars [OF assms(1)] two_chars [OF assms(2)] two_chars [OF assms(3)] assms(4-)
  by (auto simp: parse_date_def)

lemma parse_clock_text:
  assumes "length H = 2" "length M = 2" "length S = 2" "digits_int H = Some h" "digits_int M = Some m"
    "digits_int S = Some s" "h < 24" "m < 60" "s < 60"
  shows "parse_clock (H @ '':'' @ M @ '':'' @ S) = Some (h * 3600 + m * 60 + s)"
  using two_chars [OF assms(1)] two_chars [OF assms(2)] two_chars [OF assms(3)] assms(4-)
  by (auto simp: parse_clock_def)

text \<open>The first second of the year 1000, the first year with four digits\<close>

definition four_digit_epoch :: int where "four_digit_epoch = - 30610224000"

lemma datetime_year:
  assumes "four_digit_epoch \<le> e" "e \<le> last_epoch"
  shows "1000 \<le> year_of (e div 86400 + 719162)" "year_of (e div 86400 + 719162) \<le> 9999"
proof -
  let ?n = "e div 86400 + 719162"
  have "four_digit_epoch div 86400 \<le> e div 86400" "e div 86400 \<le> last_epoch div 86400"
    using assms by (simp_all add: zdiv_mono1)
  then have n: "364877 \<le> ?n" "?n \<le> 3652058" by (simp_all add: four_digit_epoch_def last_epoch_def)
  show "year_of ?n \<le> 9999"
    by (rule year_of_before) (use n in \<open>simp_all add: days_before_year_def\<close>)
  show "1000 \<le> year_of ?n"
  proof (rule ccontr)
    assume "\<not> 1000 \<le> year_of ?n"
    then have "days_before_year (year_of ?n + 1) \<le> days_before_year 1000"
      by (intro days_before_year_le) simp
    moreover have "days_before_year 1000 = 364877" by (simp add: days_before_year_def)
    ultimately show False using year_of_bounds(2) [of ?n] n by simp
  qed
qed

lemma clock_parts: "s div 3600 * 3600 + s div 60 mod 60 * 60 + s mod 60 = (s :: int)"
proof -
  have "s div 3600 = s div 60 div 60" using zdiv_zmult2_eq [of 60 s 60] by simp
  moreover have "s div 60 div 60 * 60 + s div 60 mod 60 = s div 60" "s div 60 * 60 + s mod 60 = s"
    by (rule div_mult_mod_eq)+
  moreover have "a * 60 + b = q \<Longrightarrow> q * 60 + r = s \<Longrightarrow> a * 3600 + b * 60 + r = s" for a b q r :: int
    by (simp add: algebra_simps)
  ultimately show ?thesis by metis
qed

lemma month_lengths_le: "1 \<le> m \<Longrightarrow> m \<le> 12 \<Longrightarrow> month_lengths y ! nat (m - 1) \<le> 31"
proof -
  assume "1 \<le> m" "m \<le> 12"
  then have "nat (m - 1) < 12" by simp
  then have "month_lengths y ! nat (m - 1) \<in> set (month_lengths y)"
    by (intro nth_mem) (simp add: month_lengths_def)
  then show ?thesis by (auto simp: month_lengths_def split: if_splits)
qed

lemma datetime_text_read:
  assumes "four_digit_epoch \<le> e" "e \<le> last_epoch"
  shows "iso_timestamp (datetime_text e @ ''+00:00'') = Some (of_int e)"
    "iso_aware (datetime_text e @ ''+00:00'')" "length (datetime_text e) = 19"
proof -
  let ?n = "e div 86400 + 719162" and ?s = "e mod 86400"
  obtain y m d where ymd: "date_of ?n = (y, m, d)" by (metis prod_cases3)
  have year: "1000 \<le> y" "y \<le> 9999"
    using datetime_year [OF assms] ymd by (auto simp: date_of_def Let_def split: prod.splits)
  have "four_digit_epoch div 86400 \<le> e div 86400" using assms by (simp add: zdiv_mono1)
  then have "0 \<le> ?n" by (simp add: four_digit_epoch_def)
  note date = date_of_spec [OF this ymd]
  have "d \<le> 31" using month_lengths_le [OF date(2,3)] date(5) by (rule order_trans [rotated])
  have s: "0 \<le> ?s" "?s < 86400" by simp_all
  let ?Y = "str_of_int y" and ?H = "pad2 (?s div 3600)" and ?M = "pad2 (?s div 60 mod 60)" and ?S = "pad2 (?s mod 60)"
  let ?D = "?Y @ ''-'' @ pad2 m @ ''-'' @ pad2 d" and ?T = "?H @ '':'' @ ?M @ '':'' @ ?S"
  have h: "0 \<le> ?s div 3600" "?s div 3600 < 24"
    using zdiv_mono1 [OF s(1), of 3600] zdiv_mono_strict [OF s(2), of 3600] by simp_all
  have Y: "length ?Y = 4" "digits_int ?Y = Some y"
    using length_str_of_nat [of 3 "nat y"] digits_int_str_of_int [of y] year by (simp_all add: str_of_int_def)
  have r: "0 \<le> m" "m < 100" "0 \<le> d" "d < 100" "0 \<le> ?s div 3600" "?s div 3600 < 100"
    "0 \<le> ?s div 60 mod 60" "?s div 60 mod 60 < 100" "0 \<le> ?s mod 60" "?s mod 60 < 100"
    using date(2-4) \<open>d \<le> 31\<close> h pos_mod_bound [of 60 "?s div 60"] pos_mod_bound [of 60 ?s]
      pos_mod_sign [of 60 "?s div 60"] pos_mod_sign [of 60 ?s] by simp_all
  have pads: "length (pad2 m) = 2" "length (pad2 d) = 2" "length ?H = 2" "length ?M = 2" "length ?S = 2"
    "digits_int (pad2 m) = Some m" "digits_int (pad2 d) = Some d" "digits_int ?H = Some (?s div 3600)"
    "digits_int ?M = Some (?s div 60 mod 60)" "digits_int ?S = Some (?s mod 60)"
    by (rule pad2_facts, rule r, rule r)+
  have rendered: "datetime_text e = ?D @ ''T'' @ ?T" by (simp add: datetime_text_def ymd Let_def)
  have len: "length ?D = 10" "length ?T = 8" by (rule date_length [OF Y(1) pads(1,2)] clock_length [OF pads(3-5)])+
  then show "length (datetime_text e) = 19" by (simp only: rendered length_append) simp
  have pd: "parse_date ?D = Some (?n + 1)"
    using parse_date_text [OF Y(1) pads(1,2) Y(2) pads(6,7)] date by simp
  have "parse_clock ?T = Some (?s div 3600 * 3600 + ?s div 60 mod 60 * 60 + ?s mod 60)"
    by (rule parse_clock_text [OF pads(3-5,8-10) h(2)]) simp_all
  then have pc: "parse_clock ?T = Some ?s" by (simp only: clock_parts)
  have cut: "take 10 (?D @ r) = ?D" "drop 10 (?D @ r) = r" "take 8 (?T @ r) = ?T" "drop 8 (?T @ r) = r" for r
    by (rule take_prefix [OF len(1)] drop_prefix [OF len(1)] take_prefix [OF len(2)] drop_prefix [OF len(2)])+
  have drops: "drop 11 (datetime_text e @ r) = ?T @ r" "drop 19 (datetime_text e @ r) = r" for r
  proof -
    have whole: "datetime_text e @ r = (?D @ ''T'') @ ?T @ r" by (simp add: rendered)
    have len11: "length (?D @ ''T'') = 11" using len(1) by simp
    show "drop 11 (datetime_text e @ r) = ?T @ r" unfolding whole by (rule drop_prefix [OF len11])
    show "drop 19 (datetime_text e @ r) = r"
      by (rule drop_prefix [OF \<open>length (datetime_text e) = 19\<close>])
  qed
  have "take 10 (datetime_text e @ r) = ?D" for r
  proof -
    have "datetime_text e @ r = ?D @ ''T'' @ ?T @ r" by (simp add: rendered)
    then show ?thesis by (simp only: cut)
  qed
  moreover have "of_int ((?n + 1 - 719163) * 86400 + ?s - 0) = (of_int e :: rat)"
    using mult_div_mod_eq [of 86400 e] by (simp add: algebra_simps del: mult_div_mod_eq)
  moreover have "parse_fraction ''+00:00'' = Some (0, ''+00:00'')" "parse_offset ''+00:00'' = Some 0"
    by code_simp+
  moreover have "length (datetime_text e @ ''+00:00'') \<noteq> 10" using \<open>length (datetime_text e) = 19\<close> by simp
  ultimately show "iso_timestamp (datetime_text e @ ''+00:00'') = Some (of_int e)"
    by (simp only: iso_timestamp_def drops cut pd pc option.case prod.case if_False add_0_right)
  show "iso_aware (datetime_text e @ ''+00:00'')"
    using \<open>parse_fraction ''+00:00'' = _\<close> by (simp only: iso_aware_def drops) simp
qed

lemma datetime_examples:
  "datetime_text 1778115966 = ''2026-05-07T01:06:06''" "datetime_text 951782400 = ''2000-02-29T00:00:00''"
  by code_simp+

end
