(* ===== verification/Schedule.thy ===== *)
theory Schedule
  imports PlanRuns PyDate
begin

text \<open>
  What the worker does on a clock (\<open>plans.py\<close>): which plans are due for a readiness check and for a
  scheduled run, the scheduler's tick, the time of the next run, and the assurance dashboard; then
  the tags of the guests with their cache in Redis, which the scheduled runs and the checks share.
\<close>

subsection \<open>Cutoffs and due checks\<close>

definition default_cutoff :: "string \<Rightarrow> string" where
  "default_cutoff value0 =
     (let v = strip value0 in
      if v = [] then ''9999-12-31T23:59:59Z''
      else if length v = 10 then v @ ''T23:59:59Z''
      else if length v = 16 then v @ '':59Z''
      else if \<not> endswith ''Z'' v then v @ ''Z'' else v)"

definition naive_error :: exn where
  "naive_error = TypeError (''can'' @ [CHR 0x27] @ ''t subtract offset-naive and offset-aware datetimes'')"

definition plan_enabled :: "dict \<Rightarrow> bool" where
  "plan_enabled plan \<longleftrightarrow> truthy (dget_or plan ''enabled'' (PBool True))"

definition check_due :: "rat \<Rightarrow> rat \<Rightarrow> dict \<Rightarrow> exn + bool" where
  "check_due interval clock_now plan =
     (if \<not> plan_enabled plan then Inr False
      else case parse_iso (str_or_empty (dget plan ''last_check_at'')) of
             None \<Rightarrow> Inr True
           | Some (aware, prev) \<Rightarrow> if \<not> aware then Inl naive_error else Inr (interval \<le> clock_now - prev))"

definition filter_res :: "('a \<Rightarrow> exn + bool) \<Rightarrow> 'a list \<Rightarrow> exn + 'a list" where
  "filter_res f xs =
     res_bind (map_res (\<lambda>x. res_bind (f x) (\<lambda>b. Inr (b, x))) xs) (\<lambda>bxs. Inr (map snd (filter fst bxs)))"

definition plans_due_for_check :: "dict list \<Rightarrow> rat \<Rightarrow> rat \<Rightarrow> exn + dict list" where
  "plans_due_for_check plans interval clock_now = filter_res (check_due interval clock_now) plans"

subsection \<open>The schedule of a plan\<close>

definition schedule_hours :: "dict \<Rightarrow> rat" where
  "schedule_hours plan = py_float_or (py_or (dget plan ''schedule_interval_hours'') (PInt 0)) 0"

text \<open>A time stamp without an offset is in UTC here; \<open>None\<close> when there is none or it is no time stamp.\<close>

definition last_scheduled :: "dict \<Rightarrow> rat option" where
  "last_scheduled plan = iso_timestamp (replace_Z (strip (str_or_empty (dget plan ''last_scheduled_run_at''))))"

definition schedule_due :: "rat \<Rightarrow> dict \<Rightarrow> bool" where
  "schedule_due clock_now plan \<longleftrightarrow>
     plan_enabled plan \<and> truthy (dget plan ''schedule_enabled'') \<and> 0 < schedule_hours plan \<and>
     (case last_scheduled plan of None \<Rightarrow> True | Some prev \<Rightarrow> schedule_hours plan * 3600 \<le> clock_now - prev)"

definition plans_due_for_schedule :: "dict list \<Rightarrow> rat \<Rightarrow> dict list" where
  "plans_due_for_schedule plans clock_now = filter (schedule_due clock_now) plans"

definition plan_has_active_run :: "cfg \<Rightarrow> dict \<Rightarrow> world \<Rightarrow> bool" where
  "plan_has_active_run C plan w \<longleftrightarrow>
     (\<exists>i \<in> set (smembers (active_plan_runs_key C) w). case get_plan_run C i w of
        None \<Rightarrow> False
      | Some run \<Rightarrow> PStr (rn_plan_id (pr_params run)) = dget plan ''id'' \<and> pr_status run = R_RUNNING)"

type_synonym start_fn = "dict \<Rightarrow> dict \<Rightarrow> (world, plan_run) act"

text \<open>
  The start of one due plan, and what is saved: the plan as it was listed at the beginning of the
  tick, with the new time.
\<close>

definition scheduled_save :: "env \<Rightarrow> cfg \<Rightarrow> dict \<Rightarrow> (world, unit) act" where
  "scheduled_save E C plan =
     bind_act (res_act (need_key plan ''id'')) (\<lambda>_.
     upd_act (\<lambda>w. save_plan_doc E C (dput plan ''last_scheduled_run_at'' (PStr (utc_now_iso E w))) w))"

definition scheduled_one ::
  "env \<Rightarrow> cfg \<Rightarrow> start_fn \<Rightarrow> (dict \<Rightarrow> exn \<Rightarrow> (world, unit) act) \<Rightarrow> dict \<Rightarrow> (world, bool) act" where
  "scheduled_one E C start_fn on_error plan = (\<lambda>w.
     let location = (case get_location C (str_or_empty (dget plan ''location_id'')) w of None \<Rightarrow> [] | Some d \<Rightarrow> d) in
     if location = [] \<or> plan_has_active_run C plan w then (Inr False, w)
     else catch_act
            (bind_act (start_fn plan location) (\<lambda>_.
             bind_act (scheduled_save E C plan) (\<lambda>_. ret_act True)))
            (\<lambda>e. bind_act (on_error plan e) (\<lambda>_. ret_act False)) w)"

fun scheduled_each ::
  "env \<Rightarrow> cfg \<Rightarrow> start_fn \<Rightarrow> (dict \<Rightarrow> exn \<Rightarrow> (world, unit) act) \<Rightarrow> dict list \<Rightarrow> (world, int) act" where
  "scheduled_each E C start_fn on_error [] = ret_act 0"
| "scheduled_each E C start_fn on_error (plan # plans) =
     bind_act (scheduled_one E C start_fn on_error plan) (\<lambda>started.
     bind_act (scheduled_each E C start_fn on_error plans) (\<lambda>n. ret_act (if started then n + 1 else n)))"

text \<open>Without a handler the code raises again: then \<open>on_error\<close> is \<open>\<lambda>plan e. raise_act e\<close>.\<close>

definition tick_scheduled_plan_runs ::
  "env \<Rightarrow> cfg \<Rightarrow> start_fn \<Rightarrow> (dict \<Rightarrow> exn \<Rightarrow> (world, unit) act) \<Rightarrow> (world, int) act" where
  "tick_scheduled_plan_runs E C start_fn on_error =
     bind_act (get_act (\<lambda>w. plans_due_for_schedule (list_plans C w) (now E w)))
       (scheduled_each E C start_fn on_error)"

subsection \<open>The next run\<close>

text \<open>
  \<open>datetime.isoformat()\<close> of a UTC time: the fraction in microseconds when it is not zero, the year
  with four digits.
\<close>

definition pad_left :: "nat \<Rightarrow> string \<Rightarrow> string" where
  "pad_left n s = replicate (n - length s) CHR ''0'' @ s"

definition iso_format :: "rat \<Rightarrow> string" where
  "iso_format t =
     (let us = round_half_even (t * 1000000); frac = us mod 1000000
      in pad_left 19 (datetime_text (us div 1000000)) @
         (if frac = 0 then [] else ''.'' @ pad_left 6 (str_of_int frac)) @ ''+00:00'')"

text \<open>A time that is out of range counts as a \<open>ValueError\<close>, which the code catches.\<close>

definition next_scheduled_iso :: "dict \<Rightarrow> rat \<Rightarrow> string" where
  "next_scheduled_iso plan clock_now =
     (if \<not> truthy (dget plan ''schedule_enabled'') \<or> schedule_hours plan \<le> 0 then []
      else case last_scheduled plan of
             None \<Rightarrow> iso_format clock_now
           | Some prev \<Rightarrow>
               let nxt = prev + schedule_hours plan * 3600 in
               if of_int first_epoch \<le> nxt \<and> nxt < of_int last_epoch + 1 then iso_format nxt
               else iso_format clock_now)"

subsection \<open>The assurance dashboard\<close>

definition active_drills :: "cfg \<Rightarrow> world \<Rightarrow> (string \<times> plan_run) list" where
  "active_drills C w =
     rev (List.map_filter (\<lambda>i. case get_plan_run C i w of
        None \<Rightarrow> None
      | Some run \<Rightarrow> if pr_status run = R_RUNNING \<and> rn_drill (pr_params run) \<and> rn_plan_id (pr_params run) \<noteq> []
                     then Some (rn_plan_id (pr_params run), run) else None)
       (smembers (active_plan_runs_key C) w))"

definition dashboard_status :: "dict \<Rightarrow> plan_run option \<Rightarrow> string \<times> pyval" where
  "dashboard_status plan active =
     (let status = py_str (py_or (dget plan ''assurance_status'') (PStr ''UNKNOWN''));
          detail = py_or (dget plan ''assurance_detail'') (PStr [])
      in if \<not> truthy (dget plan ''assurance_enabled'') then (''DISABLED'', detail)
         else case active of
           Some run \<Rightarrow> (''IN_PROGRESS'', PStr (''assurance drill running ('' @ pr_id run @ '')''))
         | None \<Rightarrow> (if status \<in> {''ASSURED'', ''FAILED'', ''UNKNOWN''} then status else ''UNKNOWN'', detail))"

definition dashboard_rto :: "dict \<Rightarrow> int option" where
  "dashboard_rto plan =
     (let rto = dget plan ''assurance_last_rto_sec''
      in if none_or_empty rto then None else case py_int rto of Inr n \<Rightarrow> Some n | Inl e \<Rightarrow> None)"

definition dashboard_item :: "cfg \<Rightarrow> world \<Rightarrow> rat \<Rightarrow> dict \<Rightarrow> exn + dict" where
  "dashboard_item C w clock_now plan =
     (let active = map_of (active_drills C w) (str_or_empty (dget plan ''id''));
          (status, detail) = dashboard_status plan active; rto = dashboard_rto plan
      in res_bind (int_or_zero plan ''assurance_max_rto_sec'') (\<lambda>max_rto.
         res_bind (int_or_zero plan ''schedule_interval_hours'') (\<lambda>hours.
         Inr
           [(''plan_id'', dget plan ''id''), (''plan_name'', dget plan ''name''),
            (''enabled'', PBool (plan_enabled plan)),
            (''assurance_enabled'', PBool (truthy (dget plan ''assurance_enabled''))),
            (''assurance_status'', PStr status), (''assurance_detail'', detail),
            (''assurance_updated_at'', py_or (dget plan ''assurance_updated_at'') (PStr [])),
            (''assurance_last_run_id'', py_or (dget plan ''assurance_last_run_id'') (PStr [])),
            (''assurance_last_rto_sec'', opt_int rto), (''assurance_last_rto'', PStr (format_duration rto)),
            (''assurance_require_qga'', PBool (truthy (dget plan ''assurance_require_qga''))),
            (''assurance_require_http'', PBool (truthy (dget plan ''assurance_require_http''))),
            (''assurance_max_rto_sec'', PInt max_rto), (''verification'', dget plan ''verification''),
            (''schedule_enabled'', PBool (truthy (dget plan ''schedule_enabled''))),
            (''schedule_interval_hours'', PInt hours),
            (''next_scheduled_at'', PStr (next_scheduled_iso plan clock_now)),
            (''last_run_report_id'', py_or (dget plan ''last_run_report_id'') (PStr [])),
            (''location_id'', py_or (dget plan ''location_id'') (PStr [])),
            (''active_run_id'', PStr (case active of None \<Rightarrow> [] | Some run \<Rightarrow> pr_id run))])))"

text \<open>\<open>DISABLED\<close> is counted under \<open>disabled\<close>.\<close>

definition dashboard_counts :: "dict list \<Rightarrow> (string \<times> int) list" where
  "dashboard_counts items =
     map (\<lambda>k. (k, int (length (filter (\<lambda>d. dget d ''assurance_status'' =
            PStr (if k = ''disabled'' then ''DISABLED'' else k)) items))))
       [''ASSURED'', ''FAILED'', ''UNKNOWN'', ''IN_PROGRESS'', ''disabled'']"

definition assurance_dashboard :: "env \<Rightarrow> cfg \<Rightarrow> world \<Rightarrow> exn + dict list \<times> (string \<times> int) list \<times> string" where
  "assurance_dashboard E C w =
     res_bind (map_res (dashboard_item C w (now E w)) (list_plans C w)) (\<lambda>items.
     Inr (items, dashboard_counts items, utc_now_iso E w))"

subsection \<open>Guest tags\<close>

definition tag_cache_key :: "cfg \<Rightarrow> string \<Rightarrow> string" where
  "tag_cache_key C volid = redis_name C ''tag_cache_prefix'' ''restore:tagcache:'' @ volid"

definition row_volid :: "dict \<Rightarrow> exn + string" where
  "row_volid row =
     res_bind (need_key row ''pve_storage'') (\<lambda>st.
     res_bind (need_key row ''voltail'') (\<lambda>tail.
     res_bind (py_strip (py_or st (PStr []))) (\<lambda>st'.
     res_bind (if st' = [] then Inr [] else py_strip (py_or tail (PStr []))) (\<lambda>tail'.
     archive_path st' tail'))))"

type_synonym tag_result = "tag_map \<times> (string \<times> string) list"

definition cached_tags :: "string \<Rightarrow> string list" where
  "cached_tags s = filter (\<lambda>t. t \<noteq> []) (split_on CHR '';'' s)"

text \<open>Reading the configuration in the archive; the tags go to the cache.\<close>

definition fetch_tags :: "env \<Rightarrow> cfg \<Rightarrow> string \<Rightarrow> string \<Rightarrow> ('x store_scheme, string list) act" where
  "fetch_tags E C node volid =
     bind_act (extract_vm_config E node volid) (\<lambda>t.
     bind_act (upd_act (set_str (tag_cache_key C volid) (join_on '';'' (parse_tags t)))) (\<lambda>_.
     ret_act (parse_tags t)))"

definition resolve_tag_row ::
  "env \<Rightarrow> cfg \<Rightarrow> string \<Rightarrow> dict \<Rightarrow> tag_result \<Rightarrow> ('x store_scheme, tag_result) act" where
  "resolve_tag_row E C node row = (\<lambda>(tags, errs).
     case row_volid row of
       Inl e \<Rightarrow> ret_act (tags, AList.update (str_or_empty (dget row ''backup_id'')) (exn_str e) errs)
     | Inr volid \<Rightarrow>
         bind_act (get_act (get_str (tag_cache_key C volid))) (\<lambda>cached.
         bind_act (case cached of
                     Some s \<Rightarrow> ret_act (Inr (cached_tags s))
                   | None \<Rightarrow> catch_act (bind_act (fetch_tags E C node volid) (\<lambda>ts. ret_act (Inr ts)))
                               (\<lambda>e. ret_act (Inl (exn_str e)))) (\<lambda>found.
         bind_act (res_act (need_str row ''backup_id'')) (\<lambda>bid. ret_act
           (case found of
              Inr ts \<Rightarrow> (AList.update bid ts tags, errs)
            | Inl m \<Rightarrow> (tags, AList.update bid m errs))))))"

fun resolve_tag_rows ::
  "env \<Rightarrow> cfg \<Rightarrow> string \<Rightarrow> dict list \<Rightarrow> tag_result \<Rightarrow> ('x store_scheme, tag_result) act" where
  "resolve_tag_rows E C node [] r = ret_act r"
| "resolve_tag_rows E C node (row # rows) r =
     bind_act (resolve_tag_row E C node row r) (resolve_tag_rows E C node rows)"

definition resolve_tags_cached ::
  "env \<Rightarrow> cfg \<Rightarrow> dict list \<Rightarrow> string \<Rightarrow> ('x store_scheme, tag_result) act" where
  "resolve_tags_cached E C rows node = resolve_tag_rows E C node rows ([], [])"

end
