(* ===== verification/PbsClient.thy ===== *)
theory PbsClient
  imports PyDate PyDict PveTask Notify "HOL-Library.Product_Lexorder"
begin

text \<open>
  The backup side: the sources of the configuration (\<open>sources.py\<close>) and the client of the Proxmox
  Backup Server (\<open>pbs_client.py\<close>): authentication, the connection tests and the list of the
  backups. An HTTP answer is a dictionary with the keys \<open>status_code\<close>, \<open>text\<close> and \<open>json\<close>, the last
  missing when the body is not JSON; the TLS verification and the timeout of the HTTP client are not
  represented.
\<close>

subsection \<open>Sources\<close>

record source =
  so_id :: string
  so_server_id :: string
  so_label :: string
  so_host :: string
  so_port :: int
  so_verify_ssl :: bool
  so_token_id :: string
  so_token_secret :: string
  so_user :: string
  so_password :: string
  so_datastore :: string
  so_namespace :: string
  so_pve_storage :: string

definition norm_ns :: "pyval \<Rightarrow> string" where
  "norm_ns v = strip_chars ''/'' (strip (str_or_empty v))"

definition make_source_id :: "string \<Rightarrow> string \<Rightarrow> string \<Rightarrow> string" where
  "make_source_id server_id datastore ns = server_id @ ''/'' @ datastore @ ''/'' @ (if ns = [] then ''root'' else ns)"

text \<open>The middle dot, in UTF-8\<close>

definition mid_dot :: string where "mid_dot = [CHR 0xC2, CHR 0xB7]"

definition source_label :: "string \<Rightarrow> string \<Rightarrow> string \<Rightarrow> string" where
  "source_label server_id datastore ns =
     server_id @ '' '' @ mid_dot @ '' '' @ datastore @ (if ns = [] then [] else '' ['' @ ns @ '']'')"

definition str_strip :: "dict \<Rightarrow> string \<Rightarrow> string" where
  "str_strip d k = strip (str_or_empty (dget d k))"

definition server_name :: "dict \<Rightarrow> nat \<Rightarrow> string" where
  "server_name server index =
     (let dflt = ''pbs'' @ str_of_nat (Suc index)
      in or_default (strip (py_str (py_or (dget server ''id'') (PStr dflt)))) dflt)"

definition mount_source :: "dict \<Rightarrow> string \<Rightarrow> int \<Rightarrow> dict \<Rightarrow> source option" where
  "mount_source server server_id port mount =
     (let datastore = str_strip mount ''datastore''; pve = str_strip mount ''pve_storage'';
          ns = norm_ns (dget mount ''namespace'')
      in if datastore = [] \<or> pve = [] then None
         else Some
           \<lparr>so_id = make_source_id server_id datastore ns, so_server_id = server_id,
            so_label = source_label server_id datastore ns, so_host = str_strip server ''host'',
            so_port = port, so_verify_ssl = truthy (dget_or server ''verify_ssl'' (PBool True)),
            so_token_id = str_strip server ''api_token_id'',
            so_token_secret = str_strip server ''api_token_secret'', so_user = str_strip server ''user'',
            so_password = str_strip server ''password'', so_datastore = datastore, so_namespace = ns,
            so_pve_storage = pve\<rparr>)"

definition sources_from_server :: "dict \<Rightarrow> nat \<Rightarrow> exn + source list" where
  "sources_from_server server index =
     res_bind (py_int (py_or (dget_or server ''port'' (PInt 8007)) (PInt 8007))) (\<lambda>port.
     res_bind (iter_or_empty (dget server ''mounts'')) (\<lambda>mounts.
     Inr (List.map_filter (mount_source server (server_name server index) port) (dict_rows mounts))))"

definition legacy_server :: "cfg \<Rightarrow> dict" where
  "legacy_server C =
     (let pbs = pbs_cfg C
      in [(''id'', PStr ''pbs''), (''host'', PStr (str_strip pbs ''host'')),
          (''port'', py_or (dget_or pbs ''port'' (PInt 8007)) (PInt 8007)),
          (''verify_ssl'', PBool (truthy (dget_or pbs ''verify_ssl'' (PBool True)))),
          (''api_token_id'', dget_or pbs ''api_token_id'' (PStr [])),
          (''api_token_secret'', dget_or pbs ''api_token_secret'' (PStr [])),
          (''user'', dget_or pbs ''user'' (PStr [])), (''password'', dget_or pbs ''password'' (PStr [])),
          (''mounts'', PList [PDict [(''datastore'', PStr (str_strip pbs ''datastore'')),
             (''namespace'', PStr []), (''pve_storage'', PStr (str_strip (proxmox_cfg C) ''pbs_storage''))]])])"

definition legacy_sources :: "cfg \<Rightarrow> exn + source list" where
  "legacy_sources C =
     (if str_strip (pbs_cfg C) ''host'' = [] \<and> str_strip (pbs_cfg C) ''datastore'' = [] then Inr []
      else sources_from_server (legacy_server C) 0)"

text \<open>The servers keep their position in the list, also when an entry before them is no mapping.\<close>

definition indexed_dicts :: "pyval list \<Rightarrow> (nat \<times> dict) list" where
  "indexed_dicts vs =
     List.map_filter (\<lambda>(i, v). case v of PDict d \<Rightarrow> Some (i, d) | _ \<Rightarrow> None) (List.enumerate 0 vs)"

definition load_sources :: "cfg \<Rightarrow> exn + source list" where
  "load_sources C =
     (case pbs_servers C of
        PList servers \<Rightarrow>
          res_bind (map_res (\<lambda>(i, d). sources_from_server d i) (indexed_dicts servers)) (\<lambda>ss.
            if concat ss \<noteq> [] then Inr (concat ss) else legacy_sources C)
      | _ \<Rightarrow> legacy_sources C)"

definition source_by_id :: "cfg \<Rightarrow> string \<Rightarrow> exn + source option" where
  "source_by_id C i = res_bind (load_sources C) (\<lambda>ss. Inr (find (\<lambda>x. so_id x = i) ss))"

subsection \<open>Authentication\<close>

definition base_url :: "source \<Rightarrow> string" where
  "base_url x = ''https://'' @ so_host x @ '':'' @ str_of_int (so_port x) @ ''/api2/json''"

definition has_token :: "source \<Rightarrow> bool" where
  "has_token x \<longleftrightarrow> strip (so_token_id x) \<noteq> [] \<and> strip (so_token_secret x) \<noteq> []"

definition has_password :: "source \<Rightarrow> bool" where
  "has_password x \<longleftrightarrow> strip (so_user x) \<noteq> [] \<and> strip (so_password x) \<noteq> []"

definition token_headers :: "source \<Rightarrow> (string \<times> string) list" where
  "token_headers x =
     [(''Authorization'', ''PBSAPIToken='' @ strip (so_token_id x) @ ''='' @ strip (so_token_secret x))]"

definition resp_status :: "pyval \<Rightarrow> int" where
  "resp_status v = (case v of PDict d \<Rightarrow> py_int_or (dget d ''status_code'') 0 | _ \<Rightarrow> 0)"

definition resp_text :: "pyval \<Rightarrow> string" where
  "resp_text v = (case v of PDict d \<Rightarrow> str_or_empty (dget d ''text'') | _ \<Rightarrow> [])"

definition resp_json :: "pyval \<Rightarrow> exn + pyval" where
  "resp_json v =
     (case v of
        PDict d \<Rightarrow> if has_key d ''json'' then Inr (dget d ''json'') else Inl (ValueError ''body is not JSON'')
      | _ \<Rightarrow> Inl (ValueError ''body is not JSON''))"

text \<open>\<open>v.get(k)\<close>: only dictionaries have the method.\<close>

definition py_get :: "pyval \<Rightarrow> string \<Rightarrow> exn + pyval" where
  "py_get v k = (case v of PDict d \<Rightarrow> Inr (dget d k) | _ \<Rightarrow> Inl (AttributeError ''object has no attribute get''))"

definition http_text :: "pyval \<Rightarrow> string" where
  "http_text resp = ''HTTP '' @ str_of_int (resp_status resp) @ '' '' @ resp_text resp"

definition ticket_of :: "source \<Rightarrow> pyval \<Rightarrow> exn + (string \<times> string) list \<times> (string \<times> string) list" where
  "ticket_of x resp =
     (if resp_status resp \<noteq> 200 then
        Inl (RuntimeError (''PBS login failed for '' @ so_label x @ '': '' @ http_text resp))
      else
        res_bind (resp_json resp) (\<lambda>j.
        res_bind (py_get (py_or j (PDict [])) ''data'') (\<lambda>data0.
        let data = py_or data0 (PDict []) in
        res_bind (py_get data ''ticket'') (\<lambda>tk.
        res_bind (py_get data ''CSRFPreventionToken'') (\<lambda>cs.
        let ticket = strip (str_or_empty tk); csrf = strip (str_or_empty cs) in
        if ticket = [] then Inl (RuntimeError (''PBS login for '' @ so_label x @ '' returned no ticket''))
        else Inr (if csrf \<noteq> [] then [(''CSRFPreventionToken'', csrf)] else [], [(''PBSAuthCookie'', ticket)]))))))"

definition fetch_ticket ::
  "env \<Rightarrow> source \<Rightarrow> ('x store_scheme, (string \<times> string) list \<times> (string \<times> string) list) act" where
  "fetch_ticket E x =
     bind_act (call E (PbsPost (base_url x @ ''/access/ticket'')
        [(''username'', strip (so_user x)), (''password'', strip (so_password x))]))
       (\<lambda>resp. res_act (ticket_of x resp))"

definition no_auth_error :: "source \<Rightarrow> exn" where
  "no_auth_error x =
     ValueError (''PBS source '' @ repr_str (so_id x) @ '' needs api_token_id/api_token_secret or user/password'')"

definition authenticated_get ::
  "env \<Rightarrow> source \<Rightarrow> string \<Rightarrow> (string \<times> string) list \<Rightarrow> ('x store_scheme, pyval) act" where
  "authenticated_get E x path params =
     (let url = base_url x @ path in
      if has_token x then call E (PbsGet url (token_headers x) [] params)
      else if has_password x then
        bind_act (fetch_ticket E x) (\<lambda>(headers, cookies). call E (PbsGet url headers cookies params))
      else raise_act (no_auth_error x))"

subsection \<open>Connection tests\<close>

definition probe_pbs_source :: "env \<Rightarrow> source \<Rightarrow> ('x store_scheme, bool \<times> string) act" where
  "probe_pbs_source E x =
     catch_act
       (bind_act (authenticated_get E x ''/version'' []) (\<lambda>resp. ret_act
          (if resp_status resp = 200 then
             (True, ''PBS connection successful ('' @ (if has_token x then ''token'' else ''password'') @ '' auth).'')
           else (False, ''PBS connection failed: '' @ http_text resp))))
       (\<lambda>e. ret_act (False, ''PBS connection failed: '' @ public_error_message e []))"

definition probe_key :: "source \<Rightarrow> string" where
  "probe_key x =
     so_server_id x @ ''@'' @ so_host x @ '':'' @ str_of_int (so_port x) @ ''|'' @
     (if has_token x then ''tok:'' @ so_token_id x else ''pwd:'' @ so_user x)"

definition probe_row :: "source \<Rightarrow> bool \<times> string \<Rightarrow> dict" where
  "probe_row x res =
     [(''source_id'', PStr (so_id x)), (''label'', PStr (so_label x)), (''ok'', PBool (fst res)),
      (''detail'', PStr (snd res))]"

text \<open>One request per server and login, the results one per source\<close>

fun probe_each ::
  "env \<Rightarrow> (string \<times> bool \<times> string) list \<Rightarrow> source list \<Rightarrow> ('x store_scheme, dict list) act" where
  "probe_each E seen [] = ret_act []"
| "probe_each E seen (x # xs) =
     bind_act (case map_of seen (probe_key x) of
                 Some res \<Rightarrow> ret_act res | None \<Rightarrow> probe_pbs_source E x) (\<lambda>res.
     bind_act (probe_each E ((probe_key x, res) # seen) xs) (\<lambda>rows. ret_act (probe_row x res # rows)))"

definition row_ok :: "dict \<Rightarrow> bool" where
  "row_ok d \<longleftrightarrow> truthy (dget d ''ok'')"

definition probe_all_sources :: "env \<Rightarrow> cfg \<Rightarrow> ('x store_scheme, bool \<times> dict list) act" where
  "probe_all_sources E C =
     bind_act (res_act (load_sources C)) (\<lambda>ss.
       if ss = [] then ret_act (False, [[(''ok'', PBool False), (''detail'', PStr ''no PBS sources configured'')]])
       else bind_act (probe_each E [] ss) (\<lambda>rows. ret_act (list_all row_ok rows, rows)))"

text \<open>A missing label is a \<open>KeyError\<close>, which the row of the empty configuration has.\<close>

definition probe_pbs_connection :: "env \<Rightarrow> cfg \<Rightarrow> ('x store_scheme, bool \<times> string) act" where
  "probe_pbs_connection E C =
     bind_act (probe_all_sources E C) (\<lambda>(overall, rows).
       if overall then ret_act (True, str_of_nat (length rows) @ '' PBS source(s) reachable.'')
       else bind_act (res_act (map_res (\<lambda>row.
               res_bind (need_key row ''label'') (\<lambda>l.
               res_bind (need_key row ''detail'') (\<lambda>d. Inr (py_str l @ '': '' @ py_str d))))
              (filter (\<lambda>row. \<not> row_ok row) rows))) (\<lambda>failed.
            ret_act (False, or_default (join_on ''; '' failed) ''no PBS sources reachable'')))"

subsection \<open>Listing the backups\<close>

definition epoch_to_iso_z :: "pyval \<Rightarrow> exn + string" where
  "epoch_to_iso_z v =
     (case py_int v of
        Inl e \<Rightarrow> Inr (str_or_empty v)
      | Inr n \<Rightarrow> res_bind (utc_datetime n) (\<lambda>t. Inr (t @ ''Z'')))"

text \<open>A field under its name with a dash or with an underscore\<close>

definition dashed :: "dict \<Rightarrow> string \<Rightarrow> string \<Rightarrow> string" where
  "dashed row a b = py_str (py_or (py_or (dget row a) (dget row b)) (PStr []))"

definition raw_time :: "dict \<Rightarrow> pyval" where
  "raw_time row = (if dget row ''backup-time'' = PNone then dget row ''backup_time'' else dget row ''backup-time'')"

definition snapshot_size :: "dict \<Rightarrow> int" where
  "snapshot_size row = max 0 (py_int_or (dget row ''size'') 0)"

definition backup_row :: "source \<Rightarrow> dict \<Rightarrow> int \<Rightarrow> string \<Rightarrow> dict" where
  "backup_row x row vmid iso_time =
     (let voltail = ''vm/'' @ str_of_int vmid @ ''/'' @ iso_time
      in [(''backup_id'', PStr (so_id x @ ''|'' @ voltail)), (''voltail'', PStr voltail), (''vmid'', PInt vmid),
          (''name'', PStr (py_str (py_or (py_or (dget row ''comment'') (dget row ''hostname''))
              (PStr (''vm-'' @ str_of_int vmid))))),
          (''timestamp'', PStr iso_time), (''datastore'', PStr (so_datastore x)),
          (''namespace'', PStr (so_namespace x)), (''source_id'', PStr (so_id x)),
          (''source_label'', PStr (so_label x)), (''pve_storage'', PStr (so_pve_storage x)),
          (''size_bytes'', PInt (snapshot_size row))])"

text \<open>\<open>None\<close> for a row that is skipped\<close>

definition snapshot_row :: "source \<Rightarrow> dict \<Rightarrow> exn + dict option" where
  "snapshot_row x row =
     (let raw_id = strip (dashed row ''backup-id'' ''backup_id'') in
      if lower (dashed row ''backup-type'' ''backup_type'') \<noteq> ''vm'' \<or> raw_id = [] then Inr None
      else case py_int (py_or (dget row ''vmid'') (PStr raw_id)) of
             Inl e \<Rightarrow> Inr None
           | Inr vmid \<Rightarrow>
               res_bind (epoch_to_iso_z (raw_time row)) (\<lambda>iso_time.
                 Inr (if iso_time = [] then None else Some (backup_row x row vmid iso_time))))"

definition snapshot_rows :: "source \<Rightarrow> pyval \<Rightarrow> exn + dict list" where
  "snapshot_rows x payload =
     res_bind (iter_or_empty payload) (\<lambda>vs.
     res_bind (map_res (snapshot_row x) (dict_rows vs)) (\<lambda>rs. Inr (List.map_filter (\<lambda>r. r) rs)))"

definition list_source_backups :: "env \<Rightarrow> source \<Rightarrow> ('x store_scheme, dict list) act" where
  "list_source_backups E x =
     (if so_datastore x = [] then
        raise_act (ValueError (''PBS source '' @ repr_str (so_id x) @ '' has no datastore''))
      else
        bind_act (authenticated_get E x (''/admin/datastore/'' @ so_datastore x @ ''/snapshots'')
           (if so_namespace x \<noteq> [] then [(''ns'', so_namespace x)] else [])) (\<lambda>resp.
          if resp_status resp \<noteq> 200 then
            raise_act (RuntimeError (''PBS list snapshots failed for '' @ so_label x @ '': '' @ http_text resp))
          else res_act
            (res_bind (resp_json resp) (\<lambda>j. res_bind (py_get j ''data'') (\<lambda>data. snapshot_rows x data)))))"

text \<open>One failing source does not hide the others; the texts of the errors are collected.\<close>

fun list_each :: "env \<Rightarrow> source list \<Rightarrow> ('x store_scheme, dict list \<times> string list) act" where
  "list_each E [] = ret_act ([], [])"
| "list_each E (x # xs) =
     bind_act (catch_act (bind_act (list_source_backups E x) (\<lambda>rows. ret_act (rows, [])))
                (\<lambda>e. ret_act ([], [exn_str e]))) (\<lambda>(rows, errs).
     bind_act (list_each E xs) (\<lambda>(rows', errs'). ret_act (rows @ rows', errs @ errs')))"

text \<open>
  The two stable sorts of the listing: by label, name and time, then by time with the latest first.
  A stable sort with \<open>reverse=True\<close> reverses, sorts and reverses.
\<close>

definition row_text :: "string \<Rightarrow> dict \<Rightarrow> string" where
  "row_text k row = py_str (dget row k)"

definition sort_backups :: "dict list \<Rightarrow> dict list" where
  "sort_backups rows =
     rev (sort_key (row_text ''timestamp'') (rev
       (sort_key (\<lambda>r. (lower (row_text ''source_label'' r), lower (row_text ''name'' r), row_text ''timestamp'' r)) rows)))"

definition list_vm_backups :: "env \<Rightarrow> cfg \<Rightarrow> ('x store_scheme, dict list) act" where
  "list_vm_backups E C =
     bind_act (res_act (load_sources C)) (\<lambda>ss.
       if ss = [] then raise_act (ValueError ''No PBS sources configured (set pbs_servers in config)'')
       else bind_act (list_each E ss) (\<lambda>(rows, errs).
         if rows = [] \<and> errs \<noteq> [] then raise_act (RuntimeError (join_on ''; '' errs))
         else ret_act (sort_backups rows)))"

end
