(* ===== verification/Wire.thy ===== *)
theory Wire
  imports PbsClient World "HOL-Library.Word"
begin

text \<open>
  How much data a restore transfers (\<open>pbs_wire.py\<close>): the reference of a backup, the fixed index
  files and their digests, the usage estimate with its cache, and the sampled compression ratio.
  The reader session of the backup server (an HTTP/2 connection) is a parameter: \<open>open_reader\<close>
  opens it for a snapshot, and a reader answers a path with a status and a body. The digest of a
  chunk of zeroes (SHA-256) and the random choice of a sample are parameters as well. Ratios are
  exact rationals.
\<close>

type_synonym bytes = "8 word list"

type_synonym reader = "string \<Rightarrow> exn + int \<times> bytes"

type_synonym auth = "(string \<times> string) list \<times> (string \<times> string) list"

type_synonym open_reader = "source \<Rightarrow> string \<Rightarrow> int \<Rightarrow> auth \<Rightarrow> exn + reader"

subsection \<open>The reference of a backup\<close>

definition iso_error :: "string \<Rightarrow> exn" where
  "iso_error s = ValueError (''Invalid isoformat string: '' @ repr_str s)"

definition iso_epoch :: "string \<Rightarrow> exn + int" where
  "iso_epoch s0 =
     (let s = (if endswith ''Z'' s0 then butlast s0 @ ''+00:00'' else s0)
      in case iso_timestamp s of None \<Rightarrow> Inl (iso_error s) | Some t \<Rightarrow> Inr (trunc_rat t))"

definition parse_job_backup_ref :: "string \<Rightarrow> exn + string \<times> string \<times> int" where
  "parse_job_backup_ref backup_id =
     (let raw = strip backup_id; (sid, found, voltail) = partition_at CHR ''|'' raw;
          parts = filter (\<lambda>p. p \<noteq> []) (split_on CHR ''/'' (strip_chars ''/'' (strip voltail)))
      in if \<not> found then
           Inl (ValueError (''backup_id missing source|voltail separator: '' @ repr_str backup_id))
         else if length parts < 3 \<or> lower (parts ! 0) \<noteq> ''vm'' then
           Inl (ValueError (''unexpected voltail in backup_id: '' @ repr_str voltail))
         else res_bind (iso_epoch (parts ! 2)) (\<lambda>epoch. Inr (strip sid, parts ! 1, epoch)))"

subsection \<open>Fixed index files\<close>

definition fidx_header :: nat where "fidx_header = 4096"

definition default_chunk_size :: int where "default_chunk_size = 4 * 1024 * 1024"

text \<open>\<open>struct.unpack_from("<Q", data, off)\<close>\<close>

fun le_value :: "bytes \<Rightarrow> int" where
  "le_value [] = 0"
| "le_value (b # bs) = uint b + 256 * le_value bs"

definition u64_at :: "nat \<Rightarrow> bytes \<Rightarrow> int" where
  "u64_at off data = le_value (take 8 (drop off data))"

definition known_chunk_sizes :: "int list" where
  "known_chunk_sizes = [64 * 1024, 256 * 1024, 1024 * 1024, 2 * 1024 * 1024, 4 * 1024 * 1024]"

definition fidx_digests :: "bytes \<Rightarrow> bytes list" where
  "fidx_digests data =
     map (\<lambda>i. take 32 (drop (fidx_header + i * 32) data)) [0 ..< (length data - fidx_header) div 32]"

definition fidx_chunk_size :: "bytes \<Rightarrow> int" where
  "fidx_chunk_size data =
     (let n = int ((length data - fidx_header) div 32); cand = u64_at 72 data; size64 = u64_at 64 data
      in if cand \<in> set known_chunk_sizes then cand
         else if 0 < n \<and> size64 mod n = 0 \<and> 0 < size64 div n then size64 div n
         else default_chunk_size)"

definition parse_fidx :: "bytes \<Rightarrow> exn + int \<times> bytes list" where
  "parse_fidx data =
     (if length data < fidx_header + 32 then
        Inl (ValueError (''fidx too small ('' @ str_of_nat (length data) @ '' bytes)''))
      else Inr (fidx_chunk_size data, fidx_digests data))"

subsection \<open>Usage\<close>

record fidx_usage =
  fu_chunk_size :: int
  fu_files :: nat
  fu_total :: nat
  fu_nonzero :: nat
  fu_unique :: nat

definition sparsity_of :: "nat \<Rightarrow> nat \<Rightarrow> rat" where
  "sparsity_of n m =
     (if n = 0 then (if 0 < m then 1 else 0)
      else max 0 (min 1 (of_nat m / of_nat n)))"

definition virtual_bytes :: "fidx_usage \<Rightarrow> int" where
  "virtual_bytes u = int (fu_total u) * fu_chunk_size u"

definition nonzero_bytes :: "fidx_usage \<Rightarrow> int" where
  "nonzero_bytes u = int (fu_nonzero u) * fu_chunk_size u"

definition zero_bytes :: "fidx_usage \<Rightarrow> int" where
  "zero_bytes u = max 0 (virtual_bytes u - nonzero_bytes u)"

definition usage_from_digests :: "(int \<Rightarrow> bytes) \<Rightarrow> int \<Rightarrow> bytes list \<Rightarrow> nat \<Rightarrow> fidx_usage" where
  "usage_from_digests zero_digest chunk_size digests files =
     (let nonzero = filter (\<lambda>d. d \<noteq> zero_digest chunk_size) digests
      in \<lparr>fu_chunk_size = chunk_size, fu_files = files, fu_total = length digests,
          fu_nonzero = length nonzero, fu_unique = card (set nonzero)\<rparr>)"

text \<open>The JSON form; the ratio, a float, is kept as its two terms.\<close>

definition usage_dict :: "fidx_usage \<Rightarrow> dict" where
  "usage_dict u =
     [(''chunk_size'', PInt (fu_chunk_size u)), (''fidx_files'', PInt (int (fu_files u))),
      (''total_positions'', PInt (int (fu_total u))), (''nonzero_positions'', PInt (int (fu_nonzero u))),
      (''unique_nonzero'', PInt (int (fu_unique u))),
      (''sparsity_ratio'', PList [PInt (int (fu_nonzero u)), PInt (int (fu_total u))]),
      (''virtual_bytes'', PInt (virtual_bytes u)), (''nonzero_bytes'', PInt (nonzero_bytes u)),
      (''zero_bytes'', PInt (zero_bytes u))]"

subsection \<open>Reading the index files\<close>

definition auth_headers_cookies :: "env \<Rightarrow> source \<Rightarrow> ('x store_scheme, auth) act" where
  "auth_headers_cookies E x =
     (if has_token x then ret_act (token_headers x, [])
      else if has_password x then fetch_ticket E x
      else raise_act (ValueError (''PBS source '' @ repr_str (so_id x) @ '' has no auth configured'')))"

definition snapshot_ns :: "source \<Rightarrow> (string \<times> string) list" where
  "snapshot_ns x =
     (let ns = strip_chars ''/'' (strip (so_namespace x))
      in if ns \<noteq> [] \<and> lower ns \<noteq> ''root'' then [(''ns'', ns)] else [])"

definition snapshot_params :: "string \<Rightarrow> int \<Rightarrow> (string \<times> string) list" where
  "snapshot_params backup_id epoch =
     [(''backup-type'', ''vm''), (''backup-id'', backup_id), (''backup-time'', str_of_int epoch)]"

definition fidx_name :: "dict \<Rightarrow> string option" where
  "fidx_name row =
     (let name = strip (dashed row ''filename'' ''file'')
      in if endswith ''.img.fidx'' name \<or> endswith ''.fidx'' name then Some name else None)"

definition list_fidx_names :: "env \<Rightarrow> source \<Rightarrow> string \<Rightarrow> int \<Rightarrow> auth \<Rightarrow> ('x store_scheme, string list) act" where
  "list_fidx_names E x backup_id epoch au =
     bind_act (call E (PbsGet (base_url x @ ''/admin/datastore/'' @ so_datastore x @ ''/files'')
        (fst au) (snd au) (snapshot_params backup_id epoch @ snapshot_ns x))) (\<lambda>resp.
       if resp_status resp \<noteq> 200 then
         raise_act (RuntimeError (''PBS files list failed: HTTP '' @ str_of_int (resp_status resp) @ '' '' @
           take 200 (resp_text resp)))
       else res_act
         (res_bind (resp_json resp) (\<lambda>j.
          res_bind (py_get (py_or j (PDict [])) ''data'') (\<lambda>data.
          res_bind (iter_or_empty data) (\<lambda>vs. Inr (List.map_filter fidx_name (dict_rows vs)))))))"

text \<open>\<open>urllib.parse.quote\<close>\<close>

definition quote_char :: "char \<Rightarrow> string" where
  "quote_char c =
     (if is_digit c \<or> is_upper c \<or> is_lower c \<or> c \<in> set ''_.-~/'' then [c]
      else CHR ''%'' # [''0123456789ABCDEF'' ! (of_char c div 16), ''0123456789ABCDEF'' ! (of_char c mod 16)])"

definition url_quote :: "string \<Rightarrow> string" where
  "url_quote s = concat (map quote_char s)"

definition download_index :: "reader \<Rightarrow> string \<Rightarrow> exn + int \<times> bytes list" where
  "download_index rd name =
     res_bind (rd (''/download?file-name='' @ url_quote name)) (\<lambda>(status, body).
       if status \<noteq> 200 \<or> length body < fidx_header + 32 then
         Inl (RuntimeError (''Failed to download '' @ name @ '' via reader: HTTP '' @ str_of_int status))
       else parse_fidx body)"

text \<open>The loop over the files: the digests accumulate, the chunk size is that of the last file.\<close>

fun index_loop :: "reader \<Rightarrow> int \<Rightarrow> bytes list \<Rightarrow> string list \<Rightarrow> exn + int \<times> bytes list" where
  "index_loop rd sz digests [] = Inr (sz, digests)"
| "index_loop rd sz digests (name # names) =
     res_bind (download_index rd name) (\<lambda>(sz', ds). index_loop rd sz' (digests @ ds) names)"

definition open_snapshot ::
  "env \<Rightarrow> open_reader \<Rightarrow> source \<Rightarrow> string \<Rightarrow> int \<Rightarrow> ('x store_scheme, reader \<times> string list) act" where
  "open_snapshot E open_reader x backup_id epoch =
     bind_act (auth_headers_cookies E x) (\<lambda>au.
     bind_act (list_fidx_names E x backup_id epoch au) (\<lambda>names.
       if names = [] then raise_act (RuntimeError ''No .fidx files found for snapshot'')
       else bind_act (res_act (open_reader x backup_id epoch au)) (\<lambda>rd. ret_act (rd, names))))"

definition load_all_fidx_digests ::
  "env \<Rightarrow> open_reader \<Rightarrow> source \<Rightarrow> string \<Rightarrow> int \<Rightarrow> ('x store_scheme, int \<times> bytes list \<times> nat) act" where
  "load_all_fidx_digests E open_reader x backup_id epoch =
     bind_act (open_snapshot E open_reader x backup_id epoch) (\<lambda>(rd, names).
     bind_act (res_act (index_loop rd default_chunk_size [] names)) (\<lambda>(size, digests).
     ret_act (size, digests, length names)))"

definition estimate_fidx_usage ::
  "env \<Rightarrow> open_reader \<Rightarrow> (int \<Rightarrow> bytes) \<Rightarrow> source \<Rightarrow> string \<Rightarrow> int \<Rightarrow> ('x store_scheme, fidx_usage) act" where
  "estimate_fidx_usage E open_reader zero_digest x backup_id epoch =
     bind_act (load_all_fidx_digests E open_reader x backup_id epoch) (\<lambda>(size, digests, files).
     ret_act (usage_from_digests zero_digest size digests files))"

subsection \<open>The cache\<close>

definition fidx_usage_cache_key :: "string \<Rightarrow> string \<Rightarrow> int \<Rightarrow> string" where
  "fidx_usage_cache_key source_id pbs_id epoch =
     ''restore:fidxusage:'' @ source_id @ ''|'' @ pbs_id @ ''|'' @ str_of_int epoch"

text \<open>The source of a reference, else the first one whose id the backup id starts with\<close>

definition source_for :: "cfg \<Rightarrow> string \<Rightarrow> string \<Rightarrow> exn + source option" where
  "source_for C source_id backup_id =
     res_bind (source_by_id C source_id) (\<lambda>found.
       case found of
         Some x \<Rightarrow> Inr (Some x)
       | None \<Rightarrow> res_bind (load_sources C) (\<lambda>ss. Inr (find (\<lambda>x. startswith (so_id x @ ''|'') backup_id) ss)))"

definition estimate_fresh ::
  "env \<Rightarrow> cfg \<Rightarrow> open_reader \<Rightarrow> (int \<Rightarrow> bytes) \<Rightarrow> string \<Rightarrow> string \<Rightarrow> string \<Rightarrow> int \<Rightarrow> string \<Rightarrow> (world, dict) act" where
  "estimate_fresh E C open_reader zero_digest backup_id source_id pbs_id epoch key =
     bind_act (res_act (source_for C source_id backup_id)) (\<lambda>found.
       case found of
         None \<Rightarrow> raise_act (RuntimeError (''No PBS source for backup_id='' @ backup_id))
       | Some x \<Rightarrow>
           bind_act (estimate_fidx_usage E open_reader zero_digest x pbs_id epoch) (\<lambda>u.
           let payload = dput (dput (usage_dict u) ''backup_id'' (PStr backup_id)) ''cached'' (PBool False) in
           bind_act (upd_act (set_doc key payload)) (\<lambda>_. ret_act payload)))"

definition estimate_fidx_usage_cached ::
  "env \<Rightarrow> cfg \<Rightarrow> open_reader \<Rightarrow> (int \<Rightarrow> bytes) \<Rightarrow> string \<Rightarrow> (world, dict) act" where
  "estimate_fidx_usage_cached E C open_reader zero_digest backup_id =
     bind_act (res_act (parse_job_backup_ref backup_id)) (\<lambda>(source_id, pbs_id, epoch).
     let key = fidx_usage_cache_key source_id pbs_id epoch in
     bind_act (get_act (get_doc key)) (\<lambda>cached.
       case cached of
         Some d \<Rightarrow>
           if has_key d ''nonzero_bytes''
           then ret_act (dput (dput d ''cached'' (PBool True)) ''backup_id'' (PStr backup_id))
           else estimate_fresh E C open_reader zero_digest backup_id source_id pbs_id epoch key
       | None \<Rightarrow> estimate_fresh E C open_reader zero_digest backup_id source_id pbs_id epoch key))"

subsection \<open>Compression\<close>

record wire_estimate =
  we_ratio :: rat
  we_samples :: nat
  we_chunk_size :: int
  we_nonzero :: nat
  we_unique :: nat
  we_files :: nat
  we_total :: nat

text \<open>\<open>digest.hex()\<close>\<close>

definition hex_of :: "bytes \<Rightarrow> string" where
  "hex_of bs = concat (map (\<lambda>b. [hex_char (unat b div 16), hex_char (unat b mod 16)]) bs)"

text \<open>The compression of the chunks that could be downloaded; the others are skipped.\<close>

fun sample_ratios :: "reader \<Rightarrow> int \<Rightarrow> bytes list \<Rightarrow> exn + rat list" where
  "sample_ratios rd sz [] = Inr []"
| "sample_ratios rd sz (d # ds) =
     res_bind (rd (''/chunk?digest='' @ hex_of d)) (\<lambda>(status, body).
     res_bind (sample_ratios rd sz ds) (\<lambda>rs.
     Inr (if status \<noteq> 200 \<or> body = [] then rs else of_nat (length body) / of_int sz # rs)))"

definition clamp01 :: "rat \<Rightarrow> rat" where
  "clamp01 x = max 0 (min 1 x)"

definition wire_of_samples :: "int \<Rightarrow> bytes list \<Rightarrow> bytes list \<Rightarrow> nat \<Rightarrow> nat \<Rightarrow> rat list \<Rightarrow> exn + wire_estimate" where
  "wire_of_samples sz nonzero unique files n ratios =
     (if ratios = [] then Inl (RuntimeError ''No successful chunk samples for compression estimate'')
      else Inr \<lparr>we_ratio = clamp01 (sum_list ratios / of_nat (length ratios) *
                   (of_nat (length unique) / of_nat (max 1 (length nonzero)))),
                we_samples = length ratios, we_chunk_size = sz, we_nonzero = length nonzero,
                we_unique = length unique, we_files = files, we_total = n\<rparr>)"

definition sampled_estimate ::
  "reader \<Rightarrow> (int \<Rightarrow> bytes) \<Rightarrow> (nat \<Rightarrow> bytes list \<Rightarrow> bytes list) \<Rightarrow> nat \<Rightarrow> nat \<Rightarrow> int \<times> bytes list
     \<Rightarrow> exn + wire_estimate" where
  "sampled_estimate rd zero_digest pick_sample sample_size files = (\<lambda>(size, digests).
     let nonzero = filter (\<lambda>d. d \<noteq> zero_digest size) digests; unique = remdups nonzero in
     if unique = [] then
       Inr \<lparr>we_ratio = 0, we_samples = 0, we_chunk_size = size, we_nonzero = 0, we_unique = 0,
            we_files = files, we_total = length digests\<rparr>
     else
       res_bind (sample_ratios rd size
           (if length unique \<le> sample_size then unique else pick_sample sample_size unique)) (\<lambda>ratios.
       wire_of_samples size nonzero unique files (length digests) ratios))"

definition estimate_wire_compression ::
  "env \<Rightarrow> open_reader \<Rightarrow> (int \<Rightarrow> bytes) \<Rightarrow> (nat \<Rightarrow> bytes list \<Rightarrow> bytes list) \<Rightarrow> source \<Rightarrow> string \<Rightarrow> int \<Rightarrow> nat
     \<Rightarrow> ('x store_scheme, wire_estimate) act" where
  "estimate_wire_compression E open_reader zero_digest pick_sample x backup_id epoch sample_size =
     bind_act (open_snapshot E open_reader x backup_id epoch) (\<lambda>(rd, names).
     res_act (res_bind (index_loop rd default_chunk_size [] names)
       (sampled_estimate rd zero_digest pick_sample sample_size (length names))))"

text \<open>Every failure is \<open>None\<close>.\<close>

definition estimate_wire_compression_for_job ::
  "env \<Rightarrow> cfg \<Rightarrow> open_reader \<Rightarrow> (int \<Rightarrow> bytes) \<Rightarrow> (nat \<Rightarrow> bytes list \<Rightarrow> bytes list) \<Rightarrow> string
     \<Rightarrow> ('x store_scheme, wire_estimate option) act" where
  "estimate_wire_compression_for_job E C open_reader zero_digest pick_sample backup_id =
     catch_act
       (bind_act (res_act (parse_job_backup_ref backup_id)) (\<lambda>(source_id, pbs_id, epoch).
        bind_act (res_act (source_for C source_id backup_id)) (\<lambda>found.
          case found of
            None \<Rightarrow> ret_act None
          | Some x \<Rightarrow>
              bind_act (estimate_wire_compression E open_reader zero_digest pick_sample x pbs_id epoch 24)
                (\<lambda>w. ret_act (Some w)))))
       (\<lambda>e. ret_act None)"

subsection \<open>Lemmas\<close>

lemma fidx_chunk_size_pos: "0 < fidx_chunk_size data"
  by (auto simp: fidx_chunk_size_def Let_def known_chunk_sizes_def default_chunk_size_def)

lemma index_loop_size: "index_loop rd sz ds names = Inr (sz', ds') \<Longrightarrow> 0 < sz \<Longrightarrow> 0 < sz'"
proof (induction names arbitrary: sz ds)
  case (Cons n ns)
  then show ?case
    by (fastforce simp: download_index_def parse_fidx_def fidx_chunk_size_pos split: if_splits)
qed simp

lemma clamp01_bounds: "0 \<le> clamp01 x" "clamp01 x \<le> 1"
  by (simp_all add: clamp01_def)

lemma sample_ratios_length: "sample_ratios rd sz ds = Inr rs \<Longrightarrow> length rs \<le> length ds"
  by (induction ds arbitrary: rs) (auto split: if_splits)

end
