(* ===== verification/Readiness.thy ===== *)
theory Readiness
  imports Schedule Wire
begin

text \<open>
  The readiness check of a plan (\<open>run_plan_readiness\<close> in \<open>plans.py\<close>): its items, phase by phase, the
  sizes of the members, the verdict, and what is stored of it (\<open>apply_check_result\<close>); then the
  worker's tick. The check counts its errors in a variable that \<open>fail\<close> increments together with
  each error item; here the count is that of the error items. The functions the callers pass are
  the fields of \<open>checkers\<close>; the others have the defaults of the code.
\<close>

record checkers =
  ck_search :: "string \<Rightarrow> string \<Rightarrow> bool option"
  ck_tags :: "dict list \<Rightarrow> string \<Rightarrow> (world, tag_result) act"
  ck_size :: "string \<Rightarrow> (world, dict) act"

subsection \<open>Items\<close>

definition check_item :: "string \<Rightarrow> string \<Rightarrow> string \<Rightarrow> string \<Rightarrow> dict" where
  "check_item level code message detail =
     [(''level'', PStr level), (''code'', PStr code), (''message'', PStr message)] @
     (if detail \<noteq> [] then [(''detail'', PStr detail)] else [])"

definition fail_item :: "string \<Rightarrow> string \<Rightarrow> string \<Rightarrow> dict" where
  "fail_item = check_item ''error''"

definition ok_item :: "string \<Rightarrow> string \<Rightarrow> string \<Rightarrow> dict" where
  "ok_item = check_item ''ok''"

definition warn_item :: "string \<Rightarrow> string \<Rightarrow> string \<Rightarrow> dict" where
  "warn_item = check_item ''warn''"

definition is_error :: "dict \<Rightarrow> bool" where
  "is_error item \<longleftrightarrow> dget item ''level'' = PStr ''error''"

definition error_count :: "dict list \<Rightarrow> nat" where
  "error_count items = length (filter is_error items)"

lemma item_levels [simp]:
  "is_error (fail_item c m d)" "\<not> is_error (ok_item c m d)" "\<not> is_error (warn_item c m d)"
  by (simp_all add: is_error_def fail_item_def ok_item_def warn_item_def check_item_def dget_def dget_or_def)

subsection \<open>The plan, its location and its groups\<close>

definition plan_location :: "cfg \<Rightarrow> string \<Rightarrow> world \<Rightarrow> dict" where
  "plan_location C location_id w =
     (if location_id = [] then [] else case get_location C location_id w of None \<Rightarrow> [] | Some d \<Rightarrow> d)"

definition group_doc :: "cfg \<Rightarrow> string \<Rightarrow> world \<Rightarrow> dict option" where
  "group_doc C gid w = (case get_group C gid w of None \<Rightarrow> None | Some d \<Rightarrow> if d = [] then None else Some d)"

definition setup_items :: "cfg \<Rightarrow> string list \<Rightarrow> string \<Rightarrow> world \<Rightarrow> dict list" where
  "setup_items C group_ids location_id w =
     (if group_ids = [] then [fail_item ''plan.groups'' ''Plan has no inventory groups'' []] else []) @
     (if plan_location C location_id w = [] then
        [fail_item ''plan.location'' (''Location not found: '' @ or_default location_id ''(empty)'') []] else []) @
     List.map_filter (\<lambda>gid. if group_doc C gid w = None
        then Some (fail_item ''plan.group_missing'' (''Missing group in plan: '' @ gid) []) else None) group_ids"

definition plan_groups :: "cfg \<Rightarrow> string list \<Rightarrow> world \<Rightarrow> dict list" where
  "plan_groups C group_ids w = List.map_filter (\<lambda>gid. group_doc C gid w) group_ids"

subsection \<open>Connections\<close>

definition probe_detail :: "dict \<Rightarrow> string" where
  "probe_detail row =
     py_str (py_or (py_or (dget row ''label'') (dget row ''source_id'')) (PStr ''?'')) @ '': '' @ py_str (dget row ''detail'')"

definition pbs_items :: "env \<Rightarrow> cfg \<Rightarrow> (world, dict list) act" where
  "pbs_items E C =
     bind_act (catch_act (probe_all_sources E C) (\<lambda>e. ret_act
        (False, [[(''ok'', PBool False), (''detail'', PStr (public_error_message e []))]]))) (\<lambda>(ok, rows). ret_act
       (if \<not> ok then
          [fail_item ''pbs.connectivity'' ''One or more PBS sources unreachable''
             (join_on ''; '' (map probe_detail (filter (\<lambda>row. \<not> row_ok row) rows)))]
        else [ok_item ''pbs.connectivity'' (str_of_nat (length rows) @ '' PBS source(s) reachable'') []]))"

definition test_proxmox_connection :: "env \<Rightarrow> cfg \<Rightarrow> (world, bool \<times> string) act" where
  "test_proxmox_connection E C =
     catch_act
       (bind_act (connect_proxmox E C) (\<lambda>_.
        bind_act (call E VersionGet) (\<lambda>_. ret_act (True, ''Proxmox API reachable.''))))
       (\<lambda>e. ret_act (False, public_error_message e ''Proxmox connection failed''))"

text \<open>The items, and whether there is a session\<close>

definition pve_items :: "env \<Rightarrow> cfg \<Rightarrow> (world, dict list \<times> bool) act" where
  "pve_items E C =
     bind_act (test_proxmox_connection E C) (\<lambda>(ok, msg).
       if \<not> ok then ret_act ([fail_item ''pve.connectivity'' ''Proxmox VE unreachable'' msg], False)
       else
         let reached = ok_item ''pve.connectivity'' (or_default msg ''Proxmox VE reachable'') [] in
         catch_act (bind_act (connect_proxmox E C) (\<lambda>_. ret_act ([reached], True)))
           (\<lambda>e. ret_act ([reached, fail_item ''pve.connect'' ''Failed to open Proxmox API session''
                    (public_error_message e [])], False)))"

subsection \<open>Nodes and storages\<close>

definition known_nodes :: "env \<Rightarrow> (world, dict list \<times> string set) act" where
  "known_nodes E =
     catch_act (bind_act (list_cluster_nodes E) (\<lambda>rows. ret_act ([], node_name ` set rows - {[]})))
       (\<lambda>e. ret_act ([fail_item ''pve.nodes'' ''Failed to list cluster nodes'' (public_error_message e [])], {}))"

definition check_nodes :: "dict \<Rightarrow> string list" where
  "check_nodes location =
     (if or_list location ''nodes'' = [] \<and> truthy (dget location ''node'')
      then [py_str (dget location ''node'')] else or_list location ''nodes'')"

definition storage_item :: "dict \<Rightarrow> string \<Rightarrow> storage_row list \<Rightarrow> dict" where
  "storage_item location node storages =
     (case resolve_storage_for_node node (str_pairs (dget location ''storage_by_node'')) (str_or_empty (dget location ''storage'')) of
        Inl e \<Rightarrow> fail_item ''pve.storage_map'' (''No storage mapped for node '' @ node) (public_error_message e [])
      | Inr sid \<Rightarrow>
          (case find (\<lambda>m. sr_id m = sid) (rev storages) of
             None \<Rightarrow> fail_item ''pve.storage_missing'' (''Storage '' @ repr_str sid @ '' not found on node '' @ node) []
           | Some m \<Rightarrow>
               if \<not> sr_usable_for_vm_disks m then
                 fail_item ''pve.storage_unusable'' (''Storage '' @ repr_str sid @ '' on '' @ node @ '' cannot hold VM disks'') []
               else if \<not> sr_enabled m then
                 fail_item ''pve.storage_disabled'' (''Storage '' @ repr_str sid @ '' on '' @ node @ '' is disabled'') []
               else ok_item ''pve.storage'' (node @ '': '' @ sid @ '' usable for VM disks'') []))"

definition node_item :: "env \<Rightarrow> dict \<Rightarrow> string set \<Rightarrow> string \<Rightarrow> (world, dict) act" where
  "node_item E location known node =
     (if known \<noteq> {} \<and> node \<notin> known then
        ret_act (fail_item ''pve.node_missing'' (''Location node not in cluster: '' @ node) [])
      else catch_act (bind_act (list_node_storages E node) (\<lambda>sts. ret_act (storage_item location node sts)))
        (\<lambda>e. ret_act (fail_item ''pve.storage_list'' (''Failed listing storages on '' @ node)
                 (public_error_message e []))))"

subsection \<open>Members\<close>

definition listed_backups :: "env \<Rightarrow> cfg \<Rightarrow> (world, dict list \<times> dict list) act" where
  "listed_backups E C =
     catch_act (bind_act (list_vm_backups E C) (\<lambda>rows. ret_act ([], rows)))
       (\<lambda>e. ret_act ([fail_item ''pbs.backups'' ''Failed to list PBS backups'' (public_error_message e [])], []))"

text \<open>
  The latest backup of every guest up to the cutoff, the candidates for the tags. The worker skips
  a row whose guest id cannot be read (\<open>lenient\<close>).
\<close>

fun tag_candidates :: "bool \<Rightarrow> string \<Rightarrow> (int \<times> dict) list \<Rightarrow> dict list \<Rightarrow> exn + (int \<times> dict) list" where
  "tag_candidates lenient cutoff best [] = Inr best"
| "tag_candidates lenient cutoff best (row # rows) =
     res_bind (str_le (dget_or row ''timestamp'' (PStr [])) cutoff) (\<lambda>old.
       if \<not> old then tag_candidates lenient cutoff best rows
       else case row_vmid_of row of
              Inl e \<Rightarrow> if lenient then tag_candidates lenient cutoff best rows else Inl e
            | Inr v \<Rightarrow>
                res_bind (case map_of best v of None \<Rightarrow> Inr True | Some cur \<Rightarrow> row_newer row cur) (\<lambda>newer.
                tag_candidates lenient cutoff (if newer then AList.update v row best else best) rows))"

definition need_tags :: "dict list \<Rightarrow> bool" where
  "need_tags groups \<longleftrightarrow> (\<exists>g \<in> set groups. truthy (dget g ''tags''))"

definition tag_items :: "checkers \<Rightarrow> dict list \<Rightarrow> dict list \<Rightarrow> string \<Rightarrow> string \<Rightarrow> (world, dict list \<times> tag_map) act" where
  "tag_items K groups backups cutoff node0 =
     (if \<not> need_tags groups \<or> backups = [] then ret_act ([], [])
      else bind_act (res_act (tag_candidates False cutoff [] backups)) (\<lambda>best.
        if node0 = [] then
          ret_act ([warn_item ''tags.resolve'' ''Tag resolution skipped (no location node)'' []], [])
        else catch_act
          (bind_act (ck_tags K (map snd best) node0) (\<lambda>(tags, errs). ret_act
            (if errs \<noteq> [] then
               [warn_item ''tags.resolve'' (''Tag resolve failed for '' @ str_of_nat (length errs) @ '' backup(s)'')
                  (join_on ''; '' (map (\<lambda>(k, v). k @ '': '' @ v) (take 5 errs)))]
             else [], tags)))
          (\<lambda>e. ret_act ([fail_item ''tags.resolve'' ''Failed to resolve guest tags for plan groups''
                   (public_error_message e [])], []))))"

definition group_label :: "dict \<Rightarrow> string" where
  "group_label g = py_str (py_or (dget g ''name'') (dget g ''id''))"

definition group_item :: "dict \<Rightarrow> dict list \<Rightarrow> dict" where
  "group_item g rows =
     (if rows = [] then fail_item ''group.empty'' (''Group '' @ group_label g @ '' resolved to zero backups'') []
      else ok_item ''group.members'' (''Group '' @ group_label g @ '': '' @ str_of_nat (length rows) @ '' VM(s)'') [])"

definition resolve_groups ::
  "checkers \<Rightarrow> dict list \<Rightarrow> dict list \<Rightarrow> string \<Rightarrow> tag_map \<Rightarrow> exn + dict list list" where
  "resolve_groups K groups backups cutoff tags =
     map_res (\<lambda>g. resolve_group_rows (ck_search K) g backups cutoff tags) groups"

definition member_total :: "dict list list \<Rightarrow> nat" where
  "member_total group_rows = sum_list (map length group_rows)"

subsection \<open>Target ids\<close>

definition all_rows :: "dict list list \<Rightarrow> exn + int list" where
  "all_rows group_rows = map_res row_vmid_of (concat group_rows)"

text \<open>The duplicates in the order of the rows\<close>

fun repeated :: "int list \<Rightarrow> int set \<Rightarrow> int list" where
  "repeated [] seen = []"
| "repeated (v # vs) seen = (if v \<in> seen then v # repeated vs seen else repeated vs (insert v seen))"

definition dr_items :: "int set \<Rightarrow> nat \<Rightarrow> int list \<Rightarrow> dict list" where
  "dr_items in_use members srcs =
     map (\<lambda>v. fail_item ''vmid.dr_duplicate'' (''Duplicate source VMID in plan batch: '' @ str_of_int v) [])
       (repeated srcs {}) @
     (let conflicts = filter (\<lambda>v. v \<in> in_use) srcs in
      [if conflicts \<noteq> [] then
         fail_item ''vmid.dr_in_use'' ''DR mode: source VMID(s) already exist on cluster''
           (join_on '', '' (map str_of_int (take 20 conflicts)))
       else ok_item ''vmid.dr'' (''DR: '' @ str_of_nat members @ '' source VMID(s) free on cluster'') []])"

definition normal_item :: "dict \<Rightarrow> int set \<Rightarrow> nat \<Rightarrow> dict" where
  "normal_item location in_use members =
     (case res_bind (py_int (py_or (dget location ''vmid_start'') (PInt 100)))
             (\<lambda>start. allocate_sequential_free_vmids in_use start (int members)) of
        Inl e \<Rightarrow> fail_item ''vmid.normal'' ''Cannot allocate enough free VMIDs for plan members''
                   (public_error_message e [])
      | Inr (ids, nxt, used) \<Rightarrow>
          ok_item ''vmid.normal'' (''Normal: can allocate '' @ str_of_nat (length ids) @ '' free VMID(s) from '' @
            py_str (dget location ''vmid_start'')) [])"

definition check_mode :: "dict \<Rightarrow> string" where
  "check_mode location =
     or_default (lower (strip (py_str (py_or (dget location ''restore_mode'') (PStr ''normal''))))) ''normal''"

definition vmid_items :: "env \<Rightarrow> dict \<Rightarrow> dict list list \<Rightarrow> (world, dict list) act" where
  "vmid_items E location group_rows =
     (let members = member_total group_rows in
      if members = 0 then ret_act []
      else bind_act (catch_act (bind_act (qemu_vmids_in_use_cluster E) (\<lambda>u. ret_act ([], u)))
             (\<lambda>e. ret_act ([fail_item ''pve.vmids'' ''Failed to list cluster VMIDs in use'' (public_error_message e [])], {})))
        (\<lambda>(items, in_use).
          if check_mode location = ''dr'' then
            bind_act (res_act (all_rows group_rows)) (\<lambda>srcs. ret_act (items @ dr_items in_use members srcs))
          else ret_act (items @ [normal_item location in_use members])))"

subsection \<open>Sizes\<close>

record size_summary =
  ss_count :: nat
  ss_gross :: int
  ss_nonzero :: "int option"
  ss_estimated :: nat
  ss_missing :: nat
  ss_errors :: "string list"

text \<open>The first row of every backup id\<close>

definition rows_by_id :: "dict list \<Rightarrow> (string \<times> dict) list" where
  "rows_by_id rows =
     dedup_by fst [] (filter (\<lambda>(b, row). b \<noteq> []) (map (\<lambda>row. (str_strip row ''backup_id'', row)) rows))"

definition gross_size :: "dict \<Rightarrow> int" where
  "gross_size row = (case py_int (py_or (dget row ''size_bytes'') (PInt 0)) of Inr n \<Rightarrow> max 0 n | Inl e \<Rightarrow> 0)"

definition nonzero_of :: "dict \<Rightarrow> exn + int option" where
  "nonzero_of est =
     (if dget est ''nonzero_bytes'' = PNone then Inr None
      else res_bind (py_int (dget est ''nonzero_bytes'')) (\<lambda>n. Inr (Some (max 0 n))))"

definition add_estimate :: "(exn + int option) \<Rightarrow> string \<Rightarrow> size_summary \<Rightarrow> size_summary" where
  "add_estimate r bid z =
     (case r of
        Inr (Some n) \<Rightarrow> z\<lparr>ss_nonzero := Some ((case ss_nonzero z of None \<Rightarrow> 0 | Some m \<Rightarrow> m) + n),
                           ss_estimated := Suc (ss_estimated z)\<rparr>
      | Inr None \<Rightarrow> z\<lparr>ss_missing := Suc (ss_missing z)\<rparr>
      | Inl e \<Rightarrow> z\<lparr>ss_missing := Suc (ss_missing z),
                   ss_errors := (if length (ss_errors z) < 8
                                 then ss_errors z @ [bid @ '': '' @ public_error_message e []] else ss_errors z)\<rparr>)"

fun add_estimates :: "checkers \<Rightarrow> string list \<Rightarrow> size_summary \<Rightarrow> (world, size_summary) act" where
  "add_estimates K [] z = ret_act z"
| "add_estimates K (b # bs) z =
     bind_act (catch_act
        (bind_act (ck_size K b) (\<lambda>est. bind_act (res_act (nonzero_of est)) (\<lambda>n. ret_act (Inr n))))
        (\<lambda>e. ret_act (Inl e))) (\<lambda>r. add_estimates K bs (add_estimate r b z))"

definition summarize_member_sizes :: "checkers \<Rightarrow> dict list list \<Rightarrow> (world, size_summary) act" where
  "summarize_member_sizes K group_rows =
     (let by_id = rows_by_id (concat group_rows)
      in add_estimates K (map fst by_id)
           \<lparr>ss_count = length by_id, ss_gross = sum_list (map (\<lambda>(b, row). gross_size row) by_id),
            ss_nonzero = None, ss_estimated = 0, ss_missing = 0, ss_errors = []\<rparr>)"

definition size_dict :: "size_summary \<Rightarrow> dict" where
  "size_dict z =
     [(''backup_count'', PInt (int (ss_count z))), (''gross_bytes'', PInt (ss_gross z)),
      (''nonzero_bytes'', opt_int (ss_nonzero z)), (''nonzero_estimated_count'', PInt (int (ss_estimated z))),
      (''nonzero_missing_count'', PInt (int (ss_missing z))), (''estimate_errors'', str_vals (ss_errors z))]"

definition size_item :: "size_summary \<Rightarrow> dict" where
  "size_item z =
     (let gross = format_bytes (PInt (ss_gross z)); errs = join_on ''; '' (ss_errors z)
      in case ss_nonzero z of
           Some nz \<Rightarrow>
             let msg = ''Restore size: '' @ gross @ '' gross, ~'' @ format_bytes (PInt nz) @ '' approx net'';
                 detail = str_of_nat (ss_estimated z) @ ''/'' @ str_of_nat (ss_estimated z + ss_missing z) @
                   '' backup(s) estimated via fidx non-zero chunks''
             in if 0 < ss_missing z
                then warn_item ''plan.sizes'' msg (detail @ (if errs \<noteq> [] then ''; missing: '' @ errs else []))
                else ok_item ''plan.sizes'' msg detail
         | None \<Rightarrow> warn_item ''plan.sizes'' (''Restore size: '' @ gross @ '' gross; approx net unavailable'')
                     (or_default errs ''fidx estimate failed for all members''))"

definition size_items :: "checkers \<Rightarrow> dict list list \<Rightarrow> (world, dict list \<times> size_summary option) act" where
  "size_items K group_rows =
     (if \<forall>rows \<in> set group_rows. rows = [] then ret_act ([], None)
      else catch_act (bind_act (summarize_member_sizes K group_rows) (\<lambda>z. ret_act ([size_item z], Some z)))
        (\<lambda>e. ret_act ([warn_item ''plan.sizes'' ''Could not compute restore size totals'' (public_error_message e [])], None)))"

definition size_hint :: "size_summary option \<Rightarrow> string" where
  "size_hint zo =
     (case zo of
        None \<Rightarrow> []
      | Some z \<Rightarrow> '' '' @ mid_dot @ '' '' @ format_bytes (PInt (ss_gross z)) @ '' gross'' @
          (case ss_nonzero z of
             Some nz \<Rightarrow> '' '' @ mid_dot @ '' ~'' @ format_bytes (PInt nz) @ '' approx net'' | None \<Rightarrow> []))"

subsection \<open>The verdict\<close>

definition member_items ::
  "env \<Rightarrow> cfg \<Rightarrow> checkers \<Rightarrow> dict \<Rightarrow> dict list \<Rightarrow> string \<Rightarrow> (world, dict list \<times> dict list list) act" where
  "member_items E C K location groups cutoff =
     bind_act (known_nodes E) (\<lambda>(items1, known).
     bind_act (map_act (node_item E location known) (check_nodes location)) (\<lambda>items2.
     bind_act (listed_backups E C) (\<lambda>(items3, backups).
     bind_act (tag_items K groups backups cutoff (case check_nodes location of [] \<Rightarrow> [] | n # ns \<Rightarrow> n)) (\<lambda>(items4, tags).
     bind_act (res_act (resolve_groups K groups backups cutoff tags)) (\<lambda>group_rows.
     bind_act (vmid_items E location group_rows) (\<lambda>items6.
     ret_act (items1 @ items2 @ items3 @ items4 @ map2 group_item groups group_rows @ items6, group_rows)))))))"

text \<open>\<open>plan.empty\<close> when nothing failed and there are no members\<close>

definition empty_items :: "dict list \<Rightarrow> nat \<Rightarrow> dict \<Rightarrow> dict list \<Rightarrow> dict list" where
  "empty_items items members location groups =
     (if error_count items = 0 \<and> members = 0 \<and> location \<noteq> [] \<and> groups \<noteq> [] \<and>
         (\<forall>i \<in> set items. dget i ''code'' \<noteq> PStr ''group.empty'')
      then [fail_item ''plan.empty'' ''Plan resolved to zero backups'' []] else [])"

definition check_summary :: "dict list \<Rightarrow> nat \<Rightarrow> size_summary option \<Rightarrow> string" where
  "check_summary items members zo =
     (if error_count items = 0 then ''Readiness OK ('' @ str_of_nat members @ '' VM(s)'' @ size_hint zo @ '')''
      else ''Readiness FAILED ('' @ str_of_nat (error_count items) @ '' error(s), '' @ str_of_nat members @
        '' VM(s) resolved'' @ size_hint zo @ '')'')"

definition check_dict :: "string \<Rightarrow> string \<Rightarrow> dict list \<Rightarrow> nat \<Rightarrow> size_summary option \<Rightarrow> dict" where
  "check_dict stamp cutoff items members zo =
     [(''ok'', PBool (error_count items = 0)), (''checked_at'', PStr stamp), (''cutoff'', PStr cutoff),
      (''summary'', PStr (check_summary items members zo)), (''member_count'', PInt (int members)),
      (''items'', PList (map PDict items))] @
     (case zo of None \<Rightarrow> [] | Some z \<Rightarrow> [(''size_summary'', PDict (size_dict z))])"

definition readiness_check :: "env \<Rightarrow> cfg \<Rightarrow> checkers \<Rightarrow> dict \<Rightarrow> string \<Rightarrow> (world, dict) act" where
  "readiness_check E C K plan cutoff0 =
     bind_act (get_act (utc_now_iso E)) (\<lambda>stamp.
     bind_act (res_act (res_bind (iter_or_empty (dget plan ''group_ids'')) (\<lambda>vs. Inr (map py_str vs)))) (\<lambda>group_ids.
     bind_act (res_act (strip_field plan ''location_id'')) (\<lambda>location_id.
     bind_act (get_act (\<lambda>w. (setup_items C group_ids location_id w, plan_location C location_id w,
                             plan_groups C group_ids w))) (\<lambda>(items0, location, groups).
     bind_act (pbs_items E C) (\<lambda>items1.
     bind_act (pve_items E C) (\<lambda>(items2, session).
     bind_act (if location \<noteq> [] \<and> session then member_items E C K location groups (default_cutoff cutoff0)
               else ret_act ([], [])) (\<lambda>(items3, group_rows).
     bind_act (size_items K group_rows) (\<lambda>(items4, zo).
     let items5 = items0 @ items1 @ items2 @ items3 @ items4;
         items = items5 @ empty_items items5 (member_total group_rows) location groups
     in ret_act (check_dict stamp (default_cutoff cutoff0) items (member_total group_rows) zo)))))))))"

text \<open>\<open>{**plan, "last_check": check, ...}\<close>\<close>

definition checked_plan :: "dict \<Rightarrow> dict \<Rightarrow> string \<Rightarrow> dict" where
  "checked_plan plan check stamp =
     dput (dput (dput plan ''last_check'' (PDict check))
       ''last_check_at'' (PStr (py_str (py_or (dget check ''checked_at'') (PStr stamp)))))
       ''verification'' (PStr (verification_value (if truthy (dget check ''ok'') then VERIFIED else NOT_VERIFIED)))"

definition save_plan_act :: "env \<Rightarrow> cfg \<Rightarrow> string \<Rightarrow> dict \<Rightarrow> (world, dict) act" where
  "save_plan_act E C pid d w = (case save_entity E (plan_key C pid) (plans_index C) pid d w of (d', w') \<Rightarrow> (Inr d', w'))"

text \<open>The report and the notification are attempts: an exception in them is passed over.\<close>

definition apply_check_result :: "env \<Rightarrow> cfg \<Rightarrow> dict \<Rightarrow> dict \<Rightarrow> (world, dict) act" where
  "apply_check_result E C plan check =
     bind_act (get_act (\<lambda>w. checked_plan plan check (utc_now_iso E w))) (\<lambda>updated.
     bind_act (res_act (need_str plan ''id'')) (\<lambda>pid.
     bind_act (save_plan_act E C pid updated) (\<lambda>saved.
     bind_act (catch_act
        (bind_act (save_check_report E C saved check) (\<lambda>rep.
         bind_act (res_act (need_key rep ''id'')) (\<lambda>rid.
         save_plan_act E C pid (dput saved ''last_check_report_id'' rid))))
        (\<lambda>e. ret_act saved)) (\<lambda>saved'.
     bind_act (catch_act (notify_check_result E C saved' check) (\<lambda>e. ret_act ())) (\<lambda>_.
     ret_act saved')))))"

definition run_plan_readiness ::
  "env \<Rightarrow> cfg \<Rightarrow> checkers \<Rightarrow> dict \<Rightarrow> string \<Rightarrow> bool \<Rightarrow> (world, dict \<times> dict) act" where
  "run_plan_readiness E C K plan cutoff0 persist =
     bind_act (readiness_check E C K plan cutoff0) (\<lambda>check.
     bind_act (if persist then apply_check_result E C plan check else ret_act plan) (\<lambda>plan'.
     ret_act (plan', check)))"

subsection \<open>The worker's tick\<close>

definition crash_check :: "string \<Rightarrow> exn \<Rightarrow> dict" where
  "crash_check stamp e =
     [(''ok'', PBool False), (''checked_at'', PStr stamp), (''cutoff'', PStr (default_cutoff [])),
      (''summary'', PStr (''Readiness check crashed: '' @ public_error_message e [])), (''member_count'', PInt 0),
      (''items'', PList [PDict (fail_item ''check.crash'' ''Readiness check crashed'' (public_error_message e []))])]"

definition tick_one ::
  "env \<Rightarrow> cfg \<Rightarrow> checkers \<Rightarrow> (dict \<Rightarrow> exn \<Rightarrow> (world, unit) act) \<Rightarrow> dict \<Rightarrow> (world, unit) act" where
  "tick_one E C K on_error plan =
     catch_act (bind_act (run_plan_readiness E C K plan [] True) (\<lambda>_. ret_act ()))
       (\<lambda>e. bind_act (catch_act
               (bind_act (get_act (utc_now_iso E)) (\<lambda>stamp.
                bind_act (apply_check_result E C plan (crash_check stamp e)) (\<lambda>_. ret_act ())))
               (\<lambda>e'. ret_act ())) (\<lambda>_. on_error plan e))"

definition check_interval :: "cfg \<Rightarrow> rat" where
  "check_interval C = py_float_or (dget_or (worker_cfg C) ''plan_check_interval_sec'' (PInt 86400)) 86400"

definition tick_plan_readiness ::
  "env \<Rightarrow> cfg \<Rightarrow> checkers \<Rightarrow> (dict \<Rightarrow> exn \<Rightarrow> (world, unit) act) \<Rightarrow> (world, nat) act" where
  "tick_plan_readiness E C K on_error =
     (if check_interval C \<le> 0 then ret_act 0
      else bind_act (\<lambda>w. (plans_due_for_check (list_plans C w) (check_interval C) (now E w), w)) (\<lambda>due.
           bind_act (each_act (tick_one E C K on_error) due) (\<lambda>_. ret_act (length due))))"

text \<open>The functions that the worker's check uses\<close>

definition worker_checkers ::
  "env \<Rightarrow> cfg \<Rightarrow> (string \<Rightarrow> string \<Rightarrow> bool option) \<Rightarrow> open_reader \<Rightarrow> (int \<Rightarrow> bytes) \<Rightarrow> checkers" where
  "worker_checkers E C rx open_reader zero_digest =
     \<lparr>ck_search = rx, ck_tags = (\<lambda>rows node. resolve_tags_cached E C rows node),
      ck_size = estimate_fidx_usage_cached E C open_reader zero_digest\<rparr>"

end
