(* ===== verification/AuditLog.thy ===== *)
theory AuditLog
  imports World
begin

text \<open>
  The audit log of the operator's actions (\<open>audit.py\<close>): a Redis list with the latest entry first, cut
  to its retention at each append, and read page by page. An entry is a JSON document, which reading
  gives back as it was written.
\<close>

definition audit_key :: "cfg \<Rightarrow> string" where
  "audit_key C = py_str (py_or (dget (redis_cfg C) ''audit_key'') (PStr ''restore:audit''))"

definition audit_retain :: "cfg \<Rightarrow> int" where
  "audit_retain C =
     (case py_int (py_or (dget_or (worker_cfg C) ''audit_retain'' (PInt 2000)) (PInt 2000)) of
        Inl e \<Rightarrow> 2000 | Inr n \<Rightarrow> max 100 n)"

definition audit_entries :: "cfg \<Rightarrow> world \<Rightarrow> dict list" where
  "audit_entries C w = (case map_of (audits w) (audit_key C) of None \<Rightarrow> [] | Some es \<Rightarrow> es)"

definition audit_entry :: "string \<Rightarrow> string \<Rightarrow> string \<Rightarrow> dict \<Rightarrow> dict" where
  "audit_entry stamp action actor detail =
     [(''ts'', PStr stamp), (''action'', PStr (or_default (strip action) ''unknown'')),
      (''actor'', PStr (or_default (strip (or_default actor ''ui'')) ''ui'')), (''detail'', PDict detail)]"

text \<open>\<open>LPUSH\<close> and \<open>LTRIM key 0 retain-1\<close>\<close>

definition append_audit :: "env \<Rightarrow> cfg \<Rightarrow> string \<Rightarrow> string \<Rightarrow> dict \<Rightarrow> world \<Rightarrow> world" where
  "append_audit E C action actor detail w =
     w\<lparr>audits := AList.update (audit_key C)
         (take (nat (audit_retain C)) (audit_entry (utc_now_iso E w) action actor detail # audit_entries C w))
         (audits w)\<rparr>"

definition list_audit :: "cfg \<Rightarrow> int \<Rightarrow> int \<Rightarrow> world \<Rightarrow> dict list" where
  "list_audit C limit0 offset0 w =
     (let limit = max 1 (min 500 limit0); offset = max 0 offset0
      in take (nat limit) (drop (nat offset) (audit_entries C w)))"

lemma audit_retain_least: "100 \<le> audit_retain C"
  by (simp add: audit_retain_def split: sum.splits)

lemma audit_entries_append:
  "audit_entries C (append_audit E C action actor detail w) =
     take (nat (audit_retain C)) (audit_entry (utc_now_iso E w) action actor detail # audit_entries C w)"
  by (simp add: audit_entries_def append_audit_def update_conv')

lemma append_audit_frame [frame_simps]:
  "docs (append_audit E C a b d w) = docs w" "run_docs (append_audit E C a b d w) = run_docs w"
  "sets (append_audit E C a b d w) = sets w" "hashes (append_audit E C a b d w) = hashes w"
  "rlists (append_audit E C a b d w) = rlists w" "calls (append_audit E C a b d w) = calls w"
  by (simp_all add: append_audit_def)

text \<open>The log, read from its start, is the new entry before what was there, as far as the retention and
  the page allow.\<close>

lemma list_audit_append:
  assumes "1 \<le> n" "n \<le> 100"
  shows "list_audit C n 0 (append_audit E C action actor detail w) =
    audit_entry (utc_now_iso E w) action actor detail # take (nat n - 1) (audit_entries C w)"
proof -
  have n: "nat n \<le> nat (audit_retain C)" using audit_retain_least [of C] assms by simp
  have "list_audit C n 0 (append_audit E C action actor detail w) =
      take (nat n) (audit_entry (utc_now_iso E w) action actor detail # audit_entries C w)"
    using assms n by (simp add: list_audit_def audit_entries_append min_absorb2 min.absorb2 min.absorb1)
  then show ?thesis using assms by (cases "nat n") auto
qed

end
