(* ===== verification/Api.thy ===== *)
theory Api
  imports Readiness AuditLog
begin

text \<open>
  The restore requests of the HTTP API (\<open>main.py\<close>): the cutoff, the tag cache, the nodes and the storage
  of a request, its two safety gates (overwriting, power and network), and the handlers that queue the
  selected backups or the newest ones with a tag. A refusal is an \<open>HTTPException\<close> with its status code.

  A request body is a record of the values that validation leaves; \<open>opts_ok\<close> states the bounds that the
  fields declare. The configuration is the one read at the start of the handler.
\<close>

subsection \<open>Cutoff\<close>

definition normalize_cutoff :: "string option \<Rightarrow> string" where
  "normalize_cutoff value0 =
     (let v = strip (case value0 of None \<Rightarrow> [] | Some s \<Rightarrow> s) in
      if v = [] then ''9999-12-31T23:59:59Z''
      else if length v = 10 then v @ ''T23:59:59Z''
      else if length v = 16 then v @ '':59Z''
      else if \<not> endswith ''Z'' v then v @ ''Z''
      else v)"

lemma normalize_cutoff_worker: "normalize_cutoff (Some v) = default_cutoff v"
  by (simp add: normalize_cutoff_def default_cutoff_def)

subsection \<open>Tags\<close>

text \<open>
  The rows whose tags are cached, and the others, whose archives are read in their order. The archives
  are read by five threads; what they write does not depend on their interleaving, and the results are
  taken in the order of the rows.
\<close>

fun cached_rows ::
  "cfg \<Rightarrow> bool \<Rightarrow> 'x store_scheme \<Rightarrow> dict list \<Rightarrow> tag_map \<times> (dict \<times> string) list \<Rightarrow>
     exn + tag_map \<times> (dict \<times> string) list" where
  "cached_rows C force s [] r = Inr r"
| "cached_rows C force s (row # rows) (tags, pending) =
     res_bind (row_volid row) (\<lambda>volid.
       case if force then None else get_str (tag_cache_key C volid) s of
         Some cached \<Rightarrow>
           res_bind (need_str row ''backup_id'') (\<lambda>bid.
           cached_rows C force s rows (AList.update bid (cached_tags cached) tags, pending))
       | None \<Rightarrow> cached_rows C force s rows (tags, pending @ [(row, volid)]))"

definition fetch_row ::
  "env \<Rightarrow> string \<Rightarrow> dict \<times> string \<Rightarrow> ('x store_scheme, string \<times> string list \<times> string) act" where
  "fetch_row E node = (\<lambda>(row, volid).
     bind_act (catch_act (bind_act (extract_vm_config E node volid) (\<lambda>t. ret_act (parse_tags t, [])))
                 (\<lambda>e. ret_act ([], exn_str e))) (\<lambda>(ts, err).
     bind_act (res_act (need_str row ''backup_id'')) (\<lambda>bid. ret_act (bid, ts, err))))"

fun fetch_rows ::
  "env \<Rightarrow> cfg \<Rightarrow> string \<Rightarrow> (dict \<times> string) list \<Rightarrow> tag_result \<Rightarrow> ('x store_scheme, tag_result) act" where
  "fetch_rows E C node [] r = ret_act r"
| "fetch_rows E C node (p # ps) (tags, errs) =
     bind_act (fetch_row E node p) (\<lambda>(bid, ts, err).
       if err \<noteq> [] then fetch_rows E C node ps (tags, AList.update bid err errs)
       else bind_act (upd_act (set_str (tag_cache_key C (snd p)) (join_on '';'' ts))) (\<lambda>_.
            fetch_rows E C node ps (AList.update bid ts tags, errs)))"

definition api_resolve_tags ::
  "env \<Rightarrow> cfg \<Rightarrow> dict list \<Rightarrow> string \<Rightarrow> bool \<Rightarrow> ('x store_scheme, tag_result) act" where
  "api_resolve_tags E C rows node force =
     bind_act (\<lambda>s. (cached_rows C force s rows ([], []), s)) (\<lambda>(tags, pending).
       if pending = [] then ret_act (tags, [])
       else bind_act (connect_proxmox E C) (\<lambda>_. fetch_rows E C node pending (tags, [])))"

subsection \<open>Nodes and storage of a request\<close>

definition bad_request :: "string \<Rightarrow> exn" where
  "bad_request detail = HTTPException 400 detail"

definition dedupe_nodes :: "string list \<Rightarrow> string list" where
  "dedupe_nodes nodes = dedup_by (\<lambda>n. n) [] (filter (\<lambda>n. n \<noteq> []) (map strip nodes))"

definition resolve_restore_nodes :: "string option \<Rightarrow> string list \<Rightarrow> string \<Rightarrow> exn + string list" where
  "resolve_restore_nodes node nodes default_node =
     (let multi = dedupe_nodes nodes;
          single = strip (or_default (case node of None \<Rightarrow> [] | Some n \<Rightarrow> n) default_node)
      in if multi \<noteq> [] then Inr multi
         else if single = [] then
           Inl (bad_request ''proxmox.default_node, proxmox_node, or proxmox_nodes is required'')
         else Inr [single])"

definition normalize_storage_by_node :: "(string \<times> string) list \<Rightarrow> (string \<times> string) list" where
  "normalize_storage_by_node raw =
     fold (\<lambda>(key, val) m. if strip key \<noteq> [] \<and> strip val \<noteq> []
                          then AList.update (strip key) (strip val) m else m) raw []"

definition require_storage_selection ::
  "string list \<Rightarrow> string option \<Rightarrow> (string \<times> string) list \<Rightarrow> exn + string \<times> (string \<times> string) list" where
  "require_storage_selection nodes storage raw =
     (let by_node = normalize_storage_by_node raw;
          default_storage = strip (case storage of None \<Rightarrow> [] | Some s \<Rightarrow> s);
          missing = filter (\<lambda>n. map_of by_node n = None \<and> default_storage = []) nodes
      in if missing \<noteq> [] then Inl (bad_request (''Select storage for node(s): '' @ join_on '', '' missing))
         else if by_node = [] \<and> default_storage = [] then
           Inl (bad_request ''proxmox_storage or proxmox_storage_by_node is required'')
         else Inr (default_storage, by_node))"

subsection \<open>The gates\<close>

definition normalize_net_mode :: "string \<Rightarrow> string" where
  "normalize_net_mode raw =
     (let mode = lower (strip (or_default raw ''none''))
      in if mode \<in> {''none'', ''unlink'', ''remap''} then mode else ''none'')"

definition assert_overwrite_confirm :: "bool \<Rightarrow> bool \<Rightarrow> string \<Rightarrow> exn + unit" where
  "assert_overwrite_confirm overwrite confirm_overwrite mode =
     (if \<not> overwrite then Inr ()
      else if lower (strip mode) \<noteq> ''dr'' then
        Inl (bad_request ''overwrite is only valid with restore_mode=dr'')
      else if \<not> confirm_overwrite then
        Inl (bad_request (''DR overwrite requires confirm_overwrite=true. '' @
          ''Only guests previously restored by restore-engine can be reclaimed; '' @
          ''foreign VMs/LXCs are never deleted.''))
      else Inr ())"

definition isolation_error :: exn where
  "isolation_error = bad_request (''Power-on / live-restore / QGA require network isolation '' @
     ''(network_mode=unlink|remap or an isolated location), '' @ ''or pass allow_non_isolated=true'')"

definition assert_power_on_isolation ::
  "bool \<Rightarrow> int \<Rightarrow> bool \<Rightarrow> string \<Rightarrow> bool \<Rightarrow> bool \<Rightarrow> exn + unit" where
  "assert_power_on_isolation power_on qga_wait_sec live_restore network_mode isolated allow_non_isolated =
     (let wants_boot = power_on \<or> 0 < qga_wait_sec \<or> live_restore in
      if \<not> wants_boot \<or> allow_non_isolated then Inr ()
      else if isolated \<or> normalize_net_mode network_mode \<in> {''unlink'', ''remap''} then Inr ()
      else Inl isolation_error)"

subsection \<open>Queueing\<close>

definition api_enqueue ::
  "env \<Rightarrow> cfg \<Rightarrow> dict list \<Rightarrow> enqueue_args \<Rightarrow> ('x store_scheme, enqueue_result) act" where
  "api_enqueue E C rows A =
     catch_act (enqueue_restores E C rows A) (\<lambda>e. raise_act
       (if is_runtime_error e then
          HTTPException (if startswith ''Cannot list QEMU'' (exn_str e) then 503 else 400) (exn_str e)
        else e))"

record restore_opts =
  ro_node :: "string option"
  ro_nodes :: "string list"
  ro_storage :: "string option"
  ro_storage_by_node :: "(string \<times> string) list"
  ro_vmid_start :: int
  ro_live_restore :: bool
  ro_bwlimit :: int
  ro_restore_mode :: string
  ro_power_on :: bool
  ro_qga_wait_sec :: int
  ro_network_mode :: string
  ro_lab_bridge :: string
  ro_overwrite :: bool
  ro_http_check_url :: string
  ro_confirm_overwrite :: bool
  ro_allow_non_isolated :: bool

definition opts_ok :: "restore_opts \<Rightarrow> bool" where
  "opts_ok o1 \<longleftrightarrow> 100 \<le> ro_vmid_start o1 \<and> 0 \<le> ro_bwlimit o1 \<and> 0 \<le> ro_qga_wait_sec o1 \<and> ro_qga_wait_sec o1 \<le> 3600"

definition request_target :: "cfg \<Rightarrow> restore_opts \<Rightarrow> exn + string list \<times> string \<times> (string \<times> string) list" where
  "request_target C o1 =
     res_bind (resolve_restore_nodes (ro_node o1) (ro_nodes o1) (str_or_empty (dget (proxmox_cfg C) ''default_node'')))
       (\<lambda>nodes. res_bind (require_storage_selection nodes (ro_storage o1) (ro_storage_by_node o1))
       (\<lambda>(st, by_node). Inr (nodes, st, by_node)))"

definition request_gates :: "restore_opts \<Rightarrow> exn + unit" where
  "request_gates o1 =
     res_bind (assert_overwrite_confirm (ro_overwrite o1) (ro_confirm_overwrite o1) (ro_restore_mode o1)) (\<lambda>_.
     assert_power_on_isolation (ro_power_on o1) (ro_qga_wait_sec o1) (ro_live_restore o1) (ro_network_mode o1)
       False (ro_allow_non_isolated o1))"

definition request_args :: "restore_opts \<Rightarrow> string list \<Rightarrow> string \<Rightarrow> (string \<times> string) list \<Rightarrow> enqueue_args" where
  "request_args o1 nodes st by_node =
     \<lparr>ea_node = [], ea_nodes = nodes, ea_target_storage = st, ea_storage_by_node = by_node,
      ea_vmid_start = ro_vmid_start o1, ea_live_restore = ro_live_restore o1, ea_bwlimit = ro_bwlimit o1,
      ea_restore_mode = ro_restore_mode o1, ea_plan_run_id = [], ea_plan_group_index = None,
      ea_power_on = ro_power_on o1, ea_qga_wait_sec = ro_qga_wait_sec o1, ea_network_mode = ro_network_mode o1,
      ea_lab_bridge = ro_lab_bridge o1, ea_overwrite = ro_overwrite o1, ea_http_check_url = ro_http_check_url o1\<rparr>"

definition audit_action :: "env \<Rightarrow> cfg \<Rightarrow> string option \<Rightarrow> string \<Rightarrow> dict \<Rightarrow> (world, unit) act" where
  "audit_action E C actor action detail =
     upd_act (append_audit E C action (or_default (case actor of None \<Rightarrow> [] | Some a \<Rightarrow> a) ''ui'') detail)"

subsection \<open>Restoring selected backups\<close>

definition backups_by_id :: "dict list \<Rightarrow> exn + (string \<times> dict) list" where
  "backups_by_id rows =
     res_bind (map_res (\<lambda>row. res_bind (need_str row ''backup_id'') (\<lambda>b. Inr (b, row))) rows) (\<lambda>brs.
       Inr (fold (\<lambda>(b, row). AList.update b row) brs []))"

fun ordered_rows :: "(string \<times> dict) list \<Rightarrow> string list \<Rightarrow> string list \<Rightarrow> exn + dict list" where
  "ordered_rows backups seen [] = Inr []"
| "ordered_rows backups seen (raw # raws) =
     (let bid = strip raw in
      if bid = [] \<or> bid \<in> set seen then ordered_rows backups seen raws
      else case map_of backups bid of
             None \<Rightarrow> Inl (bad_request (''Backup not found: '' @ bid))
           | Some row \<Rightarrow>
               if row = [] then Inl (bad_request (''Backup not found: '' @ bid))
               else res_bind (ordered_rows backups (bid # seen) raws) (\<lambda>rows. Inr (row # rows)))"

definition mapped_row :: "dict \<Rightarrow> exn + unit" where
  "mapped_row row =
     res_bind (py_strip (py_or (dget row ''pve_storage'') (PStr []))) (\<lambda>st.
       if st \<noteq> [] then Inr ()
       else res_bind (need_str row ''backup_id'') (\<lambda>b. Inl (bad_request
              (''Backup '' @ b @ '' has no PVE storage mapping for its PBS source''))))"

definition selected_rows :: "dict list \<Rightarrow> string list \<Rightarrow> exn + dict list" where
  "selected_rows rows ids =
     res_bind (backups_by_id rows) (\<lambda>backups.
     res_bind (ordered_rows backups [] ids) (\<lambda>ordered.
       if ordered = [] then Inl (bad_request ''No valid backup IDs after deduplication'')
       else res_bind (map_res mapped_row ordered) (\<lambda>_. Inr ordered)))"

definition restore_selected ::
  "env \<Rightarrow> cfg \<Rightarrow> string option \<Rightarrow> string list \<Rightarrow> restore_opts \<Rightarrow> (world, enqueue_result) act" where
  "restore_selected E C actor ids o1 =
     bind_act (res_act (request_target C o1)) (\<lambda>(nodes, st, by_node).
     bind_act (list_vm_backups E C) (\<lambda>rows.
     bind_act (res_act (selected_rows rows ids)) (\<lambda>ordered.
     bind_act (res_act (request_gates o1)) (\<lambda>_.
     bind_act (api_enqueue E C ordered (request_args o1 nodes st by_node)) (\<lambda>res.
     bind_act (audit_action E C actor ''restore.enqueue''
        [(''enqueued'', PInt (int (length (er_job_ids res)))), (''mode'', PStr (ro_restore_mode o1)),
         (''overwrite'', PBool (ro_overwrite o1))]) (\<lambda>_.
     ret_act res))))))"

subsection \<open>Restoring the newest backups with a tag\<close>

text \<open>The rows are those of \<open>list_vm_backups\<close>, whose \<open>vmid\<close> is an integer.\<close>

fun latest_per_vmid :: "string \<Rightarrow> (int \<times> dict) list \<Rightarrow> dict list \<Rightarrow> exn + (int \<times> dict) list" where
  "latest_per_vmid cutoff best [] = Inr best"
| "latest_per_vmid cutoff best (row # rows) =
     res_bind (need_key row ''timestamp'') (\<lambda>ts.
     res_bind (str_gt ts (PStr cutoff)) (\<lambda>late.
       if late then latest_per_vmid cutoff best rows
       else
         res_bind (row_vmid_of row) (\<lambda>v.
         res_bind (case map_of best v of
                     None \<Rightarrow> Inr True
                   | Some current \<Rightarrow> res_bind (need_key current ''timestamp'') (str_gt ts)) (\<lambda>newer.
         latest_per_vmid cutoff (if newer then AList.update v row best else best) rows))))"

definition tagged_rows :: "tag_map \<Rightarrow> string \<Rightarrow> dict list \<Rightarrow> exn + dict list" where
  "tagged_rows tags wanted rows =
     res_bind (map_res (\<lambda>row. res_bind (tags_of_row tags row) (\<lambda>ts. Inr (wanted \<in> set (map lower ts), row))) rows)
       (\<lambda>brs. Inr (map snd (filter fst brs)))"

text \<open>\<open>None\<close> is the answer with nothing enqueued; otherwise the result comes with the matched VMIDs.\<close>

definition restore_tag_group ::
  "env \<Rightarrow> cfg \<Rightarrow> string \<Rightarrow> string option \<Rightarrow> restore_opts \<Rightarrow> (world, (enqueue_result \<times> int list) option) act" where
  "restore_tag_group E C tag at_or_before o1 =
     bind_act (res_act (request_target C o1)) (\<lambda>(nodes, st, by_node).
     bind_act (list_vm_backups E C) (\<lambda>rows.
     bind_act (res_act (latest_per_vmid (normalize_cutoff at_or_before) [] rows)) (\<lambda>best.
       if best = [] then ret_act None
       else
         bind_act (api_resolve_tags E C (map snd best) (hd nodes) False) (\<lambda>(tags, errs).
         bind_act (res_act (tagged_rows tags (lower (strip tag)) (map snd best))) (\<lambda>selected.
           if selected = [] then ret_act None
           else
             bind_act (res_act (request_gates o1)) (\<lambda>_.
             bind_act (res_act (map_res (\<lambda>row. res_bind (row_vmid_of row) (\<lambda>v. Inr (v, row))) selected)) (\<lambda>vrs.
             let ordered = sort_key fst vrs in
             bind_act (api_enqueue E C (map snd ordered) (request_args o1 nodes st by_node)) (\<lambda>res.
             ret_act (Some (res, map fst ordered))))))))))"

subsection \<open>Listing backups, their tags and their sizes\<close>

fun with_cached_tags :: "cfg \<Rightarrow> 'x store_scheme \<Rightarrow> dict list \<Rightarrow> dict list" where
  "with_cached_tags C s [] = []"
| "with_cached_tags C s (row # rows) =
     (case row_volid row of
        Inl e \<Rightarrow> map (\<lambda>r. if has_key r ''tags'' then r else dput r ''tags'' PNone) (row # rows)
      | Inr volid \<Rightarrow>
          dput row ''tags'' (case get_str (tag_cache_key C volid) s of
              None \<Rightarrow> PNone | Some cached \<Rightarrow> str_vals (cached_tags cached)) # with_cached_tags C s rows)"

definition list_backups ::
  "env \<Rightarrow> cfg \<Rightarrow> int \<Rightarrow> int option \<Rightarrow> ('x store_scheme, dict list + dict page) act" where
  "list_backups E C offset cap =
     bind_act (list_vm_backups E C) (\<lambda>rows.
     bind_act (get_act (\<lambda>s. with_cached_tags C s rows)) (\<lambda>rows'. ret_act
       (case cap of None \<Rightarrow> Inl rows' | Some n \<Rightarrow> Inr (paginate rows' offset n))))"

definition resolve_backup_tags ::
  "env \<Rightarrow> cfg \<Rightarrow> string list option \<Rightarrow> string option \<Rightarrow> bool \<Rightarrow>
     ('x store_scheme, tag_map \<times> string list \<times> (string \<times> string) list) act" where
  "resolve_backup_tags E C ids node0 force =
     bind_act (res_act (py_strip (py_or (case node0 of None \<Rightarrow> PNone | Some n \<Rightarrow> PStr n)
         (py_or (dget (proxmox_cfg C) ''default_node'') (PStr []))))) (\<lambda>node.
       if node = [] then raise_act (bad_request ''proxmox.default_node or proxmox_node is required'')
       else
         bind_act (list_vm_backups E C) (\<lambda>rows.
         bind_act (res_act (case ids of
             None \<Rightarrow> Inr rows
           | Some bs \<Rightarrow> if bs = [] then Inr rows
               else filter_res (\<lambda>row. res_bind (need_str row ''backup_id'') (\<lambda>b. Inr (b \<in> strip ` set bs \<and> b \<noteq> []))) rows))
           (\<lambda>rows'.
         bind_act (api_resolve_tags E C rows' node force) (\<lambda>(tags, errs). ret_act
           (tags, sort_key lower (remdups (concat (map snd tags))), errs)))))"

definition estimate_size_max :: nat where "estimate_size_max = 20"

text \<open>The listed size of the wanted backups; an error leaves those read so far, which are none.\<close>

definition gross_sizes :: "env \<Rightarrow> cfg \<Rightarrow> (world, dict list) act" where
  "gross_sizes E C = catch_act (list_vm_backups E C) (\<lambda>e. ret_act [])"

definition listed_size :: "dict list \<Rightarrow> string \<Rightarrow> pyval" where
  "listed_size rows bid =
     fold (\<lambda>row v. if dget row ''backup_id'' = PStr bid then dget row ''size_bytes'' else v) rows PNone"

fun estimate_each ::
  "(string \<Rightarrow> (world, dict) act) \<Rightarrow> dict list \<Rightarrow> string list \<Rightarrow>
     (world, (string \<times> dict) list \<times> (string \<times> string) list) act" where
  "estimate_each size_fn rows [] = ret_act ([], [])"
| "estimate_each size_fn rows (bid # bids) =
     bind_act (catch_act (bind_act (size_fn bid) (\<lambda>d. ret_act (Inr
                  (if has_key d ''size_bytes'' then d else dput d ''size_bytes'' (listed_size rows bid)))))
                (\<lambda>e. ret_act (Inl (public_error_message e [])))) (\<lambda>r.
     bind_act (estimate_each size_fn rows bids) (\<lambda>(ests, errs). ret_act
       (case r of Inr d \<Rightarrow> ((bid, d) # ests, errs) | Inl m \<Rightarrow> (ests, (bid, m) # errs))))"

definition estimate_backup_sizes ::
  "env \<Rightarrow> cfg \<Rightarrow> (string \<Rightarrow> (world, dict) act) \<Rightarrow> string list \<Rightarrow>
     (world, (string \<times> dict) list \<times> (string \<times> string) list) act" where
  "estimate_backup_sizes E C size_fn ids =
     (let ordered = dedup_by (\<lambda>b. b) [] (filter (\<lambda>b. b \<noteq> []) (map strip ids)) in
      if ordered = [] then raise_act (bad_request ''backup_ids is required'')
      else if estimate_size_max < length ordered then
        raise_act (bad_request (''At most '' @ str_of_nat estimate_size_max @ '' backup_ids per request''))
      else bind_act (gross_sizes E C) (\<lambda>rows. estimate_each size_fn rows ordered))"

end
