(* ===== verification/ApiPlans.thy ===== *)
theory ApiPlans
  imports Api
begin

text \<open>
  The plan endpoints of the HTTP API (\<open>main.py\<close>): the stored groups, locations and plans, the readiness
  check, the preview of the members, starting a run or an assurance drill behind their gates, and
  cancelling and tearing down a run. An exception that is no \<open>HTTPException\<close> is answered with status 500.
\<close>

subsection \<open>Errors as status codes\<close>

definition refuse :: "bool \<Rightarrow> exn \<Rightarrow> ('s, unit) act" where
  "refuse b e = (if b then raise_act e else ret_act ())"

definition not_found :: "string \<Rightarrow> exn" where
  "not_found what = HTTPException 404 (what @ '' not found'')"

definition http_value_error :: "exn \<Rightarrow> exn" where
  "http_value_error e = (case e of ValueError m \<Rightarrow> bad_request m | _ \<Rightarrow> e)"

definition value_errors :: "('s, 'a) act \<Rightarrow> ('s, 'a) act" where
  "value_errors m = catch_act m (\<lambda>e. raise_act (http_value_error e))"

definition update_errors :: "string \<Rightarrow> ('s, 'a) act \<Rightarrow> ('s, 'a) act" where
  "update_errors what m =
     catch_act m (\<lambda>e. raise_act (case e of KeyError k \<Rightarrow> not_found what | _ \<Rightarrow> http_value_error e))"

text \<open>\<open>if not data\<close>: a missing document, or an empty one\<close>

definition found :: "dict option \<Rightarrow> dict option" where
  "found d = (case d of None \<Rightarrow> None | Some x \<Rightarrow> if x = [] then None else Some x)"

definition doc_or :: "exn \<Rightarrow> dict option \<Rightarrow> exn + dict" where
  "doc_or e d = (case found d of None \<Rightarrow> Inl e | Some x \<Rightarrow> Inr x)"

definition read_doc :: "exn \<Rightarrow> (world \<Rightarrow> dict option) \<Rightarrow> (world, dict) act" where
  "read_doc e get w = (doc_or e (get w), w)"

definition deleted_or :: "string \<Rightarrow> (world \<Rightarrow> bool \<times> world) \<Rightarrow> (world, unit) act" where
  "deleted_or what del w = (case del w of (ok, t) \<Rightarrow> (if ok then Inr () else Inl (not_found what), t))"

subsection \<open>Groups, locations and plans\<close>

definition api_create_group ::
  "env \<Rightarrow> cfg \<Rightarrow> (string \<Rightarrow> string option) \<Rightarrow> dict \<Rightarrow> (world, dict) act" where
  "api_create_group E C rx_error payload = value_errors (create_group E C rx_error payload)"

definition api_get_group :: "cfg \<Rightarrow> string \<Rightarrow> (world, dict) act" where
  "api_get_group C i = read_doc (not_found ''Group'') (get_group C i)"

definition api_update_group ::
  "env \<Rightarrow> cfg \<Rightarrow> (string \<Rightarrow> string option) \<Rightarrow> string \<Rightarrow> dict \<Rightarrow> (world, dict) act" where
  "api_update_group E C rx_error i payload = update_errors ''Group'' (update_group E C rx_error i payload)"

definition api_delete_group :: "cfg \<Rightarrow> string \<Rightarrow> (world, unit) act" where
  "api_delete_group C i = deleted_or ''Group'' (delete_group C i)"

definition api_create_location :: "env \<Rightarrow> cfg \<Rightarrow> dict \<Rightarrow> (world, dict) act" where
  "api_create_location E C payload = value_errors (create_location E C payload)"

definition api_get_location :: "cfg \<Rightarrow> string \<Rightarrow> (world, dict) act" where
  "api_get_location C i = read_doc (not_found ''Location'') (get_location C i)"

definition api_update_location :: "env \<Rightarrow> cfg \<Rightarrow> string \<Rightarrow> dict \<Rightarrow> (world, dict) act" where
  "api_update_location E C i payload = update_errors ''Location'' (update_location E C i payload)"

definition api_delete_location :: "cfg \<Rightarrow> string \<Rightarrow> (world, unit) act" where
  "api_delete_location C i = deleted_or ''Location'' (delete_location C i)"

definition unknown_group :: "string \<Rightarrow> exn" where
  "unknown_group i = bad_request (''Unknown group_id: '' @ i)"

definition unknown_location :: "string \<Rightarrow> exn" where
  "unknown_location i = bad_request (''Unknown location_id: '' @ i)"

definition check_refs :: "cfg \<Rightarrow> string list \<Rightarrow> string list \<Rightarrow> (world, unit) act" where
  "check_refs C gids lids =
     bind_act (each_act (\<lambda>g. bind_act (read_doc (unknown_group g) (get_group C g)) (\<lambda>_. ret_act ())) gids) (\<lambda>_.
     each_act (\<lambda>l. bind_act (read_doc (unknown_location l) (get_location C l)) (\<lambda>_. ret_act ())) lids)"

definition api_create_plan :: "env \<Rightarrow> cfg \<Rightarrow> dict \<Rightarrow> (world, dict) act" where
  "api_create_plan E C payload =
     bind_act (check_refs C (strs_of (dget payload ''group_ids'')) [py_str (dget payload ''location_id'')]) (\<lambda>_.
     value_errors (create_plan E C payload))"

definition api_get_plan :: "cfg \<Rightarrow> string \<Rightarrow> (world, dict) act" where
  "api_get_plan C i = read_doc (not_found ''Plan'') (get_plan C i)"

text \<open>The payload has the fields that the request sets.\<close>

definition api_update_plan :: "env \<Rightarrow> cfg \<Rightarrow> string \<Rightarrow> dict \<Rightarrow> (world, dict) act" where
  "api_update_plan E C i payload =
     (if payload = [] then raise_act (bad_request ''No plan fields to update'')
      else bind_act (check_refs C (strs_of (dget payload ''group_ids''))
                       (if has_key payload ''location_id'' then [py_str (dget payload ''location_id'')] else [])) (\<lambda>_.
           update_errors ''Plan'' (update_plan E C i payload)))"

definition api_delete_plan :: "cfg \<Rightarrow> string \<Rightarrow> (world, unit) act" where
  "api_delete_plan C i = deleted_or ''Plan'' (delete_plan C i)"

subsection \<open>Readiness\<close>

definition api_checkers ::
  "env \<Rightarrow> cfg \<Rightarrow> (string \<Rightarrow> string \<Rightarrow> bool option) \<Rightarrow> open_reader \<Rightarrow> (int \<Rightarrow> bytes) \<Rightarrow> checkers" where
  "api_checkers E C rx open_reader zero_digest =
     \<lparr>ck_search = rx, ck_tags = (\<lambda>rows node. api_resolve_tags E C rows node False),
      ck_size = estimate_fidx_usage_cached E C open_reader zero_digest\<rparr>"

definition api_check_plan ::
  "env \<Rightarrow> cfg \<Rightarrow> checkers \<Rightarrow> string \<Rightarrow> string option \<Rightarrow> (world, dict \<times> dict) act" where
  "api_check_plan E C K plan_id at_or_before =
     bind_act (read_doc (not_found ''Plan'') (get_plan C plan_id)) (\<lambda>plan.
     catch_act (run_plan_readiness E C K plan (normalize_cutoff at_or_before) True)
       (\<lambda>e. raise_act (HTTPException 500 (public_error_message e ''Readiness check failed''))))"

subsection \<open>The members of a plan\<close>

definition plan_group_docs :: "cfg \<Rightarrow> string list \<Rightarrow> world \<Rightarrow> exn + dict list" where
  "plan_group_docs C gids w =
     map_res (\<lambda>g. doc_or (bad_request (''Missing group in plan: '' @ g)) (get_group C g w)) gids"

definition plan_tags ::
  "env \<Rightarrow> cfg \<Rightarrow> dict list \<Rightarrow> dict list \<Rightarrow> string \<Rightarrow> string \<Rightarrow> (world, tag_map) act" where
  "plan_tags E C groups backups cutoff node =
     (if \<not> need_tags groups then ret_act []
      else bind_act (res_act (latest_per_vmid cutoff [] backups)) (\<lambda>best.
           bind_act (api_resolve_tags E C (map snd best) node False) (\<lambda>(tags, errs). ret_act tags)))"

definition resolve_plan_group_rows ::
  "env \<Rightarrow> cfg \<Rightarrow> (string \<Rightarrow> string \<Rightarrow> bool option) \<Rightarrow> dict \<Rightarrow> string \<Rightarrow> string \<Rightarrow> (world, dict list list) act" where
  "resolve_plan_group_rows E C rx plan cutoff node =
     bind_act (list_vm_backups E C) (\<lambda>backups.
     bind_act (res_act (res_bind (need_key plan ''group_ids'') py_iter)) (\<lambda>gids.
     bind_act (\<lambda>w. (plan_group_docs C (map py_str gids) w, w)) (\<lambda>groups.
     bind_act (plan_tags E C groups backups cutoff node) (\<lambda>tags.
     res_act (map_res (\<lambda>g. resolve_group_rows rx g backups cutoff tags) groups)))))"

definition member_preview_row :: "dict \<Rightarrow> exn + dict" where
  "member_preview_row row =
     res_bind (int_or_zero row ''vmid'') (\<lambda>v.
     res_bind (if dget row ''size_bytes'' = PNone then Inr PNone
               else res_bind (int_or_zero row ''size_bytes'') (\<lambda>n. Inr (PInt n))) (\<lambda>sz.
     Inr [(''vmid'', PInt v), (''name'', PStr (str_or_empty (dget row ''name''))),
          (''backup_id'', PStr (str_or_empty (dget row ''backup_id''))),
          (''timestamp'', PStr (str_or_empty (dget row ''timestamp''))), (''size_bytes'', sz),
          (''source_id'', PStr (str_or_empty (py_or (dget row ''source_id'') (dget row ''server_id''))))]))"

definition optional_str :: "string option \<Rightarrow> pyval" where
  "optional_str v = (case v of None \<Rightarrow> PNone | Some s \<Rightarrow> PStr s)"

definition asked_location :: "string option \<Rightarrow> dict \<Rightarrow> exn + string" where
  "asked_location given plan =
     py_strip (py_or (optional_str given) (py_or (dget plan ''location_id'') (PStr [])))"

record member_group =
  mg_group_id :: string
  mg_group_name :: string
  mg_members :: "dict list"

text \<open>The groups of the preview; the flat list of the members is their concatenation.\<close>

definition preview_group :: "cfg \<Rightarrow> string \<times> dict list \<Rightarrow> (world, member_group) act" where
  "preview_group C = (\<lambda>(gid, rows).
     bind_act (get_act (\<lambda>w. case get_group C gid w of None \<Rightarrow> [] | Some g \<Rightarrow> g)) (\<lambda>g.
     bind_act (res_act (map_res member_preview_row rows)) (\<lambda>members. ret_act
       \<lparr>mg_group_id = gid, mg_group_name = py_str (py_or (dget g ''name'') (PStr gid)), mg_members = members\<rparr>)))"

definition api_preview_plan_members ::
  "env \<Rightarrow> cfg \<Rightarrow> (string \<Rightarrow> string \<Rightarrow> bool option) \<Rightarrow> string \<Rightarrow> string option \<Rightarrow> string option \<Rightarrow>
     (world, member_group list) act" where
  "api_preview_plan_members E C rx plan_id at_or_before location0 =
     bind_act (read_doc (not_found ''Plan'') (get_plan C plan_id)) (\<lambda>plan.
     bind_act (res_act (asked_location location0 plan)) (\<lambda>lid.
     bind_act (read_doc (unknown_location (or_default lid ''(empty)''))
                 (\<lambda>w. if lid = [] then None else get_location C lid w)) (\<lambda>location.
     bind_act (catch_act
        (bind_act (res_act (need_str location ''node''))
           (resolve_plan_group_rows E C rx plan (normalize_cutoff at_or_before)))
        (\<lambda>e. raise_act (case e of HTTPException c m \<Rightarrow> e
                | _ \<Rightarrow> HTTPException 500 (public_error_message e ''Failed to resolve members'')))) (\<lambda>group_rows.
     bind_act (res_act (iter_or_empty (dget plan ''group_ids''))) (\<lambda>gids.
     map_act (preview_group C) (zip (map py_str gids) group_rows))))))"

subsection \<open>Starting a run\<close>

record run_request =
  pb_at_or_before :: "string option"
  pb_location :: "string option"
  pb_drill :: bool
  pb_auto_teardown :: bool
  pb_powered_off :: "bool option"
  pb_power_on :: bool
  pb_qga_wait_sec :: int
  pb_allow_unverified :: bool
  pb_confirm_dr :: bool
  pb_overwrite :: bool
  pb_confirm_overwrite :: bool
  pb_allow_non_isolated :: bool

definition run_body_ok :: "run_request \<Rightarrow> bool" where
  "run_body_ok body \<longleftrightarrow> 0 \<le> pb_qga_wait_sec body \<and> pb_qga_wait_sec body \<le> 3600"

definition require_verified_to_run :: "cfg \<Rightarrow> bool" where
  "require_verified_to_run C \<longleftrightarrow>
     truthy (dget_or (plans_cfg C) ''require_verified_to_run''
              (dget_or (worker_cfg C) ''require_verified_to_run'' (PBool False)))"

definition disabled_error :: exn where
  "disabled_error = bad_request ''Plan is disabled''"

definition unverified_error :: exn where
  "unverified_error = bad_request ''Plan is not VERIFIED; run Check first or pass allow_unverified=true''"

definition plan_unverified :: "cfg \<Rightarrow> dict \<Rightarrow> bool \<Rightarrow> bool" where
  "plan_unverified C plan allow_unverified \<longleftrightarrow>
     require_verified_to_run C \<and> dget plan ''verification'' \<noteq> PStr (verification_value VERIFIED) \<and> \<not> allow_unverified"

definition location_mode_of :: "dict \<Rightarrow> string" where
  "location_mode_of location = lower (strip (py_str (py_or (dget location ''restore_mode'') (PStr ''normal''))))"

definition location_net :: "dict \<Rightarrow> string" where
  "location_net location = py_str (py_or (dget location ''network_mode'') (PStr ''none''))"

definition dr_gate :: "string \<Rightarrow> dict \<Rightarrow> bool \<Rightarrow> bool \<Rightarrow> bool \<Rightarrow> exn + unit" where
  "dr_gate detail location confirm_dr overwrite confirm_overwrite =
     (if location_mode_of location = ''dr'' \<and> \<not> confirm_dr then Inl (bad_request detail)
      else assert_overwrite_confirm overwrite confirm_overwrite (location_mode_of location))"

definition wants_power :: "dict \<Rightarrow> run_request \<Rightarrow> bool" where
  "wants_power location body \<longleftrightarrow> pb_power_on body \<or> (\<not> pb_drill body \<and> truthy (dget location ''power_on''))"

definition wants_live :: "dict \<Rightarrow> run_request \<Rightarrow> bool" where
  "wants_live location body \<longleftrightarrow>
     truthy (dget location ''live_restore'') \<and> \<not> pb_drill body \<and> pb_powered_off body \<noteq> Some True"

definition run_gate :: "dict \<Rightarrow> run_request \<Rightarrow> exn + unit" where
  "run_gate location body =
     res_bind (dr_gate ''DR location requires confirm_dr=true (keeps source VMIDs/MACs/UUIDs)'' location
        (pb_confirm_dr body) (pb_overwrite body) (pb_confirm_overwrite body)) (\<lambda>_.
     if wants_power location body \<or> wants_live location body \<or> 0 < pb_qga_wait_sec body then
       res_bind (py_int (py_or (py_or (PInt (pb_qga_wait_sec body)) (dget location ''qga_wait_sec'')) (PInt 0))) (\<lambda>qga.
       assert_power_on_isolation (wants_power location body) qga (wants_live location body) (location_net location)
         (truthy (dget location ''isolated'')) (pb_allow_non_isolated body))
     else Inr ())"

definition run_start_args :: "run_request \<Rightarrow> start_args" where
  "run_start_args body =
     \<lparr>sa_drill = pb_drill body, sa_auto_teardown = pb_auto_teardown body, sa_powered_off = pb_powered_off body,
      sa_power_on = pb_power_on body, sa_qga_wait_sec = pb_qga_wait_sec body, sa_overwrite = pb_overwrite body\<rparr>"

definition no_backups_error :: exn where
  "no_backups_error = bad_request ''Plan resolved to zero backups at this point in time''"

text \<open>The rows of the groups, the start, and the audit entry, for a run and for a drill\<close>

definition launch ::
  "env \<Rightarrow> cfg \<Rightarrow> (string \<Rightarrow> string \<Rightarrow> bool option) \<Rightarrow> string option \<Rightarrow> dict \<Rightarrow> dict \<Rightarrow> string option \<Rightarrow> start_args \<Rightarrow>
     string \<Rightarrow> (plan_run \<Rightarrow> dict) \<Rightarrow> (world, run_view) act" where
  "launch E C rx actor plan location at_or_before A action detail =
     bind_act (res_act (need_str location ''node'')) (\<lambda>node.
     bind_act (resolve_plan_group_rows E C rx plan (normalize_cutoff at_or_before) node) (\<lambda>group_rows.
     bind_act (refuse (\<forall>rows \<in> set group_rows. rows = []) no_backups_error) (\<lambda>_.
     bind_act (value_errors (start_plan_run E C (api_enqueue E C) plan location (normalize_cutoff at_or_before)
                 group_rows A)) (\<lambda>run.
     bind_act (audit_action E C actor action (detail run)) (\<lambda>_ w.
     (aggregate_plan_run C run w, w))))))"

definition api_run_plan ::
  "env \<Rightarrow> cfg \<Rightarrow> (string \<Rightarrow> string \<Rightarrow> bool option) \<Rightarrow> string option \<Rightarrow> string \<Rightarrow> run_request \<Rightarrow> (world, run_view) act" where
  "api_run_plan E C rx actor plan_id body =
     bind_act (read_doc (not_found ''Plan'') (get_plan C plan_id)) (\<lambda>plan.
     bind_act (refuse (\<not> plan_enabled plan) disabled_error) (\<lambda>_.
     bind_act (refuse (plan_unverified C plan (pb_allow_unverified body)) unverified_error) (\<lambda>_.
     bind_act (res_act (asked_location (pb_location body) plan)) (\<lambda>lid.
     bind_act (read_doc (unknown_location lid) (get_location C lid)) (\<lambda>location.
     bind_act (res_act (run_gate location body)) (\<lambda>_.
     launch E C rx actor plan location (pb_at_or_before body) (run_start_args body) ''plan.run''
       (\<lambda>run. [(''plan_id'', PStr plan_id), (''run_id'', PStr (pr_id run)), (''drill'', PBool (pb_drill body)),
               (''overwrite'', PBool (pb_overwrite body))])))))))"

subsection \<open>Starting an assurance drill\<close>

record assure_body =
  ab_at_or_before :: "string option"
  ab_allow_unverified :: bool
  ab_confirm_dr :: bool
  ab_allow_non_isolated :: bool
  ab_overwrite :: bool
  ab_confirm_overwrite :: bool

definition needs_boot :: "dict \<Rightarrow> bool" where
  "needs_boot plan \<longleftrightarrow> truthy (dget plan ''assurance_require_qga'') \<or> truthy (dget plan ''assurance_require_http'')"

definition assure_qga :: "cfg \<Rightarrow> dict \<Rightarrow> dict \<Rightarrow> exn + int" where
  "assure_qga C plan location =
     (if \<not> needs_boot plan then Inr 0
      else
        let own = max 0 (py_int_or (py_or (dget location ''qga_wait_sec'') (PInt 0)) 0) in
        if 0 < own then Inr own
        else res_bind (py_int (py_or (dget_or (worker_cfg C) ''qga_wait_sec_default'' (PInt 120)) (PInt 120)))
               (\<lambda>n. Inr (max 30 n)))"

definition assure_gate :: "cfg \<Rightarrow> dict \<Rightarrow> dict \<Rightarrow> assure_body \<Rightarrow> exn + int" where
  "assure_gate C plan location body =
     res_bind (dr_gate ''DR location requires confirm_dr=true for assurance runs'' location
        (ab_confirm_dr body) (ab_overwrite body) (ab_confirm_overwrite body)) (\<lambda>_.
     if truthy (dget plan ''assurance_require_http'') \<and> strip (str_or_empty (dget location ''http_check_url'')) = [] then
       Inl (bad_request ''assurance_require_http is set but location has no http_check_url'')
     else
       res_bind (assure_qga C plan location) (\<lambda>qga.
       res_bind (if needs_boot plan then
                   assert_power_on_isolation True qga False (location_net location)
                     (truthy (dget location ''isolated'')) (ab_allow_non_isolated body)
                 else Inr ()) (\<lambda>_. Inr qga)))"

definition assure_start_args :: "dict \<Rightarrow> int \<Rightarrow> bool \<Rightarrow> start_args" where
  "assure_start_args plan qga overwrite =
     \<lparr>sa_drill = True, sa_auto_teardown = True, sa_powered_off = Some (\<not> needs_boot plan),
      sa_power_on = needs_boot plan, sa_qga_wait_sec = qga, sa_overwrite = overwrite\<rparr>"

definition api_assure_plan ::
  "env \<Rightarrow> cfg \<Rightarrow> (string \<Rightarrow> string \<Rightarrow> bool option) \<Rightarrow> string option \<Rightarrow> string \<Rightarrow> assure_body \<Rightarrow> (world, run_view) act" where
  "api_assure_plan E C rx actor plan_id body =
     bind_act (read_doc (not_found ''Plan'') (get_plan C plan_id)) (\<lambda>plan.
     bind_act (refuse (\<not> plan_enabled plan) disabled_error) (\<lambda>_.
     bind_act (refuse (\<not> truthy (dget plan ''assurance_enabled''))
                 (bad_request ''Enable assurance on the plan first'')) (\<lambda>_.
     bind_act (refuse (plan_unverified C plan (ab_allow_unverified body)) unverified_error) (\<lambda>_.
     bind_act (read_doc (bad_request ''Plan location not found'')
                 (get_location C (str_or_empty (dget plan ''location_id'')))) (\<lambda>location.
     bind_act (res_act (assure_gate C plan location body)) (\<lambda>qga.
     launch E C rx actor plan location (ab_at_or_before body) (assure_start_args plan qga (ab_overwrite body))
       ''plan.assure'' (\<lambda>run. [(''plan_id'', PStr plan_id), (''run_id'', PStr (pr_id run))])))))))"

subsection \<open>Runs\<close>

definition api_list_plan_runs :: "cfg \<Rightarrow> string \<Rightarrow> int \<Rightarrow> (world, run_view list) act" where
  "api_list_plan_runs C plan_id cap w =
     (map_res (\<lambda>run. aggregate_plan_run C run w) (list_plan_runs C plan_id cap w), w)"

definition read_run :: "cfg \<Rightarrow> string \<Rightarrow> (world, plan_run) act" where
  "read_run C run_id w =
     (case get_plan_run C run_id w of None \<Rightarrow> Inl (not_found ''Plan run'') | Some run \<Rightarrow> Inr run, w)"

definition api_get_plan_run :: "cfg \<Rightarrow> string \<Rightarrow> (world, run_view) act" where
  "api_get_plan_run C run_id = bind_act (read_run C run_id) (\<lambda>run w. (aggregate_plan_run C run w, w))"

definition api_cancel_plan_run :: "env \<Rightarrow> cfg \<Rightarrow> string \<Rightarrow> (world, run_view) act" where
  "api_cancel_plan_run E C run_id = value_errors (cancel_plan_run E C run_id)"

definition api_teardown_plan_run :: "env \<Rightarrow> cfg \<Rightarrow> string \<Rightarrow> bool \<Rightarrow> (world, run_view) act" where
  "api_teardown_plan_run E C run_id force =
     bind_act (read_run C run_id) (\<lambda>run.
     bind_act (refuse (pr_status run = R_RUNNING \<and> \<not> force)
                 (bad_request ''Plan run is still RUNNING; cancel it first or pass force=true'')) (\<lambda>_.
     bind_act (catch_act
        (bind_act (if pr_status run = R_RUNNING then
                     bind_act (cancel_plan_run E C run_id) (\<lambda>_.
                       get_act (\<lambda>w. case get_plan_run C run_id w of None \<Rightarrow> run | Some r \<Rightarrow> r))
                   else ret_act run) (\<lambda>run'.
         teardown_plan_run E C run'))
        (\<lambda>e. raise_act (case e of ValueError m \<Rightarrow> bad_request m
                | _ \<Rightarrow> HTTPException 502 (public_error_message e ''Teardown failed'')))) (\<lambda>run' w.
     (aggregate_plan_run C run' w, w))))"

subsection \<open>Reports\<close>

definition api_get_report :: "cfg \<Rightarrow> string \<Rightarrow> (world, dict) act" where
  "api_get_report C i = read_doc (not_found ''Report'') (get_report C i)"

end
