(* ===== verification/ApiJobs.thy ===== *)
theory ApiJobs
  imports ApiPlans JobRun QueueCtl
begin

text \<open>
  The job endpoints of the HTTP API (\<open>main.py\<close>): the record of a job as it is shown, listing, reading and
  stopping jobs, the queue controls, the defaults of the restore form, the health of the components, and the
  check of the session secret at startup.
\<close>

subsection \<open>The record of a job\<close>

record api_job =
  ja_job_id :: string
  ja_state :: string
  ja_backup_id :: string
  ja_vm_name :: string
  ja_source_vmid :: int
  ja_source_label :: string
  ja_proxmox_vmid :: int
  ja_proxmox_node :: string
  ja_proxmox_storage :: string
  ja_live_restore :: bool
  ja_bwlimit :: int
  ja_restore_mode :: string
  ja_power_on :: bool
  ja_qga_wait_sec :: int
  ja_qga_ok :: string
  ja_qga_waited_sec :: string
  ja_network_mode :: string
  ja_lab_bridge :: string
  ja_overwrite :: bool
  ja_http_check_url :: string
  ja_http_check_ok :: string
  ja_progress :: int
  ja_error :: string
  ja_created_at :: string
  ja_updated_at :: string
  ja_restore_started_at :: string
  ja_bytes_done :: int
  ja_bytes_total :: int
  ja_speed_bps :: int
  ja_eta_sec :: "int option"
  ja_pve_status_text :: string
  ja_pve_upid :: string
  ja_archive :: string
  ja_plan_run_id :: string
  ja_plan_group_index :: string
  ja_backup_size_bytes :: int
  ja_network_bytes_done :: int
  ja_network_speed_bps :: int
  ja_nonzero_bytes_done :: int
  ja_nonzero_speed_bps :: int
  ja_wire_compression_ratio :: rat
  ja_wire_sample_chunks :: int
  ja_disk_sparsity_ratio :: rat

text \<open>\<open>safe_int\<close> and \<open>safe_float\<close> of a field that may be missing\<close>

definition hvalue :: "hash \<Rightarrow> string \<Rightarrow> pyval" where
  "hvalue h f = (case map_of h f of None \<Rightarrow> PNone | Some v \<Rightarrow> PStr v)"

definition safe_int :: "pyval \<Rightarrow> int \<Rightarrow> int" where
  "safe_int v dflt = (case py_int v of Inr n \<Rightarrow> n | Inl e \<Rightarrow> dflt)"

definition safe_float :: "pyval \<Rightarrow> rat \<Rightarrow> rat" where
  "safe_float v dflt = (case py_float v of Inr x \<Rightarrow> x | Inl e \<Rightarrow> dflt)"

definition eta_field :: "hash \<Rightarrow> int option" where
  "eta_field h =
     (let raw = strip (hfield h ''eta_sec'') in
      if raw = [] then None else case py_int (PStr raw) of Inr n \<Rightarrow> Some n | Inl e \<Rightarrow> None)"

definition mode_field :: "hash \<Rightarrow> string \<Rightarrow> string \<Rightarrow> string" where
  "mode_field h f dflt = or_default (lower (strip (or_default (hfield h f) dflt))) dflt"

definition hash_to_record :: "hash \<Rightarrow> exn + api_job" where
  "hash_to_record h =
     (case map_of h ''job_id'' of
        None \<Rightarrow> Inl (KeyError ''job_id'')
      | Some job_id \<Rightarrow> Inr
     \<lparr>ja_job_id = job_id, ja_state = hfield h ''state'', ja_backup_id = hfield h ''backup_id'',
      ja_vm_name = hfield h ''vm_name'', ja_source_vmid = safe_int (hvalue h ''source_vmid'') 0,
      ja_source_label = hfield h ''source_label'', ja_proxmox_vmid = safe_int (hvalue h ''proxmox_vmid'') 0,
      ja_proxmox_node = hfield h ''proxmox_node'', ja_proxmox_storage = hfield h ''proxmox_storage'',
      ja_live_restore = (hfield h ''live_restore'' = ''1''), ja_bwlimit = safe_int (hvalue h ''bwlimit'') 0,
      ja_restore_mode = mode_field h ''restore_mode'' ''normal'', ja_power_on = (hfield h ''power_on'' = ''1''),
      ja_qga_wait_sec = safe_int (hvalue h ''qga_wait_sec'') 0, ja_qga_ok = hfield h ''qga_ok'',
      ja_qga_waited_sec = hfield h ''qga_waited_sec'', ja_network_mode = mode_field h ''network_mode'' ''none'',
      ja_lab_bridge = hfield h ''lab_bridge'', ja_overwrite = (hfield h ''overwrite'' = ''1''),
      ja_http_check_url = hfield h ''http_check_url'', ja_http_check_ok = hfield h ''http_check_ok'',
      ja_progress = safe_int (hvalue h ''progress'') 0, ja_error = hfield h ''error'',
      ja_created_at = hfield h ''created_at'', ja_updated_at = hfield h ''updated_at'',
      ja_restore_started_at = hfield h ''restore_started_at'', ja_bytes_done = safe_int (hvalue h ''bytes_done'') 0,
      ja_bytes_total = safe_int (hvalue h ''bytes_total'') 0, ja_speed_bps = safe_int (hvalue h ''speed_bps'') 0,
      ja_eta_sec = eta_field h, ja_pve_status_text = hfield h ''pve_status_text'',
      ja_pve_upid = hfield h ''pve_upid'', ja_archive = hfield h ''archive'',
      ja_plan_run_id = hfield h ''plan_run_id'', ja_plan_group_index = hfield h ''plan_group_index'',
      ja_backup_size_bytes = safe_int (hvalue h ''backup_size_bytes'') 0,
      ja_network_bytes_done = safe_int (hvalue h ''network_bytes_done'') 0,
      ja_network_speed_bps = safe_int (hvalue h ''network_speed_bps'') 0,
      ja_nonzero_bytes_done = safe_int (hvalue h ''nonzero_bytes_done'') 0,
      ja_nonzero_speed_bps = safe_int (hvalue h ''nonzero_speed_bps'') 0,
      ja_wire_compression_ratio = safe_float (hvalue h ''wire_compression_ratio'') 0,
      ja_wire_sample_chunks = safe_int (hvalue h ''wire_sample_chunks'') 0,
      ja_disk_sparsity_ratio = safe_float (hvalue h ''disk_sparsity_ratio'') 0\<rparr>)"

subsection \<open>Reading and stopping jobs\<close>

definition list_jobs ::
  "cfg \<Rightarrow> string option \<Rightarrow> int \<Rightarrow> int \<Rightarrow> 'x store_scheme \<Rightarrow> exn + api_job page" where
  "list_jobs C state offset cap s =
     res_bind (collect_jobs C state hash_to_record ja_state ja_created_at s) (\<lambda>js. Inr (paginate js offset cap))"

definition job_not_found :: exn where
  "job_not_found = HTTPException 404 ''Job not found''"

definition get_job :: "cfg \<Rightarrow> string \<Rightarrow> ('x store_scheme, api_job) act" where
  "get_job C job_id s =
     (let data = hgetall (job_key C job_id) s
      in (if data = [] then Inl job_not_found else hash_to_record data, s))"

text \<open>The flag and the removal from the queue are one transaction.\<close>

definition flag_stop :: "cfg \<Rightarrow> string \<Rightarrow> 'x store_scheme \<Rightarrow> 'x store_scheme" where
  "flag_stop C job_id s =
     lrem_all (queue_key C) job_id (hset (job_key C job_id) [(''cancel_requested'', ''1'')] s)"

definition stop_pending :: "env \<Rightarrow> cfg \<Rightarrow> string \<Rightarrow> 'x store_scheme \<Rightarrow> 'x store_scheme" where
  "stop_pending E C job_id s =
     (if map_of (hgetall (job_key C job_id) s) ''state'' = Some (state_value PENDING)
      then hset (job_key C job_id) [(''state'', state_value CANCELLED), (''updated_at'', utc_now_iso E s)] s
      else s)"

definition stop_job :: "env \<Rightarrow> cfg \<Rightarrow> string \<Rightarrow> ('x store_scheme, api_job) act" where
  "stop_job E C job_id s =
     (let key = job_key C job_id; data = hgetall key s;
          state = (case map_of data ''state'' of None \<Rightarrow> state_value PENDING | Some v \<Rightarrow> v)
      in if data = [] then (Inl job_not_found, s)
         else if state \<in> {state_value COMPLETED, state_value FAILED, state_value CANCELLED} then (hash_to_record data, s)
         else
           let t = stop_pending E C job_id (flag_stop C job_id s)
           in (hash_to_record (hgetall key t), t))"

subsection \<open>Queue controls\<close>

definition max_concurrent_from_cfg :: "cfg \<Rightarrow> exn + int" where
  "max_concurrent_from_cfg C =
     res_bind (py_int (py_or (dget_or (worker_cfg C) ''max_concurrent_restores'' (PInt 2)) (PInt 2))) (\<lambda>n. Inr (max 1 n))"

definition jobs_stats :: "cfg \<Rightarrow> ('x store_scheme, job_stats) act" where
  "jobs_stats C s = (res_bind (max_concurrent_from_cfg C) (\<lambda>n. Inr (collect_job_stats C n s)), s)"

definition queue_pause :: "cfg \<Rightarrow> ('x store_scheme, job_stats) act" where
  "queue_pause C = bind_act (upd_act (set_queue_paused C True)) (\<lambda>_. jobs_stats C)"

definition queue_resume :: "cfg \<Rightarrow> ('x store_scheme, job_stats) act" where
  "queue_resume C = bind_act (upd_act (set_queue_paused C False)) (\<lambda>_. jobs_stats C)"

definition queue_stop :: "env \<Rightarrow> cfg \<Rightarrow> ('x store_scheme, job_stats \<times> string list) act" where
  "queue_stop E C =
     bind_act (\<lambda>s. case drain_pending_jobs E C s of (ids, t) \<Rightarrow> (Inr ids, t)) (\<lambda>ids.
     bind_act (jobs_stats C) (\<lambda>stats. ret_act (stats, ids)))"

subsection \<open>Defaults of the restore form\<close>

definition next_free_vmid :: "int list \<Rightarrow> int" where
  "next_free_vmid used = max (if used \<noteq> [] then Max (set used) + 1 else 100) 100"

definition form_numbers :: "cfg \<Rightarrow> exn + int \<times> int \<times> int" where
  "form_numbers C =
     res_bind (py_int (py_or (dget_or (proxmox_cfg C) ''restore_bwlimit'' (PInt 0)) (PInt 0))) (\<lambda>bw.
     res_bind (py_int (py_or (dget_or (worker_cfg C) ''qga_wait_sec_default''
        (dget_or (proxmox_cfg C) ''qga_wait_sec_default'' (PInt 120))) (PInt 0))) (\<lambda>qga.
     res_bind (py_int (py_or (dget_or (worker_cfg C) ''max_concurrent_restores'' (PInt 2)) (PInt 2))) (\<lambda>mc.
     Inr (bw, qga, mc))))"

definition restore_defaults :: "env \<Rightarrow> cfg \<Rightarrow> string option \<Rightarrow> ('x store_scheme, dict) act" where
  "restore_defaults E C node0 =
     bind_act (res_act (py_strip (py_or (optional_str node0) (py_or (dget (proxmox_cfg C) ''default_node'') (PStr []))))) (\<lambda>node.
     bind_act (res_act (form_numbers C)) (\<lambda>(bw, qga, mc).
     bind_act (catch_act
        (bind_act (connect_proxmox E C) (\<lambda>_.
         bind_act (qemu_vmids_in_use_cluster E) (\<lambda>used. ret_act (next_free_vmid (sorted_list_of_set used)))))
        (\<lambda>e. ret_act 100)) (\<lambda>next_free. ret_act
       [(''storage'', dget_or (proxmox_cfg C) ''storage'' (PStr ''local-lvm'')),
        (''default_node'', if node \<noteq> [] then PStr node else dget_or (proxmox_cfg C) ''default_node'' (PStr [])),
        (''next_free_proxmox_vmid'', PInt next_free), (''bwlimit'', PInt bw),
        (''live_restore'', bool_field (proxmox_cfg C) ''live_restore_default'' False),
        (''power_on'', bool_field (proxmox_cfg C) ''power_on_default'' False), (''qga_wait_sec'', PInt qga),
        (''max_concurrent_restores'', PInt mc),
        (''require_verified_to_run'', PBool (require_verified_to_run C))])))"

subsection \<open>Startup and health\<close>

definition default_session_secret :: string where
  "default_session_secret = ''dev-insecure-session-secret-change-me''"

definition min_session_secret_len :: nat where "min_session_secret_len = 32"

text \<open>\<open>ui\<close> is the section of that name.\<close>

definition validate_session_secret :: "dict \<Rightarrow> exn + unit" where
  "validate_session_secret ui =
     (let secret = str_strip ui ''session_secret'' in
      if str_strip ui ''password'' = [] then Inr ()
      else if secret = [] then
        Inl (RuntimeError (''ui.session_secret is required when ui.password is set '' @
          ''(minimum '' @ str_of_nat min_session_secret_len @ '' characters)''))
      else if length secret < min_session_secret_len then
        Inl (RuntimeError (''ui.session_secret must be at least '' @ str_of_nat min_session_secret_len @ '' characters''))
      else if secret = default_session_secret then
        Inl (RuntimeError ''ui.session_secret must not use the default dev placeholder; set a unique random value'')
      else Inr ())"

definition load_session_secret :: "dict \<Rightarrow> exn + string" where
  "load_session_secret ui =
     (let secret = str_strip ui ''session_secret'' in
      if secret \<noteq> [] then Inr secret
      else if str_strip ui ''password'' \<noteq> [] then
        Inl (RuntimeError ''ui.session_secret is required when ui.password is set'')
      else Inr default_session_secret)"

text \<open>
  The configuration file may fail to load. One that loads has the keys of \<open>cfg\<close>, so its Redis section is
  not empty; Redis itself answers here.
\<close>

record health =
  he_ok :: bool
  he_config :: "bool \<times> string"
  he_pbs :: "bool \<times> string"
  he_proxmox :: "bool \<times> string"
  he_redis :: "bool \<times> string"

definition missing_sections :: "cfg \<Rightarrow> string list" where
  "missing_sections C =
     (if pbs_cfg C = [] \<and> \<not> truthy (pbs_servers C) then [''pbs_servers''] else []) @
     (if proxmox_cfg C = [] then [''proxmox''] else [])"

definition config_health :: "exn + cfg \<Rightarrow> bool \<times> string" where
  "config_health loaded =
     (case loaded of
        Inl e \<Rightarrow> (False, public_error_message e ''config load failed'')
      | Inr C \<Rightarrow> if missing_sections C \<noteq> []
                 then (False, ''missing config sections: '' @ join_on '', '' (missing_sections C))
                 else (True, ''loaded''))"

definition not_loaded :: "bool \<times> string" where "not_loaded = (False, ''config not loaded'')"

definition health_check :: "env \<Rightarrow> exn + cfg \<Rightarrow> (world, int \<times> health) act" where
  "health_check E loaded =
     bind_act (case loaded of
         Inr C \<Rightarrow> if fst (config_health loaded) then
                    bind_act (probe_pbs_connection E C) (\<lambda>pbs.
                    bind_act (test_proxmox_connection E C) (\<lambda>pve. ret_act (pbs, pve)))
                  else ret_act (not_loaded, not_loaded)
       | Inl e \<Rightarrow> ret_act (not_loaded, not_loaded)) (\<lambda>(pbs, pve).
     let ok = fst (config_health loaded) \<and> fst pbs \<and> fst pve in
     ret_act (if ok then 200 else 503,
       \<lparr>he_ok = ok, he_config = config_health loaded, he_pbs = pbs, he_proxmox = pve, he_redis = (True, ''reachable'')\<rparr>))"

text \<open>
  A configuration with servers but without a usable mount has no source. The text that the connection test
  has for this case is not reached: the row lacks the label, and the health check answers with an error.
\<close>

lemma no_sources_crash:
  assumes "load_sources C = Inr []"
  shows "probe_pbs_connection E C s = (Inl (KeyError ''label''), s)"
  by (simp add: probe_pbs_connection_def probe_all_sources_def assms bind_act_def res_act_def ret_act_def need_key_def
      row_ok_def dget_def dget_or_def)

lemma health_without_sources:
  "pbs_servers C = PList [PDict []] \<Longrightarrow> pbs_cfg C = [] \<Longrightarrow> proxmox_cfg C \<noteq> [] \<Longrightarrow>
     health_check E (Inr C) w = (Inl (KeyError ''label''), w)"
proof -
  assume p: "pbs_servers C = PList [PDict []]" "pbs_cfg C = []" "proxmox_cfg C \<noteq> []"
  then have "load_sources C = Inr []"
    by (simp add: load_sources_def indexed_dicts_def List.map_filter_def sources_from_server_def iter_or_empty_def
        legacy_sources_def str_strip_def dget_def dget_or_def py_or_def)
  with p show ?thesis
    by (simp add: health_check_def config_health_def missing_sections_def bind_act_def no_sources_crash)
qed

subsection \<open>Stopping a job\<close>

lemma queue_after_lrem [simp]:
  "lrange_all k (lrem_all key x s) = (if k = key then filter (\<lambda>y. y \<noteq> x) (lrange_all k s) else lrange_all k s)"
  by (simp add: lrem_all_def lookup_simps)

lemma lrem_other_keys [simp]: "hashes (lrem_all key x s) = hashes s" "calls (lrem_all key x s) = calls s"
  by (simp_all add: lrem_all_def)

lemma hgetall_lrem [simp]: "hgetall k (lrem_all key x s) = hgetall k s"
  by (simp add: hgetall_def)

lemma flag_stop_field:
  "map_of (hgetall k (flag_stop C j s)) f =
     (if k = job_key C j \<and> f = ''cancel_requested'' then Some ''1'' else map_of (hgetall k s) f)"
  by (simp add: flag_stop_def hget_hset)

lemma stop_pending_field:
  "map_of (hgetall (job_key C j) (stop_pending E C j s)) f =
     (if map_of (hgetall (job_key C j) s) ''state'' = Some (state_value PENDING) \<and> f = ''state'' then Some (state_value CANCELLED)
      else if map_of (hgetall (job_key C j) s) ''state'' = Some (state_value PENDING) \<and> f = ''updated_at'' then Some (utc_now_iso E s)
      else map_of (hgetall (job_key C j) s) f)"
  by (auto simp: stop_pending_def hget_hset)

lemma stop_pending_frame:
  "k \<noteq> job_key C j \<Longrightarrow> hgetall k (stop_pending E C j s) = hgetall k s"
  "rlists (stop_pending E C j s) = rlists s" "calls (stop_pending E C j s) = calls s"
  by (simp_all add: stop_pending_def hgetall_hset)

lemma hash_to_record_state:
  "map_of h ''job_id'' = Some i \<Longrightarrow> \<exists>r. hash_to_record h = Inr r \<and> ja_state r = hfield h ''state''"
  by (simp add: hash_to_record_def)

text \<open>C23: Stopping a job settles it. A finished job is shown as it is and nothing changes. A job that waits or
  runs leaves the queue, whose other jobs keep their order, and gets the cancellation flag; a waiting one is
  CANCELLED at once, and the answer shows its new state. No other job changes and Proxmox is not called;
  and a worker that had taken the job from the queue before makes no call for it and leaves it CANCELLED.\<close>

theorem stop_job_settles:
  assumes "map_of (hgetall (job_key C j) s) ''state'' = Some st" "map_of (hgetall (job_key C j) s) ''job_id'' = Some j"
  shows "\<exists>r t. stop_job E C j s = (Inr r, t) \<and> ja_state r = job_state (job_key C j) t \<and> calls t = calls s \<and>
    (\<forall>k. k \<noteq> job_key C j \<longrightarrow> hgetall k t = hgetall k s) \<and>
    (st \<in> {state_value COMPLETED, state_value FAILED, state_value CANCELLED} \<longrightarrow> t = s) \<and>
    (st \<notin> {state_value COMPLETED, state_value FAILED, state_value CANCELLED} \<longrightarrow>
       lrange_all (queue_key C) t = filter (\<lambda>i. i \<noteq> j) (lrange_all (queue_key C) s) \<and>
       job_state (job_key C j) t = (if st = state_value PENDING then state_value CANCELLED else st) \<and>
       (\<exists>u. run_job E C metrics j t = (Inr (), u) \<and> calls u = calls t \<and> job_state (job_key C j) u = state_value CANCELLED))"
proof (cases "st \<in> {state_value COMPLETED, state_value FAILED, state_value CANCELLED}")
  case True
  obtain r where "hash_to_record (hgetall (job_key C j) s) = Inr r" "ja_state r = hfield (hgetall (job_key C j) s) ''state''"
    using hash_to_record_state [OF assms(2)] by blast
  with True assms show ?thesis by (auto simp: stop_job_def Let_def job_state_def)
next
  case False
  let ?f = "flag_stop C j s" and ?key = "job_key C j"
  let ?t = "stop_pending E C j ?f"
  have st: "map_of (hgetall ?key ?t) ''state'' = Some (if st = state_value PENDING then state_value CANCELLED else st)"
    "map_of (hgetall ?key ?t) ''job_id'' = Some j" "map_of (hgetall ?key ?t) ''cancel_requested'' = Some ''1''"
    using assms by (simp_all add: stop_pending_field flag_stop_field)
  obtain r where r: "hash_to_record (hgetall ?key ?t) = Inr r" "ja_state r = hfield (hgetall ?key ?t) ''state''"
    using hash_to_record_state [OF st(2)] by blast
  have run: "stop_job E C j s = (Inr r, ?t)"
    using False assms r(1) by (auto simp: stop_job_def Let_def)
  have frame: "\<forall>k. k \<noteq> ?key \<longrightarrow> hgetall k ?t = hgetall k s" "calls ?t = calls s"
    by (simp_all add: stop_pending_frame flag_stop_def hgetall_hset)
  have queue: "lrange_all (queue_key C) ?t = filter (\<lambda>i. i \<noteq> j) (lrange_all (queue_key C) s)"
    unfolding lrange_all_def stop_pending_frame(2) unfolding lrange_all_def [symmetric]
    by (simp add: flag_stop_def)
  have state: "job_state ?key ?t = (if st = state_value PENDING then state_value CANCELLED else st)"
    using st(1) by (simp add: job_state_def hfield_def)
  have "hgetall ?key ?t \<noteq> []" "cancel_requested E C j ?t" using st by (auto simp: cancel_requested_def)
  then have "\<exists>u. run_job E C metrics j ?t = (Inr (), u) \<and> calls u = calls ?t \<and> job_state ?key u = state_value CANCELLED"
    by (rule cancelled_before_start)
  with run r frame queue state False show ?thesis by (auto simp: job_state_def)
qed

definition queued_store :: store where
  "queued_store = set_list ''restore:queue'' [''b'', ''a'', ''c'']
     (hset ''restore:job:a'' [(''job_id'', ''a''), (''state'', ''PENDING'')] empty_store)"

theorem stop_job_settles_witness:
  "\<exists>r t. stop_job idle_env demo_cfg ''a'' queued_store = (Inr r, t) \<and> lrange_all ''restore:queue'' t = [''b'', ''c''] \<and>
     ja_state r = ''CANCELLED''"
proof -
  have key: "job_key demo_cfg ''a'' = ''restore:job:a''" "queue_key demo_cfg = ''restore:queue''"
    by (simp_all add: job_key_def demo_cfg_def)
  have "map_of (hgetall (job_key demo_cfg ''a'') queued_store) ''state'' = Some ''PENDING''"
    "map_of (hgetall (job_key demo_cfg ''a'') queued_store) ''job_id'' = Some ''a''"
    by (simp_all add: key queued_store_def hgetall_def set_list_def hset_def empty_store_def)
  from stop_job_settles [OF this, of idle_env "\<lambda>_ _. []"] obtain r t where
    t: "stop_job idle_env demo_cfg ''a'' queued_store = (Inr r, t)" "ja_state r = job_state (job_key demo_cfg ''a'') t"
      "lrange_all (queue_key demo_cfg) t = filter (\<lambda>i. i \<noteq> ''a'') (lrange_all (queue_key demo_cfg) queued_store)"
      "job_state (job_key demo_cfg ''a'') t = state_value CANCELLED"
    by auto
  then show ?thesis by (auto simp: key queued_store_def lrange_all_def set_list_def)
qed

end
