(* ===== verification/RunOthers.thy ===== *)
theory RunOthers
  imports RunProps ApiJobs
begin

text \<open>
  Operations of the other components as steps of the plan runs: popping from the queue, stopping a job,
  the drain of the queue, the purge and the expiry of finished jobs, and the saving of documents write
  no run, so the invariant of \<open>RunProps\<close> and the finality of runs hold across them.
\<close>

subsection \<open>Redis operations\<close>

lemma leaves_hset:
  "hgetall key w \<noteq> [] \<Longrightarrow> leaves_runs E C w (hset key m (w :: world))"
  by (rule leaves_keys) (simp_all add: hset_existing_keys)

lemma leaves_lists:
  "leaves_runs E C w (set_list k xs (w :: world))" "leaves_runs E C w (lrem_all k x (w :: world))"
  "leaves_runs E C w (set_str k v (w :: world))" "leaves_runs E C w (expire k n (w :: world))"
  by (rule leaves_keys; simp add: set_list_def lrem_all_def set_str_def expire_def)+

lemma leaves_delete: "leaves_runs E C w (delete_key k (w :: world))"
  by (rule leaves_keys) (auto simp: delete_key_def AList.delete_eq)

text \<open>A job that expires is deleted by Redis.\<close>

lemma expiry_step: "plan_step E C enqueue w (delete_key (job_key C j) w)"
  by (rule step_other) (rule leaves_delete)

subsection \<open>Stopping a job\<close>

lemma stop_job_step:
  assumes "stop_job E C j w = (r, w')" shows "plan_step E C enqueue w w'"
proof (rule step_other)
  let ?key = "job_key C j"
  have flag: "leaves_runs E C w (flag_stop C j w)" if "hgetall ?key w \<noteq> []"
    unfolding flag_stop_def by (rule leaves_trans [OF leaves_hset [OF that] leaves_lists(2)])
  have "leaves_runs E C w (stop_pending E C j (flag_stop C j w))" if ne: "hgetall ?key w \<noteq> []"
  proof (cases "map_of (hgetall ?key (flag_stop C j w)) ''state'' = Some (state_value PENDING)")
    case True
    then have "hgetall ?key (flag_stop C j w) \<noteq> []" by auto
    from leaves_trans [OF flag [OF ne] leaves_hset [OF this]] True show ?thesis
      by (simp add: stop_pending_def)
  next
    case False
    then show ?thesis using flag [OF ne] by (simp add: stop_pending_def)
  qed
  then show "leaves_runs E C w w'"
    using assms leaves_refl by (auto simp: stop_job_def Let_def split: if_splits option.splits)
qed

subsection \<open>Purging finished jobs\<close>

lemma purge_one_leaves: "leaves_runs E C (snd x) (snd (purge_one C cutoff key x) :: world)"
  using leaves_trans [OF leaves_delete leaves_delete] leaves_refl
  by (cases x) (auto simp: purge_one_def Let_def split: option.splits)

lemma purge_fold_leaves: "leaves_runs E C (snd x) (snd (fold (purge_one C cutoff) ks x) :: world)"
proof (induction ks arbitrary: x)
  case (Cons k ks)
  then show ?case using leaves_trans [OF purge_one_leaves Cons.IH] by simp
qed (simp add: leaves_refl)

lemma purge_leaves: "purge_expired_scan E C cap w = (n, w') \<Longrightarrow> leaves_runs E C w w'"
  using purge_fold_leaves [of E C "(0, w)" "now E w - of_int (job_ttl_sec C)" "take cap (job_keys C w)"]
  by (auto simp: purge_expired_scan_def Let_def leaves_refl split: if_splits)

lemma purge_step: "purge_expired_scan E C cap w = (n, w') \<Longrightarrow> plan_step E C enqueue w w'"
  by (rule step_other) (rule purge_leaves)

subsection \<open>Draining the queue\<close>

text \<open>
  The drain writes the hash of each id it pops, also of one that has none, so it relies on the ids in
  the queue being ids that were drawn.
\<close>

definition drawn :: "env \<Rightarrow> cfg \<Rightarrow> world \<Rightarrow> string set \<Rightarrow> bool" where
  "drawn E C w ids \<longleftrightarrow> (\<forall>n \<ge> uuids w. \<forall>j \<in> ids. job_key C (strip j) \<noteq> job_key C (uuid E n))"

lemma leaves_hset_drawn:
  "drawn E C w {j} \<Longrightarrow> leaves_runs E C w (hset (job_key C (strip j)) m (w :: world))"
  using hset_keys [of "job_key C (strip j)" m w]
  by (auto simp: leaves_runs_def drawn_def jobs_fresh_def active_ids_def smembers_def hset_def)

lemma drawn_frame [simp]:
  "drawn E C (set_list k xs w) ids = drawn E C w ids" "drawn E C (hset k m w) ids = drawn E C w ids"
  "drawn E C (set_str k v w) ids = drawn E C w ids"
  by (simp_all add: drawn_def set_list_def hset_def set_str_def)

lemma drain_list_leaves:
  "drawn E C w (set js) \<Longrightarrow> leaves_runs E C w (snd (drain_list C stamp js ids (w :: world)))"
proof (induction js arbitrary: ids w)
  case (Cons j js)
  let ?w1 = "set_list (queue_key C) js w"
  have d: "drawn E C ?w1 (set js)" "drawn E C ?w1 {j}" using Cons.prems by (simp_all add: drawn_def)
  have 1: "leaves_runs E C w ?w1" by (rule leaves_lists)
  have 2: "leaves_runs E C ?w1 (hset (job_key C (strip j)) (drain_mapping stamp) ?w1)"
    by (rule leaves_hset_drawn [OF d(2)])
  show ?case
    using leaves_trans [OF 1] leaves_trans [OF leaves_trans [OF 1 2]] Cons.IH d
    by (auto simp: Let_def 1)
qed (simp add: leaves_refl)

lemma drain_sweep_leaves: "leaves_runs E C w (snd (drain_sweep C stamp ks ids (w :: world)))"
proof (induction ks arbitrary: ids w)
  case (Cons k ks)
  show ?case
  proof (cases "hfield (hgetall k w) ''state'' = state_value PENDING")
    case True
    then have "hgetall k w \<noteq> []" by (auto simp: hfield_def)
    from leaves_trans [OF leaves_hset [OF this] Cons.IH] True show ?thesis by (simp add: Let_def)
  next
    case False
    then show ?thesis using Cons.IH by (simp add: Let_def)
  qed
qed (simp add: leaves_refl)

lemma drain_step:
  assumes "drain_pending_jobs E C w = (ids, w')" "drawn E C w (set (lrange_all (queue_key C) w))"
  shows "plan_step E C enqueue w w'"
proof (rule step_other)
  let ?w1 = "set_queue_paused C True w"
  obtain js w2 where l: "drain_list C (utc_now_iso E w) (lrange_all (queue_key C) ?w1) [] ?w1 = (js, w2)"
    by (cases "drain_list C (utc_now_iso E w) (lrange_all (queue_key C) ?w1) [] ?w1")
  have q: "lrange_all (queue_key C) ?w1 = lrange_all (queue_key C) w"
    by (simp add: set_queue_paused_def set_str_def lrange_all_def)
  have 1: "leaves_runs E C w ?w1" by (simp add: set_queue_paused_def leaves_lists)
  have 2: "leaves_runs E C ?w1 w2"
    using drain_list_leaves [of E C ?w1 "lrange_all (queue_key C) ?w1" "utc_now_iso E w" "[]"] assms(2) l
    by (simp add: q set_queue_paused_def)
  have "w' = snd (drain_sweep C (utc_now_iso E w) (job_keys C w2) js w2)"
    using assms(1) l by (simp add: drain_pending_jobs_def Let_def)
  then show "leaves_runs E C w w'" using leaves_trans [OF leaves_trans [OF 1 2] drain_sweep_leaves] by simp
qed

subsection \<open>Saving plans\<close>

lemma save_plan_step: "keys_ok C \<Longrightarrow> plan_step E C enqueue w (save_plan_doc E C d w)"
  by (rule step_other) (simp add: leaves_runs_def active_ids_def keys_ok_def save_plan_doc_def save_entity_def
      Let_def jobs_fresh_def)

end
