(* ===== verification/WireProps.thy ===== *)
theory WireProps
  imports Wire
begin

text \<open>
  What the listing of the backups writes the wire estimate can read, and the bounds of the
  estimates.
\<close>

subsection \<open>Rows of the listing\<close>

lemma snapshot_row_shape:
  assumes "snapshot_row x d = Inr (Some row)"
  obtains v iso_time where "row = backup_row x d v iso_time" "iso_time \<noteq> []"
  using assms by (auto simp: snapshot_row_def Let_def split: if_splits sum.splits)

lemma list_source_rows:
  assumes "list_source_backups E x s = (Inr rows, t)" "row \<in> set rows"
  obtains d v iso_time where "row = backup_row x d v iso_time" "iso_time \<noteq> []"
proof -
  obtain payload where "snapshot_rows x payload = Inr rows"
    using assms(1)
    by (auto simp: list_source_backups_def Let_def bind_act_Inr_iff raise_act_def res_act_def split: if_splits)
  then obtain ds rs where "map_res (snapshot_row x) ds = Inr rs" "rows = List.map_filter (\<lambda>r. r) rs"
    by (auto simp: snapshot_rows_def)
  then obtain d where "snapshot_row x d = Inr (Some row)"
    using assms(2) map_res_range [of "snapshot_row x" ds rs "Some row"]
    by (auto simp: List.map_filter_def)
  then show thesis by (rule snapshot_row_shape) (rule that)
qed

lemma list_each_rows:
  assumes "list_each E xs s = (Inr (rows, errs), t)" "row \<in> set rows"
  shows "\<exists>x \<in> set xs. \<exists>d v iso_time. row = backup_row x d v iso_time \<and> iso_time \<noteq> []"
  using assms
proof (induction xs arbitrary: s rows errs)
  case (Cons x xs)
  obtain rows1 errs1 s1 rows2 errs2 where
    one: "catch_act (bind_act (list_source_backups E x) (\<lambda>rows. ret_act (rows, [])))
      (\<lambda>e. ret_act ([], [exn_str e])) s = (Inr (rows1, errs1), s1)" and
    more: "list_each E xs s1 = (Inr (rows2, errs2), t)" and rows: "rows = rows1 @ rows2"
    using Cons.prems(1) by (auto simp: bind_act_Inr_iff ret_act_def)
  show ?case
  proof (cases "row \<in> set rows2")
    case True
    with Cons.IH [OF more] show ?thesis by auto
  next
    case False
    then have row: "row \<in> set rows1" using Cons.prems(2) rows by simp
    from one have "list_source_backups E x s = (Inr rows1, s1)"
    proof (cases rule: catch_act_cases)
      case (caught e s')
      with row show ?thesis by (simp add: ret_act_def)
    qed (auto simp: bind_act_Inr_iff ret_act_def)
    from list_source_rows [OF this row] show ?thesis by (metis list.set_intros(1))
  qed
qed (simp add: ret_act_def)

lemma set_sort_backups [simp]: "set (sort_backups rows) = set rows"
  by (simp add: sort_backups_def)

lemma listing_rows:
  assumes "list_vm_backups E C s = (Inr rows, t)" "row \<in> set rows"
  obtains ss x d v iso_time where "load_sources C = Inr ss" "x \<in> set ss" "row = backup_row x d v iso_time"
    "iso_time \<noteq> []"
proof -
  obtain ss where ss: "load_sources C = Inr ss"
    using assms(1) by (auto simp: list_vm_backups_def bind_act_Inr_iff res_act_def)
  then obtain rs errs s1 where "list_each E ss s = (Inr (rs, errs), s1)" "rows = sort_backups rs"
    using assms(1)
    by (auto simp: list_vm_backups_def bind_act_Inr_iff res_act_def ret_act_def raise_act_def split: if_splits)
  with list_each_rows [of E ss s rs errs s1 row] assms(2) ss that show thesis by auto
qed

subsection \<open>Reading the reference\<close>

text \<open>The characters of a rendered number or time stamp\<close>

lemma str_of_int_chars: "c \<in> set (str_of_int i) \<Longrightarrow> is_digit c \<or> c = CHR ''-''"
  using str_of_nat_digits [of c "nat i"] str_of_nat_digits [of c "nat (- i)"]
  by (auto simp: str_of_int_def split: if_splits)

lemma datetime_chars: "c \<in> set (datetime_text e) \<Longrightarrow> is_digit c \<or> c \<in> set ''-T:''"
proof -
  have pad: "c \<in> set (pad2 n) \<Longrightarrow> is_digit c \<or> c = CHR ''-''" for n
    using str_of_int_chars [of c n] by (auto simp: pad2_def is_digit_def split: if_splits)
  assume "c \<in> set (datetime_text e)"
  then show ?thesis
    using str_of_int_chars [of c] pad by (auto simp: datetime_text_def Let_def split: prod.splits)
qed

lemma no_slash: "CHR ''/'' \<notin> set (str_of_int i)" "CHR ''/'' \<notin> set (datetime_text e @ ''Z'')"
  using str_of_int_chars [of "CHR ''/''" i] datetime_chars [of "CHR ''/''" e] by (auto simp: is_digit_def)

lemma strip_ends: "s \<noteq> [] \<Longrightarrow> \<not> is_space (hd s) \<Longrightarrow> \<not> is_space (last s) \<Longrightarrow> strip s = s"
  by (rule strip_eq_self)

lemma strip_chars_ends: "s \<noteq> [] \<Longrightarrow> hd s \<notin> set cs \<Longrightarrow> last s \<notin> set cs \<Longrightarrow> strip_chars cs s = s"
proof -
  assume "s \<noteq> []" "hd s \<notin> set cs" "last s \<notin> set cs"
  then have "dropWhile (\<lambda>c. c \<in> set cs) s = s" "dropWhile (\<lambda>c. c \<in> set cs) (rev s) = rev s"
    by (simp_all only: dropWhile_eq_self_iff hd_rev) simp_all
  then show ?thesis by (simp add: strip_chars_def lstrip_chars_def rstrip_chars_def)
qed

definition voltail_of :: "int \<Rightarrow> string \<Rightarrow> string" where
  "voltail_of v iso_time = ''vm/'' @ str_of_int v @ ''/'' @ iso_time"

lemma voltail_parts:
  assumes "CHR ''/'' \<notin> set t"
  shows "split_on CHR ''/'' (voltail_of v t) = [''vm'', str_of_int v, t]"
  using assms no_slash(1) [of v] by (simp add: voltail_of_def split_on_append_sep split_on_no_sep)

lemma partition_sep: "c \<notin> set a \<Longrightarrow> partition_at c (a @ c # b) = (a, True, b)"
proof -
  assume "c \<notin> set a"
  then have "\<forall>x \<in> set a. x \<noteq> c" by auto
  then show ?thesis by (simp add: partition_at_def takeWhile_append2 dropWhile_append2)
qed

lemma iso_epoch_rendered:
  "four_digit_epoch \<le> e \<Longrightarrow> e \<le> last_epoch \<Longrightarrow> iso_epoch (datetime_text e @ ''Z'') = Inr e"
  using datetime_text_read(1) [of e]
  by (simp add: iso_epoch_def endswith_def startswith_def trunc_rat_def butlast_append Let_def)

lemma vm_lower: "lower ''vm'' = ''vm''"
  by code_simp

lemma parse_written_ref:
  assumes sid: "CHR ''|'' \<notin> set sid" "strip sid = sid" "sid \<noteq> []"
    and e: "four_digit_epoch \<le> e" "e \<le> last_epoch"
  shows "parse_job_backup_ref (sid @ ''|'' @ voltail_of v (datetime_text e @ ''Z'')) = Inr (sid, str_of_int v, e)"
proof -
  let ?t = "datetime_text e @ ''Z''" let ?vt = "voltail_of v ?t" let ?raw = "sid @ CHR ''|'' # ?vt"
  have vt: "?vt \<noteq> []" "hd ?vt = CHR ''v''" "last ?vt = CHR ''Z''" by (simp_all add: voltail_of_def)
  have "\<not> is_space (hd sid)" using strip_no_leading [of sid] sid by simp
  then have "strip ?raw = ?raw"
    using vt sid(3) by (intro strip_ends) (simp_all add: is_space_def)
  moreover have "strip ?vt = ?vt" by (rule strip_ends) (simp_all add: vt is_space_def)
  moreover have "strip_chars ''/'' ?vt = ?vt" by (rule strip_chars_ends) (simp_all add: vt)
  ultimately show ?thesis
    unfolding parse_job_backup_ref_def
    by (simp add: Let_def partition_sep sid voltail_parts [OF no_slash(2)] iso_epoch_rendered [OF e] vm_lower)
qed

lemma make_source_id_not_Nil [simp]: "make_source_id a b c \<noteq> []"
  by (simp add: make_source_id_def)

text \<open>C28: The references that the listing writes can be read. Whenever the ids of the sources have no
  bar and no space at their ends, each row of the list of the backups belongs to a configured source,
  and when the time stamp of the row renders a time between the years 1000 and 9999, reading the
  backup id of the row returns that source, the guest id and that time; the source is found by the
  id.\<close>

theorem backup_ref_round_trip:
  assumes "list_vm_backups E C s = (Inr rows, t)" "load_sources C = Inr ss"
    and "\<forall>x \<in> set ss. CHR ''|'' \<notin> set (so_id x) \<and> strip (so_id x) = so_id x \<and> so_id x \<noteq> []"
    and "row \<in> set rows" "dget row ''timestamp'' = PStr (datetime_text e @ ''Z'')"
    and "four_digit_epoch \<le> e" "e \<le> last_epoch"
  shows "\<exists>x \<in> set ss. \<exists>v. dget row ''source_id'' = PStr (so_id x) \<and> dget row ''vmid'' = PInt v \<and>
    parse_job_backup_ref (py_str (dget row ''backup_id'')) = Inr (so_id x, str_of_int v, e) \<and>
    (\<exists>y \<in> set ss. source_for C (so_id x) (py_str (dget row ''backup_id'')) = Inr (Some y) \<and> so_id y = so_id x)"
proof -
  obtain x d v iso_time where x: "x \<in> set ss" and row: "row = backup_row x d v iso_time"
    using listing_rows [OF assms(1,4)] assms(2) by (metis sum.inject(2))
  have iso_time: "iso_time = datetime_text e @ ''Z''"
    using assms(5) by (simp add: row backup_row_def dget_def dget_or_def Let_def)
  have fields: "dget row ''source_id'' = PStr (so_id x)" "dget row ''vmid'' = PInt v"
    "dget row ''backup_id'' = PStr (so_id x @ ''|'' @ voltail_of v iso_time)"
    by (simp_all add: row backup_row_def dget_def dget_or_def Let_def voltail_of_def)
  have "parse_job_backup_ref (py_str (dget row ''backup_id'')) = Inr (so_id x, str_of_int v, e)"
    unfolding fields(3) iso_time py_str.simps
    by (rule parse_written_ref) (use assms(3,6,7) x in auto)
  moreover obtain y where "find (\<lambda>z. so_id z = so_id x) ss = Some y"
    using x by (cases "find (\<lambda>z. so_id z = so_id x) ss") (auto simp: find_None_iff)
  moreover from this have "y \<in> set ss" "so_id y = so_id x" by (auto simp: find_Some_iff)
  ultimately show ?thesis
    using x fields by (auto simp: source_for_def source_by_id_def assms(2))
qed

subsection \<open>Bounds\<close>

lemma usage_bounds:
  fixes z :: "int \<Rightarrow> bytes"
  assumes "u = usage_from_digests z sz ds n" "0 < sz"
  shows "fu_unique u \<le> fu_nonzero u" "fu_nonzero u \<le> fu_total u" "0 \<le> nonzero_bytes u"
    "nonzero_bytes u \<le> virtual_bytes u" "nonzero_bytes u + zero_bytes u = virtual_bytes u"
proof -
  let ?nz = "filter (\<lambda>d. d \<noteq> z sz) ds"
  have len: "length ?nz \<le> length ds" by simp
  then have le: "int (length ?nz) * sz \<le> int (length ds) * sz"
    using assms(2) by (intro mult_right_mono) simp_all
  show "fu_unique u \<le> fu_nonzero u" "fu_nonzero u \<le> fu_total u" "0 \<le> nonzero_bytes u"
    "nonzero_bytes u \<le> virtual_bytes u" "nonzero_bytes u + zero_bytes u = virtual_bytes u"
    using le len assms(2) card_length [of ?nz]
    by (simp_all add: assms(1) usage_from_digests_def nonzero_bytes_def virtual_bytes_def zero_bytes_def)
qed

lemma loaded_size_pos:
  assumes "load_all_fidx_digests E rd x b n s = (Inr (sz, ds, k), t)"
  shows "0 < sz"
  using assms index_loop_size [where sz = default_chunk_size]
  by (auto simp: load_all_fidx_digests_def bind_act_Inr_iff res_act_def ret_act_def default_chunk_size_def)

lemma wire_of_samples_bounds:
  assumes "wire_of_samples sz nonzero unique files n ratios = Inr w" "length unique \<le> length nonzero"
    "length nonzero \<le> n"
  shows "0 \<le> we_ratio w \<and> we_ratio w \<le> 1 \<and> we_samples w = length ratios \<and> we_unique w = length unique \<and>
    we_unique w \<le> we_nonzero w \<and> we_nonzero w \<le> we_total w"
  using assms by (auto simp: wire_of_samples_def clamp01_bounds split: if_splits)

lemma sampled_bounds:
  assumes "sampled_estimate rd z pick n files (sz, ds) = Inr w" "\<And>k ds. k \<le> length ds \<Longrightarrow> length (pick k ds) = k"
  shows "0 \<le> we_ratio w \<and> we_ratio w \<le> 1 \<and> we_samples w \<le> n \<and> we_samples w \<le> we_unique w \<and>
    we_unique w \<le> we_nonzero w \<and> we_nonzero w \<le> we_total w"
proof -
  define nz where "nz = filter (\<lambda>d. d \<noteq> z sz) ds"
  define un where "un = remdups nz"
  have le: "length un \<le> length nz" "length nz \<le> length ds" by (simp_all add: un_def nz_def length_remdups_leq)
  show ?thesis
  proof (cases "un = []")
    case True
    then have "w = \<lparr>we_ratio = 0, we_samples = 0, we_chunk_size = sz, we_nonzero = 0, we_unique = 0,
            we_files = files, we_total = length ds\<rparr>"
      using assms(1) by (simp add: sampled_estimate_def Let_def un_def nz_def)
    then show ?thesis by simp
  next
    case False
    then obtain ratios where ratios: "sample_ratios rd sz (if length un \<le> n then un else pick n un) = Inr ratios"
      and w: "wire_of_samples sz nz un files (length ds) ratios = Inr w"
      using assms(1) unfolding sampled_estimate_def Let_def prod.case nz_def [symmetric] un_def [symmetric]
      by auto
    have "length ratios \<le> length un \<and> length ratios \<le> n"
      using sample_ratios_length [OF ratios] assms(2) [of n un] by (cases "length un \<le> n") auto
    with wire_of_samples_bounds [OF w le] show ?thesis by simp
  qed
qed

lemma wire_sampled:
  assumes "estimate_wire_compression E rd z pick x b e n s = (Inr w, t)"
  obtains reader files r where "sampled_estimate reader z pick n files r = Inr w"
  using assms by (auto simp: estimate_wire_compression_def bind_act_Inr_iff res_act_def)

lemma wire_bounds:
  assumes "estimate_wire_compression E rd z pick x b e n s = (Inr w, t)" "\<And>k ds. k \<le> length ds \<Longrightarrow> length (pick k ds) = k"
  shows "0 \<le> we_ratio w \<and> we_ratio w \<le> 1 \<and> we_samples w \<le> n \<and> we_samples w \<le> we_unique w \<and>
    we_unique w \<le> we_nonzero w \<and> we_nonzero w \<le> we_total w"
  by (rule wire_sampled [OF assms(1)]) (metis sampled_bounds assms(2) prod.collapse)

lemma sparsity_bounds: "0 \<le> sparsity_of k m" "sparsity_of k m \<le> 1"
  by (simp_all add: sparsity_of_def)

lemma estimated_usage:
  assumes "estimate_fidx_usage E rd z x b e s = (Inr u, t)"
  obtains sz ds n where "u = usage_from_digests z sz ds n" "0 < sz"
  using assms loaded_size_pos [of E rd x b e s]
  by (auto simp: estimate_fidx_usage_def bind_act_Inr_iff ret_act_def)

text \<open>C40: The estimates stay in their bounds, whatever the backup server sends. A usage estimate counts
  no more distinct chunks than non-zero ones and no more of these than positions, its non-zero and
  zero bytes add up to the size of the disks, and the sparsity is between 0 and 1; a compression ratio
  is between 0 and 1 and rests on at most as many samples as there are distinct non-zero chunks or
  chosen samples.\<close>

theorem wire_estimate_bounds:
  assumes "estimate_fidx_usage E open_reader zero_digest x backup_id epoch s = (Inr u, t)"
    and "estimate_wire_compression E open_reader zero_digest pick_sample x backup_id epoch n s' = (Inr w, t')"
    and "\<And>k ds. k \<le> length ds \<Longrightarrow> length (pick_sample k ds) = k"
  shows "(fu_unique u \<le> fu_nonzero u \<and> fu_nonzero u \<le> fu_total u \<and> 0 \<le> nonzero_bytes u \<and>
      nonzero_bytes u + zero_bytes u = virtual_bytes u) \<and>
    (0 \<le> sparsity_of (fu_total u) (fu_nonzero u) \<and> sparsity_of (fu_total u) (fu_nonzero u) \<le> 1) \<and>
    (0 \<le> we_ratio w \<and> we_ratio w \<le> 1 \<and> we_samples w \<le> n \<and> we_samples w \<le> we_unique w \<and>
      we_unique w \<le> we_nonzero w \<and> we_nonzero w \<le> we_total w)"
proof (intro conjI)
  note usage = estimated_usage [OF assms(1)] usage_bounds [where z = zero_digest and u = u] sparsity_bounds
  show "fu_unique u \<le> fu_nonzero u" "fu_nonzero u \<le> fu_total u" "0 \<le> nonzero_bytes u"
    "nonzero_bytes u + zero_bytes u = virtual_bytes u"
    "0 \<le> sparsity_of (fu_total u) (fu_nonzero u)" "sparsity_of (fu_total u) (fu_nonzero u) \<le> 1"
    using usage by metis+
qed (use wire_bounds [OF assms(2,3)] in \<open>simp_all\<close>)

subsection \<open>Examples\<close>

definition demo_pbs_cfg :: cfg where
  "demo_pbs_cfg = demo_cfg\<lparr>pbs_servers := PList [PDict
     [(''id'', PStr ''main''), (''host'', PStr ''pbs''), (''api_token_id'', PStr ''root@pam!r''),
      (''api_token_secret'', PStr ''x''),
      (''mounts'', PList [PDict [(''datastore'', PStr ''store''), (''pve_storage'', PStr ''pbs-main'')]])]]\<rparr>"

definition demo_source :: source where
  "demo_source = \<lparr>so_id = ''main/store/root'', so_server_id = ''main'',
     so_label = source_label ''main'' ''store'' [], so_host = ''pbs'', so_port = 8007, so_verify_ssl = True,
     so_token_id = ''root@pam!r'', so_token_secret = ''x'', so_user = [], so_password = [],
     so_datastore = ''store'', so_namespace = [], so_pve_storage = ''pbs-main''\<rparr>"

definition demo_snapshot :: dict where
  "demo_snapshot = [(''backup-type'', PStr ''vm''), (''backup-id'', PStr ''109''), (''backup-time'', PInt 1778115966)]"

definition demo_answer :: "string \<Rightarrow> dict \<Rightarrow> pyval" where
  "demo_answer k row = PDict [(''status_code'', PInt 200), (''json'', PDict [(''data'', PList [PDict row])])]"

definition demo_pbs_env :: env where
  "demo_pbs_env = idle_env\<lparr>api := \<lambda>cs c. case c of
      PbsGet url h ck ps \<Rightarrow>
        if endswith ''/files'' url then Inr (demo_answer ''files'' [(''filename'', PStr ''drive.img.fidx'')])
        else Inr (demo_answer ''snapshots'' demo_snapshot)
    | NodesGet \<Rightarrow> Inr (PList [PDict [(''node'', PStr ''n1''), (''status'', PStr ''online'')]])
    | StorageGet n \<Rightarrow> Inr (PList [PDict [(''storage'', PStr ''zfs''), (''content'', PStr ''images'')]])
    | _ \<Rightarrow> Inr PNone\<rparr>"

lemma demo_sources: "load_sources demo_pbs_cfg = Inr [demo_source]"
  by code_simp

definition demo_backup :: dict where
  "demo_backup = backup_row demo_source demo_snapshot 109 ''2026-05-07T01:06:06Z''"

lemma demo_snapshot_row: "snapshot_row demo_source demo_snapshot = Inr (Some demo_backup)"
proof -
  have "dashed demo_snapshot ''backup-id'' ''backup_id'' = ''109''" "strip ''109'' = ''109''"
    "lower (dashed demo_snapshot ''backup-type'' ''backup_type'') = ''vm''"
    "py_int (py_or (dget demo_snapshot ''vmid'') (PStr ''109'')) = Inr 109"
    "raw_time demo_snapshot = PInt 1778115966"
    by code_simp+
  moreover have "epoch_to_iso_z (PInt 1778115966) = Inr ''2026-05-07T01:06:06Z''"
    using datetime_examples(1) by (simp add: epoch_to_iso_z_def utc_datetime_def first_epoch_def last_epoch_def)
  ultimately show ?thesis by (simp add: snapshot_row_def demo_backup_def)
qed

lemma demo_auth:
  "has_token demo_source" "token_headers demo_source = [(''Authorization'', ''PBSAPIToken=root@pam!r=x'')]"
  "base_url demo_source = ''https://pbs:8007/api2/json''" "so_datastore demo_source = ''store''"
  "so_namespace demo_source = []"
proof -
  have "strip ''root@pam!r'' = ''root@pam!r''" "strip ''x'' = ''x''" by code_simp+
  then show "has_token demo_source"
    "token_headers demo_source = [(''Authorization'', ''PBSAPIToken=root@pam!r=x'')]"
    by (simp_all add: has_token_def token_headers_def demo_source_def)
  show "base_url demo_source = ''https://pbs:8007/api2/json''" "so_datastore demo_source = ''store''"
    "so_namespace demo_source = []"
    by (simp_all add: base_url_def demo_source_def str_of_int_def str_of_nat.simps digit_char_def)
qed

lemma demo_replies:
  "answer demo_pbs_env cs (PbsGet ''https://pbs:8007/api2/json/admin/datastore/store/snapshots'' h ck ps) =
     Inr (demo_answer ''snapshots'' demo_snapshot)"
  "answer demo_pbs_env cs (PbsGet ''https://pbs:8007/api2/json/admin/datastore/store/files'' h ck ps) =
     Inr (demo_answer ''files'' [(''filename'', PStr ''drive.img.fidx'')])"
  by (simp_all add: answer_def demo_pbs_env_def endswith_def startswith_def)

lemma demo_bodies:
  "resp_status (demo_answer k d) = 200" "resp_json (demo_answer k d) = Inr (PDict [(''data'', PList [PDict d])])"
  "py_get (PDict [(''data'', v)]) ''data'' = Inr v"
  by (simp_all add: demo_answer_def resp_status_def resp_json_def py_get_def has_key_def dget_def dget_or_def
      py_int_or_def)

lemma demo_listing:
  "list_vm_backups demo_pbs_env demo_pbs_cfg s = (Inr [demo_backup],
     s\<lparr>calls := calls s @ [PbsGet ''https://pbs:8007/api2/json/admin/datastore/store/snapshots''
        [(''Authorization'', ''PBSAPIToken=root@pam!r=x'')] [] []]\<rparr>)"
proof -
  have "list_source_backups demo_pbs_env demo_source s = (Inr [demo_backup],
      s\<lparr>calls := calls s @ [PbsGet ''https://pbs:8007/api2/json/admin/datastore/store/snapshots''
        [(''Authorization'', ''PBSAPIToken=root@pam!r=x'')] [] []]\<rparr>)"
    by (simp add: list_source_backups_def authenticated_get_def Let_def demo_auth bind_act_def call_def
        demo_replies demo_bodies res_act_def snapshot_rows_def demo_snapshot_row List.map_filter_def)
  then show ?thesis
    by (simp add: list_vm_backups_def demo_sources bind_act_def res_act_def catch_act_def ret_act_def sort_backups_def)
qed

theorem backup_ref_round_trip_witness:
  "parse_job_backup_ref (py_str (dget demo_backup ''backup_id'')) = Inr (''main/store/root'', ''109'', 1778115966)"
proof -
  have "dget demo_backup ''timestamp'' = PStr (datetime_text 1778115966 @ ''Z'')" by code_simp
  moreover have "dget demo_backup ''vmid'' = PInt 109" by code_simp
  moreover have "str_of_int 109 = ''109''" by code_simp
  moreover have "CHR ''|'' \<notin> set (so_id demo_source)" "strip (so_id demo_source) = so_id demo_source"
    "so_id demo_source = ''main/store/root''"
    by code_simp+
  ultimately show ?thesis
    using backup_ref_round_trip [of demo_pbs_env demo_pbs_cfg empty_store "[demo_backup]" _ "[demo_source]"
        demo_backup 1778115966, OF demo_listing] demo_sources
    by (auto simp: four_digit_epoch_def last_epoch_def)
qed

text \<open>An index of two chunks, one of zeroes\<close>

definition demo_index :: bytes where
  "demo_index = replicate 4096 0 @ replicate 32 1 @ replicate 32 2"

definition demo_reader :: reader where
  "demo_reader path = Inr (200, demo_index)"

definition demo_zero :: "int \<Rightarrow> bytes" where
  "demo_zero n = replicate 32 2"

lemma demo_ref_parse: "parse_fidx demo_index = Inr (default_chunk_size, [replicate 32 1, replicate 32 2])"
proof -
  have len: "length demo_index = 4160" by (simp add: demo_index_def)
  have "u64_at 72 demo_index = 0" "u64_at 64 demo_index = 0"
    by (simp_all add: u64_at_def demo_index_def numeral_eq_Suc)
  moreover have "[0 ..< (4160 - 4096) div 32] = [0, 1 :: nat]" by (simp add: upt_rec)
  ultimately show ?thesis
    by (simp add: parse_fidx_def len fidx_header_def fidx_digests_def fidx_chunk_size_def Let_def
        known_chunk_sizes_def) (simp add: demo_index_def)
qed

definition demo_open :: open_reader where
  "demo_open x b e au = Inr demo_reader"

lemma demo_names:
  "\<exists>t. open_snapshot demo_pbs_env demo_open demo_source b e empty_store = (Inr (demo_reader, [''drive.img.fidx'']), t)"
proof -
  have "fidx_name [(''filename'', PStr ''drive.img.fidx'')] = Some ''drive.img.fidx''" by code_simp
  then show ?thesis
    by (simp add: open_snapshot_def auth_headers_cookies_def list_fidx_names_def demo_auth bind_act_def call_def
        demo_replies demo_bodies res_act_def ret_act_def py_or_def List.map_filter_def demo_open_def)
qed

lemma demo_download:
  "download_index demo_reader ''drive.img.fidx'' = Inr (default_chunk_size, [replicate 32 1, replicate 32 2])"
  by (simp add: download_index_def demo_reader_def demo_ref_parse fidx_header_def) (simp add: demo_index_def)

lemma demo_sampled: "\<exists>w. sampled_estimate demo_reader demo_zero take 24 k (default_chunk_size, [replicate 32 1, replicate 32 2]) = Inr w"
proof -
  have "filter (\<lambda>d. d \<noteq> demo_zero default_chunk_size) [replicate 32 1, replicate 32 2] = [replicate 32 1]"
    by (simp add: demo_zero_def)
  moreover have "demo_index \<noteq> []" by (simp add: demo_index_def)
  ultimately show ?thesis
    unfolding sampled_estimate_def by (simp only: prod.case) (simp add: demo_reader_def wire_of_samples_def)
qed

lemma demo_usage:
  "\<exists>t. estimate_fidx_usage demo_pbs_env demo_open demo_zero demo_source b e empty_store =
     (Inr (usage_from_digests demo_zero default_chunk_size [replicate 32 1, replicate 32 2] 1), t)"
  using demo_names [of b e]
  by (auto simp: estimate_fidx_usage_def load_all_fidx_digests_def bind_act_def demo_download res_act_def ret_act_def)

lemma demo_wire:
  "\<exists>w t. estimate_wire_compression demo_pbs_env demo_open demo_zero take demo_source b e 24 empty_store = (Inr w, t)"
  using demo_names [of b e] demo_sampled [of "length [''drive.img.fidx'']"]
  by (auto simp: estimate_wire_compression_def bind_act_def demo_download res_act_def)

theorem wire_estimate_bounds_witness:
  "fu_nonzero (usage_from_digests demo_zero default_chunk_size [replicate 32 1, replicate 32 2] 1) \<le> 2"
proof -
  obtain t w t' where
    "estimate_fidx_usage demo_pbs_env demo_open demo_zero demo_source [] 0 empty_store =
       (Inr (usage_from_digests demo_zero default_chunk_size [replicate 32 1, replicate 32 2] 1), t)"
    "estimate_wire_compression demo_pbs_env demo_open demo_zero take demo_source [] 0 24 empty_store = (Inr w, t')"
    using demo_usage demo_wire by blast
  note bounds = wire_estimate_bounds [OF this]
  show ?thesis using bounds by (simp add: usage_from_digests_def)
qed

end
