(* ===== verification/ReadinessProps.thy ===== *)
theory ReadinessProps
  imports Readiness WireProps
begin

text \<open>
  What a verified plan was checked for: the phases of the readiness check without an error item.
\<close>

subsection \<open>Items without errors\<close>

lemma error_count_append [simp]: "error_count (a @ b) = error_count a + error_count b"
  by (simp add: error_count_def)

lemma error_count_simps [simp]:
  "error_count [] = 0" "error_count (i # is) = (if is_error i then Suc (error_count is) else error_count is)"
  by (simp_all add: error_count_def)

lemma error_free: "error_count items = 0 \<longleftrightarrow> (\<forall>i \<in> set items. \<not> is_error i)"
  by (simp add: error_count_def filter_empty_conv)

lemma setup_error_free:
  assumes "error_count (setup_items C gids loc w) = 0"
  shows "gids \<noteq> []" "plan_location C loc w \<noteq> []" "\<forall>gid \<in> set gids. group_doc C gid w \<noteq> None"
  using assms
  by (auto simp: setup_items_def error_free List.map_filter_def split: if_splits)

lemma pbs_error_free:
  assumes "pbs_items E C w = (Inr items, t)" "error_count items = 0"
  obtains rows where "probe_all_sources E C w = (Inr (True, rows), t)"
proof -
  obtain ok rows where got: "catch_act (probe_all_sources E C) (\<lambda>e. ret_act
        (False, [[(''ok'', PBool False), (''detail'', PStr (public_error_message e []))]])) w = (Inr (ok, rows), t)"
    and ok: "ok"
    using assms by (auto simp: pbs_items_def bind_act_Inr_iff ret_act_def split: if_splits)
  from got show thesis
    by (cases rule: catch_act_cases) (use ok that in \<open>auto simp: ret_act_def\<close>)
qed

lemma pve_error_free:
  assumes "pve_items E C w = (Inr (items, session), t)" "error_count items = 0"
  shows "session" "\<exists>msg v. test_proxmox_connection E C w = (Inr (True, msg), v) \<and> connect_proxmox E C v = (Inr (), t)"
  using assms
  by (auto simp: pve_items_def bind_act_Inr_iff ret_act_def Let_def split: if_splits elim!: catch_act_cases)

lemma known_error_free:
  assumes "known_nodes E w = (Inr (items, known), t)" "error_count items = 0"
  shows "\<exists>rows. list_cluster_nodes E w = (Inr rows, t) \<and> known = node_name ` set rows - {[]}"
  using assms by (auto simp: known_nodes_def bind_act_Inr_iff ret_act_def elim!: catch_act_cases)

lemma listed_error_free:
  assumes "listed_backups E C w = (Inr (items, backups), t)" "error_count items = 0"
  shows "list_vm_backups E C w = (Inr backups, t)"
  using assms by (auto simp: listed_backups_def bind_act_Inr_iff ret_act_def elim!: catch_act_cases)

text \<open>The storage of the location for a node exists there and can hold disks.\<close>

definition storage_ready :: "dict \<Rightarrow> string \<Rightarrow> storage_row list \<Rightarrow> bool" where
  "storage_ready location node storages \<longleftrightarrow>
     (\<exists>sid m. resolve_storage_for_node node (str_pairs (dget location ''storage_by_node''))
          (str_or_empty (dget location ''storage'')) = Inr sid \<and>
        m \<in> set storages \<and> sr_id m = sid \<and> sr_usable_for_vm_disks m \<and> sr_enabled m)"

lemma storage_error_free: "\<not> is_error (storage_item location node sts) \<Longrightarrow> storage_ready location node sts"
  by (auto simp: storage_item_def storage_ready_def find_Some_iff in_set_conv_nth split: sum.splits option.splits if_splits)
    (metis length_rev nth_mem set_rev in_set_conv_nth)

text \<open>Between the states \<open>s\<close> and \<open>t\<close> the storages of the node were listed and found to be ready.\<close>

definition node_ready :: "env \<Rightarrow> dict \<Rightarrow> string set \<Rightarrow> string \<Rightarrow> world \<Rightarrow> world \<Rightarrow> bool" where
  "node_ready E location known node s t \<longleftrightarrow> (known = {} \<or> node \<in> known) \<and>
     (\<exists>v sts v'. extends s v \<and> list_node_storages E node v = (Inr sts, v') \<and> extends v' t \<and>
        storage_ready location node sts)"

lemma node_error_free:
  assumes "node_item E location known node w = (Inr item, t)" "\<not> is_error item"
  shows "node_ready E location known node w t"
proof -
  obtain sts where k: "known = {} \<or> node \<in> known" and l: "list_node_storages E node w = (Inr sts, t)"
    and i: "item = storage_item location node sts"
    using assms by (auto simp: node_item_def bind_act_Inr_iff ret_act_def split: if_splits elim!: catch_act_cases)
  have "storage_ready location node sts" using assms(2) i by (simp add: storage_error_free)
  with k l show ?thesis unfolding node_ready_def by (intro conjI exI [of _ w] exI [of _ sts] exI [of _ t]) (simp_all add: grows.refl)
qed

lemma grows_node_item: "keeps extends (node_item E location known node)"
  unfolding node_item_def
  by (intro grows.keeps_if grows.keeps_ret grows.keeps_catch grows.keeps_bind keeps_emits_grows [OF keeps_list_node_storages])

lemma nodes_error_free:
  "map_act (node_item E location known) ns w = (Inr items, t) \<Longrightarrow> error_count items = 0 \<Longrightarrow>
   node \<in> set ns \<Longrightarrow> node_ready E location known node w t"
proof (induction ns arbitrary: w items)
  case (Cons n ns)
  then obtain item v items' where 1: "node_item E location known n w = (Inr item, v)"
    and 2: "map_act (node_item E location known) ns v = (Inr items', t)" and i: "items = item # items'"
    by (auto simp: bind_act_Inr_iff ret_act_def)
  have e: "\<not> is_error item" "error_count items' = 0" using Cons.prems(2) i by (simp_all split: if_splits)
  have wv: "extends w v" by (rule keepsD [OF grows_node_item 1])
  have "keeps extends (map_act (node_item E location known) ns)"
    by (rule grows.keeps_map) (rule grows_node_item)
  then have vt: "extends v t" using 2 by (rule keepsD)
  show ?case
  proof (cases "node = n")
    case True
    with node_error_free [OF 1 e(1)] vt show ?thesis unfolding node_ready_def by (blast intro: grows.trans)
  next
    case False
    with Cons.prems(3) have "node_ready E location known node v t" by (intro Cons.IH [OF 2 e(2)]) simp
    with wv show ?thesis unfolding node_ready_def by (blast intro: grows.trans)
  qed
qed simp

lemma group_items_error_free:
  "length gs = length rss \<Longrightarrow> error_count (map2 group_item gs rss) = 0 \<Longrightarrow> \<forall>rows \<in> set rss. rows \<noteq> []"
proof (induction gs rss rule: list_induct2)
  case (Cons g gs rows rss)
  then show ?case by (auto simp: group_item_def split: if_splits)
qed simp

lemma repeated_distinct: "repeated vs seen = [] \<longleftrightarrow> distinct vs \<and> set vs \<inter> seen = {}"
  by (induction vs seen rule: repeated.induct) auto

lemma dr_error_free:
  "error_count (dr_items in_use n srcs) = 0 \<longleftrightarrow> distinct srcs \<and> set srcs \<inter> in_use = {}"
proof -
  have "error_count (dr_items in_use n srcs) = 0 \<longleftrightarrow> repeated srcs {} = [] \<and> filter (\<lambda>v. v \<in> in_use) srcs = []"
    by (auto simp: dr_items_def error_free Let_def)
  then show ?thesis by (auto simp: repeated_distinct filter_empty_conv)
qed

lemma resolve_groups_length: "resolve_groups K gs backups cutoff tags = Inr rss \<Longrightarrow> length rss = length gs"
  unfolding resolve_groups_def by (rule map_res_length)

text \<open>The ids of the members are acceptable for the restore mode of the location.\<close>

definition targets_ok :: "dict \<Rightarrow> int set \<Rightarrow> dict list list \<Rightarrow> bool" where
  "targets_ok location in_use rss \<longleftrightarrow>
     (if check_mode location = ''dr''
      then \<exists>srcs. all_rows rss = Inr srcs \<and> distinct srcs \<and> set srcs \<inter> in_use = {}
      else \<exists>start ids. py_int (py_or (dget location ''vmid_start'') (PInt 100)) = Inr start \<and>
             allocate_sequential_free_vmids in_use start (int (member_total rss)) = Inr ids)"

lemma normal_error_free:
  assumes "\<not> is_error (normal_item loc in_use n)"
  shows "\<exists>start ids. py_int (py_or (dget loc ''vmid_start'') (PInt 100)) = Inr start \<and>
    allocate_sequential_free_vmids in_use start (int n) = Inr ids"
proof (cases "py_int (py_or (dget loc ''vmid_start'') (PInt 100))")
  case (Inr start)
  with assms show ?thesis
    by (cases "allocate_sequential_free_vmids in_use start (int n)") (auto simp: normal_item_def)
qed (use assms in \<open>simp add: normal_item_def\<close>)

lemma vmid_error_free:
  assumes "vmid_items E loc rss w = (Inr items, t)" "error_count items = 0" "member_total rss \<noteq> 0"
  shows "targets_ok loc (in_use_seen E (calls w)) rss"
proof -
  let ?w = "w\<lparr>calls := calls w @ [ClusterResources]\<rparr>"
  have used: "catch_act (bind_act (qemu_vmids_in_use_cluster E) (\<lambda>u. ret_act ([], u)))
      (\<lambda>e. ret_act ([fail_item ''pve.vmids'' ''Failed to list cluster VMIDs in use'' (public_error_message e [])], {})) w
      = (Inr ([], in_use_seen E (calls w)), ?w)"
    by (simp add: catch_act_def bind_act_def qemu_vmids_in_use_eval ret_act_def)
  show ?thesis
  proof (cases "check_mode loc = ''dr''")
    case True
    with assms(1,3) have "bind_act (res_act (all_rows rss))
        (\<lambda>srcs. ret_act ([] @ dr_items (in_use_seen E (calls w)) (member_total rss) srcs)) ?w = (Inr items, t)"
      by (simp add: vmid_items_def Let_def bind_act_eval used)
    then obtain srcs where "all_rows rss = Inr srcs" "items = dr_items (in_use_seen E (calls w)) (member_total rss) srcs"
      by (auto simp: bind_act_Inr_iff res_act_def ret_act_def)
    with assms(2) True show ?thesis by (auto simp: targets_ok_def dr_error_free)
  next
    case False
    with assms(1,3) have "items = [normal_item loc (in_use_seen E (calls w)) (member_total rss)]"
      by (simp add: vmid_items_def Let_def bind_act_eval used ret_act_def)
    with assms(2) have "\<not> is_error (normal_item loc (in_use_seen E (calls w)) (member_total rss))"
      by (simp split: if_splits)
    from normal_error_free [OF this] False show ?thesis by (auto simp: targets_ok_def)
  qed
qed

text \<open>
  \<open>members_ready E C K loc gs cutoff w rss\<close>: from the state \<open>w\<close> on, in this order, the nodes of the
  cluster were listed, each node of the location is one of them and its storage is ready, the backups
  were listed, the tags read if a group needs them, the groups resolved to \<open>rss\<close> over that listing,
  none to nothing, and the ids in use were read, which leave the target ids free.
\<close>

definition members_ready ::
  "env \<Rightarrow> cfg \<Rightarrow> checkers \<Rightarrow> dict \<Rightarrow> dict list \<Rightarrow> string \<Rightarrow> world \<Rightarrow> dict list list \<Rightarrow> bool" where
  "members_ready E C K loc gs cutoff w rss \<longleftrightarrow>
     (\<exists>nodes w1 w2 backups w3 items tags w4.
        list_cluster_nodes E w = (Inr nodes, w1) \<and>
        (\<forall>node \<in> set (check_nodes loc). node_ready E loc (node_name ` set nodes - {[]}) node w1 w2) \<and>
        extends w1 w2 \<and> list_vm_backups E C w2 = (Inr backups, w3) \<and>
        tag_items K gs backups cutoff (case check_nodes loc of [] \<Rightarrow> [] | n # ns \<Rightarrow> n) w3 = (Inr (items, tags), w4) \<and>
        error_count items = 0 \<and>
        resolve_groups K gs backups cutoff tags = Inr rss \<and> (\<forall>rows \<in> set rss. rows \<noteq> []) \<and>
        targets_ok loc (in_use_seen E (calls w4)) rss)"

lemma member_error_free:
  assumes "member_items E C K loc gs cutoff w = (Inr (items, rss), t)" "error_count items = 0" "gs \<noteq> []"
  shows "members_ready E C K loc gs cutoff w rss"
proof -
  obtain items1 known w1 items2 w2 items3 backups w3 items4 tags w4 items6 where
    kn: "known_nodes E w = (Inr (items1, known), w1)" and
    nd: "map_act (node_item E loc known) (check_nodes loc) w1 = (Inr items2, w2)" and
    ls: "listed_backups E C w2 = (Inr (items3, backups), w3)" and
    tg: "tag_items K gs backups cutoff (case check_nodes loc of [] \<Rightarrow> [] | n # ns \<Rightarrow> n) w3 = (Inr (items4, tags), w4)" and
    res: "resolve_groups K gs backups cutoff tags = Inr rss" and
    vm: "vmid_items E loc rss w4 = (Inr items6, t)" and
    items: "items = items1 @ items2 @ items3 @ items4 @ map2 group_item gs rss @ items6"
    using assms(1) unfolding member_items_def
    by (elim bind_act_Inr_iff [THEN iffD1, elim_format] exE conjE) (auto simp: bind_act_Inr_iff res_act_def ret_act_def)
  have e: "error_count items1 = 0" "error_count items2 = 0" "error_count items3 = 0" "error_count items4 = 0"
    "error_count (map2 group_item gs rss) = 0" "error_count items6 = 0"
    using assms(2) unfolding items error_count_append by (simp_all only: add_is_0)
  have len: "length gs = length rss" using resolve_groups_length [OF res] by simp
  have rows: "\<forall>rows \<in> set rss. rows \<noteq> []" by (rule group_items_error_free [OF len e(5)])
  obtain rows1 rss' where "rss = rows1 # rss'" using len assms(3) by (cases rss) auto
  with rows have "member_total rss \<noteq> 0" by (simp add: member_total_def)
  with vmid_error_free [OF vm e(6)] have tgt: "targets_ok loc (in_use_seen E (calls w4)) rss" by simp
  obtain nodes where nodes: "list_cluster_nodes E w = (Inr nodes, w1)" "known = node_name ` set nodes - {[]}"
    using known_error_free [OF kn e(1)] by blast
  have "keeps extends (map_act (node_item E loc known) (check_nodes loc))"
    by (rule grows.keeps_map) (rule grows_node_item)
  from keepsD [OF this nd] have "extends w1 w2" .
  moreover have "\<forall>node \<in> set (check_nodes loc). node_ready E loc (node_name ` set nodes - {[]}) node w1 w2"
    using nodes_error_free [OF nd e(2)] nodes(2) by blast
  ultimately show ?thesis
    using nodes(1) listed_error_free [OF ls e(3)] tg e(4) res rows tgt unfolding members_ready_def by blast
qed

subsection \<open>The check\<close>

text \<open>What a check without errors has established\<close>

definition checked_ready :: "env \<Rightarrow> cfg \<Rightarrow> checkers \<Rightarrow> dict \<Rightarrow> string \<Rightarrow> world \<Rightarrow> bool" where
  "checked_ready E C K plan cutoff w \<longleftrightarrow>
     (\<exists>vs loc rows w1 msg w2 w3 rss.
        iter_or_empty (dget plan ''group_ids'') = Inr vs \<and> vs \<noteq> [] \<and>
        strip_field plan ''location_id'' = Inr loc \<and> plan_location C loc w \<noteq> [] \<and>
        (\<forall>v \<in> set vs. group_doc C (py_str v) w \<noteq> None) \<and>
        probe_all_sources E C w = (Inr (True, rows), w1) \<and>
        test_proxmox_connection E C w1 = (Inr (True, msg), w2) \<and> connect_proxmox E C w2 = (Inr (), w3) \<and>
        members_ready E C K (plan_location C loc w) (plan_groups C (map py_str vs) w) (default_cutoff cutoff) w3 rss \<and>
        length rss = length vs)"

lemma plan_groups_all:
  "\<forall>gid \<in> set gids. group_doc C gid w \<noteq> None \<Longrightarrow> length (plan_groups C gids w) = length gids"
  by (induction gids) (auto simp: plan_groups_def List.map_filter_def)

lemma check_dict_ok: "truthy (dget (check_dict stamp cutoff items n zo) ''ok'') \<longleftrightarrow> error_count items = 0"
  by (simp add: check_dict_def dget_def dget_or_def)

lemma readiness_ok:
  assumes "readiness_check E C K plan cutoff w = (Inr check, t)" "truthy (dget check ''ok'')"
  shows "checked_ready E C K plan cutoff w"
proof -
  obtain vs loc items1 w1 items2 session w2 items3 rss w3 items4 zo where
    vs: "iter_or_empty (dget plan ''group_ids'') = Inr vs" and loc: "strip_field plan ''location_id'' = Inr loc" and
    pbs: "pbs_items E C w = (Inr items1, w1)" and pve: "pve_items E C w1 = (Inr (items2, session), w2)" and
    mem: "(if plan_location C loc w \<noteq> [] \<and> session
           then member_items E C K (plan_location C loc w) (plan_groups C (map py_str vs) w) (default_cutoff cutoff)
           else ret_act ([], [])) w2 = (Inr (items3, rss), w3)" and
    errs: "error_count (setup_items C (map py_str vs) loc w @ items1 @ items2 @ items3 @ items4) = 0"
    using assms unfolding readiness_check_def
    by (auto simp: bind_act_Inr_iff get_act_def res_act_def ret_act_def Let_def check_dict_ok)
  from errs have e: "error_count (setup_items C (map py_str vs) loc w) = 0" "error_count items1 = 0"
    "error_count items2 = 0" "error_count items3 = 0" by simp_all
  note st = setup_error_free [OF e(1)]
  have "session" by (rule pve_error_free(1) [OF pve e(3)])
  with mem st(2) have mem': "member_items E C K (plan_location C loc w) (plan_groups C (map py_str vs) w)
      (default_cutoff cutoff) w2 = (Inr (items3, rss), w3)" by simp
  have len: "length (plan_groups C (map py_str vs) w) = length vs" using plan_groups_all [OF st(3)] by simp
  with st(1) have "plan_groups C (map py_str vs) w \<noteq> []" by auto
  from member_error_free [OF mem' e(4) this] have ok: "members_ready E C K (plan_location C loc w)
      (plan_groups C (map py_str vs) w) (default_cutoff cutoff) w2 rss" .
  obtain rows where "probe_all_sources E C w = (Inr (True, rows), w1)" by (rule pbs_error_free [OF pbs e(2)])
  moreover obtain msg v where "test_proxmox_connection E C w1 = (Inr (True, msg), v)" "connect_proxmox E C v = (Inr (), w2)"
    using pve_error_free(2) [OF pve e(3)] by blast
  moreover have "length rss = length vs"
    using ok len by (auto simp: members_ready_def dest: resolve_groups_length)
  moreover have "vs \<noteq> []" "\<forall>v \<in> set vs. group_doc C (py_str v) w \<noteq> None" using st(1,3) by auto
  ultimately show ?thesis
    unfolding checked_ready_def using vs loc st(2) ok by blast
qed

lemma save_plan_act_eval:
  "save_plan_act E C pid d w = (Inr d', t) \<Longrightarrow>
     d' = stamp_entity pid (utc_now_iso E w) d \<and> get_plan C pid t = Some d'"
  by (auto simp: save_plan_act_def save_entity_def get_plan_def Let_def)

lemma keeps_notify_check: "keeps (emits_rel notify_calls) (notify_check_result E C plan check)"
  unfolding notify_check_result_def Let_def
  by (intro emits.keeps_if emits.keeps_ret emits.keeps_bind keeps_notify_event)

lemma check_report_eval:
  assumes "save_check_report E C plan check w = (r, t)"
  shows "(\<exists>e. r = Inl e \<and> t = w) \<or> (\<exists>rep rid. r = Inr rep \<and> need_key rep ''id'' = Inr rid)"
  using assms
  by (auto simp: save_check_report_def bind_act_def res_act_def save_report_def Let_def need_key_def
      split: sum.splits)

lemma apply_check_stored:
  assumes run: "apply_check_result E C plan check w = (Inr plan', t)" and pid: "dget plan ''id'' = PStr pid"
  shows "get_plan C pid t = Some plan' \<and> dget plan' ''verification'' =
    PStr (verification_value (if truthy (dget check ''ok'') then VERIFIED else NOT_VERIFIED))"
proof -
  let ?up = "checked_plan plan check (utc_now_iso E w)"
  have ns: "need_str plan ''id'' = Inr pid"
    using pid by (auto simp: need_str_def need_key_def dget_def dget_or_def split: option.splits)
  obtain saved w1 w2 where
    s1: "save_plan_act E C pid ?up w = (Inr saved, w1)" and
    rep: "catch_act
        (bind_act (save_check_report E C saved check) (\<lambda>rep.
         bind_act (res_act (need_key rep ''id'')) (\<lambda>rid.
         save_plan_act E C pid (dput saved ''last_check_report_id'' rid))))
        (\<lambda>e. ret_act saved) w1 = (Inr plan', w2)" and
    nt: "catch_act (notify_check_result E C plan' check) (\<lambda>e. ret_act ()) w2 = (Inr (), t)"
    using run by (auto simp: apply_check_result_def bind_act_Inr_iff get_act_def res_act_def ret_act_def ns)
  have kn: "keeps (emits_rel notify_calls) (catch_act (notify_check_result E C plan' check) (\<lambda>e. ret_act ()))"
    by (intro emits.keeps_catch keeps_notify_check emits.keeps_ret)
  have "docs t = docs w2" using keepsD [OF kn nt] by (auto simp: emits_rel_def)
  then have same: "get_plan C pid t = get_plan C pid w2" by (simp add: get_plan_def get_doc_def)
  have v: "dget ?up ''verification'' =
      PStr (verification_value (if truthy (dget check ''ok'') then VERIFIED else NOT_VERIFIED))"
    by (simp add: checked_plan_def)
  from rep show ?thesis
  proof (cases rule: catch_act_cases)
    case (ok x)
    then obtain rid w3 where "save_plan_act E C pid (dput saved ''last_check_report_id'' rid) w3 = (Inr plan', w2)"
      by (auto simp: bind_act_Inr_iff)
    from save_plan_act_eval [OF this] save_plan_act_eval [OF s1] v same show ?thesis by auto
  next
    case (caught e w3)
    have "w3 = w1"
      using caught(1) check_report_eval [of E C saved check w1]
      by (auto elim!: bind_act_cases simp: res_act_def save_plan_act_def split: prod.splits)
    with caught(3) have "plan' = saved" "w2 = w1" by (auto simp: ret_act_def)
    with save_plan_act_eval [OF s1] v same show ?thesis by auto
  qed simp
qed


subsection \<open>A plan that is verified\<close>

definition ready_plan :: dict where
  "ready_plan = [(''id'', PStr ''p1''), (''name'', PStr ''web''), (''group_ids'', PList [PStr ''g1'']),
     (''location_id'', PStr ''l1'')]"

definition ready_group :: dict where
  "ready_group = [(''id'', PStr ''g1''), (''name'', PStr ''web''), (''vmids'', PList [PInt 109])]"

definition ready_location :: dict where
  "ready_location = [(''id'', PStr ''l1''), (''nodes'', PList [PStr ''n1'']), (''storage'', PStr ''zfs''),
     (''restore_mode'', PStr ''dr'')]"

definition ready_world :: world where
  "ready_world = set_doc (group_key demo_pbs_cfg ''g1'') ready_group
     (set_doc (location_key demo_pbs_cfg ''l1'') ready_location empty_world)"

definition demo_checkers :: checkers where
  "demo_checkers = \<lparr>ck_search = (\<lambda>p s. None), ck_tags = (\<lambda>rows n. ret_act ([], [])),
     ck_size = (\<lambda>b. ret_act [(''nonzero_bytes'', PInt 5)])\<rparr>"

lemma ready_fields:
  "iter_or_empty (dget ready_plan ''group_ids'') = Inr [PStr ''g1'']" "strip_field ready_plan ''location_id'' = Inr ''l1''"
  "dget ready_plan ''id'' = PStr ''p1''" "check_nodes ready_location = [''n1'']" "check_mode ready_location = ''dr''"
  by code_simp+

lemma ready_docs:
  "get_location demo_pbs_cfg ''l1'' ready_world = Some ready_location"
  "get_group demo_pbs_cfg ''g1'' ready_world = Some ready_group"
proof -
  have "group_key demo_pbs_cfg ''g1'' \<noteq> location_key demo_pbs_cfg ''l1''" by code_simp
  then show "get_location demo_pbs_cfg ''l1'' ready_world = Some ready_location"
    "get_group demo_pbs_cfg ''g1'' ready_world = Some ready_group"
    by (simp_all add: get_location_def get_group_def ready_world_def)
qed

lemma ready_setup:
  "setup_items demo_pbs_cfg [''g1''] ''l1'' ready_world = []"
  "plan_location demo_pbs_cfg ''l1'' ready_world = ready_location"
  "plan_groups demo_pbs_cfg [''g1''] ready_world = [ready_group]"
  by (simp_all add: setup_items_def plan_location_def plan_groups_def group_doc_def ready_docs List.map_filter_def
      ready_location_def ready_group_def)

lemma ready_answers:
  "answer demo_pbs_env cs VersionGet = Inr PNone" "answer demo_pbs_env cs Connect = Inr PNone"
  "answer demo_pbs_env cs ClusterResources = Inr PNone"
  "answer demo_pbs_env cs NodesGet = Inr (PList [PDict [(''node'', PStr ''n1''), (''status'', PStr ''online'')]])"
  "answer demo_pbs_env cs (StorageGet n) = Inr (PList [PDict [(''storage'', PStr ''zfs''), (''content'', PStr ''images'')]])"
  "\<exists>k d. answer demo_pbs_env cs (PbsGet u h ck ps) = Inr (demo_answer k d)"
  by (auto simp: answer_def demo_pbs_env_def)

lemma ready_login: "\<exists>l. proxmox_login (proxmox_cfg demo_pbs_cfg) = Inr l"
proof -
  have "case proxmox_login (proxmox_cfg demo_pbs_cfg) of Inr l \<Rightarrow> True | Inl e \<Rightarrow> False" by code_simp
  then show ?thesis by (simp split: sum.splits)
qed

lemma ready_connect: "\<exists>t. connect_proxmox demo_pbs_env demo_pbs_cfg w = (Inr (), t)"
  using ready_login by (auto simp: connect_proxmox_def bind_act_def res_act_def call_def ret_act_def ready_answers)

lemma ready_pve: "\<exists>items t. pve_items demo_pbs_env demo_pbs_cfg w = (Inr (items, True), t) \<and> error_count items = 0"
proof -
  obtain t1 where 1: "connect_proxmox demo_pbs_env demo_pbs_cfg w = (Inr (), t1)" using ready_connect by blast
  let ?t2 = "t1\<lparr>calls := calls t1 @ [VersionGet]\<rparr>"
  obtain t3 where 3: "connect_proxmox demo_pbs_env demo_pbs_cfg ?t2 = (Inr (), t3)" using ready_connect by blast
  show ?thesis
    by (simp add: pve_items_def test_proxmox_connection_def bind_act_def catch_act_def 1 3 call_def ready_answers
        ret_act_def Let_def)
qed

lemma ready_pbs: "\<exists>items t. pbs_items demo_pbs_env demo_pbs_cfg w = (Inr items, t) \<and> error_count items = 0"
proof -
  obtain k d where "answer demo_pbs_env (calls w) (PbsGet (base_url demo_source @ ''/version'') (token_headers demo_source) [] []) =
      Inr (demo_answer k d)"
    using ready_answers(6) by blast
  then obtain m t where "probe_pbs_source demo_pbs_env demo_source w = (Inr (True, m), t)"
    by (simp add: probe_pbs_source_def authenticated_get_def Let_def demo_auth catch_act_def bind_act_def call_def
        ret_act_def demo_bodies)
  then have "\<exists>rows. probe_all_sources demo_pbs_env demo_pbs_cfg w = (Inr (True, rows), t)"
    by (simp add: probe_all_sources_def demo_sources bind_act_def res_act_def ret_act_def probe_row_def row_ok_def
        dget_def dget_or_def)
  then show ?thesis by (auto simp: pbs_items_def bind_act_def catch_act_def ret_act_def)
qed

lemma ready_node:
  "\<exists>item t. node_item demo_pbs_env ready_location known ''n1'' w = (Inr item, t) \<and> \<not> is_error item"
  if "''n1'' \<in> known"
proof -
  let ?m = "\<lparr>sr_id = ''zfs'', sr_type = [], sr_enabled = True, sr_active = 1, sr_usable_for_vm_disks = True,
      sr_supports_disk_import = True,
      sr_avail_bytes = 0, sr_total_bytes = 0\<rparr>"
  have "List.map_filter storage_row_of [[(''storage'', PStr ''zfs''), (''content'', PStr ''images'')]] = [?m]"
    by code_simp
  then have "list_node_storages demo_pbs_env ''n1'' w = (Inr [?m], w\<lparr>calls := calls w @ [StorageGet ''n1'']\<rparr>)"
    by (simp add: list_node_storages_def bind_act_def call_def ready_answers ret_act_def rows_or_empty_def)
  moreover have "\<not> is_error (storage_item ready_location ''n1'' [?m])"
    by code_simp
  ultimately show ?thesis using that by (auto simp: node_item_def catch_act_def bind_act_def ret_act_def)
qed

lemma ready_nodes:
  "\<exists>t. known_nodes demo_pbs_env w = (Inr ([], {''n1''}), t)"
proof -
  have "List.map_filter node_row_of [[(''node'', PStr ''n1''), (''status'', PStr ''online'')]] =
      [\<lparr>node_name = ''n1'', node_status = ''online'', node_online = True\<rparr>]"
    by code_simp
  then show ?thesis
    by (simp add: known_nodes_def list_cluster_nodes_def catch_act_def bind_act_def call_def ready_answers ret_act_def
        rows_or_empty_def)
qed

lemma ready_members:
  "resolve_groups demo_checkers [ready_group] [demo_backup] (default_cutoff []) [] = Inr [[demo_backup]]"
  by code_simp

lemma ready_vmids: "\<exists>items t. vmid_items demo_pbs_env ready_location [[demo_backup]] w = (Inr items, t) \<and> error_count items = 0"
proof -
  have "all_rows [[demo_backup]] = Inr [109]" by code_simp
  moreover have "in_use_seen demo_pbs_env cs = {}" for cs
    by (simp add: in_use_seen_def ready_answers rows_or_empty_def vmids_of_rows_def)
  ultimately show ?thesis
    by (simp add: vmid_items_def member_total_def bind_act_def catch_act_def qemu_vmids_in_use_eval ret_act_def
        ready_fields res_act_def dr_error_free)
qed

lemma ready_member_items:
  "\<exists>items t. member_items demo_pbs_env demo_pbs_cfg demo_checkers ready_location [ready_group] (default_cutoff []) w
     = (Inr (items, [[demo_backup]]), t) \<and> error_count items = 0"
proof -
  obtain t1 where 1: "known_nodes demo_pbs_env w = (Inr ([], {''n1''}), t1)" using ready_nodes by blast
  obtain item t2 where 2: "node_item demo_pbs_env ready_location {''n1''} ''n1'' t1 = (Inr item, t2)" "\<not> is_error item"
    using ready_node [of "{''n1''}"] by blast
  obtain t3 where 3: "listed_backups demo_pbs_env demo_pbs_cfg t2 = (Inr ([], [demo_backup]), t3)"
    by (simp add: listed_backups_def catch_act_def bind_act_def demo_listing ret_act_def)
  have 4: "tag_items demo_checkers [ready_group] [demo_backup] c n t3 = (Inr ([], []), t3)" for c n
    by (simp add: tag_items_def need_tags_def ready_group_def dget_def dget_or_def ret_act_def)
  obtain items t5 where 5: "vmid_items demo_pbs_env ready_location [[demo_backup]] t3 = (Inr items, t5)"
    "error_count items = 0"
    using ready_vmids by blast
  show ?thesis
    by (simp add: member_items_def bind_act_def 1 2 3 4 5 ready_members ready_fields res_act_def ret_act_def group_item_def)
qed

lemma ready_sizes:
  "\<exists>zo t. size_items demo_checkers [[demo_backup]] w = (Inr ([size_item (the zo)], zo), t) \<and> \<not> is_error (size_item (the zo))"
proof -
  have "str_strip demo_backup ''backup_id'' \<noteq> []" by code_simp
  then have "\<exists>z t. summarize_member_sizes demo_checkers [[demo_backup]] w = (Inr z, t)"
    by (simp add: summarize_member_sizes_def rows_by_id_def Let_def bind_act_def catch_act_def demo_checkers_def
        ret_act_def res_act_def nonzero_of_def)
  then obtain z t where z: "summarize_member_sizes demo_checkers [[demo_backup]] w = (Inr z, t)" by blast
  have "\<not> is_error (size_item z)" by (simp add: size_item_def Let_def split: option.split)
  with z have "size_items demo_checkers [[demo_backup]] w = (Inr ([size_item (the (Some z))], Some z), t) \<and>
      \<not> is_error (size_item (the (Some z)))"
    by (simp add: size_items_def catch_act_def bind_act_def ret_act_def)
  then show ?thesis by blast
qed

lemma ready_check:
  "\<exists>check t. readiness_check demo_pbs_env demo_pbs_cfg demo_checkers ready_plan [] ready_world = (Inr check, t) \<and>
     truthy (dget check ''ok'')"
proof -
  obtain items1 t1 where 1: "pbs_items demo_pbs_env demo_pbs_cfg ready_world = (Inr items1, t1)" "error_count items1 = 0"
    using ready_pbs by blast
  obtain items2 t2 where 2: "pve_items demo_pbs_env demo_pbs_cfg t1 = (Inr (items2, True), t2)" "error_count items2 = 0"
    using ready_pve by blast
  obtain items3 t3 where 3: "member_items demo_pbs_env demo_pbs_cfg demo_checkers ready_location [ready_group]
      (default_cutoff []) t2 = (Inr (items3, [[demo_backup]]), t3)" "error_count items3 = 0"
    using ready_member_items by blast
  obtain zo t4 where 4: "size_items demo_checkers [[demo_backup]] t3 = (Inr ([size_item (the zo)], zo), t4)"
    "\<not> is_error (size_item (the zo))"
    using ready_sizes by blast
  have "ready_location \<noteq> []" by (simp add: ready_location_def)
  then show ?thesis
    by (simp add: readiness_check_def bind_act_def get_act_def res_act_def ret_act_def ready_fields ready_setup 1 2 3 4
        Let_def check_dict_ok empty_items_def member_total_def)
qed

lemma check_report_fuel: "fst (save_check_report E C plan check w) \<noteq> Inl OutOfFuel"
proof -
  have "py_int v \<noteq> Inl OutOfFuel" for v by (cases v) (auto split: option.splits)
  then have "int_or_zero d k \<noteq> Inl OutOfFuel" "approx_net d \<noteq> Inl OutOfFuel" for d k
    by (auto simp: int_or_zero_def approx_net_def res_bind_eq_Inl)
  then have "render_check_report plan check \<noteq> Inl OutOfFuel"
    by (auto simp: render_check_report_def Let_def res_bind_eq_Inl check_size_lines_def split: pyval.splits)
  then show ?thesis
    by (cases "render_check_report plan check")
      (auto simp: save_check_report_def bind_act_def res_act_def save_report_def Let_def)
qed

lemma apply_check_total:
  assumes "dget plan ''id'' = PStr pid" "truthy (dget check ''ok'')"
  shows "\<exists>plan' t. apply_check_result E C plan check w = (Inr plan', t)"
proof -
  let ?up = "checked_plan plan check (utc_now_iso E w)"
  have ns: "need_str plan ''id'' = Inr pid"
    using assms(1) by (auto simp: need_str_def need_key_def dget_def dget_or_def split: option.splits)
  have save: "\<exists>d' t. save_plan_act E C pid d v = (Inr d', t)" for d v
    by (simp add: save_plan_act_def save_entity_def Let_def)
  obtain saved w1 where s: "save_plan_act E C pid ?up w = (Inr saved, w1)" using save by blast
  let ?m = "bind_act (save_check_report E C saved check) (\<lambda>rep.
         bind_act (res_act (need_key rep ''id'')) (\<lambda>rid.
         save_plan_act E C pid (dput saved ''last_check_report_id'' rid)))"
  obtain r t where m: "?m w1 = (r, t)" by fastforce
  have "r \<noteq> Inl OutOfFuel"
  proof
    assume "r = Inl OutOfFuel"
    with m check_report_eval [of E C saved check w1] check_report_fuel [of E C saved check w1] save show False
      by (auto elim!: bind_act_cases simp: res_act_def) (metis Inl_Inr_False prod.inject)+
  qed
  then obtain saved' w2 where r: "catch_act ?m (\<lambda>e. ret_act saved) w1 = (Inr saved', w2)"
    using m by (cases r) (auto simp: catch_act_def ret_act_def)
  have "notify_check_result E C saved' check w2 = (Inr (), w2)"
    using assms(2) by (simp add: notify_check_result_def ret_act_def)
  then have n: "catch_act (notify_check_result E C saved' check) (\<lambda>e. ret_act ()) w2 = (Inr (), w2)"
    by (simp add: catch_act_def)
  have "apply_check_result E C plan check w = (Inr saved', w2)"
    unfolding apply_check_result_def
    by (subst bind_act_eval(2), simp add: get_act_def, subst bind_act_eval(2), simp add: res_act_def ns,
        subst bind_act_eval(2), rule s, subst bind_act_eval(2), rule r, subst bind_act_eval(2), rule n,
        simp add: ret_act_def)
  then show ?thesis by blast
qed


end
