(* ===== verification/WorkerLoop.thy ===== *)
theory WorkerLoop
  imports Readiness Concurrency Worker
begin

text \<open>
  The loop of the worker (\<open>worker.py\<close>): the start of a scheduled run, and one iteration of the loop,
  from the heartbeat to the job that is handed to a thread. The thread itself is \<open>run_job\<close>.
\<close>

subsection \<open>Starting a scheduled run\<close>

definition worker_groups :: "cfg \<Rightarrow> pyval list \<Rightarrow> world \<Rightarrow> exn + dict list" where
  "worker_groups C gids w =
     map_res (\<lambda>v. case group_doc C (py_str v) w of
        None \<Rightarrow> Inl (RuntimeError (''Missing group in plan: '' @ py_str v)) | Some g \<Rightarrow> Inr g) gids"

definition worker_node :: "dict \<Rightarrow> string" where
  "worker_node location =
     (case filter (\<lambda>n. n \<noteq> []) (map strip (or_list location ''nodes'')) of
        n # ns \<Rightarrow> n | [] \<Rightarrow> str_strip location ''node'')"

definition worker_tags :: "env \<Rightarrow> cfg \<Rightarrow> dict \<Rightarrow> dict list \<Rightarrow> dict list \<Rightarrow> string \<Rightarrow> (world, tag_map) act" where
  "worker_tags E C location groups backups cutoff =
     (if \<not> need_tags groups then ret_act []
      else bind_act (res_act (tag_candidates True cutoff [] backups)) (\<lambda>best.
        if worker_node location = [] then
          raise_act (RuntimeError ''Scheduled plan needs a location node to resolve guest tags'')
        else if best = [] then ret_act []
        else bind_act (connect_proxmox E C) (\<lambda>_.
             bind_act (resolve_tags_cached E C (map snd best) (worker_node location)) (\<lambda>(tags, errs). ret_act tags))))"

definition scheduled_cutoff :: "env \<Rightarrow> world \<Rightarrow> string" where
  "scheduled_cutoff E w = datetime_text \<lfloor>now E w\<rfloor> @ ''Z''"

definition scheduled_args :: "dict \<Rightarrow> start_args" where
  "scheduled_args plan =
     (let drill = truthy (dget_or plan ''schedule_drill'' (PBool True))
      in \<lparr>sa_drill = drill, sa_auto_teardown = drill, sa_powered_off = None, sa_power_on = False,
          sa_qga_wait_sec = 0, sa_overwrite = False\<rparr>)"

definition scheduled_rows ::
  "env \<Rightarrow> cfg \<Rightarrow> (string \<Rightarrow> string \<Rightarrow> bool option) \<Rightarrow> dict \<Rightarrow> dict \<Rightarrow> string \<Rightarrow> (world, dict list list) act" where
  "scheduled_rows E C rx plan location cutoff =
     bind_act (list_vm_backups E C) (\<lambda>backups.
     bind_act (res_act (iter_or_empty (dget plan ''group_ids''))) (\<lambda>gids.
     bind_act (\<lambda>w. (worker_groups C gids w, w)) (\<lambda>groups.
     bind_act (worker_tags E C location groups backups cutoff) (\<lambda>tags.
     bind_act (res_act (map_res (\<lambda>g. resolve_group_rows rx g backups cutoff tags) groups)) (\<lambda>group_rows.
       if \<forall>rows \<in> set group_rows. rows = [] then raise_act (RuntimeError ''Scheduled plan resolved to zero backups'')
       else ret_act group_rows)))))"

text \<open>What the start is given: the cutoff, the rows of the groups and the options\<close>

definition scheduled_prepare ::
  "env \<Rightarrow> cfg \<Rightarrow> (string \<Rightarrow> string \<Rightarrow> bool option) \<Rightarrow> dict \<Rightarrow> dict \<Rightarrow>
     (world, string \<times> dict list list \<times> start_args) act" where
  "scheduled_prepare E C rx plan location =
     bind_act (get_act (scheduled_cutoff E)) (\<lambda>cutoff.
     bind_act (scheduled_rows E C rx plan location cutoff) (\<lambda>group_rows.
     ret_act (cutoff, group_rows, scheduled_args plan)))"

definition run_prepared ::
  "env \<Rightarrow> cfg \<Rightarrow> enqueue_fn \<Rightarrow> (dict \<Rightarrow> dict \<Rightarrow> (world, string \<times> dict list list \<times> start_args) act) \<Rightarrow> start_fn" where
  "run_prepared E C enqueue prep plan location =
     bind_act (prep plan location) (\<lambda>(cutoff, group_rows, A).
       start_plan_run E C enqueue plan location cutoff group_rows A)"

definition start_scheduled :: "env \<Rightarrow> cfg \<Rightarrow> (string \<Rightarrow> string \<Rightarrow> bool option) \<Rightarrow> start_fn" where
  "start_scheduled E C rx = run_prepared E C (enqueue_restores E C) (scheduled_prepare E C rx)"

subsection \<open>One iteration\<close>

text \<open>
  The errors of a tick are logged and passed over. \<open>fresh\<close> is the configuration file as it is now, if it
  can be read, \<open>token\<close> the value the heartbeat writes; \<open>BLPOP\<close> takes the first job, or none after its wait.
  The result is the job for the new thread, and the time of the last purge.
\<close>

definition current_max_concurrent :: "cfg \<Rightarrow> cfg option \<Rightarrow> exn + int" where
  "current_max_concurrent C fresh =
     res_bind (py_int (dget_or (worker_cfg (case fresh of None \<Rightarrow> C | Some D \<Rightarrow> D)) ''max_concurrent_restores'' (PInt 2)))
       (\<lambda>n. Inr (max 1 n))"

definition logged :: "(world, 'a) act \<Rightarrow> (world, unit) act" where
  "logged m = catch_act (bind_act m (\<lambda>_. ret_act ())) (\<lambda>e. ret_act ())"

definition take_job :: "cfg \<Rightarrow> (world, string option) act" where
  "take_job C = (\<lambda>w. case lrange_all (queue_key C) w of
      [] \<Rightarrow> (Inr None, release_slot C w)
    | j # js \<Rightarrow> (Inr (Some j), set_list (queue_key C) js w))"

definition worker_ticks ::
  "env \<Rightarrow> cfg \<Rightarrow> checkers \<Rightarrow> (world, unit) act" where
  "worker_ticks E C K =
     bind_act (logged (advance_plan_runs E C (enqueue_restores E C))) (\<lambda>_.
     bind_act (logged (tick_plan_readiness E C K (\<lambda>plan e. ret_act ()))) (\<lambda>_.
     logged (tick_scheduled_plan_runs E C (start_scheduled E C (ck_search K)) (\<lambda>plan e. ret_act ()))))"

definition worker_purge :: "env \<Rightarrow> cfg \<Rightarrow> rat \<Rightarrow> (world, rat) act" where
  "worker_purge E C last_purge = (\<lambda>w.
     if 300 < now E w - last_purge then (Inr (now E w), snd (purge_expired_scan E C 500 w))
     else (Inr last_purge, w))"

definition worker_iteration ::
  "env \<Rightarrow> cfg \<Rightarrow> checkers \<Rightarrow> cfg option \<Rightarrow> string \<Rightarrow> rat \<Rightarrow> (world, string option \<times> rat) act" where
  "worker_iteration E C K fresh token last_purge =
     bind_act (upd_act (\<lambda>w. snd (touch_worker_heartbeat C token 60 w))) (\<lambda>_.
     bind_act (get_act (is_queue_paused C)) (\<lambda>paused.
       if paused then bind_act (sleep 1) (\<lambda>_. ret_act (None, last_purge))
       else
         bind_act (worker_ticks E C K) (\<lambda>_.
         bind_act (worker_purge E C last_purge) (\<lambda>purged.
         bind_act (res_act (current_max_concurrent C fresh)) (\<lambda>limit.
         bind_act (try_acquire_slot C (Some limit)) (\<lambda>got.
           if \<not> got then bind_act (sleep 1) (\<lambda>_. ret_act (None, purged))
           else bind_act (take_job C) (\<lambda>j. ret_act (j, purged))))))))"

subsection \<open>What a scheduled start leaves of the plan\<close>

lemma start_plan_run_saves:
  assumes "start_plan_run E C enq plan location cutoff rows A w = (Inr run, t)"
  obtains stamp w0 where "t = save_plan_doc E C (started_plan plan stamp) w0"
  using assms
  by (auto simp: start_plan_run_def bind_act_Inr_iff upd_act_def ret_act_def raise_act_def Let_def split: if_splits)

lemma run_prepared_saves:
  assumes "run_prepared E C enq prep plan location w = (Inr run, t)"
  obtains stamp w0 where "t = save_plan_doc E C (started_plan plan stamp) w0"
proof -
  obtain c rows A w1 where "start_plan_run E C enq plan location c rows A w1 = (Inr run, t)"
    using assms by (auto simp: run_prepared_def bind_act_Inr_iff)
  then show thesis by (rule start_plan_run_saves) (rule that)
qed

lemma scheduled_one_started:
  assumes "scheduled_one E C start on_error plan w = (Inr True, t)"
  obtains location run w1 where "get_location C (str_or_empty (dget plan ''location_id'')) w = Some location"
    "\<not> plan_has_active_run C plan w" "start plan location w = (Inr run, w1)"
    "t = save_plan_doc E C (dput plan ''last_scheduled_run_at'' (PStr (utc_now_iso E w1))) w1"
proof -
  obtain location where loc: "get_location C (str_or_empty (dget plan ''location_id'')) w = Some location"
    and idle: "\<not> plan_has_active_run C plan w"
    and got: "catch_act
            (bind_act (start plan location) (\<lambda>_.
             bind_act (scheduled_save E C plan) (\<lambda>_. ret_act True)))
            (\<lambda>e. bind_act (on_error plan e) (\<lambda>_. ret_act False)) w = (Inr True, t)"
    using assms by (auto simp: scheduled_one_def Let_def split: if_splits option.splits)
  from got show thesis
  proof (cases rule: catch_act_cases)
    case (ok x)
    then obtain run w1 where "start plan location w = (Inr run, w1)"
      "scheduled_save E C plan w1 = (Inr (), t)"
      by (auto simp: bind_act_Inr_iff ret_act_def)
    moreover from this(2) have "t = save_plan_doc E C (dput plan ''last_scheduled_run_at'' (PStr (utc_now_iso E w1))) w1"
      by (auto simp: scheduled_save_def bind_act_Inr_iff res_act_def upd_act_def)
    ultimately show thesis using loc idle that by blast
  qed (auto simp: bind_act_Inr_iff ret_act_def)
qed

lemma get_saved_plan:
  "dget d ''id'' = PStr pid \<Longrightarrow> get_plan C pid (save_plan_doc E C d w) = Some (stamp_entity pid (utc_now_iso E w) d)"
  by (simp add: get_plan_def save_plan_doc_def save_entity_def plan_doc_id_def Let_def)

lemma not_due_again:
  assumes "last_scheduled d = Some prev" "c - prev < schedule_hours d * 3600"
  shows "\<not> schedule_due c d"
  using assms by (simp add: schedule_due_def)

text \<open>C29: A scheduled start is spaced, and undoes what the start wrote to the plan. When the scheduler
  reports a start, the plan had no active run, the run was started, and the plan that is stored is the
  one listed at the beginning of the tick with the new time in \<open>last_scheduled_run_at\<close>: it is not due
  again before its interval has passed, and every other field has its old value, so a VERIFIED plan,
  which the start had set to NEEDS_VERIFIED, is VERIFIED again.\<close>

theorem scheduled_start_undone:
  assumes started: "scheduled_one E C (run_prepared E C enq prep) on_error plan w = (Inr True, t)"
    and pid: "dget plan ''id'' = PStr pid"
  shows "\<exists>location run w1 d1 d2.
    \<not> plan_has_active_run C plan w \<and> run_prepared E C enq prep plan location w = (Inr run, w1) \<and>
    get_plan C pid w1 = Some d1 \<and> get_plan C pid t = Some d2 \<and>
    dget d2 ''last_scheduled_run_at'' = PStr (utc_now_iso E w1) \<and>
    (\<forall>prev c. last_scheduled d2 = Some prev \<and> c - prev < schedule_hours plan * 3600 \<longrightarrow> \<not> schedule_due c d2) \<and>
    (\<forall>k. k \<notin> {''id'', ''updated_at'', ''created_at'', ''last_scheduled_run_at''} \<longrightarrow> dget d2 k = dget plan k) \<and>
    (dget plan ''verification'' = PStr (verification_value VERIFIED) \<longrightarrow>
       dget d1 ''verification'' = PStr (verification_value NEEDS_VERIFIED) \<and>
       dget d2 ''verification'' = PStr (verification_value VERIFIED))"
proof -
  obtain location run w1 where idle: "\<not> plan_has_active_run C plan w"
    and run: "run_prepared E C enq prep plan location w = (Inr run, w1)"
    and t: "t = save_plan_doc E C (dput plan ''last_scheduled_run_at'' (PStr (utc_now_iso E w1))) w1"
    using scheduled_one_started [OF started] by blast
  obtain stamp w0 where w1: "w1 = save_plan_doc E C (started_plan plan stamp) w0" by (rule run_prepared_saves [OF run])
  let ?d1 = "stamp_entity pid (utc_now_iso E w0) (started_plan plan stamp)"
  let ?d2 = "stamp_entity pid (utc_now_iso E w1) (dput plan ''last_scheduled_run_at'' (PStr (utc_now_iso E w1)))"
  have d1: "get_plan C pid w1 = Some ?d1"
    unfolding w1 by (rule get_saved_plan) (simp add: started_plan_def pid)
  have d2: "get_plan C pid t = Some ?d2"
    unfolding t by (rule get_saved_plan) (simp add: pid)
  have "schedule_hours ?d2 = schedule_hours plan" by (simp add: schedule_hours_def)
  then have "\<forall>prev c. last_scheduled ?d2 = Some prev \<and> c - prev < schedule_hours plan * 3600 \<longrightarrow> \<not> schedule_due c ?d2"
    using not_due_again by metis
  moreover have "dget ?d2 ''last_scheduled_run_at'' = PStr (utc_now_iso E w1)"
    "\<forall>k. k \<notin> {''id'', ''updated_at'', ''created_at'', ''last_scheduled_run_at''} \<longrightarrow> dget ?d2 k = dget plan k"
    by simp_all
  moreover have "dget plan ''verification'' = PStr (verification_value VERIFIED) \<longrightarrow>
      dget ?d1 ''verification'' = PStr (verification_value NEEDS_VERIFIED) \<and>
      dget ?d2 ''verification'' = PStr (verification_value VERIFIED)"
    by (simp add: started_plan_def)
  ultimately show ?thesis using idle run d1 d2 by blast
qed

definition demo_scheduled_plan :: dict where
  "demo_scheduled_plan = [(''id'', PStr ''p1''), (''name'', PStr ''web''), (''group_ids'', PList [PStr ''g1'']),
     (''location_id'', PStr ''l1''), (''verification'', PStr ''VERIFIED''), (''schedule_enabled'', PBool True),
     (''schedule_interval_hours'', PInt 24)]"

definition demo_site :: dict where
  "demo_site = [(''id'', PStr ''l1''), (''name'', PStr ''lab''), (''node'', PStr ''n1''), (''storage'', PStr ''zfs''),
     (''vmid_start'', PInt 100)]"

definition demo_member :: dict where
  "demo_member = [(''backup_id'', PStr ''s|vm/109/t''), (''vmid'', PInt 109), (''name'', PStr ''web''),
     (''timestamp'', PStr ''t''), (''pve_storage'', PStr ''pbs''), (''voltail'', PStr ''vm/109/t'')]"

definition demo_queued :: enqueue_fn where
  "demo_queued rows A = ret_act \<lparr>er_job_ids = [''j1''], er_vmids = [109], er_nodes = [''n1''], er_storages = [''zfs''],
     er_candidates = [''n1''], er_storage_by_node = [], er_restore_mode = ''normal'', er_power_on = False,
     er_qga_wait_sec = 0\<rparr>"

definition demo_prep :: "dict \<Rightarrow> dict \<Rightarrow> (world, string \<times> dict list list \<times> start_args) act" where
  "demo_prep plan location = ret_act (''t'', [[demo_member]], scheduled_args plan)"

definition demo_site_world :: world where
  "demo_site_world = set_doc (location_key demo_cfg ''l1'') demo_site empty_world"

lemma demo_site_params: "\<exists>p. run_params_of demo_scheduled_plan demo_site ''t'' stamp A = Inr p"
  by (simp add: demo_scheduled_plan_def demo_site_def run_params_of_def need_str_def need_key_def int_or_zero_def
      py_or_def dget_def dget_or_def)

lemma demo_pending: "\<exists>d. pending_row demo_member = Inr d"
  by (simp add: pending_row_def demo_member_def need_key_def int_or_zero_def py_or_def dget_def dget_or_def)

lemma demo_prepared:
  "\<exists>run w1. run_prepared idle_env demo_cfg demo_queued demo_prep demo_scheduled_plan demo_site w = (Inr run, w1)"
proof -
  have "need_key demo_scheduled_plan ''group_ids'' = Inr (PList [PStr ''g1''])"
    by (simp add: need_key_def demo_scheduled_plan_def)
  moreover obtain p where "run_params_of demo_scheduled_plan demo_site ''t'' (utc_now_iso idle_env
      (w\<lparr>uuids := Suc (uuids w)\<rparr>)) (scheduled_args demo_scheduled_plan) = Inr p"
    using demo_site_params by blast
  moreover obtain d where "pending_row demo_member = Inr d" using demo_pending by blast
  ultimately show ?thesis
    by (simp add: run_prepared_def demo_prep_def bind_act_def ret_act_def start_plan_run_def res_act_def strs_of_def
        new_uuid_def get_act_def save_run_def demo_queued_def upd_act_def Let_def first_group_def)
qed

theorem scheduled_start_undone_witness:
  "\<exists>t d2. scheduled_one idle_env demo_cfg (run_prepared idle_env demo_cfg demo_queued demo_prep) (\<lambda>p e. ret_act ())
      demo_scheduled_plan demo_site_world = (Inr True, t) \<and> get_plan demo_cfg ''p1'' t = Some d2 \<and>
    dget d2 ''verification'' = PStr (verification_value VERIFIED)"
proof -
  have fields: "dget demo_scheduled_plan ''location_id'' = PStr ''l1''" "dget demo_scheduled_plan ''id'' = PStr ''p1''"
    "dget demo_scheduled_plan ''verification'' = PStr (verification_value VERIFIED)" "demo_site \<noteq> []"
    "need_key demo_scheduled_plan ''id'' = Inr (PStr ''p1'')"
    by (simp_all add: demo_scheduled_plan_def dget_def dget_or_def demo_site_def need_key_def)
  have "get_location demo_cfg ''l1'' demo_site_world = Some demo_site"
    by (simp add: get_location_def demo_site_world_def)
  moreover have "\<not> plan_has_active_run demo_cfg demo_scheduled_plan demo_site_world"
    by (simp add: plan_has_active_run_def demo_site_world_def smembers_def set_doc_def empty_world_def empty_store_def
        store.defs)
  moreover obtain run w1 where "run_prepared idle_env demo_cfg demo_queued demo_prep demo_scheduled_plan demo_site
      demo_site_world = (Inr run, w1)"
    using demo_prepared by blast
  ultimately have "\<exists>t. scheduled_one idle_env demo_cfg (run_prepared idle_env demo_cfg demo_queued demo_prep)
      (\<lambda>p e. ret_act ()) demo_scheduled_plan demo_site_world = (Inr True, t)"
    by (simp add: scheduled_one_def Let_def fields catch_act_def bind_act_def scheduled_save_def res_act_def upd_act_def
        ret_act_def)
  then obtain t where t: "scheduled_one idle_env demo_cfg (run_prepared idle_env demo_cfg demo_queued demo_prep)
      (\<lambda>p e. ret_act ()) demo_scheduled_plan demo_site_world = (Inr True, t)" by blast
  from scheduled_start_undone [OF this fields(2)] show ?thesis
    by (elim exE conjE, intro exI conjI)
      (rule t, assumption, rule conjunct2 [OF mp [OF _ fields(3)]], assumption)
qed

end
