(* ===== verification/ApiProps.thy ===== *)
theory ApiProps
  imports ApiPlans RunProps WireProps
begin

text \<open>
  What the gates of the API guarantee of the runs and the jobs that pass them: a guest that will boot
  is isolated or allowed not to be, and an overwrite is confirmed, with the one case that the gate
  of a plan run misses.
\<close>

subsection \<open>The steps of a handler\<close>

lemma read_doc_Inr [simp]:
  "read_doc e get w = (Inr d, t) \<longleftrightarrow> get w = Some d \<and> d \<noteq> [] \<and> t = w"
  by (auto simp: read_doc_def doc_or_def found_def split: option.splits)

lemma refuse_Inr [simp]: "refuse b e w = (Inr u, t) \<longleftrightarrow> \<not> b \<and> t = w"
  by (auto simp: refuse_def raise_act_def ret_act_def)

lemma res_act_Inr [simp]: "res_act r w = (Inr x, t) \<longleftrightarrow> r = Inr x \<and> t = w"
  by (auto simp: res_act_def)

lemma catch_raise_Inr:
  "catch_act m (\<lambda>e. raise_act (f e)) w = (Inr x, t) \<longleftrightarrow> m w = (Inr x, t)"
  by (auto simp: catch_act_def raise_act_def split: prod.splits sum.splits)

lemma value_errors_Inr [simp]: "value_errors m w = (Inr x, t) \<longleftrightarrow> m w = (Inr x, t)"
  unfolding value_errors_def by (rule catch_raise_Inr)

lemma api_enqueue_Inr [simp]:
  "api_enqueue E C rows A w = (Inr x, t) \<longleftrightarrow> enqueue_restores E C rows A w = (Inr x, t)"
  unfolding api_enqueue_def by (rule catch_raise_Inr)

lemma overwrite_confirmed:
  "assert_overwrite_confirm overwrite confirmed mode = Inr u \<longleftrightarrow>
     (overwrite \<longrightarrow> lower (strip mode) = ''dr'' \<and> confirmed)"
  by (auto simp: assert_overwrite_confirm_def)

definition net_isolated :: "string \<Rightarrow> bool \<Rightarrow> bool" where
  "net_isolated network_mode isolated \<longleftrightarrow> isolated \<or> normalize_net_mode network_mode \<in> {''unlink'', ''remap''}"

lemma power_on_isolated:
  "assert_power_on_isolation power_on qga live net isolated allow = Inr u \<longleftrightarrow>
     (power_on \<or> 0 < qga \<or> live \<longrightarrow> allow \<or> net_isolated net isolated)"
  by (auto simp: assert_power_on_isolation_def Let_def net_isolated_def isolation_error_def)

subsection \<open>What a started run takes from its request\<close>

lemma start_plan_run_params:
  assumes "start_plan_run E C enqueue plan location cutoff rows A w = (Inr run, t)"
  obtains stamp where "run_params_of plan location cutoff stamp A = Inr (pr_params run)"
  using assms
  by (auto simp: start_plan_run_def bind_act_Inr_iff upd_act_def ret_act_def raise_act_def Let_def
      get_act_def new_run_def with_group_jobs_def record_assigned_targets_def split: if_splits)

lemma launch_params:
  assumes "launch E C rx actor plan location cutoff A action detail w = (Inr v, t)"
  obtains stamp where
    "run_params_of plan location (normalize_cutoff cutoff) stamp A = Inr (pr_params (rv_run v))"
proof -
  from assms obtain rows run w1 w2 t' where
    st: "start_plan_run E C (api_enqueue E C) plan location (normalize_cutoff cutoff) rows A w1 = (Inr run, w2)"
    and ag: "aggregate_plan_run C run t' = Inr v"
    by (auto simp: launch_def bind_act_Inr_iff)
  from st obtain stamp where
    "run_params_of plan location (normalize_cutoff cutoff) stamp A = Inr (pr_params run)"
    by (rule start_plan_run_params)
  then show thesis using aggregate_fields(1) [OF ag] that by simp
qed

lemma run_params_start:
  assumes "run_params_of plan location cutoff stamp A = Inr p"
  shows "rn_power_on p = fst (start_power location A)" "rn_qga_wait_sec p = snd (start_power location A)"
    "rn_live_restore p = start_live location A" "rn_overwrite p = sa_overwrite A" "rn_drill p = sa_drill A"
    "rn_auto_teardown p = (sa_auto_teardown A \<and> sa_drill A)"
  using assms by (auto simp: run_params_of_def)

definition run_boots :: "run_params \<Rightarrow> bool" where
  "run_boots p \<longleftrightarrow> rn_power_on p \<or> 0 < rn_qga_wait_sec p \<or> rn_live_restore p"

text \<open>The start that the gate of a run does not see as one that boots\<close>

definition ungated_drill :: "dict \<Rightarrow> run_request \<Rightarrow> bool" where
  "ungated_drill location body \<longleftrightarrow>
     pb_drill body \<and> pb_powered_off body = Some False \<and> \<not> pb_power_on body \<and> pb_qga_wait_sec body = 0 \<and>
     truthy (dget location ''live_restore'')"

lemma run_boots_cases:
  assumes p: "run_params_of plan location cutoff stamp (run_start_args body) = Inr p"
    and boots: "run_boots p" and qga: "0 \<le> pb_qga_wait_sec body"
  shows "wants_power location body \<or> wants_live location body \<or> 0 < pb_qga_wait_sec body \<or> ungated_drill location body"
proof (rule ccontr)
  assume no: "\<not> ?thesis"
  then have off: "\<not> pb_power_on body" "\<not> wants_live location body" "pb_qga_wait_sec body = 0"
    "\<not> pb_drill body \<Longrightarrow> \<not> truthy (dget location ''power_on'')" "\<not> ungated_drill location body"
    using qga by (auto simp: wants_power_def)
  have power: "start_power location (run_start_args body) = (False, 0)"
    using off by (cases "pb_drill body") (simp_all add: start_power_def run_start_args_def)
  have live: "\<not> start_live location (run_start_args body)"
    using off power
    by (auto simp: start_live_def start_powered_off_def run_start_args_def wants_live_def ungated_drill_def
        split: option.splits)
  from boots show False unfolding run_boots_def run_params_start [OF p] using power live by simp
qed

lemma gate_isolates:
  assumes gate: "run_gate location body = Inr u"
    and wants: "wants_power location body \<or> wants_live location body \<or> 0 < pb_qga_wait_sec body"
    and qga: "0 \<le> pb_qga_wait_sec body"
  shows "pb_allow_non_isolated body \<or> net_isolated (location_net location) (truthy (dget location ''isolated''))"
proof -
  obtain q where q: "py_int (py_or (py_or (PInt (pb_qga_wait_sec body)) (dget location ''qga_wait_sec'')) (PInt 0)) = Inr q"
    and iso: "assert_power_on_isolation (wants_power location body) q (wants_live location body) (location_net location)
         (truthy (dget location ''isolated'')) (pb_allow_non_isolated body) = Inr ()"
    using gate wants by (auto simp: run_gate_def)
  have "0 < q" if "0 < pb_qga_wait_sec body" using q that by (simp add: py_or_def)
  with iso wants show ?thesis by (auto simp: power_on_isolated)
qed

lemma dr_gate_Inr:
  "dr_gate detail location confirm_dr overwrite confirmed = Inr u \<longleftrightarrow>
     (location_mode_of location = ''dr'' \<longrightarrow> confirm_dr) \<and>
     (overwrite \<longrightarrow> lower (strip (location_mode_of location)) = ''dr'' \<and> confirmed)"
  by (auto simp: dr_gate_def overwrite_confirmed bad_request_def)


lemma location_mode_clean [simp]: "lower (strip (location_mode_of location)) = location_mode_of location"
  by (simp add: location_mode_of_def strip_lower)

subsection \<open>The runs\<close>

text \<open>C4: A plan run that the API starts is gated. When the handler answers with a run, the plan was stored,
  enabled and, where the configuration asks for it, VERIFIED or waived; a disaster recovery location was
  confirmed, and the run overwrites guests only there and with a second confirmation. If the
  run boots its guests, the location is isolated or the request allows a network, except for one start
  that the gate takes for a powered-off drill: a drill with powered_off false at a location with live
  restore, which boots them on the location's own network.\<close>

theorem plan_run_gated:
  assumes started: "api_run_plan E C rx actor plan_id body w = (Inr v, t)" and ok: "run_body_ok body"
  shows "\<exists>plan location lid. get_plan C plan_id w = Some plan \<and> asked_location (pb_location body) plan = Inr lid \<and>
    get_location C lid w = Some location \<and> plan_enabled plan \<and> \<not> plan_unverified C plan (pb_allow_unverified body) \<and>
    (location_mode_of location = ''dr'' \<longrightarrow> pb_confirm_dr body) \<and>
    (rn_overwrite (pr_params (rv_run v)) \<longrightarrow>
       location_mode_of location = ''dr'' \<and> pb_confirm_dr body \<and> pb_confirm_overwrite body) \<and>
    (run_boots (pr_params (rv_run v)) \<longrightarrow>
       pb_allow_non_isolated body \<or> net_isolated (location_net location) (truthy (dget location ''isolated'')) \<or>
       ungated_drill location body)"
proof -
  obtain plan location lid u where
    plan: "get_plan C plan_id w = Some plan" "plan_enabled plan" "\<not> plan_unverified C plan (pb_allow_unverified body)"
    and loc: "asked_location (pb_location body) plan = Inr lid" "get_location C lid w = Some location"
    and gate: "run_gate location body = Inr u"
    and run: "launch E C rx actor plan location (pb_at_or_before body) (run_start_args body) ''plan.run''
      (\<lambda>run. [(''plan_id'', PStr plan_id), (''run_id'', PStr (pr_id run)), (''drill'', PBool (pb_drill body)),
              (''overwrite'', PBool (pb_overwrite body))]) w = (Inr v, t)"
    using started by (auto simp: api_run_plan_def bind_act_Inr_iff)
  obtain stamp where p: "run_params_of plan location (normalize_cutoff (pb_at_or_before body)) stamp
      (run_start_args body) = Inr (pr_params (rv_run v))"
    using run by (rule launch_params)
  have qga: "0 \<le> pb_qga_wait_sec body" using ok by (simp add: run_body_ok_def)
  have dr: "location_mode_of location = ''dr'' \<longrightarrow> pb_confirm_dr body"
    "pb_overwrite body \<longrightarrow> location_mode_of location = ''dr'' \<and> pb_confirm_overwrite body"
    using gate by (auto simp: run_gate_def dr_gate_Inr)
  have boots: "run_boots (pr_params (rv_run v)) \<longrightarrow> pb_allow_non_isolated body \<or>
      net_isolated (location_net location) (truthy (dget location ''isolated'')) \<or> ungated_drill location body"
    using run_boots_cases [OF p _ qga] gate_isolates [OF gate _ qga] by blast
  have over: "rn_overwrite (pr_params (rv_run v)) = pb_overwrite body"
    by (simp add: run_params_start(4) [OF p] run_start_args_def)
  show ?thesis using plan loc dr boots unfolding over by blast
qed

text \<open>C21: An assurance drill is gated without exception. When the handler answers with a run, it is a drill that
  tears its guests down; it boots them exactly when the plan's policy asks for an answer of the guest
  agent or of a URL, and then the location is isolated or the request allows a network; and a policy
  that asks for a URL has one at the location.\<close>

theorem assurance_drill_gated:
  assumes started: "api_assure_plan E C rx actor plan_id body w = (Inr v, t)"
  shows "\<exists>plan location. get_plan C plan_id w = Some plan \<and>
    get_location C (str_or_empty (dget plan ''location_id'')) w = Some location \<and>
    plan_enabled plan \<and> truthy (dget plan ''assurance_enabled'') \<and>
    \<not> plan_unverified C plan (ab_allow_unverified body) \<and>
    rn_drill (pr_params (rv_run v)) \<and> rn_auto_teardown (pr_params (rv_run v)) \<and>
    (run_boots (pr_params (rv_run v)) \<longleftrightarrow> needs_boot plan) \<and>
    (needs_boot plan \<longrightarrow>
       ab_allow_non_isolated body \<or> net_isolated (location_net location) (truthy (dget location ''isolated''))) \<and>
    (truthy (dget plan ''assurance_require_http'') \<longrightarrow> strip (str_or_empty (dget location ''http_check_url'')) \<noteq> []) \<and>
    (rn_overwrite (pr_params (rv_run v)) \<longrightarrow>
       location_mode_of location = ''dr'' \<and> ab_confirm_dr body \<and> ab_confirm_overwrite body)"
proof -
  obtain plan location qga where
    plan: "get_plan C plan_id w = Some plan" "plan_enabled plan" "truthy (dget plan ''assurance_enabled'')"
      "\<not> plan_unverified C plan (ab_allow_unverified body)"
    and loc: "get_location C (str_or_empty (dget plan ''location_id'')) w = Some location"
    and gate: "assure_gate C plan location body = Inr qga"
    and run: "launch E C rx actor plan location (ab_at_or_before body) (assure_start_args plan qga (ab_overwrite body))
      ''plan.assure'' (\<lambda>run. [(''plan_id'', PStr plan_id), (''run_id'', PStr (pr_id run))]) w = (Inr v, t)"
    using started by (auto simp: api_assure_plan_def bind_act_Inr_iff)
  obtain stamp where p: "run_params_of plan location (normalize_cutoff (ab_at_or_before body)) stamp
      (assure_start_args plan qga (ab_overwrite body)) = Inr (pr_params (rv_run v))"
    using run by (rule launch_params)
  have q: "assure_qga C plan location = Inr qga" and
    http: "truthy (dget plan ''assurance_require_http'') \<longrightarrow> strip (str_or_empty (dget location ''http_check_url'')) \<noteq> []"
    and iso: "needs_boot plan \<longrightarrow>
      ab_allow_non_isolated body \<or> net_isolated (location_net location) (truthy (dget location ''isolated''))"
    and dr: "location_mode_of location = ''dr'' \<longrightarrow> ab_confirm_dr body"
      "ab_overwrite body \<longrightarrow> location_mode_of location = ''dr'' \<and> ab_confirm_overwrite body"
    using gate by (auto simp: assure_gate_def dr_gate_Inr power_on_isolated split: if_splits)
  have off: "qga = 0" if "\<not> needs_boot plan" using q that by (simp add: assure_qga_def)
  have boots: "run_boots (pr_params (rv_run v)) \<longleftrightarrow> needs_boot plan"
    unfolding run_boots_def run_params_start [OF p]
    by (cases "needs_boot plan")
      (simp_all add: start_power_def start_live_def start_powered_off_def assure_start_args_def off)
  have rest: "rn_overwrite (pr_params (rv_run v)) = ab_overwrite body" "rn_drill (pr_params (rv_run v))"
    "rn_auto_teardown (pr_params (rv_run v))"
    by (simp_all add: run_params_start(4-6) [OF p] assure_start_args_def)
  show ?thesis using plan loc boots http iso dr rest by blast
qed

subsection \<open>The restores of selected backups\<close>

lemma map_act_length: "map_act f xs s = (Inr ys, t) \<Longrightarrow> length ys = length xs"
  by (induction xs arbitrary: s ys) (auto simp: bind_act_Inr_iff ret_act_def)

text \<open>
  What a request selects: its ids without blanks and repetitions, and for an id the last row of the
  listing that carries it (the dictionary of the handler keeps the last of equal keys).
\<close>

definition selected_ids :: "string list \<Rightarrow> string list" where
  "selected_ids ids = dedup_by (\<lambda>b. b) [] (filter (\<lambda>b. b \<noteq> []) (map strip ids))"

definition row_of_id :: "dict list \<Rightarrow> string \<Rightarrow> dict \<Rightarrow> bool" where
  "row_of_id listed b row \<longleftrightarrow>
     (let found = filter (\<lambda>r. need_str r ''backup_id'' = Inr b) listed in found \<noteq> [] \<and> row = last found)"

lemma ordered_rows_found:
  "ordered_rows backups seen ids = Inr rows \<Longrightarrow>
     list_all2 (\<lambda>i row. map_of backups i = Some row)
       (dedup_by (\<lambda>b. b) seen (filter (\<lambda>b. b \<noteq> []) (map strip ids))) rows"
  by (induction backups seen ids arbitrary: rows rule: ordered_rows.induct)
    (auto simp: Let_def split: if_splits option.splits)

lemma fold_update_last:
  "map_of (fold (\<lambda>(b, row). AList.update b row) xs m) i =
     (let found = filter (\<lambda>x. fst x = i) xs in if found = [] then map_of m i else Some (snd (last found)))"
  by (induction xs arbitrary: m) (auto simp: Let_def update_conv')

lemma keyed_rows:
  "map_res (\<lambda>row. res_bind (need_str row ''backup_id'') (\<lambda>b. Inr (b, row))) listed = Inr brs \<Longrightarrow>
     map snd (filter (\<lambda>x. fst x = b) brs) = filter (\<lambda>r. need_str r ''backup_id'' = Inr b) listed"
  by (induction listed arbitrary: brs) (auto simp: res_bind_eq_Inr)

lemma selected_rows_found:
  assumes "selected_rows listed ids = Inr rows"
  shows "rows \<noteq> []" "list_all2 (row_of_id listed) (selected_ids ids) rows"
proof -
  obtain brs where brs: "map_res (\<lambda>row. res_bind (need_str row ''backup_id'') (\<lambda>b. Inr (b, row))) listed = Inr brs"
    and ord: "ordered_rows (fold (\<lambda>(b, row). AList.update b row) brs []) [] ids = Inr rows" and "rows \<noteq> []"
    using assms by (auto simp: selected_rows_def backups_by_id_def split: if_splits simp del: map_res.simps)
  then show "rows \<noteq> []" by simp
  have "row_of_id listed b row"
    if "map_of (fold (\<lambda>(b, row). AList.update b row) brs []) b = Some row" for b row
  proof -
    let ?found = "filter (\<lambda>x. fst x = b) brs"
    have "?found \<noteq> []" "row = snd (last ?found)"
      using that by (auto simp: fold_update_last Let_def split: if_splits)
    then have "map snd ?found \<noteq> []" "row = last (map snd ?found)" by (simp_all add: last_map)
    then show ?thesis unfolding keyed_rows [OF brs] by (simp add: row_of_id_def)
  qed
  then show "list_all2 (row_of_id listed) (selected_ids ids) rows"
    unfolding selected_ids_def by (rule list_all2_mono [OF ordered_rows_found [OF ord]])
qed

lemma row_of_id_mem: "row_of_id listed b row \<Longrightarrow> row \<in> set listed \<and> need_str row ''backup_id'' = Inr b"
proof -
  assume r: "row_of_id listed b row"
  then have "row \<in> set (filter (\<lambda>r. need_str r ''backup_id'' = Inr b) listed)"
    unfolding row_of_id_def Let_def by (metis last_in_set)
  then show ?thesis by simp
qed

subsection \<open>The listing leaves Redis alone\<close>

lemma keeps_authenticated_get: "keeps (emits_rel UNIV) (authenticated_get E x path params)"
  unfolding authenticated_get_def Let_def fetch_ticket_def
  by (intro emits.keeps_if emits.keeps_bind keeps_call emits.keeps_res emits.keeps_raise) (auto split: prod.split)

lemma keeps_list_source: "keeps (emits_rel UNIV) (list_source_backups E x)"
  unfolding list_source_backups_def
  by (intro emits.keeps_if emits.keeps_bind keeps_authenticated_get emits.keeps_res emits.keeps_raise)

lemma keeps_list_each: "keeps (emits_rel UNIV) (list_each E xs)"
proof (induction xs)
  case (Cons x xs)
  have "keeps (emits_rel UNIV) (\<lambda>s. f p s)" if "\<And>rows errs. keeps (emits_rel UNIV) (f (rows, errs))" for f p
    using that by (cases p) simp
  show ?case
    by (auto intro!: emits.keeps_bind emits.keeps_catch keeps_list_source emits.keeps_ret Cons split: prod.split)
qed (simp add: emits.keeps_ret)

lemma keeps_list_vm_backups: "keeps (emits_rel UNIV) (list_vm_backups E C)"
  unfolding list_vm_backups_def
  by (auto intro!: emits.keeps_if emits.keeps_bind keeps_list_each emits.keeps_res emits.keeps_raise emits.keeps_ret
      split: prod.split)

subsection \<open>The job of a selected row\<close>

text \<open>
  The hash of the job is the one built of the row and its target; in particular it names the backup, waits, and
  overwrites and starts as the request asks.
\<close>

definition job_of_row ::
  "cfg \<Rightarrow> enqueue_args \<Rightarrow> enqueue_result \<Rightarrow> world \<Rightarrow> nat \<Rightarrow> string \<Rightarrow> dict \<Rightarrow> bool" where
  "job_of_row C A res t i b row \<longleftrightarrow>
     (let j = er_job_ids res ! i; h = hgetall (job_key C j) t in
      (\<exists>m stamp. job_mapping A (er_restore_mode res) row (er_vmids res ! i) (er_nodes res ! i) (er_storages res ! i) j stamp = Inr m \<and>
         map_of h = map_of m) \<and>
      map_of h ''backup_id'' = Some b \<and> map_of h ''state'' = Some (state_value PENDING) \<and>
      map_of h ''proxmox_vmid'' = Some (str_of_int (er_vmids res ! i)) \<and>
      map_of h ''overwrite'' = Some (flag (ea_overwrite A)) \<and>
      map_of h ''power_on'' = Some (flag (er_power_on res)) \<and>
      map_of h ''network_mode'' = Some (enqueue_net_mode A))"

lemma redis_val_str: "redis_val v = Inr x \<Longrightarrow> x = py_str v"
  by (cases v) auto

lemma job_mapping_fields:
  assumes "job_mapping A mode row v n st j stamp = Inr m" "need_str row ''backup_id'' = Inr b"
  shows "map_of m ''backup_id'' = Some b" "map_of m ''state'' = Some (state_value PENDING)"
    "map_of m ''proxmox_vmid'' = Some (str_of_int v)" "map_of m ''overwrite'' = Some (flag (ea_overwrite A))"
    "map_of m ''power_on'' = Some (flag (enqueue_power_on A))" "map_of m ''network_mode'' = Some (enqueue_net_mode A)"
  using assms by (auto simp: job_mapping_def res_bind_eq_Inr need_str_def job_target_def dest!: redis_val_str)

lemma enqueue_restores_result:
  assumes "enqueue_restores E C rows A s = (Inr res, t)"
  shows "length (er_job_ids res) = length rows" "er_power_on res = enqueue_power_on A"
    "length (er_vmids res) = length rows" "length (er_nodes res) = length rows" "length (er_storages res) = length rows"
proof -
  obtain P s1 js where prep: "enqueue_prepare E C rows A s = (Inr P, s1)"
    and jobs: "map_act (enqueue_one E C A (ep_mode P)) (prep_rows rows P) s1 = (Inr js, t)" "er_job_ids res = js"
    and r: "er_vmids res = ep_vmids P" "er_nodes res = ep_nodes P" "er_storages res = ep_storages P"
    using assms by (rule enqueue_restores_Inr)
  show "er_power_on res = enqueue_power_on A"
    using assms by (auto simp: enqueue_restores_def bind_act_Inr_iff ret_act_def)
  note len = enqueue_prepare_lengths [OF prep]
  show "length (er_vmids res) = length rows" "length (er_nodes res) = length rows" "length (er_storages res) = length rows"
    using len r by simp_all
  show "length (er_job_ids res) = length rows"
    using map_act_length [OF jobs(1)] jobs(2) len by (simp add: prep_rows_def)
qed

lemma enqueue_restores_jobs:
  fixes s t :: world
  assumes "jobs_fresh E C s" "enqueue_restores E C rows A s = (Inr res, t)"
    and "list_all2 (row_of_id listed) bs rows"
  shows "lrange_all (queue_key C) t = lrange_all (queue_key C) s @ er_job_ids res"
    "i < length rows \<Longrightarrow> job_of_row C A res t i (bs ! i) (rows ! i)"
proof -
  let ?rws = "zip rows (zip (er_vmids res) (zip (er_nodes res) (er_storages res)))"
  obtain cs where J: "jobs_added E C A (er_restore_mode res) ?rws (er_job_ids res) (s\<lparr>calls := calls s @ cs\<rparr>) t"
    using enqueue_effect [OF assms(1,2)] by auto
  then show "lrange_all (queue_key C) t = lrange_all (queue_key C) s @ er_job_ids res"
    by (simp add: jobs_added_def lrange_all_def)
  assume i: "i < length rows"
  note len = enqueue_restores_result [OF assms(2)]
  let ?stamp = "utc_now_iso E (s\<lparr>calls := calls s @ cs\<rparr>)"
  have "list_all2 (\<lambda>(row, v, n, st) id.
      \<exists>m. job_mapping A (er_restore_mode res) row v n st id ?stamp = Inr m \<and>
          map_of (hgetall (job_key C id) t) = map_of m) (take (length (er_job_ids res)) ?rws) (er_job_ids res)"
    using J unfolding jobs_added_def by blast
  then have "list_all2 (\<lambda>(row, v, n, st) id.
      \<exists>m. job_mapping A (er_restore_mode res) row v n st id ?stamp = Inr m \<and>
          map_of (hgetall (job_key C id) t) = map_of m) ?rws (er_job_ids res)"
    using len by simp
  from list_all2_nthD [OF this, of i] i len obtain m where
    m: "job_mapping A (er_restore_mode res) (rows ! i) (er_vmids res ! i) (er_nodes res ! i) (er_storages res ! i)
        (er_job_ids res ! i) ?stamp = Inr m"
      "map_of (hgetall (job_key C (er_job_ids res ! i)) t) = map_of m"
    by auto
  have "need_str (rows ! i) ''backup_id'' = Inr (bs ! i)"
    using list_all2_nthD2 [OF assms(3) i] by (blast dest: row_of_id_mem)
  from job_mapping_fields [OF m(1) this] m len show "job_of_row C A res t i (bs ! i) (rows ! i)"
    by (auto simp: job_of_row_def Let_def)
qed

text \<open>C22: A restore of selected backups queues what was selected, behind its gates. When the handler answers, the
  backups it listed before are those of \<open>list_vm_backups\<close>, and the distinct ids of the request, stripped and
  without blanks, in their order, each name a row of that listing (the last one that carries the id), of which there is at least
  one. The queue has grown by the answered job ids, one for each row; the hash of the job at a position is built
  of the row at that position, so it names the backup id selected there, with the answered target id, node and
  storage, state \<open>PENDING\<close>, and the options of the request. The jobs overwrite
  guests only in disaster recovery with the confirmation, and if they boot the guests, the network mode
  isolates them or the request allows a network; the audit log starts with the restore. Job ids are assumed to be new.\<close>

theorem restore_selected_gated:
  assumes "jobs_fresh E C w" "restore_selected E C actor ids o1 w = (Inr res, t)"
  shows "\<exists>listed w1 rows A. list_vm_backups E C w = (Inr listed, w1) \<and>
    rows \<noteq> [] \<and> list_all2 (row_of_id listed) (selected_ids ids) rows \<and>
    length (er_job_ids res) = length rows \<and>
    lrange_all (queue_key C) t = lrange_all (queue_key C) w @ er_job_ids res \<and>
    (\<forall>i < length rows. job_of_row C A res t i (selected_ids ids ! i) (rows ! i)) \<and>
    ea_overwrite A = ro_overwrite o1 \<and> ea_network_mode A = ro_network_mode o1 \<and>
    (ro_overwrite o1 \<longrightarrow> lower (strip (ro_restore_mode o1)) = ''dr'' \<and> ro_confirm_overwrite o1) \<and>
    (er_power_on res \<longrightarrow> ro_allow_non_isolated o1 \<or> net_isolated (ro_network_mode o1) False) \<and>
    dget (hd (audit_entries C t)) ''action'' = PStr ''restore.enqueue''"
proof -
  obtain nodes st by_node listed rows w1 w2 where
    lst: "list_vm_backups E C w = (Inr listed, w1)"
    and sel: "selected_rows listed ids = Inr rows" and gates: "request_gates o1 = Inr ()"
    and enq: "enqueue_restores E C rows (request_args o1 nodes st by_node) w1 = (Inr res, w2)"
    and aud: "t = append_audit E C ''restore.enqueue'' (or_default (case actor of None \<Rightarrow> [] | Some a \<Rightarrow> a) ''ui'')
      [(''enqueued'', PInt (int (length (er_job_ids res)))), (''mode'', PStr (ro_restore_mode o1)),
       (''overwrite'', PBool (ro_overwrite o1))] w2"
    using assms(2) by (auto simp: restore_selected_def bind_act_Inr_iff audit_action_def upd_act_def ret_act_def)
  let ?A = "request_args o1 nodes st by_node"
  obtain cs where w1: "w1 = w\<lparr>calls := calls w @ cs\<rparr>"
    using keepsD [OF keeps_list_vm_backups lst] by (auto simp: emits_rel_def)
  have fresh: "jobs_fresh E C w1" using assms(1) unfolding w1 by simp
  note found = selected_rows_found [OF sel]
  note jobs = enqueue_restores_jobs [OF fresh enq found(2)]
  have same: "lrange_all k t = lrange_all k w2" "hgetall k t = hgetall k w2" for k
    by (simp_all add: aud append_audit_def lrange_all_def hgetall_def)
  have "lrange_all (queue_key C) t = lrange_all (queue_key C) w @ er_job_ids res"
    using jobs(1) unfolding same by (simp add: w1 lrange_all_def)
  moreover have "\<forall>i < length rows. job_of_row C ?A res t i (selected_ids ids ! i) (rows ! i)"
    using jobs(2) by (simp add: job_of_row_def same)
  moreover have "ro_overwrite o1 \<longrightarrow> lower (strip (ro_restore_mode o1)) = ''dr'' \<and> ro_confirm_overwrite o1"
    and "er_power_on res \<longrightarrow> ro_allow_non_isolated o1 \<or> net_isolated (ro_network_mode o1) False"
    using gates enqueue_restores_result(2) [OF enq]
    by (auto simp: request_gates_def overwrite_confirmed power_on_isolated enqueue_power_on_def enqueue_qga_def request_args_def)
  moreover have "dget (hd (audit_entries C t)) ''action'' = PStr ''restore.enqueue''"
  proof -
    have "dget (hd (audit_entries C t)) ''action'' = PStr (or_default (strip ''restore.enqueue'') ''unknown'')"
      using audit_retain_least [of C]
      by (cases "nat (audit_retain C)") (auto simp: aud audit_entries_append audit_entry_def dget_def dget_or_def)
    moreover have "strip ''restore.enqueue'' = ''restore.enqueue''" by code_simp
    ultimately show ?thesis by (simp add: or_default_def)
  qed
  moreover have "ea_overwrite ?A = ro_overwrite o1" "ea_network_mode ?A = ro_network_mode o1"
    by (simp_all add: request_args_def)
  ultimately show ?thesis using lst found enqueue_restores_result(1) [OF enq] by blast
qed

end
