(* ===== verification/ApiDemo.thy ===== *)
theory ApiDemo
  imports ApiProps ReadinessProps
begin

text \<open>
  Concrete requests that pass the gates of the API: a restore of one backup, a drill of the kind that the
  gate does not see as one that boots, and an assurance drill whose policy asks for the guest agent. The
  backup server and the cluster are those of the readiness example.
\<close>

subsection \<open>One backup is queued\<close>

lemma demo_free: "in_use_seen demo_pbs_env cs = {}"
  by (simp add: in_use_seen_def ready_answers rows_or_empty_def vmids_of_rows_def)

lemma demo_idle: "hashes w = [] \<Longrightarrow> active_restore_counts_by_node C w = []"
proof -
  have "fold (\<lambda>k c. c) xs a = a" for xs :: "string list" and a :: "(string \<times> int) list" by (induction xs) simp_all
  moreover assume "hashes w = []"
  then have "hgetall k w = []" for k by (simp add: hgetall_def)
  ultimately show ?thesis by (simp add: active_restore_counts_by_node_def Let_def hfield_def)
qed

lemma demo_choices:
  "storages_for [] ''zfs'' [''n1''] = Inr [''zfs'']" "assign_nodes_least_loaded [''n1''] 1 [] = Inr [''n1'']"
  "allocate_sequential_free_vmids {} 100 1 = Inr ([100], 101, {100})"
  "row_archive demo_backup = Inr ''pbs-main:backup/vm/109/2026-05-07T01:06:06Z''"
  "row_size demo_backup = 0"
  by code_simp+

lemma demo_backup_fields:
  "map_of demo_backup ''backup_id'' = Some (PStr (so_id demo_source @ ''|'' @ ''vm/'' @ str_of_int 109 @ ''/'' @ ''2026-05-07T01:06:06Z''))"
  "\<exists>n. map_of demo_backup ''name'' = Some (PStr n)" "map_of demo_backup ''vmid'' = Some (PInt 109)"
  "\<exists>n. map_of demo_backup ''source_label'' = Some (PStr n)"
  by (simp_all add: demo_backup_def backup_row_def Let_def)

lemma demo_mapping: "\<exists>m. job_mapping A mode demo_backup 100 n st i stamp = Inr m \<and> map_of m ''source_vmid'' = Some (str_of_int 109) \<and>
    map_of m ''proxmox_vmid'' = Some (str_of_int 100) \<and> map_of m ''progress'' = Some ''0''"
  using demo_backup_fields
  by (auto simp: job_mapping_def demo_choices need_key_def dget_or_def job_target_def job_record_def)

lemma demo_queued:
  assumes A: "enqueue_mode A = Inr ''normal''" "enqueue_candidates A = Inr [''n1'']" "enqueue_by_node A = []"
      "strip (ea_target_storage A) = ''zfs''" "ea_vmid_start A = 100"
    and w: "hashes w = []"
  shows "\<exists>res t. enqueue_restores demo_pbs_env demo_pbs_cfg [demo_backup] A w = (Inr res, t) \<and>
    (\<forall>j \<in> set (er_job_ids res). \<forall>f \<in> {''source_vmid'', ''proxmox_vmid'', ''progress''}.
       \<exists>n. hash_int (hgetall (job_key demo_pbs_cfg j) t) f = Inr n)"
proof -
  obtain t1 where con: "connect_proxmox demo_pbs_env demo_pbs_cfg w = (Inr (), t1)" "hashes t1 = []"
    using ready_login w
    by (auto simp: connect_proxmox_def bind_act_def res_act_def call_def ret_act_def ready_answers)
  let ?t2 = "t1\<lparr>calls := calls t1 @ [ClusterResources]\<rparr>"
  let ?P = "\<lparr>ep_mode = ''normal'', ep_candidates = [''n1''], ep_vmids = [100], ep_nodes = [''n1''], ep_storages = [''zfs'']\<rparr>"
  have prep: "enqueue_prepare demo_pbs_env demo_pbs_cfg [demo_backup] A w = (Inr ?P, ?t2)"
    by (simp add: enqueue_prepare_def A Let_def bind_act_def res_act_def demo_choices con catch_act_def
        qemu_vmids_in_use_eval demo_free target_ids_def get_act_def ret_act_def demo_idle)
  let ?id = "uuid demo_pbs_env (uuids ?t2)" and ?s = "?t2\<lparr>uuids := Suc (uuids ?t2)\<rparr>"
  obtain m where m: "job_mapping A ''normal'' demo_backup 100 ''n1'' ''zfs'' ?id (utc_now_iso demo_pbs_env ?s) = Inr m"
    "map_of m ''source_vmid'' = Some (str_of_int 109)" "map_of m ''proxmox_vmid'' = Some (str_of_int 100)"
    "map_of m ''progress'' = Some ''0''"
    using demo_mapping by blast
  let ?t = "rpush (queue_key demo_pbs_cfg) ?id (hset (job_key demo_pbs_cfg ?id) m ?s)"
  have one: "enqueue_one demo_pbs_env demo_pbs_cfg A ''normal'' (demo_backup, 100, ''n1'', ''zfs'') ?t2 = (Inr ?id, ?t)"
    using m(1) by (simp add: enqueue_one_def bind_act_def new_uuid_def)
  have "str_of_int 0 = ''0''" by (simp add: str_of_int_def str_of_nat.simps digit_char_def)
  then have zero: "int_of_str ''0'' = Some 0" using int_of_str_of_int [of 0] by metis
  have nonempty: "str_of_int 109 \<noteq> []" "str_of_int 100 \<noteq> []" by (simp_all add: str_of_int_def)
  have vals: "hash_int (hgetall (job_key demo_pbs_cfg ?id) ?t) ''source_vmid'' = Inr 109 \<and>
      hash_int (hgetall (job_key demo_pbs_cfg ?id) ?t) ''proxmox_vmid'' = Inr 100 \<and>
      hash_int (hgetall (job_key demo_pbs_cfg ?id) ?t) ''progress'' = Inr 0"
    by (simp add: hash_int_def rpush_def lookup_simps m nonempty zero)
  have "enqueue_restores demo_pbs_env demo_pbs_cfg [demo_backup] A w =
      (Inr \<lparr>er_job_ids = [?id], er_vmids = [100], er_nodes = [''n1''], er_storages = [''zfs''], er_candidates = [''n1''],
         er_storage_by_node = [(''n1'', ''zfs'')], er_restore_mode = ''normal'', er_power_on = enqueue_power_on A,
         er_qga_wait_sec = enqueue_qga A\<rparr>, ?t)"
    by (simp add: enqueue_restores_def bind_act_eval prep prep_rows_def one ret_act_def A Let_def)
  then show ?thesis using vals by auto
qed

subsection \<open>A restore of one backup\<close>

definition demo_opts :: restore_opts where
  "demo_opts = \<lparr>ro_node = Some ''n1'', ro_nodes = [], ro_storage = Some ''zfs'', ro_storage_by_node = [],
     ro_vmid_start = 100, ro_live_restore = False, ro_bwlimit = 0, ro_restore_mode = ''normal'', ro_power_on = True,
     ro_qga_wait_sec = 0, ro_network_mode = ''unlink'', ro_lab_bridge = [], ro_overwrite = False,
     ro_http_check_url = [], ro_confirm_overwrite = False, ro_allow_non_isolated = False\<rparr>"

definition demo_backup_id :: string where
  "demo_backup_id = ''main/store/root|vm/109/2026-05-07T01:06:06Z''"

lemma demo_request:
  "request_target demo_pbs_cfg demo_opts = Inr ([''n1''], ''zfs'', [])" "request_gates demo_opts = Inr ()"
  "selected_rows [demo_backup] [demo_backup_id] = Inr [demo_backup]"
  "enqueue_mode (request_args demo_opts [''n1''] ''zfs'' []) = Inr ''normal''"
  "enqueue_candidates (request_args demo_opts [''n1''] ''zfs'' []) = Inr [''n1'']"
  "enqueue_by_node (request_args demo_opts [''n1''] ''zfs'' []) = []" "strip ''zfs'' = ''zfs''"
  by code_simp+

lemma demo_new_ids: "jobs_fresh demo_pbs_env demo_pbs_cfg empty_world"
proof -
  have "inj str_of_nat" by (intro injI) (metis digits_value_str_of_nat option.inject)
  then show ?thesis
    by (simp add: jobs_fresh_def demo_pbs_env_def idle_env_def empty_world_def empty_store_def store.defs)
qed

theorem restore_selected_gated_witness:
  "\<exists>res t. restore_selected demo_pbs_env demo_pbs_cfg None [demo_backup_id] demo_opts empty_world = (Inr res, t) \<and>
     (er_power_on res \<longrightarrow> net_isolated ''unlink'' False) \<and> er_job_ids res \<noteq> [] \<and>
     map_of (hgetall (job_key demo_pbs_cfg (hd (er_job_ids res))) t) ''backup_id'' = Some demo_backup_id"
proof -
  have h: "hashes (empty_world\<lparr>calls := cs\<rparr>) = []" for cs by (simp add: empty_world_def empty_store_def store.defs)
  let ?A = "request_args demo_opts [''n1''] ''zfs'' []"
  have A: "strip (ea_target_storage ?A) = ''zfs''" "ea_vmid_start ?A = 100"
    by (simp_all add: request_args_def demo_request demo_opts_def)
  obtain res t where q: "enqueue_restores demo_pbs_env demo_pbs_cfg [demo_backup] ?A
      (snd (list_vm_backups demo_pbs_env demo_pbs_cfg empty_world)) = (Inr res, t)"
    using demo_queued [OF demo_request(4-6) A h] unfolding demo_listing by fastforce
  then obtain t' where run:
    "restore_selected demo_pbs_env demo_pbs_cfg None [demo_backup_id] demo_opts empty_world = (Inr res, t')"
    by (simp add: restore_selected_def bind_act_def demo_listing res_act_def demo_request api_enqueue_def
        catch_act_def audit_action_def upd_act_def ret_act_def)
  have ids: "selected_ids [demo_backup_id] = [demo_backup_id]" by code_simp
  from restore_selected_gated [OF demo_new_ids run] obtain rows A where r: "rows \<noteq> []" "length (er_job_ids res) = length rows"
    "\<And>i. i < length rows \<Longrightarrow> job_of_row demo_pbs_cfg A res t' i (selected_ids [demo_backup_id] ! i) (rows ! i)"
    "er_power_on res \<longrightarrow> net_isolated ''unlink'' False"
    by (auto simp: demo_opts_def)
  then have "er_job_ids res \<noteq> []" by auto
  moreover from r(1) r(3) [of 0] ids
  have "map_of (hgetall (job_key demo_pbs_cfg (er_job_ids res ! 0)) t') ''backup_id'' = Some demo_backup_id"
    by (simp add: job_of_row_def Let_def)
  ultimately show ?thesis using run r(4) by (auto simp: hd_conv_nth)
qed

subsection \<open>Runs of a plan\<close>

definition demo_body :: run_request where
  "demo_body = \<lparr>pb_at_or_before = None, pb_location = None, pb_drill = True, pb_auto_teardown = False,
     pb_powered_off = Some False, pb_power_on = False, pb_qga_wait_sec = 0, pb_allow_unverified = False,
     pb_confirm_dr = False, pb_overwrite = False, pb_confirm_overwrite = False, pb_allow_non_isolated = False\<rparr>"

definition demo_assure :: assure_body where
  "demo_assure = \<lparr>ab_at_or_before = None, ab_allow_unverified = False, ab_confirm_dr = False,
     ab_allow_non_isolated = True, ab_overwrite = False, ab_confirm_overwrite = False\<rparr>"

definition live_location :: dict where
  "live_location = [(''id'', PStr ''l1''), (''node'', PStr ''n1''), (''nodes'', PList [PStr ''n1'']),
     (''storage'', PStr ''zfs''), (''vmid_start'', PInt 100), (''bwlimit'', PInt 0), (''live_restore'', PBool True),
     (''qga_wait_sec'', PInt 60)]"

definition assured_demo_plan :: dict where
  "assured_demo_plan = [(''id'', PStr ''p1''), (''name'', PStr ''web''), (''group_ids'', PList [PStr ''g1'']),
     (''location_id'', PStr ''l1''), (''assurance_enabled'', PBool True), (''assurance_require_qga'', PBool True)]"

definition live_world :: world where
  "live_world = set_doc (plan_key demo_pbs_cfg ''p1'') assured_demo_plan
     (set_doc (group_key demo_pbs_cfg ''g1'') ready_group
     (set_doc (location_key demo_pbs_cfg ''l1'') live_location empty_world))"

lemma live_docs:
  "get_plan demo_pbs_cfg ''p1'' live_world = Some assured_demo_plan"
  "get_group demo_pbs_cfg ''g1'' live_world = Some ready_group"
  "get_location demo_pbs_cfg ''l1'' live_world = Some live_location"
proof -
  have "plan_key demo_pbs_cfg ''p1'' \<noteq> group_key demo_pbs_cfg ''g1''"
    "plan_key demo_pbs_cfg ''p1'' \<noteq> location_key demo_pbs_cfg ''l1''"
    "group_key demo_pbs_cfg ''g1'' \<noteq> location_key demo_pbs_cfg ''l1''" by code_simp+
  then show "get_plan demo_pbs_cfg ''p1'' live_world = Some assured_demo_plan"
    "get_group demo_pbs_cfg ''g1'' live_world = Some ready_group"
    "get_location demo_pbs_cfg ''l1'' live_world = Some live_location"
    by (simp_all add: get_plan_def get_group_def get_location_def live_world_def)
qed

lemma live_rows:
  "resolve_plan_group_rows demo_pbs_env demo_pbs_cfg (\<lambda>p s. None) assured_demo_plan (normalize_cutoff None) ''n1'' live_world =
     (Inr [[demo_backup]], snd (list_vm_backups demo_pbs_env demo_pbs_cfg live_world))"
proof -
  have 1: "res_bind (need_key assured_demo_plan ''group_ids'') py_iter = Inr [PStr ''g1'']" by code_simp
  have 2: "resolve_group_rows (\<lambda>p s. None) ready_group [demo_backup] (normalize_cutoff None) [] = Inr [demo_backup]"
    by code_simp
  have 3: "need_tags [ready_group] = False" by code_simp
  have 4: "get_group demo_pbs_cfg ''g1'' (live_world\<lparr>calls := cs\<rparr>) = Some ready_group" for cs
    using live_docs(2) by (simp add: get_group_def get_doc_def)
  have 5: "ready_group \<noteq> []" by (simp add: ready_group_def)
  show ?thesis
    by (simp add: resolve_plan_group_rows_def bind_act_def demo_listing res_act_def 1 plan_group_docs_def doc_or_def
        found_def 4 5 plan_tags_def 3 ret_act_def 2)
qed

lemma map_res_total: "(\<And>x. x \<in> set xs \<Longrightarrow> \<exists>y. f x = Inr y) \<Longrightarrow> \<exists>ys. map_res f xs = Inr ys"
  by (induction xs) fastforce+

lemma aggregate_total:
  assumes "\<And>j f. j \<in> set (all_job_ids run) \<Longrightarrow> f \<in> {''source_vmid'', ''proxmox_vmid'', ''progress''} \<Longrightarrow>
      \<exists>n. hash_int (hgetall (job_key C j) w) f = Inr n"
  shows "\<exists>v. aggregate_plan_run C run w = Inr v"
proof -
  have "\<exists>d. job_view C w g j = Inr d" if "(g, j) \<in> set (run_job_ids run)" for g j
  proof -
    have "j \<in> set (all_job_ids run)" using that by (auto simp: set_run_job_ids all_job_ids_def)
    note field = assms [OF this]
    show ?thesis using field [of "''source_vmid''"] field [of "''proxmox_vmid''"] field [of "''progress''"]
      by (auto simp: job_view_def Let_def)
  qed
  then have "\<exists>jobs. map_res (\<lambda>(g, j). job_view C w g j) (run_job_ids run) = Inr jobs"
    by (intro map_res_total) auto
  then show ?thesis by (auto simp: aggregate_plan_run_def Let_def)
qed

lemma live_params:
  "\<exists>p. run_params_of assured_demo_plan live_location cutoff stamp A = Inr p \<and> rn_nodes p = [''n1''] \<and> rn_node p = ''n1'' \<and>
     rn_storage p = ''zfs'' \<and> rn_storage_by_node p = [] \<and> rn_vmid_start p = 100 \<and> rn_group_ids p = [''g1'']"
  by (simp add: run_params_of_def assured_demo_plan_def live_location_def need_str_def need_key_def int_or_zero_def py_or_def
      or_list_def strs_of_def str_pairs_def dget_def dget_or_def)

lemma live_args:
  assumes p: "rn_nodes p = [''n1'']" "rn_node p = ''n1''" "rn_storage p = ''zfs''" "rn_storage_by_node p = []"
    "rn_vmid_start p = 100"
  shows "enqueue_mode (first_args E live_location p rs w) = Inr ''normal''"
    "enqueue_candidates (first_args E live_location p rs w) = Inr [''n1'']"
    "enqueue_by_node (first_args E live_location p rs w) = []"
    "strip (ea_target_storage (first_args E live_location p rs w)) = ''zfs''"
    "ea_vmid_start (first_args E live_location p rs w) = 100"
proof -
  let ?A = "first_args E live_location p rs w" and ?R = "request_args demo_opts [''n1''] ''zfs'' []"
  have mode: "location_mode_raw live_location = ''normal''" by code_simp
  have f: "ea_restore_mode ?A = ea_restore_mode ?R" "ea_nodes ?A = ea_nodes ?R" "ea_storage_by_node ?A = ea_storage_by_node ?R"
    "ea_target_storage ?A = ''zfs''" "ea_vmid_start ?A = 100"
    using p by (simp_all add: first_args_def run_enqueue_args_def start_shell_def new_run_def Let_def request_args_def
        demo_opts_def mode)
  show "enqueue_mode ?A = Inr ''normal''" using demo_request(4) unfolding enqueue_mode_def f(1) .
  have "node_candidates [''n1''] = [''n1'']" by code_simp
  then show "enqueue_candidates ?A = Inr [''n1'']" using f(2) by (simp add: enqueue_candidates_def request_args_def)
  show "enqueue_by_node ?A = []" using f(3) by (simp add: enqueue_by_node_def request_args_def)
  show "strip (ea_target_storage ?A) = ''zfs''" "ea_vmid_start ?A = 100" using f demo_request(7) by simp_all
qed

lemma pending_demo: "\<exists>d. pending_row demo_backup = Inr d"
  by (simp add: pending_row_def need_key_def demo_backup_def backup_row_def Let_def int_or_zero_def py_or_def dget_def
      dget_or_def)

lemma store_run_hashes [simp]: "hashes (store_run E C run w) = hashes w"
  by (simp add: store_run_def Let_def put_run_def sadd_def srem_def)

lemma save_plan_doc_hashes [simp]: "hashes (save_plan_doc E C d w) = hashes w"
  by (simp add: save_plan_doc_def save_entity_def Let_def set_doc_def sadd_def)

lemma live_launch:
  "\<exists>v t. launch demo_pbs_env demo_pbs_cfg (\<lambda>p s. None) None assured_demo_plan live_location None A action detail live_world
     = (Inr v, t)"
proof -
  let ?E = demo_pbs_env and ?C = demo_pbs_cfg and ?rs = "[[demo_backup]]"
  let ?w = "snd (list_vm_backups ?E ?C live_world)"
  obtain p where p: "run_params_of assured_demo_plan live_location (normalize_cutoff None) (utc_now_iso ?E ?w) A = Inr p"
    and f: "rn_nodes p = [''n1'']" "rn_node p = ''n1''" "rn_storage p = ''zfs''" "rn_storage_by_node p = []"
      "rn_vmid_start p = 100" "rn_group_ids p = [''g1'']"
    using live_params by blast
  have ready: "start_ready ?E assured_demo_plan live_location (normalize_cutoff None) ?rs A ?w p"
    using p by (simp add: start_ready_def assured_demo_plan_def need_key_def strs_of_def)
  let ?w1 = "shell_world ?E ?C p ?rs ?w"
  have h: "hashes ?w1 = []"
    by (simp add: shell_world_def demo_listing live_world_def set_doc_def empty_world_def empty_store_def store.defs)
  obtain res t where q: "enqueue_restores ?E ?C [demo_backup] (first_args ?E live_location p ?rs ?w) ?w1 = (Inr res, t)"
    and vals: "\<forall>j \<in> set (er_job_ids res). \<forall>f \<in> {''source_vmid'', ''proxmox_vmid'', ''progress''}.
       \<exists>n. hash_int (hgetall (job_key ?C j) t) f = Inr n"
    using demo_queued [OF live_args [OF f(1-5)] h] by blast
  have fg: "first_group ?rs = 0" by (simp add: first_group_def)
  obtain d where d: "pending_row demo_backup = Inr d" using pending_demo by blast
  obtain run t' where st: "start_plan_run ?E ?C (api_enqueue ?E ?C) assured_demo_plan live_location (normalize_cutoff None)
      ?rs A ?w = (Inr run, t')" and jobs: "pr_jobs run = [er_job_ids res]" and h': "hashes t' = hashes t"
    unfolding start_plan_run_eval [OF ready] start_rest_def fg
    by (simp add: bind_act_def api_enqueue_def catch_act_def q Let_def save_run_def res_act_def d upd_act_def ret_act_def
        with_group_jobs_def record_assigned_targets_def start_shell_def new_run_def f)
  let ?t = "append_audit ?E ?C action ''ui'' (detail run) t'"
  have "hgetall k ?t = hgetall k t" for k by (simp add: hgetall_def append_audit_frame h')
  then obtain v where "aggregate_plan_run ?C run ?t = Inr v"
    using aggregate_total [of run ?C ?t] vals jobs by (auto simp: all_job_ids_def)
  moreover have "need_str live_location ''node'' = Inr ''n1''"
    by (simp add: need_str_def need_key_def live_location_def)
  ultimately have "launch ?E ?C (\<lambda>p s. None) None assured_demo_plan live_location None A action detail live_world = (Inr v, ?t)"
    by (simp add: launch_def bind_act_def res_act_def live_rows refuse_def ret_act_def value_errors_def catch_act_def st
        audit_action_def upd_act_def or_default_def)
  then show ?thesis by blast
qed

lemma live_gates:
  "plan_enabled assured_demo_plan" "\<not> plan_unverified demo_pbs_cfg assured_demo_plan b"
  "asked_location None assured_demo_plan = Inr ''l1''" "run_gate live_location demo_body = Inr ()"
  "assure_gate demo_pbs_cfg assured_demo_plan live_location demo_assure = Inr 60"
  "truthy (dget assured_demo_plan ''assurance_enabled'')" "str_or_empty (dget assured_demo_plan ''location_id'') = ''l1''"
  "\<not> net_isolated (location_net live_location) (truthy (dget live_location ''isolated''))"
  "needs_boot assured_demo_plan" "ungated_drill live_location demo_body" "run_body_ok demo_body"
  by code_simp+

theorem plan_run_gated_witness:
  "\<exists>v t. api_run_plan demo_pbs_env demo_pbs_cfg (\<lambda>p s. None) None ''p1'' demo_body live_world = (Inr v, t) \<and>
     run_boots (pr_params (rv_run v)) \<and> \<not> rn_overwrite (pr_params (rv_run v)) \<and>
     (\<exists>location. get_location demo_pbs_cfg ''l1'' live_world = Some location \<and> ungated_drill location demo_body)"
proof -
  have ne: "assured_demo_plan \<noteq> []" "live_location \<noteq> []" by (simp_all add: assured_demo_plan_def live_location_def)
  have args: "pb_location demo_body = None" "pb_at_or_before demo_body = None" by (simp_all add: demo_body_def)
  obtain v t where l: "launch demo_pbs_env demo_pbs_cfg (\<lambda>p s. None) None assured_demo_plan live_location None
      (run_start_args demo_body) ''plan.run'' (\<lambda>run. [(''plan_id'', PStr ''p1''), (''run_id'', PStr (pr_id run)),
        (''drill'', PBool (pb_drill demo_body)), (''overwrite'', PBool (pb_overwrite demo_body))]) live_world = (Inr v, t)"
    using live_launch by blast
  then have run: "api_run_plan demo_pbs_env demo_pbs_cfg (\<lambda>p s. None) None ''p1'' demo_body live_world = (Inr v, t)"
    by (simp add: api_run_plan_def bind_act_def read_doc_def doc_or_def found_def live_docs ne refuse_def ret_act_def
        res_act_def live_gates args)
  from l obtain stamp where p: "run_params_of assured_demo_plan live_location (normalize_cutoff None) stamp
      (run_start_args demo_body) = Inr (pr_params (rv_run v))"
    by (rule launch_params)
  have "start_live live_location (run_start_args demo_body)" by code_simp
  then have "run_boots (pr_params (rv_run v))" by (simp add: run_boots_def run_params_start [OF p])
  with plan_run_gated [OF run live_gates(11)] run show ?thesis
    using live_docs(3) live_gates(10) by (auto simp: demo_body_def)
qed

theorem assurance_drill_gated_witness:
  "\<exists>v t. api_assure_plan demo_pbs_env demo_pbs_cfg (\<lambda>p s. None) None ''p1'' demo_assure live_world = (Inr v, t) \<and>
     run_boots (pr_params (rv_run v)) \<and> rn_drill (pr_params (rv_run v))"
proof -
  have ne: "assured_demo_plan \<noteq> []" "live_location \<noteq> []" by (simp_all add: assured_demo_plan_def live_location_def)
  have args: "ab_at_or_before demo_assure = None" by (simp add: demo_assure_def)
  obtain v t where "launch demo_pbs_env demo_pbs_cfg (\<lambda>p s. None) None assured_demo_plan live_location None
      (assure_start_args assured_demo_plan 60 (ab_overwrite demo_assure)) ''plan.assure''
      (\<lambda>run. [(''plan_id'', PStr ''p1''), (''run_id'', PStr (pr_id run))]) live_world = (Inr v, t)"
    using live_launch by blast
  then have run: "api_assure_plan demo_pbs_env demo_pbs_cfg (\<lambda>p s. None) None ''p1'' demo_assure live_world = (Inr v, t)"
    by (simp add: api_assure_plan_def bind_act_def read_doc_def doc_or_def found_def live_docs ne refuse_def ret_act_def
        res_act_def live_gates args)
  from assurance_drill_gated [OF run] run show ?thesis using live_docs(1) live_gates(9) by auto
qed

end
