(* ===== verification/UiAuth.thy ===== *)
theory UiAuth
  imports ApiJobs
begin

text \<open>
  Access to the HTTP API and editing of the configuration (\<open>ui.py\<close>): the session and the API tokens, the
  views of the configuration with masked secrets, and the updates, in which a masked or blank secret means
  the one that is stored. The configuration file is a dictionary, as YAML gives it; a handler takes the one it
  loads and returns the one it saves.
\<close>

definition mask :: string where "mask = ''********''"

definition is_mask :: "string \<Rightarrow> bool" where
  "is_mask t \<longleftrightarrow> t \<in> {[], mask}"

subsection \<open>Authentication\<close>

text \<open>
  A section of the configuration. One that is set, but is no dictionary, counts as empty here, while the source
  raises \<open>AttributeError\<close> (an answer 500) when it reads a field of it.
\<close>

definition section_of :: "dict \<Rightarrow> string \<Rightarrow> dict" where
  "section_of y k = (case dget y k of PDict d \<Rightarrow> d | _ \<Rightarrow> [])"

record api_identity =
  id_name :: string
  id_role :: string

text \<open>The first entry whose token is the given one\<close>

definition token_entry :: "string \<Rightarrow> pyval \<Rightarrow> api_identity option" where
  "token_entry token v =
     (case v of
        PDict entry \<Rightarrow>
          if str_strip entry ''token'' = [] \<or> str_strip entry ''token'' \<noteq> token then None
          else
            let role = lower (strip (py_str (py_or (dget entry ''role'') (PStr ''operator''))));
                name = strip (py_str (py_or (dget entry ''name'') (PStr ''api'')))
            in Some \<lparr>id_name = or_default name ''api'', id_role = (if role \<in> {''operator'', ''viewer''} then role else ''operator'')\<rparr>
      | _ \<Rightarrow> None)"

definition match_api_token :: "dict \<Rightarrow> string \<Rightarrow> api_identity option" where
  "match_api_token y raw_token =
     (let token = strip raw_token in
      if token = [] then None
      else case dget (section_of y ''ui'') ''api_tokens'' of
             PList entries \<Rightarrow> (case List.map_filter (token_entry token) entries of [] \<Rightarrow> None | i # is \<Rightarrow> Some i)
           | _ \<Rightarrow> None)"

record request =
  rq_session :: bool
  rq_authorization :: string
  rq_method :: string

record auth_state =
  au_actor :: string
  au_role :: string

definition safe_methods :: "string set" where
  "safe_methods = {''GET'', ''HEAD'', ''OPTIONS''}"

definition upper_char :: "char \<Rightarrow> char" where
  "upper_char c = (if is_lower c then char_of (of_char c - (32::nat)) else c)"

definition not_authenticated :: exn where
  "not_authenticated = HTTPException 401 ''Not authenticated''"

definition require_ui_session :: "dict \<Rightarrow> request \<Rightarrow> exn + auth_state" where
  "require_ui_session y rq =
     (if rq_session rq then Inr \<lparr>au_actor = ''ui-session'', au_role = ''operator''\<rparr>
      else
        let auth = strip (rq_authorization rq) in
        if startswith ''bearer '' (lower auth) then
          (case match_api_token y (strip (drop 7 auth)) of
             None \<Rightarrow> Inl not_authenticated
           | Some i \<Rightarrow>
               if id_role i = ''viewer'' \<and> map upper_char (rq_method rq) \<notin> safe_methods then
                 Inl (HTTPException 403 ''Viewer API token is read-only'')
               else Inr \<lparr>au_actor = ''token:'' @ id_name i, au_role = id_role i\<rparr>)
        else Inl not_authenticated)"

text \<open>The two flags of a session: authenticated, credentials verified\<close>

type_synonym session = "bool \<times> bool"

definition auth_status :: "session \<Rightarrow> bool \<times> bool" where
  "auth_status ss = (fst ss, fst ss \<and> snd ss)"

definition auth_login :: "dict \<Rightarrow> string \<Rightarrow> session \<Rightarrow> exn + session" where
  "auth_login y password ss =
     (case py_or (dget (section_of y ''ui'') ''password'') (PStr []) of
        PStr expected \<Rightarrow>
          if expected = [] then Inl (HTTPException 503 ''ui.password is not set in config.yaml'')
          else if password \<noteq> expected then Inl (HTTPException 401 ''Invalid password'')
          else Inr (True, snd ss)
      | _ \<Rightarrow> Inl (AttributeError ''object has no attribute encode''))"

definition auth_logout :: "session \<Rightarrow> session" where
  "auth_logout ss = (False, False)"

definition complete_credentials_check :: "env \<Rightarrow> cfg \<Rightarrow> session \<Rightarrow> (world, bool \<times> string \<times> string \<times> session) act" where
  "complete_credentials_check E C ss =
     bind_act (probe_pbs_connection E C) (\<lambda>(pbs_ok, pbs_msg).
     bind_act (test_proxmox_connection E C) (\<lambda>(pve_ok, pve_msg).
     ret_act (pbs_ok \<and> pve_ok, pbs_msg, pve_msg, (fst ss, pbs_ok \<and> pve_ok))))"

definition reopen_credentials :: "session \<Rightarrow> session" where
  "reopen_credentials ss = (fst ss, False)"

subsection \<open>Views without secrets\<close>

definition masked :: "dict \<Rightarrow> string \<Rightarrow> exn + bool \<times> pyval" where
  "masked d k =
     res_bind (py_strip (py_or (dget d k) (PStr []))) (\<lambda>t. Inr (t \<noteq> [], PStr (if t \<noteq> [] then mask else [])))"

definition mount_view :: "dict \<Rightarrow> dict" where
  "mount_view m =
     [(''datastore'', PStr (py_str (dget_or m ''datastore'' (PStr [])))),
      (''namespace'', PStr (str_or_empty (dget_or m ''namespace'' (PStr [])))),
      (''pve_storage'', PStr (py_str (dget_or m ''pve_storage'' (PStr []))))]"

definition mask_pbs_server :: "dict \<Rightarrow> exn + dict" where
  "mask_pbs_server s =
     res_bind (masked s ''api_token_secret'') (\<lambda>(tok, tok_view).
     res_bind (masked s ''password'') (\<lambda>(pwd, pwd_view).
     res_bind (py_int (py_or (dget_or s ''port'' (PInt 8007)) (PInt 8007))) (\<lambda>port.
     res_bind (iter_or_empty (dget s ''mounts'')) (\<lambda>mounts.
     Inr [(''id'', PStr (py_str (dget_or s ''id'' (PStr [])))), (''host'', dget_or s ''host'' (PStr [])),
          (''port'', PInt port), (''verify_ssl'', bool_field s ''verify_ssl'' True),
          (''api_token_id'', dget_or s ''api_token_id'' (PStr [])), (''api_token_secret_set'', PBool tok),
          (''api_token_secret'', tok_view), (''user'', dget_or s ''user'' (PStr [])),
          (''password_set'', PBool pwd), (''password'', pwd_view),
          (''mounts'', PList (map (\<lambda>m. PDict (mount_view m)) (dict_rows mounts)))]))))"

definition legacy_view :: "dict \<Rightarrow> dict \<Rightarrow> dict" where
  "legacy_view legacy px =
     [(''id'', PStr ''pbs''), (''host'', dget_or legacy ''host'' (PStr [])),
      (''port'', dget_or legacy ''port'' (PInt 8007)), (''verify_ssl'', dget_or legacy ''verify_ssl'' (PBool True)),
      (''api_token_id'', dget_or legacy ''api_token_id'' (PStr [])),
      (''api_token_secret'', dget_or legacy ''api_token_secret'' (PStr [])),
      (''user'', dget_or legacy ''user'' (PStr [])), (''password'', dget_or legacy ''password'' (PStr [])),
      (''mounts'', PList [PDict [(''datastore'', dget_or legacy ''datastore'' (PStr [])), (''namespace'', PStr []),
         (''pve_storage'', PStr (str_or_empty (dget px ''pbs_storage'')))]])]"

definition pbs_servers_view :: "dict \<Rightarrow> exn + dict list" where
  "pbs_servers_view y =
     (case dget y ''pbs_servers'' of
        PList (v # vs) \<Rightarrow> map_res mask_pbs_server (dict_rows (v # vs))
      | _ \<Rightarrow>
          let legacy = section_of y ''pbs'' in
          if truthy (dget legacy ''host'') \<or> truthy (dget legacy ''datastore'')
          then res_bind (mask_pbs_server (legacy_view legacy (section_of y ''proxmox''))) (\<lambda>d. Inr [d])
          else Inr [])"

definition mask_proxmox :: "dict \<Rightarrow> exn + dict" where
  "mask_proxmox p =
     res_bind (masked p ''api_token_secret'') (\<lambda>(tok, tok_view).
     res_bind (masked p ''password'') (\<lambda>(pwd, pwd_view).
     res_bind (py_int (dget_or p ''port'' (PInt 8006))) (\<lambda>port.
     res_bind (py_int (py_or (dget_or p ''restore_bwlimit'' (PInt 0)) (PInt 0))) (\<lambda>bw.
     Inr [(''host'', dget_or p ''host'' (PStr [])), (''port'', PInt port),
          (''verify_ssl'', bool_field p ''verify_ssl'' True), (''default_node'', dget_or p ''default_node'' (PStr [])),
          (''api_token_id'', dget_or p ''api_token_id'' (PStr [])), (''storage'', dget_or p ''storage'' (PStr [])),
          (''restore_bwlimit'', PInt bw), (''live_restore_default'', bool_field p ''live_restore_default'' False),
          (''api_token_secret_set'', PBool tok), (''api_token_secret'', tok_view), (''password_set'', PBool pwd),
          (''password'', pwd_view), (''user'', dget_or p ''user'' (PStr []))]))))"

record worker_view =
  wv_concurrent :: int
  wv_poll :: int
  wv_timeout :: rat

definition view_worker :: "dict \<Rightarrow> exn + worker_view" where
  "view_worker w =
     res_bind (py_int (py_or (dget_or w ''max_concurrent_restores'' (PInt 2)) (PInt 2))) (\<lambda>mc.
     res_bind (py_int (py_or (dget_or w ''task_poll_interval_sec'' (PInt 3)) (PInt 3))) (\<lambda>poll.
     Inr \<lparr>wv_concurrent = mc, wv_poll = poll,
          wv_timeout = py_float_or (py_or (dget_or w ''task_timeout_sec'' (PInt 0)) (PInt 0)) 0\<rparr>))"

definition recipients_view :: "pyval \<Rightarrow> pyval" where
  "recipients_view v =
     (case v of
        PList xs \<Rightarrow> PList xs
      | _ \<Rightarrow> str_vals (filter (\<lambda>t. t \<noteq> []) (map strip (split_on CHR '','' (str_or_empty v)))))"

definition view_notifications :: "dict \<Rightarrow> exn + dict" where
  "view_notifications n =
     (let email = section_of n ''email''; webhook = section_of n ''webhook''; events = section_of n ''events'' in
      res_bind (masked email ''password'') (\<lambda>(pwd, pwd_view).
      res_bind (py_int (py_or (dget email ''port'') (PInt 587))) (\<lambda>port.
      res_bind (masked webhook ''secret'') (\<lambda>(sec, sec_view).
      Inr [(''email'', PDict
             [(''enabled'', bool_field email ''enabled'' False), (''host'', PStr (str_or_empty (dget email ''host''))),
              (''port'', PInt port), (''tls'', bool_field email ''tls'' True), (''ssl'', bool_field email ''ssl'' False),
              (''username'', PStr (str_or_empty (dget email ''username''))), (''password_set'', PBool pwd),
              (''password'', pwd_view), (''from'', PStr (str_or_empty (dget email ''from''))),
              (''to'', recipients_view (dget email ''to''))]),
           (''webhook'', PDict
             [(''enabled'', bool_field webhook ''enabled'' False), (''url'', PStr (str_or_empty (dget webhook ''url''))),
              (''secret_set'', PBool sec), (''secret'', sec_view)]),
           (''events'', PDict
             [(''check_failed'', bool_field events ''check_failed'' True),
              (''plan_run_terminal'', bool_field events ''plan_run_terminal'' True),
              (''job_failed'', bool_field events ''job_failed'' False)])]))))"

record credentials =
  cr_servers :: "dict list"
  cr_proxmox :: dict
  cr_worker :: worker_view
  cr_notifications :: dict

definition get_credentials :: "dict \<Rightarrow> exn + credentials" where
  "get_credentials y =
     res_bind (pbs_servers_view y) (\<lambda>servers.
     res_bind (mask_proxmox (section_of y ''proxmox'')) (\<lambda>px.
     res_bind (view_worker (section_of y ''worker'')) (\<lambda>wk.
     res_bind (view_notifications (section_of y ''notifications'')) (\<lambda>n.
     Inr \<lparr>cr_servers = servers, cr_proxmox = px, cr_worker = wk, cr_notifications = n\<rparr>))))"

end
