(* ===== verification/UiConfig.thy ===== *)
theory UiConfig
  imports UiAuth
begin

text \<open>
  Saving the configuration from the dashboard (\<open>ui.py\<close>): the list of the backup servers, the partial
  updates of the sections, and the connection tests with the values of a form. A partial update is the
  dictionary of the fields that the request sets; a null is \<open>None\<close>. Names are ASCII here, as for the case
  conversions.
\<close>

subsection \<open>Backup servers\<close>

record mount_model =
  mm_datastore :: string
  mm_namespace :: string
  mm_pve_storage :: string

record server_model =
  sm_id :: string
  sm_host :: string
  sm_port :: int
  sm_verify_ssl :: bool
  sm_token_id :: string
  sm_token_secret :: string
  sm_user :: string
  sm_password :: string
  sm_mounts :: "mount_model list"

definition is_alnum :: "char \<Rightarrow> bool" where
  "is_alnum c \<longleftrightarrow> is_upper c \<or> is_lower c \<or> is_digit c"

definition slugify_server_id :: "string \<Rightarrow> string \<Rightarrow> string" where
  "slugify_server_id value0 fallback =
     or_default (strip_chars ''-'' (map (\<lambda>c. if is_alnum c \<or> c \<in> set ''-_'' then c else CHR ''-'') (lower (strip value0))))
       fallback"

text \<open>
  The loop that numbers an id until it is free: one of the first numbers, as many as ids are used, is.
\<close>

fun numbered_id :: "string list \<Rightarrow> string \<Rightarrow> nat \<Rightarrow> nat \<Rightarrow> string" where
  "numbered_id used base 0 n = base @ ''-'' @ str_of_nat n"
| "numbered_id used base (Suc k) n =
     (if base @ ''-'' @ str_of_nat n \<in> set used then numbered_id used base k (Suc n) else base @ ''-'' @ str_of_nat n)"

definition unique_id :: "string list \<Rightarrow> string \<Rightarrow> string" where
  "unique_id used base = (if base \<in> set used then numbered_id used base (length used) 2 else base)"

definition servers_by_id :: "pyval list \<Rightarrow> (string \<times> dict) list" where
  "servers_by_id existing =
     fold (\<lambda>d. AList.update (py_str (dget_or d ''id'' (PStr []))) d) (dict_rows existing) []"

definition kept_secret :: "(string \<times> dict) list \<Rightarrow> string \<Rightarrow> string \<Rightarrow> string \<Rightarrow> string" where
  "kept_secret by_id server_id k given =
     (if is_mask (strip given)
      then py_str (dget_or (case map_of by_id server_id of None \<Rightarrow> [] | Some d \<Rightarrow> d) k (PStr []))
      else strip given)"

definition mount_doc :: "mount_model \<Rightarrow> dict" where
  "mount_doc m =
     [(''datastore'', PStr (strip (mm_datastore m))), (''namespace'', PStr (strip_chars ''/'' (strip (mm_namespace m)))),
      (''pve_storage'', PStr (strip (mm_pve_storage m)))]"

definition usable_mount :: "mount_model \<Rightarrow> bool" where
  "usable_mount m \<longleftrightarrow> strip (mm_datastore m) \<noteq> [] \<and> strip (mm_pve_storage m) \<noteq> []"

definition server_doc :: "(string \<times> dict) list \<Rightarrow> string \<Rightarrow> server_model \<Rightarrow> pyval list \<Rightarrow> dict" where
  "server_doc by_id server_id m mounts =
     [(''id'', PStr server_id), (''host'', PStr (strip (sm_host m))),
      (''port'', PInt (if sm_port m = 0 then 8007 else sm_port m)), (''verify_ssl'', PBool (sm_verify_ssl m)),
      (''api_token_id'', PStr (strip (sm_token_id m))),
      (''api_token_secret'', PStr (kept_secret by_id (sm_id m) ''api_token_secret'' (sm_token_secret m))),
      (''user'', PStr (strip (sm_user m))),
      (''password'', PStr (kept_secret by_id (sm_id m) ''password'' (sm_password m))), (''mounts'', PList mounts)]"

fun persist_each ::
  "(string \<times> dict) list \<Rightarrow> nat \<Rightarrow> string list \<Rightarrow> server_model list \<Rightarrow> dict list" where
  "persist_each by_id index used [] = []"
| "persist_each by_id index used (m # ms) =
     (let i = unique_id used (slugify_server_id (or_default (sm_id m) (sm_host m)) (''pbs'' @ str_of_nat (Suc index)))
      in server_doc by_id i m (map (\<lambda>x. PDict (mount_doc x)) (filter usable_mount (sm_mounts m))) #
         persist_each by_id (Suc index) (i # used) ms)"

definition persist_servers :: "pyval list \<Rightarrow> server_model list \<Rightarrow> dict list" where
  "persist_servers existing incoming = persist_each (servers_by_id existing) 0 [] incoming"

subsection \<open>Partial updates\<close>

text \<open>A secret that is blank or masked; a value that is no string is compared as it is.\<close>

definition blank_secret :: "pyval \<Rightarrow> bool" where
  "blank_secret v = (case v of PStr s \<Rightarrow> is_mask (strip s) | _ \<Rightarrow> False)"

definition merge_field :: "string set \<Rightarrow> string \<times> pyval \<Rightarrow> dict \<Rightarrow> dict" where
  "merge_field secrets = (\<lambda>(k, v) target.
     if v = PNone \<or> (k \<in> secrets \<and> blank_secret v) then target else dput target k v)"

definition merge_partial :: "string set \<Rightarrow> dict \<Rightarrow> dict \<Rightarrow> dict" where
  "merge_partial secrets partial target = fold (merge_field secrets) partial target"

definition clamp_field :: "string \<Rightarrow> (pyval \<Rightarrow> exn + pyval) \<Rightarrow> dict \<Rightarrow> exn + dict" where
  "clamp_field k f w = (if has_key w k then res_bind (f (dget w k)) (\<lambda>v. Inr (dput w k v)) else Inr w)"

definition at_least_one :: "pyval \<Rightarrow> exn + pyval" where
  "at_least_one v = res_bind (py_int v) (\<lambda>n. Inr (PInt (max 1 n)))"

text \<open>A timeout is a whole number of seconds here; values with a fraction have no representation.\<close>

definition at_least_zero :: "pyval \<Rightarrow> exn + pyval" where
  "at_least_zero v = res_bind (py_int v) (\<lambda>n. Inr (PInt (max 0 n)))"

definition clamp_worker :: "dict \<Rightarrow> exn + dict" where
  "clamp_worker w =
     res_bind (clamp_field ''max_concurrent_restores'' at_least_one w) (\<lambda>w1.
     res_bind (clamp_field ''task_poll_interval_sec'' at_least_one w1) (\<lambda>w2.
     clamp_field ''task_timeout_sec'' at_least_zero w2))"

definition update_worker :: "dict \<Rightarrow> dict \<Rightarrow> exn + dict" where
  "update_worker partial y =
     res_bind (clamp_worker (merge_partial {} partial (section_of y ''worker''))) (\<lambda>w.
     Inr (dput y ''worker'' (PDict w)))"

definition semicolons :: "string \<Rightarrow> string list" where
  "semicolons s = filter (\<lambda>t. t \<noteq> []) (map strip (split_on CHR '','' (replace_char CHR '';'' CHR '','' s)))"

definition email_field :: "string \<times> pyval \<Rightarrow> dict \<Rightarrow> dict" where
  "email_field = (\<lambda>(k, v) em.
     if k = ''password'' then (if blank_secret v then em else dput em k v)
     else case v of
       PNone \<Rightarrow> em
     | PStr s \<Rightarrow> dput em k (if k = ''to'' then str_vals (semicolons s) else v)
     | _ \<Rightarrow> dput em k v)"

definition update_sub :: "(string \<times> pyval \<Rightarrow> dict \<Rightarrow> dict) \<Rightarrow> string \<Rightarrow> dict option \<Rightarrow> dict \<Rightarrow> dict" where
  "update_sub f k partial n =
     (case partial of None \<Rightarrow> n | Some p \<Rightarrow> dput n k (PDict (fold f p (section_of n k))))"

record notify_put =
  np_email :: "dict option"
  np_webhook :: "dict option"
  np_events :: "dict option"

definition update_notifications :: "notify_put \<Rightarrow> dict \<Rightarrow> dict" where
  "update_notifications p y =
     dput y ''notifications'' (PDict
       (update_sub (merge_field {}) ''events'' (np_events p)
       (update_sub (merge_field {''secret''}) ''webhook'' (np_webhook p)
       (update_sub email_field ''email'' (np_email p) (section_of y ''notifications'')))))"

record credentials_put =
  cp_servers :: "server_model list option"
  cp_proxmox :: "dict option"
  cp_worker :: "dict option"
  cp_notify :: "notify_put option"

definition drop_key :: "dict \<Rightarrow> string \<Rightarrow> dict" where
  "drop_key d k = AList.delete k d"

definition save_servers :: "server_model list \<Rightarrow> dict \<Rightarrow> dict" where
  "save_servers ms y =
     (let existing = (case dget y ''pbs_servers'' of PList vs \<Rightarrow> vs | _ \<Rightarrow> []);
          y1 = drop_key (dput y ''pbs_servers'' (PList (map PDict (persist_servers existing ms)))) ''pbs''
      in case dget y1 ''proxmox'' of
           PDict px \<Rightarrow> dput y1 ''proxmox'' (PDict (drop_key px ''pbs_storage''))
         | _ \<Rightarrow> y1)"

definition save_proxmox :: "dict \<Rightarrow> dict \<Rightarrow> dict" where
  "save_proxmox partial y =
     dput y ''proxmox'' (PDict (merge_partial {''api_token_secret'', ''password''} partial (section_of y ''proxmox'')))"

text \<open>The configuration that is saved; on an error nothing is saved.\<close>

definition put_credentials :: "credentials_put \<Rightarrow> dict \<Rightarrow> exn + dict" where
  "put_credentials body y =
     (let y1 = (case cp_servers body of None \<Rightarrow> y | Some ms \<Rightarrow> save_servers ms y);
          y2 = (case cp_proxmox body of None \<Rightarrow> y1 | Some p \<Rightarrow> save_proxmox p y1)
      in res_bind (case cp_worker body of None \<Rightarrow> Inr y2 | Some p \<Rightarrow> update_worker p y2) (\<lambda>y3.
         Inr (case cp_notify body of None \<Rightarrow> y3 | Some p \<Rightarrow> update_notifications p y3)))"

definition patch_worker :: "dict \<Rightarrow> dict \<Rightarrow> exn + dict \<times> worker_view" where
  "patch_worker partial y =
     res_bind (update_worker partial y) (\<lambda>y'.
     res_bind (view_worker (section_of y' ''worker'')) (\<lambda>v. Inr (y', v)))"

subsection \<open>Connection tests\<close>

text \<open>The server that is probed: the values of the form, with the stored secrets in place of masked ones\<close>

definition probe_server :: "dict \<Rightarrow> server_model \<Rightarrow> dict" where
  "probe_server y m =
     (let by_id = (case dget y ''pbs_servers'' of PList vs \<Rightarrow> servers_by_id vs | _ \<Rightarrow> []);
          mounts = (if sm_mounts m \<noteq> [] then map (\<lambda>x. PDict (mount_doc x)) (sm_mounts m)
                    else [PDict [(''datastore'', PStr ''probe''), (''namespace'', PStr []), (''pve_storage'', PStr ''probe'')]])
      in server_doc by_id (or_default (sm_id m) ''probe'') m mounts)"

definition test_pbs :: "env \<Rightarrow> cfg \<Rightarrow> dict \<Rightarrow> server_model \<Rightarrow> (world, bool \<times> string) act" where
  "test_pbs E C y m =
     probe_pbs_connection E (C\<lparr>pbs_servers := PList [PDict (probe_server y m)], pbs_cfg := [], proxmox_cfg := []\<rparr>)"

definition test_proxmox :: "env \<Rightarrow> cfg \<Rightarrow> dict \<Rightarrow> (world, bool \<times> string) act" where
  "test_proxmox E C partial =
     test_proxmox_connection E
       (C\<lparr>proxmox_cfg := merge_partial {''api_token_secret'', ''password''} partial (proxmox_cfg C)\<rparr>)"

definition test_email :: "env \<Rightarrow> cfg \<Rightarrow> string option \<Rightarrow> (world, string) act" where
  "test_email E C to =
     (let given = (case to of None \<Rightarrow> [] | Some t \<Rightarrow> t);
          em = dput (section_of (notify_cfg C) ''email'') ''enabled'' (PBool True);
          D = C\<lparr>notify_cfg := dput (notify_cfg C) ''email'' (PDict em)\<rparr>
      in bind_act (send_email E D ''[restore-engine] Test email''
             (''This is a test message from restore-engine.'' @ [CHR 0x0A])
             (if strip given \<noteq> [] then Some (semicolons given) else None)) (\<lambda>(ok, detail).
           if ok then ret_act detail else raise_act (bad_request detail)))"

definition proxmox_storages :: "env \<Rightarrow> cfg \<Rightarrow> string \<Rightarrow> (world, storage_row list) act" where
  "proxmox_storages E C node =
     catch_act (bind_act (connect_proxmox E C) (\<lambda>_. list_node_storages E node))
       (\<lambda>e. raise_act (HTTPException 502 (public_error_message e (''Proxmox storages on '' @ node))))"

fun storages_each ::
  "env \<Rightarrow> (string \<times> storage_row list) list \<Rightarrow> (string \<times> string) list \<Rightarrow> string list \<Rightarrow>
     (world, (string \<times> storage_row list) list \<times> (string \<times> string) list) act" where
  "storages_each E by_node errs [] = ret_act (by_node, errs)"
| "storages_each E by_node errs (raw # raws) =
     (let name = strip raw in
      if name = [] \<or> map_of by_node name \<noteq> None then storages_each E by_node errs raws
      else bind_act (catch_act (bind_act (list_node_storages E name) (\<lambda>rows. ret_act (rows, [])))
                       (\<lambda>e. ret_act ([], [(name, public_error_message e [])]))) (\<lambda>(rows, es).
           storages_each E (by_node @ [(name, rows)]) (errs @ es) raws))"

definition proxmox_storages_multi ::
  "env \<Rightarrow> cfg \<Rightarrow> string \<Rightarrow> (world, (string \<times> storage_row list) list \<times> (string \<times> string) list) act" where
  "proxmox_storages_multi E C nodes =
     bind_act (catch_act (connect_proxmox E C)
                 (\<lambda>e. raise_act (HTTPException 502 (public_error_message e ''Proxmox connect failed'')))) (\<lambda>_.
     storages_each E [] [] (split_on CHR '','' nodes))"

definition proxmox_nodes :: "env \<Rightarrow> cfg \<Rightarrow> (world, node_row list) act" where
  "proxmox_nodes E C = bind_act (connect_proxmox E C) (\<lambda>_. list_cluster_nodes E)"

end
