(* ===== verification/UiProps.thy ===== *)
theory UiProps
  imports UiConfig
begin

text \<open>
  What the dashboard guarantees of access and of secrets: a token with the viewer role only reads, what is
  shown does not depend on the secrets, and saving what is shown keeps them.
\<close>

subsection \<open>Access\<close>

definition token_matches :: "dict \<Rightarrow> string \<Rightarrow> string \<Rightarrow> bool" where
  "token_matches y token role \<longleftrightarrow>
     (\<exists>entries entry. dget (section_of y ''ui'') ''api_tokens'' = PList entries \<and> PDict entry \<in> set entries \<and>
        str_strip entry ''token'' = token \<and> token \<noteq> [] \<and>
        (role = ''viewer'' \<longleftrightarrow> lower (strip (py_str (py_or (dget entry ''role'') (PStr ''operator'')))) = ''viewer''))"

lemma map_filter_first:
  "List.map_filter f xs = y # ys \<Longrightarrow> \<exists>x \<in> set xs. f x = Some y"
  by (induction xs) (auto simp: List.map_filter_simps split: option.splits)

lemma match_api_token_entry:
  assumes "match_api_token y raw = Some i"
  shows "token_matches y (strip raw) (id_role i) \<and> id_role i \<in> {''operator'', ''viewer''}"
proof -
  obtain entries rest where e: "dget (section_of y ''ui'') ''api_tokens'' = PList entries" "strip raw \<noteq> []"
    "List.map_filter (token_entry (strip raw)) entries = i # rest"
    using assms by (auto simp: match_api_token_def Let_def split: if_splits pyval.splits list.splits)
  obtain v where v: "v \<in> set entries" "token_entry (strip raw) v = Some i"
    using map_filter_first [OF e(3)] by blast
  obtain entry where d: "v = PDict entry" "str_strip entry ''token'' = strip raw"
    "id_role i = (let role = lower (strip (py_str (py_or (dget entry ''role'') (PStr ''operator''))))
       in if role \<in> {''operator'', ''viewer''} then role else ''operator'')"
    using v(2) by (cases v) (auto simp: token_entry_def Let_def split: if_splits)
  from d(3) have "id_role i \<in> {''operator'', ''viewer''}" by (simp add: Let_def)
  moreover from d(3) have "id_role i = ''viewer'' \<longleftrightarrow>
      lower (strip (py_str (py_or (dget entry ''role'') (PStr ''operator'')))) = ''viewer''"
    by (auto simp: Let_def)
  ultimately show ?thesis using e(1,2) v(1) d(1,2) by (auto simp: token_matches_def)
qed

lemma map_filter_none: "List.map_filter f xs = [] \<Longrightarrow> x \<in> set xs \<Longrightarrow> f x = None"
  by (induction xs) (auto simp: List.map_filter_simps split: option.splits)

lemma match_api_token_none:
  assumes "match_api_token y raw = None"
  shows "\<not> token_matches y (strip raw) role"
proof
  assume "token_matches y (strip raw) role"
  then obtain entries entry where e: "dget (section_of y ''ui'') ''api_tokens'' = PList entries" "PDict entry \<in> set entries"
    "str_strip entry ''token'' = strip raw" "strip raw \<noteq> []"
    by (auto simp: token_matches_def)
  then have "List.map_filter (token_entry (strip raw)) entries = []"
    using assms by (auto simp: match_api_token_def Let_def split: list.splits)
  from map_filter_none [OF this e(2)] e(3,4) show False by (simp add: token_entry_def Let_def)
qed

text \<open>The token that a request carries, if it carries one\<close>

definition bearer_token :: "request \<Rightarrow> string option" where
  "bearer_token rq =
     (let auth = strip (rq_authorization rq)
      in if startswith ''bearer '' (lower auth) then Some (strip (drop 7 auth)) else None)"

definition presents :: "dict \<Rightarrow> request \<Rightarrow> string \<Rightarrow> bool" where
  "presents y rq role \<longleftrightarrow> (\<exists>tok. bearer_token rq = Some tok \<and> token_matches y tok role)"

text \<open>C18: A request passes the authentication only with a session, as operator, or with the token of a configured entry,
  which is not blank, in the role of an entry with that token; a role is operator or viewer, and a viewer passes only
  with a method that reads. Every other request has no session, and is answered with 401 exactly if it presents the token of no entry, of
  whatever role, or with 403, and that only if its token is that of an entry for a viewer and its method is one that writes:
  a session is never refused, and neither is a token whose entries are all for operators, with any method.\<close>

theorem authenticated_requests:
  "case require_ui_session y rq of
     Inr a \<Rightarrow> (rq_session rq \<and> au_role a = ''operator'') \<or>
       (\<not> rq_session rq \<and> presents y rq (au_role a) \<and> au_role a \<in> {''operator'', ''viewer''} \<and>
        (au_role a = ''viewer'' \<longrightarrow> map upper_char (rq_method rq) \<in> safe_methods))
   | Inl e \<Rightarrow> \<not> rq_session rq \<and>
       (if \<forall>role. \<not> presents y rq role then e = HTTPException 401 ''Not authenticated''
        else e = HTTPException 403 ''Viewer API token is read-only'' \<and> presents y rq ''viewer'' \<and>
          map upper_char (rq_method rq) \<notin> safe_methods)"
proof (cases "rq_session rq")
  case False
  let ?auth = "strip (rq_authorization rq)"
  show ?thesis
  proof (cases "startswith ''bearer '' (lower ?auth)")
    case True
    then have tok: "presents y rq role \<longleftrightarrow> token_matches y (strip (drop 7 ?auth)) role" for role
      by (simp add: presents_def bearer_token_def Let_def)
    show ?thesis
    proof (cases "match_api_token y (strip (drop 7 ?auth))")
      case None
      with match_api_token_none [OF None] False True show ?thesis
        by (simp add: require_ui_session_def Let_def not_authenticated_def tok)
    next
      case (Some i)
      with match_api_token_entry [OF Some] False True show ?thesis
        by (auto simp: require_ui_session_def Let_def tok)
    qed
  qed (use False in \<open>simp add: require_ui_session_def Let_def not_authenticated_def presents_def bearer_token_def\<close>)
qed (simp add: require_ui_session_def)

definition token_config :: dict where
  "token_config = [(''ui'', PDict [(''api_tokens'', PList [PDict [(''token'', PStr ''t0''), (''role'', PStr ''viewer'')]])])]"

lemma viewer_post_refused:
  "require_ui_session token_config \<lparr>rq_session = False, rq_authorization = ''Bearer t0'', rq_method = ''POST''\<rparr> =
     Inl (HTTPException 403 ''Viewer API token is read-only'')"
  "require_ui_session token_config \<lparr>rq_session = False, rq_authorization = ''Bearer t0'', rq_method = ''GET''\<rparr> =
     Inr \<lparr>au_actor = ''token:api'', au_role = ''viewer''\<rparr>"
  by code_simp+

theorem authenticated_requests_witness:
  "\<exists>a. require_ui_session token_config \<lparr>rq_session = False, rq_authorization = ''Bearer t0'', rq_method = ''GET''\<rparr> = Inr a \<and>
     token_matches token_config ''t0'' (au_role a)"
proof -
  let ?rq = "\<lparr>rq_session = False, rq_authorization = ''Bearer t0'', rq_method = ''GET''\<rparr>"
  have "bearer_token ?rq = Some ''t0''" by code_simp
  with authenticated_requests [where y = token_config and rq = ?rq]
  show ?thesis by (simp add: viewer_post_refused presents_def)
qed

subsection \<open>What is shown\<close>

text \<open>Two sections that differ in secrets only; a secret may be another one, but not appear or vanish.\<close>

definition clean_secret :: "pyval \<Rightarrow> exn + string" where
  "clean_secret v = py_strip (py_or v (PStr []))"

definition secret_eq :: "pyval \<Rightarrow> pyval \<Rightarrow> bool" where
  "secret_eq a b \<longleftrightarrow>
     a = b \<or> (\<exists>s t. clean_secret a = Inr s \<and> clean_secret b = Inr t \<and> (s = [] \<longleftrightarrow> t = []))"

definition secrets_differ :: "string set \<Rightarrow> dict \<Rightarrow> dict \<Rightarrow> bool" where
  "secrets_differ ks a b \<longleftrightarrow>
     (\<forall>k. k \<notin> ks \<longrightarrow> map_of a k = map_of b k) \<and> (\<forall>k \<in> ks. secret_eq (dget a k) (dget b k))"

definition login_secrets :: "string set" where
  "login_secrets = {''api_token_secret'', ''password''}"

lemma secrets_differ_refl [simp]: "secrets_differ ks d d"
  by (simp add: secrets_differ_def secret_eq_def)

lemma secrets_differ_get:
  assumes "secrets_differ ks a b" "k \<notin> ks"
  shows "dget a k = dget b k" "dget_or a k v = dget_or b k v" "bool_field a k c = bool_field b k c"
  using assms by (auto simp: secrets_differ_def dget_def dget_or_def bool_field_def)

lemma masked_same:
  assumes "secrets_differ ks a b" "k \<in> ks"
  shows "masked a k = masked b k"
proof -
  have "secret_eq (dget a k) (dget b k)" using assms by (simp add: secrets_differ_def)
  then show ?thesis by (auto simp: masked_def secret_eq_def clean_secret_def)
qed

lemma mask_pbs_server_same:
  assumes "secrets_differ login_secrets a b"
  shows "mask_pbs_server a = mask_pbs_server b"
proof -
  note same = secrets_differ_get [OF assms] and secret = masked_same [OF assms]
  have "masked a ''api_token_secret'' = masked b ''api_token_secret''" "masked a ''password'' = masked b ''password''"
    by (rule secret, simp add: login_secrets_def)+
  moreover have "dget_or a k v = dget_or b k v" "dget a k = dget b k" "bool_field a k c = bool_field b k c"
    if "k \<in> {''id'', ''host'', ''port'', ''verify_ssl'', ''api_token_id'', ''user'', ''mounts''}" for k v c
    using that by (intro same, auto simp: login_secrets_def)+
  ultimately show ?thesis unfolding mask_pbs_server_def by simp
qed

lemma mask_proxmox_same:
  assumes "secrets_differ login_secrets a b"
  shows "mask_proxmox a = mask_proxmox b"
proof -
  note same = secrets_differ_get [OF assms] and secret = masked_same [OF assms]
  have "masked a ''api_token_secret'' = masked b ''api_token_secret''" "masked a ''password'' = masked b ''password''"
    by (rule secret, simp add: login_secrets_def)+
  moreover have "dget_or a k v = dget_or b k v" "bool_field a k c = bool_field b k c"
    if "k \<in> {''host'', ''port'', ''verify_ssl'', ''default_node'', ''api_token_id'', ''storage'', ''restore_bwlimit'',
      ''live_restore_default'', ''user''}" for k v c
    using that by (intro same, auto simp: login_secrets_def)+
  ultimately show ?thesis unfolding mask_proxmox_def by simp
qed

lemma view_notifications_same:
  assumes e: "secrets_differ {''password''} (section_of a ''email'') (section_of b ''email'')"
    and h: "secrets_differ {''secret''} (section_of a ''webhook'') (section_of b ''webhook'')"
    and ev: "section_of a ''events'' = section_of b ''events''"
  shows "view_notifications a = view_notifications b"
proof -
  have "masked (section_of a ''email'') ''password'' = masked (section_of b ''email'') ''password''"
    "masked (section_of a ''webhook'') ''secret'' = masked (section_of b ''webhook'') ''secret''"
    by (rule masked_same [OF e], simp, rule masked_same [OF h], simp)
  moreover have "dget (section_of a ''email'') k = dget (section_of b ''email'') k"
    "bool_field (section_of a ''email'') k c = bool_field (section_of b ''email'') k c" if "k \<noteq> ''password''" for k c
    using that by (intro secrets_differ_get [OF e], simp)+
  moreover have "dget (section_of a ''webhook'') k = dget (section_of b ''webhook'') k"
    "bool_field (section_of a ''webhook'') k c = bool_field (section_of b ''webhook'') k c" if "k \<noteq> ''secret''" for k c
    using that by (intro secrets_differ_get [OF h], simp)+
  ultimately show ?thesis unfolding view_notifications_def Let_def ev by simp
qed

definition server_differs :: "pyval \<Rightarrow> pyval \<Rightarrow> bool" where
  "server_differs u v \<longleftrightarrow> u = v \<or> (\<exists>a b. u = PDict a \<and> v = PDict b \<and> secrets_differ login_secrets a b)"

lemma servers_same:
  "list_all2 server_differs us vs \<Longrightarrow> map_res mask_pbs_server (dict_rows us) = map_res mask_pbs_server (dict_rows vs)"
proof (induction rule: list_all2_induct)
  case (Cons u us v vs)
  show ?case
  proof (cases u)
    case (PDict a)
    with Cons(1) obtain b where "v = PDict b" "secrets_differ login_secrets a b" by (auto simp: server_differs_def)
    with PDict Cons(3) mask_pbs_server_same show ?thesis by simp
  qed (use Cons in \<open>auto simp: server_differs_def\<close>)
qed simp

definition config_secrets_differ :: "dict \<Rightarrow> dict \<Rightarrow> bool" where
  "config_secrets_differ y z \<longleftrightarrow>
     (dget y ''pbs_servers'' = dget z ''pbs_servers'' \<or>
      (\<exists>us vs. dget y ''pbs_servers'' = PList us \<and> dget z ''pbs_servers'' = PList vs \<and> list_all2 server_differs us vs)) \<and>
     secrets_differ login_secrets (section_of y ''pbs'') (section_of z ''pbs'') \<and>
     secrets_differ login_secrets (section_of y ''proxmox'') (section_of z ''proxmox'') \<and>
     section_of y ''worker'' = section_of z ''worker'' \<and>
     secrets_differ {''password''} (section_of (section_of y ''notifications'') ''email'')
       (section_of (section_of z ''notifications'') ''email'') \<and>
     secrets_differ {''secret''} (section_of (section_of y ''notifications'') ''webhook'')
       (section_of (section_of z ''notifications'') ''webhook'') \<and>
     section_of (section_of y ''notifications'') ''events'' = section_of (section_of z ''notifications'') ''events''"

lemma legacy_same:
  assumes p: "secrets_differ login_secrets a b" and x: "secrets_differ login_secrets px px'"
  shows "secrets_differ login_secrets (legacy_view a px) (legacy_view b px')"
proof -
  have d: "dget_or a k v = dget_or b k v" if "k \<notin> login_secrets" for k v by (rule secrets_differ_get [OF p that])
  have "dget px ''pbs_storage'' = dget px' ''pbs_storage''"
    by (rule secrets_differ_get [OF x]) (simp add: login_secrets_def)
  moreover have "dget_or a k v = dget_or b k v"
    if "k \<in> {''host'', ''port'', ''verify_ssl'', ''api_token_id'', ''user'', ''datastore''}" for k v
    using that by (intro d) (auto simp: login_secrets_def)
  moreover have "secret_eq (dget_or a k (PStr [])) (dget_or b k (PStr []))" if "k \<in> login_secrets" for k
  proof -
    have "secret_eq (dget a k) (dget b k)" using p that by (simp add: secrets_differ_def)
    then show ?thesis
      by (auto simp: secret_eq_def clean_secret_def dget_def dget_or_def py_or_def split: option.splits)
  qed
  ultimately show ?thesis
    by (auto simp: secrets_differ_def legacy_view_def login_secrets_def dget_def dget_or_def)
qed

text \<open>C17: What the dashboard shows of the configuration does not depend on the secrets in it. Two
  configurations that differ only in the token secrets and passwords of the backup servers and of
  Proxmox, the password of the mail account and the secret of the webhook, each present in both or
  missing in both, are shown alike.\<close>

theorem credentials_hide_secrets:
  assumes "config_secrets_differ y z"
  shows "get_credentials y = get_credentials z"
proof -
  note d = assms [unfolded config_secrets_differ_def]
  have legacy: "mask_pbs_server (legacy_view (section_of y ''pbs'') (section_of y ''proxmox'')) =
      mask_pbs_server (legacy_view (section_of z ''pbs'') (section_of z ''proxmox''))"
    using d by (intro mask_pbs_server_same legacy_same) simp_all
  have seen: "dget (section_of y ''pbs'') k = dget (section_of z ''pbs'') k" if "k \<in> {''host'', ''datastore''}" for k
    using d that by (intro secrets_differ_get(1)) (auto simp: login_secrets_def)
  have "pbs_servers_view y = pbs_servers_view z"
  proof (cases "dget y ''pbs_servers'' = dget z ''pbs_servers''")
    case True
    then show ?thesis using legacy seen
      by (simp add: pbs_servers_view_def Let_def split: pyval.split list.split)
  next
    case False
    with d obtain us vs where l: "dget y ''pbs_servers'' = PList us" "dget z ''pbs_servers'' = PList vs"
      "list_all2 server_differs us vs" by blast
    show ?thesis
    proof (cases us)
      case Nil
      with l show ?thesis unfolding pbs_servers_view_def Let_def using legacy seen by simp
    next
      case (Cons u us')
      with l(3) obtain v vs' where "vs = v # vs'" by (auto simp: list_all2_Cons1)
      with Cons l servers_same [OF l(3)] show ?thesis unfolding pbs_servers_view_def by simp
    qed
  qed
  moreover have "mask_proxmox (section_of y ''proxmox'') = mask_proxmox (section_of z ''proxmox'')"
    using d by (intro mask_proxmox_same) simp
  moreover have "view_notifications (section_of y ''notifications'') = view_notifications (section_of z ''notifications'')"
    using d by (intro view_notifications_same) simp_all
  ultimately show ?thesis using d by (simp add: get_credentials_def)
qed

definition demo_config :: "string \<Rightarrow> dict" where
  "demo_config pw = [(''pbs_servers'', PList [PDict [(''id'', PStr ''a''), (''host'', PStr ''h''), (''password'', PStr pw)]]),
     (''proxmox'', PDict [(''host'', PStr ''p''), (''api_token_secret'', PStr pw)])]"

theorem credentials_hide_secrets_witness:
  "get_credentials (demo_config ''one'') = get_credentials (demo_config ''two'')"
proof -
  have "strip ''one'' = ''one''" "strip ''two'' = ''two''" by code_simp+
  then have "config_secrets_differ (demo_config ''one'') (demo_config ''two'')"
    by (auto simp: config_secrets_differ_def demo_config_def section_of_def dget_def dget_or_def server_differs_def
        secrets_differ_def login_secrets_def secret_eq_def clean_secret_def py_or_def)
  then show ?thesis by (rule credentials_hide_secrets)
qed

subsection \<open>Saving what is shown\<close>

lemma numbered_id_free:
  "numbered_id used base k n \<in> set used \<Longrightarrow> m \<le> k \<Longrightarrow> base @ ''-'' @ str_of_nat (n + m) \<in> set used"
proof (induction used base k n arbitrary: m rule: numbered_id.induct)
  case (2 used base k n)
  show ?case
  proof (cases "base @ ''-'' @ str_of_nat n \<in> set used")
    case True
    with 2 show ?thesis by (cases m) simp_all
  next
    case False
    with 2(2) show ?thesis by simp
  qed
qed simp

lemma str_of_nat_inj: "str_of_nat a = str_of_nat b \<Longrightarrow> a = b"
  by (metis digits_value_str_of_nat option.inject)

lemma unique_id_free: "unique_id used base \<notin> set used"
proof (rule ccontr)
  assume "\<not> ?thesis"
  then have bad: "base \<in> set used" "numbered_id used base (length used) 2 \<in> set used"
    by (auto simp: unique_id_def split: if_splits)
  then have "(\<lambda>m. base @ ''-'' @ str_of_nat m) ` {2..2 + length used} \<subseteq> set used"
    using numbered_id_free [OF bad(2)] by (auto simp: le_iff_add)
  moreover have "inj_on (\<lambda>m. base @ ''-'' @ str_of_nat m) {2..2 + length used}"
    by (auto simp: inj_on_def dest: str_of_nat_inj)
  ultimately have "card {2..2 + length used} \<le> card (set used)"
    by (metis card_image card_mono List.finite_set)
  then show False using card_length [of used] by simp
qed

definition server_key :: "dict \<Rightarrow> string" where
  "server_key d = py_str (dget_or d ''id'' (PStr []))"

lemma server_doc_get:
  "dget (server_doc by_id i m ws) ''id'' = PStr i"
  "dget (server_doc by_id i m ws) ''api_token_secret'' =
     PStr (kept_secret by_id (sm_id m) ''api_token_secret'' (sm_token_secret m))"
  "dget (server_doc by_id i m ws) ''password'' = PStr (kept_secret by_id (sm_id m) ''password'' (sm_password m))"
  by (simp_all add: server_doc_def dget_def dget_or_def)

lemma persist_ids:
  "\<exists>js. map (\<lambda>d. dget d ''id'') (persist_each by_id index used ms) = map PStr js \<and> distinct js \<and> set js \<inter> set used = {}"
proof (induction by_id index used ms rule: persist_each.induct)
  case (2 by_id index used m ms)
  let ?i = "unique_id used (slugify_server_id (or_default (sm_id m) (sm_host m)) (''pbs'' @ str_of_nat (Suc index)))"
  obtain js where IH: "map (\<lambda>d. dget d ''id'') (persist_each by_id (Suc index) (?i # used) ms) = map PStr js"
    "distinct js" "set js \<inter> set (?i # used) = {}"
    using 2 [OF refl] by blast
  have "map (\<lambda>d. dget d ''id'') (persist_each by_id index used (m # ms)) = map PStr (?i # js)"
    using IH(1) by (simp only: persist_each.simps Let_def list.map server_doc_get)
  moreover have "distinct (?i # js)" using IH(2,3) by simp
  moreover have "set (?i # js) \<inter> set used = {}" using IH(3) unique_id_free by simp
  ultimately show ?case by blast
qed (simp add: exI [of _ "[]"])

lemma persist_ids_distinct: "distinct (map (\<lambda>d. dget d ''id'') (persist_each by_id index used ms))"
proof -
  obtain js where "map (\<lambda>d. dget d ''id'') (persist_each by_id index used ms) = map PStr js" "distinct js"
    using persist_ids by blast
  then show ?thesis by (simp add: distinct_map inj_on_def)
qed

lemma persist_secrets:
  "map (\<lambda>d. (dget d ''api_token_secret'', dget d ''password'')) (persist_each by_id index used ms) =
   map (\<lambda>m. (PStr (kept_secret by_id (sm_id m) ''api_token_secret'' (sm_token_secret m)),
             PStr (kept_secret by_id (sm_id m) ''password'' (sm_password m)))) ms"
  by (induction by_id index used ms rule: persist_each.induct)
    (simp_all only: persist_each.simps Let_def list.map server_doc_get)

lemma persist_length [simp]: "length (persist_each by_id index used ms) = length ms"
  by (rule map_eq_imp_length_eq [OF persist_secrets])

lemma persist_secret_at:
  assumes "i < length ms"
  shows "dget (persist_each by_id index used ms ! i) ''api_token_secret'' =
      PStr (kept_secret by_id (sm_id (ms ! i)) ''api_token_secret'' (sm_token_secret (ms ! i)))"
    "dget (persist_each by_id index used ms ! i) ''password'' =
      PStr (kept_secret by_id (sm_id (ms ! i)) ''password'' (sm_password (ms ! i)))"
  using arg_cong [OF persist_secrets, of "\<lambda>l. l ! i" by_id index used ms] assms by simp_all

lemma fold_update_notin:
  "i \<notin> f ` set ds \<Longrightarrow> map_of (fold (\<lambda>d. AList.update (f d) d) ds m) i = map_of m i"
  by (induction ds arbitrary: m) (auto simp: update_conv')

lemma fold_update_distinct:
  "distinct (map f ds) \<Longrightarrow> d \<in> set ds \<Longrightarrow> map_of (fold (\<lambda>d. AList.update (f d) d) ds m) (f d) = Some d"
proof (induction ds arbitrary: m)
  case (Cons x ds)
  then show ?case by (cases "d = x") (auto simp: fold_update_notin update_conv')
qed simp

lemma dict_rows_PDict [simp]: "dict_rows (map PDict ds) = ds"
  by (induction ds) simp_all

lemma servers_by_id_of:
  "distinct (map server_key ds) \<Longrightarrow> d \<in> set ds \<Longrightarrow> map_of (servers_by_id (map PDict ds)) (server_key d) = Some d"
  unfolding servers_by_id_def dict_rows_PDict server_key_def by (rule fold_update_distinct)

text \<open>
  The request that the page sends for a server shown to it (\<open>static/index.html\<close>, \<open>pbsServerCard\<close> and
  \<open>readServerCard\<close>): the id of the view without surrounding blanks. The page leaves the fields of the secrets
  blank; a client that sends back the view itself has the mask there.
\<close>

definition form_of_view :: "dict \<Rightarrow> server_model \<Rightarrow> bool" where
  "form_of_view d m \<longleftrightarrow>
     (\<exists>v i. mask_pbs_server d = Inr v \<and> dget v ''id'' = PStr i \<and> sm_id m = strip i \<and>
        strip (sm_token_secret m) \<in> {[], mask} \<and> strip (sm_password m) \<in> {[], mask})"

definition stored_servers :: "dict \<Rightarrow> pyval list" where
  "stored_servers y = (case dget y ''pbs_servers'' of PList vs \<Rightarrow> vs | _ \<Rightarrow> [])"

lemma form_fields:
  assumes "form_of_view d m"
  shows "sm_id m = strip (server_key d)" "is_mask (strip (sm_token_secret m))" "is_mask (strip (sm_password m))"
  using assms
  by (auto simp: form_of_view_def mask_pbs_server_def masked_def server_key_def is_mask_def dget_def dget_or_def
      split: if_splits)

lemma dget_drop_other: "k \<noteq> l \<Longrightarrow> dget (drop_key d l) k = dget d k"
  by (simp add: dget_def dget_or_def drop_key_def delete_conv')

lemma save_servers_list:
  "dget (save_servers ms y) ''pbs_servers'' = PList (map PDict (persist_servers (stored_servers y) ms))"
  by (auto simp: save_servers_def Let_def stored_servers_def dget_drop_other split: pyval.splits)

lemma kept_secret_stored:
  assumes "distinct (map server_key ds)" "d \<in> set ds" "is_mask (strip g)"
  shows "kept_secret (servers_by_id (map PDict ds)) (server_key d) k g = py_str (dget_or d k (PStr []))"
  using servers_by_id_of [OF assms(1,2)] assms(3) by (simp add: kept_secret_def)

lemma kept_secret_none: "is_mask (strip g) \<Longrightarrow> kept_secret (servers_by_id []) i k g = []"
  by (simp add: kept_secret_def servers_by_id_def dget_or_def)

lemma persist_shown_server:
  assumes "distinct (map server_key ds)" "d \<in> set ds" "strip (server_key d) = server_key d"
    "i < length ms" "form_of_view d (ms ! i)" "k \<in> login_secrets"
  shows "dget (persist_servers (map PDict ds) ms ! i) k = PStr (py_str (dget_or d k (PStr [])))"
  using assms form_fields [OF assms(5)] kept_secret_stored [OF assms(1,2)]
  by (auto simp: login_secrets_def persist_servers_def persist_secret_at)

lemma persist_legacy_server:
  assumes "i < length ms" "form_of_view d (ms ! i)" "k \<in> login_secrets"
  shows "dget (persist_servers [] ms ! i) k = PStr []"
  using assms form_fields [OF assms(2)] kept_secret_none
  by (auto simp: login_secrets_def persist_servers_def persist_secret_at)

text \<open>C16: Saving backup servers as they are shown. Whatever list of servers is sent, the configuration then holds
  one server for each that was sent, and their ids are different. If the stored entries of \<open>pbs_servers\<close> have
  different ids, and a server of the request is what the page sends for one of them whose id has no
  surrounding blanks, then that server is saved with the token secret and the password stored for it, as
  text, at any position and whatever the other servers of the request are. A server shown from the old \<open>pbs\<close> block, when
  \<open>pbs_servers\<close> holds no entry, is not kept like that: sent as shown, it is saved with an empty secret and an empty password.\<close>

theorem saved_view_keeps_secrets:
  "\<exists>saved. dget (save_servers ms y) ''pbs_servers'' = PList (map PDict saved) \<and>
     length saved = length ms \<and> distinct (map (\<lambda>d. dget d ''id'') saved) \<and>
     (\<forall>ds d i k. stored_servers y = map PDict ds \<and> distinct (map server_key ds) \<and> d \<in> set ds \<and>
        strip (server_key d) = server_key d \<and> i < length ms \<and> form_of_view d (ms ! i) \<and> k \<in> login_secrets \<longrightarrow>
        dget (saved ! i) k = PStr (py_str (dget_or d k (PStr [])))) \<and>
     (\<forall>d i k. stored_servers y = [] \<and> i < length ms \<and> form_of_view d (ms ! i) \<and> k \<in> login_secrets \<longrightarrow>
        dget (saved ! i) k = PStr [])"
proof (intro exI conjI)
  let ?saved = "persist_servers (stored_servers y) ms"
  show "dget (save_servers ms y) ''pbs_servers'' = PList (map PDict ?saved)" by (rule save_servers_list)
  show "length ?saved = length ms" by (simp add: persist_servers_def)
  show "distinct (map (\<lambda>d. dget d ''id'') ?saved)" unfolding persist_servers_def by (rule persist_ids_distinct)
qed (auto simp: persist_shown_server persist_legacy_server)

definition demo_server :: dict where
  "demo_server = [(''id'', PStr ''a''), (''host'', PStr ''h''), (''api_token_secret'', PStr ''s''), (''password'', PStr [])]"

definition demo_form :: server_model where
  "demo_form = \<lparr>sm_id = ''a'', sm_host = ''h'', sm_port = 8007, sm_verify_ssl = True, sm_token_id = [],
     sm_token_secret = [], sm_user = [], sm_password = [], sm_mounts = []\<rparr>"

lemma demo_form_of_view: "form_of_view demo_server demo_form"
proof -
  have "strip ''s'' = ''s''" "strip ''a'' = ''a''" "strip [] = []" by code_simp+
  then show ?thesis
    by (simp add: form_of_view_def mask_pbs_server_def masked_def demo_server_def demo_form_def py_or_def dget_def
        dget_or_def iter_or_empty_def)
qed

theorem saved_view_keeps_secrets_witness:
  "\<exists>saved. dget (save_servers [demo_form] [(''pbs_servers'', PList [PDict demo_server])]) ''pbs_servers'' =
       PList (map PDict saved) \<and>
     dget (saved ! 0) ''api_token_secret'' = PStr ''s''"
proof -
  let ?y = "[(''pbs_servers'', PList [PDict demo_server])]"
  have keyed: "strip (server_key demo_server) = server_key demo_server" by code_simp
  have secret: "py_str (dget_or demo_server ''api_token_secret'' (PStr [])) = ''s''"
    by (simp add: demo_server_def dget_or_def)
  obtain saved where saved: "dget (save_servers [demo_form] ?y) ''pbs_servers'' = PList (map PDict saved)"
    "\<And>ds d i k. stored_servers ?y = map PDict ds \<Longrightarrow> distinct (map server_key ds) \<Longrightarrow> d \<in> set ds \<Longrightarrow>
       strip (server_key d) = server_key d \<Longrightarrow> i < length [demo_form] \<Longrightarrow> form_of_view d ([demo_form] ! i) \<Longrightarrow>
       k \<in> login_secrets \<Longrightarrow> dget (saved ! i) k = PStr (py_str (dget_or d k (PStr [])))"
    using saved_view_keeps_secrets [of "[demo_form]" ?y] by (elim exE conjE) blast
  have "dget (saved ! 0) ''api_token_secret'' = PStr ''s''"
    using saved(2) [of "[demo_server]" demo_server 0 "''api_token_secret''"] keyed secret demo_form_of_view
    by (simp add: stored_servers_def dget_def login_secrets_def)
  with saved(1) show ?thesis by blast
qed

end
