(* ===== verification/Compliance.thy ===== *)
theory Compliance
  imports ApiPlans
begin

text \<open>
  The compliance dashboard (\<open>compliance_dashboard\<close> in \<open>reports.py\<close>): one item for each plan with its
  readiness, assurance, schedule and last runs, the risks of the plan, and the counts over all plans.
\<close>

subsection \<open>The last runs of a plan\<close>

definition run_ended :: "plan_run \<Rightarrow> bool" where
  "run_ended run \<longleftrightarrow> pr_status run \<in> {R_COMPLETED, R_FAILED, R_CANCELLED} \<and> pr_finished_at run \<noteq> []"

text \<open>The last run, the last recovery and the last drill: the first of each kind in a list that starts with the latest\<close>

definition first_run :: "(plan_run \<Rightarrow> bool) \<Rightarrow> plan_run list \<Rightarrow> plan_run option" where
  "first_run P runs = find P (filter run_ended runs)"

definition last_any :: "plan_run list \<Rightarrow> plan_run option" where
  "last_any = first_run (\<lambda>_. True)"

definition last_prod :: "plan_run list \<Rightarrow> plan_run option" where
  "last_prod = first_run (\<lambda>run. \<not> rn_drill (pr_params run))"

definition last_drill :: "plan_run list \<Rightarrow> plan_run option" where
  "last_drill = first_run (\<lambda>run. rn_drill (pr_params run))"

definition rto_of :: "plan_run option \<Rightarrow> exn + int option" where
  "rto_of run =
     (case run of None \<Rightarrow> Inr None | Some x \<Rightarrow> wall_clock_rto_sec (rn_started_at (pr_params x)) (pr_finished_at x))"

definition run_field :: "(plan_run \<Rightarrow> string) \<Rightarrow> plan_run option \<Rightarrow> pyval" where
  "run_field f run = PStr (case run of None \<Rightarrow> [] | Some x \<Rightarrow> f x)"

subsection \<open>The posture of a plan\<close>

definition shown_verification :: "dict \<Rightarrow> string" where
  "shown_verification plan =
     (let ver = py_str (py_or (dget plan ''verification'') (PStr (verification_value NOT_VERIFIED)))
      in if ver \<in> set plan_verifications then ver else verification_value NOT_VERIFIED)"

record schedule_flags =
  sf_counted :: bool
  sf_overdue :: bool
  sf_due_soon :: bool

definition no_schedule :: schedule_flags where
  "no_schedule = \<lparr>sf_counted = False, sf_overdue = False, sf_due_soon = False\<rparr>"

definition schedule_flags_of :: "dict \<Rightarrow> rat \<Rightarrow> schedule_flags" where
  "schedule_flags_of plan clock_now =
     (let next_sched = next_scheduled_iso plan clock_now in
      if \<not> (truthy (dget_or plan ''schedule_enabled'' (PBool False)) \<and> plan_enabled plan) then no_schedule
      else if next_sched = [] then \<lparr>sf_counted = True, sf_overdue = True, sf_due_soon = False\<rparr>
      else case iso_timestamp (replace_Z next_sched) of
             None \<Rightarrow> \<lparr>sf_counted = True, sf_overdue = False, sf_due_soon = False\<rparr>
           | Some nxt \<Rightarrow>
               \<lparr>sf_counted = True, sf_overdue = nxt - clock_now \<le> 0,
                sf_due_soon = 0 < nxt - clock_now \<and> nxt - clock_now \<le> 3600\<rparr>)"

definition uses_tag_groups :: "cfg \<Rightarrow> world \<Rightarrow> dict \<Rightarrow> bool" where
  "uses_tag_groups C w plan =
     (case iter_or_empty (dget plan ''group_ids'') of
        Inl e \<Rightarrow> False
      | Inr gids \<Rightarrow>
          list_ex (\<lambda>gid. case get_group C (py_str gid) w of None \<Rightarrow> False | Some g \<Rightarrow> truthy (dget g ''tags'')) gids)"

definition risk_if :: "bool \<Rightarrow> string \<Rightarrow> string list" where
  "risk_if b risk = (if b then [risk] else [])"

definition plan_risks :: "cfg \<Rightarrow> world \<Rightarrow> dict \<Rightarrow> schedule_flags \<Rightarrow> plan_run option \<Rightarrow> bool \<Rightarrow> string list" where
  "plan_risks C w plan fl drill active =
     (let ver = shown_verification plan;
          tear = (case drill of None \<Rightarrow> [] | Some run \<Rightarrow> pr_teardown_status run)
      in risk_if (\<not> truthy (dget_or plan ''assurance_enabled'' (PBool False))) ''assurance_policy_off'' @
         risk_if (ver \<noteq> verification_value VERIFIED) ''not_verified'' @
         risk_if (require_verified_to_run C \<and> ver \<noteq> verification_value VERIFIED) ''verify_gate_blocks_run'' @
         risk_if active ''drill_in_progress'' @
         risk_if (drill \<noteq> None \<and> tear \<notin> {[], ''completed'', ''skipped''}) ''teardown_failed'' @
         risk_if (sf_overdue fl) ''schedule_overdue'' @
         risk_if (uses_tag_groups C w plan \<and> truthy (dget_or plan ''schedule_enabled'' (PBool False))) ''uses_tag_groups'')"

definition check_fields :: "dict \<Rightarrow> dict" where
  "check_fields plan =
     (let check = (case dget plan ''last_check'' of PDict d \<Rightarrow> d | _ \<Rightarrow> []) in
      [(''last_check_at'', py_or (dget plan ''last_check_at'') (PStr [])),
       (''last_check_ok'', if check = [] then PNone else PBool (truthy (dget check ''ok''))),
       (''last_check_summary'', py_or (dget check ''summary'') (PStr [])),
       (''last_check_report_id'', py_or (dget plan ''last_check_report_id'') (PStr []))])"

definition run_fields :: "string \<Rightarrow> plan_run option \<Rightarrow> int option \<Rightarrow> dict" where
  "run_fields prefix run rto =
     [(prefix @ ''_id'', run_field pr_id run),
      (prefix @ ''_status'', run_field (\<lambda>x. run_status_value (pr_status x)) run),
      (prefix @ ''_finished_at'', run_field pr_finished_at run), (prefix @ ''_rto_sec'', opt_int rto),
      (prefix @ ''_rto'', PStr (format_duration rto))]"

definition compliance_item :: "cfg \<Rightarrow> world \<Rightarrow> rat \<Rightarrow> dict \<Rightarrow> exn + dict" where
  "compliance_item C w clock_now plan =
     (let pid = str_or_empty (dget plan ''id''); runs = list_plan_runs C pid 20 w;
          active = map_of (active_drills C w) pid; (status, detail) = dashboard_status plan active;
          assured = dashboard_rto plan; fl = schedule_flags_of plan clock_now;
          anyrun = last_any runs; prod = last_prod runs; drill = last_drill runs
      in res_bind (rto_of prod) (\<lambda>prod_rto.
         res_bind (rto_of drill) (\<lambda>drill_rto.
         res_bind (int_or_zero plan ''assurance_max_rto_sec'') (\<lambda>max_rto.
         res_bind (rto_of anyrun) (\<lambda>any_rto.
         res_bind (int_or_zero plan ''schedule_interval_hours'') (\<lambda>hours.
         Inr
           ([(''plan_id'', dget plan ''id''), (''plan_name'', dget plan ''name''),
             (''enabled'', PBool (plan_enabled plan)), (''verification'', PStr (shown_verification plan))] @
            check_fields plan @
            [(''assurance_enabled'', PBool (truthy (dget_or plan ''assurance_enabled'' (PBool False)))),
             (''assurance_status'', PStr status), (''assurance_detail'', PStr (py_str detail)),
             (''assurance_updated_at'', py_or (dget plan ''assurance_updated_at'') (PStr [])),
             (''assurance_require_qga'', PBool (truthy (dget_or plan ''assurance_require_qga'' (PBool False)))),
             (''assurance_require_http'', PBool (truthy (dget_or plan ''assurance_require_http'' (PBool False)))),
             (''assurance_max_rto_sec'', PInt max_rto), (''assurance_last_rto_sec'', opt_int assured),
             (''assurance_last_rto'', PStr (format_duration assured))] @
            run_fields ''last_run'' anyrun any_rto @
            [(''last_run_report_id'', py_or (dget plan ''last_run_report_id'') (PStr []))] @
            run_fields ''last_prod_run'' prod prod_rto @
            run_fields ''last_drill'' drill drill_rto @
            [(''last_drill_teardown_status'', run_field pr_teardown_status drill),
             (''schedule_enabled'', PBool (truthy (dget_or plan ''schedule_enabled'' (PBool False)))),
             (''schedule_interval_hours'', PInt hours),
             (''next_scheduled_at'', PStr (next_scheduled_iso plan clock_now)),
             (''last_scheduled_run_at'', py_or (dget plan ''last_scheduled_run_at'') (PStr [])),
             (''schedule_overdue'', PBool (sf_overdue fl)), (''schedule_due_soon'', PBool (sf_due_soon fl)),
             (''uses_tag_groups'', PBool (uses_tag_groups C w plan)), (''active_run_id'', run_field pr_id active),
             (''risks'', str_vals (plan_risks C w plan fl drill (active \<noteq> None))),
             (''location_id'', py_or (dget plan ''location_id'') (PStr []))])))))))"

subsection \<open>The counts\<close>

definition count_of :: "('a \<Rightarrow> bool) \<Rightarrow> 'a list \<Rightarrow> int" where
  "count_of P xs = int (length (filter P xs))"

record posture_counts =
  cc_verification :: "(string \<times> int) list"
  cc_assurance :: "(string \<times> int) list"
  cc_scheduled :: int
  cc_overdue :: int
  cc_due_soon :: int
  cc_disabled :: int
  cc_require_verified :: bool

definition compliance_counts :: "cfg \<Rightarrow> rat \<Rightarrow> dict list \<Rightarrow> dict list \<Rightarrow> posture_counts" where
  "compliance_counts C clock_now plans items =
     (let flags = map (\<lambda>p. schedule_flags_of p clock_now) plans in
      \<lparr>cc_verification =
         map (\<lambda>v. (v, count_of (\<lambda>p. plan_enabled p \<and> shown_verification p = v) plans)) plan_verifications,
       cc_assurance = dashboard_counts items, cc_scheduled = count_of sf_counted flags,
       cc_overdue = count_of sf_overdue flags, cc_due_soon = count_of sf_due_soon flags,
       cc_disabled = count_of (\<lambda>p. \<not> plan_enabled p) plans,
       cc_require_verified = require_verified_to_run C\<rparr>)"

definition compliance_dashboard :: "env \<Rightarrow> cfg \<Rightarrow> world \<Rightarrow> exn + dict list \<times> posture_counts \<times> string" where
  "compliance_dashboard E C w =
     (let plans = list_plans C w in
      res_bind (map_res (compliance_item C w (now E w)) plans) (\<lambda>items.
      Inr (items, compliance_counts C (now E w) plans items, utc_now_iso E w)))"

end
