(* ===== verification/ComplianceProps.thy ===== *)
theory ComplianceProps
  imports Compliance WireProps
begin

text \<open>
  What the compliance dashboard means: a rendered time stamp reads back with its microseconds, so the flag
  for an overdue schedule agrees with the scheduler, and every plan is counted once.
\<close>

subsection \<open>Reading a rendered time stamp\<close>

lemma foldl_zeros: "foldl (\<lambda>a c. 10 * a + int (digit_val c)) 0 (replicate k CHR ''0'') = 0"
  by (induction k) (simp_all add: digit_val_def)

lemma digits_int_padded: "digits_int s = Some n \<Longrightarrow> digits_int (replicate k CHR ''0'' @ s) = Some n"
  by (auto simp: digits_int_def foldl_zeros is_digit_def split: if_splits)

lemma length_str_of_nat_le: "n < 10 ^ Suc k \<Longrightarrow> length (str_of_nat n) \<le> Suc k"
proof (induction k arbitrary: n)
  case (Suc k)
  then have "n div 10 < 10 ^ Suc k" by auto
  with Suc.IH [of "n div 10"] show ?case by (auto simp: str_of_nat.simps [of n])
qed (simp add: str_of_nat.simps)

lemma pad_left_facts:
  assumes "0 \<le> n" "n < 10 ^ k" "0 < k"
  shows "length (pad_left k (str_of_int n)) = k" "digits_int (pad_left k (str_of_int n)) = Some n"
    "\<forall>c \<in> set (pad_left k (str_of_int n)). is_digit c"
proof -
  obtain j where j: "k = Suc j" using assms(3) by (cases k) simp_all
  have "nat n < 10 ^ Suc j" using assms(1,2) j by (metis nat_less_iff of_nat_numeral of_nat_power)
  then have "length (str_of_int n) \<le> k"
    using length_str_of_nat_le [of "nat n" j] assms(1) j by (simp add: str_of_int_def)
  then show "length (pad_left k (str_of_int n)) = k" by (simp add: pad_left_def)
  show d: "digits_int (pad_left k (str_of_int n)) = Some n"
    unfolding pad_left_def by (rule digits_int_padded [OF digits_int_str_of_int [OF assms(1)]])
  then show "\<forall>c \<in> set (pad_left k (str_of_int n)). is_digit c" by (simp add: digits_int_def split: if_splits)
qed

lemma parse_fraction_text:
  assumes "0 \<le> n" "n < 1000000"
  shows "parse_fraction (''.'' @ pad_left 6 (str_of_int n) @ ''+00:00'') = Some (of_int n / 1000000, ''+00:00'')"
proof -
  let ?d = "pad_left 6 (str_of_int n)"
  have f: "length ?d = 6" "digits_int ?d = Some n" "\<forall>c \<in> set ?d. is_digit c"
    using pad_left_facts [of n 6] assms by simp_all
  have p: "\<not> is_digit CHR ''+''" by code_simp
  have "takeWhile is_digit (?d @ ''+00:00'') = ?d" "dropWhile is_digit (?d @ ''+00:00'') = ''+00:00''"
    using f(3) p by (simp_all add: takeWhile_append2 dropWhile_append2)
  with f show ?thesis by (simp add: parse_fraction_def startswith_def)
qed

lemma iso_timestamp_tail:
  assumes "length d = 19" "iso_timestamp (d @ ''+00:00'') = Some t" "parse_fraction r = Some (fr, ''+00:00'')"
  shows "iso_timestamp (d @ r) = Some (t + fr)"
proof -
  have cut: "take 10 (d @ x) = take 10 d" "take 8 (drop 11 (d @ x)) = take 8 (drop 11 d)" "drop 19 (d @ x) = x"
    "length (d @ x) \<noteq> 10" for x
    using assms(1) by simp_all
  have none: "parse_fraction ''+00:00'' = Some (0, ''+00:00'')" by code_simp
  show ?thesis
    using assms(2,3) none unfolding iso_timestamp_def cut
    by (simp add: cut del: length_append split: option.splits)
qed

lemma replace_Z_id: "CHR ''Z'' \<notin> set s \<Longrightarrow> replace_Z s = s"
  by (induction s rule: replace_Z.induct) auto

definition on_grid :: "rat \<Rightarrow> bool" where
  "on_grid t \<longleftrightarrow> t * 1000000 \<in> \<int>"

definition readable_time :: "rat \<Rightarrow> bool" where
  "readable_time t \<longleftrightarrow> on_grid t \<and> of_int four_digit_epoch \<le> t \<and> t < of_int last_epoch + 1"

lemma iso_format_no_Z: "CHR ''Z'' \<notin> set (iso_format t)"
proof -
  have "CHR ''Z'' \<notin> set (datetime_text e)" "CHR ''Z'' \<notin> set (str_of_int i)" for e i
    using datetime_chars [of "CHR ''Z''" e] str_of_int_chars [of "CHR ''Z''" i] by (auto simp: is_digit_def)
  then show ?thesis by (simp add: iso_format_def Let_def pad_left_def)
qed

lemma round_half_even_int: "round_half_even (of_int n) = n"
  by (simp add: round_half_even_def Let_def)

lemma micro_split: "(t :: rat) * 1000000 = a * 1000000 + b \<Longrightarrow> t = a + b / 1000000"
  by (simp add: field_simps)

lemma iso_format_read:
  assumes "readable_time t"
  shows "iso_timestamp (replace_Z (iso_format t)) = Some t"
proof -
  obtain us where us: "t * 1000000 = of_int us"
    using assms by (auto simp: readable_time_def on_grid_def elim: Ints_cases)
  let ?e = "us div 1000000" and ?f = "us mod 1000000"
  have "of_int (four_digit_epoch * 1000000) \<le> (of_int us :: rat)" "(of_int us :: rat) < of_int ((last_epoch + 1) * 1000000)"
    using assms unfolding us [symmetric] by (simp_all add: readable_time_def)
  then have "four_digit_epoch * 1000000 \<le> us" "us < (last_epoch + 1) * 1000000" by (simp_all only: of_int_le_iff of_int_less_iff)
  then have e: "four_digit_epoch \<le> ?e" "?e \<le> last_epoch"
    by (simp_all add: four_digit_epoch_def last_epoch_def)
  have t: "t = of_int ?e + of_int ?f / 1000000"
  proof (rule micro_split)
    have "(of_int us :: rat) = of_int (?e * 1000000 + ?f)" by (simp only: div_mult_mod_eq)
    then show "t * 1000000 = of_int ?e * 1000000 + of_int ?f" by (simp only: us of_int_add of_int_mult of_int_numeral)
  qed
  have "pad_left 19 (datetime_text ?e) = datetime_text ?e" using datetime_text_read(3) [OF e] by (simp add: pad_left_def)
  moreover have "round_half_even (t * 1000000) = us" by (simp only: us round_half_even_int)
  ultimately have f: "iso_format t = datetime_text ?e @
      (if ?f = 0 then ''+00:00'' else ''.'' @ pad_left 6 (str_of_int ?f) @ ''+00:00'')"
    by (simp add: iso_format_def Let_def)
  have "iso_timestamp (iso_format t) = Some t"
  proof (cases "?f = 0")
    case True
    with f t datetime_text_read(1) [OF e] show ?thesis by simp
  next
    case False
    have "parse_fraction (''.'' @ pad_left 6 (str_of_int ?f) @ ''+00:00'') = Some (of_int ?f / 1000000, ''+00:00'')"
      by (rule parse_fraction_text) simp_all
    from iso_timestamp_tail [OF datetime_text_read(3) [OF e] datetime_text_read(1) [OF e] this] False f t
    show ?thesis by simp
  qed
  then show ?thesis by (simp add: replace_Z_id [OF iso_format_no_Z])
qed

subsection \<open>The overdue flag and the scheduler\<close>

lemma decimal_grid:
  assumes "k \<le> 6"
  shows "on_grid (of_int n / 10 ^ k)"
proof -
  have e: "(1000000 :: rat) = 10 ^ (6 - k) * 10 ^ k"
    using assms by (simp flip: power_add)
  have "(of_int n / 10 ^ k :: rat) * 1000000 = of_int (n * 10 ^ (6 - k))"
    unfolding e by (simp only: of_int_mult of_int_power of_int_numeral) simp
  then show ?thesis unfolding on_grid_def by (metis Ints_of_int)
qed

lemma on_grid_add: "on_grid a \<Longrightarrow> on_grid b \<Longrightarrow> on_grid (a + b)"
  by (simp add: on_grid_def distrib_right)

lemma on_grid_int: "on_grid (of_int n)"
  using decimal_grid [of 0 n] by simp

lemma parse_fraction_grid: "parse_fraction s = Some (fr, r) \<Longrightarrow> on_grid fr"
  using decimal_grid [of "min 6 (length (takeWhile is_digit (tl s)))"] on_grid_int [of 0]
  by (auto simp: parse_fraction_def Let_def split: if_splits option.splits)

lemma iso_timestamp_parts:
  assumes "iso_timestamp s = Some t"
  shows "\<exists>n fr. t = of_int n + fr \<and> (fr = 0 \<or> (\<exists>r. parse_fraction (drop 19 s) = Some (fr, r)))"
proof (cases "length s = 10")
  case True
  with assms obtain days where "t = of_int (days - 719163) * 86400"
    unfolding iso_timestamp_def by (auto split: option.splits)
  then have "t = of_int ((days - 719163) * 86400) + 0" by simp
  then show ?thesis by blast
next
  case False
  with assms obtain days secs fr r off where "parse_fraction (drop 19 s) = Some (fr, r)"
    "t = of_int ((days - 719163) * 86400 + secs - off) + fr"
    unfolding iso_timestamp_def by (auto split: option.splits simp del: of_int_add of_int_mult of_int_diff)
  then show ?thesis by blast
qed

lemma iso_timestamp_grid: "iso_timestamp s = Some t \<Longrightarrow> on_grid t"
  using iso_timestamp_parts [of s t] parse_fraction_grid on_grid_int on_grid_int [of 0] by (auto intro: on_grid_add)

definition next_start :: "dict \<Rightarrow> rat \<Rightarrow> rat" where
  "next_start plan clock_now =
     (case last_scheduled plan of None \<Rightarrow> clock_now | Some prev \<Rightarrow> prev + schedule_hours plan * 3600)"

lemma compliance_item_shape:
  assumes "compliance_item C w t plan = Inr item"
  shows "dget item ''plan_id'' = dget plan ''id'' \<and>
    dget item ''assurance_status'' =
       PStr (fst (dashboard_status plan (map_of (active_drills C w) (str_or_empty (dget plan ''id''))))) \<and>
    dget item ''schedule_overdue'' = PBool (sf_overdue (schedule_flags_of plan t))"
  using assms unfolding compliance_item_def Let_def case_prod_beta res_bind_eq_Inr check_fields_def run_fields_def
  by (elim exE conjE) (drule Inr_inject, drule sym [of _ item], simp only: dget_Cons append.simps, simp)

lemmas compliance_item_fields =
  compliance_item_shape [THEN conjunct1] compliance_item_shape [THEN conjunct2, THEN conjunct1]
  compliance_item_shape [THEN conjunct2, THEN conjunct2]

text \<open>C20: The overdue flag of the compliance dashboard and the scheduler agree. For an enabled plan with an enabled
  schedule and an interval of whole microseconds, whose next start and the clock are times between the years 1000 and
  9999, the flag is set exactly when the scheduler would start the plan at that time; and a schedule
  without a positive interval is always shown as overdue, although the scheduler never starts it.\<close>

theorem overdue_iff_due:
  assumes "compliance_item C w clock_now plan = Inr item"
    and "plan_enabled plan" "truthy (dget plan ''schedule_enabled'')"
    and "on_grid (schedule_hours plan * 3600)" "readable_time clock_now"
    and "of_int four_digit_epoch \<le> next_start plan clock_now" "next_start plan clock_now < of_int last_epoch + 1"
  shows "dget item ''schedule_overdue'' = PBool (schedule_due clock_now plan \<or> schedule_hours plan \<le> 0) \<and>
    (schedule_hours plan \<le> 0 \<longrightarrow> \<not> schedule_due clock_now plan)"
proof -
  have "truthy (dget_or plan ''schedule_enabled'' (PBool False))"
    using assms(3) by (auto simp: dget_or_def dget_def split: option.splits)
  note on = this assms(2,3)
  have item: "dget item ''schedule_overdue'' = PBool (sf_overdue (schedule_flags_of plan clock_now))"
    by (rule compliance_item_fields(3) [OF assms(1)])
  have "sf_overdue (schedule_flags_of plan clock_now) \<longleftrightarrow> schedule_due clock_now plan \<or> schedule_hours plan \<le> 0"
  proof (cases "schedule_hours plan \<le> 0")
    case True
    then show ?thesis using on by (simp add: schedule_flags_of_def next_scheduled_iso_def)
  next
    case False
    have r: "readable_time (next_start plan clock_now)"
      using assms(4-7) iso_timestamp_grid
      by (auto simp: readable_time_def next_start_def last_scheduled_def intro: on_grid_add split: option.splits)
    have "of_int first_epoch \<le> next_start plan clock_now"
      using assms(6) by (simp add: first_epoch_def four_digit_epoch_def)
    then have n: "next_scheduled_iso plan clock_now = iso_format (next_start plan clock_now)"
      using False on assms(7) by (auto simp: next_scheduled_iso_def next_start_def Let_def split: option.splits)
    have "iso_format (next_start plan clock_now) \<noteq> []" by (simp add: iso_format_def Let_def)
    then show ?thesis
      using False on iso_format_read [OF r]
      by (auto simp: schedule_flags_of_def n schedule_due_def next_start_def Let_def split: option.splits)
  qed
  with item show ?thesis by (auto simp: schedule_due_def)
qed

definition nightly_plan :: dict where
  "nightly_plan = [(''id'', PStr ''p''), (''name'', PStr ''nightly''), (''schedule_enabled'', PBool True),
     (''schedule_interval_hours'', PInt 24), (''last_scheduled_run_at'', PStr ''2026-05-06T01:06:06.5Z'')]"

lemma nightly_facts:
  "plan_enabled nightly_plan" "truthy (dget nightly_plan ''schedule_enabled'')"
  "schedule_hours nightly_plan = 24" "next_start nightly_plan 1778115966 = 3556231933 / 2"
  "\<not> schedule_due 1778115966 nightly_plan"
  by code_simp+

definition nightly_world :: world where
  "nightly_world = empty_world\<lparr>docs := [(plan_key demo_cfg ''p'', nightly_plan)], sets := [(plans_index demo_cfg, [''p''])]\<rparr>"

lemma nightly_item: "\<exists>item. compliance_item demo_cfg nightly_world t nightly_plan = Inr item"
proof -
  have "list_plan_runs demo_cfg ''p'' 20 nightly_world = []" "str_or_empty (dget nightly_plan ''id'') = ''p''"
    "int_or_zero nightly_plan ''assurance_max_rto_sec'' = Inr 0"
    "int_or_zero nightly_plan ''schedule_interval_hours'' = Inr 24"
    by code_simp+
  then show ?thesis
    by (simp add: compliance_item_def Let_def case_prod_beta last_prod_def last_drill_def last_any_def first_run_def rto_of_def)
qed

theorem overdue_iff_due_witness:
  "\<exists>item. compliance_item demo_cfg nightly_world 1778115966 nightly_plan = Inr item \<and>
     dget item ''schedule_overdue'' = PBool False"
proof -
  obtain item where item: "compliance_item demo_cfg nightly_world 1778115966 nightly_plan = Inr item"
    using nightly_item by blast
  have "on_grid (schedule_hours nightly_plan * 3600)"
    using on_grid_int [of "24 * 3600"] by (simp add: nightly_facts(3))
  moreover have "readable_time 1778115966"
    using on_grid_int [of 1778115966] by (simp add: readable_time_def four_digit_epoch_def last_epoch_def)
  ultimately have "dget item ''schedule_overdue'' =
      PBool (schedule_due 1778115966 nightly_plan \<or> schedule_hours nightly_plan \<le> 0)"
    using overdue_iff_due [OF item nightly_facts(1,2)]
    by (simp add: nightly_facts(4) four_digit_epoch_def last_epoch_def)
  with item nightly_facts(3,5) show ?thesis by simp
qed

subsection \<open>The counts\<close>

lemma count_of_Cons: "count_of P (x # xs) = (if P x then 1 else 0) + count_of P xs"
  by (simp add: count_of_def)

lemma count_of_Nil: "count_of P [] = 0"
  by (simp add: count_of_def)

lemma sum_counts:
  assumes "distinct ks" "\<forall>x \<in> set xs. P x \<longrightarrow> f x \<in> set ks"
  shows "sum_list (map (\<lambda>k. count_of (\<lambda>x. P x \<and> f x = k) xs) ks) = count_of P xs"
  using assms(2)
proof (induction xs)
  case (Cons x xs)
  have "sum_list (map (\<lambda>k. if P x \<and> f x = k then 1 else 0) ks) = (if P x then 1 else 0 :: int)"
    using assms(1) Cons.prems by (auto simp: sum_list_distinct_conv_sum_set sum.delta')
  with Cons show ?case by (simp add: count_of_Cons sum_list_addf)
qed (simp add: count_of_Nil)

lemma count_of_mono: "(\<And>x. x \<in> set xs \<Longrightarrow> P x \<Longrightarrow> Q x) \<Longrightarrow> count_of P xs \<le> count_of Q xs"
  by (induction xs) (auto simp: count_of_def)

lemma count_disjoint:
  "(\<And>x. x \<in> set xs \<Longrightarrow> \<not> (P x \<and> Q x)) \<Longrightarrow> count_of P xs + count_of Q xs = count_of (\<lambda>x. P x \<or> Q x) xs"
  by (induction xs) (auto simp: count_of_def)

lemma schedule_flags_disjoint:
  "\<not> (sf_overdue (schedule_flags_of p t) \<and> sf_due_soon (schedule_flags_of p t))"
  "sf_overdue (schedule_flags_of p t) \<or> sf_due_soon (schedule_flags_of p t) \<Longrightarrow> sf_counted (schedule_flags_of p t)"
  by (auto simp: schedule_flags_of_def no_schedule_def Let_def split: option.splits if_splits)

lemma dashboard_status_range:
  "fst (dashboard_status plan active) \<in> {''ASSURED'', ''FAILED'', ''UNKNOWN'', ''IN_PROGRESS'', ''DISABLED''}"
  by (simp add: dashboard_status_def Let_def split: option.split)

lemma map_res_same:
  "map_res f xs = Inr ys \<Longrightarrow> (\<And>x y. f x = Inr y \<Longrightarrow> g y = h x) \<Longrightarrow> map g ys = map h xs"
  by (induction xs arbitrary: ys) (auto simp: res_bind_eq_Inr)

lemma assurance_counts_sum:
  assumes "map_res (compliance_item C w t) plans = Inr items"
  shows "sum_list (map snd (dashboard_counts items)) = int (length items)"
proof -
  let ?ks = "map PStr [''ASSURED'', ''FAILED'', ''UNKNOWN'', ''IN_PROGRESS'', ''DISABLED'']"
  have "\<forall>v \<in> set (map (\<lambda>d. dget d ''assurance_status'') items). v \<in> set ?ks"
    using map_res_same [OF assms compliance_item_fields(2)] dashboard_status_range by auto
  then have "sum_list (map (\<lambda>k. count_of (\<lambda>d. True \<and> dget d ''assurance_status'' = k) items) ?ks) = count_of (\<lambda>d. True) items"
    by (intro sum_counts) auto
  then show ?thesis by (simp add: dashboard_counts_def count_of_def)
qed

lemma verification_counts_sum:
  "sum_list (map (\<lambda>v. count_of (\<lambda>p. plan_enabled p \<and> shown_verification p = v) plans) plan_verifications) =
   count_of plan_enabled plans"
  by (rule sum_counts) (auto simp: plan_verifications_def shown_verification_def Let_def)

text \<open>The compliance dashboard counts every plan once. It has one item for each plan, in the order of the plans;
  the assurance counts add up to the number of plans, the verification counts and the disabled plans too;
  no plan is both overdue and due soon, and both are enabled plans with a schedule.\<close>

lemma compliance_counts_add_up:
  assumes "compliance_dashboard E C w = Inr (items, cc, t)"
  shows "map (\<lambda>d. dget d ''plan_id'') items = map (\<lambda>p. dget p ''id'') (list_plans C w) \<and>
    sum_list (map snd (cc_assurance cc)) = int (length items) \<and>
    sum_list (map snd (cc_verification cc)) + cc_disabled cc = int (length items) \<and>
    cc_overdue cc + cc_due_soon cc \<le> cc_scheduled cc \<and> cc_scheduled cc + cc_disabled cc \<le> int (length items)"
proof -
  let ?plans = "list_plans C w" and ?fl = "\<lambda>p. schedule_flags_of p (now E w)"
  from assms have items: "map_res (compliance_item C w (now E w)) ?plans = Inr items"
    and cc: "cc = compliance_counts C (now E w) ?plans items"
    by (auto simp: compliance_dashboard_def Let_def res_bind_eq_Inr)
  have len: "length items = length ?plans" using map_res_length [OF items] by simp
  have on: "count_of (Not \<circ> plan_enabled) ?plans + count_of plan_enabled ?plans = int (length ?plans)"
    using sum_length_filter_compl [of plan_enabled ?plans] by (simp add: count_of_def comp_def)
  have flags: "count_of P (map ?fl ?plans) = count_of (P \<circ> ?fl) ?plans" for P
    by (simp add: count_of_def filter_map)
  have "count_of (sf_overdue \<circ> ?fl) ?plans + count_of (sf_due_soon \<circ> ?fl) ?plans \<le> count_of (sf_counted \<circ> ?fl) ?plans"
    using schedule_flags_disjoint by (subst count_disjoint) (auto intro!: count_of_mono)
  moreover have "count_of (sf_counted \<circ> ?fl) ?plans \<le> count_of plan_enabled ?plans"
    by (rule count_of_mono) (auto simp: schedule_flags_of_def no_schedule_def Let_def split: if_splits)
  ultimately show ?thesis
    using map_res_same [OF items compliance_item_fields(1)] assurance_counts_sum [OF items] on len
      verification_counts_sum [of ?plans]
    by (simp add: cc compliance_counts_def Let_def flags comp_def)
qed

end
