(* ===== verification/PyRegex.thy ===== *)
theory PyRegex
  imports PyTime
begin

text \<open>
  The part of Python's \<open>re\<close> that the parser of the task logs uses: a backtracking matcher with groups,
  which tries the alternatives in order and the longest repetition first, and \<open>finditer\<close>, the matches
  from left to right. Patterns are matched without regard to case, on ASCII text.
\<close>

subsection \<open>Patterns and matching\<close>

datatype rx =
    Eps
  | Bound
  | One "char \<Rightarrow> bool"
  | Seq rx rx
  | Alt rx rx
  | Star rx
  | Grp nat rx

record mstate =
  ms_prev :: "char option"
  ms_rest :: string
  ms_groups :: "(nat \<times> string) list"

definition word_char :: "char \<Rightarrow> bool" where
  "word_char c \<longleftrightarrow> is_upper c \<or> is_lower c \<or> is_digit c \<or> c = CHR ''_''"

definition at_boundary :: "mstate \<Rightarrow> bool" where
  "at_boundary m \<longleftrightarrow>
     (case ms_prev m of None \<Rightarrow> False | Some c \<Rightarrow> word_char c) \<noteq> (case ms_rest m of [] \<Rightarrow> False | c # s \<Rightarrow> word_char c)"

definition eat :: "(char \<Rightarrow> bool) \<Rightarrow> (mstate \<Rightarrow> mstate option) \<Rightarrow> mstate \<Rightarrow> mstate option" where
  "eat P k m = (case ms_rest m of [] \<Rightarrow> None | c # s \<Rightarrow> if P c then k (m\<lparr>ms_prev := Some c, ms_rest := s\<rparr>) else None)"

text \<open>A repetition consumes something each time, so it repeats at most as often as there are characters.\<close>

fun repeat_match ::
  "nat \<Rightarrow> ((mstate \<Rightarrow> mstate option) \<Rightarrow> mstate \<Rightarrow> mstate option) \<Rightarrow> (mstate \<Rightarrow> mstate option) \<Rightarrow> mstate \<Rightarrow> mstate option" where
  "repeat_match 0 f k m = k m"
| "repeat_match (Suc n) f k m =
     (case f (\<lambda>m'. if length (ms_rest m') < length (ms_rest m) then repeat_match n f k m' else None) m of
        Some x \<Rightarrow> Some x
      | None \<Rightarrow> k m)"

primrec rx_match :: "rx \<Rightarrow> (mstate \<Rightarrow> mstate option) \<Rightarrow> mstate \<Rightarrow> mstate option" where
  "rx_match Eps k m = k m"
| "rx_match Bound k m = (if at_boundary m then k m else None)"
| "rx_match (One P) k m = eat P k m"
| "rx_match (Seq a b) k m = rx_match a (rx_match b k) m"
| "rx_match (Alt a b) k m = (case rx_match a k m of Some x \<Rightarrow> Some x | None \<Rightarrow> rx_match b k m)"
| "rx_match (Star a) k m = repeat_match (length (ms_rest m)) (rx_match a) k m"
| "rx_match (Grp i a) k m =
     rx_match a (\<lambda>m'. k (m'\<lparr>ms_groups :=
         (i, take (length (ms_rest m) - length (ms_rest m')) (ms_rest m)) # ms_groups m'\<rparr>)) m"

text \<open>The first match at or after a position\<close>

fun rx_search :: "rx \<Rightarrow> char option \<Rightarrow> string \<Rightarrow> mstate option" where
  "rx_search r prev [] = rx_match r Some \<lparr>ms_prev = prev, ms_rest = [], ms_groups = []\<rparr>"
| "rx_search r prev (c # s) =
     (case rx_match r Some \<lparr>ms_prev = prev, ms_rest = c # s, ms_groups = []\<rparr> of
        Some m \<Rightarrow> Some m
      | None \<Rightarrow> rx_search r (Some c) s)"

fun rx_iter :: "nat \<Rightarrow> rx \<Rightarrow> char option \<Rightarrow> string \<Rightarrow> (nat \<times> string) list list" where
  "rx_iter 0 r prev s = []"
| "rx_iter (Suc n) r prev s =
     (case rx_search r prev s of
        None \<Rightarrow> []
      | Some m \<Rightarrow> ms_groups m # rx_iter n r (ms_prev m) (ms_rest m))"

text \<open>The patterns match no empty text, so there are at most as many matches as characters.\<close>

definition finditer :: "rx \<Rightarrow> string \<Rightarrow> (nat \<times> string) list list" where
  "finditer r s = rx_iter (length s) r None s"

definition rx_found :: "rx \<Rightarrow> string \<Rightarrow> bool" where
  "rx_found r s \<longleftrightarrow> rx_search r None s \<noteq> None"

subsection \<open>Building patterns\<close>

definition lit_char :: "char \<Rightarrow> rx" where
  "lit_char c = One (\<lambda>x. lower_char x = lower_char c)"

definition lit :: "string \<Rightarrow> rx" where
  "lit s = foldr (\<lambda>c. Seq (lit_char c)) s Eps"

definition seqs :: "rx list \<Rightarrow> rx" where
  "seqs rs = foldr Seq rs Eps"

primrec alts :: "rx \<Rightarrow> rx list \<Rightarrow> rx" where
  "alts r [] = r"
| "alts r (x # xs) = Alt r (alts x xs)"

definition rx_words :: "string \<Rightarrow> string list \<Rightarrow> rx" where
  "rx_words w ws = alts (lit w) (map lit ws)"

definition rx_opt :: "rx \<Rightarrow> rx" where
  "rx_opt r = Alt r Eps"

definition rx_plus :: "rx \<Rightarrow> rx" where
  "rx_plus r = Seq r (Star r)"

definition digit :: rx where "digit = One is_digit"

definition spaces :: rx where "spaces = Star (One is_space)"

definition spaces1 :: rx where "spaces1 = rx_plus (One is_space)"

text \<open>\<open>\d+(?:\.\d+)?\<close> and \<open>\d{1,3}(?:\.\d+)?\<close>\<close>

definition fraction :: rx where
  "fraction = rx_opt (Seq (lit ''.'') (rx_plus digit))"

definition number :: rx where
  "number = Seq (rx_plus digit) fraction"

definition percentage :: rx where
  "percentage = Seq digit (Seq (rx_opt (Seq digit (rx_opt digit))) fraction)"

text \<open>A repeated character class takes as much as it can when what follows accepts that.\<close>

lemma repeat_class:
  assumes "length (ms_rest m) \<le> n"
    and "k (m\<lparr>ms_prev := (if takeWhile P (ms_rest m) = [] then ms_prev m else Some (last (takeWhile P (ms_rest m)))),
             ms_rest := dropWhile P (ms_rest m)\<rparr>) = Some x"
  shows "repeat_match n (eat P) k m = Some x"
  using assms
proof (induction n arbitrary: m)
  case 0
  then show ?case by (cases m) simp
next
  case (Suc n)
  show ?case
  proof (cases "ms_rest m")
    case Nil
    with Suc.prems(2) show ?thesis by (cases m) (simp add: eat_def)
  next
    case (Cons c s)
    show ?thesis
    proof (cases "P c")
      case True
      with Cons Suc.prems Suc.IH [of "m\<lparr>ms_prev := Some c, ms_rest := s\<rparr>"]
      show ?thesis by (cases "takeWhile P s = []") (simp_all add: eat_def)
    next
      case False
      with Cons Suc.prems(2) show ?thesis by (cases m) (simp add: eat_def)
    qed
  qed
qed

end
