(* ===== verification/Progress.thy ===== *)
theory Progress
  imports PyRegex Aggregate
begin

text \<open>
  Progress of a restore (\<open>progress_parse.py\<close>): what the lines of a task log say, and the metrics that each
  poll of the task derives from it. Numbers that are floats in the code are rationals here: nothing is
  rounded, so a value that is cut to an integer may differ by one from the one a machine computes.
\<close>

subsection \<open>Patterns\<close>

definition byte_word :: rx where
  "byte_word = rx_words ''MiB'' [''MB'']"

definition progress_pct_rx :: rx where
  "progress_pct_rx = seqs [Bound, lit ''progress'', spaces, rx_opt (One (\<lambda>c. c \<in> set '':='')), spaces,
     Grp 1 percentage, spaces, lit ''%'']"

definition zeroes_rx :: rx where
  "zeroes_rx = seqs [lit ''zeroe'', rx_opt (lit ''s''), spaces, lit ''='', spaces, Grp 1 percentage, spaces, lit ''%'', spaces,
     lit ''('', Grp 2 (rx_plus digit), spaces, lit ''bytes'', lit '')'']"

definition duration_rx :: rx where
  "duration_rx = seqs [Bound, lit ''duration'', spaces1, Grp 1 number, spaces, lit ''sec'']"

definition bytes_pair_rx :: rx where
  "bytes_pair_rx = seqs [rx_words ''read'' [''transferred'', ''written'', ''restored'', ''downloaded''], spaces1,
     Grp 1 (rx_plus digit), spaces, rx_opt (seqs [lit ''/'', spaces, Grp 2 (rx_plus digit)]), spaces, lit ''bytes'']"

definition mib_pair_rx :: rx where
  "mib_pair_rx = seqs [Grp 1 number, spaces, byte_word, spaces,
     rx_opt (seqs [lit ''/'', spaces, Grp 2 number, spaces, byte_word])]"

definition size_unit :: rx where
  "size_unit = rx_words ''B'' [''KiB'', ''MiB'', ''GiB'', ''TiB'', ''KB'', ''MB'', ''GB'', ''TB'']"

definition amount :: "string \<Rightarrow> rx" where
  "amount u = seqs [rx_plus digit, spaces, lit u]"

definition live_xfer_rx :: rx where
  "live_xfer_rx = seqs [lit ''transferred'', spaces1, Grp 1 number, spaces, Grp 2 size_unit, spaces1, lit ''of'', spaces1,
     Grp 3 number, spaces, Grp 4 size_unit, spaces, lit ''('', Grp 5 number, lit ''%)'',
     rx_opt (seqs [spaces1, lit ''in'', spaces1,
       Grp 6 (Alt (seqs [rx_opt (Seq (amount ''h'') spaces), rx_opt (Seq (amount ''m'') spaces), rx_opt (amount ''s'')])
                  (amount ''s''))]),
     rx_opt (seqs [spaces, lit ''('', Grp 7 number, spaces, Grp 8 (rx_words ''TiB'' [''GiB'', ''MiB'', ''MB'', ''KB'']), lit ''/s)''])]"

definition rate_rx :: rx where
  "rate_rx = seqs [Grp 1 number, spaces, Grp 2 (rx_words ''TiB'' [''GiB'', ''MiB'', ''MB'']), lit ''/s'']"

definition net_word :: rx where
  "net_word = alts (Seq (lit ''download'') (rx_opt (lit ''ed'')))
     [lit ''network'', Seq (lit ''recv'') (rx_opt (lit ''eived'')), lit ''fetched'']"

definition net_mib_rx :: rx where
  "net_mib_rx = seqs [net_word, spaces1, Grp 1 number, spaces, byte_word]"

definition net_bytes_rx :: rx where
  "net_bytes_rx = seqs [net_word, spaces1, Grp 1 (rx_plus digit), spaces, lit ''bytes'']"

definition to_paren :: rx where
  "to_paren = Star (One (\<lambda>c. c \<noteq> CHR '')''))"

definition complete_rx :: rx where
  "complete_rx = seqs [lit ''restore'', spaces1, lit ''image'', spaces1, lit ''complete'', spaces, lit ''('', to_paren,
     lit ''bytes'', spaces, lit ''='', spaces, Grp 1 (rx_plus digit), to_paren,
     rx_opt (seqs [lit ''duration'', spaces, lit ''='', spaces, Grp 2 number, to_paren]),
     rx_opt (seqs [lit ''speed'', spaces, lit ''='', spaces, Grp 3 number, spaces, byte_word, lit ''/s''])]"

definition duration_token_rx :: rx where
  "duration_token_rx = seqs [Grp 1 (rx_plus digit), spaces, Grp 2 (One (\<lambda>c. lower_char c \<in> set ''hms''))]"

subsection \<open>Sizes and durations\<close>

text \<open>The group is there and not empty: the truth of \<open>match.group(i)\<close>\<close>

definition group_text :: "(nat \<times> string) list \<Rightarrow> nat \<Rightarrow> string" where
  "group_text g i = (case map_of g i of None \<Rightarrow> [] | Some s \<Rightarrow> s)"

definition group_num :: "(nat \<times> string) list \<Rightarrow> nat \<Rightarrow> rat option" where
  "group_num g i = decimal_of_str (group_text g i)"

definition size_units :: "(string \<times> int) list" where
  "size_units = [(''b'', 1), (''kib'', 1024), (''kb'', 1000), (''mib'', 1024 ^ 2), (''mb'', 1024 ^ 2), (''gib'', 1024 ^ 3),
     (''gb'', 1024 ^ 3), (''tib'', 1024 ^ 4), (''tb'', 1024 ^ 4)]"

definition mib_to_bytes :: "rat \<Rightarrow> int" where
  "mib_to_bytes v = trunc_rat (v * 1024 * 1024)"

definition size_to_bytes :: "rat \<Rightarrow> string \<Rightarrow> int option" where
  "size_to_bytes v u = (case map_of size_units (lower (strip u)) of None \<Rightarrow> None | Some k \<Rightarrow> Some (trunc_rat (v * of_int k)))"

definition token_seconds :: "(nat \<times> string) list \<Rightarrow> rat" where
  "token_seconds g =
     (let n = (case group_num g 1 of None \<Rightarrow> 0 | Some x \<Rightarrow> x); u = lower (group_text g 2)
      in if u = ''h'' then n * 3600 else if u = ''m'' then n * 60 else n)"

definition parse_duration_token :: "string \<Rightarrow> rat option" where
  "parse_duration_token t =
     (let gs = finditer duration_token_rx (strip t) in if gs = [] then None else Some (sum_list (map token_seconds gs)))"

subsection \<open>Reading a log\<close>

record parsed =
  pp_percent :: "rat option"
  pp_bytes_done :: "int option"
  pp_bytes_total :: "int option"
  pp_speed :: "rat option"
  pp_network :: "int option"
  pp_zeroes :: "int option"
  pp_zeroes_pct :: "rat option"
  pp_duration :: "rat option"
  pp_status :: string

definition no_progress :: parsed where
  "no_progress = \<lparr>pp_percent = None, pp_bytes_done = None, pp_bytes_total = None, pp_speed = None, pp_network = None,
     pp_zeroes = None, pp_zeroes_pct = None, pp_duration = None, pp_status = []\<rparr>"

definition note_percent :: "rat \<Rightarrow> parsed \<Rightarrow> parsed" where
  "note_percent pct p = (if 0 \<le> pct \<and> pct \<le> 100 then p\<lparr>pp_percent := Some pct\<rparr> else p)"

definition note_live_extra :: "(nat \<times> string) list \<Rightarrow> parsed \<Rightarrow> parsed" where
  "note_live_extra g p =
     (let p1 = (case parse_duration_token (group_text g 6) of None \<Rightarrow> p | Some d \<Rightarrow> p\<lparr>pp_duration := Some d\<rparr>)
      in if group_text g 7 \<noteq> [] \<and> group_text g 8 \<noteq> [] then
           (case Option.bind (group_num g 7) (\<lambda>v. size_to_bytes v (group_text g 8)) of
              None \<Rightarrow> p1 | Some n \<Rightarrow> p1\<lparr>pp_speed := Some (of_int n)\<rparr>)
         else p1)"

definition live_step :: "(nat \<times> string) list \<Rightarrow> parsed \<Rightarrow> parsed" where
  "live_step g p =
     (case Option.bind (group_num g 1) (\<lambda>v. size_to_bytes v (group_text g 2)) of
        None \<Rightarrow> p
      | Some n \<Rightarrow>
          (case Option.bind (group_num g 3) (\<lambda>v. size_to_bytes v (group_text g 4)) of
             None \<Rightarrow> p\<lparr>pp_bytes_done := Some n\<rparr>
           | Some tot \<Rightarrow>
               (let p1 = p\<lparr>pp_bytes_done := Some n, pp_bytes_total := Some tot\<rparr>
                in case group_num g 5 of None \<Rightarrow> p1 | Some pct \<Rightarrow> note_live_extra g (note_percent pct p1))))"

definition progress_step :: "(nat \<times> string) list \<Rightarrow> parsed \<Rightarrow> parsed" where
  "progress_step g p = (case group_num g 1 of None \<Rightarrow> p | Some pct \<Rightarrow> note_percent pct p)"

definition zeroes_step :: "(nat \<times> string) list \<Rightarrow> parsed \<Rightarrow> parsed" where
  "zeroes_step g p =
     (case group_num g 1 of
        None \<Rightarrow> p
      | Some pct \<Rightarrow> p\<lparr>pp_zeroes_pct := Some pct,
          pp_zeroes := (case digits_int (group_text g 2) of None \<Rightarrow> pp_zeroes p | Some n \<Rightarrow> Some n)\<rparr>)"

definition duration_step :: "(nat \<times> string) list \<Rightarrow> parsed \<Rightarrow> parsed" where
  "duration_step g p = (case group_num g 1 of None \<Rightarrow> p | Some d \<Rightarrow> p\<lparr>pp_duration := Some d\<rparr>)"

definition bytes_step :: "(nat \<times> string) list \<Rightarrow> parsed \<Rightarrow> parsed" where
  "bytes_step g p =
     (case digits_int (group_text g 1) of
        None \<Rightarrow> p
      | Some n \<Rightarrow> p\<lparr>pp_bytes_done := Some n,
          pp_bytes_total := (case digits_int (group_text g 2) of None \<Rightarrow> pp_bytes_total p | Some t \<Rightarrow> Some t)\<rparr>)"

definition mib_step :: "(nat \<times> string) list \<Rightarrow> parsed \<Rightarrow> parsed" where
  "mib_step g p =
     (case group_num g 1 of
        None \<Rightarrow> p
      | Some v \<Rightarrow> p\<lparr>pp_bytes_done := Some (mib_to_bytes v),
          pp_bytes_total := (case group_num g 2 of None \<Rightarrow> pp_bytes_total p | Some t \<Rightarrow> Some (mib_to_bytes t))\<rparr>)"

definition complete_step :: "(nat \<times> string) list \<Rightarrow> parsed \<Rightarrow> parsed" where
  "complete_step g p =
     (let p1 = (case digits_int (group_text g 1) of None \<Rightarrow> p | Some n \<Rightarrow> p\<lparr>pp_bytes_done := Some n\<rparr>);
          p2 = (case group_num g 2 of None \<Rightarrow> p1 | Some d \<Rightarrow> p1\<lparr>pp_duration := Some d\<rparr>)
      in case group_num g 3 of None \<Rightarrow> p2 | Some v \<Rightarrow> p2\<lparr>pp_speed := Some (v * 1024 * 1024)\<rparr>)"

definition rate_step :: "(nat \<times> string) list \<Rightarrow> parsed \<Rightarrow> parsed" where
  "rate_step g p =
     (case Option.bind (group_num g 1) (\<lambda>v. size_to_bytes v (group_text g 2)) of
        None \<Rightarrow> p | Some n \<Rightarrow> p\<lparr>pp_speed := Some (of_int n)\<rparr>)"

definition net_bytes_step :: "(nat \<times> string) list \<Rightarrow> parsed \<Rightarrow> parsed" where
  "net_bytes_step g p = (case digits_int (group_text g 1) of None \<Rightarrow> p | Some n \<Rightarrow> p\<lparr>pp_network := Some n\<rparr>)"

definition net_mib_step :: "(nat \<times> string) list \<Rightarrow> parsed \<Rightarrow> parsed" where
  "net_mib_step g p = (case group_num g 1 of None \<Rightarrow> p | Some v \<Rightarrow> p\<lparr>pp_network := Some (mib_to_bytes v)\<rparr>)"

text \<open>What follows from the fields: the payload without zeroes, the average rate, the percentage\<close>

definition positive :: "rat option \<Rightarrow> bool" where
  "positive x \<longleftrightarrow> (case x of None \<Rightarrow> False | Some v \<Rightarrow> 0 < v)"

definition derive_network :: "parsed \<Rightarrow> parsed" where
  "derive_network p =
     (case (pp_network p, pp_bytes_done p, pp_zeroes p) of
        (None, Some n, Some z) \<Rightarrow> p\<lparr>pp_network := Some (max 0 (n - z))\<rparr>
      | _ \<Rightarrow> p)"

definition derive_speed :: "parsed \<Rightarrow> parsed" where
  "derive_speed p =
     (case (pp_duration p, pp_bytes_done p) of
        (Some d, Some n) \<Rightarrow> if 0 < d \<and> \<not> positive (pp_speed p) then p\<lparr>pp_speed := Some (of_int n / d)\<rparr> else p
      | _ \<Rightarrow> p)"

definition derive_percent :: "parsed \<Rightarrow> parsed" where
  "derive_percent p =
     (case (pp_percent p, pp_bytes_done p, pp_bytes_total p) of
        (None, Some n, Some t) \<Rightarrow> if t \<noteq> 0 then p\<lparr>pp_percent := Some (min 100 (100 * of_int n / of_int t))\<rparr> else p
      | _ \<Rightarrow> p)"

definition parse_line :: "string \<Rightarrow> parsed \<Rightarrow> parsed" where
  "parse_line raw p =
     (let t = strip raw; live = finditer live_xfer_rx t; each = (\<lambda>f r. fold f (finditer r t)) in
      if t = [] then p
      else
        (let p1 = each duration_step duration_rx (each zeroes_step zeroes_rx (each progress_step progress_pct_rx
                    (fold live_step live (p\<lparr>pp_status := take 240 t\<rparr>))));
             p2 = (if live = [] then
                     (let q = each bytes_step bytes_pair_rx p1
                      in if contains ''zeroes'' (lower t) \<and> rx_found bytes_pair_rx t then q else each mib_step mib_pair_rx q)
                   else p1);
             p3 = each complete_step complete_rx p2;
             p4 = (if live = [] then each rate_step rate_rx p3 else p3);
             p5 = each net_mib_step net_mib_rx (each net_bytes_step net_bytes_rx p4)
         in derive_percent (derive_speed (derive_network p5))))"

definition parse_restore_progress :: "string list \<Rightarrow> parsed" where
  "parse_restore_progress log_lines = fold parse_line log_lines no_progress"

subsection \<open>Estimates\<close>

definition ema :: "rat option \<Rightarrow> rat \<Rightarrow> rat" where
  "ema prev x =
     (case prev of None \<Rightarrow> x | Some q \<Rightarrow> if q \<le> 0 then x else 35 / 100 * x + (1 - 35 / 100) * q)"

definition clamp_unit :: "rat \<Rightarrow> rat" where
  "clamp_unit x = max 0 (min 1 x)"

text \<open>A size of zero means that the size of the backup is not known.\<close>

definition estimate_network_bytes_done :: "int \<Rightarrow> rat option \<Rightarrow> int option \<Rightarrow> int option \<Rightarrow> int option" where
  "estimate_network_bytes_done backup_size percent bytes_done bytes_total =
     (if backup_size \<le> 0 then None
      else case percent of
        Some pct \<Rightarrow>
          if 0 \<le> pct \<and> pct \<le> 100 then Some (trunc_rat (of_int backup_size * (pct / 100)))
          else (case (bytes_done, bytes_total) of
            (Some n, Some t) \<Rightarrow> if 0 < t then Some (trunc_rat (of_int backup_size * clamp_unit (of_int n / of_int t))) else None
          | _ \<Rightarrow> None)
      | None \<Rightarrow> (case (bytes_done, bytes_total) of
            (Some n, Some t) \<Rightarrow> if 0 < t then Some (trunc_rat (of_int backup_size * clamp_unit (of_int n / of_int t))) else None
          | _ \<Rightarrow> None))"

text \<open>The seconds since the start; a time stamp without an offset cannot be subtracted from the clock.\<close>

definition elapsed_since :: "string \<Rightarrow> rat \<Rightarrow> exn + rat option" where
  "elapsed_since started clk =
     (case parse_iso started of
        None \<Rightarrow> Inr None
      | Some (aware, t) \<Rightarrow>
          if aware then Inr (Some (clk - t))
          else Inl (TypeError (''can'' @ [CHR 0x27] @ ''t subtract offset-naive and offset-aware datetimes'')))"

definition compute_eta_sec ::
  "rat option \<Rightarrow> int option \<Rightarrow> int option \<Rightarrow> rat option \<Rightarrow> string \<Rightarrow> rat \<Rightarrow> nat \<Rightarrow> exn + rat option" where
  "compute_eta_sec progress bytes_done bytes_total speed started clk samples =
     res_bind (elapsed_since started clk) (\<lambda>el.
       let elapsed = (case el of None \<Rightarrow> 0 | Some x \<Rightarrow> x);
           by_percent = (case progress of
             None \<Rightarrow> None
           | Some pct \<Rightarrow> if 0 < pct \<and> pct < 100 \<and> 0 < elapsed then Some (elapsed * (100 - pct) / pct) else None)
       in Inr (if elapsed < 15 \<and> samples < 2 then None
               else case (bytes_total, bytes_done, speed) of
                 (Some t, Some n, Some v) \<Rightarrow> if t \<noteq> 0 \<and> 0 < v then Some (of_int (max 0 (t - n)) / v) else by_percent
               | _ \<Rightarrow> by_percent))"

record speed_input =
  si_gross :: "rat option"
  si_backup_size :: int
  si_total :: "int option"
  si_done :: "int option"
  si_started :: string
  si_log_bytes :: "int option"
  si_prev_log_bytes :: "int option"
  si_dt :: rat
  si_prev_speed :: "rat option"
  si_duration :: "rat option"
  si_from_zeroes :: bool
  si_sparsity :: "rat option"

text \<open>The sources of an estimate, in the order in which they are tried; each is \<open>None\<close> when it does not apply.\<close>

definition speed_from_zeroes :: "speed_input \<Rightarrow> rat option" where
  "speed_from_zeroes i =
     (case (si_done i, si_duration i) of
        (Some n, Some d) \<Rightarrow>
          if si_from_zeroes i \<and> 0 < d \<and> 0 \<le> n
          then Some (if 0 < of_int n / d then ema (si_prev_speed i) (of_int n / d) else 0) else None
      | _ \<Rightarrow> None)"

definition speed_from_log :: "speed_input \<Rightarrow> rat option" where
  "speed_from_log i =
     (case (si_log_bytes i, si_prev_log_bytes i) of
        (Some n, Some q) \<Rightarrow>
          if 0 < si_dt i \<and> q \<le> n \<and> 0 < of_int (n - q) / si_dt i
          then Some (ema (si_prev_speed i) (of_int (n - q) / si_dt i)) else None
      | _ \<Rightarrow> None)"

definition speed_from_sparsity :: "speed_input \<Rightarrow> rat option" where
  "speed_from_sparsity i =
     (case (si_sparsity i, si_gross i) of
        (Some x, Some g) \<Rightarrow>
          if \<not> si_from_zeroes i \<and> 0 < g
          then Some (if 0 < g * clamp_unit x then ema (si_prev_speed i) (g * clamp_unit x) else 0) else None
      | _ \<Rightarrow> None)"

definition speed_from_density :: "speed_input \<Rightarrow> rat option" where
  "speed_from_density i =
     (case (si_gross i, si_total i) of
        (Some g, Some t) \<Rightarrow>
          (let scaled = g * min 1 (of_int (si_backup_size i) / of_int t)
           in if \<not> si_from_zeroes i \<and> 0 < g \<and> 0 < si_backup_size i \<and> 0 < t \<and> 0 < scaled
              then Some (ema (si_prev_speed i) scaled) else None)
      | _ \<Rightarrow> None)"

definition speed_from_session :: "speed_input \<Rightarrow> rat \<Rightarrow> exn + rat option" where
  "speed_from_session i clk =
     (case si_done i of
        Some n \<Rightarrow>
          if 0 < n then
            res_bind (elapsed_since (si_started i) clk) (\<lambda>el.
              Inr (case el of Some x \<Rightarrow> if 8 \<le> x then Some (of_int n / x) else None | None \<Rightarrow> None))
          else Inr None
      | None \<Rightarrow> Inr None)"

definition first_some :: "'a option list \<Rightarrow> 'a option" where
  "first_some xs = (case filter (\<lambda>x. x \<noteq> None) xs of [] \<Rightarrow> None | x # _ \<Rightarrow> x)"

definition estimate_network_speed :: "speed_input \<Rightarrow> rat \<Rightarrow> exn + rat option" where
  "estimate_network_speed i clk =
     (case first_some [speed_from_zeroes i, speed_from_log i, speed_from_sparsity i, speed_from_density i] of
        Some v \<Rightarrow> Inr (Some v)
      | None \<Rightarrow>
          res_bind (speed_from_session i clk) (\<lambda>v.
          Inr (case v of Some x \<Rightarrow> Some x | None \<Rightarrow> if positive (si_prev_speed i) then si_prev_speed i else None)))"

subsection \<open>The metrics of a poll\<close>

record tick_job =
  tj_started :: string
  tj_backup_size :: int
  tj_wire_ratio :: "rat option"
  tj_sparsity :: "rat option"

record tick_state =
  ts_last_tick :: rat
  ts_bytes :: "int option"
  ts_speed :: "rat option"
  ts_log_network :: "int option"
  ts_network_speed :: "rat option"
  ts_samples :: nat

definition nonneg_ratio :: "rat option \<Rightarrow> rat option" where
  "nonneg_ratio x = (case x of None \<Rightarrow> None | Some v \<Rightarrow> if 0 \<le> v then Some (clamp_unit v) else None)"

text \<open>The rate between two polls, unless it is implausible: above 2 GiB/s and four times the rate in the log\<close>

definition instant_speed :: "parsed \<Rightarrow> tick_state \<Rightarrow> rat \<Rightarrow> rat option" where
  "instant_speed p st dt =
     (case (pp_bytes_done p, ts_bytes st) of
        (Some n, Some q) \<Rightarrow>
          (let x = of_int (n - q) / dt;
               plausible = (case pp_speed p of
                 Some v \<Rightarrow> if 0 < v then max (2 * 1024 ^ 3) (v * 4) else 2 * 1024 ^ 3
               | None \<Rightarrow> 2 * 1024 ^ 3)
           in if 0 < dt \<and> q \<le> n \<and> 0 < x \<and> x \<le> plausible then Some (ema (ts_speed st) x) else pp_speed p)
      | _ \<Rightarrow> pp_speed p)"

definition average_speed :: "parsed \<Rightarrow> rat option \<Rightarrow> rat option" where
  "average_speed p v =
     (case (pp_duration p, pp_bytes_done p) of
        (Some d, Some n) \<Rightarrow> if \<not> positive v \<and> 0 < d \<and> 0 < n then Some (of_int n / d) else v
      | _ \<Rightarrow> v)"

definition tick_speed :: "parsed \<Rightarrow> tick_state \<Rightarrow> rat \<Rightarrow> rat option" where
  "tick_speed p st dt =
     (let v = average_speed p (instant_speed p st dt)
      in if positive v then v else if positive (ts_speed st) then ts_speed st else v)"

definition logical_bytes :: "parsed \<Rightarrow> tick_job \<Rightarrow> tick_state \<Rightarrow> int option" where
  "logical_bytes p j st =
     (if pp_network p = None \<and> \<not> (pp_zeroes p \<noteq> None \<and> pp_bytes_done p \<noteq> None) then
        (case (nonneg_ratio (tj_sparsity j), pp_bytes_done p) of
           (Some x, Some n) \<Rightarrow> Some (trunc_rat (of_int n * x))
         | _ \<Rightarrow> estimate_network_bytes_done (tj_backup_size j) (pp_percent p)
                 (if pp_bytes_done p \<noteq> None then pp_bytes_done p else ts_bytes st) (pp_bytes_total p))
      else pp_network p)"

definition wire_bytes :: "rat option \<Rightarrow> int option \<Rightarrow> int option" where
  "wire_bytes ratio logical =
     (case (logical, ratio) of (Some n, Some x) \<Rightarrow> Some (trunc_rat (of_int n * x)) | _ \<Rightarrow> logical)"

definition wire_speed :: "rat option \<Rightarrow> rat option \<Rightarrow> rat option \<Rightarrow> rat option" where
  "wire_speed ratio prev logical =
     (case (logical, ratio) of
        (Some v, Some x) \<Rightarrow> Some (if positive prev \<and> 0 < v * x then ema prev (v * x) else v * x)
      | _ \<Rightarrow> logical)"

definition speed_input_of :: "parsed \<Rightarrow> tick_job \<Rightarrow> tick_state \<Rightarrow> rat \<Rightarrow> speed_input" where
  "speed_input_of p j st dt =
     \<lparr>si_gross = tick_speed p st dt, si_backup_size = tj_backup_size j, si_total = pp_bytes_total p,
      si_done = logical_bytes p j st, si_started = tj_started j, si_log_bytes = pp_network p,
      si_prev_log_bytes = (if pp_network p = None then None else ts_log_network st), si_dt = dt,
      si_prev_speed = (if nonneg_ratio (tj_wire_ratio j) = None then ts_network_speed st else None),
      si_duration = pp_duration p, si_from_zeroes = pp_zeroes p \<noteq> None \<and> pp_bytes_done p \<noteq> None,
      si_sparsity = nonneg_ratio (tj_sparsity j)\<rparr>"

text \<open>Python's \<open>str\<close> of a float that is a decimal of at most fifteen digits\<close>

fun fraction_digits :: "nat \<Rightarrow> rat \<Rightarrow> string" where
  "fraction_digits 0 x = []"
| "fraction_digits (Suc n) x =
     (let d = \<lfloor>x * 10\<rfloor> in str_of_int d @ (if x * 10 = of_int d then [] else fraction_digits n (x * 10 - of_int d)))"

definition float_text :: "rat \<Rightarrow> string" where
  "float_text x = str_of_int \<lfloor>x\<rfloor> @ ''.'' @ fraction_digits 15 (x - of_int \<lfloor>x\<rfloor>)"

definition put_int :: "string \<Rightarrow> int option \<Rightarrow> (string \<times> string) list" where
  "put_int k v = (case v of None \<Rightarrow> [] | Some n \<Rightarrow> [(k, str_of_int n)])"

definition put_speed :: "string \<Rightarrow> rat option \<Rightarrow> (string \<times> string) list" where
  "put_speed k v = (case v of None \<Rightarrow> [] | Some x \<Rightarrow> if 0 \<le> x then [(k, str_of_int (trunc_rat x))] else [])"

definition metrics_mapping_from_tick ::
  "parsed \<Rightarrow> tick_job \<Rightarrow> tick_state \<Rightarrow> rat \<Rightarrow> nat \<Rightarrow> rat \<Rightarrow> exn + (string \<times> string) list" where
  "metrics_mapping_from_tick p j st dt samples clk =
     (let ratio = nonneg_ratio (tj_wire_ratio j); gross = tick_speed p st dt; logical = logical_bytes p j st
      in res_bind (estimate_network_speed (speed_input_of p j st dt) clk) (\<lambda>logical_speed.
         res_bind (compute_eta_sec (pp_percent p)
             (if pp_bytes_done p \<noteq> None then pp_bytes_done p else ts_bytes st) (pp_bytes_total p) gross
             (tj_started j) clk samples) (\<lambda>eta.
         Inr ((if pp_status p = [] then [] else [(''pve_status_text'', take 240 (pp_status p))]) @
           put_int ''zeroes_bytes'' (pp_zeroes p) @
           (case pp_zeroes_pct p of None \<Rightarrow> [] | Some x \<Rightarrow> [(''zeroes_percent'', float_text x)]) @
           put_int ''bytes_done'' (pp_bytes_done p) @
           put_int ''bytes_total'' (pp_bytes_total p) @
           (if positive gross then put_speed ''speed_bps'' gross else []) @
           put_int ''progress'' (map_option (\<lambda>x. max 0 (min 100 (round_half_even x))) (pp_percent p)) @
           put_int ''network_bytes_done'' (wire_bytes ratio logical) @
           put_int ''nonzero_bytes_done'' logical @
           put_speed ''nonzero_speed_bps'' logical_speed @
           put_speed ''network_speed_bps'' (wire_speed ratio (ts_network_speed st) logical_speed) @
           put_speed ''eta_sec'' eta))))"

text \<open>A poll of the worker: the fields it writes and the state for the next one. Without new lines only the clock moves.\<close>

definition next_int :: "(string \<times> string) list \<Rightarrow> string \<Rightarrow> int option \<Rightarrow> int option" where
  "next_int m k prev =
     (case map_of m k of None \<Rightarrow> prev | Some s \<Rightarrow> Some (case py_int (PStr s) of Inr n \<Rightarrow> n | Inl e \<Rightarrow> 0))"

definition next_rat :: "(string \<times> string) list \<Rightarrow> string \<Rightarrow> rat option \<Rightarrow> rat option" where
  "next_rat m k prev =
     (case map_of m k of None \<Rightarrow> prev | Some s \<Rightarrow> Some (case py_float (PStr s) of Inr x \<Rightarrow> x | Inl e \<Rightarrow> 0))"

definition progress_tick ::
  "tick_job \<Rightarrow> rat \<Rightarrow> string \<Rightarrow> string list \<Rightarrow> tick_state \<Rightarrow> exn + (string \<times> string) list \<times> tick_state" where
  "progress_tick j clk stamp new_lines st =
     (let dt = max (1 / 1000) (clk - ts_last_tick st); st1 = st\<lparr>ts_last_tick := clk\<rparr> in
      if new_lines = [] then Inr ([], st1)
      else
        (let p = parse_restore_progress new_lines; samples = Suc (ts_samples st) in
         res_bind (metrics_mapping_from_tick p j st1 dt samples clk) (\<lambda>m.
         Inr (m @ [(''progress_samples'', str_of_nat samples), (''updated_at'', stamp)],
              st1\<lparr>ts_samples := samples, ts_bytes := next_int m ''bytes_done'' (ts_bytes st),
                  ts_speed := next_rat m ''speed_bps'' (ts_speed st),
                  ts_log_network := (if pp_network p = None then ts_log_network st else pp_network p),
                  ts_network_speed := next_rat m ''network_speed_bps'' (ts_network_speed st)\<rparr>))))"

end
