(* ===== verification/ProgressProps.thy ===== *)
theory ProgressProps
  imports Progress
begin

text \<open>
  What the parser of the task logs guarantees: every match of a pattern reads characters the pattern
  allows, so that the numbers of a log are never negative, and the metrics of a poll stay within
  their bounds; and two ways in which the parser loses what a log says.
\<close>

subsection \<open>What a match reads\<close>

primrec rx_allows :: "rx \<Rightarrow> char \<Rightarrow> bool" where
  "rx_allows Eps c = False"
| "rx_allows Bound c = False"
| "rx_allows (One P) c = P c"
| "rx_allows (Seq a b) c = (rx_allows a c \<or> rx_allows b c)"
| "rx_allows (Alt a b) c = (rx_allows a c \<or> rx_allows b c)"
| "rx_allows (Star a) c = rx_allows a c"
| "rx_allows (Grp i a) c = rx_allows a c"

primrec group_allows :: "rx \<Rightarrow> nat \<Rightarrow> char \<Rightarrow> bool" where
  "group_allows Eps j c = False"
| "group_allows Bound j c = False"
| "group_allows (One P) j c = False"
| "group_allows (Seq a b) j c = (group_allows a j c \<or> group_allows b j c)"
| "group_allows (Alt a b) j c = (group_allows a j c \<or> group_allows b j c)"
| "group_allows (Star a) j c = group_allows a j c"
| "group_allows (Grp i a) j c = (i = j \<and> rx_allows a c \<or> group_allows a j c)"

primrec has_group :: "rx \<Rightarrow> nat \<Rightarrow> bool" where
  "has_group Eps j = False"
| "has_group Bound j = False"
| "has_group (One P) j = False"
| "has_group (Seq a b) j = (has_group a j \<or> has_group b j)"
| "has_group (Alt a b) j = (has_group a j \<or> has_group b j)"
| "has_group (Star a) j = has_group a j"
| "has_group (Grp i a) j = (i = j \<or> has_group a j)"

definition groups_ok :: "rx \<Rightarrow> (nat \<times> string) list \<Rightarrow> bool" where
  "groups_ok r gs \<longleftrightarrow> (\<forall>g \<in> set gs. has_group r (fst g) \<and> (\<forall>c \<in> set (snd g). group_allows r (fst g) c))"

lemma groups_ok_simps [simp]:
  "groups_ok r []" "groups_ok r ((i, t) # gs) \<longleftrightarrow> has_group r i \<and> (\<forall>c \<in> set t. group_allows r i c) \<and> groups_ok r gs"
  "groups_ok r (gs @ hs) \<longleftrightarrow> groups_ok r gs \<and> groups_ok r hs"
  by (auto simp: groups_ok_def)

definition reads :: "rx \<Rightarrow> mstate \<Rightarrow> mstate \<Rightarrow> bool" where
  "reads r m m' \<longleftrightarrow>
     (\<exists>w gs. ms_rest m = w @ ms_rest m' \<and> (\<forall>c \<in> set w. rx_allows r c) \<and> ms_groups m' = gs @ ms_groups m \<and> groups_ok r gs)"

lemma reads_refl [simp]: "reads r m m"
  by (auto simp: reads_def)

lemma reads_trans: "reads r a b \<Longrightarrow> reads r b c \<Longrightarrow> reads r a c"
proof -
  assume "reads r a b" "reads r b c"
  then obtain w gs v hs where "ms_rest a = w @ ms_rest b" "ms_rest b = v @ ms_rest c" "ms_groups b = gs @ ms_groups a"
    "ms_groups c = hs @ ms_groups b" "\<forall>x \<in> set w \<union> set v. rx_allows r x" "groups_ok r gs" "groups_ok r hs"
    unfolding reads_def by blast
  then show ?thesis unfolding reads_def by (intro exI [of _ "w @ v"] exI [of _ "hs @ gs"]) simp
qed

lemma reads_mono:
  assumes "reads r m m'" "\<And>c. rx_allows r c \<Longrightarrow> rx_allows r' c" "\<And>i c. group_allows r i c \<Longrightarrow> group_allows r' i c"
    "\<And>i. has_group r i \<Longrightarrow> has_group r' i"
  shows "reads r' m m'"
  using assms unfolding reads_def groups_ok_def by blast

definition passes :: "((mstate \<Rightarrow> mstate option) \<Rightarrow> mstate \<Rightarrow> mstate option) \<Rightarrow> rx \<Rightarrow> bool" where
  "passes f r \<longleftrightarrow> (\<forall>k m x. f k m = Some x \<longrightarrow> (\<exists>m'. k m' = Some x \<and> reads r m m'))"

lemma repeat_passes:
  assumes "passes f r" "repeat_match n f k m = Some x"
  shows "\<exists>m'. k m' = Some x \<and> reads r m m'"
  using assms(2)
proof (induction n arbitrary: m)
  case (Suc n)
  show ?case
  proof (cases "f (\<lambda>m'. if length (ms_rest m') < length (ms_rest m) then repeat_match n f k m' else None) m")
    case None
    with Suc.prems have "k m = Some x" by simp
    then show ?thesis using reads_refl by blast
  next
    case (Some y)
    with Suc.prems have "y = x" by simp
    with Some assms(1) obtain m1 where m1: "reads r m m1"
      "(if length (ms_rest m1) < length (ms_rest m) then repeat_match n f k m1 else None) = Some x"
      unfolding passes_def by blast
    then obtain m2 where "k m2 = Some x" "reads r m1 m2" using Suc.IH [of m1] by (auto split: if_splits)
    then show ?thesis using reads_trans [OF m1(1)] by blast
  qed
qed (use reads_refl in auto)

lemma rx_match_passes: "passes (rx_match r) r"
proof (induction r)
  case (One P)
  show ?case unfolding passes_def
  proof (intro allI impI)
    fix k m x
    assume e: "rx_match (One P) k m = Some x"
    then obtain c s where c: "ms_rest m = c # s" "P c" "k (m\<lparr>ms_prev := Some c, ms_rest := s\<rparr>) = Some x"
      by (auto simp: eat_def split: list.splits if_splits)
    then have "reads (One P) m (m\<lparr>ms_prev := Some c, ms_rest := s\<rparr>)" by (auto simp: reads_def)
    with c(3) show "\<exists>m'. k m' = Some x \<and> reads (One P) m m'" by blast
  qed
next
  case (Seq a b)
  show ?case unfolding passes_def
  proof (intro allI impI)
    fix k m x
    assume "rx_match (Seq a b) k m = Some x"
    then have "rx_match a (rx_match b k) m = Some x" by simp
    then obtain m1 where m1: "rx_match b k m1 = Some x" "reads a m m1"
      using Seq(1) unfolding passes_def by blast
    then obtain m2 where "k m2 = Some x" "reads b m1 m2"
      using Seq(2) unfolding passes_def by blast
    moreover have "reads (Seq a b) m m1" using m1(2) by (rule reads_mono) simp_all
    moreover from \<open>reads b m1 m2\<close> have "reads (Seq a b) m1 m2" by (rule reads_mono) simp_all
    ultimately show "\<exists>m'. k m' = Some x \<and> reads (Seq a b) m m'" using reads_trans by blast
  qed
next
  case (Alt a b)
  show ?case unfolding passes_def
  proof (intro allI impI)
    fix k m x
    assume "rx_match (Alt a b) k m = Some x"
    then have "rx_match a k m = Some x \<or> rx_match b k m = Some x" by (simp split: option.splits)
    moreover have "rx_match a k m = Some x \<Longrightarrow> \<exists>m'. k m' = Some x \<and> reads a m m'"
      "rx_match b k m = Some x \<Longrightarrow> \<exists>m'. k m' = Some x \<and> reads b m m'"
      using Alt unfolding passes_def by simp_all
    ultimately obtain m' where m': "k m' = Some x" "reads a m m' \<or> reads b m m'" by metis
    have "reads a m m' \<Longrightarrow> reads (Alt a b) m m'" "reads b m m' \<Longrightarrow> reads (Alt a b) m m'"
      by (erule reads_mono; simp)+
    with m'(2) have "reads (Alt a b) m m'" by blast
    with m'(1) show "\<exists>m'. k m' = Some x \<and> reads (Alt a b) m m'" by blast
  qed
next
  case (Star a)
  show ?case unfolding passes_def
  proof (intro allI impI)
    fix k m x
    assume "rx_match (Star a) k m = Some x"
    then have "repeat_match (length (ms_rest m)) (rx_match a) k m = Some x" by simp
    from repeat_passes [OF Star this] obtain m' where m': "k m' = Some x" "reads a m m'" by blast
    from m'(2) have "reads (Star a) m m'" by (rule reads_mono) simp_all
    with m'(1) show "\<exists>m'. k m' = Some x \<and> reads (Star a) m m'" by blast
  qed
next
  case (Grp i a)
  show ?case unfolding passes_def
  proof (intro allI impI)
    fix k and m :: mstate and x
    let ?put = "\<lambda>m' :: mstate. m'\<lparr>ms_groups := (i, take (length (ms_rest m) - length (ms_rest m')) (ms_rest m)) # ms_groups m'\<rparr>"
    assume "rx_match (Grp i a) k m = Some x"
    then have "rx_match a (\<lambda>m'. k (?put m')) m = Some x" by simp
    with Grp obtain m1 where m1: "k (?put m1) = Some x" "reads a m m1" unfolding passes_def by blast
    from m1(2) obtain w gs where "ms_rest m = w @ ms_rest m1" "\<forall>c \<in> set w. rx_allows a c" "ms_groups m1 = gs @ ms_groups m"
      "groups_ok a gs"
      unfolding reads_def by blast
    then have "reads (Grp i a) m (?put m1)"
      unfolding reads_def by (intro exI [of _ w] exI [of _ "(i, w) # gs"]) (simp add: groups_ok_def)
    with m1(1) show "\<exists>m'. k m' = Some x \<and> reads (Grp i a) m m'" by blast
  qed
qed (auto simp: passes_def)

lemma search_groups:
  "rx_search r prev s = Some m \<Longrightarrow> groups_ok r (ms_groups m)"
proof (induction r prev s rule: rx_search.induct)
  case (1 r prev)
  then show ?case using rx_match_passes [of r] by (fastforce simp: passes_def reads_def)
next
  case (2 r prev c s)
  show ?case
  proof (cases "rx_match r Some \<lparr>ms_prev = prev, ms_rest = c # s, ms_groups = []\<rparr>")
    case None
    with 2 show ?thesis by simp
  next
    case (Some y)
    with 2(2) have "rx_match r Some \<lparr>ms_prev = prev, ms_rest = c # s, ms_groups = []\<rparr> = Some m" by simp
    then have "reads r \<lparr>ms_prev = prev, ms_rest = c # s, ms_groups = []\<rparr> m"
      using rx_match_passes [of r] unfolding passes_def by blast
    then show ?thesis by (auto simp: reads_def)
  qed
qed

lemma iter_groups: "g \<in> set (rx_iter n r prev s) \<Longrightarrow> groups_ok r g"
proof (induction n r prev s rule: rx_iter.induct)
  case (2 n r prev s)
  show ?case
  proof (cases "rx_search r prev s")
    case (Some m)
    with 2 search_groups [OF Some] show ?thesis by auto
  qed (use 2 in simp)
qed simp

lemma group_text_allowed:
  assumes "g \<in> set (finditer r s)" "c \<in> set (group_text g i)"
  shows "group_allows r i c"
proof (cases "map_of g i")
  case (Some t)
  then have "(i, t) \<in> set g" by (rule map_of_SomeD)
  with Some assms iter_groups show ?thesis by (fastforce simp: finditer_def group_text_def groups_ok_def)
qed (use assms(2) in \<open>simp add: group_text_def\<close>)

subsection \<open>Numbers of a log\<close>

lemma digits_value_nat: "decimal_of_str s = Some x \<Longrightarrow> CHR ''-'' \<notin> set s \<Longrightarrow> 0 \<le> x"
proof -
  assume d: "decimal_of_str s = Some x" and "CHR ''-'' \<notin> set s"
  then have "(case s of [] \<Rightarrow> (1 :: rat, []) | c # r \<Rightarrow>
      if c = CHR ''-'' then (- 1, r) else if c = CHR ''+'' then (1, r) else (1, s)) = (1, snd (case s of [] \<Rightarrow> (1 :: rat, []) | c # r \<Rightarrow>
      if c = CHR ''-'' then (- 1, r) else if c = CHR ''+'' then (1, r) else (1, s)))"
    by (cases s) auto
  with d show "0 \<le> x" unfolding decimal_of_str_def
    by (auto simp: Let_def split: option.splits if_splits prod.splits)
qed

definition no_minus :: "rx \<Rightarrow> bool" where
  "no_minus r \<longleftrightarrow> (\<forall>i \<in> set [1..<9]. \<not> group_allows r i CHR ''-'')"

lemma patterns_no_minus:
  "no_minus live_xfer_rx" "no_minus progress_pct_rx" "no_minus zeroes_rx" "no_minus duration_rx" "no_minus mib_pair_rx"
  "no_minus complete_rx" "no_minus rate_rx" "no_minus net_mib_rx" "no_minus duration_token_rx" "no_minus bytes_pair_rx"
  "no_minus net_bytes_rx"
  by code_simp+

lemma group_num_nonneg:
  assumes "g \<in> set (finditer r s)" "no_minus r" "group_num g i = Some x" "1 \<le> i" "i < 9"
  shows "0 \<le> x"
proof -
  have "CHR ''-'' \<notin> set (group_text g i)"
    using group_text_allowed [OF assms(1), of "CHR ''-''" i] assms(2,4,5) by (auto simp: no_minus_def)
  then show ?thesis using assms(3) digits_value_nat by (simp add: group_num_def)
qed

lemma digits_int_nonneg: "digits_int s = Some n \<Longrightarrow> 0 \<le> n"
proof -
  have "0 \<le> a \<Longrightarrow> 0 \<le> foldl (\<lambda>a c. 10 * a + int (digit_val c)) a s" for a s
    by (induction s arbitrary: a) simp_all
  from this [of 0 s] show "digits_int s = Some n \<Longrightarrow> 0 \<le> n" by (auto simp: digits_int_def split: if_splits)
qed

lemma trunc_rat_bounds: "0 \<le> x \<Longrightarrow> 0 \<le> trunc_rat x" "0 \<le> x \<Longrightarrow> of_int (trunc_rat x) \<le> x"
  by (simp_all add: trunc_rat_def)

lemma size_to_bytes_nonneg: "size_to_bytes v u = Some n \<Longrightarrow> 0 \<le> v \<Longrightarrow> 0 \<le> n"
proof -
  assume s: "size_to_bytes v u = Some n" and v: "0 \<le> v"
  then obtain k where k: "map_of size_units (lower (strip u)) = Some k" "n = trunc_rat (v * of_int k)"
    by (auto simp: size_to_bytes_def split: option.splits)
  have "(lower (strip u), k) \<in> set size_units" using k(1) by (rule map_of_SomeD)
  then have "0 \<le> k" by (auto simp: size_units_def)
  with k(2) v show "0 \<le> n" by (simp add: trunc_rat_bounds)
qed

lemma mib_to_bytes_nonneg: "0 \<le> v \<Longrightarrow> 0 \<le> mib_to_bytes v"
  by (simp add: mib_to_bytes_def trunc_rat_bounds)

definition opt_nonneg :: "('a :: {zero, ord}) option \<Rightarrow> bool" where
  "opt_nonneg v \<longleftrightarrow> (case v of None \<Rightarrow> True | Some x \<Rightarrow> 0 \<le> x)"

lemma opt_nonneg_simps [simp]: "opt_nonneg None" "opt_nonneg (Some x) \<longleftrightarrow> 0 \<le> x"
  by (simp_all add: opt_nonneg_def)

definition parsed_ok :: "parsed \<Rightarrow> bool" where
  "parsed_ok p \<longleftrightarrow>
     opt_nonneg (pp_percent p) \<and> (\<forall>x. pp_percent p = Some x \<longrightarrow> x \<le> 100) \<and> opt_nonneg (pp_bytes_done p) \<and>
     opt_nonneg (pp_bytes_total p) \<and> opt_nonneg (pp_speed p) \<and> opt_nonneg (pp_network p) \<and> opt_nonneg (pp_zeroes p) \<and>
     opt_nonneg (pp_zeroes_pct p) \<and> opt_nonneg (pp_duration p) \<and> length (pp_status p) \<le> 240"

named_theorems parsed_steps

lemmas step_defs = live_step_def progress_step_def zeroes_step_def duration_step_def bytes_step_def mib_step_def
  complete_step_def rate_step_def net_bytes_step_def net_mib_step_def

lemma note_percent_ok [parsed_steps]: "parsed_ok p \<Longrightarrow> parsed_ok (note_percent x p)"
  by (simp add: note_percent_def parsed_ok_def)

lemma sum_tokens_nonneg: "parse_duration_token t = Some d \<Longrightarrow> 0 \<le> d"
proof -
  assume "parse_duration_token t = Some d"
  then have d: "d = sum_list (map token_seconds (finditer duration_token_rx (strip t)))"
    by (auto simp: parse_duration_token_def Let_def split: if_splits)
  have "0 \<le> token_seconds g" if g: "g \<in> set (finditer duration_token_rx (strip t))" for g
    using group_num_nonneg [OF g patterns_no_minus(9), of 1]
    by (simp add: token_seconds_def Let_def split: option.split)
  then show "0 \<le> d" unfolding d by (intro sum_list_nonneg) auto
qed

lemma bind_size_nonneg:
  assumes "g \<in> set (finditer r s)" "no_minus r" "1 \<le> i" "i < 9"
    "Option.bind (group_num g i) (\<lambda>v. size_to_bytes v u) = Some n"
  shows "0 \<le> n"
  using assms group_num_nonneg [OF assms(1,2)] size_to_bytes_nonneg by (auto simp: bind_eq_Some_conv)

lemma live_extra_ok:
  assumes "g \<in> set (finditer live_xfer_rx s)" "parsed_ok p"
  shows "parsed_ok (note_live_extra g p)"
  using assms(2) sum_tokens_nonneg bind_size_nonneg [OF assms(1) patterns_no_minus(1), of 7]
  by (auto simp: note_live_extra_def parsed_ok_def Let_def split: option.splits)

lemma live_step_ok [parsed_steps]:
  assumes g: "g \<in> set (finditer live_xfer_rx s)" and p: "parsed_ok p"
  shows "parsed_ok (live_step g p)"
proof (cases "Option.bind (group_num g 1) (\<lambda>v. size_to_bytes v (group_text g 2))")
  case None
  with p show ?thesis by (simp add: live_step_def)
next
  case (Some n)
  note size = this bind_size_nonneg [OF g patterns_no_minus(1) _ _ this]
  show ?thesis
  proof (cases "Option.bind (group_num g 3) (\<lambda>v. size_to_bytes v (group_text g 4))")
    case None
    with size p show ?thesis by (simp add: live_step_def parsed_ok_def)
  next
    case (Some t)
    have "parsed_ok (p\<lparr>pp_bytes_done := Some n, pp_bytes_total := Some t\<rparr>)"
      using size(2) bind_size_nonneg [OF g patterns_no_minus(1) _ _ Some] p by (simp add: parsed_ok_def)
    with size(1) Some show ?thesis
      by (simp add: live_step_def Let_def live_extra_ok [OF g] note_percent_ok split: option.split)
  qed
qed

lemma progress_step_ok [parsed_steps]: "parsed_ok p \<Longrightarrow> parsed_ok (progress_step g p)"
  by (simp add: progress_step_def note_percent_ok split: option.split)

lemma numeric_steps_ok [parsed_steps]:
  "g \<in> set (finditer zeroes_rx s) \<Longrightarrow> parsed_ok p \<Longrightarrow> parsed_ok (zeroes_step g p)"
  "g \<in> set (finditer duration_rx s) \<Longrightarrow> parsed_ok p \<Longrightarrow> parsed_ok (duration_step g p)"
  "g \<in> set (finditer mib_pair_rx s) \<Longrightarrow> parsed_ok p \<Longrightarrow> parsed_ok (mib_step g p)"
  "g \<in> set (finditer net_mib_rx s) \<Longrightarrow> parsed_ok p \<Longrightarrow> parsed_ok (net_mib_step g p)"
  using group_num_nonneg [OF _ patterns_no_minus(3), of g s 1] group_num_nonneg [OF _ patterns_no_minus(4), of g s 1]
    group_num_nonneg [OF _ patterns_no_minus(5), of g s] group_num_nonneg [OF _ patterns_no_minus(8), of g s 1]
  by (auto simp: zeroes_step_def duration_step_def mib_step_def net_mib_step_def parsed_ok_def digits_int_nonneg
      mib_to_bytes_nonneg split: option.split)

lemma rate_step_ok [parsed_steps]:
  assumes "g \<in> set (finditer rate_rx s)" "parsed_ok p"
  shows "parsed_ok (rate_step g p)"
  using assms(2) bind_size_nonneg [OF assms(1) patterns_no_minus(7), of 1]
  by (auto simp: rate_step_def parsed_ok_def split: option.split)

lemma complete_step_ok [parsed_steps]:
  assumes "g \<in> set (finditer complete_rx s)" "parsed_ok p"
  shows "parsed_ok (complete_step g p)"
  using assms(2) group_num_nonneg [OF assms(1) patterns_no_minus(6), of 2] group_num_nonneg [OF assms(1) patterns_no_minus(6), of 3]
  by (auto simp: complete_step_def parsed_ok_def Let_def digits_int_nonneg split: option.splits)

lemma integer_steps_ok [parsed_steps]:
  "parsed_ok p \<Longrightarrow> parsed_ok (bytes_step g p)" "parsed_ok p \<Longrightarrow> parsed_ok (net_bytes_step g p)"
  by (auto simp: bytes_step_def net_bytes_step_def parsed_ok_def digits_int_nonneg split: option.split)

lemma derive_ok [parsed_steps]:
  "parsed_ok p \<Longrightarrow> parsed_ok (derive_network p)" "parsed_ok p \<Longrightarrow> parsed_ok (derive_speed p)"
  "parsed_ok p \<Longrightarrow> parsed_ok (derive_percent p)"
  by (auto simp: derive_network_def derive_speed_def derive_percent_def parsed_ok_def min_def split: option.split)

lemma fold_steps:
  assumes "\<And>x q. x \<in> set xs \<Longrightarrow> I q \<Longrightarrow> I (f x q)" "I p"
  shows "I (fold f xs p)"
  using assms by (induction xs arbitrary: p) simp_all

lemma parse_line_ok:
  assumes "parsed_ok p"
  shows "parsed_ok (parse_line raw p)"
proof -
  have start: "parsed_ok (p\<lparr>pp_status := take 240 (strip raw)\<rparr>)" using assms by (simp add: parsed_ok_def)
  have each: "parsed_ok (fold f (finditer r t) q)"
    if "\<And>g q. g \<in> set (finditer r t) \<Longrightarrow> parsed_ok q \<Longrightarrow> parsed_ok (f g q)" "parsed_ok q" for f r t q
    using that by (rule fold_steps)
  show ?thesis
    unfolding parse_line_def Let_def
    by (auto intro!: each parsed_steps start assms)
qed

lemma parse_log_ok: "parsed_ok (parse_restore_progress ls)"
  unfolding parse_restore_progress_def
  by (rule fold_steps [where I = parsed_ok], rule parse_line_ok) (simp_all add: no_progress_def parsed_ok_def)

subsection \<open>Bounds of the metrics\<close>

lemma clamp_unit_bounds: "0 \<le> clamp_unit x" "clamp_unit x \<le> 1"
  by (simp_all add: clamp_unit_def)

lemma trunc_scaled: "0 \<le> n \<Longrightarrow> 0 \<le> x \<Longrightarrow> 0 \<le> trunc_rat (of_int n * x)"
  by (simp add: trunc_rat_bounds)

lemma trunc_scaled_le: "0 \<le> n \<Longrightarrow> 0 \<le> x \<Longrightarrow> x \<le> 1 \<Longrightarrow> trunc_rat (of_int n * x) \<le> n"
proof -
  assume n: "0 \<le> n" and x: "0 \<le> x" "x \<le> 1"
  have "of_int (trunc_rat (of_int n * x)) \<le> of_int n * x" using n x(1) by (intro trunc_rat_bounds) simp
  also have "\<dots> \<le> of_int n * 1" using n x(2) by (intro mult_left_mono) simp_all
  finally show ?thesis by simp
qed

lemma nonneg_ratio_bounds: "nonneg_ratio v = Some x \<Longrightarrow> 0 \<le> x \<and> x \<le> 1"
  by (auto simp: nonneg_ratio_def clamp_unit_bounds split: option.splits if_splits)

lemma estimate_nonneg: "opt_nonneg (estimate_network_bytes_done bs pct n t)"
  by (auto simp: estimate_network_bytes_done_def clamp_unit_bounds intro!: trunc_scaled trunc_rat_bounds split: option.split)

lemma logical_nonneg: "parsed_ok p \<Longrightarrow> opt_nonneg (logical_bytes p j st)"
  using estimate_nonneg nonneg_ratio_bounds [of "tj_sparsity j"]
  by (auto simp: logical_bytes_def parsed_ok_def intro!: trunc_scaled split: option.split)

lemma wire_bytes_le:
  assumes "opt_nonneg v" "wire_bytes (nonneg_ratio r) v = Some x"
  shows "\<exists>y. v = Some y \<and> 0 \<le> x \<and> x \<le> y"
  using assms nonneg_ratio_bounds [of r] by (auto simp: wire_bytes_def trunc_scaled trunc_scaled_le split: option.splits)

lemma map_of_puts:
  "map_of (put_int k v @ l) k' = (if k' = k \<and> v \<noteq> None then Some (str_of_int (the v)) else map_of l k')"
  "map_of (put_speed k x @ l) k' =
     (if k' = k \<and> x \<noteq> None \<and> 0 \<le> the x then Some (str_of_int (trunc_rat (the x))) else map_of l k')"
  "map_of ((if b then [] else [(k, t)]) @ l) k' = (if \<not> b \<and> k' = k then Some t else map_of l k')"
  "map_of ((case z of None \<Rightarrow> [] | Some y \<Rightarrow> [(k, f y)]) @ l) k' = (if k' = k \<and> z \<noteq> None then Some (f (the z)) else map_of l k')"
  "map_of ((if b then put_speed k x else []) @ l) k' =
     (if b \<and> k' = k \<and> x \<noteq> None \<and> 0 \<le> the x then Some (str_of_int (trunc_rat (the x))) else map_of l k')"
  by (auto simp: put_int_def put_speed_def split: option.split)

definition tick_counters :: "string set" where
  "tick_counters = {''zeroes_bytes'', ''bytes_done'', ''bytes_total'', ''speed_bps'', ''progress'', ''network_bytes_done'',
     ''nonzero_bytes_done'', ''nonzero_speed_bps'', ''network_speed_bps'', ''eta_sec''}"

lemmas map_of_puts_all = map_of_puts map_of_puts [where l = "[]", unfolded append_Nil2]

definition is_count :: "string option \<Rightarrow> int option \<Rightarrow> bool" where
  "is_count v hi \<longleftrightarrow>
     (\<forall>s. v = Some s \<longrightarrow> (\<exists>n. s = str_of_int n \<and> 0 \<le> n \<and> (\<forall>h. hi = Some h \<longrightarrow> n \<le> h)))"

lemma counts_of_puts:
  "opt_nonneg v \<Longrightarrow> (k, t) \<in> set (put_int n v) \<Longrightarrow> k \<noteq> ''progress'' \<Longrightarrow> is_count (Some t) hi \<or> hi \<noteq> None"
  "(k, t) \<in> set (put_speed n x) \<Longrightarrow> is_count (Some t) None"
  by (auto simp: is_count_def put_int_def put_speed_def trunc_rat_bounds split: option.splits if_splits)

definition counts :: "(string \<times> string) list \<Rightarrow> bool" where
  "counts m \<longleftrightarrow>
     (\<forall>(k, t) \<in> set m. k \<in> tick_counters \<longrightarrow> is_count (Some t) (if k = ''progress'' then Some 100 else None))"

lemma counts_append: "counts (a @ b) \<longleftrightarrow> counts a \<and> counts b"
  by (auto simp: counts_def)

lemma counts_puts:
  "k \<noteq> ''progress'' \<Longrightarrow> opt_nonneg v \<Longrightarrow> counts (put_int k v)" "k \<noteq> ''progress'' \<Longrightarrow> counts (put_speed k x)"
  "counts (put_int ''progress'' (map_option (\<lambda>x. max 0 (min 100 (f x))) z))" "counts []"
  "k \<notin> tick_counters \<Longrightarrow> counts [(k, t)]"
  by (auto simp: counts_def is_count_def put_int_def put_speed_def trunc_rat_bounds split: option.splits if_splits)

lemma metrics_bounds:
  assumes p: "parsed_ok p" and m: "metrics_mapping_from_tick p j st dt samples clk = Inr m"
  shows "(\<forall>k \<in> tick_counters. is_count (map_of m k) (if k = ''progress'' then Some 100 else None)) \<and>
    (\<forall>a. map_of m ''network_bytes_done'' = Some a \<longrightarrow>
       (\<exists>x y. a = str_of_int x \<and> map_of m ''nonzero_bytes_done'' = Some (str_of_int y) \<and> 0 \<le> x \<and> x \<le> y))"
proof -
  let ?gross = "tick_speed p st dt" and ?logical = "logical_bytes p j st" and ?ratio = "nonneg_ratio (tj_wire_ratio j)"
  obtain ls eta where m_def: "m = (if pp_status p = [] then [] else [(''pve_status_text'', take 240 (pp_status p))]) @
      put_int ''zeroes_bytes'' (pp_zeroes p) @
      (case pp_zeroes_pct p of None \<Rightarrow> [] | Some x \<Rightarrow> [(''zeroes_percent'', float_text x)]) @
      put_int ''bytes_done'' (pp_bytes_done p) @ put_int ''bytes_total'' (pp_bytes_total p) @
      (if positive ?gross then put_speed ''speed_bps'' ?gross else []) @
      put_int ''progress'' (map_option (\<lambda>x. max 0 (min 100 (round_half_even x))) (pp_percent p)) @
      put_int ''network_bytes_done'' (wire_bytes ?ratio ?logical) @ put_int ''nonzero_bytes_done'' ?logical @
      put_speed ''nonzero_speed_bps'' ls @ put_speed ''network_speed_bps'' (wire_speed ?ratio (ts_network_speed st) ls) @
      put_speed ''eta_sec'' eta"
    using m unfolding metrics_mapping_from_tick_def Let_def res_bind_eq_Inr by (elim exE conjE) (metis Inr_inject)
  have fields: "opt_nonneg (pp_zeroes p)" "opt_nonneg (pp_bytes_done p)" "opt_nonneg (pp_bytes_total p)" "opt_nonneg ?logical"
    using p logical_nonneg by (simp_all add: parsed_ok_def)
  have wire: "wire_bytes ?ratio ?logical \<noteq> None \<Longrightarrow>
      \<exists>y. ?logical = Some y \<and> 0 \<le> the (wire_bytes ?ratio ?logical) \<and> the (wire_bytes ?ratio ?logical) \<le> y"
    using wire_bytes_le [OF fields(4), of "tj_wire_ratio j"] by auto
  have pos: "opt_nonneg (wire_bytes ?ratio ?logical)" using wire by (cases "wire_bytes ?ratio ?logical") auto
  have keys: "''pve_status_text'' \<notin> tick_counters" "''zeroes_percent'' \<notin> tick_counters" by (simp_all add: tick_counters_def)
  have "counts m"
    unfolding m_def counts_append
    by (intro conjI; auto intro!: counts_puts fields pos simp: keys split: option.split)
  then have "\<forall>k \<in> tick_counters. is_count (map_of m k) (if k = ''progress'' then Some 100 else None)"
    by (auto simp: counts_def is_count_def dest!: map_of_SomeD)
  moreover have "\<forall>a. map_of m ''network_bytes_done'' = Some a \<longrightarrow>
       (\<exists>x y. a = str_of_int x \<and> map_of m ''nonzero_bytes_done'' = Some (str_of_int y) \<and> 0 \<le> x \<and> x \<le> y)"
  proof (intro allI impI)
    fix a
    assume "map_of m ''network_bytes_done'' = Some a"
    then have w: "wire_bytes ?ratio ?logical \<noteq> None" "a = str_of_int (the (wire_bytes ?ratio ?logical))"
      unfolding m_def by (simp_all add: map_of_puts_all del: map_of_append split: if_splits)
    then obtain y where "?logical = Some y" "0 \<le> the (wire_bytes ?ratio ?logical)" "the (wire_bytes ?ratio ?logical) \<le> y"
      using wire by blast
    moreover from this have "map_of m ''nonzero_bytes_done'' = Some (str_of_int y)"
      unfolding m_def by (simp add: map_of_puts_all del: map_of_append)
    ultimately show "\<exists>x y. a = str_of_int x \<and> map_of m ''nonzero_bytes_done'' = Some (str_of_int y) \<and> 0 \<le> x \<and> x \<le> y"
      using w(2) by blast
  qed
  ultimately show ?thesis by blast
qed

text \<open>C32: The metrics of a poll are within their bounds. When the start of the restore is a time stamp with an offset,
  or none, a poll with any lines of a log writes its fields; each counter, rate and remaining time is a natural
  number, the progress at most 100, and the bytes that went over the wire are at most the bytes that are
  not zero, which are then written too.\<close>

theorem tick_bounds:
  assumes "elapsed_since (tj_started j) clk = Inr el"
  shows "\<exists>m st'. progress_tick j clk stamp new_lines st = Inr (m, st') \<and>
    (\<forall>k \<in> tick_counters. is_count (map_of m k) (if k = ''progress'' then Some 100 else None)) \<and>
    (\<forall>a. map_of m ''network_bytes_done'' = Some a \<longrightarrow>
       (\<exists>x y. a = str_of_int x \<and> map_of m ''nonzero_bytes_done'' = Some (str_of_int y) \<and> 0 \<le> x \<and> x \<le> y))"
proof (cases "new_lines = []")
  case True
  then show ?thesis by (simp add: progress_tick_def is_count_def Let_def)
next
  case False
  let ?p = "parse_restore_progress new_lines" and ?st = "st\<lparr>ts_last_tick := clk\<rparr>"
    and ?dt = "max (1 / 1000) (clk - ts_last_tick st)" and ?n = "Suc (ts_samples st)"
  have el: "elapsed_since (si_started (speed_input_of ?p j ?st ?dt)) clk = Inr el"
    using assms by (simp add: speed_input_of_def)
  have "\<exists>v. estimate_network_speed (speed_input_of ?p j ?st ?dt) clk = Inr v"
    by (auto simp: estimate_network_speed_def speed_from_session_def el split: option.split)
  then obtain v where v: "estimate_network_speed (speed_input_of ?p j ?st ?dt) clk = Inr v" by blast
  have "\<exists>u. compute_eta_sec a b c d (tj_started j) clk n = Inr u" for a b c d n
    by (simp add: compute_eta_sec_def assms Let_def)
  then obtain u where "compute_eta_sec (pp_percent ?p)
      (if pp_bytes_done ?p \<noteq> None then pp_bytes_done ?p else ts_bytes ?st) (pp_bytes_total ?p)
      (tick_speed ?p ?st ?dt) (tj_started j) clk ?n = Inr u" by blast
  with v have "\<exists>m. metrics_mapping_from_tick ?p j ?st ?dt ?n clk = Inr m"
    unfolding metrics_mapping_from_tick_def Let_def by (simp only: res_bind_simps) blast
  then obtain m where m: "metrics_mapping_from_tick ?p j ?st ?dt ?n clk = Inr m" by blast
  have tail: "map_of (m @ [(''progress_samples'', a), (''updated_at'', b)]) k = map_of m k"
    if "k \<in> tick_counters" for a b k
    using that by (auto simp: tick_counters_def map_add_def split: option.split)
  let ?m = "m @ [(''progress_samples'', str_of_nat ?n), (''updated_at'', stamp)]"
  have "\<exists>st'. progress_tick j clk stamp new_lines st = Inr (?m, st')"
    using False by (simp add: progress_tick_def Let_def m)
  moreover have "''network_bytes_done'' \<in> tick_counters" "''nonzero_bytes_done'' \<in> tick_counters"
    by (simp_all add: tick_counters_def)
  note keys = this [THEN tail]
  have "(\<forall>k \<in> tick_counters. is_count (map_of ?m k) (if k = ''progress'' then Some 100 else None)) \<and>
    (\<forall>a. map_of ?m ''network_bytes_done'' = Some a \<longrightarrow>
       (\<exists>x y. a = str_of_int x \<and> map_of ?m ''nonzero_bytes_done'' = Some (str_of_int y) \<and> 0 \<le> x \<and> x \<le> y))"
    unfolding keys using metrics_bounds [OF parse_log_ok m] by (simp add: tail del: map_of_append cong: ball_cong)
  ultimately show ?thesis by blast
qed

definition poll_job :: tick_job where
  "poll_job = \<lparr>tj_started = ''2026-05-07T01:00:00+00:00'', tj_backup_size = 0, tj_wire_ratio = Some (1 / 2), tj_sparsity = None\<rparr>"

definition poll_state :: tick_state where
  "poll_state = \<lparr>ts_last_tick = 1778115960, ts_bytes = None, ts_speed = None, ts_log_network = None, ts_network_speed = None,
     ts_samples = 0\<rparr>"

theorem tick_bounds_witness:
  "\<exists>m st'. progress_tick poll_job 1778115966 ''now'' [''progress 55% (read 400 bytes, zeroes = 75% (300 bytes), duration 2 sec)'']
      poll_state = Inr (m, st') \<and> is_count (map_of m ''progress'') (Some 100)"
proof -
  have "elapsed_since (tj_started poll_job) 1778115966 = Inr (Some 366)" by code_simp
  from tick_bounds [OF this] show ?thesis by (force simp: tick_counters_def)
qed

subsection \<open>What the parser loses\<close>

text \<open>The fields that a line sets, apart from the payload\<close>

lemma keeps_network:
  "pp_network (note_percent x p) = pp_network p" "pp_network (note_live_extra g p) = pp_network p"
  "pp_network (live_step g p) = pp_network p" "pp_network (progress_step g p) = pp_network p"
  "pp_network (zeroes_step g p) = pp_network p" "pp_network (duration_step g p) = pp_network p"
  "pp_network (bytes_step g p) = pp_network p" "pp_network (mib_step g p) = pp_network p"
  "pp_network (complete_step g p) = pp_network p" "pp_network (rate_step g p) = pp_network p"
  "pp_network (derive_speed p) = pp_network p" "pp_network (derive_percent p) = pp_network p"
  by (simp_all add: note_percent_def note_live_extra_def step_defs derive_speed_def derive_percent_def Let_def split: option.split)

lemma fold_keeps_network: "(\<And>g q. pp_network (f g q) = pp_network q) \<Longrightarrow> pp_network (fold f gs p) = pp_network p"
  by (induction gs arbitrary: p) simp_all

definition no_counter :: "string \<Rightarrow> bool" where
  "no_counter raw \<longleftrightarrow> finditer net_bytes_rx (strip raw) = [] \<and> finditer net_mib_rx (strip raw) = []"

lemma parse_line_keeps_network:
  assumes "pp_network p = Some n" "no_counter raw"
  shows "pp_network (parse_line raw p) = Some n"
proof -
  have "pp_network (derive_network q) = Some n" if "pp_network q = Some n" for q
    using that by (simp add: derive_network_def)
  then show ?thesis
    using assms by (simp add: parse_line_def no_counter_def Let_def keeps_network fold_keeps_network)
qed

text \<open>The payload of a poll is the one of its first line. Once a line of the log has given the bytes without zeroes,
  no later line of the same poll changes that number unless it names a download counter, whatever bytes and zeroes
  it reports: the number of a poll with several lines is out of date.\<close>

lemma payload_of_first_line:
  assumes "pp_network (parse_restore_progress ls) = Some n" "\<forall>raw \<in> set ms. no_counter raw"
  shows "pp_network (parse_restore_progress (ls @ ms)) = Some n"
proof -
  have "pp_network (fold parse_line ms q) = Some n" if "pp_network q = Some n" for q
    using assms(2) that by (intro fold_steps [where I = "\<lambda>q. pp_network q = Some n"]) (auto intro: parse_line_keeps_network)
  then show ?thesis using assms(1) by (simp add: parse_restore_progress_def)
qed

definition first_lines :: parsed where
  "first_lines = \<lparr>pp_percent = None, pp_bytes_done = Some 9, pp_bytes_total = None, pp_speed = None, pp_network = Some 8,
     pp_zeroes = Some 1, pp_zeroes_pct = Some 5, pp_duration = None, pp_status = ''read 9 bytes zeroes=5%(1bytes)''\<rparr>"

lemma first_lines_parsed: "parse_restore_progress [''read 9 bytes zeroes=5%(1bytes)''] = first_lines"
  by code_simp

lemma second_line_parsed:
  "no_counter ''read 99 bytes''" "pp_bytes_done (parse_line ''read 99 bytes'' first_lines) = Some 99"
  by code_simp+

lemma payload_of_first_line_example:
  "let p = parse_restore_progress ([''read 9 bytes zeroes=5%(1bytes)''] @ [''read 99 bytes''])
   in pp_bytes_done p = Some 99 \<and> pp_network p = Some 8"
proof -
  have "pp_network (parse_restore_progress [''read 9 bytes zeroes=5%(1bytes)'']) = Some 8"
    by (simp add: first_lines_parsed first_lines_def)
  from payload_of_first_line [OF this, of "[''read 99 bytes'']"] show ?thesis
    using second_line_parsed first_lines_parsed by (simp add: parse_restore_progress_def)
qed

lemma rx_match_seqs: "rx_match (seqs (xs @ ys)) k = rx_match (seqs xs) (rx_match (seqs ys) k)"
  by (induction xs arbitrary: k) (auto simp: seqs_def intro!: ext)

lemma literal_needs: "ms_rest m = [] \<or> lower_char (hd (ms_rest m)) \<noteq> lower_char c \<Longrightarrow> rx_match (lit (c # s)) k m = None"
  by (auto simp: lit_def lit_char_def eat_def split: list.split)

definition complete_head :: "rx list" where
  "complete_head = [lit ''restore'', spaces1, lit ''image'', spaces1, lit ''complete'', spaces, lit ''('', to_paren,
     lit ''bytes'', spaces, lit ''='', spaces, Grp 1 (rx_plus digit)]"

definition complete_tail :: "rx list" where
  "complete_tail = [to_paren, rx_opt (seqs [lit ''duration'', spaces, lit ''='', spaces, Grp 2 number, to_paren]),
     rx_opt (seqs [lit ''speed'', spaces, lit ''='', spaces, Grp 3 number, spaces, byte_word, lit ''/s''])]"

lemma complete_tail_match:
  "\<exists>pr. rx_match (seqs complete_tail) Some m = Some (m\<lparr>ms_prev := pr, ms_rest := dropWhile (\<lambda>c. c \<noteq> CHR '')'') (ms_rest m)\<rparr>)"
proof -
  let ?P = "\<lambda>c. c \<noteq> CHR '')''" let ?d = "dropWhile ?P (ms_rest m)" and ?t = "takeWhile ?P (ms_rest m)"
  let ?m = "m\<lparr>ms_prev := (if ?t = [] then ms_prev m else Some (last ?t)), ms_rest := ?d\<rparr>"
  have "?d = [] \<or> hd ?d = CHR '')''" using hd_dropWhile [of ?P "ms_rest m"] by auto
  then have stop: "rx_match (lit (c # s)) k ?m = None" if "c \<in> {CHR ''d'', CHR ''s''}" for c s k
    using that by (intro literal_needs) (auto simp: lower_char_def is_upper_def)
  have "rx_match (seqs (tl complete_tail)) Some ?m = Some ?m"
    by (simp add: complete_tail_def seqs_def rx_opt_def stop)
  then have "repeat_match (length (ms_rest m)) (eat ?P) (rx_match (seqs (tl complete_tail)) Some) m = Some ?m"
    by (intro repeat_class) simp_all
  moreover have "rx_match (One ?P) = eat ?P" by (intro ext) simp
  ultimately have "rx_match (seqs complete_tail) Some m = Some ?m"
    by (simp add: complete_tail_def seqs_def to_paren_def)
  then show ?thesis by blast
qed

lemma complete_groups:
  assumes "rx_match complete_rx Some m = Some x" "ms_groups m = []" "i \<in> {2, 3}"
  shows "map_of (ms_groups x) i = None"
proof -
  have e: "complete_rx = seqs (complete_head @ complete_tail)"
    by (simp add: complete_rx_def complete_head_def complete_tail_def)
  have "rx_match (seqs complete_head) (rx_match (seqs complete_tail) Some) m = Some x"
    using assms(1) unfolding e rx_match_seqs .
  then obtain m' where m': "rx_match (seqs complete_tail) Some m' = Some x" "reads (seqs complete_head) m m'"
    using rx_match_passes [of "seqs complete_head"] unfolding passes_def by blast
  have "ms_groups x = ms_groups m'" using complete_tail_match [of m'] m'(1) by auto
  moreover have "groups_ok (seqs complete_head) (ms_groups m')" using m'(2) assms(2) by (auto simp: reads_def)
  moreover have "\<not> has_group (seqs complete_head) i"
    using assms(3) by (auto simp: complete_head_def seqs_def lit_def lit_char_def spaces_def spaces1_def rx_plus_def to_paren_def digit_def)
  ultimately show ?thesis by (fastforce simp: map_of_eq_None_iff groups_ok_def)
qed

lemma complete_search: "rx_search r prev t = Some m \<Longrightarrow> r = complete_rx \<Longrightarrow> i \<in> {2, 3} \<Longrightarrow> map_of (ms_groups m) i = None"
proof (induction r prev t rule: rx_search.induct)
  case (1 r prev)
  then show ?case using complete_groups by simp
next
  case (2 r prev c s)
  then show ?case using complete_groups by (simp split: option.splits)
qed

lemma complete_iter: "g \<in> set (rx_iter n complete_rx prev t) \<Longrightarrow> i \<in> {2, 3} \<Longrightarrow> map_of g i = None"
proof (induction n complete_rx prev t rule: rx_iter.induct)
  case (2 n prev s)
  then show ?case
  proof (cases "rx_search complete_rx prev s")
    case (Some m)
    with 2 complete_search [OF Some refl] show ?thesis by auto
  qed simp
qed simp

text \<open>C31: The line that reports the end of a restore gives only its bytes. The pattern for that line has groups for the
  duration and the speed, but whatever the line says, no match of the pattern ever fills them: the repetition before
  them takes the rest of the parenthesis. So the duration and the rate stay as they were.\<close>

theorem complete_line_loses_times:
  "pp_duration (fold complete_step (finditer complete_rx t) p) = pp_duration p \<and>
   pp_speed (fold complete_step (finditer complete_rx t) p) = pp_speed p"
proof -
  have none: "decimal_of_str [] = None" by code_simp
  have "group_num g i = None" if "g \<in> set (finditer complete_rx t)" "i \<in> {2, 3}" for g i
    using complete_iter that by (simp add: finditer_def group_num_def group_text_def none)
  then have "pp_duration (complete_step g q) = pp_duration q \<and> pp_speed (complete_step g q) = pp_speed q"
    if "g \<in> set (finditer complete_rx t)" for g q
    using that by (simp add: complete_step_def Let_def split: option.split)
  then show ?thesis
    by (intro fold_steps [where I = "\<lambda>q. pp_duration q = pp_duration p \<and> pp_speed q = pp_speed p"]) auto
qed

end
