(* ===== verification/Inventory.thy ===== *)
theory Inventory
  imports PbsClient "HOL-Library.Multiset"
begin

text \<open>
  The grouping of the backups by guest (\<open>backup_inventory.py\<close>) and the dashboards of the monitoring section
  (\<open>monitoring_config\<close> in \<open>metrics_collect.py\<close>).
\<close>

subsection \<open>Backups by guest\<close>

definition row_vmid :: "dict \<Rightarrow> int option" where
  "row_vmid row = (case res_bind (need_key row ''vmid'') py_int of Inl e \<Rightarrow> None | Inr v \<Rightarrow> Some v)"

definition row_time :: "dict \<Rightarrow> string" where
  "row_time row = str_or_empty (dget row ''timestamp'')"

text \<open>\<open>sorted(..., reverse=True)\<close> keeps the order of rows with the same time.\<close>

definition newest_first :: "dict list \<Rightarrow> dict list" where
  "newest_first rows = rev (sort_key row_time (rev rows))"

definition snapshots_of :: "dict list \<Rightarrow> int \<Rightarrow> dict list" where
  "snapshots_of rows v = newest_first (filter (\<lambda>row. row_vmid row = Some v) rows)"

definition backup_group :: "int \<Rightarrow> dict list \<Rightarrow> dict" where
  "backup_group v snaps =
     (let latest = (case snaps of [] \<Rightarrow> [] | d # ds \<Rightarrow> d)
      in [(''vmid'', PInt v), (''name'', py_or (dget latest ''name'') (PStr (''vm-'' @ str_of_int v))),
          (''source_label'', py_or (dget latest ''source_label'') (py_or (dget latest ''datastore'') (PStr []))),
          (''snapshots'', PList (map PDict snaps)), (''latest'', PDict latest)])"

definition group_backups_by_vmid :: "dict list \<Rightarrow> dict list" where
  "group_backups_by_vmid rows =
     map (\<lambda>v. backup_group v (snapshots_of rows v)) (sort (remdups (List.map_filter row_vmid rows)))"

lemma newest_first_facts:
  "mset (newest_first rows) = mset rows" "sorted_wrt (\<lambda>a b. row_time b \<le> row_time a) (newest_first rows)"
  unfolding newest_first_def using sorted_sort_key [of row_time "rev rows"]
  by (simp_all add: sorted_wrt_rev sorted_map)

text \<open>The groups are in the order of their ids, one for each id that some row has, and together they hold exactly the rows
  with an id, each as often as it is listed.\<close>

lemma groups_partition:
  "map (\<lambda>g. dget g ''vmid'') (group_backups_by_vmid rows) = map PInt (sort (remdups (List.map_filter row_vmid rows)))"
  "(\<Sum>v \<leftarrow> sort (remdups (List.map_filter row_vmid rows)). mset (snapshots_of rows v)) =
     mset (filter (\<lambda>row. row_vmid row \<noteq> None) rows)"
proof -
  show "map (\<lambda>g. dget g ''vmid'') (group_backups_by_vmid rows) = map PInt (sort (remdups (List.map_filter row_vmid rows)))"
    by (simp add: group_backups_by_vmid_def backup_group_def Let_def dget_def dget_or_def)
  have "(\<Sum>v \<leftarrow> ks. mset (filter (\<lambda>row. row_vmid row = Some v) xs)) = mset (filter (\<lambda>row. row_vmid row \<noteq> None) xs)"
    if "distinct ks" "\<forall>x \<in> set xs. \<forall>v. row_vmid x = Some v \<longrightarrow> v \<in> set ks" for ks xs
    using that(2)
  proof (induction xs)
    case (Cons x xs)
    have "(\<Sum>v \<leftarrow> ks. if row_vmid x = Some v then {#x#} else {#}) = (if row_vmid x = None then {#} else {#x#})"
      using that(1) Cons.prems
      by (cases "row_vmid x") (auto simp: sum_list_distinct_conv_sum_set sum.delta)
    moreover have "mset (filter (\<lambda>row. row_vmid row = Some v) (x # xs)) =
        (if row_vmid x = Some v then {#x#} else {#}) + mset (filter (\<lambda>row. row_vmid row = Some v) xs)" for v
      by simp
    ultimately show ?case using Cons by (simp only: sum_list_addf) simp
  qed simp
  moreover have "v \<in> set (List.map_filter row_vmid rows)" if "x \<in> set rows" "row_vmid x = Some v" for x v
    using that by (force simp: List.map_filter_def)
  ultimately show "(\<Sum>v \<leftarrow> sort (remdups (List.map_filter row_vmid rows)). mset (snapshots_of rows v)) =
     mset (filter (\<lambda>row. row_vmid row \<noteq> None) rows)"
    by (simp add: snapshots_of_def newest_first_facts(1))
qed

subsection \<open>Dashboards\<close>

definition dashboard_link :: "string \<Rightarrow> dict \<Rightarrow> dict option" where
  "dashboard_link base row =
     (let uid = str_strip row ''uid''; path0 = str_strip row ''path'';
          title = strip (py_str (py_or (dget row ''title'') (PStr (or_default uid ''Dashboard''))));
          dash_id = strip (py_str (py_or (dget row ''id'') (PStr (or_default uid title))));
          path = (if path0 = [] \<and> uid \<noteq> [] then ''/d/'' @ uid @ ''/'' @ uid @ ''?orgId=1&kiosk&theme=dark'' else path0)
      in if base \<noteq> [] \<and> path \<noteq> [] then
           Some [(''id'', PStr dash_id), (''title'', PStr title), (''uid'', PStr uid), (''path'', PStr path),
                 (''embed_url'', PStr (base @ (if startswith ''/'' path then path else ''/'' @ path)))]
         else None)"

definition default_dashboard :: "string \<Rightarrow> dict" where
  "default_dashboard base =
     (let path = ''/d/restore-infra/restore-infra?orgId=1&kiosk&theme=dark''
      in [(''id'', PStr ''infra''), (''title'', PStr ''Infra''), (''uid'', PStr ''restore-infra''), (''path'', PStr path),
          (''embed_url'', PStr (base @ path))])"

definition grafana_config :: "dict \<Rightarrow> dict" where
  "grafana_config g =
     (let base = rstrip_chars ''/'' (str_strip g ''base_url'');
          listed = (case dget g ''dashboards'' of PList rows \<Rightarrow> List.map_filter (dashboard_link base) (dict_rows rows) | _ \<Rightarrow> [])
      in [(''base_url'', PStr base),
          (''dashboards'', PList (map PDict (if base \<noteq> [] \<and> listed = [] then [default_dashboard base] else listed)))])"

text \<open>The argument is the section of the configuration, \<open>None\<close> when it is missing.\<close>

definition monitoring_config :: "pyval \<Rightarrow> dict" where
  "monitoring_config mon =
     (case mon of
        PDict m \<Rightarrow>
          [(''enabled'', PBool (truthy (dget_or m ''enabled'' (PBool True)))),
           (''api_snapshot'', PBool (truthy (dget_or m ''api_snapshot'' (PBool True)))),
           (''grafana'', PDict (case dget m ''grafana'' of PDict g \<Rightarrow> grafana_config g | _ \<Rightarrow> []))]
      | _ \<Rightarrow> [(''enabled'', PBool True), (''api_snapshot'', PBool True), (''grafana'', PDict [])])"

end
