(* ===== verification/ApiReads.thy ===== *)
theory ApiReads
  imports UiConfig Inventory Compliance
begin

text \<open>
  The endpoints of \<open>main.py\<close> that only read: the stored reports and their download, the audit log and the
  compliance dashboard. A download is its body, its media type and the name of the file.
\<close>

definition report_not_found :: exn where
  "report_not_found = HTTPException 404 ''Report not found''"

definition api_list_reports :: "cfg \<Rightarrow> string option \<Rightarrow> string option \<Rightarrow> int \<Rightarrow> (world, dict list) act" where
  "api_list_reports C plan_id kind cap w = (Inr (list_reports C plan_id kind cap w), w)"

definition stored_report :: "cfg \<Rightarrow> string \<Rightarrow> world \<Rightarrow> exn + dict" where
  "stored_report C i w =
     (case get_report C i w of None \<Rightarrow> Inl report_not_found | Some d \<Rightarrow> if d = [] then Inl report_not_found else Inr d)"

definition api_get_report :: "cfg \<Rightarrow> string \<Rightarrow> (world, dict) act" where
  "api_get_report C i w = (stored_report C i w, w)"

definition safe_name :: "string \<Rightarrow> string" where
  "safe_name t = take 80 (map (\<lambda>c. if is_alnum c \<or> c \<in> set ''-_'' then c else CHR ''_'') t)"

record download =
  dl_body :: pyval
  dl_media :: string
  dl_filename :: string

definition report_download :: "string \<Rightarrow> string \<Rightarrow> dict \<Rightarrow> download" where
  "report_download report_id fmt d =
     (let name = or_default (safe_name (py_str (py_or (dget d ''title'') (PStr report_id)))) report_id
      in if lower (strip (or_default fmt ''md'')) \<in> {''html'', ''htm''} then
           \<lparr>dl_body = py_or (dget d ''html'') (PStr []), dl_media = ''text/html; charset=utf-8'',
            dl_filename = name @ ''.html''\<rparr>
         else
           \<lparr>dl_body = py_or (dget d ''markdown'') (PStr []), dl_media = ''text/markdown; charset=utf-8'',
            dl_filename = name @ ''.md''\<rparr>)"

definition api_download_report :: "cfg \<Rightarrow> string \<Rightarrow> string \<Rightarrow> (world, download) act" where
  "api_download_report C i fmt w = (res_bind (stored_report C i w) (\<lambda>d. Inr (report_download i fmt d)), w)"

definition list_audit_log :: "cfg \<Rightarrow> int \<Rightarrow> int \<Rightarrow> (world, dict list \<times> int \<times> int) act" where
  "list_audit_log C offset cap w = (Inr (list_audit C cap offset w, offset, cap), w)"

definition api_compliance_dashboard :: "env \<Rightarrow> cfg \<Rightarrow> (world, dict list \<times> posture_counts \<times> string) act" where
  "api_compliance_dashboard E C w = (compliance_dashboard E C w, w)"

lemma safe_name_chars: "c \<in> set (safe_name t) \<Longrightarrow> is_alnum c \<or> c \<in> set ''-_''"
  by (auto simp: safe_name_def dest!: in_set_takeD)

text \<open>The header that names the file cannot be broken up: the name has letters, digits, dashes, underscores and the dot of
  its suffix, whatever the title of the report is.\<close>

lemma download_name_safe:
  assumes "py_str (py_or (dget d ''title'') (PStr i)) \<noteq> []" "c \<in> set (dl_filename (report_download i fmt d))"
  shows "is_alnum c \<or> c \<in> set ''-_.''"
proof -
  let ?t = "py_str (py_or (dget d ''title'') (PStr i))"
  have "safe_name ?t \<noteq> []" using assms(1) by (simp add: safe_name_def)
  then have "dl_filename (report_download i fmt d) \<in> {safe_name ?t @ ''.html'', safe_name ?t @ ''.md''}"
    by (simp add: report_download_def or_default_def Let_def)
  with assms(2) have c: "c \<in> set (safe_name ?t) \<or> c \<in> set ''.html'' \<or> c \<in> set ''.md''"
    by (elim insertE; simp only: set_append Un_iff) blast+
  have "\<forall>x \<in> set ''.html'' \<union> set ''.md''. is_alnum x \<or> x \<in> set ''-_.''" by code_simp
  moreover have "set ''-_'' \<subseteq> set ''-_.''" by simp
  ultimately show ?thesis using c safe_name_chars [of c ?t] by blast
qed

end
