(* ===== verification/Spec2Isabelle.thy ===== *)
theory Spec2Isabelle
  imports JobRun Jobs QueueCtl Concurrency PvePlace Entities Members ReportProps TeardownProps RunOthers
    WireProps ReadinessProps WorkerLoop ApiDemo ApiJobs UiProps ComplianceProps ProgressProps Inventory ApiReads
begin

text \<open>
  The restore engine restores virtual machines from Proxmox Backup Server (PBS) to Proxmox VE (PVE), one at a time or
  as recovery plans and drills. It is a web service (\<open>main.py\<close>, \<open>ui.py\<close>) and a worker (\<open>worker.py\<close>) that share one
  Redis database; both call PVE and PBS over HTTP. This development models its operations as functions on an explicit
  state and proves what they guarantee.

  \<^bold>\<open>How the parts interact.\<close> The API resolves backups (\<open>pbs_client.py\<close>, \<open>plans.py\<close>), chooses target ids, nodes and
  storages and writes jobs (\<open>jobs.py\<close>) into Redis. The worker claims a slot (\<open>concurrency.py\<close>), pops a job, submits the
  restore, waits for the task, stamps the guest as owned, isolates its network and boots it (\<open>worker.py\<close> over
  \<open>pve_client.py\<close>). A plan run (\<open>plans.py\<close>) enqueues its groups one after another, is advanced by the worker
  loop, and at its end is reported, judged for assurance and torn down. Readiness checks and schedules run on
  the same loop.

  \<^bold>\<open>The state.\<close> \<open>Store\<close> has the keyspace of the jobs (hashes, lists, strings, each under its full key) and the history of
  all calls to the outside; \<open>World\<close> extends it by the documents, sets, runs, reports and the audit list of the plan
  module. The outside world is the record \<open>env\<close>: an answer for every call after every history, the clock, the
  identifiers and the requests to cancel. No answer is assumed except where a theorem names a hypothesis such as
  \<open>clock_ok\<close> or a well-behaved Proxmox. An operation that can raise has type \<open>exn + 'a\<close>; one that also changes
  state returns the state it reached, also when it raises.

  \<^bold>\<open>Theories and sources.\<close>
  \<^item> Python: \<open>Prelude\<close> (results, actions), \<open>PyStr\<close>, \<open>PyVal\<close>, \<open>PyDict\<close> (strings, JSON values, dictionaries), \<open>PyTime\<close>,
    \<open>PyDate\<close> (ISO time stamps both ways), \<open>PyRegex\<close> (a backtracking matcher).
  \<^item> \<open>States\<close>: \<open>states.py\<close>. \<open>PvePlace\<close>, \<open>PveGuest\<close>, \<open>PveTask\<close>: \<open>pve_client.py\<close> (placement, guests and ownership,
    connection and tasks). \<open>Jobs\<close>: \<open>jobs.py\<close>. \<open>QueueCtl\<close>: \<open>queue_control.py\<close>, \<open>job_hygiene.py\<close>. \<open>Concurrency\<close>:
    \<open>concurrency.py\<close>. \<open>Worker\<close>: \<open>process_job\<close> and \<open>run_job\<close> of \<open>worker.py\<close>, phase by phase; \<open>JobFuel\<close>,
    \<open>JobEvidence\<close> and \<open>JobRun\<close>: that runs of jobs end, what a completed one has done, and when one completes; \<open>WorkerLoop\<close>: the
    loop of the worker and the scheduled starts.
  \<^item> \<open>Entities\<close>, \<open>Members\<close>, \<open>Aggregate\<close>, \<open>PlanRuns\<close>, \<open>Teardown\<close>, \<open>Schedule\<close>, \<open>Readiness\<close>: \<open>plans.py\<close>. \<open>Reports\<close> and
    \<open>Compliance\<close>: \<open>reports.py\<close>. \<open>Notify\<close>: \<open>notifications.py\<close>. \<open>AuditLog\<close>: \<open>audit.py\<close>.
  \<^item> \<open>PbsClient\<close>: \<open>sources.py\<close>, \<open>pbs_client.py\<close>. \<open>Wire\<close>: \<open>pbs_wire.py\<close>. \<open>Progress\<close>: \<open>progress_parse.py\<close> and the polls of
    the worker. \<open>Inventory\<close>: \<open>backup_inventory.py\<close> and \<open>monitoring_config\<close> of \<open>metrics_collect.py\<close>.
  \<^item> \<open>Api\<close>, \<open>ApiPlans\<close>, \<open>ApiJobs\<close>, \<open>ApiReads\<close>: the endpoints of \<open>main.py\<close>. \<open>UiAuth\<close>, \<open>UiConfig\<close>: \<open>ui.py\<close>.
  \<^item> The theories whose names end in \<open>Props\<close>, with \<open>RunInv\<close>, \<open>RunSteps\<close>, \<open>RunEffects\<close>, \<open>RunOthers\<close>, \<open>JobFuel\<close>,
    \<open>JobEvidence\<close>, \<open>JobRun\<close> and \<open>ApiDemo\<close>, hold proofs and examples.
  Definitions keep the names of the source; a prefix \<open>api_\<close> marks an endpoint whose name is also that of a function.

  \<^bold>\<open>What is shown.\<close>
  \<^item> Guests: nothing is destroyed that does not carry the ownership marker or that the run did not create, the marker
    survives its round trip, isolation changes exactly the net devices, ids in use are never taken, the node
    assignment is optimal (\<open>PveGuest\<close>, \<open>PvePlace\<close>, \<open>Jobs\<close>, \<open>TeardownProps\<close>).
  \<^item> Jobs: every run of a job ends in a terminal state and gives its slot back, with a positive task timeout or, as with the
    default of no timeout, when the tasks of PVE end after some number of polls; a completed job has the evidence of all
    its phases in the call history, a start or stop of the guest included; no other job is touched, the slots refine an abstract counter that no
    interleaving drives above the cap, stopping and draining settle what they should (\<open>JobRun\<close>, \<open>Concurrency\<close>, \<open>QueueCtl\<close>,
    \<open>ApiJobs\<close>).
  \<^item> Plan runs: \<open>RunSteps\<close> has the step relation of starts, advances, cancellations, teardowns, runs of jobs and any other operation
    that writes no run, in any order, whatever such an operation does to the jobs; that groups start in order is stated over
    the jobs that were seen to have ended, since a hash may expire and a stopped queue may be undone. \<open>RunOthers\<close> shows that
    stopping, draining, purging and expiry are such steps; \<open>RunProps\<close> its invariant and the finality of runs that have ended; \<open>RunEffects\<close> the verdicts, cancellations
    and teardowns; \<open>ReadinessProps\<close> that a verified plan passed its check, with the
    answers of PBS and PVE at its own calls; \<open>ApiProps\<close> the gates before a run.
  \<^item> Access and configuration: what the roles may do, that the views do not depend on secrets, and that saving a view keeps
    them, except for a server of the old \<open>pbs\<close> block (\<open>UiProps\<close>).
  \<^item> Reports, schedules, estimates: retention, escaping, the agreement of the dashboard with the scheduler, bounds of all
    progress and usage figures (\<open>ReportProps\<close>, \<open>ComplianceProps\<close>, \<open>ProgressProps\<close>, \<open>WireProps\<close>).
  Several theorems state behaviour that the code does not intend: a start whose first batch fails is later reported as
  completed, the isolation gate misses one kind of drill, the scheduler takes a verification downgrade back, a plan that
  requires an HTTP check is never assured, a server of the old configuration that is saved without its secrets, an overdue flag without a start, and a pattern that loses the duration of a log line.

  \<^bold>\<open>Interfaces.\<close> Three locales: \<open>state_preorder\<close> (\<open>Prelude\<close>), the frame logic that the call history, the emitted
  calls, the changes of one job and the guarded teardown instantiate; \<open>entity_store\<close> (\<open>World\<close>), the laws of saved
  documents, for groups, locations and plans; \<open>enqueue_contract\<close> (\<open>RunInv\<close>), what plan runs rely on from \<open>enqueue_restores\<close>.

  \<^bold>\<open>Bounds and fuel.\<close> The loops that poll the outside take the fuel of \<open>env\<close> and end with \<open>OutOfFuel\<close> without it. The
  theorems on termination give a sufficient amount: more iterations than the timeout has poll intervals for a task,
  and a constant for the waits of at most ninety seconds; so a statement that a job ends never assumes that it does. The numbering of
  server ids and the regular expressions recurse on lengths that bound them, and lemmas show that these suffice
  (\<open>unique_id_free\<close>) or every step consumes a character.

  \<^bold>\<open>Simplifications.\<close> Strings are ASCII or UTF-8 bytes; floats are rationals without rounding; Redis commands are atomic
  and do not fail, the clock moves with the calls to the outside only, and interleaving of processes is at the level of the step relations; threads that read several
  backups at once are read in order; JSON numbers with a fraction do not occur in values.

  \<^bold>\<open>Not modelled.\<close> The wire protocol of the PBS reader and the TLS context (sockets and libraries: their results are
  answers of \<open>env\<close>), the node and server samples of \<open>metrics_collect.py\<close> (fractions for display), the job log endpoint
  (it decodes JSON), the start of the processes and the static pages, and the probe script, which is no part of the service.
\<close>

end
